(* ===== verification/Prelude.thy ===== *)
theory Prelude
  imports Main "HOL-Library.Word"
begin

text \<open>
  Shared vocabulary of the development: fixed-width integers of the Rust code, the result
  type of fallible operations, state-passing operations over a state that counts the calls
  made to the outside world, and generic lemmas on them.

  Integers. A Rust \<open>i64\<close> or \<open>u64\<close> is an \<open>int\<close> in the range of its type; arithmetic that
  may leave the range goes through \<open>wrap_i64\<close> / \<open>wrap_u64\<close>, which is what a release build
  (the only profile the repository configures, without overflow checks) computes.

  Results. \<open>'a res\<close> is \<open>Result\<close> extended with panics: \<open>Failure e\<close> is an \<open>Err(e)\<close> that a
  caller can match on and \<open>?\<close> propagates, \<open>Panic msg\<close> unwinds through every caller, and
  \<open>Diverged\<close> stands for a loop that does not return.

  Operations. \<open>('s, 'a) op\<close> takes the state and returns a result with the new state.
  External calls (RPC nodes, contracts, the prover network, the database server) are
  functions of an environment record indexed by the number of calls already made, so every
  sequence of answers and every pattern of failures is covered by quantifying over the
  environment.
\<close>

named_theorems keeps_intros \<open>rules that an operation preserves a state predicate\<close>
named_theorems tick_intros \<open>rules that an operation changes nothing but the call counter\<close>
named_theorems answers_intros \<open>rules that an operation always returns a value\<close>
named_theorems op_defs \<open>unfolding rules of the operation combinators\<close>

subsection \<open>Fixed-width integers\<close>

definition i64_max :: int where "i64_max = 2 ^ 63 - 1"
definition i64_min :: int where "i64_min = - (2 ^ 63)"
definition u64_max :: int where "u64_max = 2 ^ 64 - 1"
definition u32_max :: int where "u32_max = 2 ^ 32 - 1"
definition u256_max :: int where "u256_max = 2 ^ 256 - 1"

definition is_i64 :: "int \<Rightarrow> bool" where "is_i64 x \<longleftrightarrow> i64_min \<le> x \<and> x \<le> i64_max"
definition is_u64 :: "int \<Rightarrow> bool" where "is_u64 x \<longleftrightarrow> 0 \<le> x \<and> x \<le> u64_max"
definition is_u256 :: "int \<Rightarrow> bool" where "is_u256 x \<longleftrightarrow> 0 \<le> x \<and> x \<le> u256_max"

definition wrap_u64 :: "int \<Rightarrow> int" where "wrap_u64 x = x mod 2 ^ 64"
definition wrap_u128 :: "int \<Rightarrow> int" where "wrap_u128 x = x mod 2 ^ 128"
definition wrap_u256 :: "int \<Rightarrow> int" where "wrap_u256 x = x mod 2 ^ 256"
definition wrap_i64 :: "int \<Rightarrow> int" where "wrap_i64 x = (x + 2 ^ 63) mod 2 ^ 64 - 2 ^ 63"

text \<open>\<open>x as i64\<close> and \<open>x as u64\<close> reinterpret the 64 bits.\<close>

abbreviation as_i64 :: "int \<Rightarrow> int" where "as_i64 \<equiv> wrap_i64"
abbreviation as_u64 :: "int \<Rightarrow> int" where "as_u64 \<equiv> wrap_u64"

text \<open>\<open>saturating_sub\<close> on unsigned values, and truncating division on signed ones.\<close>

definition sat_sub :: "int \<Rightarrow> int \<Rightarrow> int" where "sat_sub a b = (if b \<le> a then a - b else 0)"

definition tdiv :: "int \<Rightarrow> int \<Rightarrow> int" where
  "tdiv a b = sgn a * sgn b * (\<bar>a\<bar> div \<bar>b\<bar>)"

lemmas int_bounds = i64_max_def i64_min_def u64_max_def u32_max_def u256_max_def
  is_i64_def is_u64_def is_u256_def

lemma wrap_i64_id [simp]: "is_i64 x \<Longrightarrow> wrap_i64 x = x"
  by (simp add: wrap_i64_def int_bounds)

lemma wrap_u64_id [simp]: "is_u64 x \<Longrightarrow> wrap_u64 x = x"
  by (simp add: wrap_u64_def int_bounds)

lemma wrap_u256_id [simp]: "is_u256 x \<Longrightarrow> wrap_u256 x = x"
  by (simp add: wrap_u256_def int_bounds)

lemma wrap_i64_range [simp]: "is_i64 (wrap_i64 x)"
proof -
  have "0 \<le> (x + 2 ^ 63) mod 2 ^ 64" "(x + 2 ^ 63) mod 2 ^ 64 < (2 ^ 64 :: int)"
    by simp_all
  then show ?thesis by (simp add: wrap_i64_def int_bounds)
qed

lemma wrap_u64_range [simp]: "is_u64 (wrap_u64 x)"
proof -
  have "0 \<le> x mod 2 ^ 64" "x mod 2 ^ 64 < (2 ^ 64 :: int)" by simp_all
  then show ?thesis by (simp add: wrap_u64_def int_bounds)
qed

lemma wrap_u64_0 [simp]: "wrap_u64 0 = 0"
  by (simp add: wrap_u64_def)

lemma wrap_u64_minus_1: "wrap_u64 (- 1) = u64_max"
  by (simp add: wrap_u64_def u64_max_def)

lemma tdiv_2_nonneg: "0 \<le> a \<Longrightarrow> tdiv a 2 = a div 2"
  by (simp add: tdiv_def sgn_if)

subsection \<open>Results\<close>

datatype error =
    RpcError
  | DbError
  | TxError
  | Msg string

datatype fault = Failure error | Panic string | Diverged

type_synonym 'a res = "fault + 'a"

abbreviation Ok :: "'a \<Rightarrow> 'a res" where "Ok \<equiv> Inr"

abbreviation Err :: "error \<Rightarrow> 'a res" where "Err e \<equiv> Inl (Failure e)"

definition is_ok :: "'a res \<Rightarrow> bool" where "is_ok r = (case r of Inl _ \<Rightarrow> False | Inr _ \<Rightarrow> True)"

lemma is_ok_simps [simp]: "is_ok (Inr x)" "\<not> is_ok (Inl e)"
  by (simp_all add: is_ok_def)

definition res_bind :: "'a res \<Rightarrow> ('a \<Rightarrow> 'b res) \<Rightarrow> 'b res" where
  "res_bind r f = (case r of Inl e \<Rightarrow> Inl e | Inr x \<Rightarrow> f x)"

lemma res_bind_simps [simp]: "res_bind (Inl e) f = Inl e" "res_bind (Inr x) f = f x"
  by (simp_all add: res_bind_def)

lemma res_bind_Ok_iff: "res_bind r f = Inr y \<longleftrightarrow> (\<exists>x. r = Inr x \<and> f x = Inr y)"
  by (cases r) auto

text \<open>A fallible function on every element, stopping at the first fault.\<close>

fun map_res :: "('a \<Rightarrow> 'b res) \<Rightarrow> 'a list \<Rightarrow> 'b list res" where
  "map_res f [] = Ok []"
| "map_res f (x # xs) = res_bind (f x) (\<lambda>y. res_bind (map_res f xs) (\<lambda>ys. Ok (y # ys)))"

lemma map_res_Ok_iff: "map_res f xs = Inr ys \<longleftrightarrow> list_all2 (\<lambda>x y. f x = Inr y) xs ys"
  by (induction xs arbitrary: ys) (auto simp: res_bind_Ok_iff list_all2_Cons1)

text \<open>\<open>assert!\<close> and \<open>unwrap\<close>.\<close>

definition ensure :: "bool \<Rightarrow> string \<Rightarrow> unit res" where
  "ensure b m = (if b then Ok () else Inl (Panic m))"

definition unwrap :: "'a option \<Rightarrow> string \<Rightarrow> 'a res" where
  "unwrap x m = (case x of None \<Rightarrow> Inl (Panic m) | Some v \<Rightarrow> Ok v)"

lemma ensure_Ok_iff [simp]: "ensure b m = Inr u \<longleftrightarrow> b"
  by (simp add: ensure_def)

lemma unwrap_Ok_iff [simp]: "unwrap x m = Inr v \<longleftrightarrow> x = Some v"
  by (cases x) (simp_all add: unwrap_def)

subsection \<open>Operations on a state\<close>

type_synonym ('s, 'a) op = "'s \<Rightarrow> 'a res \<times> 's"

definition ret :: "'a \<Rightarrow> ('s, 'a) op" where "ret x = (\<lambda>s. (Ok x, s))"

definition throw :: "fault \<Rightarrow> ('s, 'a) op" where "throw f = (\<lambda>s. (Inl f, s))"

definition andThen :: "('s, 'a) op \<Rightarrow> ('a \<Rightarrow> ('s, 'b) op) \<Rightarrow> ('s, 'b) op" where
  "andThen m f = (\<lambda>s. case m s of (Inl e, s') \<Rightarrow> (Inl e, s') | (Inr x, s') \<Rightarrow> f x s')"

definition lift :: "'a res \<Rightarrow> ('s, 'a) op" where "lift r = (\<lambda>s. (r, s))"

definition asks :: "('s \<Rightarrow> 'a) \<Rightarrow> ('s, 'a) op" where "asks f = (\<lambda>s. (Ok (f s), s))"

definition update :: "('s \<Rightarrow> 's) \<Rightarrow> ('s, unit) op" where "update f = (\<lambda>s. (Ok (), f s))"

text \<open>\<open>match m { Ok(x) => f x, Err(e) => h e }\<close>: a panic is not caught.\<close>

definition onErr :: "('s, 'a) op \<Rightarrow> ('a \<Rightarrow> ('s, 'b) op) \<Rightarrow> (error \<Rightarrow> ('s, 'b) op) \<Rightarrow> ('s, 'b) op"
  where "onErr m f h = (\<lambda>s. case m s of
      (Inr x, s') \<Rightarrow> f x s'
    | (Inl (Failure e), s') \<Rightarrow> h e s'
    | (Inl (Panic p), s') \<Rightarrow> (Inl (Panic p), s')
    | (Inl Diverged, s') \<Rightarrow> (Inl Diverged, s'))"

text \<open>The \<open>Result\<close> of \<open>m\<close> as a value, and collecting a list of such values.\<close>

definition attempt :: "('s, 'a) op \<Rightarrow> ('s, error + 'a) op" where
  "attempt m = onErr m (\<lambda>x. ret (Inr x)) (\<lambda>e. ret (Inl e))"

fun collect_results :: "(error + 'a) list \<Rightarrow> 'a list res" where
  "collect_results [] = Ok []"
| "collect_results (Inl e # rs) = Err e"
| "collect_results (Inr x # rs) = res_bind (collect_results rs) (\<lambda>xs. Ok (x # xs))"

text \<open>A loop defined by \<open>partial_function\<close> as an operation.\<close>

definition run_loop :: "('s \<Rightarrow> ('a res \<times> 's) option) \<Rightarrow> ('s, 'a) op" where
  "run_loop f = (\<lambda>s. case f s of None \<Rightarrow> (Inl Diverged, s) | Some r \<Rightarrow> r)"

fun forEach :: "('x \<Rightarrow> ('s, unit) op) \<Rightarrow> 'x list \<Rightarrow> ('s, unit) op" where
  "forEach f [] = ret ()"
| "forEach f (x # xs) = andThen (f x) (\<lambda>_. forEach f xs)"

fun traverse :: "('x \<Rightarrow> ('s, 'y) op) \<Rightarrow> 'x list \<Rightarrow> ('s, 'y list) op" where
  "traverse f [] = ret []"
| "traverse f (x # xs) = andThen (f x) (\<lambda>y. andThen (traverse f xs) (\<lambda>ys. ret (y # ys)))"

lemmas [op_defs] = ret_def throw_def andThen_def lift_def asks_def update_def onErr_def
  attempt_def

subsubsection \<open>Preserving a predicate\<close>

definition keeps :: "('s \<Rightarrow> bool) \<Rightarrow> ('s, 'a) op \<Rightarrow> bool" where
  "keeps P m \<longleftrightarrow> (\<forall>s. P s \<longrightarrow> P (snd (m s)))"

lemma keepsI: "(\<And>s. P s \<Longrightarrow> P (snd (m s))) \<Longrightarrow> keeps P m"
  by (simp add: keeps_def)

lemma keepsD: "keeps P m \<Longrightarrow> P s \<Longrightarrow> P (snd (m s))"
  by (simp add: keeps_def)

lemma keeps_basic [keeps_intros]:
  "keeps P (ret x)" "keeps P (throw f)" "keeps P (lift r)" "keeps P (asks g)"
  by (simp_all add: keeps_def op_defs)

lemma keeps_update [keeps_intros]: "(\<And>s. P s \<Longrightarrow> P (f s)) \<Longrightarrow> keeps P (update f)"
  by (simp add: keeps_def op_defs)

lemma keeps_andThen [keeps_intros]:
  assumes "keeps P m" and "\<And>x. keeps P (f x)"
  shows "keeps P (andThen m f)"
proof (rule keepsI)
  fix s assume "P s"
  then have m: "P (snd (m s))" by (rule keepsD [OF assms(1)])
  show "P (snd (andThen m f s))"
  proof (cases "m s")
    case (Pair r s')
    show ?thesis
      using m keepsD [OF assms(2)] Pair by (cases r) (auto simp: andThen_def)
  qed
qed

lemma keeps_onErr [keeps_intros]:
  assumes "keeps P m" and "\<And>x. keeps P (f x)" and "\<And>e. keeps P (h e)"
  shows "keeps P (onErr m f h)"
proof (rule keepsI)
  fix s assume "P s"
  then have m: "P (snd (m s))" by (rule keepsD [OF assms(1)])
  show "P (snd (onErr m f h s))"
    using m keepsD [OF assms(2)] keepsD [OF assms(3)]
    by (auto simp: onErr_def split: prod.splits sum.splits fault.splits)
qed

lemma keeps_attempt [keeps_intros]: "keeps P m \<Longrightarrow> keeps P (attempt m)"
  unfolding attempt_def by (intro keeps_intros)

lemma keeps_forEach [keeps_intros]: "(\<And>x. keeps P (f x)) \<Longrightarrow> keeps P (forEach f xs)"
  by (induction xs) (auto intro: keeps_intros)

lemma keeps_forEach_mem: "(\<And>x. x \<in> set xs \<Longrightarrow> keeps P (f x)) \<Longrightarrow> keeps P (forEach f xs)"
  by (induction xs) (auto intro: keeps_intros)

lemma keeps_traverse [keeps_intros]: "(\<And>x. keeps P (f x)) \<Longrightarrow> keeps P (traverse f xs)"
  by (induction xs) (auto intro!: keeps_intros)

lemma keeps_if [keeps_intros]:
  "(b \<Longrightarrow> keeps P m) \<Longrightarrow> (\<not> b \<Longrightarrow> keeps P n) \<Longrightarrow> keeps P (if b then m else n)"
  by simp

lemma keeps_case_option [keeps_intros]:
  "(x = None \<Longrightarrow> keeps P m) \<Longrightarrow> (\<And>y. x = Some y \<Longrightarrow> keeps P (f y)) \<Longrightarrow>
   keeps P (case x of None \<Rightarrow> m | Some y \<Rightarrow> f y)"
  by (cases x) auto

subsubsection \<open>Pre- and postconditions\<close>

text \<open>
  \<open>triple P m Q E\<close>: from a state with \<open>P\<close>, a normal return \<open>x\<close> leaves \<open>Q x\<close> and a fault
  leaves \<open>E\<close>.
\<close>

definition triple ::
  "('s \<Rightarrow> bool) \<Rightarrow> ('s, 'a) op \<Rightarrow> ('a \<Rightarrow> 's \<Rightarrow> bool) \<Rightarrow> ('s \<Rightarrow> bool) \<Rightarrow> bool" where
  "triple P m Q E \<longleftrightarrow>
     (\<forall>s. P s \<longrightarrow> (case m s of (Inr x, s') \<Rightarrow> Q x s' | (Inl e, s') \<Rightarrow> E s'))"

lemma triple_andThen:
  assumes "triple P m R E" and "\<And>x. triple (R x) (f x) Q E"
  shows "triple P (andThen m f) Q E"
  unfolding triple_def
proof (intro allI impI)
  fix s assume P: "P s"
  show "case andThen m f s of (Inr x, s') \<Rightarrow> Q x s' | (Inl e, s') \<Rightarrow> E s'"
    using assms P
    by (cases "m s"; cases "fst (m s)") (force simp: triple_def andThen_def)+
qed

lemma triple_keeps: "keeps P m \<Longrightarrow> triple P m (\<lambda>_. P) P"
  by (force simp: triple_def keeps_def split: prod.splits sum.splits)

lemma andThen_Ok_iff:
  "fst (andThen m f s) = Inr y \<longleftrightarrow>
     (\<exists>x s'. m s = (Inr x, s') \<and> fst (f x s') = Inr y)"
  by (auto simp: andThen_def split: prod.splits sum.splits)

lemma andThen_eq_Ok:
  "andThen m f s = (Inr y, t) \<longleftrightarrow> (\<exists>x s'. m s = (Inr x, s') \<and> f x s' = (Inr y, t))"
  by (auto simp: andThen_def split: prod.splits sum.splits)

subsection \<open>Calls to the outside world\<close>

text \<open>
  The state of every component that talks to the outside world extends \<open>io\<close>, whose
  \<open>tick\<close> counts the calls made so far. \<open>call f\<close> makes one call, whose answer the
  environment fixes as \<open>f\<close> of the tick.
\<close>

record io =
  tick :: nat

definition call :: "(nat \<Rightarrow> error + 'a) \<Rightarrow> ('z io_scheme, 'a) op" where
  "call f = (\<lambda>s. (case f (tick s) of Inl e \<Rightarrow> Err e | Inr x \<Rightarrow> Ok x, s\<lparr>tick := Suc (tick s)\<rparr>))"

lemma keeps_call [keeps_intros]:
  "(\<And>s. P s \<Longrightarrow> P (s\<lparr>tick := Suc (tick s)\<rparr>)) \<Longrightarrow> keeps P (call f)"
  by (simp add: keeps_def call_def)

lemma tick_later: "\<exists>k. s\<lparr>tick := Suc (tick s + j)\<rparr> = s\<lparr>tick := tick s + k\<rparr>"
  by (rule exI [of _ "Suc j"]) simp

text \<open>Operations that only read from the outside world: the call counter is all they change.\<close>

definition tick_only :: "('z io_scheme, 'a) op \<Rightarrow> bool" where
  "tick_only m \<longleftrightarrow> (\<forall>s. \<exists>k. snd (m s) = s\<lparr>tick := k\<rparr>)"

lemma tick_onlyI: "(\<And>s. \<exists>k. snd (m s) = s\<lparr>tick := k\<rparr>) \<Longrightarrow> tick_only m"
  by (simp add: tick_only_def)

lemma tick_onlyD: "tick_only m \<Longrightarrow> m s = (r, s') \<Longrightarrow> \<exists>k. s' = s\<lparr>tick := k\<rparr>"
  unfolding tick_only_def by (metis snd_conv)

lemma tick_only_same: "\<exists>k. s = s\<lparr>tick := k\<rparr>"
  by (rule exI [of _ "tick s"]) simp

lemma tick_only_basic [tick_intros]:
  "tick_only (ret x)" "tick_only (throw f)" "tick_only (lift r)" "tick_only (asks g)"
  "tick_only (call c)"
  by (auto simp: tick_only_def op_defs call_def intro: tick_only_same)

lemma tick_only_andThen [tick_intros]:
  assumes "tick_only m" and "\<And>x. tick_only (f x)"
  shows "tick_only (andThen m f)"
proof (rule tick_onlyI)
  fix s
  obtain r s' where m: "m s = (r, s')" by fastforce
  then obtain k where k: "s' = s\<lparr>tick := k\<rparr>" using tick_onlyD [OF assms(1)] by blast
  show "\<exists>k. snd (andThen m f s) = s\<lparr>tick := k\<rparr>"
  proof (cases r)
    case (Inl e)
    then show ?thesis using m k by (auto simp: andThen_def)
  next
    case (Inr x)
    obtain j where "snd (f x s') = s'\<lparr>tick := j\<rparr>" using assms(2) by (auto simp: tick_only_def)
    then show ?thesis using m k Inr by (auto simp: andThen_def)
  qed
qed

lemma tick_only_onErr [tick_intros]:
  assumes "tick_only m" and "\<And>x. tick_only (f x)" and "\<And>e. tick_only (h e)"
  shows "tick_only (onErr m f h)"
proof (rule tick_onlyI)
  fix s
  obtain r s' where m: "m s = (r, s')" by fastforce
  then obtain k where k: "s' = s\<lparr>tick := k\<rparr>" using tick_onlyD [OF assms(1)] by blast
  have f: "\<exists>j. snd (f x s') = s'\<lparr>tick := j\<rparr>" and h: "\<exists>j. snd (h e s') = s'\<lparr>tick := j\<rparr>" for x e
    using assms(2,3) by (auto simp: tick_only_def)
  show "\<exists>k. snd (onErr m f h s) = s\<lparr>tick := k\<rparr>"
  proof (cases r)
    case (Inl e)
    then show ?thesis using m k h by (cases e) (auto simp: onErr_def)
  next
    case (Inr x)
    then show ?thesis using m k f [of x] by (auto simp: onErr_def)
  qed
qed

lemma tick_only_attempt [tick_intros]: "tick_only m \<Longrightarrow> tick_only (attempt m)"
  unfolding attempt_def by (intro tick_intros)

lemma tick_only_traverse [tick_intros]: "(\<And>x. tick_only (f x)) \<Longrightarrow> tick_only (traverse f xs)"
  by (induction xs) (auto intro!: tick_intros)

lemma tick_only_run_loop [tick_intros]:
  "(\<And>s r s'. f s = Some (r, s') \<Longrightarrow> \<exists>k. s' = s\<lparr>tick := k\<rparr>) \<Longrightarrow> tick_only (run_loop f)"
  by (force simp: tick_only_def run_loop_def split: option.splits intro: tick_only_same)

lemma tick_only_if [tick_intros]:
  "(b \<Longrightarrow> tick_only m) \<Longrightarrow> (\<not> b \<Longrightarrow> tick_only n) \<Longrightarrow> tick_only (if b then m else n)"
  by simp

lemma tick_only_case_option [tick_intros]:
  "tick_only m \<Longrightarrow> (\<And>y. tick_only (f y)) \<Longrightarrow> tick_only (case x of None \<Rightarrow> m | Some y \<Rightarrow> f y)"
  by (cases x) auto

lemma tick_only_case_sum [tick_intros]:
  "(\<And>y. tick_only (f y)) \<Longrightarrow> (\<And>y. tick_only (g y)) \<Longrightarrow>
   tick_only (case x of Inl y \<Rightarrow> f y | Inr y \<Rightarrow> g y)"
  by (cases x) auto

lemma keeps_tick_only:
  assumes "tick_only m" and "\<And>s k. P s \<Longrightarrow> P (s\<lparr>tick := k\<rparr>)"
  shows "keeps P m"
proof (rule keepsI)
  fix s assume "P s"
  obtain k where "snd (m s) = s\<lparr>tick := k\<rparr>" using assms(1) by (auto simp: tick_only_def)
  then show "P (snd (m s))" using assms(2) \<open>P s\<close> by simp
qed

text \<open>Operations that read from the outside world and always return \<open>x\<close>.\<close>

definition answers :: "('z io_scheme, 'a) op \<Rightarrow> 'a \<Rightarrow> bool" where
  "answers m x \<longleftrightarrow> (\<forall>s. \<exists>k. m s = (Inr x, s\<lparr>tick := k\<rparr>))"

lemma answersD: "answers m x \<Longrightarrow> fst (m s) = Inr x"
  unfolding answers_def by (metis fst_conv)

lemma answersE:
  assumes "answers m x"
  obtains k where "m s = (Inr x, s\<lparr>tick := k\<rparr>)"
  using assms unfolding answers_def by blast

lemma answers_ret [answers_intros]: "answers (ret x) x"
  by (auto simp: answers_def ret_def intro: tick_only_same)

lemma answers_lift [answers_intros]: "r = Inr x \<Longrightarrow> answers (lift r) x"
  by (auto simp: answers_def lift_def intro: tick_only_same)

lemma answers_call [answers_intros]: "(\<And>t. f t = Inr x) \<Longrightarrow> answers (call f) x"
  by (auto simp: answers_def call_def)

lemma answers_andThen [answers_intros]:
  assumes "answers m x" and "answers (f x) y"
  shows "answers (andThen m f) y"
  unfolding answers_def
proof
  fix s
  obtain k where m: "m s = (Inr x, s\<lparr>tick := k\<rparr>)" by (rule answersE [OF assms(1)])
  obtain j where "f x (s\<lparr>tick := k\<rparr>) = (Inr y, s\<lparr>tick := k\<rparr>\<lparr>tick := j\<rparr>)"
    by (rule answersE [OF assms(2)])
  then show "\<exists>k. andThen m f s = (Inr y, s\<lparr>tick := k\<rparr>)" using m by (auto simp: andThen_def)
qed

subsubsection \<open>Rules for pre- and postconditions\<close>

lemma triple_iff:
  fixes m :: "('s, 'a) op"
  shows "triple P m Q E \<longleftrightarrow> (\<forall>s. P s \<longrightarrow>
     (\<forall>x s'. m s = (Inr x, s') \<longrightarrow> Q x s') \<and> (\<forall>e s'. m s = (Inl e, s') \<longrightarrow> E s'))"
proof -
  have "(case r of (Inr x, s') \<Rightarrow> Q x s' | (Inl e, s') \<Rightarrow> E s') \<longleftrightarrow>
      (\<forall>x s'. r = (Inr x, s') \<longrightarrow> Q x s') \<and> (\<forall>e s'. r = (Inl e, s') \<longrightarrow> E s')" for r :: "'a res \<times> 's"
    by (cases r; cases "fst r") auto
  then show ?thesis unfolding triple_def by (simp only:)
qed

lemma tripleI:
  "(\<And>s x s'. P s \<Longrightarrow> m s = (Inr x, s') \<Longrightarrow> Q x s') \<Longrightarrow>
   (\<And>s e s'. P s \<Longrightarrow> m s = (Inl e, s') \<Longrightarrow> E s') \<Longrightarrow> triple P m Q E"
  unfolding triple_iff by blast

lemma triple_both: "(\<And>s x s'. P s \<Longrightarrow> m s = (x, s') \<Longrightarrow> Q s') \<Longrightarrow> triple P m (\<lambda>_. Q) Q"
  by (rule tripleI)

lemma tripleD_Ok: "triple P m Q E \<Longrightarrow> P s \<Longrightarrow> m s = (Inr x, s') \<Longrightarrow> Q x s'"
  unfolding triple_iff by blast

lemma tripleD_Err: "triple P m Q E \<Longrightarrow> P s \<Longrightarrow> m s = (Inl e, s') \<Longrightarrow> E s'"
  unfolding triple_iff by blast

lemma triple_weaken:
  "triple P m Q E \<Longrightarrow> (\<And>s. P' s \<Longrightarrow> P s) \<Longrightarrow> (\<And>x s. Q x s \<Longrightarrow> Q' x s) \<Longrightarrow>
   (\<And>s. E s \<Longrightarrow> E' s) \<Longrightarrow> triple P' m Q' E'"
  unfolding triple_iff by blast

lemma triple_ret: "(\<And>s. P s \<Longrightarrow> Q x s) \<Longrightarrow> triple P (ret x) Q E"
  by (simp add: triple_def ret_def)

lemma triple_throw: "(\<And>s. P s \<Longrightarrow> E s) \<Longrightarrow> triple P (throw f) Q E"
  by (simp add: triple_def throw_def)

lemma triple_update: "(\<And>s. P s \<Longrightarrow> Q () (f s)) \<Longrightarrow> triple P (update f) Q E"
  by (simp add: triple_def update_def)

lemma triple_asks: "(\<And>s. P s \<Longrightarrow> Q (f s) s) \<Longrightarrow> triple P (asks f) Q E"
  by (simp add: triple_def asks_def)

lemma triple_lift: "(\<And>x s. r = Inr x \<Longrightarrow> P s \<Longrightarrow> Q x s) \<Longrightarrow> (\<And>s. P s \<Longrightarrow> E s) \<Longrightarrow> triple P (lift r) Q E"
  by (cases r) (simp_all add: triple_def lift_def)

lemma triple_read:
  assumes "tick_only m" "\<And>s k. P s \<Longrightarrow> P (s\<lparr>tick := k\<rparr>)" "\<And>s. P s \<Longrightarrow> E s"
  shows "triple P m (\<lambda>_. P) E"
  by (rule tripleI) (use assms tick_onlyD [OF assms(1)] in blast)+

lemma triple_read_then:
  assumes "tick_only m" "\<And>s k. P s \<Longrightarrow> P (s\<lparr>tick := k\<rparr>)" "\<And>s. P s \<Longrightarrow> E s"
    and "\<And>x. triple P (f x) Q E"
  shows "triple P (andThen m f) Q E"
  by (rule triple_andThen [OF triple_read [where P = P, OF assms(1)] assms(4)])
    (use assms(2,3) in blast)+

lemma triple_keeps_then:
  assumes "keeps P m" "\<And>s. P s \<Longrightarrow> E s" "\<And>x. triple P (f x) Q E"
  shows "triple P (andThen m f) Q E"
  by (rule triple_andThen [OF triple_weaken [OF triple_keeps [OF assms(1)]] assms(3)]) (use assms(2) in auto)

lemma triple_onErr:
  assumes "triple P m R F" "\<And>x. triple (R x) (f x) Q E" "\<And>e. triple F (h e) Q E"
    and "\<And>s. F s \<Longrightarrow> E s"
  shows "triple P (onErr m f h) Q E"
  unfolding triple_def
proof (intro allI impI)
  fix s assume P: "P s"
  obtain r s' where m: "m s = (r, s')" by fastforce
  show "case onErr m f h s of (Inr x, s') \<Rightarrow> Q x s' | (Inl e, s') \<Rightarrow> E s'"
  proof (cases r)
    case (Inr x)
    then have "R x s'" using tripleD_Ok [OF assms(1) P] m by simp
    then show ?thesis using assms(2) [of x] m Inr by (auto simp: triple_def onErr_def)
  next
    case (Inl e)
    then have F: "F s'" using tripleD_Err [OF assms(1) P] m by simp
    then show ?thesis
    proof (cases e)
      case (Failure x)
      then show ?thesis using assms(3) [of x] m Inl F by (auto simp: triple_def onErr_def)
    qed (use m Inl F assms(4) in \<open>simp_all add: onErr_def\<close>)
  qed
qed

lemma triple_forEach:
  assumes "\<And>x xs. triple (R (x # xs)) (f x) (\<lambda>_. R xs) E"
  shows "triple (R xs) (forEach f xs) (\<lambda>_. R []) E"
proof (induction xs)
  case Nil
  then show ?case by (simp add: triple_ret)
next
  case (Cons x xs)
  show ?case by (simp only: forEach.simps) (rule triple_andThen [OF assms Cons])
qed

lemma triple_if:
  "(b \<Longrightarrow> triple P m Q E) \<Longrightarrow> (\<not> b \<Longrightarrow> triple P n Q E) \<Longrightarrow> triple P (if b then m else n) Q E"
  by simp

lemma triple_case_option:
  "(x = None \<Longrightarrow> triple P m Q E) \<Longrightarrow> (\<And>y. x = Some y \<Longrightarrow> triple P (f y) Q E) \<Longrightarrow>
   triple P (case x of None \<Rightarrow> m | Some y \<Rightarrow> f y) Q E"
  by (cases x) auto

lemma keeps_triple:
  assumes "triple P m (\<lambda>_. P) P"
  shows "keeps P m"
proof (rule keepsI)
  fix s assume P: "P s"
  obtain r s' where m: "m s = (r, s')" by fastforce
  then show "P (snd (m s))"
    using tripleD_Ok [OF assms P] tripleD_Err [OF assms P] by (cases r) auto
qed

subsection \<open>Lists\<close>

lemma sorted_wrt_last:
  "sorted_wrt P (xs @ [x]) \<longleftrightarrow> sorted_wrt P xs \<and> (\<forall>y \<in> set xs. P y x)"
  by (simp add: sorted_wrt_append)

lemma butlast_snoc_cases: "xs = [] \<or> xs = butlast xs @ [last xs]"
  by (cases xs rule: rev_cases) simp_all

type_synonym bytes = "8 word list"

text \<open>
  \<open>B256\<close> and \<open>Address\<close> are byte arrays of length 32 and 20; \<open>from_slice\<close> panics on any other
  length, and \<open>to_vec\<close> is the identity.
\<close>

type_synonym b256 = bytes
type_synonym address = bytes

definition b256_from_slice :: "bytes \<Rightarrow> b256 res" where
  "b256_from_slice v = (if length v = 32 then Ok v else Inl (Panic ''B256 from_slice''))"

definition address_from_slice :: "bytes \<Rightarrow> address res" where
  "address_from_slice v = (if length v = 20 then Ok v else Inl (Panic ''Address from_slice''))"

definition address_zero :: address where "address_zero = replicate 20 0"

text \<open>\<open>U256::to::<u64>()\<close> panics when the value does not fit.\<close>

definition u256_to_u64 :: "int \<Rightarrow> int res" where
  "u256_to_u64 x = (if x \<le> u64_max then Ok x else Inl (Panic ''Uint conversion''))"

definition u256_to_u32 :: "int \<Rightarrow> int res" where
  "u256_to_u32 x = (if x \<le> u32_max then Ok x else Inl (Panic ''Uint conversion''))"

lemma u256_to_u64_Ok_iff [simp]: "u256_to_u64 x = Inr y \<longleftrightarrow> x \<le> u64_max \<and> y = x"
  by (auto simp: u256_to_u64_def)

text \<open>Big-endian bytes of a word of 256 bits and of 32 bits, for the ABI encodings.\<close>

definition u256_be :: "int \<Rightarrow> bytes" where
  "u256_be x = map (\<lambda>i. word_of_int (x div 256 ^ i)) (rev [0..<32])"

definition u32_be :: "int \<Rightarrow> bytes" where
  "u32_be x = map (\<lambda>i. word_of_int (x div 256 ^ i)) (rev [0..<4])"

text \<open>A half-open block range and the set of blocks it stands for.\<close>

type_synonym range = "int \<times> int"

abbreviation blocks :: "range \<Rightarrow> int set" where
  "blocks r \<equiv> {fst r ..< snd r}"

definition all_blocks :: "range list \<Rightarrow> int set" where
  "all_blocks rs = (\<Union>r \<in> set rs. blocks r)"

lemma all_blocks_simps [simp]:
  "all_blocks [] = {}"
  "all_blocks (r # rs) = blocks r \<union> all_blocks rs"
  "all_blocks (xs @ ys) = all_blocks xs \<union> all_blocks ys"
  by (auto simp: all_blocks_def)

text \<open>Ranges in order without overlap, and ranges that tile an interval end to end.\<close>

definition in_order :: "range list \<Rightarrow> bool" where
  "in_order rs \<longleftrightarrow> sorted_wrt (\<lambda>r q. snd r \<le> fst q) rs"

fun tiles :: "int \<Rightarrow> range list \<Rightarrow> int \<Rightarrow> bool" where
  "tiles a [] b \<longleftrightarrow> a = b"
| "tiles a (r # rs) b \<longleftrightarrow> fst r = a \<and> fst r < snd r \<and> tiles (snd r) rs b"

lemma tiles_le: "tiles a rs b \<Longrightarrow> a \<le> b"
  by (induction rs arbitrary: a) fastforce+

lemma tiles_append:
  "tiles a (xs @ ys) c \<longleftrightarrow> (\<exists>b. tiles a xs b \<and> tiles b ys c)"
  by (induction xs arbitrary: a) auto

lemma tiles_blocks: "tiles a rs b \<Longrightarrow> all_blocks rs = {a..<b}"
proof (induction rs arbitrary: a)
  case Nil
  then show ?case by simp
next
  case (Cons r rs)
  then have "snd r \<le> b" using tiles_le by auto
  with Cons show ?case by auto
qed

lemma tiles_mem: "tiles a rs b \<Longrightarrow> r \<in> set rs \<Longrightarrow> a \<le> fst r \<and> fst r < snd r \<and> snd r \<le> b"
proof (induction rs arbitrary: a)
  case Nil
  then show ?case by simp
next
  case (Cons q rs)
  then show ?case using tiles_le [of "snd q" rs b] by fastforce
qed

lemma tiles_in_order: "tiles a rs b \<Longrightarrow> in_order rs"
  by (induction rs arbitrary: a) (auto simp: in_order_def dest: tiles_mem)

end
