(* ===== verification/RangeUtils.thy ===== *)
theory RangeUtils
  imports Prelude
begin

text \<open>
  Block-range arithmetic of the validity proposer: \<open>validity/src/utils.rs\<close>
  (\<open>find_gaps\<close>, \<open>get_ranges_to_prove\<close>), and the contract \<open>range_splitter\<close> that every
  loop of the code which cuts an interval into bounded chunks satisfies.
\<close>

subsection \<open>The splitting contract\<close>

text \<open>
  \<open>split s e m\<close> cuts \<open>[s, e)\<close> into chunks of at most \<open>m\<close> blocks; \<open>fits s e m\<close> is the
  provider's bound on the arguments (no overflow of its machine integers). \<open>None\<close> means that
  the loop does not return.
\<close>

locale range_splitter =
  fixes split :: "int \<Rightarrow> int \<Rightarrow> int \<Rightarrow> range list option"
    and fits :: "int \<Rightarrow> int \<Rightarrow> int \<Rightarrow> bool"
  assumes split_done: "e \<le> s \<Longrightarrow> split s e m = Some []"
    and split_step: "fits s e m \<Longrightarrow> 0 < m \<Longrightarrow> s < e \<Longrightarrow>
      split s e m = map_option (Cons (s, min (s + m) e)) (split (min (s + m) e) e m)"
    and fits_step: "fits s e m \<Longrightarrow> 0 < m \<Longrightarrow> s < e \<Longrightarrow> fits (min (s + m) e) e m"
begin

lemma split_total: "fits s e m \<Longrightarrow> 0 < m \<Longrightarrow> \<exists>rs. split s e m = Some rs"
proof (induction "nat (e - s)" arbitrary: s rule: less_induct)
  case less
  show ?case
  proof (cases "s < e")
    case True
    have "nat (e - min (s + m) e) < nat (e - s)" using True less.prems by simp
    from less.hyps [OF this fits_step [OF less.prems True] less.prems(2)]
    show ?thesis using split_step [OF less.prems True] by auto
  next
    case False
    then show ?thesis by (simp add: split_done)
  qed
qed

lemma split_tiles:
  "fits s e m \<Longrightarrow> 0 < m \<Longrightarrow> s \<le> e \<Longrightarrow> split s e m = Some rs \<Longrightarrow>
   tiles s rs e \<and> (\<forall>r \<in> set rs. snd r - fst r \<le> m) \<and> (\<forall>r \<in> set (butlast rs). snd r - fst r = m)"
proof (induction "nat (e - s)" arbitrary: s rs rule: less_induct)
  case less
  show ?case
  proof (cases "s < e")
    case True
    let ?t = "min (s + m) e"
    obtain qs where qs: "split ?t e m = Some qs" and rs: "rs = (s, ?t) # qs"
      using split_step [OF less.prems(1,2) True] less.prems(4)
      by (cases "split ?t e m") auto
    have dec: "nat (e - ?t) < nat (e - s)" using True less.prems by simp
    have IH: "tiles ?t qs e \<and> (\<forall>r \<in> set qs. snd r - fst r \<le> m)
        \<and> (\<forall>r \<in> set (butlast qs). snd r - fst r = m)"
      using less.hyps [OF dec fits_step [OF less.prems(1,2) True] less.prems(2) _ qs] by simp
    have "qs \<noteq> [] \<Longrightarrow> ?t = s + m"
    proof -
      assume "qs \<noteq> []"
      then have "?t < e" using IH tiles_le by (cases qs) fastforce+
      then show "?t = s + m" by simp
    qed
    then show ?thesis using IH rs True less.prems(2) by auto
  next
    case False
    then show ?thesis using less.prems by (simp add: split_done)
  qed
qed

lemma split_exact:
  assumes "fits s e m" "0 < m" "s \<le> e"
  shows "\<exists>rs. split s e m = Some rs \<and> tiles s rs e \<and> (\<forall>r \<in> set rs. snd r - fst r \<le> m)
    \<and> (\<forall>r \<in> set (butlast rs). snd r - fst r = m)"
  using split_total [OF assms(1,2)] split_tiles [OF assms] by blast

end

subsection \<open>find\_gaps\<close>

text \<open>One iteration of the loop of \<open>find_gaps\<close>: the gaps so far and \<open>current_start\<close>.\<close>

fun find_gaps_step :: "range list \<times> int \<Rightarrow> range \<Rightarrow> range list \<times> int" where
  "find_gaps_step (gaps, current_start) (start, end) =
     (if current_start < start then gaps @ [(current_start, start)] else gaps,
      max end current_start)"

definition find_gaps :: "int \<Rightarrow> int \<Rightarrow> range list \<Rightarrow> range list" where
  "find_gaps overall_start overall_end ranges =
     (let (gaps, current_start) = foldl find_gaps_step ([], overall_start) ranges
      in if current_start < overall_end then gaps @ [(current_start, overall_end)] else gaps)"

lemma find_gaps_acc:
  "foldl find_gaps_step (g, c) rs =
     (let (g', c') = foldl find_gaps_step ([], c) rs in (g @ g', c'))"
proof (induction rs arbitrary: g c)
  case Nil
  then show ?case by simp
next
  case (Cons r rs)
  obtain a b where r: "r = (a, b)" by (cases r)
  show ?case
    using Cons.IH [of "g @ [(c, a)]" "max b c"] Cons.IH [of "[(c, a)]" "max b c"]
      Cons.IH [of g "max b c"]
    by (cases "foldl find_gaps_step ([], max b c) rs") (simp add: r)
qed

lemma find_gaps_Nil: "find_gaps c e [] = (if c < e then [(c, e)] else [])"
  by (simp add: find_gaps_def)

lemma find_gaps_Cons:
  "find_gaps c e ((a, b) # rs) =
     (if c < a then [(c, a)] else []) @ find_gaps (max b c) e rs"
proof -
  obtain g' c' where fold: "foldl find_gaps_step ([], max b c) rs = (g', c')"
    by fastforce
  show ?thesis
    using find_gaps_acc [of "[(c, a)]" "max b c" rs] fold by (simp add: find_gaps_def)
qed

lemma find_gaps_lower: "g \<in> set (find_gaps c e rs) \<Longrightarrow> c \<le> fst g \<and> fst g < snd g"
proof (induction rs arbitrary: c)
  case Nil
  then show ?case by (auto simp: find_gaps_Nil split: if_splits)
next
  case (Cons r rs)
  obtain a b where r: "r = (a, b)" by (cases r)
  show ?case using Cons.prems Cons.IH [of "max b c"]
    by (auto simp: r find_gaps_Cons split: if_splits)
qed

lemma find_gaps_blocks:
  "sorted (map fst rs) \<Longrightarrow> \<forall>r \<in> set rs. fst r \<le> snd r \<Longrightarrow> x < e \<Longrightarrow>
   x \<in> all_blocks (find_gaps c e rs) \<longleftrightarrow> c \<le> x \<and> x \<notin> all_blocks rs"
proof (induction rs arbitrary: c)
  case Nil
  then show ?case by (auto simp: find_gaps_Nil)
next
  case (Cons r rs)
  obtain a b where r: "r = (a, b)" by (cases r)
  have later: "\<And>y. y \<in> all_blocks rs \<Longrightarrow> a \<le> y"
    using Cons.prems(1) by (force simp: r all_blocks_def)
  have "x \<in> all_blocks (find_gaps (max b c) e rs) \<longleftrightarrow> max b c \<le> x \<and> x \<notin> all_blocks rs"
    using Cons.prems by (intro Cons.IH) (auto simp: r)
  with later [of x] Cons.prems(2) show ?case by (auto simp: r find_gaps_Cons)
qed

lemma find_gaps_in_order:
  "sorted (map fst rs) \<Longrightarrow> \<forall>r \<in> set rs. fst r \<le> snd r \<Longrightarrow> in_order (find_gaps c e rs)"
proof (induction rs arbitrary: c)
  case Nil
  then show ?case by (simp add: find_gaps_Nil in_order_def)
next
  case (Cons r rs)
  obtain a b where r: "r = (a, b)" by (cases r)
  have IH: "in_order (find_gaps (max b c) e rs)" using Cons by (simp add: r)
  have "\<forall>g \<in> set (find_gaps (max b c) e rs). a \<le> fst g"
    using Cons.prems(2) find_gaps_lower by (fastforce simp: r)
  with IH show ?case by (auto simp: r find_gaps_Cons in_order_def)
qed

lemma find_gaps_upper:
  "\<forall>r \<in> set rs. fst r \<le> e \<Longrightarrow> g \<in> set (find_gaps c e rs) \<Longrightarrow> snd g \<le> e"
proof (induction rs arbitrary: c)
  case Nil
  then show ?case by (auto simp: find_gaps_Nil split: if_splits)
next
  case (Cons r rs)
  obtain a b where r: "r = (a, b)" by (cases r)
  show ?case using Cons.prems Cons.IH [of "max b c"]
    by (auto simp: r find_gaps_Cons split: if_splits)
qed

subsection \<open>get\_ranges\_to\_prove\<close>

text \<open>
  The inner \<open>while current_start < end\<close>, on wrapping \<open>i64\<close>. With an interval of zero it
  pushes empty ranges for ever, so its result is optional.
\<close>

partial_function (option) chunk_loop ::
  "int \<Rightarrow> int \<Rightarrow> int \<Rightarrow> range list \<Rightarrow> range list option" where
  "chunk_loop interval end current_start ranges =
     (if current_start < end
      then let current_end = min (wrap_i64 (current_start + interval)) end
           in chunk_loop interval end current_end (ranges @ [(current_start, current_end)])
      else Some ranges)"

fun chunk_all :: "int \<Rightarrow> range list \<Rightarrow> range list \<Rightarrow> range list option" where
  "chunk_all interval [] ranges = Some ranges"
| "chunk_all interval ((start, end) # rest) ranges =
     (case chunk_loop interval end start ranges of
        None \<Rightarrow> None
      | Some ranges' \<Rightarrow> chunk_all interval rest ranges')"

definition drop_short_tail :: "int \<Rightarrow> range list \<Rightarrow> range list" where
  "drop_short_tail interval ranges =
     (if ranges = [] then ranges
      else let (start, end) = last ranges
           in if wrap_i64 (end - start) < interval then butlast ranges else ranges)"

definition get_ranges_to_prove :: "range list \<Rightarrow> int \<Rightarrow> range list option" where
  "get_ranges_to_prove disjoint_ranges range_proof_interval =
     map_option (drop_short_tail range_proof_interval)
       (chunk_all range_proof_interval disjoint_ranges [])"

lemma chunk_loop_done [simp]: "e \<le> c \<Longrightarrow> chunk_loop iv e c acc = Some acc"
  by (simp add: chunk_loop.simps)

definition chunk_fits :: "int \<Rightarrow> int \<Rightarrow> int \<Rightarrow> bool" where
  "chunk_fits s e m \<longleftrightarrow> i64_min \<le> s \<and> e + m \<le> i64_max"

lemma chunk_loop_step:
  "chunk_fits s e m \<Longrightarrow> 0 < m \<Longrightarrow> s < e \<Longrightarrow>
   chunk_loop m e s acc = chunk_loop m e (min (s + m) e) (acc @ [(s, min (s + m) e)])"
  by (subst chunk_loop.simps) (simp add: chunk_fits_def is_i64_def Let_def)

lemma chunk_loop_acc:
  "chunk_fits s e m \<Longrightarrow> 0 < m \<Longrightarrow>
   chunk_loop m e s acc = map_option ((@) acc) (chunk_loop m e s [])"
proof (induction "nat (e - s)" arbitrary: s acc rule: less_induct)
  case less
  show ?case
  proof (cases "s < e")
    case True
    let ?t = "min (s + m) e"
    have dec: "nat (e - ?t) < nat (e - s)" using True less.prems by simp
    have fits: "chunk_fits ?t e m" using less.prems True by (auto simp: chunk_fits_def)
    have "chunk_loop m e ?t (acc @ [(s, ?t)])
        = map_option ((@) (acc @ [(s, ?t)])) (chunk_loop m e ?t [])"
      by (rule less.hyps [OF dec fits less.prems(2)])
    moreover have "chunk_loop m e ?t [(s, ?t)]
        = map_option ((@) [(s, ?t)]) (chunk_loop m e ?t [])"
      by (rule less.hyps [OF dec fits less.prems(2)])
    ultimately show ?thesis
      by (cases "chunk_loop m e ?t []") (simp_all add: chunk_loop_step [OF less.prems True])
  next
    case False
    then show ?thesis by simp
  qed
qed

text \<open>The inner loop satisfies the splitting contract.\<close>

interpretation chunks: range_splitter "\<lambda>s e m. chunk_loop m e s []" chunk_fits
proof
  fix s e m :: int
  assume h: "chunk_fits s e m" "0 < m" "s < e"
  let ?t = "min (s + m) e"
  show fits: "chunk_fits ?t e m" using h by (auto simp: chunk_fits_def)
  show "chunk_loop m e s [] = map_option ((#) (s, ?t)) (chunk_loop m e ?t [])"
    using chunk_loop_acc [OF fits h(2), of "[(s, ?t)]"]
    by (cases "chunk_loop m e ?t []") (simp_all add: chunk_loop_step [OF h])
qed simp

lemma in_order_append:
  "in_order (xs @ ys) \<longleftrightarrow> in_order xs \<and> in_order ys \<and> (\<forall>x \<in> set xs. \<forall>y \<in> set ys. snd x \<le> fst y)"
  by (simp add: in_order_def sorted_wrt_append)

lemma in_order_Cons:
  "in_order (x # ys) \<longleftrightarrow> (\<forall>y \<in> set ys. snd x \<le> fst y) \<and> in_order ys"
  by (simp add: in_order_def)

lemma chunk_all_correct:
  assumes "0 < m" "in_order gs" "\<forall>g \<in> set gs. fst g < snd g \<and> chunk_fits (fst g) (snd g) m"
  shows "\<exists>rs. chunk_all m gs acc = Some (acc @ rs) \<and> all_blocks rs = all_blocks gs \<and> in_order rs
    \<and> (\<forall>r \<in> set rs. fst r < snd r \<and> snd r - fst r \<le> m \<and> (\<exists>g \<in> set gs. blocks r \<subseteq> blocks g))
    \<and> (gs \<noteq> [] \<longrightarrow> rs \<noteq> [] \<and> snd (last rs) = snd (last gs))"
  using assms
proof (induction gs arbitrary: acc)
  case Nil
  then show ?case by (simp add: in_order_def)
next
  case (Cons g gs)
  obtain s e where g: "g = (s, e)" by (cases g)
  have fits: "chunk_fits s e m" and se: "s < e" using Cons.prems(3) by (auto simp: g)
  obtain qs where qs: "chunk_loop m e s [] = Some qs" and t: "tiles s qs e"
    and len: "\<forall>r \<in> set qs. snd r - fst r \<le> m"
    using chunks.split_exact [OF fits Cons.prems(1) less_imp_le [OF se]] by auto
  obtain rs where rs: "chunk_all m gs (acc @ qs) = Some (acc @ qs @ rs)"
    and b: "all_blocks rs = all_blocks gs" and o: "in_order rs"
    and r: "\<forall>r \<in> set rs. fst r < snd r \<and> snd r - fst r \<le> m \<and> (\<exists>g \<in> set gs. blocks r \<subseteq> blocks g)"
    and l: "gs \<noteq> [] \<longrightarrow> rs \<noteq> [] \<and> snd (last rs) = snd (last gs)"
    using Cons.IH [of "acc @ qs"] Cons.prems by (auto simp: in_order_Cons)
  have run: "chunk_all m (g # gs) acc = Some (acc @ (qs @ rs))"
    using rs qs by (simp add: g chunk_loop_acc [OF fits Cons.prems(1), of acc])
  have inside: "\<forall>r \<in> set qs. s \<le> fst r \<and> fst r < snd r \<and> snd r \<le> e"
    using tiles_mem [OF t] by blast
  have "\<forall>x \<in> set qs. \<forall>y \<in> set rs. snd x \<le> fst y"
  proof (intro ballI)
    fix x y assume x: "x \<in> set qs" and y: "y \<in> set rs"
    obtain h where "h \<in> set gs" "blocks y \<subseteq> blocks h" "fst y < snd y" using r y by blast
    moreover from this have "e \<le> fst h" using Cons.prems(2) by (auto simp: in_order_Cons g)
    ultimately have "e \<le> fst y" by force
    then show "snd x \<le> fst y" using inside x by force
  qed
  then have ord: "in_order (qs @ rs)" using o tiles_in_order [OF t] by (simp add: in_order_append)
  have all: "\<forall>r \<in> set (qs @ rs). fst r < snd r \<and> snd r - fst r \<le> m
      \<and> (\<exists>g \<in> set (g # gs). blocks r \<subseteq> blocks g)"
    using inside len r by (fastforce simp: g)
  have ne: "qs \<noteq> []" using t se by auto
  have "snd (last qs) = e"
    using t ne tiles_append [of s "butlast qs" "[last qs]" e] by auto
  then have "qs @ rs \<noteq> [] \<and> snd (last (qs @ rs)) = snd (last (g # gs))"
    using ne l r by (cases gs; cases rs) (auto simp: g)
  with run ord all tiles_blocks [OF t] b show ?case by (intro exI [of _ "qs @ rs"]) (simp add: g)
qed

lemma get_ranges_to_prove_tiles:
  assumes "0 < m" and "in_order gs"
    and "\<forall>g \<in> set gs. fst g < snd g \<and> 0 \<le> fst g \<and> snd g + m \<le> i64_max"
  shows "\<exists>rs tail. get_ranges_to_prove gs m = Some rs
    \<and> all_blocks (rs @ tail) = all_blocks gs \<and> in_order (rs @ tail)
    \<and> (\<forall>r \<in> set (rs @ tail). fst r < snd r \<and> snd r - fst r \<le> m \<and> (\<exists>g \<in> set gs. blocks r \<subseteq> blocks g))
    \<and> (tail = [] \<and> (rs = [] \<or> snd (last rs) - fst (last rs) = m)
       \<or> (\<exists>r. tail = [r] \<and> snd r - fst r < m \<and> snd r = snd (last gs)))"
proof -
  have fits: "\<forall>g \<in> set gs. fst g < snd g \<and> chunk_fits (fst g) (snd g) m"
    using assms(3) by (auto simp: chunk_fits_def i64_min_def)
  obtain full where run: "chunk_all m gs [] = Some full" and b: "all_blocks full = all_blocks gs"
    and o: "in_order full"
    and r: "\<forall>r \<in> set full. fst r < snd r \<and> snd r - fst r \<le> m \<and> (\<exists>g \<in> set gs. blocks r \<subseteq> blocks g)"
    and l: "gs \<noteq> [] \<longrightarrow> full \<noteq> [] \<and> snd (last full) = snd (last gs)"
    using chunk_all_correct [OF assms(1,2) fits, of "[]"] by auto
  show ?thesis
  proof (cases "full = []")
    case True
    then show ?thesis using run b o
      by (intro exI [of _ "[]"]) (simp add: get_ranges_to_prove_def drop_short_tail_def)
  next
    case False
    obtain s e where se: "last full = (s, e)" by (cases "last full")
    have mem: "(s, e) \<in> set full" using False se last_in_set by force
    have "gs \<noteq> []" using r mem by fastforce
    then have e: "e = snd (last gs)" using l se by auto
    obtain g where "g \<in> set gs" "blocks (s, e) \<subseteq> blocks g" "s < e" using r mem by fastforce
    then have "0 \<le> s" "e \<le> i64_max" using assms by force+
    then have w: "wrap_i64 (e - s) = e - s" using \<open>s < e\<close> by (simp add: int_bounds)
    have split: "full = butlast full @ [(s, e)]" using False se by (metis append_butlast_last_id)
    show ?thesis
    proof (cases "e - s < m")
      case True
      have "get_ranges_to_prove gs m = Some (butlast full)"
        using run False se w True by (simp add: get_ranges_to_prove_def drop_short_tail_def)
      then show ?thesis using split b o r True e
        by (intro exI [of _ "butlast full"] exI [of _ "[(s, e)]"]) simp
    next
      case big: False
      have "get_ranges_to_prove gs m = Some full"
        using run False se w big by (simp add: get_ranges_to_prove_def drop_short_tail_def)
      moreover have "e - s = m" using big r mem by force
      ultimately show ?thesis using b o r se
        by (intro exI [of _ full] exI [of _ "[]"]) simp
    qed
  qed
qed

text \<open>Whatever the end, no block of a gap lies in a sub-range.\<close>

lemma find_gaps_disjoint:
  "sorted (map fst rs) \<Longrightarrow> \<forall>r \<in> set rs. fst r \<le> snd r \<Longrightarrow> x \<in> all_blocks (find_gaps c e rs) \<Longrightarrow>
   c \<le> x \<and> x \<notin> all_blocks rs"
proof (induction rs arbitrary: c)
  case Nil
  then show ?case by (auto simp: find_gaps_Nil split: if_splits)
next
  case (Cons r rs)
  obtain a b where r: "r = (a, b)" by (cases r)
  have later: "y \<in> all_blocks rs \<Longrightarrow> a \<le> y" for y
    using Cons.prems(1) by (force simp: r all_blocks_def)
  consider "c < a" "c \<le> x" "x < a" | "x \<in> all_blocks (find_gaps (max b c) e rs)"
    using Cons.prems(3) by (auto simp: r find_gaps_Cons split: if_splits)
  then show ?case
  proof cases
    case 1
    then show ?thesis using later [of x] by (auto simp: r)
  next
    case 2
    then have "max b c \<le> x \<and> x \<notin> all_blocks rs"
      using Cons.IH [of "max b c"] Cons.prems by (auto simp: r)
    then show ?thesis using Cons.prems(2) by (auto simp: r)
  qed
qed

lemma find_gaps_ends: "g \<in> set (find_gaps c e rs) \<Longrightarrow> snd g = e \<or> snd g \<in> fst ` set rs"
proof (induction rs arbitrary: c)
  case Nil
  then show ?case by (auto simp: find_gaps_Nil split: if_splits)
next
  case (Cons r rs)
  then show ?case by (cases r) (auto simp: find_gaps_Cons split: if_splits)
qed

subsection \<open>Properties\<close>

text \<open>
  C25. \<open>find_gaps\<close> returns exactly the uncovered blocks: for sub-ranges sorted by start, a block
  below \<open>overall_end\<close> lies in a returned gap iff it is at or after \<open>overall_start\<close> and in none of
  the sub-ranges, however the sub-ranges overlap; the gaps are non-empty, in ascending order and
  disjoint, and do not pass \<open>overall_end\<close> when no sub-range starts after it.
\<close>

theorem find_gaps_exact:
  assumes "sorted (map fst ranges)" and "\<forall>r \<in> set ranges. fst r \<le> snd r"
  shows "(\<forall>x < e. x \<in> all_blocks (find_gaps s e ranges) \<longleftrightarrow> s \<le> x \<and> x \<notin> all_blocks ranges)
    \<and> in_order (find_gaps s e ranges)
    \<and> (\<forall>g \<in> set (find_gaps s e ranges). s \<le> fst g \<and> fst g < snd g)
    \<and> ((\<forall>r \<in> set ranges. fst r \<le> e) \<longrightarrow> (\<forall>g \<in> set (find_gaps s e ranges). snd g \<le> e))"
  using find_gaps_blocks [OF assms] find_gaps_in_order [OF assms] find_gaps_lower [of _ s e ranges]
    find_gaps_upper [of ranges e _ s]
  by blast

theorem find_gaps_exact_witness:
  "find_gaps 1 10 [(2, 5), (7, 9)] = [(1, 2), (5, 7), (9, 10)]
   \<and> (6 \<in> all_blocks (find_gaps 1 10 [(2, 5), (7, 9)])
        \<longleftrightarrow> (1::int) \<le> 6 \<and> 6 \<notin> all_blocks [(2, 5), (7, 9)])"
  using find_gaps_exact [of "[(2, 5), (7, 9)]" 10 1]
  by (simp add: find_gaps_Cons find_gaps_Nil)

text \<open>
  C15. \<open>get_ranges_to_prove\<close> on ordered, non-empty gaps and a positive interval returns, and
  cuts the gaps into non-empty chunks of at most the interval, in order, each inside one gap;
  together with at most one dropped chunk at the very end, which is shorter than the interval,
  they cover exactly the blocks of the gaps, and the last chunk returned is either full or
  followed by that dropped one.
\<close>

theorem get_ranges_to_prove_correct:
  assumes "0 < m" and "in_order gs"
    and "\<forall>g \<in> set gs. fst g < snd g \<and> 0 \<le> fst g \<and> snd g + m \<le> i64_max"
  shows "\<exists>rs tail. get_ranges_to_prove gs m = Some rs
    \<and> all_blocks (rs @ tail) = all_blocks gs \<and> in_order (rs @ tail)
    \<and> (\<forall>r \<in> set (rs @ tail). fst r < snd r \<and> snd r - fst r \<le> m \<and> (\<exists>g \<in> set gs. blocks r \<subseteq> blocks g))
    \<and> (tail = [] \<and> (rs = [] \<or> snd (last rs) - fst (last rs) = m)
       \<or> (\<exists>r. tail = [r] \<and> snd r - fst r < m \<and> snd r = snd (last gs)))"
  using assms by (rule get_ranges_to_prove_tiles)

lemma chunk_loop_eval:
  "c < e \<Longrightarrow> chunk_loop m e c acc
     = chunk_loop m e (min (wrap_i64 (c + m)) e) (acc @ [(c, min (wrap_i64 (c + m)) e)])"
  by (subst chunk_loop.simps) (simp add: Let_def)

theorem get_ranges_to_prove_correct_witness:
  "get_ranges_to_prove [(0, 5), (10, 15), (20, 25)] 3
     = Some [(0, 3), (3, 5), (10, 13), (13, 15), (20, 23)]
   \<and> (\<exists>rs tail. get_ranges_to_prove [(0, 5), (10, 15), (20, 25)] 3 = Some rs
        \<and> all_blocks (rs @ tail) = all_blocks [(0, 5), (10, 15), (20, 25)])"
proof
  show "get_ranges_to_prove [(0, 5), (10, 15), (20, 25)] 3
      = Some [(0, 3), (3, 5), (10, 13), (13, 15), (20, 23)]"
    by (simp add: get_ranges_to_prove_def drop_short_tail_def chunk_loop_eval int_bounds wrap_i64_def)
  show "\<exists>rs tail. get_ranges_to_prove [(0, 5), (10, 15), (20, 25)] 3 = Some rs
      \<and> all_blocks (rs @ tail) = all_blocks [(0, 5), (10, 15), (20, 25)]"
  proof -
    have "in_order [(0, 5), (10, 15), (20, 25)]" by (simp add: in_order_def)
    moreover have "\<forall>g \<in> set [(0::int, 5::int), (10, 15), (20, 25)].
        fst g < snd g \<and> 0 \<le> fst g \<and> snd g + 3 \<le> i64_max" by (simp add: i64_max_def)
    moreover have "(0::int) < 3" by simp
    ultimately show ?thesis
      using get_ranges_to_prove_correct [of 3 "[(0, 5), (10, 15), (20, 25)]"] by blast
  qed
qed

text \<open>
  With a range proof interval of zero (nothing rejects \<open>RANGE_PROOF_INTERVAL=0\<close>) the inner
  loop makes no progress: if any gap is non-empty, \<open>get_ranges_to_prove\<close> does not return.
\<close>

lemma chunk_loop_zero:
  assumes "chunk_loop 0 e c acc = Some rs" and "is_i64 c"
  shows "e \<le> c"
proof -
  have "0 = (0::int) \<longrightarrow> is_i64 c \<longrightarrow> e \<le> c"
  proof (rule chunk_loop.raw_induct [where P = "\<lambda>m e c acc rs. m = 0 \<longrightarrow> is_i64 c \<longrightarrow> e \<le> c",
        OF _ assms(1)])
    fix f :: "int \<Rightarrow> int \<Rightarrow> int \<Rightarrow> range list \<Rightarrow> range list option"
    fix m e c :: int and acc rs :: "range list"
    assume IH: "\<And>m e c acc rs. f m e c acc = Some rs \<Longrightarrow> m = 0 \<longrightarrow> is_i64 c \<longrightarrow> e \<le> c"
      and step: "(if c < e then let t = min (wrap_i64 (c + m)) e in f m e t (acc @ [(c, t)])
        else Some acc) = Some rs"
    show "m = 0 \<longrightarrow> is_i64 c \<longrightarrow> e \<le> c"
    proof (intro impI)
      assume z: "m = 0" "is_i64 c"
      show "e \<le> c"
      proof (cases "c < e")
        case True
        then have "f m e c (acc @ [(c, c)]) = Some rs" using step z by simp
        then show ?thesis using IH z by blast
      qed simp
    qed
  qed
  then show ?thesis using assms(2) by simp
qed

lemma chunk_all_zero:
  "chunk_all 0 gs acc = Some rs \<Longrightarrow> \<forall>g \<in> set gs. is_i64 (fst g) \<Longrightarrow> \<forall>g \<in> set gs. snd g \<le> fst g"
proof (induction gs arbitrary: acc)
  case Nil
  then show ?case by simp
next
  case (Cons g gs)
  then show ?case
    by (cases g) (fastforce split: option.splits dest: chunk_loop_zero)
qed

theorem get_ranges_to_prove_zero_interval:
  assumes "g \<in> set gs" "fst g < snd g" "\<forall>g \<in> set gs. is_i64 (fst g)"
  shows "get_ranges_to_prove gs 0 = None"
proof (cases "chunk_all 0 gs []")
  case None
  then show ?thesis by (simp add: get_ranges_to_prove_def)
next
  case (Some rs)
  then show ?thesis using chunk_all_zero [OF Some assms(3)] assms(1,2) by fastforce
qed

theorem get_ranges_to_prove_zero_interval_witness:
  "get_ranges_to_prove [(5, 6)] 0 = None"
  using get_ranges_to_prove_zero_interval [of "(5, 6)" "[(5, 6)]"] by (simp add: int_bounds)

end
