(* ===== verification/Boot.thy ===== *)
theory Boot
  imports Prelude
begin

unbundle bit_operations_syntax

text \<open>
  The public values of the zkVM programs: \<open>utils/client/src/boot.rs\<close> and
  \<open>utils/client/src/types.rs\<close>. \<open>BootInfo\<close> and its rollup configuration come from the kona
  crates; \<open>hash_rollup_config\<close> (SHA-256 of the pretty-printed configuration) is kept as a
  parameter \<open>cfg_hash\<close> of the definitions that use it.
\<close>

subsection \<open>Boot information\<close>

text \<open>\<open>kona_proof::BootInfo\<close>, over the type \<open>'cfg\<close> of rollup configurations.\<close>

record 'cfg kona_boot =
  l1_head :: b256
  agreed_l2_output_root :: b256
  claimed_l2_output_root :: b256
  claimed_l2_block_number :: int
  rollup_config :: 'cfg

record boot_info =
  l1Head :: b256
  l2PreRoot :: b256
  l2PostRoot :: b256
  l2BlockNumber :: int
  rollupConfigHash :: b256

definition boot_info_from :: "('cfg \<Rightarrow> b256) \<Rightarrow> 'cfg kona_boot \<Rightarrow> boot_info" where
  "boot_info_from cfg_hash b =
     \<lparr>l1Head = l1_head b,
      l2PreRoot = agreed_l2_output_root b,
      l2PostRoot = claimed_l2_output_root b,
      l2BlockNumber = claimed_l2_block_number b,
      rollupConfigHash = cfg_hash (rollup_config b)\<rparr>"

subsection \<open>Inputs and outputs of the aggregation program\<close>

type_synonym vkey = "32 word list" \<comment> \<open>\<open>[u32; 8]\<close>\<close>

record aggregation_inputs =
  boot_infos :: "boot_info list"
  latest_l1_checkpoint_head :: b256
  multi_block_vkey :: vkey
  prover_address :: address

record aggregation_outputs =
  out_l1Head :: b256
  out_l2PreRoot :: b256
  out_l2PostRoot :: b256
  out_l2BlockNumber :: int
  out_rollupConfigHash :: b256
  out_multiBlockVKey :: b256
  out_proverAddress :: address

text \<open>The size constant of \<open>boot.rs\<close>.\<close>

definition aggregation_outputs_size :: nat where
  "aggregation_outputs_size = 6 * 32"

subsection \<open>u32\_to\_u8\<close>

definition to_be_bytes :: "32 word \<Rightarrow> bytes" where
  "to_be_bytes w =
     [ucast (drop_bit 24 w), ucast (drop_bit 16 w), ucast (drop_bit 8 w), ucast w]"

text \<open>\<open>output[from..from + bs.len()].copy_from_slice(bs)\<close>.\<close>

definition copy_into :: "bytes \<Rightarrow> nat \<Rightarrow> bytes \<Rightarrow> bytes" where
  "copy_into out from bs = take from out @ bs @ drop (from + length bs) out"

fun u32_to_u8_loop :: "nat \<Rightarrow> 32 word list \<Rightarrow> bytes \<Rightarrow> bytes" where
  "u32_to_u8_loop i [] output = output"
| "u32_to_u8_loop i (value # rest) output =
     u32_to_u8_loop (Suc i) rest (copy_into output (i * 4) (to_be_bytes value))"

definition u32_to_u8 :: "vkey \<Rightarrow> bytes" where
  "u32_to_u8 input = u32_to_u8_loop 0 input (replicate 32 0)"

text \<open>Reading a word back from four big-endian bytes.\<close>

definition from_be_bytes :: "bytes \<Rightarrow> 32 word" where
  "from_be_bytes bs =
     push_bit 24 (ucast (bs ! 0)) OR push_bit 16 (ucast (bs ! 1)) OR push_bit 8 (ucast (bs ! 2))
       OR ucast (bs ! 3)"

fun u8_to_u32 :: "bytes \<Rightarrow> 32 word list" where
  "u8_to_u32 (a # b # c # d # rest) = from_be_bytes [a, b, c, d] # u8_to_u32 rest"
| "u8_to_u32 _ = []"

lemma length_to_be_bytes [simp]: "length (to_be_bytes w) = 4"
  by (simp add: to_be_bytes_def)

lemma from_to_be_bytes: "from_be_bytes (to_be_bytes w) = w"
proof (rule bit_word_eqI)
  fix n assume "n < LENGTH(32)"
  then consider "n < 8" | "8 \<le> n" "n < 16" | "16 \<le> n" "n < 24" | "24 \<le> n" "n < 32"
    by fastforce
  then show "bit (from_be_bytes (to_be_bytes w)) n = bit w n"
    by cases (auto simp: from_be_bytes_def to_be_bytes_def bit_simps)
qed

lemma u32_to_u8_loop_concat:
  "length out = n + 4 * length ws \<Longrightarrow> n = i * 4 \<Longrightarrow>
   u32_to_u8_loop i ws out = take n out @ concat (map to_be_bytes ws)"
proof (induction ws arbitrary: i n out)
  case Nil
  then show ?case by simp
next
  case (Cons w ws)
  let ?o = "copy_into out n (to_be_bytes w)"
  have len: "length ?o = (n + 4) + 4 * length ws" using Cons.prems(1) by (simp add: copy_into_def)
  have "u32_to_u8_loop (Suc i) ws ?o = take (n + 4) ?o @ concat (map to_be_bytes ws)"
    by (rule Cons.IH [OF len]) (simp add: Cons.prems(2))
  moreover have "take (n + 4) ?o = take n out @ to_be_bytes w"
    using Cons.prems(1) by (simp add: copy_into_def)
  ultimately show ?case using Cons.prems(2) by (simp add: add.commute)
qed

lemma u8_to_u32_concat: "u8_to_u32 (concat (map to_be_bytes ws)) = ws"
  by (induction ws) (simp_all add: to_be_bytes_def from_to_be_bytes [unfolded to_be_bytes_def])

lemma u32_to_u8_concat: "length ws = 8 \<Longrightarrow> u32_to_u8 ws = concat (map to_be_bytes ws)"
  by (simp add: u32_to_u8_def u32_to_u8_loop_concat [of _ 0])

lemma length_u32_to_u8 [simp]: "length ws = 8 \<Longrightarrow> length (u32_to_u8 ws) = 32"
  by (simp add: u32_to_u8_concat length_concat comp_def sum_list_triv)

subsection \<open>Properties\<close>

text \<open>
  \<open>u32_to_u8\<close> writes all 32 bytes of the verification key commitment, and no information is
  lost: reading the bytes back as big-endian words gives the key, so two range programs with
  different keys never share a commitment.
\<close>

theorem u32_to_u8_roundtrip:
  assumes "length ws = 8"
  shows "length (u32_to_u8 ws) = 32 \<and> u8_to_u32 (u32_to_u8 ws) = ws
    \<and> (\<forall>vs. length vs = 8 \<longrightarrow> u32_to_u8 vs = u32_to_u8 ws \<longrightarrow> vs = ws)"
  using assms by (metis length_u32_to_u8 u32_to_u8_concat u8_to_u32_concat)

theorem u32_to_u8_roundtrip_witness:
  "u8_to_u32 (u32_to_u8 [0x01020304, 2, 3, 4, 5, 6, 7, 8]) = [0x01020304, 2, 3, 4, 5, 6, 7, 8]"
  using u32_to_u8_roundtrip [of "[0x01020304, 2, 3, 4, 5, 6, 7, 8]"] by simp

end
