(* ===== verification/Fetcher.thy ===== *)
theory Fetcher
  imports Boot
begin

text \<open>
  The data fetcher of the host, \<open>utils/host/src/fetcher.rs\<close>: headers, block statistics, the two
  binary searches over block numbers, the header preimages of the aggregation program and the
  arguments of the native host. The RPC nodes are the record \<open>rpc_env\<close>: each answer depends on
  the request and on the number of calls made before. Concurrent requests of a stream
  (\<open>buffered(n)\<close>) are made in the order of the stream, which is the order of their results.
\<close>

subsection \<open>What the nodes answer\<close>

datatype block_id = Latest | Finalized | ByNumber int | ByHash b256

record header =
  parent_hash :: b256
  number :: int
  timestamp :: int
  state_root :: b256
  gas_used :: int

record rpc_block =
  blk_header :: header
  blk_hash :: b256
  blk_tx_count :: int

record receipt =
  tx_hash :: b256
  l1_fee :: "int option"
  effective_gas_price :: int
  tx_gas_used :: int

record safe_head_response =
  safe_head_number :: int
  sh_l1_hash :: b256
  sh_l1_number :: int

record output_response =
  output_root :: b256
  l1_origin_number :: int

record rpc_env =
  l1_block :: "block_id \<Rightarrow> nat \<Rightarrow> error + rpc_block option"
  l2_block :: "block_id \<Rightarrow> nat \<Rightarrow> error + rpc_block option"
  l2_receipts :: "int \<Rightarrow> nat \<Rightarrow> error + receipt list option"
  l2_storage_hash :: "int \<Rightarrow> nat \<Rightarrow> error + b256"
  safe_head_at_l1 :: "int \<Rightarrow> nat \<Rightarrow> error + safe_head_response"
  output_at_block :: "int \<Rightarrow> nat \<Rightarrow> error + output_response"
  l1_chain_id_rpc :: "nat \<Rightarrow> error + int"
  l2_chain_id_rpc :: "nat \<Rightarrow> error + int"

record rpc_config =
  l1_rpc :: string
  l1_beacon_rpc :: string
  l2_rpc :: string
  l2_node_rpc :: string

datatype rpc_mode = L1 | L1Beacon | L2 | L2Node

record 'cfg data_fetcher =
  df_rpc :: rpc_config
  df_rollup_config :: "'cfg option"
  df_rollup_config_path :: "string option"

fun get_rpc_url :: "'cfg data_fetcher \<Rightarrow> rpc_mode \<Rightarrow> string" where
  "get_rpc_url f L1 = l1_rpc (df_rpc f)"
| "get_rpc_url f L2 = l2_rpc (df_rpc f)"
| "get_rpc_url f L1Beacon = l1_beacon_rpc (df_rpc f)"
| "get_rpc_url f L2Node = l2_node_rpc (df_rpc f)"

subsection \<open>Headers\<close>

definition get_header ::
  "(block_id \<Rightarrow> nat \<Rightarrow> error + rpc_block option) \<Rightarrow> string \<Rightarrow> block_id \<Rightarrow> ('z io_scheme, header) op"
  where
  "get_header blk msg b =
     andThen (call (blk b)) (\<lambda>r.
       case r of Some x \<Rightarrow> ret (blk_header x) | None \<Rightarrow> throw (Failure (Msg msg)))"

definition get_l1_header :: "rpc_env \<Rightarrow> block_id \<Rightarrow> ('z io_scheme, header) op" where
  "get_l1_header env b = get_header (l1_block env) ''Failed to get L1 header for block'' b"

definition get_l2_header :: "rpc_env \<Rightarrow> block_id \<Rightarrow> ('z io_scheme, header) op" where
  "get_l2_header env b = get_header (l2_block env) ''Failed to get L1 header for block'' b"

definition get_l2_head :: "rpc_env \<Rightarrow> ('z io_scheme, header) op" where
  "get_l2_head env = get_header (l2_block env) ''Failed to get L2 head'' Latest"

definition get_l2_chain_id :: "rpc_env \<Rightarrow> ('z io_scheme, int) op" where
  "get_l2_chain_id env = call (l2_chain_id_rpc env)"

subsection \<open>Block statistics\<close>

record block_info =
  block_number :: int
  transaction_count :: int
  bi_gas_used :: int
  total_l1_fees :: int
  total_tx_fees :: int

record fee_data =
  fd_block_number :: int
  fd_tx_index :: int
  fd_tx_hash :: b256
  fd_l1_gas_cost :: int
  fd_tx_fee :: int

definition fee_or_zero :: "receipt \<Rightarrow> int" where
  "fee_or_zero tx = (case l1_fee tx of None \<Rightarrow> 0 | Some f \<Rightarrow> f)"

definition tx_l2_fee :: "receipt \<Rightarrow> int" where
  "tx_l2_fee tx = wrap_u128 (effective_gas_price tx * tx_gas_used tx)"

definition fetch_block_info :: "rpc_env \<Rightarrow> int \<Rightarrow> ('z io_scheme, block_info) op" where
  "fetch_block_info env n =
     andThen (call (l2_block env (ByNumber n))) (\<lambda>b.
     andThen (lift (unwrap b ''unwrap'')) (\<lambda>block.
     andThen (call (l2_receipts env n)) (\<lambda>r.
     andThen (lift (unwrap r ''unwrap'')) (\<lambda>receipts.
       ret \<lparr>block_number = n,
            transaction_count = blk_tx_count block,
            bi_gas_used = gas_used (blk_header block),
            total_l1_fees = wrap_u128 (sum_list (map fee_or_zero receipts)),
            total_tx_fees =
              wrap_u128 (sum_list (map (\<lambda>tx. wrap_u128 (tx_l2_fee tx + fee_or_zero tx)) receipts))\<rparr>))))"

definition get_l2_block_data_range ::
  "rpc_env \<Rightarrow> int \<Rightarrow> int \<Rightarrow> ('z io_scheme, block_info list) op" where
  "get_l2_block_data_range env start end =
     andThen (traverse (\<lambda>n. attempt (fetch_block_info env n)) [wrap_u64 (start + 1)..end])
       (\<lambda>rs. lift (collect_results rs))"

definition fetch_block_fees :: "rpc_env \<Rightarrow> int \<Rightarrow> ('z io_scheme, fee_data list) op" where
  "fetch_block_fees env n =
     andThen (attempt (call (l2_receipts env n))) (\<lambda>a.
       case a of
         Inl e \<Rightarrow> throw (Panic ''unwrap'')
       | Inr None \<Rightarrow> throw (Panic ''unwrap'')
       | Inr (Some txs) \<Rightarrow>
           ret (map (\<lambda>(i, tx).
                  \<lparr>fd_block_number = n, fd_tx_index = int i, fd_tx_hash = tx_hash tx,
                   fd_l1_gas_cost = fee_or_zero tx, fd_tx_fee = tx_l2_fee tx\<rparr>)
                (enumerate 0 txs)))"

definition get_l2_fee_data_range ::
  "rpc_env \<Rightarrow> int \<Rightarrow> int \<Rightarrow> ('z io_scheme, fee_data list) op" where
  "get_l2_fee_data_range env start end =
     andThen (traverse (fetch_block_fees env) [start..end]) (\<lambda>xs. ret (concat xs))"

subsection \<open>Binary search by timestamp\<close>

text \<open>
  \<open>find_block_by_timestamp\<close>, on wrapping \<open>u64\<close>. Unlike the other search it computes
  \<open>(low + high) / 2\<close>.
\<close>

partial_function (option) find_block_loop ::
  "(block_id \<Rightarrow> nat \<Rightarrow> error + rpc_block option) \<Rightarrow> int \<Rightarrow> int \<Rightarrow> int \<Rightarrow> 'z io_scheme
     \<Rightarrow> ((b256 \<times> int) res \<times> 'z io_scheme) option" where
  "find_block_loop blk target low high s =
     (if low \<le> high
      then (case call (blk (ByNumber (wrap_u64 (low + high) div 2))) s of
              (Inl e, s') \<Rightarrow> Some (Inl e, s')
            | (Inr None, s') \<Rightarrow> Some (Err (Msg ''Failed to get block for block''), s')
            | (Inr (Some b), s') \<Rightarrow>
                (if timestamp (blk_header b) = target
                 then Some (Ok (blk_hash b, number (blk_header b)), s')
                 else if timestamp (blk_header b) < target
                 then find_block_loop blk target (wrap_u64 (wrap_u64 (low + high) div 2 + 1)) high s'
                 else find_block_loop blk target low (wrap_u64 (wrap_u64 (low + high) div 2 - 1)) s'))
      else (case call (blk (ByNumber low)) s of
              (Inl e, s') \<Rightarrow> Some (Inl e, s')
            | (Inr None, s') \<Rightarrow> Some (Err (Msg ''Failed to get block for block''), s')
            | (Inr (Some b), s') \<Rightarrow> Some (Ok (blk_hash b, number (blk_header b)), s')))"

definition find_block_by_timestamp ::
  "(block_id \<Rightarrow> nat \<Rightarrow> error + rpc_block option) \<Rightarrow> int \<Rightarrow> ('z io_scheme, b256 \<times> int) op" where
  "find_block_by_timestamp blk target =
     andThen (call (blk Finalized)) (\<lambda>latest.
       case latest of
         None \<Rightarrow> throw (Failure (Msg ''Failed to get latest block''))
       | Some b \<Rightarrow> run_loop (find_block_loop blk target 0 (number (blk_header b))))"

definition find_l1_block_by_timestamp :: "rpc_env \<Rightarrow> int \<Rightarrow> ('z io_scheme, b256 \<times> int) op" where
  "find_l1_block_by_timestamp env = find_block_by_timestamp (l1_block env)"

definition find_l2_block_by_timestamp :: "rpc_env \<Rightarrow> int \<Rightarrow> ('z io_scheme, b256 \<times> int) op" where
  "find_l2_block_by_timestamp env = find_block_by_timestamp (l2_block env)"

subsection \<open>Header preimages\<close>

fun earliest_loop ::
  "rpc_env \<Rightarrow> boot_info list \<Rightarrow> int \<Rightarrow> header option \<Rightarrow> ('z io_scheme, header option) op" where
  "earliest_loop env [] n h = ret h"
| "earliest_loop env (b # bs) n h =
     andThen (get_l1_header env (ByHash (l1Head b))) (\<lambda>x.
       if number x < n then earliest_loop env bs (number x) (Some x)
       else earliest_loop env bs n h)"

definition get_earliest_l1_head_in_batch ::
  "rpc_env \<Rightarrow> boot_info list \<Rightarrow> ('z io_scheme, header) op" where
  "get_earliest_l1_head_in_batch env bs =
     andThen (earliest_loop env bs u64_max None) (\<lambda>h. lift (unwrap h ''unwrap''))"

fun latest_loop ::
  "rpc_env \<Rightarrow> boot_info list \<Rightarrow> int \<Rightarrow> header option \<Rightarrow> ('z io_scheme, header option) op" where
  "latest_loop env [] n h = ret h"
| "latest_loop env (b # bs) n h =
     andThen (get_l1_header env (ByHash (l1Head b))) (\<lambda>x.
       if n < number x then latest_loop env bs (number x) (Some x)
       else latest_loop env bs n h)"

definition get_latest_l1_head_in_batch ::
  "rpc_env \<Rightarrow> boot_info list \<Rightarrow> ('z io_scheme, header) op" where
  "get_latest_l1_head_in_batch env bs =
     andThen (latest_loop env bs 0 None) (\<lambda>h.
       case h of Some x \<Rightarrow> ret x | None \<Rightarrow> throw (Failure (Msg ''Failed to get latest L1 header'')))"

definition fetch_headers_in_range ::
  "rpc_env \<Rightarrow> int \<Rightarrow> int \<Rightarrow> ('z io_scheme, header list) op" where
  "fetch_headers_in_range env start end =
     andThen (traverse (\<lambda>n. attempt (get_l1_header env (ByNumber n))) [start..end])
       (\<lambda>rs. lift (collect_results rs))"

definition get_header_preimages ::
  "rpc_env \<Rightarrow> boot_info list \<Rightarrow> b256 \<Rightarrow> ('z io_scheme, header list) op" where
  "get_header_preimages env bs checkpoint_block_hash =
     andThen (get_earliest_l1_head_in_batch env bs) (\<lambda>start_header.
     andThen (get_l1_header env (ByHash checkpoint_block_hash)) (\<lambda>latest_header.
       fetch_headers_in_range env (number start_header) (number latest_header)))"

definition get_l2_output_at_block :: "rpc_env \<Rightarrow> int \<Rightarrow> ('z io_scheme, output_response) op" where
  "get_l2_output_at_block env n = call (output_at_block env n)"

subsection \<open>The L1 block from which an L2 block can be derived\<close>

partial_function (option) safe_l1_loop ::
  "(int \<Rightarrow> nat \<Rightarrow> error + safe_head_response) \<Rightarrow> int \<Rightarrow> int \<Rightarrow> int \<Rightarrow> (b256 \<times> int) option \<Rightarrow> 'z io_scheme
     \<Rightarrow> ((b256 \<times> int) option res \<times> 'z io_scheme) option" where
  "safe_l1_loop safe_head l2_end low high first_valid s =
     (if low \<le> high
      then (case call (safe_head (low + (high - low) div 2)) s of
              (Inl e, s') \<Rightarrow> Some (Inl e, s')
            | (Inr r, s') \<Rightarrow>
                (if l2_end \<le> safe_head_number r
                 then safe_l1_loop safe_head l2_end low (wrap_u64 (low + (high - low) div 2 - 1))
                        (Some (sh_l1_hash r, sh_l1_number r)) s'
                 else safe_l1_loop safe_head l2_end (wrap_u64 (low + (high - low) div 2 + 1)) high
                        first_valid s'))
      else Some (Ok first_valid, s))"

definition get_safe_l1_block_for_l2_block ::
  "rpc_env \<Rightarrow> int \<Rightarrow> ('z io_scheme, b256 \<times> int) op" where
  "get_safe_l1_block_for_l2_block env l2_end =
     andThen (get_l1_header env Finalized) (\<lambda>latest.
     andThen (call (output_at_block env l2_end)) (\<lambda>out.
     andThen (run_loop (safe_l1_loop (safe_head_at_l1 env) l2_end
                (l1_origin_number out) (number latest) None)) (\<lambda>first_valid.
       case first_valid of
         Some x \<Rightarrow> ret x
       | None \<Rightarrow> throw (Failure (Msg ''Could not find an L1 block with an L2 safe head greater than the L2 end block.'')))))"

definition get_l1_head ::
  "rpc_env \<Rightarrow> 'cfg data_fetcher \<Rightarrow> int \<Rightarrow> bool \<Rightarrow> ('z io_scheme, b256 \<times> int) op" where
  "get_l1_head env f l2_end_block safe_db_fallback =
     (if df_rollup_config f = None then throw (Failure (Msg ''Rollup config not loaded.''))
      else onErr (get_safe_l1_block_for_l2_block env l2_end_block) ret (\<lambda>e.
        if safe_db_fallback
        then andThen (get_l2_header env (ByNumber l2_end_block)) (\<lambda>l2.
             andThen (get_l1_header env Finalized) (\<lambda>l1.
               find_l1_block_by_timestamp env
                 (min (wrap_u64 (timestamp l2 + 40 * 60)) (timestamp l1))))
        else throw (Failure (Msg ''SafeDB is not activated''))))"

definition get_l2_safe_head_from_l1_block_number :: "rpc_env \<Rightarrow> int \<Rightarrow> ('z io_scheme, int) op" where
  "get_l2_safe_head_from_l1_block_number env n =
     andThen (call (safe_head_at_l1 env n)) (\<lambda>r. ret (safe_head_number r))"

definition is_safe_db_activated :: "rpc_env \<Rightarrow> ('z io_scheme, bool) op" where
  "is_safe_db_activated env =
     andThen (get_l1_header env Finalized) (\<lambda>h.
     andThen (attempt (call (safe_head_at_l1 env (number h)))) (\<lambda>r.
       ret (case r of Inl _ \<Rightarrow> False | Inr _ \<Rightarrow> True)))"

subsection \<open>Arguments of the native host\<close>

record single_chain_host =
  sch_l1_head :: b256
  sch_agreed_l2_output_root :: b256
  sch_agreed_l2_head_hash :: b256
  sch_claimed_l2_output_root :: b256
  sch_claimed_l2_block_number :: int
  sch_l2_chain_id :: "int option"
  sch_l2_node_address :: "string option"
  sch_l1_node_address :: "string option"
  sch_l1_beacon_address :: "string option"
  sch_data_dir :: "string option"
  sch_native :: bool
  sch_server :: bool
  sch_rollup_config_path :: "string option"
  sch_enable_experimental_witness_endpoint :: bool

definition trim_end_slashes :: "string \<Rightarrow> string" where
  "trim_end_slashes u = rev (dropWhile (\<lambda>c. c = CHR ''/'') (rev u))"

text \<open>
  \<open>output_hash state storage block\<close> is \<open>keccak256\<close> of the ABI-encoded \<open>L2Output\<close> (third-party
  code, a parameter).
\<close>

definition get_host_args ::
  "(b256 \<Rightarrow> b256 \<Rightarrow> b256 \<Rightarrow> b256) \<Rightarrow> rpc_env \<Rightarrow> 'cfg data_fetcher \<Rightarrow> int \<Rightarrow> int \<Rightarrow> b256
     \<Rightarrow> ('z io_scheme, single_chain_host) op" where
  "get_host_args output_hash env f l2_start_block l2_end_block l1_head_hash =
     (if df_rollup_config f = None then throw (Failure (Msg ''Rollup config not loaded.''))
      else if l2_end_block \<le> l2_start_block
      then throw (Failure (Msg ''L2 start block is greater than or equal to L2 end block.''))
      else
        andThen (call (l2_block env (ByNumber l2_start_block))) (\<lambda>ob.
        andThen (case ob of Some b \<Rightarrow> ret b
                 | None \<Rightarrow> throw (Failure (Msg ''Block not found for block number''))) (\<lambda>output_block.
        andThen (call (l2_storage_hash env l2_start_block)) (\<lambda>output_storage.
        andThen (call (l2_block env (ByNumber l2_end_block))) (\<lambda>cb.
        andThen (lift (unwrap cb ''unwrap'')) (\<lambda>claim_block.
        andThen (call (l2_storage_hash env l2_end_block)) (\<lambda>claim_storage.
          ret \<lparr>sch_l1_head = l1_head_hash,
               sch_agreed_l2_output_root =
                 output_hash (state_root (blk_header output_block)) output_storage (blk_hash output_block),
               sch_agreed_l2_head_hash = blk_hash output_block,
               sch_claimed_l2_output_root =
                 output_hash (state_root (blk_header claim_block)) claim_storage (blk_hash claim_block),
               sch_claimed_l2_block_number = l2_end_block,
               sch_l2_chain_id = None,
               sch_l2_node_address = Some (trim_end_slashes (l2_rpc (df_rpc f))),
               sch_l1_node_address = Some (trim_end_slashes (l1_rpc (df_rpc f))),
               sch_l1_beacon_address = Some (trim_end_slashes (l1_beacon_rpc (df_rpc f))),
               sch_data_dir = None,
               sch_native = False,
               sch_server = True,
               sch_rollup_config_path = df_rollup_config_path f,
               sch_enable_experimental_witness_endpoint = False\<rparr>)))))))"

subsection \<open>Chains that do not change while they are searched\<close>

text \<open>
  \<open>stable_chain blk chain tip\<close>: whatever the number of calls made, the node answers block
  \<open>n\<close> of \<open>chain\<close> for every \<open>n\<close> up to the finalized block \<open>tip\<close>, and timestamps increase.
  \<open>first_block\<close> is the block a search by timestamp looks for.
\<close>

definition stable_chain ::
  "(block_id \<Rightarrow> nat \<Rightarrow> error + rpc_block option) \<Rightarrow> (int \<Rightarrow> rpc_block) \<Rightarrow> int \<Rightarrow> bool" where
  "stable_chain blk chain tip \<longleftrightarrow>
     0 \<le> tip \<and> tip < 2 ^ 62
     \<and> (\<forall>t. blk Finalized t = Inr (Some (chain tip)))
     \<and> (\<forall>n t. 0 \<le> n \<longrightarrow> n \<le> tip \<longrightarrow> blk (ByNumber n) t = Inr (Some (chain n)))
     \<and> (\<forall>n. number (blk_header (chain n)) = n)
     \<and> (\<forall>m n. m < n \<longrightarrow> timestamp (blk_header (chain m)) < timestamp (blk_header (chain n)))"

abbreviation block_ts :: "(int \<Rightarrow> rpc_block) \<Rightarrow> int \<Rightarrow> int" where
  "block_ts chain n \<equiv> timestamp (blk_header (chain n))"

definition first_block :: "(int \<Rightarrow> rpc_block) \<Rightarrow> int \<Rightarrow> int \<Rightarrow> int \<Rightarrow> bool" where
  "first_block chain tip target n \<longleftrightarrow>
     0 \<le> n \<and> n \<le> tip \<and> target \<le> block_ts chain n \<and> (\<forall>m < n. block_ts chain m < target)"

lemma stable_chainD:
  assumes "stable_chain blk chain tip"
  shows "0 \<le> tip" "tip < 2 ^ 62"
    "blk Finalized t = Inr (Some (chain tip))"
    "0 \<le> n \<Longrightarrow> n \<le> tip \<Longrightarrow> blk (ByNumber n) t = Inr (Some (chain n))"
    "number (blk_header (chain n)) = n"
    "m < n \<Longrightarrow> block_ts chain m < block_ts chain n"
  using assms by (auto simp: stable_chain_def)

lemma call_stable:
  assumes "stable_chain blk chain tip" "0 \<le> n" "n \<le> tip"
  shows "call (blk (ByNumber n)) s = (Inr (Some (chain n)), s\<lparr>tick := Suc (tick s)\<rparr>)"
  using stable_chainD(4) [OF assms] by (simp add: call_def)

text \<open>One probe of the search, away from both ends of the number type.\<close>

lemma find_block_probe:
  assumes st: "stable_chain blk chain tip" and "0 \<le> low" "low \<le> high" "high \<le> tip"
    and mid: "mid = (low + high) div 2"
  shows "find_block_loop blk target low high s =
    (if block_ts chain mid = target then Some (Ok (blk_hash (chain mid), mid), s\<lparr>tick := Suc (tick s)\<rparr>)
     else if block_ts chain mid < target
     then find_block_loop blk target (mid + 1) high (s\<lparr>tick := Suc (tick s)\<rparr>)
     else find_block_loop blk target low (wrap_u64 (mid - 1)) (s\<lparr>tick := Suc (tick s)\<rparr>))"
proof -
  have tip: "tip < 2 ^ 62" using st by (simp add: stable_chain_def)
  have b: "0 \<le> mid" "mid \<le> tip" using assms by auto
  have w: "wrap_u64 (low + high) = low + high" "wrap_u64 (mid + 1) = mid + 1"
    using assms b tip by (simp_all add: int_bounds)
  show ?thesis
    using assms(3) call_stable [OF st b, of s] stable_chainD(5) [OF st, of mid]
    by (subst find_block_loop.simps) (simp add: w flip: mid)
qed

lemma find_block_loop_stable:
  assumes st: "stable_chain blk chain tip"
    and "0 \<le> low" "low \<le> high + 1" "high \<le> tip" "low \<le> tip"
    and "block_ts chain 0 \<le> target" "target \<le> block_ts chain tip"
    and "\<forall>m < low. block_ts chain m < target" "\<forall>m > high. target < block_ts chain m \<or> tip < m"
  shows "\<exists>n k. find_block_loop blk target low high s
       = Some (Ok (blk_hash (chain n), n), s\<lparr>tick := tick s + k\<rparr>)
    \<and> first_block chain tip target n"
  using assms(2-)
proof (induction "nat (high + 1 - low)" arbitrary: low high s rule: less_induct)
  case less
  note ts = stable_chainD(6) [OF st]
  show ?case
  proof (cases "low \<le> high")
    case True
    define mid where "mid = (low + high) div 2"
    have b: "low \<le> mid" "mid \<le> high" using True by (auto simp: mid_def)
    let ?s = "s\<lparr>tick := Suc (tick s)\<rparr>"
    note probe = find_block_probe [OF st less.prems(1) True less.prems(3) mid_def, of target s]
    consider (eq) "block_ts chain mid = target" | (lt) "block_ts chain mid < target"
      | (gt) "target < block_ts chain mid" by fastforce
    then show ?thesis
    proof cases
      case eq
      have "first_block chain tip target mid"
        using eq b less.prems ts by (auto simp: first_block_def)
      then show ?thesis using probe eq
        by (intro exI [of _ mid] exI [of _ 1]) simp
    next
      case lt
      have "\<forall>m < mid + 1. block_ts chain m < target"
        using lt ts by (metis order.strict_trans zless_add1_eq)
      moreover have "mid + 1 \<le> tip" using lt less.prems b
        by (metis linorder_not_less order.trans zle_add1_eq_le less_le)
      ultimately obtain n k where
        "find_block_loop blk target (mid + 1) high ?s
           = Some (Ok (blk_hash (chain n), n), ?s\<lparr>tick := tick ?s + k\<rparr>)"
        "first_block chain tip target n"
        using less.hyps [of high "mid + 1" ?s] less.prems b by fastforce
      then show ?thesis using probe lt by (intro exI [of _ n] exI [of _ "Suc k"]) simp
    next
      case gt
      have "mid \<noteq> 0" using gt less.prems(5) by auto
      then have mid: "0 < mid" using b less.prems by simp
      have "mid - 1 < 2 ^ 62" using b less.prems stable_chainD(2) [OF st] by simp
      then have w: "wrap_u64 (mid - 1) = mid - 1" using mid by (simp add: int_bounds)
      have "\<forall>m > mid - 1. target < block_ts chain m \<or> tip < m"
      proof (intro allI impI)
        fix m assume "mid - 1 < m"
        then have "mid = m \<or> mid < m" by linarith
        then show "target < block_ts chain m \<or> tip < m"
          using gt ts [of mid m] less_trans by blast
      qed
      then obtain n k where
        "find_block_loop blk target low (mid - 1) ?s
           = Some (Ok (blk_hash (chain n), n), ?s\<lparr>tick := tick ?s + k\<rparr>)"
        "first_block chain tip target n"
        using less.hyps [of "mid - 1" low ?s] less.prems b by fastforce
      then show ?thesis using probe gt w by (intro exI [of _ n] exI [of _ "Suc k"]) simp
    qed
  next
    case False
    then have e: "low = high + 1" using less.prems by simp
    then have "target < block_ts chain low" using less.prems(4,8) by force
    then have "first_block chain tip target low" using less.prems by (simp add: first_block_def)
    then show ?thesis
      using False call_stable [OF st less.prems(1,4), of s] stable_chainD(5) [OF st, of low]
      by (intro exI [of _ low] exI [of _ 1]) (simp add: find_block_loop.simps)
  qed
qed

lemma find_block_by_timestamp_stable:
  assumes st: "stable_chain blk chain tip"
    and ts: "block_ts chain 0 \<le> target" "target \<le> block_ts chain tip"
  shows "\<exists>n k. find_block_by_timestamp blk target s
      = (Ok (blk_hash (chain n), n), s\<lparr>tick := tick s + k\<rparr>)
    \<and> first_block chain tip target n"
proof -
  let ?s = "s\<lparr>tick := Suc (tick s)\<rparr>"
  note d = stable_chainD [OF st]
  have neg: "\<forall>m < 0. block_ts chain m < target" using d(6) ts(1) by (meson less_le_trans)
  obtain n k where "find_block_loop blk target 0 tip ?s
        = Some (Ok (blk_hash (chain n), n), ?s\<lparr>tick := tick ?s + k\<rparr>)"
      "first_block chain tip target n"
    using find_block_loop_stable [OF st, of 0 tip target ?s] d(1) ts neg by auto
  then show ?thesis using d(3,5)
    by (intro exI [of _ n] exI [of _ "Suc k"])
      (simp add: find_block_by_timestamp_def andThen_def call_def run_loop_def)
qed

lemma find_block_loop_before_genesis:
  assumes st: "stable_chain blk chain tip" and "target < block_ts chain 0"
    and miss: "\<And>t. blk (ByNumber (2 ^ 63 - 1)) t = Inr None"
    and "0 \<le> high" "high \<le> tip"
  shows "\<exists>k. find_block_loop blk target 0 high s
    = Some (Err (Msg ''Failed to get block for block''), s\<lparr>tick := tick s + k\<rparr>)"
  using assms(4-)
proof (induction "nat high" arbitrary: high s rule: less_induct)
  case less
  let ?s = "s\<lparr>tick := Suc (tick s)\<rparr>"
  define mid where "mid = (0 + high) div 2"
  have b: "0 \<le> mid" "mid \<le> high" using less.prems by (auto simp: mid_def)
  have gt: "target < block_ts chain mid"
    using assms(2) stable_chainD(6) [OF st, of 0 mid] b(1) by (cases "mid = 0") auto
  have probe: "find_block_loop blk target 0 high s = find_block_loop blk target 0 (wrap_u64 (mid - 1)) ?s"
    using find_block_probe [OF st _ less.prems(1,2) mid_def, of target s] gt by simp
  show ?case
  proof (cases "mid = 0")
    case True
    have "find_block_loop blk target 0 u64_max ?s
        = Some (Err (Msg ''Failed to get block for block''), ?s\<lparr>tick := Suc (tick ?s)\<rparr>)"
      using miss
      by (subst find_block_loop.simps) (simp add: call_def wrap_u64_def u64_max_def)
    then show ?thesis using probe True
      by (intro exI [of _ 2]) (simp add: wrap_u64_minus_1 numeral_2_eq_2)
  next
    case False
    then have "0 < mid" "mid < high" using b less.prems by (auto simp: mid_def)
    moreover have "wrap_u64 (mid - 1) = mid - 1"
      using calculation less.prems stable_chainD(2) [OF st] by (simp add: int_bounds)
    ultimately obtain k where "find_block_loop blk target 0 (wrap_u64 (mid - 1)) ?s
        = Some (Err (Msg ''Failed to get block for block''), ?s\<lparr>tick := tick ?s + k\<rparr>)"
      using less.hyps [of "mid - 1" ?s] less.prems by auto
    then show ?thesis using probe by (intro exI [of _ "Suc k"]) simp
  qed
qed

subsection \<open>The search for the first L1 block with a safe head\<close>

text \<open>
  The node's answers are stable on the searched interval, and a later L1 block never has a
  lower safe head.
\<close>

definition stable_safe_heads ::
  "(int \<Rightarrow> nat \<Rightarrow> error + safe_head_response) \<Rightarrow> (int \<Rightarrow> safe_head_response) \<Rightarrow> int \<Rightarrow> int \<Rightarrow> bool" where
  "stable_safe_heads f sh lo hi \<longleftrightarrow>
     (\<forall>n t. lo \<le> n \<longrightarrow> n \<le> hi \<longrightarrow> f n t = Inr (sh n))
     \<and> (\<forall>m n. m \<le> n \<longrightarrow> safe_head_number (sh m) \<le> safe_head_number (sh n))"

definition sh_l1 :: "safe_head_response \<Rightarrow> b256 \<times> int" where
  "sh_l1 r = (sh_l1_hash r, sh_l1_number r)"

definition first_safe ::
  "(int \<Rightarrow> safe_head_response) \<Rightarrow> int \<Rightarrow> int \<Rightarrow> int \<Rightarrow> (b256 \<times> int) option \<Rightarrow> bool" where
  "first_safe sh lo hi l2_end r \<longleftrightarrow>
     (case r of
        None \<Rightarrow> \<forall>n. lo \<le> n \<longrightarrow> n \<le> hi \<longrightarrow> safe_head_number (sh n) < l2_end
      | Some x \<Rightarrow> \<exists>n. lo \<le> n \<and> n \<le> hi \<and> x = sh_l1 (sh n) \<and> l2_end \<le> safe_head_number (sh n)
          \<and> (\<forall>m. lo \<le> m \<longrightarrow> m < n \<longrightarrow> safe_head_number (sh m) < l2_end))"

lemma safe_l1_loop_stable:
  assumes st: "stable_safe_heads f sh lo hi" and "0 < lo" "hi < 2 ^ 63"
    and "lo \<le> low" "low \<le> high + 1" "high \<le> hi"
    and "\<forall>m. lo \<le> m \<longrightarrow> m < low \<longrightarrow> safe_head_number (sh m) < l2_end"
    and "best = None \<longrightarrow> high = hi"
    and "\<And>x. best = Some x \<Longrightarrow> high < hi \<and> x = sh_l1 (sh (high + 1))
           \<and> l2_end \<le> safe_head_number (sh (high + 1))"
  shows "\<exists>r k. safe_l1_loop f l2_end low high best s = Some (Ok r, s\<lparr>tick := tick s + k\<rparr>)
    \<and> first_safe sh lo hi l2_end r"
  using assms(4-)
proof (induction "nat (high + 1 - low)" arbitrary: low high best s rule: less_induct)
  case less
  let ?s = "s\<lparr>tick := Suc (tick s)\<rparr>"
  have mono: "\<And>m n. m \<le> n \<Longrightarrow> safe_head_number (sh m) \<le> safe_head_number (sh n)"
    using st by (simp add: stable_safe_heads_def)
  show ?case
  proof (cases "low \<le> high")
    case True
    define mid where "mid = low + (high - low) div 2"
    have b: "low \<le> mid" "mid \<le> high" using True by (auto simp: mid_def)
    have w: "wrap_u64 (mid - 1) = mid - 1" "wrap_u64 (mid + 1) = mid + 1"
      using b less.prems assms(2,3) by (simp_all add: int_bounds)
    have c: "call (f mid) s = (Inr (sh mid), ?s)"
      using st b less.prems by (simp add: call_def stable_safe_heads_def)
    show ?thesis
    proof (cases "l2_end \<le> safe_head_number (sh mid)")
      case le: True
      have "safe_l1_loop f l2_end low high best s
          = safe_l1_loop f l2_end low (mid - 1) (Some (sh_l1 (sh mid))) ?s"
        using True c w le by (subst safe_l1_loop.simps) (simp add: sh_l1_def flip: mid_def)
      moreover have "\<exists>r k. safe_l1_loop f l2_end low (mid - 1) (Some (sh_l1 (sh mid))) ?s
          = Some (Ok r, ?s\<lparr>tick := tick ?s + k\<rparr>) \<and> first_safe sh lo hi l2_end r"
        by (rule less.hyps) (use b less.prems le in auto)
      ultimately show ?thesis by (auto simp: tick_later)
    next
      case gt: False
      have "safe_l1_loop f l2_end low high best s = safe_l1_loop f l2_end (mid + 1) high best ?s"
        using True c w gt by (subst safe_l1_loop.simps) (simp flip: mid_def)
      moreover have "\<exists>r k. safe_l1_loop f l2_end (mid + 1) high best ?s
          = Some (Ok r, ?s\<lparr>tick := tick ?s + k\<rparr>) \<and> first_safe sh lo hi l2_end r"
      proof (rule less.hyps)
        show "\<forall>m. lo \<le> m \<longrightarrow> m < mid + 1 \<longrightarrow> safe_head_number (sh m) < l2_end"
          using gt mono by (metis linorder_not_less order.trans zle_add1_eq_le)
      qed (use b less.prems in auto)
      ultimately show ?thesis by (auto simp: tick_later)
    qed
  next
    case False
    then have e: "low = high + 1" using less.prems by simp
    have "first_safe sh lo hi l2_end best"
    proof (cases best)
      case None
      then show ?thesis using less.prems e by (simp add: first_safe_def)
    next
      case (Some x)
      then show ?thesis using less.prems(1,4,6) e
        by (auto simp: first_safe_def intro!: exI [of _ "high + 1"])
    qed
    then show ?thesis using False by (intro exI [of _ best] exI [of _ 0]) (simp add: safe_l1_loop.simps)
  qed
qed

subsection \<open>Header preimages on a stable chain\<close>

text \<open>
  \<open>stable_headers\<close> extends a stable chain with the answers by block hash: every hash in
  \<open>hs\<close> names the block \<open>at h\<close> of the chain.
\<close>

definition stable_headers ::
  "rpc_env \<Rightarrow> (int \<Rightarrow> rpc_block) \<Rightarrow> int \<Rightarrow> b256 set \<Rightarrow> (b256 \<Rightarrow> int) \<Rightarrow> bool" where
  "stable_headers env chain tip hs at \<longleftrightarrow>
     stable_chain (l1_block env) chain tip
     \<and> (\<forall>h \<in> hs. 0 \<le> at h \<and> at h \<le> tip
          \<and> (\<forall>t. l1_block env (ByHash h) t = Inr (Some (chain (at h)))))"

lemma get_header_hash:
  assumes "stable_headers env chain tip hs at" "h \<in> hs"
  shows "get_l1_header env (ByHash h) s = (Ok (blk_header (chain (at h))), s\<lparr>tick := Suc (tick s)\<rparr>)"
    "number (blk_header (chain (at h))) = at h" "0 \<le> at h" "at h < u64_max"
  using assms stable_chainD(2,5) [of "l1_block env" chain tip]
  by (auto simp: stable_headers_def get_l1_header_def get_header_def andThen_def call_def ret_def
      u64_max_def)

lemma earliest_loop_stable:
  assumes "stable_headers env chain tip hs at" "l1Head ` set bs \<subseteq> hs"
    and "\<And>x. h = Some x \<Longrightarrow> x = blk_header (chain n) \<and> n < u64_max"
    and "h = None \<Longrightarrow> n = u64_max"
  shows "\<exists>k. earliest_loop env bs n h s =
    (Ok (if bs = [] \<or> n \<le> Min (at ` l1Head ` set bs) then h
         else Some (blk_header (chain (Min (at ` l1Head ` set bs))))),
     s\<lparr>tick := tick s + k\<rparr>)"
  using assms(2-)
proof (induction bs arbitrary: n h s)
  case Nil
  then show ?case by (auto intro: exI [of _ 0] simp: ret_def)
next
  case (Cons b bs)
  let ?s = "s\<lparr>tick := Suc (tick s)\<rparr>" and ?a = "at (l1Head b)"
  note g = get_header_hash(2-4) [OF assms(1), of "l1Head b"]
    get_header_hash(1) [OF assms(1), of "l1Head b" s]
  have step: "earliest_loop env (b # bs) n h s
      = (if ?a < n then earliest_loop env bs ?a (Some (blk_header (chain ?a))) ?s
         else earliest_loop env bs n h ?s)"
    using g Cons.prems(1) by (simp add: andThen_def)
  let ?M = "Min (at ` l1Head ` set bs)"
  have M: "bs \<noteq> [] \<Longrightarrow> Min (at ` l1Head ` set (b # bs)) = min ?a ?M"
    by (simp add: Min_insert)
  show ?case
  proof (cases "?a < n")
    case True
    obtain k where "earliest_loop env bs ?a (Some (blk_header (chain ?a))) ?s
        = (Ok (if bs = [] \<or> ?a \<le> ?M then Some (blk_header (chain ?a))
               else Some (blk_header (chain ?M))), ?s\<lparr>tick := tick ?s + k\<rparr>)"
      using Cons.IH [of "Some (blk_header (chain ?a))" ?a ?s] Cons.prems g by auto
    then show ?thesis using step True M
      by (intro exI [of _ "Suc k"]) (cases "bs = []"; auto simp: min_def)
  next
    case False
    obtain k where "earliest_loop env bs n h ?s
        = (Ok (if bs = [] \<or> n \<le> ?M then h else Some (blk_header (chain ?M))),
           ?s\<lparr>tick := tick ?s + k\<rparr>)"
      using Cons.IH [of h n ?s] Cons.prems by auto
    then show ?thesis using step False M
      by (intro exI [of _ "Suc k"]) (cases "bs = []"; auto simp: min_def)
  qed
qed

lemma traverse_headers:
  assumes "stable_chain (l1_block env) chain tip" "0 \<le> a" "b \<le> tip"
  shows "\<exists>k. fetch_headers_in_range env a b s
    = (Ok (map (\<lambda>n. blk_header (chain n)) [a..b]), s\<lparr>tick := tick s + k\<rparr>)"
proof -
  have "\<forall>n \<in> set ns. 0 \<le> n \<and> n \<le> tip \<Longrightarrow>
      \<exists>k. traverse (\<lambda>n. attempt (get_l1_header env (ByNumber n))) ns s
        = (Ok (map (\<lambda>n. Inr (blk_header (chain n))) ns), s\<lparr>tick := tick s + k\<rparr>)" for ns s
  proof (induction ns arbitrary: s)
    case Nil
    then show ?case by (auto simp: ret_def intro: exI [of _ 0])
  next
    case (Cons n ns)
    let ?s = "s\<lparr>tick := Suc (tick s)\<rparr>"
    obtain k where "traverse (\<lambda>n. attempt (get_l1_header env (ByNumber n))) ns ?s
        = (Ok (map (\<lambda>n. Inr (blk_header (chain n))) ns), ?s\<lparr>tick := tick ?s + k\<rparr>)"
      using Cons by fastforce
    moreover have "attempt (get_l1_header env (ByNumber n)) s = (Ok (Inr (blk_header (chain n))), ?s)"
      using call_stable [OF assms(1), of n s] Cons.prems
      by (simp add: attempt_def onErr_def get_l1_header_def get_header_def andThen_def ret_def)
    ultimately show ?case
      by (intro exI [of _ "Suc k"]) (simp add: andThen_def ret_def)
  qed
  from this [of "[a..b]" s] assms obtain k where
    "traverse (\<lambda>n. attempt (get_l1_header env (ByNumber n))) [a..b] s
       = (Ok (map (\<lambda>n. Inr (blk_header (chain n))) [a..b]), s\<lparr>tick := tick s + k\<rparr>)"
    by auto
  moreover have "collect_results (map (\<lambda>n. Inr (f n)) ns) = Ok (map f ns)" for f :: "int \<Rightarrow> header" and ns
    by (induction ns) simp_all
  ultimately show ?thesis
    by (auto simp: fetch_headers_in_range_def andThen_def lift_def)
qed

subsection \<open>The fetcher only reads\<close>

lemma call_tick: "call f s = (r, s') \<Longrightarrow> s' = s\<lparr>tick := Suc (tick s)\<rparr>"
  by (auto simp: call_def)

lemma find_block_loop_tick:
  assumes "find_block_loop blk target low high s = Some (r, s')"
  shows "\<exists>k. s' = s\<lparr>tick := k\<rparr>"
proof -
  have "\<exists>k. snd (r, s') = s\<lparr>tick := k\<rparr>"
  proof (rule find_block_loop.raw_induct [OF _ assms])
    fix loop :: "(block_id \<Rightarrow> nat \<Rightarrow> error + rpc_block option) \<Rightarrow> int \<Rightarrow> int \<Rightarrow> int \<Rightarrow> 'a io_scheme
        \<Rightarrow> ((b256 \<times> int) res \<times> 'a io_scheme) option"
      and blk target low high and s :: "'a io_scheme" and x :: "(b256 \<times> int) res \<times> 'a io_scheme"
    assume IH: "\<And>blk target low high s x. loop blk target low high s = Some x \<Longrightarrow>
        \<exists>k. snd x = s\<lparr>tick := k\<rparr>"
    show "(if low \<le> high
      then (case call (blk (ByNumber (wrap_u64 (low + high) div 2))) s of
              (Inl e, s') \<Rightarrow> Some (Inl e, s')
            | (Inr None, s') \<Rightarrow> Some (Err (Msg ''Failed to get block for block''), s')
            | (Inr (Some b), s') \<Rightarrow>
                (if timestamp (blk_header b) = target
                 then Some (Ok (blk_hash b, number (blk_header b)), s')
                 else if timestamp (blk_header b) < target
                 then loop blk target (wrap_u64 (wrap_u64 (low + high) div 2 + 1)) high s'
                 else loop blk target low (wrap_u64 (wrap_u64 (low + high) div 2 - 1)) s'))
      else (case call (blk (ByNumber low)) s of
              (Inl e, s') \<Rightarrow> Some (Inl e, s')
            | (Inr None, s') \<Rightarrow> Some (Err (Msg ''Failed to get block for block''), s')
            | (Inr (Some b), s') \<Rightarrow> Some (Ok (blk_hash b, number (blk_header b)), s'))) = Some x \<Longrightarrow>
      \<exists>k. snd x = s\<lparr>tick := k\<rparr>"
      by (auto split: if_splits prod.splits sum.splits option.splits dest!: call_tick IH)
  qed
  then show ?thesis by simp
qed

lemma safe_l1_loop_tick:
  assumes "safe_l1_loop f l2_end low high best s = Some (r, s')"
  shows "\<exists>k. s' = s\<lparr>tick := k\<rparr>"
proof -
  have "\<exists>k. snd (r, s') = s\<lparr>tick := k\<rparr>"
  proof (rule safe_l1_loop.raw_induct [OF _ assms])
    fix loop :: "(int \<Rightarrow> nat \<Rightarrow> error + safe_head_response) \<Rightarrow> int \<Rightarrow> int \<Rightarrow> int \<Rightarrow> (b256 \<times> int) option
        \<Rightarrow> 'a io_scheme \<Rightarrow> ((b256 \<times> int) option res \<times> 'a io_scheme) option"
      and safe_head l2_end low high first_valid and s :: "'a io_scheme"
      and x :: "(b256 \<times> int) option res \<times> 'a io_scheme"
    assume IH: "\<And>f l2_end low high best s x. loop f l2_end low high best s = Some x \<Longrightarrow>
        \<exists>k. snd x = s\<lparr>tick := k\<rparr>"
    show "(if low \<le> high
      then (case call (safe_head (low + (high - low) div 2)) s of
              (Inl e, s') \<Rightarrow> Some (Inl e, s')
            | (Inr r, s') \<Rightarrow>
                (if l2_end \<le> safe_head_number r
                 then loop safe_head l2_end low (wrap_u64 (low + (high - low) div 2 - 1))
                        (Some (sh_l1_hash r, sh_l1_number r)) s'
                 else loop safe_head l2_end (wrap_u64 (low + (high - low) div 2 + 1)) high
                        first_valid s'))
      else Some (Ok first_valid, s)) = Some x \<Longrightarrow> \<exists>k. snd x = s\<lparr>tick := k\<rparr>"
      by (auto split: if_splits prod.splits sum.splits intro: tick_only_same dest!: call_tick IH)
  qed
  then show ?thesis by simp
qed

lemma fetcher_tick_only [tick_intros]:
  "tick_only (get_l1_header env b)" "tick_only (get_l2_header env b)" "tick_only (get_l2_head env)"
  "tick_only (get_l2_chain_id env)" "tick_only (find_block_by_timestamp blk target)"
  "tick_only (find_l1_block_by_timestamp env target)"
  "tick_only (find_l2_block_by_timestamp env target)"
  "tick_only (get_l2_output_at_block env n)" "tick_only (get_l2_block_data_range env a e)"
  "tick_only (get_safe_l1_block_for_l2_block env n)"
  "tick_only (get_l2_safe_head_from_l1_block_number env n)" "tick_only (is_safe_db_activated env)"
  "tick_only (fetch_headers_in_range env a e)"
  unfolding get_l1_header_def get_l2_header_def get_l2_head_def get_header_def get_l2_chain_id_def
    find_l1_block_by_timestamp_def find_l2_block_by_timestamp_def find_block_by_timestamp_def
    get_l2_output_at_block_def get_l2_block_data_range_def fetch_block_info_def
    get_safe_l1_block_for_l2_block_def get_l2_safe_head_from_l1_block_number_def
    is_safe_db_activated_def fetch_headers_in_range_def
  by (intro tick_intros; (erule find_block_loop_tick safe_l1_loop_tick)?)+

lemma earliest_loop_tick [tick_intros]: "tick_only (earliest_loop env bs n h)"
  by (induction bs arbitrary: n h) (auto intro!: tick_intros)

lemma fetcher_tick_only' [tick_intros]:
  "tick_only (get_header_preimages env bs cp)" "tick_only (get_l1_head env f e fb)"
  "tick_only (get_host_args oh env f b e h)"
  unfolding get_header_preimages_def get_earliest_l1_head_in_batch_def get_l1_head_def
    get_host_args_def
  by (intro tick_intros)+

subsection \<open>A concrete chain\<close>

text \<open>Eleven blocks, two seconds apart; the safe head trails by two L2 blocks per L1 block.\<close>

definition sample_chain :: "int \<Rightarrow> rpc_block" where
  "sample_chain n =
     \<lparr>blk_header = \<lparr>parent_hash = [], number = n, timestamp = 100 + 2 * n, state_root = [], gas_used = 0\<rparr>,
      blk_hash = [word_of_int n], blk_tx_count = 0\<rparr>"

definition sample_block :: "block_id \<Rightarrow> nat \<Rightarrow> error + rpc_block option" where
  "sample_block b t =
     (case b of
        Latest \<Rightarrow> Inr (Some (sample_chain 10))
      | Finalized \<Rightarrow> Inr (Some (sample_chain 10))
      | ByNumber n \<Rightarrow> Inr (if 0 \<le> n \<and> n \<le> 10 then Some (sample_chain n) else None)
      | ByHash h \<Rightarrow> Inr (if length h = 1 \<and> uint (hd h) \<le> 10 then Some (sample_chain (uint (hd h))) else None))"

definition sample_safe_head :: "int \<Rightarrow> safe_head_response" where
  "sample_safe_head n = \<lparr>safe_head_number = 2 * n - 2, sh_l1_hash = [word_of_int n], sh_l1_number = n\<rparr>"

definition sample_env :: rpc_env where
  "sample_env =
     \<lparr>l1_block = sample_block, l2_block = sample_block, l2_receipts = (\<lambda>_ _. Inr (Some [])),
      l2_storage_hash = (\<lambda>_ _. Inr []), safe_head_at_l1 = (\<lambda>n _. Inr (sample_safe_head n)),
      output_at_block = (\<lambda>n _. Inr \<lparr>output_root = [], l1_origin_number = 1\<rparr>),
      l1_chain_id_rpc = (\<lambda>_. Inr 1), l2_chain_id_rpc = (\<lambda>_. Inr 2)\<rparr>"

lemma sample_stable: "stable_chain sample_block sample_chain 10"
  by (simp add: stable_chain_def sample_block_def sample_chain_def)

lemma sample_headers:
  "stable_headers sample_env sample_chain 10 {[3], [5]} (\<lambda>h. uint (hd h))"
  using sample_stable by (simp add: stable_headers_def sample_env_def sample_block_def)

lemma sample_env_simps [simp]:
  "l1_block sample_env = sample_block" "l2_block sample_env = sample_block"
  "safe_head_at_l1 sample_env n t = Inr (sample_safe_head n)"
  "output_at_block sample_env n t = Inr \<lparr>output_root = [], l1_origin_number = 1\<rparr>"
  by (simp_all add: sample_env_def)

lemma sample_number: "number (blk_header (sample_chain n)) = n"
  by (simp add: sample_chain_def)

lemma sample_ts [simp]: "block_ts sample_chain n = 100 + 2 * n"
  by (simp add: sample_chain_def)

subsection \<open>Properties\<close>

text \<open>
  C26. On a stable chain whose genesis is not after the target and whose finalized block is not
  before it, \<open>find_block_by_timestamp\<close> returns (the loop ends) the hash and number of the
  first block whose timestamp is at least the target, in particular the block with exactly that
  timestamp when there is one.
\<close>

theorem find_block_by_timestamp_first:
  assumes "stable_chain blk chain tip"
    and "block_ts chain 0 \<le> target" and "target \<le> block_ts chain tip"
  shows "\<exists>n. fst (find_block_by_timestamp blk target s) = Ok (blk_hash (chain n), n)
    \<and> 0 \<le> n \<and> n \<le> tip \<and> target \<le> block_ts chain n \<and> (\<forall>m < n. block_ts chain m < target)"
  using find_block_by_timestamp_stable [OF assms, of s] by (auto simp: first_block_def)

theorem find_block_by_timestamp_first_witness:
  "\<exists>n. fst (find_block_by_timestamp sample_block 107 \<lparr>tick = 0\<rparr>) = Ok (blk_hash (sample_chain n), n)
     \<and> 107 \<le> 100 + 2 * n \<and> (\<forall>m < n. 100 + 2 * m < 107)"
  using find_block_by_timestamp_first [OF sample_stable, of 107 "\<lparr>tick = 0\<rparr>"] by auto

text \<open>
  For a target before the genesis timestamp, the search steps below block 0: \<open>mid - 1\<close>
  wraps to the largest \<open>u64\<close>, the next probe asks for block \<open>2^63 - 1\<close>, and the search fails
  although block 0 is the first block after the target.
\<close>

theorem find_block_before_genesis_fails:
  assumes "stable_chain blk chain tip" and "target < block_ts chain 0"
    and "\<And>t. blk (ByNumber (2 ^ 63 - 1)) t = Inr None"
  shows "fst (find_block_by_timestamp blk target s) = Err (Msg ''Failed to get block for block'')"
  using find_block_loop_before_genesis [OF assms, of tip "s\<lparr>tick := Suc (tick s)\<rparr>"]
    stable_chainD(1,3,5) [OF assms(1)]
  by (auto simp: find_block_by_timestamp_def andThen_def call_def run_loop_def)

theorem find_block_before_genesis_fails_witness:
  "fst (find_block_by_timestamp sample_block 99 \<lparr>tick = 0\<rparr>)
     = Err (Msg ''Failed to get block for block'')"
  using find_block_before_genesis_fails [OF sample_stable, of 99 "\<lparr>tick = 0\<rparr>"]
  by (simp add: sample_block_def)

text \<open>
  With safe heads that do not change during the search and never decrease with the L1 block,
  \<open>get_safe_l1_block_for_l2_block\<close> returns the first L1 block between the origin of the L2
  block and the finalized head whose safe head reaches the L2 block, and the "could not find"
  error exactly when there is none; the binary search always ends.
\<close>

theorem get_safe_l1_block_first:
  assumes head: "\<And>t. l1_block env Finalized t = Inr (Some fin)"
    and out: "\<And>t. output_at_block env l2_end t = Inr out"
    and st: "stable_safe_heads (safe_head_at_l1 env) sh (l1_origin_number out) (number (blk_header fin))"
    and range: "0 < l1_origin_number out" "l1_origin_number out \<le> number (blk_header fin) + 1"
      "number (blk_header fin) < 2 ^ 63"
  shows "case fst (get_safe_l1_block_for_l2_block env l2_end s) of
      Inr x \<Rightarrow> first_safe sh (l1_origin_number out) (number (blk_header fin)) l2_end (Some x)
    | Inl f \<Rightarrow> first_safe sh (l1_origin_number out) (number (blk_header fin)) l2_end None
        \<and> (\<exists>m. f = Failure (Msg m))"
proof -
  obtain r k where loop: "safe_l1_loop (safe_head_at_l1 env) l2_end (l1_origin_number out)
        (number (blk_header fin)) None (s\<lparr>tick := Suc (Suc (tick s))\<rparr>)
      = Some (Ok r, s\<lparr>tick := Suc (Suc (tick s)) + k\<rparr>)"
    and r: "first_safe sh (l1_origin_number out) (number (blk_header fin)) l2_end r"
    using safe_l1_loop_stable [OF st range(1,3), of "l1_origin_number out" "number (blk_header fin)"
        l2_end None "s\<lparr>tick := Suc (Suc (tick s))\<rparr>"] range(2)
    by auto
  have "get_safe_l1_block_for_l2_block env l2_end s
      = (case r of Some x \<Rightarrow> ret x | None \<Rightarrow> throw (Failure (Msg ''Could not find an L1 block with an L2 safe head greater than the L2 end block.'')))
          (s\<lparr>tick := Suc (Suc (tick s)) + k\<rparr>)"
    using head out loop
    by (simp add: get_safe_l1_block_for_l2_block_def get_l1_header_def get_header_def andThen_def
        call_def ret_def run_loop_def)
  then show ?thesis using r by (cases r) (simp_all add: ret_def throw_def)
qed

theorem get_safe_l1_block_first_witness:
  "case fst (get_safe_l1_block_for_l2_block sample_env 9 \<lparr>tick = 0\<rparr>) of
      Inr x \<Rightarrow> first_safe sample_safe_head 1 10 9 (Some x)
    | Inl f \<Rightarrow> first_safe sample_safe_head 1 10 9 None \<and> (\<exists>m. f = Failure (Msg m))"
  using get_safe_l1_block_first [of sample_env "sample_chain 10" 9
      "\<lparr>output_root = [], l1_origin_number = 1\<rparr>" sample_safe_head "\<lparr>tick = 0\<rparr>"]
  by (auto simp: stable_safe_heads_def sample_safe_head_def sample_block_def sample_number
      split: sum.splits)

lemma header_preimages_stable:
  assumes st: "stable_headers env chain tip hs at"
    and "bs \<noteq> []" "l1Head ` set bs \<subseteq> hs" "checkpoint \<in> hs"
  shows "fst (get_header_preimages env bs checkpoint s)
    = Ok (map (\<lambda>n. blk_header (chain n)) [Min (at ` l1Head ` set bs) .. at checkpoint])"
proof -
  let ?m = "Min (at ` l1Head ` set bs)"
  have c: "stable_chain (l1_block env) chain tip" using st by (simp add: stable_headers_def)
  have "?m \<in> at ` l1Head ` set bs" using assms(2) by simp
  then obtain h where h: "h \<in> hs" "?m = at h" using assms(3) by blast
  note m = get_header_hash(2-4) [OF st h(1)]
  obtain k where e: "earliest_loop env bs u64_max None s
      = (Ok (Some (blk_header (chain ?m))), s\<lparr>tick := tick s + k\<rparr>)"
    using earliest_loop_stable [OF st assms(3), where h = None and n = u64_max and s = s] assms(2) m h(2)
    by auto
  have "0 \<le> ?m" "at checkpoint \<le> tip" using m h(2) st assms(4) by (auto simp: stable_headers_def)
  from traverse_headers [OF c this, of "s\<lparr>tick := Suc (tick s + k)\<rparr>"]
  show ?thesis
    using e m h(2) get_header_hash(1) [OF st assms(4), of "s\<lparr>tick := tick s + k\<rparr>"]
      get_header_hash(2) [OF st assms(4)]
    by (auto simp: get_header_preimages_def get_earliest_l1_head_in_batch_def andThen_def lift_def
        unwrap_def)
qed

text \<open>
  C27. The header preimages handed to the aggregation program are, on a stable chain, exactly the
  headers of all L1 blocks from the earliest L1 head of the batch to the checkpointed block, in
  ascending order without holes.
\<close>

theorem get_header_preimages_complete:
  assumes st: "stable_headers env chain tip hs at"
    and "bs \<noteq> []" "l1Head ` set bs \<subseteq> hs" "checkpoint \<in> hs"
  shows "fst (get_header_preimages env bs checkpoint s)
    = Ok (map (\<lambda>n. blk_header (chain n)) [Min (at ` l1Head ` set bs) .. at checkpoint])"
  by (rule header_preimages_stable [OF assms])

theorem get_header_preimages_complete_witness:
  "fst (get_header_preimages sample_env
      [\<lparr>l1Head = [5], l2PreRoot = [], l2PostRoot = [], l2BlockNumber = 7, rollupConfigHash = []\<rparr>,
       \<lparr>l1Head = [3], l2PreRoot = [], l2PostRoot = [], l2BlockNumber = 9, rollupConfigHash = []\<rparr>]
      [5] \<lparr>tick = 0\<rparr>)
   = Ok (map (\<lambda>n. blk_header (sample_chain n)) [3, 4, 5])"
proof -
  have "[3..5] = [3, 4, 5::int]" by (simp add: upto.simps)
  then show ?thesis
    using get_header_preimages_complete [OF sample_headers, of
      "[\<lparr>l1Head = [5], l2PreRoot = [], l2PostRoot = [], l2BlockNumber = 7, rollupConfigHash = []\<rparr>,
        \<lparr>l1Head = [3], l2PreRoot = [], l2PostRoot = [], l2BlockNumber = 9, rollupConfigHash = []\<rparr>]"
      "[5]" "\<lparr>tick = 0\<rparr>"]
    by simp
qed

text \<open>
  When the safe database is not available and the fallback is allowed, \<open>get_l1_head\<close> picks
  the first L1 block at least 40 minutes after the L2 block, capped at the finalized L1 block;
  without the fallback it reports the missing safe database, and no other error is hidden.
\<close>

theorem get_l1_head_fallback:
  assumes cfg: "df_rollup_config f \<noteq> None"
    and safe: "get_safe_l1_block_for_l2_block env l2_end s = (Err e, s1)"
    and l1: "stable_chain (l1_block env) chain tip"
    and l2: "\<And>t. l2_block env (ByNumber l2_end) t = Inr (Some lb)"
    and ts: "target = min (timestamp (blk_header lb) + 2400) (block_ts chain tip)"
      "block_ts chain 0 \<le> target" "0 \<le> timestamp (blk_header lb)"
      "timestamp (blk_header lb) + 2400 \<le> u64_max"
  shows "(\<exists>n. fst (get_l1_head env f l2_end True s) = Ok (blk_hash (chain n), n)
      \<and> n \<le> tip \<and> target \<le> block_ts chain n \<and> (\<forall>m < n. block_ts chain m < target))
    \<and> fst (get_l1_head env f l2_end False s) = Err (Msg ''SafeDB is not activated'')"
proof -
  let ?s = "s1\<lparr>tick := Suc (Suc (tick s1))\<rparr>"
  have w: "wrap_u64 (timestamp (blk_header lb) + 2400) = timestamp (blk_header lb) + 2400"
    using ts by (simp add: int_bounds)
  obtain n k where find: "find_block_by_timestamp (l1_block env) target ?s
      = (Ok (blk_hash (chain n), n), ?s\<lparr>tick := tick ?s + k\<rparr>)"
    and n: "first_block chain tip target n"
    using find_block_by_timestamp_stable [OF l1 ts(2), of ?s] ts(1) by auto
  obtain c where "df_rollup_config f = Some c" using cfg by blast
  then have "get_l1_head env f l2_end True s = find_block_by_timestamp (l1_block env) target ?s"
    using safe l2 w ts(1) stable_chainD(3) [OF l1]
    by (simp add: get_l1_head_def onErr_def andThen_def get_l2_header_def get_l1_header_def
        get_header_def call_def ret_def find_l1_block_by_timestamp_def)
  moreover have "fst (get_l1_head env f l2_end False s) = Err (Msg ''SafeDB is not activated'')"
    using cfg safe by (simp add: get_l1_head_def onErr_def throw_def)
  ultimately show ?thesis using find n by (auto simp: first_block_def)
qed

text \<open>The sample environment with a node whose safe database is off.\<close>

definition sample_env_no_safe_db :: rpc_env where
  "sample_env_no_safe_db = sample_env\<lparr>safe_head_at_l1 := \<lambda>_ _. Inl RpcError\<rparr>"

definition sample_fetcher :: "unit data_fetcher" where
  "sample_fetcher =
     \<lparr>df_rpc = \<lparr>l1_rpc = ''http://l1/'', l1_beacon_rpc = ''http://beacon'', l2_rpc = ''http://l2//'',
        l2_node_rpc = ''http://node''\<rparr>,
      df_rollup_config = Some (), df_rollup_config_path = None\<rparr>"

theorem get_l1_head_fallback_witness:
  "\<exists>n. fst (get_l1_head sample_env_no_safe_db sample_fetcher 4 True \<lparr>tick = 0\<rparr>)
     = Ok (blk_hash (sample_chain n), n) \<and> 120 \<le> 100 + 2 * n \<and> (\<forall>m < n. 100 + 2 * m < 120)"
proof -
  have "get_safe_l1_block_for_l2_block sample_env_no_safe_db 4 \<lparr>tick = 0\<rparr> = (Err RpcError, \<lparr>tick = 3\<rparr>)"
    by (simp add: get_safe_l1_block_for_l2_block_def get_l1_header_def get_header_def andThen_def
        call_def ret_def run_loop_def sample_env_no_safe_db_def sample_block_def sample_number
        safe_l1_loop.simps)
  from get_l1_head_fallback [OF _ this, of sample_fetcher sample_chain 10 "sample_chain 4" 120]
  show ?thesis using sample_stable
    by (auto simp: sample_env_no_safe_db_def sample_fetcher_def sample_block_def int_bounds)
qed

end
