(* ===== verification/Host.thy ===== *)
theory Host
  imports Fetcher
begin

text \<open>
  The host trait \<open>OPSuccinctHost\<close> of \<open>utils/host/src/host.rs\<close> as a record of operations with
  the contract \<open>op_succinct_host\<close>, and its Ethereum instance of
  \<open>utils/ethereum/host/src/host.rs\<close>. Running the kona server and client is third-party code and
  enters as the answers of \<open>kona_env\<close>.
\<close>

subsection \<open>The trait\<close>

record ('s, 'args, 'wit, 'stdin) succinct_host =
  host_fetch :: "int \<Rightarrow> int \<Rightarrow> b256 option \<Rightarrow> bool \<Rightarrow> ('s, 'args) op"
  host_run :: "'args \<Rightarrow> ('s, 'wit) op"
  host_sp1_stdin :: "'wit \<Rightarrow> error + 'stdin"
  host_l1_head_hash :: "'args \<Rightarrow> b256 option"
  host_finalized_l2_block :: "int \<Rightarrow> ('s, int option) op"
  host_safe_l1_head :: "int \<Rightarrow> bool \<Rightarrow> ('s, b256) op"

record ('args, 'wit) kona_env =
  start_server :: "'args \<Rightarrow> nat \<Rightarrow> error + unit"
  witness_client :: "'args \<Rightarrow> nat \<Rightarrow> error + 'wit"

text \<open>The default method \<open>run\<close>.\<close>

definition default_run :: "('args, 'wit) kona_env \<Rightarrow> 'args \<Rightarrow> ('z io_scheme, 'wit) op" where
  "default_run kona args =
     andThen (call (start_server kona args)) (\<lambda>_.
     andThen (call (witness_client kona args)) ret)"

text \<open>
  What the proposers rely on: the methods only read from the outside world, the arguments carry
  the L1 head they were fetched for, and without a given head the DA-specific safe head is used.
\<close>

locale op_succinct_host =
  fixes h :: "('z io_scheme, 'args, 'wit, 'stdin) succinct_host"
  assumes fetch_reads: "tick_only (host_fetch h b e head fb)"
    and run_reads: "tick_only (host_run h args)"
    and finalized_reads: "tick_only (host_finalized_l2_block h n)"
    and safe_head_reads: "tick_only (host_safe_l1_head h e fb)"
    and fetch_head: "host_fetch h b e (Some l1) fb s = (Inr args, s') \<Longrightarrow>
      host_l1_head_hash h args = Some l1"
    and fetch_default: "host_fetch h b e None fb =
      andThen (host_safe_l1_head h e fb) (\<lambda>l1. host_fetch h b e (Some l1) fb)"
begin

lemma fetch_has_head:
  assumes "host_fetch h b e l1 fb s = (Inr args, s')"
  shows "\<exists>hd. host_l1_head_hash h args = Some hd"
proof (cases l1)
  case None
  then show ?thesis using assms by (auto simp: fetch_default andThen_eq_Ok dest: fetch_head)
next
  case (Some hd)
  then show ?thesis using assms fetch_head by blast
qed

lemma fetch_none_head:
  assumes "host_fetch h b e None fb s = (Inr args, s')"
  shows "\<exists>l1 t. host_safe_l1_head h e fb s = (Inr l1, t) \<and> host_l1_head_hash h args = Some l1"
  using assms by (auto simp: fetch_default andThen_eq_Ok dest: fetch_head)

end

subsection \<open>Ethereum\<close>

text \<open>\<open>hash_slow\<close> is the Keccak hash of the RLP-encoded header, a parameter \<open>hh\<close>.\<close>

definition eth_safe_l1_head ::
  "(header \<Rightarrow> b256) \<Rightarrow> rpc_env \<Rightarrow> 'cfg data_fetcher \<Rightarrow> int \<Rightarrow> bool \<Rightarrow> ('z io_scheme, b256) op" where
  "eth_safe_l1_head hh env f l2_end fb =
     andThen (get_l1_head env f l2_end fb) (\<lambda>(_, l1_head_number).
     andThen (get_l1_header env Finalized) (\<lambda>fin.
     andThen (get_l1_header env (ByNumber (min (wrap_u64 (l1_head_number + 20)) (number fin)))) (\<lambda>hdr.
       ret (hh hdr))))"

definition eth_fetch ::
  "(header \<Rightarrow> b256) \<Rightarrow> (b256 \<Rightarrow> b256 \<Rightarrow> b256 \<Rightarrow> b256) \<Rightarrow> rpc_env \<Rightarrow> 'cfg data_fetcher \<Rightarrow> int \<Rightarrow> int
     \<Rightarrow> b256 option \<Rightarrow> bool \<Rightarrow> ('z io_scheme, single_chain_host) op" where
  "eth_fetch hh output_hash env f l2_start l2_end l1_head_hash fb =
     andThen (case l1_head_hash of Some h \<Rightarrow> ret h | None \<Rightarrow> eth_safe_l1_head hh env f l2_end fb) (\<lambda>h.
       get_host_args output_hash env f l2_start l2_end h)"

definition eth_finalized_l2_block :: "rpc_env \<Rightarrow> int \<Rightarrow> ('z io_scheme, int option) op" where
  "eth_finalized_l2_block env latest =
     andThen (get_l2_header env Finalized) (\<lambda>h. ret (Some (number h)))"

definition eth_host ::
  "(header \<Rightarrow> b256) \<Rightarrow> (b256 \<Rightarrow> b256 \<Rightarrow> b256 \<Rightarrow> b256) \<Rightarrow> rpc_env \<Rightarrow> 'cfg data_fetcher
     \<Rightarrow> (single_chain_host, 'wit) kona_env \<Rightarrow> ('wit \<Rightarrow> error + 'stdin)
     \<Rightarrow> ('z io_scheme, single_chain_host, 'wit, 'stdin) succinct_host" where
  "eth_host hh output_hash env f kona to_stdin =
     \<lparr>host_fetch = eth_fetch hh output_hash env f,
      host_run = default_run kona,
      host_sp1_stdin = to_stdin,
      host_l1_head_hash = (\<lambda>args. Some (sch_l1_head args)),
      host_finalized_l2_block = eth_finalized_l2_block env,
      host_safe_l1_head = eth_safe_l1_head hh env f\<rparr>"

lemma get_host_args_head:
  "get_host_args oh env f b e l1 s = (Inr args, s') \<Longrightarrow> sch_l1_head args = l1"
  by (auto simp: get_host_args_def andThen_eq_Ok ret_def throw_def split: if_splits)

lemma tick_only_case_prod [tick_intros]:
  "(\<And>a b. tick_only (f a b)) \<Longrightarrow> tick_only (case x of (a, b) \<Rightarrow> f a b)"
  by (cases x) auto

lemma default_run_reads [tick_intros]: "tick_only (default_run kona args)"
  unfolding default_run_def by (intro tick_intros)

lemma eth_safe_l1_head_reads [tick_intros]: "tick_only (eth_safe_l1_head hh env f e fb)"
  unfolding eth_safe_l1_head_def by (intro tick_intros)

lemma ret_andThen [simp]: "andThen (ret x) f = f x"
  by (rule ext) (simp add: andThen_def ret_def)

interpretation eth: op_succinct_host "eth_host hh output_hash env f kona to_stdin"
  for hh output_hash env f kona to_stdin
proof
  fix b e l1 hd fb n args and s s' :: "'z io_scheme"
  show "tick_only (host_fetch (eth_host hh output_hash env f kona to_stdin) b e hd fb)"
    unfolding eth_host_def eth_fetch_def succinct_host.simps by (intro tick_intros)
  show "tick_only (host_run (eth_host hh output_hash env f kona to_stdin) args)"
    unfolding eth_host_def succinct_host.simps by (intro tick_intros)
  show "tick_only (host_finalized_l2_block (eth_host hh output_hash env f kona to_stdin) n)"
    unfolding eth_host_def eth_finalized_l2_block_def succinct_host.simps by (intro tick_intros)
  show "tick_only (host_safe_l1_head (eth_host hh output_hash env f kona to_stdin) e fb)"
    unfolding eth_host_def succinct_host.simps by (intro tick_intros)
  show "host_fetch (eth_host hh output_hash env f kona to_stdin) b e (Some l1) fb s = (Inr args, s') \<Longrightarrow>
      host_l1_head_hash (eth_host hh output_hash env f kona to_stdin) args = Some l1"
    by (auto simp: eth_host_def eth_fetch_def dest: get_host_args_head)
  show "host_fetch (eth_host hh output_hash env f kona to_stdin) b e None fb =
      andThen (host_safe_l1_head (eth_host hh output_hash env f kona to_stdin) e fb)
        (\<lambda>l1. host_fetch (eth_host hh output_hash env f kona to_stdin) b e (Some l1) fb)"
    by (simp add: eth_host_def eth_fetch_def)
qed

end
