(* ===== verification/DbTypes.thy ===== *)
theory DbTypes
  imports Fetcher
begin

text \<open>
  The proof requests of the validity proposer: \<open>validity/src/db/types.rs\<close>,
  \<open>RequestExecutionStatistics\<close> of \<open>validity/src/types.rs\<close> and \<open>CommitmentConfig\<close> of
  \<open>validity/src/config.rs\<close>. The environment \<open>val_env\<close> of the proposer's state extends the RPC
  answers with clocks and the fate of each database statement.
\<close>

subsection \<open>Enumerations stored as smallint\<close>

datatype request_status =
    Unrequested | WitnessGeneration | Execution | Prove | Complete | Relayed | Failed | Cancelled

datatype request_type = Range | Aggregation

datatype request_mode = Real | Mock

fun status_to_i16 :: "request_status \<Rightarrow> int" where
  "status_to_i16 Unrequested = 0"
| "status_to_i16 WitnessGeneration = 1"
| "status_to_i16 Execution = 2"
| "status_to_i16 Prove = 3"
| "status_to_i16 Complete = 4"
| "status_to_i16 Relayed = 5"
| "status_to_i16 Failed = 6"
| "status_to_i16 Cancelled = 7"

definition status_from_i16 :: "int \<Rightarrow> request_status res" where
  "status_from_i16 v =
     (if v = 0 then Ok Unrequested
      else if v = 1 then Ok WitnessGeneration
      else if v = 2 then Ok Execution
      else if v = 3 then Ok Prove
      else if v = 4 then Ok Complete
      else if v = 5 then Ok Relayed
      else if v = 6 then Ok Failed
      else if v = 7 then Ok Cancelled
      else Inl (Panic ''Invalid request status''))"

fun type_to_i16 :: "request_type \<Rightarrow> int" where
  "type_to_i16 Range = 0"
| "type_to_i16 Aggregation = 1"

definition type_from_i16 :: "int \<Rightarrow> request_type res" where
  "type_from_i16 v =
     (if v = 0 then Ok Range else if v = 1 then Ok Aggregation
      else Inl (Panic ''Invalid request type''))"

fun mode_to_i16 :: "request_mode \<Rightarrow> int" where
  "mode_to_i16 Real = 0"
| "mode_to_i16 Mock = 1"

definition mode_from_i16 :: "int \<Rightarrow> request_mode res" where
  "mode_from_i16 v =
     (if v = 0 then Ok Real else if v = 1 then Ok Mock
      else Inl (Panic ''Invalid request mode''))"

text \<open>The order of the discriminants.\<close>

instantiation request_status :: linorder
begin

definition less_eq_request_status :: "request_status \<Rightarrow> request_status \<Rightarrow> bool" where
  "less_eq_request_status a b \<longleftrightarrow> status_to_i16 a \<le> status_to_i16 b"

definition less_request_status :: "request_status \<Rightarrow> request_status \<Rightarrow> bool" where
  "less_request_status a b \<longleftrightarrow> status_to_i16 a < status_to_i16 b"

instance
proof
  fix a b :: request_status
  show "a \<le> b \<Longrightarrow> b \<le> a \<Longrightarrow> a = b"
    by (cases a; cases b) (simp_all add: less_eq_request_status_def)
qed (auto simp: less_eq_request_status_def less_request_status_def)

end

lemma status_from_i16_iff [simp]: "status_from_i16 v = Inr s \<longleftrightarrow> v = status_to_i16 s"
  by (cases s) (auto simp: status_from_i16_def split: if_splits)

lemma type_from_i16_iff [simp]: "type_from_i16 v = Inr s \<longleftrightarrow> v = type_to_i16 s"
  by (cases s) (auto simp: type_from_i16_def split: if_splits)

lemma mode_from_i16_iff [simp]: "mode_from_i16 v = Inr s \<longleftrightarrow> v = mode_to_i16 s"
  by (cases s) (auto simp: mode_from_i16_def split: if_splits)

subsection \<open>Execution statistics\<close>

text \<open>
  \<open>sp1_sdk::ExecutionReport\<close>: what the code reads of it, a total, an optional gas and the cycle
  counters by label.
\<close>

record execution_report =
  total_instruction_count :: int
  gas :: "int option"
  cycle_tracker :: "string \<Rightarrow> int option"

record execution_stats =
  total_instruction_cycles :: int
  total_sp1_gas :: int
  block_execution_cycles :: int
  oracle_verify_cycles :: int
  derivation_cycles :: int
  blob_verification_cycles :: int
  bn_add_cycles :: int
  bn_mul_cycles :: int
  bn_pair_cycles :: int
  kzg_eval_cycles :: int
  ec_recover_cycles :: int
  p256_verify_cycles :: int

definition get_cycles :: "execution_report \<Rightarrow> string \<Rightarrow> int" where
  "get_cycles r key = (case cycle_tracker r key of None \<Rightarrow> 0 | Some c \<Rightarrow> c)"

definition execution_stats_new :: "execution_report \<Rightarrow> execution_stats" where
  "execution_stats_new r =
     \<lparr>total_instruction_cycles = total_instruction_count r,
      total_sp1_gas = (case gas r of None \<Rightarrow> 0 | Some g \<Rightarrow> g),
      block_execution_cycles = get_cycles r ''block-execution'',
      oracle_verify_cycles = get_cycles r ''oracle-verify'',
      derivation_cycles = get_cycles r ''payload-derivation'',
      blob_verification_cycles = get_cycles r ''blob-verification'',
      bn_add_cycles = get_cycles r ''precompile-bn-add'',
      bn_mul_cycles = get_cycles r ''precompile-bn-mul'',
      bn_pair_cycles = get_cycles r ''precompile-bn-pair'',
      kzg_eval_cycles = get_cycles r ''precompile-kzg-eval'',
      ec_recover_cycles = get_cycles r ''precompile-ec-recover'',
      p256_verify_cycles = get_cycles r ''precompile-p256-verify''\<rparr>"

subsection \<open>Requests\<close>

record commitment_config =
  cc_range_vkey_commitment :: b256
  cc_agg_vkey_hash :: b256
  cc_rollup_config_hash :: b256

text \<open>
  \<open>OPSuccinctRequest\<close>; \<open>execution_statistics\<close> is \<open>None\<close> for the JSON \<open>null\<close> of \<open>Default\<close>.
  Times are seconds.
\<close>

record request =
  req_id :: int
  req_status :: request_status
  req_type :: request_type
  req_mode :: request_mode
  start_block :: int
  end_block :: int
  created_at :: int
  updated_at :: int
  proof_request_id :: "bytes option"
  proof_request_time :: "int option"
  checkpointed_l1_block_number :: "int option"
  checkpointed_l1_block_hash :: "bytes option"
  execution_statistics :: "execution_stats option"
  witnessgen_duration :: "int option"
  execution_duration :: "int option"
  prove_duration :: "int option"
  range_vkey_commitment :: bytes
  aggregation_vkey_hash :: "bytes option"
  rollup_config_hash :: bytes
  relay_tx_hash :: "bytes option"
  req_proof :: "bytes option"
  total_nb_transactions :: int
  total_eth_gas_used :: int
  req_total_l1_fees :: int
  req_total_tx_fees :: int
  l1_chain_id :: int
  l2_chain_id :: int
  contract_address :: "bytes option"
  req_prover_address :: "bytes option"
  l1_head_block_number :: "int option"

definition default_request :: request where
  "default_request =
     \<lparr>req_id = 0, req_status = Unrequested, req_type = Range, req_mode = Real,
      start_block = 0, end_block = 0, created_at = 0, updated_at = 0,
      proof_request_id = None, proof_request_time = None, checkpointed_l1_block_number = None,
      checkpointed_l1_block_hash = None, execution_statistics = None, witnessgen_duration = None,
      execution_duration = None, prove_duration = None, range_vkey_commitment = [],
      aggregation_vkey_hash = None, rollup_config_hash = [], relay_tx_hash = None, req_proof = None,
      total_nb_transactions = 0, total_eth_gas_used = 0, req_total_l1_fees = 0,
      req_total_tx_fees = 0, l1_chain_id = 0, l2_chain_id = 0, contract_address = None,
      req_prover_address = None, l1_head_block_number = None\<rparr>"

definition new_range_request ::
  "int \<Rightarrow> request_mode \<Rightarrow> int \<Rightarrow> int \<Rightarrow> b256 \<Rightarrow> b256 \<Rightarrow> block_info list \<Rightarrow> int \<Rightarrow> int \<Rightarrow> request" where
  "new_range_request now m s e range_vkey config_hash block_data l1 l2 =
     default_request
       \<lparr>req_id := 0, req_status := Unrequested, req_type := Range, req_mode := m,
        start_block := s, end_block := e, created_at := now, updated_at := now,
        range_vkey_commitment := range_vkey, rollup_config_hash := config_hash,
        total_nb_transactions := as_i64 (wrap_u64 (sum_list (map transaction_count block_data))),
        total_eth_gas_used := as_i64 (wrap_u64 (sum_list (map bi_gas_used block_data))),
        req_total_l1_fees := wrap_u128 (sum_list (map total_l1_fees block_data)),
        req_total_tx_fees := wrap_u128 (sum_list (map total_tx_fees block_data)),
        l1_chain_id := l1, l2_chain_id := l2\<rparr>"

definition new_agg_request ::
  "int \<Rightarrow> request_mode \<Rightarrow> int \<Rightarrow> int \<Rightarrow> b256 \<Rightarrow> b256 \<Rightarrow> b256 \<Rightarrow> int \<Rightarrow> int \<Rightarrow> int \<Rightarrow> b256 \<Rightarrow> address \<Rightarrow> request"
  where
  "new_agg_request now m s e range_vkey agg_vkey config_hash l1 l2 cp_number cp_hash prover =
     default_request
       \<lparr>req_id := 0, req_status := Unrequested, req_type := Aggregation, req_mode := m,
        start_block := s, end_block := e, created_at := now, updated_at := now,
        checkpointed_l1_block_number := Some cp_number, checkpointed_l1_block_hash := Some cp_hash,
        range_vkey_commitment := range_vkey, aggregation_vkey_hash := Some agg_vkey,
        rollup_config_hash := config_hash, l1_chain_id := l1, l2_chain_id := l2,
        req_prover_address := Some prover, l1_head_block_number := None\<rparr>"

subsection \<open>The environment of the validity proposer's state\<close>

text \<open>
  A statement sent to the database succeeds, is lost before it took effect, or takes effect while
  its acknowledgement is lost. \<open>db_order\<close> is the order in which the server scans the table
  where a query does not fix one.
\<close>

datatype db_fate = Acked | Lost | Unacked

record db_env =
  rpc :: rpc_env
  db_fate_at :: "nat \<Rightarrow> db_fate"
  db_now :: "nat \<Rightarrow> int"
  db_order :: "nat \<Rightarrow> nat list"
  local_now :: "nat \<Rightarrow> int"

definition now :: "db_env \<Rightarrow> ('z io_scheme, int) op" where
  "now env = call (\<lambda>t. Inr (local_now env t))"

definition create_range_request ::
  "db_env \<Rightarrow> request_mode \<Rightarrow> int \<Rightarrow> int \<Rightarrow> b256 \<Rightarrow> b256 \<Rightarrow> int \<Rightarrow> int \<Rightarrow> ('z io_scheme, request) op" where
  "create_range_request env m s e range_vkey config_hash l1 l2 =
     andThen (get_l2_block_data_range (rpc env) (as_u64 s) (as_u64 e)) (\<lambda>block_data.
     andThen (now env) (\<lambda>t.
       ret (new_range_request t m s e range_vkey config_hash block_data l1 l2)))"

lemma new_range_request_simps [simp]:
  "req_status (new_range_request t m s e rv ch bd l1 l2) = Unrequested"
  "req_type (new_range_request t m s e rv ch bd l1 l2) = Range"
  "start_block (new_range_request t m s e rv ch bd l1 l2) = s"
  "end_block (new_range_request t m s e rv ch bd l1 l2) = e"
  "range_vkey_commitment (new_range_request t m s e rv ch bd l1 l2) = rv"
  "rollup_config_hash (new_range_request t m s e rv ch bd l1 l2) = ch"
  "l1_chain_id (new_range_request t m s e rv ch bd l1 l2) = l1"
  "l2_chain_id (new_range_request t m s e rv ch bd l1 l2) = l2"
  by (simp_all add: new_range_request_def)

lemma new_agg_request_simps [simp]:
  "req_status (new_agg_request t m s e rv av ch l1 l2 cn hs p) = Unrequested"
  "req_type (new_agg_request t m s e rv av ch l1 l2 cn hs p) = Aggregation"
  "start_block (new_agg_request t m s e rv av ch l1 l2 cn hs p) = s"
  "end_block (new_agg_request t m s e rv av ch l1 l2 cn hs p) = e"
  "range_vkey_commitment (new_agg_request t m s e rv av ch l1 l2 cn hs p) = rv"
  "aggregation_vkey_hash (new_agg_request t m s e rv av ch l1 l2 cn hs p) = Some av"
  "rollup_config_hash (new_agg_request t m s e rv av ch l1 l2 cn hs p) = ch"
  "l1_chain_id (new_agg_request t m s e rv av ch l1 l2 cn hs p) = l1"
  "l2_chain_id (new_agg_request t m s e rv av ch l1 l2 cn hs p) = l2"
  "checkpointed_l1_block_number (new_agg_request t m s e rv av ch l1 l2 cn hs p) = Some cn"
  "checkpointed_l1_block_hash (new_agg_request t m s e rv av ch l1 l2 cn hs p) = Some hs"
  "req_prover_address (new_agg_request t m s e rv av ch l1 l2 cn hs p) = Some p"
  by (simp_all add: new_agg_request_def)

subsection \<open>Properties\<close>

text \<open>
  The smallint codes lose nothing: every status, type and mode written with \<open>as i16\<close> is read
  back by \<open>From<i16>\<close>, a value is accepted exactly when it is the code of some constructor, and
  every other value panics.
\<close>

theorem i16_roundtrip:
  "status_from_i16 (status_to_i16 s) = Ok s \<and> type_from_i16 (type_to_i16 t) = Ok t
   \<and> mode_from_i16 (mode_to_i16 m) = Ok m
   \<and> (is_ok (status_from_i16 v) \<longleftrightarrow> 0 \<le> v \<and> v \<le> 7)
   \<and> (is_ok (type_from_i16 v) \<longleftrightarrow> 0 \<le> v \<and> v \<le> 1) \<and> (is_ok (mode_from_i16 v) \<longleftrightarrow> 0 \<le> v \<and> v \<le> 1)"
proof -
  have "is_ok (status_from_i16 v) \<longleftrightarrow> 0 \<le> v \<and> v \<le> 7" by (auto simp: status_from_i16_def)
  moreover have "is_ok (type_from_i16 v) \<longleftrightarrow> 0 \<le> v \<and> v \<le> 1" by (auto simp: type_from_i16_def)
  moreover have "is_ok (mode_from_i16 v) \<longleftrightarrow> 0 \<le> v \<and> v \<le> 1" by (auto simp: mode_from_i16_def)
  ultimately show ?thesis by simp
qed

end
