(* ===== verification/DbClient.thy ===== *)
theory DbClient
  imports DbTypes "HOL-Library.Multiset"
begin

text \<open>
  The database client of the validity proposer, \<open>validity/src/db/client.rs\<close>: the tables
  \<open>requests\<close> and \<open>chain_locks\<close> of \<open>validity/migrations\<close>, one operation per method, with the
  conditions of its SQL statement, and the gauges of \<open>validity/src/prom.rs\<close>. Each statement is
  one call, whose fate (acknowledged, lost, applied but not acknowledged) the environment
  chooses. Rows a query does not order come in the order the server scans them, which the
  environment chooses too. Comparing a NULL column is never true.
\<close>

subsection \<open>State\<close>

datatype validity_gauge =
    CurrentUnrequestedProofs | CurrentProvingProofs | CurrentWitnessgenProofs
  | CurrentExecuteProofs | HighestProvenContiguousBlock | LatestContractL2Block
  | L2UnsafeHeadBlock | L2FinalizedBlock | MinBlockToProveToAgg | ProofRequestRetryCount
  | TotalErrorCount | ProofRequestTimeoutErrorCount | RetryErrorCount | WitnessgenErrorCount
  | ExecutionErrorCount | RangeProofRequestErrorCount | AggProofRequestErrorCount
  | AggProofValidationErrorCount | RelayAggProofErrorCount

record world = io +
  requests :: "request list"
  next_id :: int
  chain_locks :: "int \<times> int \<Rightarrow> int option"
  gauges :: "validity_gauge \<Rightarrow> int"

definition gauge_increment :: "validity_gauge \<Rightarrow> ('z world_scheme, unit) op" where
  "gauge_increment g = update (\<lambda>s. s\<lparr>gauges := (gauges s)(g := gauges s g + 1)\<rparr>)"

definition gauge_set :: "validity_gauge \<Rightarrow> int \<Rightarrow> ('z world_scheme, unit) op" where
  "gauge_set g v = update (\<lambda>s. s\<lparr>gauges := (gauges s)(g := v)\<rparr>)"

subsection \<open>Statements\<close>

definition db_exec ::
  "db_env \<Rightarrow> (int \<Rightarrow> 'z world_scheme \<Rightarrow> 'z world_scheme) \<Rightarrow> ('z world_scheme, unit) op" where
  "db_exec env f = (\<lambda>s.
     let s' = s\<lparr>tick := Suc (tick s)\<rparr>
     in case db_fate_at env (tick s) of
          Acked \<Rightarrow> (Ok (), f (db_now env (tick s)) s')
        | Lost \<Rightarrow> (Err DbError, s')
        | Unacked \<Rightarrow> (Err DbError, f (db_now env (tick s)) s'))"

definition db_read ::
  "db_env \<Rightarrow> (nat \<Rightarrow> 'z world_scheme \<Rightarrow> 'a) \<Rightarrow> ('z world_scheme, 'a) op" where
  "db_read env q = (\<lambda>s.
     (case db_fate_at env (tick s) of Acked \<Rightarrow> Ok (q (tick s) s) | _ \<Rightarrow> Err DbError,
      s\<lparr>tick := Suc (tick s)\<rparr>))"

text \<open>
  \<open>scan ks xs\<close> lists \<open>xs\<close> in the order that the choices \<open>ks\<close> determine; every permutation is
  the scan of some choices.
\<close>

fun scan :: "nat list \<Rightarrow> 'a list \<Rightarrow> 'a list" where
  "scan [] xs = xs"
| "scan (k # ks) [] = []"
| "scan (k # ks) (x # xs) =
     (let i = k mod length (x # xs)
      in (x # xs) ! i # scan ks (take i (x # xs) @ drop (Suc i) (x # xs)))"

definition select :: "db_env \<Rightarrow> (request \<Rightarrow> bool) \<Rightarrow> ('z world_scheme, request list) op" where
  "select env p = db_read env (\<lambda>t s. filter p (scan (db_order env t) (requests s)))"

definition select_count :: "db_env \<Rightarrow> (request \<Rightarrow> bool) \<Rightarrow> ('z world_scheme, int) op" where
  "select_count env p = db_read env (\<lambda>t s. int (length (filter p (requests s))))"

definition first_row :: "'a list \<Rightarrow> 'a option" where
  "first_row xs = (case xs of [] \<Rightarrow> None | x # _ \<Rightarrow> Some x)"

definition update_rows ::
  "db_env \<Rightarrow> (request \<Rightarrow> bool) \<Rightarrow> (int \<Rightarrow> request \<Rightarrow> request) \<Rightarrow> ('z world_scheme, unit) op" where
  "update_rows env p f =
     db_exec env (\<lambda>t s. s\<lparr>requests := map (\<lambda>r. if p r then f t r else r) (requests s)\<rparr>)"

fun assign_ids :: "int \<Rightarrow> request list \<Rightarrow> request list" where
  "assign_ids n [] = []"
| "assign_ids n (r # rs) = r\<lparr>req_id := n\<rparr> # assign_ids (n + 1) rs"

definition append_rows :: "request list \<Rightarrow> 'z world_scheme \<Rightarrow> 'z world_scheme" where
  "append_rows rs s =
     s\<lparr>requests := requests s @ assign_ids (next_id s) rs, next_id := next_id s + int (length rs)\<rparr>"

text \<open>Conditions shared by the queries.\<close>

definition same_program :: "commitment_config \<Rightarrow> request \<Rightarrow> bool" where
  "same_program c r \<longleftrightarrow>
     range_vkey_commitment r = cc_range_vkey_commitment c
     \<and> rollup_config_hash r = cc_rollup_config_hash c"

definition same_agg :: "commitment_config \<Rightarrow> request \<Rightarrow> bool" where
  "same_agg c r \<longleftrightarrow> aggregation_vkey_hash r = Some (cc_agg_vkey_hash c)"

definition on_chains :: "int \<Rightarrow> int \<Rightarrow> request \<Rightarrow> bool" where
  "on_chains l1 l2 r \<longleftrightarrow> l1_chain_id r = l1 \<and> l2_chain_id r = l2"

subsection \<open>Chain locks\<close>

definition add_chain_lock :: "db_env \<Rightarrow> int \<Rightarrow> int \<Rightarrow> ('z world_scheme, unit) op" where
  "add_chain_lock env l1 l2 =
     db_exec env (\<lambda>t s. s\<lparr>chain_locks := (chain_locks s)((l1, l2) := Some t)\<rparr>)"

text \<open>\<open>PgInterval::try_from(Duration::from_secs(n)).unwrap()\<close>: the microseconds must fit \<open>i64\<close>.\<close>

definition pg_interval :: "int \<Rightarrow> int res" where
  "pg_interval secs = (if secs * 1000000 \<le> i64_max then Ok secs else Inl (Panic ''unwrap''))"

definition is_chain_locked :: "db_env \<Rightarrow> int \<Rightarrow> int \<Rightarrow> int \<Rightarrow> ('z world_scheme, bool) op" where
  "is_chain_locked env l1 l2 interval =
     andThen (lift (pg_interval interval)) (\<lambda>iv.
       db_read env (\<lambda>t s.
         case chain_locks s (l1, l2) of
           None \<Rightarrow> False
         | Some locked_at \<Rightarrow> db_now env t - iv < locked_at))"

definition update_chain_lock :: "db_env \<Rightarrow> int \<Rightarrow> int \<Rightarrow> ('z world_scheme, unit) op" where
  "update_chain_lock env l1 l2 =
     db_exec env (\<lambda>t s.
       s\<lparr>chain_locks := (chain_locks s)((l1, l2) := map_option (\<lambda>_. t) (chain_locks s (l1, l2)))\<rparr>)"

subsection \<open>Inserting\<close>

definition insert_request :: "db_env \<Rightarrow> request \<Rightarrow> ('z world_scheme, unit) op" where
  "insert_request env r = db_exec env (\<lambda>t. append_rows [r])"

fun chunks_of :: "nat \<Rightarrow> 'a list \<Rightarrow> 'a list list" where
  "chunks_of n [] = []"
| "chunks_of n (x # xs) = (x # take (n - 1) xs) # chunks_of n (drop (n - 1) xs)"

text \<open>
  \<open>insert_requests\<close>: the rows of a transaction stay invisible until the commit; the identifiers
  they took from the sequence are not given back when the transaction is rolled back.
\<close>

fun insert_chunks ::
  "db_env \<Rightarrow> request list list \<Rightarrow> request list \<Rightarrow> ('z world_scheme, request list) op" where
  "insert_chunks env [] staged = ret staged"
| "insert_chunks env (c # cs) staged =
     andThen (asks (\<lambda>s. assign_ids (next_id s) c)) (\<lambda>rows.
     andThen (db_exec env (\<lambda>t s. s\<lparr>next_id := next_id s + int (length c)\<rparr>)) (\<lambda>_.
       insert_chunks env cs (staged @ rows)))"

definition insert_requests :: "db_env \<Rightarrow> request list \<Rightarrow> ('z world_scheme, unit) op" where
  "insert_requests env rs =
     andThen (db_exec env (\<lambda>t s. s)) (\<lambda>_.
     andThen (insert_chunks env (chunks_of 100 rs) []) (\<lambda>staged.
       db_exec env (\<lambda>t s. s\<lparr>requests := requests s @ staged\<rparr>)))"

subsection \<open>Queries\<close>

definition fetch_failed_request_count_by_block_range ::
  "db_env \<Rightarrow> int \<Rightarrow> int \<Rightarrow> int \<Rightarrow> int \<Rightarrow> commitment_config \<Rightarrow> ('z world_scheme, int) op" where
  "fetch_failed_request_count_by_block_range env s e l1 l2 c =
     select_count env (\<lambda>r. start_block r = s \<and> end_block r = e
       \<and> (req_status r = Failed \<or> req_status r = Cancelled) \<and> same_program c r \<and> on_chains l1 l2 r)"

definition fetch_highest_end_block_for_range_request ::
  "db_env \<Rightarrow> request_status list \<Rightarrow> commitment_config \<Rightarrow> int \<Rightarrow> int \<Rightarrow> ('z world_scheme, int option) op"
  where
  "fetch_highest_end_block_for_range_request env statuses c l1 l2 =
     andThen (select env (\<lambda>r. same_program c r \<and> req_status r \<in> set statuses
         \<and> req_type r = Range \<and> on_chains l1 l2 r)) (\<lambda>rs.
       ret (first_row (rev (sort (map end_block rs)))))"

definition fetch_ranges_after_block ::
  "db_env \<Rightarrow> request_status list \<Rightarrow> int \<Rightarrow> commitment_config \<Rightarrow> int \<Rightarrow> int
     \<Rightarrow> ('z world_scheme, range list) op" where
  "fetch_ranges_after_block env statuses latest c l1 l2 =
     andThen (select env (\<lambda>r. same_program c r \<and> req_status r \<in> set statuses \<and> req_type r = Range
         \<and> latest \<le> start_block r \<and> on_chains l1 l2 r)) (\<lambda>rs.
       ret (map (\<lambda>r. (start_block r, end_block r)) rs))"

definition fetch_request_count ::
  "db_env \<Rightarrow> request_status \<Rightarrow> commitment_config \<Rightarrow> int \<Rightarrow> int \<Rightarrow> ('z world_scheme, int) op" where
  "fetch_request_count env st c l1 l2 =
     select_count env (\<lambda>r. same_program c r \<and> req_status r = st \<and> on_chains l1 l2 r)"

definition fetch_requests_by_status ::
  "db_env \<Rightarrow> request_status \<Rightarrow> commitment_config \<Rightarrow> int \<Rightarrow> int \<Rightarrow> ('z world_scheme, request list) op" where
  "fetch_requests_by_status env st c l1 l2 =
     select env (\<lambda>r. same_program c r \<and> req_status r = st \<and> on_chains l1 l2 r)"

definition get_consecutive_complete_range_proofs ::
  "db_env \<Rightarrow> int \<Rightarrow> int \<Rightarrow> commitment_config \<Rightarrow> int \<Rightarrow> int \<Rightarrow> ('z world_scheme, request list) op" where
  "get_consecutive_complete_range_proofs env s e c l1 l2 =
     andThen (select env (\<lambda>r. same_program c r \<and> req_status r = Complete \<and> req_type r = Range
         \<and> s \<le> start_block r \<and> end_block r \<le> e \<and> on_chains l1 l2 r)) (\<lambda>rs.
       ret (sort_key start_block rs))"

definition fetch_failed_agg_request_with_checkpointed_block_hash ::
  "db_env \<Rightarrow> int \<Rightarrow> int \<Rightarrow> commitment_config \<Rightarrow> int \<Rightarrow> int \<Rightarrow> ('z world_scheme, (bytes \<times> int) option) op"
  where
  "fetch_failed_agg_request_with_checkpointed_block_hash env s e c l1 l2 =
     andThen (select env (\<lambda>r. same_program c r \<and> same_agg c r \<and> req_type r = Aggregation
         \<and> start_block r = s \<and> end_block r = e \<and> req_status r = Failed
         \<and> checkpointed_l1_block_hash r \<noteq> None \<and> checkpointed_l1_block_number r \<noteq> None
         \<and> on_chains l1 l2 r)) (\<lambda>rs.
       case first_row rs of
         None \<Rightarrow> ret None
       | Some r \<Rightarrow>
           andThen (lift (unwrap (checkpointed_l1_block_hash r) ''unwrap'')) (\<lambda>h.
           andThen (lift (unwrap (checkpointed_l1_block_number r) ''unwrap'')) (\<lambda>n.
             ret (Some (h, n)))))"

definition active_statuses :: "request_status list" where
  "active_statuses = [Unrequested, WitnessGeneration, Execution, Prove, Complete]"

definition fetch_active_agg_proofs_count ::
  "db_env \<Rightarrow> int \<Rightarrow> commitment_config \<Rightarrow> int \<Rightarrow> int \<Rightarrow> ('z world_scheme, int) op" where
  "fetch_active_agg_proofs_count env s c l1 l2 =
     select_count env (\<lambda>r. same_program c r \<and> same_agg c r \<and> req_status r \<in> set active_statuses
       \<and> req_type r = Aggregation \<and> start_block r = s \<and> on_chains l1 l2 r)"

definition fetch_unrequested_agg_proof ::
  "db_env \<Rightarrow> int \<Rightarrow> commitment_config \<Rightarrow> int \<Rightarrow> int \<Rightarrow> ('z world_scheme, request option) op" where
  "fetch_unrequested_agg_proof env latest c l1 l2 =
     andThen (select env (\<lambda>r. same_program c r \<and> same_agg c r \<and> req_status r = Unrequested
         \<and> req_type r = Aggregation \<and> latest \<le> start_block r \<and> on_chains l1 l2 r)) (\<lambda>rs.
       ret (first_row (sort_key start_block rs)))"

definition fetch_first_unrequested_range_proof ::
  "db_env \<Rightarrow> int \<Rightarrow> commitment_config \<Rightarrow> int \<Rightarrow> int \<Rightarrow> ('z world_scheme, request option) op" where
  "fetch_first_unrequested_range_proof env latest c l1 l2 =
     andThen (select env (\<lambda>r. same_program c r \<and> req_status r = Unrequested
         \<and> req_type r = Range \<and> latest \<le> start_block r \<and> on_chains l1 l2 r)) (\<lambda>rs.
       ret (first_row (sort_key start_block rs)))"

definition fetch_completed_ranges ::
  "db_env \<Rightarrow> commitment_config \<Rightarrow> int \<Rightarrow> int \<Rightarrow> int \<Rightarrow> ('z world_scheme, range list) op" where
  "fetch_completed_ranges env c latest l1 l2 =
     andThen (select env (\<lambda>r. same_program c r \<and> req_status r = Complete \<and> req_type r = Range
         \<and> latest \<le> start_block r \<and> on_chains l1 l2 r)) (\<lambda>rs.
       ret (map (\<lambda>r. (start_block r, end_block r)) (sort_key start_block rs)))"

definition fetch_completed_agg_proof_after_block ::
  "db_env \<Rightarrow> int \<Rightarrow> commitment_config \<Rightarrow> int \<Rightarrow> int \<Rightarrow> ('z world_scheme, request option) op" where
  "fetch_completed_agg_proof_after_block env latest c l1 l2 =
     andThen (select env (\<lambda>r. same_program c r \<and> same_agg c r \<and> req_status r = Complete
         \<and> req_type r = Aggregation \<and> start_block r = latest \<and> on_chains l1 l2 r)) (\<lambda>rs.
       ret (first_row (sort_key start_block rs)))"

subsection \<open>Updates of one row\<close>

definition update_l1_head_block_number :: "db_env \<Rightarrow> int \<Rightarrow> int \<Rightarrow> ('z world_scheme, unit) op" where
  "update_l1_head_block_number env i n =
     update_rows env (\<lambda>r. req_id r = i) (\<lambda>t r. r\<lparr>l1_head_block_number := Some n\<rparr>)"

definition update_prove_duration :: "db_env \<Rightarrow> int \<Rightarrow> ('z world_scheme, unit) op" where
  "update_prove_duration env i =
     update_rows env (\<lambda>r. req_id r = i)
       (\<lambda>t r. r\<lparr>prove_duration := map_option (\<lambda>p. t - p) (proof_request_time r)\<rparr>)"

definition update_proof_to_complete :: "db_env \<Rightarrow> int \<Rightarrow> bytes \<Rightarrow> ('z world_scheme, unit) op" where
  "update_proof_to_complete env i p =
     update_rows env (\<lambda>r. req_id r = i)
       (\<lambda>t r. r\<lparr>req_proof := Some p, req_status := Complete, updated_at := t\<rparr>)"

definition update_witnessgen_duration :: "db_env \<Rightarrow> int \<Rightarrow> int \<Rightarrow> ('z world_scheme, unit) op" where
  "update_witnessgen_duration env i d =
     update_rows env (\<lambda>r. req_id r = i) (\<lambda>t r. r\<lparr>witnessgen_duration := Some d, updated_at := t\<rparr>)"

definition update_request_status ::
  "db_env \<Rightarrow> int \<Rightarrow> request_status \<Rightarrow> ('z world_scheme, unit) op" where
  "update_request_status env i st =
     update_rows env (\<lambda>r. req_id r = i) (\<lambda>t r. r\<lparr>req_status := st, updated_at := t\<rparr>)"

definition update_request_to_prove :: "db_env \<Rightarrow> int \<Rightarrow> b256 \<Rightarrow> ('z world_scheme, unit) op" where
  "update_request_to_prove env i proof_id =
     update_rows env (\<lambda>r. req_id r = i)
       (\<lambda>t r. r\<lparr>req_status := Prove, proof_request_id := Some proof_id,
              proof_request_time := Some t, updated_at := t\<rparr>)"

definition update_request_to_relayed ::
  "db_env \<Rightarrow> int \<Rightarrow> b256 \<Rightarrow> address \<Rightarrow> ('z world_scheme, unit) op" where
  "update_request_to_relayed env i tx addr =
     update_rows env (\<lambda>r. req_id r = i)
       (\<lambda>t r. r\<lparr>req_status := Relayed, relay_tx_hash := Some tx, contract_address := Some addr,
              updated_at := t\<rparr>)"

definition insert_execution_statistics ::
  "db_env \<Rightarrow> int \<Rightarrow> execution_stats \<Rightarrow> int \<Rightarrow> ('z world_scheme, unit) op" where
  "insert_execution_statistics env i st d =
     update_rows env (\<lambda>r. req_id r = i)
       (\<lambda>t r. r\<lparr>execution_statistics := Some st, execution_duration := Some d\<rparr>)"

subsection \<open>Updates of many rows\<close>

definition cancel_all_requests_with_statuses ::
  "db_env \<Rightarrow> request_status list \<Rightarrow> int \<Rightarrow> int \<Rightarrow> ('z world_scheme, unit) op" where
  "cancel_all_requests_with_statuses env statuses l1 l2 =
     update_rows env (\<lambda>r. req_status r \<in> set statuses \<and> on_chains l1 l2 r)
       (\<lambda>t r. r\<lparr>req_status := Cancelled\<rparr>)"

definition delete_all_requests_with_statuses ::
  "db_env \<Rightarrow> request_status list \<Rightarrow> int \<Rightarrow> int \<Rightarrow> ('z world_scheme, unit) op" where
  "delete_all_requests_with_statuses env statuses l1 l2 =
     db_exec env (\<lambda>t s. s\<lparr>requests :=
       filter (\<lambda>r. \<not> (req_status r \<in> set statuses \<and> on_chains l1 l2 r)) (requests s)\<rparr>)"

definition cancel_prove_requests_with_different_commitment_config ::
  "db_env \<Rightarrow> commitment_config \<Rightarrow> int \<Rightarrow> int \<Rightarrow> ('z world_scheme, unit) op" where
  "cancel_prove_requests_with_different_commitment_config env c l1 l2 =
     update_rows env (\<lambda>r. req_status r = Prove
         \<and> (range_vkey_commitment r \<noteq> cc_range_vkey_commitment c
            \<or> rollup_config_hash r \<noteq> cc_rollup_config_hash c)
         \<and> on_chains l1 l2 r)
       (\<lambda>t r. r\<lparr>req_status := Cancelled\<rparr>)"

subsection \<open>Facts on statements\<close>

lemma mset_scan [simp]: "mset (scan ks xs) = mset xs"
proof (induction ks xs rule: scan.induct)
  case (3 k ks x xs)
  let ?i = "k mod length (x # xs)"
  have "?i < length (x # xs)" by simp
  then have "x # xs = take ?i (x # xs) @ (x # xs) ! ?i # drop (Suc ?i) (x # xs)"
    by (rule id_take_nth_drop)
  then have "mset (x # xs) = add_mset ((x # xs) ! ?i) (mset (take ?i (x # xs) @ drop (Suc ?i) (x # xs)))"
    by (metis mset.simps(2) mset_append union_mset_add_mset_right)
  then show ?case using 3 by (simp only: scan.simps Let_def mset.simps)
qed simp_all

lemma set_scan [simp]: "set (scan ks xs) = set xs"
  using mset_scan by (metis set_mset_mset)

text \<open>The choices cover every order.\<close>

lemma scan_complete: "mset ys = mset xs \<Longrightarrow> \<exists>ks. scan ks xs = ys"
proof (induction ys arbitrary: xs)
  case Nil
  then show ?case by (intro exI [of _ "[]"]) simp
next
  case (Cons y ys)
  then have "y \<in> set xs" by (metis list.set_intros(1) set_mset_mset)
  then obtain i where i: "i < length xs" "xs ! i = y" by (meson in_set_conv_nth)
  have "xs = take i xs @ y # drop (Suc i) xs" using id_take_nth_drop [OF i(1)] i(2) by simp
  then have "mset xs = add_mset y (mset (take i xs @ drop (Suc i) xs))"
    by (metis mset.simps(2) mset_append union_mset_add_mset_right)
  then have "mset ys = mset (take i xs @ drop (Suc i) xs)" using Cons.prems by simp
  then obtain ks where ks: "scan ks (take i xs @ drop (Suc i) xs) = ys" using Cons.IH by blast
  obtain x xs' where xs: "xs = x # xs'" using i(1) by (cases xs) auto
  show ?case
    by (rule exI [of _ "i # ks"]) (use i ks in \<open>simp add: xs Let_def\<close>)
qed

lemma db_read_Ok:
  "db_read env q s = (Inr x, s') \<longleftrightarrow>
     db_fate_at env (tick s) = Acked \<and> x = q (tick s) s \<and> s' = s\<lparr>tick := Suc (tick s)\<rparr>"
  by (auto simp: db_read_def split: db_fate.splits)

lemma snd_db_read [simp]: "snd (db_read env q s) = s\<lparr>tick := Suc (tick s)\<rparr>"
  by (simp add: db_read_def)

lemma select_Ok:
  assumes "select env p s = (Inr rs, s')"
  shows "mset rs = filter_mset p (mset (requests s))" "set rs = {r \<in> set (requests s). p r}"
    "s' = s\<lparr>tick := Suc (tick s)\<rparr>"
proof -
  have rs: "rs = filter p (scan (db_order env (tick s)) (requests s))"
    and s': "s' = s\<lparr>tick := Suc (tick s)\<rparr>"
    using assms by (simp_all add: select_def db_read_Ok)
  show "mset rs = filter_mset p (mset (requests s))" by (simp add: rs)
  show "set rs = {r \<in> set (requests s). p r}" by (simp add: rs)
  show "s' = s\<lparr>tick := Suc (tick s)\<rparr>" by (rule s')
qed

lemma select_count_Ok:
  "select_count env p s = (Inr n, s') \<Longrightarrow>
     n = int (length (filter p (requests s))) \<and> s' = s\<lparr>tick := Suc (tick s)\<rparr>"
  by (auto simp: select_count_def db_read_Ok)

lemma select_count_0:
  "select_count env p s = (Inr n, s') \<Longrightarrow> n \<le> 0 \<Longrightarrow> r \<in> set (requests s) \<Longrightarrow> \<not> p r"
  by (auto simp: select_count_def db_read_Ok filter_empty_conv)

lemma first_row_mem: "first_row xs = Some x \<Longrightarrow> x \<in> set xs"
  by (cases xs) (simp_all add: first_row_def)

lemma first_row_simps [simp]: "first_row [] = None" "first_row (x # xs) = Some x"
  by (simp_all add: first_row_def)

lemma first_row_None [simp]: "first_row xs = None \<longleftrightarrow> xs = []"
  by (cases xs) (simp_all add: first_row_def)

text \<open>
  \<open>db_exec\<close> changes nothing, or what its statement says; on success it did change it.
\<close>

lemma db_exec_cases:
  obtains (applied) r where "db_exec env f s = (r, f (db_now env (tick s)) (s\<lparr>tick := Suc (tick s)\<rparr>))"
  | (lost) "db_exec env f s = (Err DbError, s\<lparr>tick := Suc (tick s)\<rparr>)"
  by (cases "db_fate_at env (tick s)") (auto simp: db_exec_def Let_def)

lemma db_exec_Ok:
  "db_exec env f s = (Inr u, s') \<longleftrightarrow>
     db_fate_at env (tick s) = Acked \<and> s' = f (db_now env (tick s)) (s\<lparr>tick := Suc (tick s)\<rparr>)"
  by (auto simp: db_exec_def Let_def split: db_fate.splits)

lemma keeps_db_read [keeps_intros]:
  "(\<And>s. P s \<Longrightarrow> P (s\<lparr>tick := Suc (tick s)\<rparr>)) \<Longrightarrow> keeps P (db_read env q)"
  by (simp add: keeps_def)

lemma keeps_select [keeps_intros]:
  "(\<And>s. P s \<Longrightarrow> P (s\<lparr>tick := Suc (tick s)\<rparr>)) \<Longrightarrow> keeps P (select env p)"
  unfolding select_def by (rule keeps_db_read)

lemma keeps_select_count [keeps_intros]:
  "(\<And>s. P s \<Longrightarrow> P (s\<lparr>tick := Suc (tick s)\<rparr>)) \<Longrightarrow> keeps P (select_count env p)"
  unfolding select_count_def by (rule keeps_db_read)

lemma keeps_db_exec [keeps_intros]:
  assumes "\<And>s. P s \<Longrightarrow> P (s\<lparr>tick := Suc (tick s)\<rparr>)" and "\<And>t s. P s \<Longrightarrow> P (f t s)"
  shows "keeps P (db_exec env f)"
proof (rule keepsI)
  fix s assume "P s"
  then show "P (snd (db_exec env f s))"
    using assms by (cases rule: db_exec_cases [of env f s]) auto
qed

lemmas query_defs = fetch_failed_request_count_by_block_range_def
  fetch_highest_end_block_for_range_request_def fetch_ranges_after_block_def
  fetch_request_count_def fetch_requests_by_status_def get_consecutive_complete_range_proofs_def
  fetch_failed_agg_request_with_checkpointed_block_hash_def fetch_active_agg_proofs_count_def
  fetch_unrequested_agg_proof_def fetch_first_unrequested_range_proof_def
  fetch_completed_ranges_def fetch_completed_agg_proof_after_block_def is_chain_locked_def

text \<open>A query preserves every predicate that the call counter does not affect.\<close>

lemma keeps_queries [keeps_intros]:
  assumes "\<And>s. P s \<Longrightarrow> P (s\<lparr>tick := Suc (tick s)\<rparr>)"
  shows "keeps P (fetch_failed_request_count_by_block_range env b e l1 l2 c)"
    "keeps P (fetch_highest_end_block_for_range_request env sts c l1 l2)"
    "keeps P (fetch_ranges_after_block env sts b c l1 l2)"
    "keeps P (fetch_request_count env st c l1 l2)"
    "keeps P (fetch_requests_by_status env st c l1 l2)"
    "keeps P (get_consecutive_complete_range_proofs env b e c l1 l2)"
    "keeps P (fetch_failed_agg_request_with_checkpointed_block_hash env b e c l1 l2)"
    "keeps P (fetch_active_agg_proofs_count env b c l1 l2)"
    "keeps P (fetch_unrequested_agg_proof env b c l1 l2)"
    "keeps P (fetch_first_unrequested_range_proof env b c l1 l2)"
    "keeps P (fetch_completed_ranges env c b l1 l2)"
    "keeps P (fetch_completed_agg_proof_after_block env b c l1 l2)"
    "keeps P (is_chain_locked env l1 l2 iv)"
  unfolding query_defs by (intro keeps_intros assms; assumption)+

subsection \<open>The contract of an update by identifier\<close>

text \<open>
  What identifies a request: an update by identifier never changes it.
\<close>

definition same_request :: "request \<Rightarrow> request \<Rightarrow> bool" where
  "same_request r q \<longleftrightarrow>
     req_id r = req_id q \<and> req_type r = req_type q \<and> req_mode r = req_mode q
     \<and> start_block r = start_block q \<and> end_block r = end_block q
     \<and> range_vkey_commitment r = range_vkey_commitment q
     \<and> aggregation_vkey_hash r = aggregation_vkey_hash q
     \<and> rollup_config_hash r = rollup_config_hash q
     \<and> l1_chain_id r = l1_chain_id q \<and> l2_chain_id r = l2_chain_id q
     \<and> checkpointed_l1_block_hash r = checkpointed_l1_block_hash q
     \<and> checkpointed_l1_block_number r = checkpointed_l1_block_number q
     \<and> req_prover_address r = req_prover_address q"

lemma same_request_refl [simp]: "same_request r r"
  by (simp add: same_request_def)

text \<open>What an operation on the table leaves alone: the locks and the state of the components above.\<close>

definition outside :: "'z world_scheme \<Rightarrow> (int \<times> int \<Rightarrow> int option) \<times> 'z" where
  "outside s = (chain_locks s, world.more s)"

lemma outside_update [simp]:
  "outside (s\<lparr>tick := k\<rparr>) = outside s" "outside (s\<lparr>requests := rs\<rparr>) = outside s"
  "outside (s\<lparr>next_id := n\<rparr>) = outside s" "outside (s\<lparr>gauges := g\<rparr>) = outside s"
  by (simp_all add: outside_def)

text \<open>
  \<open>touches i S m\<close>: no row appears or disappears, only rows with identifier \<open>i\<close> change, never in
  their identity, and a changed status lies in \<open>S\<close>.
\<close>

definition row_change :: "int \<Rightarrow> request_status set \<Rightarrow> (request \<Rightarrow> request) \<Rightarrow> bool" where
  "row_change i S g \<longleftrightarrow> (\<forall>r. same_request (g r) r \<and> (req_id r \<noteq> i \<longrightarrow> g r = r)
     \<and> (req_status (g r) = req_status r \<or> req_status (g r) \<in> S))"

definition touches :: "int \<Rightarrow> request_status set \<Rightarrow> ('z world_scheme, 'a) op \<Rightarrow> bool" where
  "touches i S m \<longleftrightarrow> (\<forall>s. \<exists>g. row_change i S g \<and> requests (snd (m s)) = map g (requests s)
     \<and> next_id (snd (m s)) = next_id s \<and> outside (snd (m s)) = outside s)"

named_theorems touch_intros \<open>rules for operations that touch one row\<close>

lemma row_change_id [simp]: "row_change i S (\<lambda>r. r)"
  by (simp add: row_change_def)

lemma same_request_trans: "same_request a b \<Longrightarrow> same_request b c \<Longrightarrow> same_request a c"
  by (simp add: same_request_def)

lemma row_change_comp: "row_change i S f \<Longrightarrow> row_change i S g \<Longrightarrow> row_change i S (\<lambda>r. f (g r))"
  unfolding row_change_def by (metis same_request_trans)

lemma touchesI:
  "(\<And>s. \<exists>g. row_change i S g \<and> requests (snd (m s)) = map g (requests s)
     \<and> next_id (snd (m s)) = next_id s \<and> outside (snd (m s)) = outside s) \<Longrightarrow> touches i S m"
  by (simp add: touches_def)

lemma touchesD:
  "touches i S m \<Longrightarrow> m s = (r, s') \<Longrightarrow>
     \<exists>g. row_change i S g \<and> requests s' = map g (requests s) \<and> next_id s' = next_id s
       \<and> outside s' = outside s"
  unfolding touches_def by (metis snd_conv)

lemma touches_unchanged:
  "(\<And>s. requests (snd (m s)) = requests s \<and> next_id (snd (m s)) = next_id s
      \<and> outside (snd (m s)) = outside s) \<Longrightarrow> touches i S m"
  by (rule touchesI, rule exI [of _ "\<lambda>r. r"]) simp

lemma touches_tick_only: "tick_only m \<Longrightarrow> touches i S m"
proof (rule touches_unchanged)
  fix s :: "'a world_scheme"
  assume "tick_only m"
  then obtain k where "snd (m s) = s\<lparr>tick := k\<rparr>" by (auto simp: tick_only_def)
  then show "requests (snd (m s)) = requests s \<and> next_id (snd (m s)) = next_id s
      \<and> outside (snd (m s)) = outside s" by simp
qed

lemma touches_basic [touch_intros]:
  "touches i S (ret x)" "touches i S (throw f)" "touches i S (lift r)" "touches i S (asks g)"
  "touches i S (call c)"
  by (rule touches_tick_only, intro tick_intros)+

lemma touches_gauge [touch_intros]:
  "touches i S (gauge_increment g)" "touches i S (gauge_set g v)"
  by (rule touches_unchanged, simp add: gauge_increment_def gauge_set_def update_def)+

lemma touches_then:
  assumes "touches i S m" and "m s = (r, s1)" and "touches i S n"
  shows "\<exists>g. row_change i S g \<and> requests (snd (n s1)) = map g (requests s)
      \<and> next_id (snd (n s1)) = next_id s \<and> outside (snd (n s1)) = outside s"
proof -
  obtain f where f: "row_change i S f" "requests s1 = map f (requests s)" "next_id s1 = next_id s"
    "outside s1 = outside s"
    using touchesD [OF assms(1,2)] by blast
  obtain g where g: "row_change i S g" "requests (snd (n s1)) = map g (requests s1)"
    "next_id (snd (n s1)) = next_id s1" "outside (snd (n s1)) = outside s1"
    using assms(3) by (auto simp: touches_def)
  show ?thesis
    by (rule exI [of _ "\<lambda>r. g (f r)"]) (use f g row_change_comp in \<open>auto simp: comp_def\<close>)
qed

lemma touches_andThen [touch_intros]:
  assumes "touches i S m" and "\<And>x. touches i S (f x)"
  shows "touches i S (andThen m f)"
proof (rule touchesI)
  fix s
  obtain r s1 where m: "m s = (r, s1)" by fastforce
  show "\<exists>g. row_change i S g \<and> requests (snd (andThen m f s)) = map g (requests s)
      \<and> next_id (snd (andThen m f s)) = next_id s
      \<and> outside (snd (andThen m f s)) = outside s"
    using touchesD [OF assms(1) m] touches_then [OF assms(1) m assms(2)] m
    by (cases r) (simp_all add: andThen_def)
qed

lemma touches_onErr [touch_intros]:
  assumes "touches i S m" and "\<And>x. touches i S (f x)" and "\<And>e. touches i S (h e)"
  shows "touches i S (onErr m f h)"
proof (rule touchesI)
  fix s
  obtain r s1 where m: "m s = (r, s1)" by fastforce
  show "\<exists>g. row_change i S g \<and> requests (snd (onErr m f h s)) = map g (requests s)
      \<and> next_id (snd (onErr m f h s)) = next_id s
      \<and> outside (snd (onErr m f h s)) = outside s"
  proof (cases r)
    case (Inl e)
    then show ?thesis
      using touchesD [OF assms(1) m] touches_then [OF assms(1) m assms(3)] m
      by (cases e) (simp_all add: onErr_def)
  next
    case (Inr x)
    then show ?thesis using touches_then [OF assms(1) m assms(2)] m by (simp add: onErr_def)
  qed
qed

lemma touches_if [touch_intros]:
  "(b \<Longrightarrow> touches i S m) \<Longrightarrow> (\<not> b \<Longrightarrow> touches i S n) \<Longrightarrow> touches i S (if b then m else n)"
  by simp

lemma touches_case_option [touch_intros]:
  "touches i S m \<Longrightarrow> (\<And>y. touches i S (f y)) \<Longrightarrow>
   touches i S (case x of None \<Rightarrow> m | Some y \<Rightarrow> f y)"
  by (cases x) auto

lemma touches_case_sum [touch_intros]:
  "(\<And>y. touches i S (f y)) \<Longrightarrow> (\<And>y. touches i S (g y)) \<Longrightarrow>
   touches i S (case x of Inl y \<Rightarrow> f y | Inr y \<Rightarrow> g y)"
  by (cases x) auto

lemma touches_case_prod [touch_intros]:
  "(\<And>a b. touches i S (f a b)) \<Longrightarrow> touches i S (case x of (a, b) \<Rightarrow> f a b)"
  by (cases x) auto

lemma touches_mono: "touches i S m \<Longrightarrow> S \<subseteq> T \<Longrightarrow> touches i T m"
  unfolding touches_def row_change_def by (meson subsetD)

locale row_update =
  fixes env :: db_env
    and run :: "int \<Rightarrow> ('z world_scheme, unit) op"
    and f :: "int \<Rightarrow> request \<Rightarrow> request"
  assumes run_eq: "run i = update_rows env (\<lambda>r. req_id r = i) f"
    and f_same: "same_request (f t r) r"
begin

lemma result:
  "(\<exists>x. requests (snd (run i s)) = map (\<lambda>r. if req_id r = i then f t r else r) (requests s)
      \<and> t = db_now env (tick s) \<and> fst (run i s) = x)
   \<or> requests (snd (run i s)) = requests s \<and> fst (run i s) = Err DbError"
  if "t = db_now env (tick s)"
proof (cases rule: db_exec_cases [of env
      "\<lambda>t s. s\<lparr>requests := map (\<lambda>r. if req_id r = i then f t r else r) (requests s)\<rparr>" s])
  case (applied x)
  then show ?thesis using that by (simp add: run_eq update_rows_def)
next
  case lost
  then show ?thesis by (simp add: run_eq update_rows_def)
qed

lemma frame:
  "\<exists>g. requests (snd (run i s)) = map g (requests s)
     \<and> (\<forall>r. same_request (g r) r) \<and> (\<forall>r. req_id r \<noteq> i \<longrightarrow> g r = r)"
proof -
  let ?t = "db_now env (tick s)"
  consider (yes) "requests (snd (run i s)) = map (\<lambda>r. if req_id r = i then f ?t r else r) (requests s)"
    | (no) "requests (snd (run i s)) = map (\<lambda>r. r) (requests s)"
    using result [of ?t s i] by auto
  then show ?thesis
  proof cases
    case yes
    then show ?thesis using f_same
      by (intro exI [of _ "\<lambda>r. if req_id r = i then f ?t r else r"]) simp
  next
    case no
    then show ?thesis by (intro exI [of _ "\<lambda>r. r"]) simp
  qed
qed

lemma rest: "next_id (snd (run i s)) = next_id s \<and> outside (snd (run i s)) = outside s
    \<and> gauges (snd (run i s)) = gauges s"
proof (cases rule: db_exec_cases [of env
      "\<lambda>t s. s\<lparr>requests := map (\<lambda>r. if req_id r = i then f t r else r) (requests s)\<rparr>" s])
  case (applied x)
  then show ?thesis by (simp add: run_eq update_rows_def)
next
  case lost
  then show ?thesis by (simp add: run_eq update_rows_def)
qed

lemma touch:
  assumes "\<And>t r. req_status (f t r) = req_status r \<or> req_status (f t r) \<in> S"
  shows "touches i S (run i)"
proof (rule touchesI)
  fix s :: "'z world_scheme"
  let ?t = "db_now env (tick s)"
  consider (yes) "requests (snd (run i s)) = map (\<lambda>r. if req_id r = i then f ?t r else r) (requests s)"
    | (no) "requests (snd (run i s)) = requests s"
    using result [of ?t s i] by auto
  then show "\<exists>g. row_change i S g \<and> requests (snd (run i s)) = map g (requests s)
      \<and> next_id (snd (run i s)) = next_id s \<and> outside (snd (run i s)) = outside s"
  proof cases
    case yes
    then show ?thesis using f_same assms rest
      by (intro exI [of _ "\<lambda>r. if req_id r = i then f ?t r else r"]) (simp add: row_change_def)
  next
    case no
    then show ?thesis using rest by (intro exI [of _ "\<lambda>r. r"]) simp
  qed
qed

lemma done_row:
  assumes "run i s = (Inr u, s')"
  shows "requests s' = map (\<lambda>r. if req_id r = i then f (db_now env (tick s)) r else r) (requests s)"
  using assms by (auto simp: run_eq update_rows_def db_exec_Ok)

text \<open>A predicate on states that only looks at identities of rows survives the update.\<close>

lemma keeps_rows:
  assumes "\<And>s. P s \<Longrightarrow> P (s\<lparr>tick := Suc (tick s)\<rparr>)"
    and "\<And>s t. P s \<Longrightarrow> P (s\<lparr>requests := map (\<lambda>r. if req_id r = i then f t r else r) (requests s)\<rparr>)"
  shows "keeps P (run i)"
  unfolding run_eq update_rows_def by (rule keeps_db_exec) (use assms in auto)

end

interpretation set_status: row_update env "\<lambda>i. update_request_status env i st"
  "\<lambda>t r. r\<lparr>req_status := st, updated_at := t\<rparr>" for env st
  by unfold_locales (simp_all add: update_request_status_def same_request_def)

interpretation set_complete: row_update env "\<lambda>i. update_proof_to_complete env i p"
  "\<lambda>t r. r\<lparr>req_proof := Some p, req_status := Complete, updated_at := t\<rparr>" for env p
  by unfold_locales (simp_all add: update_proof_to_complete_def same_request_def)

interpretation set_prove: row_update env "\<lambda>i. update_request_to_prove env i p"
  "\<lambda>t r. r\<lparr>req_status := Prove, proof_request_id := Some p, proof_request_time := Some t, updated_at := t\<rparr>"
  for env p
  by unfold_locales (simp_all add: update_request_to_prove_def same_request_def)

interpretation set_relayed: row_update env "\<lambda>i. update_request_to_relayed env i tx a"
  "\<lambda>t r. r\<lparr>req_status := Relayed, relay_tx_hash := Some tx, contract_address := Some a, updated_at := t\<rparr>"
  for env tx a
  by unfold_locales (simp_all add: update_request_to_relayed_def same_request_def)

interpretation set_l1_head: row_update env "\<lambda>i. update_l1_head_block_number env i n"
  "\<lambda>t r. r\<lparr>l1_head_block_number := Some n\<rparr>" for env n
  by unfold_locales (simp_all add: update_l1_head_block_number_def same_request_def)

interpretation set_prove_duration: row_update env "\<lambda>i. update_prove_duration env i"
  "\<lambda>t r. r\<lparr>prove_duration := map_option (\<lambda>p. t - p) (proof_request_time r)\<rparr>" for env
  by unfold_locales (simp_all add: update_prove_duration_def same_request_def)

interpretation set_witnessgen: row_update env "\<lambda>i. update_witnessgen_duration env i d"
  "\<lambda>t r. r\<lparr>witnessgen_duration := Some d, updated_at := t\<rparr>" for env d
  by unfold_locales (simp_all add: update_witnessgen_duration_def same_request_def)

interpretation set_statistics: row_update env "\<lambda>i. insert_execution_statistics env i st d"
  "\<lambda>t r. r\<lparr>execution_statistics := Some st, execution_duration := Some d\<rparr>" for env st d
  by unfold_locales (simp_all add: insert_execution_statistics_def same_request_def)

lemma touches_status [touch_intros]:
  "st \<in> S \<Longrightarrow> touches i S (update_request_status env i st)"
  "Complete \<in> S \<Longrightarrow> touches i S (update_proof_to_complete env i p)"
  "Prove \<in> S \<Longrightarrow> touches i S (update_request_to_prove env i b)"
  "Relayed \<in> S \<Longrightarrow> touches i S (update_request_to_relayed env i tx a)"
  by (rule set_status.touch set_complete.touch set_prove.touch set_relayed.touch; simp)+

lemma touches_updates [touch_intros]:
  "touches i S (update_l1_head_block_number env i n)"
  "touches i S (update_prove_duration env i)"
  "touches i S (update_witnessgen_duration env i d)"
  "touches i S (insert_execution_statistics env i xs d)"
  by (rule set_l1_head.touch set_prove_duration.touch set_witnessgen.touch set_statistics.touch; simp)+

lemma query_reads [tick_intros]: "tick_only (db_read env q)"
  by (rule tick_onlyI) (auto simp: db_read_def)

lemma queries_read [tick_intros]:
  "tick_only (select env p)" "tick_only (select_count env p)"
  "tick_only (fetch_failed_request_count_by_block_range env b e l1 l2 c)"
  "tick_only (fetch_highest_end_block_for_range_request env sts c l1 l2)"
  "tick_only (fetch_ranges_after_block env sts b c l1 l2)"
  "tick_only (fetch_request_count env st c l1 l2)"
  "tick_only (fetch_requests_by_status env st c l1 l2)"
  "tick_only (get_consecutive_complete_range_proofs env b e c l1 l2)"
  "tick_only (fetch_failed_agg_request_with_checkpointed_block_hash env b e c l1 l2)"
  "tick_only (fetch_active_agg_proofs_count env b c l1 l2)"
  "tick_only (fetch_unrequested_agg_proof env b c l1 l2)"
  "tick_only (fetch_first_unrequested_range_proof env b c l1 l2)"
  "tick_only (fetch_completed_ranges env c b l1 l2)"
  "tick_only (fetch_completed_agg_proof_after_block env b c l1 l2)"
  "tick_only (is_chain_locked env l1 l2 iv)"
  unfolding query_defs select_def select_count_def by (intro tick_intros)+

subsection \<open>Batch insertion\<close>

lemma assign_ids_append:
  "assign_ids n (xs @ ys) = assign_ids n xs @ assign_ids (n + int (length xs)) ys"
  by (induction xs arbitrary: n) (simp_all add: algebra_simps)

lemma length_assign_ids [simp]: "length (assign_ids n xs) = length xs"
  by (induction xs arbitrary: n) simp_all

lemma assign_ids_ids: "map req_id (assign_ids n xs) = map (\<lambda>k. n + int k) [0..<length xs]"
proof (induction xs arbitrary: n)
  case Nil
  then show ?case by simp
next
  case (Cons x xs)
  have "[0..<length (x # xs)] = 0 # map Suc [0..<length xs]"
    by (simp add: upt_conv_Cons map_Suc_upt del: upt_Suc)
  then show ?case using Cons [of "n + 1"] by (simp add: comp_def algebra_simps del: upt_Suc)
qed

lemma assign_ids_mem:
  "r \<in> set (assign_ids n xs) \<Longrightarrow>
     n \<le> req_id r \<and> req_id r < n + int (length xs) \<and> (\<exists>x \<in> set xs. r = x\<lparr>req_id := req_id r\<rparr>)"
  by (induction xs arbitrary: n) fastforce+

lemma concat_chunks_of [simp]: "0 < n \<Longrightarrow> concat (chunks_of n xs) = xs"
proof (induction n xs rule: chunks_of.induct)
  case (2 n x xs)
  then show ?case by (cases n) simp_all
qed simp

lemma chunks_of_bound: "0 < n \<Longrightarrow> \<forall>c \<in> set (chunks_of n xs). c \<noteq> [] \<and> length c \<le> n"
  by (induction n xs rule: chunks_of.induct) auto

lemma insert_chunks_result:
  "insert_chunks env cs staged s = (r, s') \<Longrightarrow>
     requests s' = requests s \<and> next_id s \<le> next_id s' \<and> outside s' = outside s
     \<and> (\<forall>rows. r = Inr rows \<longrightarrow> rows = staged @ assign_ids (next_id s) (concat cs)
          \<and> next_id s' = next_id s + int (length (concat cs)))
     \<and> (\<forall>e. r = Inl e \<longrightarrow> e = Failure DbError)"
proof (induction cs arbitrary: staged s r s')
  case Nil
  then show ?case by (auto simp: ret_def)
next
  case (Cons c cs)
  let ?f = "\<lambda>t s. s\<lparr>next_id := next_id s + int (length c)\<rparr>"
  have run: "insert_chunks env (c # cs) staged s =
      andThen (db_exec env ?f) (\<lambda>_. insert_chunks env cs (staged @ assign_ids (next_id s) c)) s"
    by (simp add: andThen_def asks_def)
  show ?case
  proof (cases "db_exec env ?f s")
    case (Pair x t)
    have t: "requests t = requests s \<and> next_id s \<le> next_id t \<and> outside t = outside s
        \<and> (\<forall>e. x = Inl e \<longrightarrow> e = Failure DbError)"
      by (cases "db_fate_at env (tick s)") (use Pair in \<open>auto simp: db_exec_def Let_def\<close>)
    show ?thesis
    proof (cases x)
      case (Inl e)
      then have "r = Inl e \<and> s' = t"
        using run Pair Cons.prems by (simp add: andThen_def del: insert_chunks.simps)
      then show ?thesis using t Inl by simp
    next
      case (Inr u)
      then have n: "next_id t = next_id s + int (length c)"
        using Pair by (auto simp: db_exec_Ok)
      have "insert_chunks env cs (staged @ assign_ids (next_id s) c) t = (r, s')"
        using run Pair Inr Cons.prems by (simp add: andThen_def del: insert_chunks.simps)
      from Cons.IH [OF this] show ?thesis using t n by (auto simp: assign_ids_append)
    qed
  qed
qed

lemma insert_requests_cases:
  assumes "insert_requests env rs s = (r, s')"
  shows "next_id s \<le> next_id s' \<and> outside s' = outside s \<and>
    (requests s' = requests s \<and> r = Err DbError
     \<or> requests s' = requests s @ assign_ids (next_id s) rs
        \<and> next_id s' = next_id s + int (length rs) \<and> (r = Ok () \<or> r = Err DbError))"
proof -
  obtain x s1 where x: "db_exec env (\<lambda>t s. s) s = (x, s1)" by fastforce
  have s1: "requests s1 = requests s \<and> next_id s1 = next_id s \<and> outside s1 = outside s
      \<and> (\<forall>e. x = Inl e \<longrightarrow> e = Failure DbError)"
    by (cases "db_fate_at env (tick s)") (use x in \<open>auto simp: db_exec_def Let_def\<close>)
  obtain y s2 where y: "insert_chunks env (chunks_of 100 rs) [] s1 = (y, s2)" by fastforce
  have s2: "requests s2 = requests s \<and> next_id s \<le> next_id s2 \<and> outside s2 = outside s
      \<and> (\<forall>rows. y = Inr rows \<longrightarrow> rows = assign_ids (next_id s) rs
           \<and> next_id s2 = next_id s + int (length rs))
      \<and> (\<forall>e. y = Inl e \<longrightarrow> e = Failure DbError)"
    using insert_chunks_result [OF y] s1 by simp
  have run: "insert_requests env rs s = (case x of Inl e \<Rightarrow> (Inl e, s1) | Inr _ \<Rightarrow>
      (case y of Inl e \<Rightarrow> (Inl e, s2)
       | Inr rows \<Rightarrow> db_exec env (\<lambda>t s. s\<lparr>requests := requests s @ rows\<rparr>) s2))"
    using x y by (auto simp: insert_requests_def andThen_def split: sum.splits)
  show ?thesis
  proof (cases x)
    case (Inl e)
    then show ?thesis using run assms s1 by auto
  next
    case x_ok: (Inr u)
    show ?thesis
    proof (cases y)
      case (Inl e)
      then show ?thesis using run assms s2 x_ok by auto
    next
      case (Inr rows)
      then have "db_exec env (\<lambda>t s. s\<lparr>requests := requests s @ rows\<rparr>) s2 = (r, s')"
        using run assms x_ok by simp
      then show ?thesis using s2 Inr
        by (cases "db_fate_at env (tick s2)") (auto simp: db_exec_def Let_def)
    qed
  qed
qed

lemma insert_requests_Ok:
  assumes "insert_requests env rs s = (Inr u, s')"
  shows "requests s' = requests s @ assign_ids (next_id s) rs"
  using insert_requests_cases [OF assms] by auto

subsection \<open>Identifiers\<close>

definition db_ok :: "'z world_scheme \<Rightarrow> bool" where
  "db_ok s \<longleftrightarrow> distinct (map req_id (requests s)) \<and> (\<forall>r \<in> set (requests s). req_id r < next_id s)"

lemma db_ok_tick [simp]: "db_ok (s\<lparr>tick := n\<rparr>) = db_ok s"
  by (simp add: db_ok_def)

lemma db_ok_map:
  assumes "db_ok s" "\<And>r. req_id (g r) = req_id r"
  shows "db_ok (s\<lparr>requests := map g (requests s)\<rparr>)"
proof -
  have "map req_id (map g (requests s)) = map req_id (requests s)" using assms(2) by simp
  then show ?thesis using assms by (auto simp: db_ok_def simp del: map_map)
qed

lemma db_ok_append:
  assumes "db_ok s" "next_id s \<le> n"
  shows "distinct (map req_id (requests s @ assign_ids n rs))"
    "r \<in> set (requests s @ assign_ids n rs) \<Longrightarrow> req_id r < n + int (length rs)"
proof -
  have "distinct (map req_id (assign_ids n rs))"
    by (simp add: assign_ids_ids distinct_map inj_on_def)
  moreover have "\<forall>r \<in> set (assign_ids n rs). n \<le> req_id r \<and> req_id r < n + int (length rs)"
    using assign_ids_mem by blast
  moreover have "\<forall>r \<in> set (requests s). req_id r < n" using assms by (auto simp: db_ok_def)
  ultimately show "distinct (map req_id (requests s @ assign_ids n rs))"
    "r \<in> set (requests s @ assign_ids n rs) \<Longrightarrow> req_id r < n + int (length rs)"
    using assms(1) by (fastforce simp: db_ok_def)+
qed

lemma keeps_db_ok_writes [keeps_intros]:
  shows "keeps db_ok (gauge_increment g)" "keeps db_ok (gauge_set g v)"
    "keeps db_ok (add_chain_lock env l1 l2)" "keeps db_ok (update_chain_lock env l1 l2)"
    "keeps db_ok (update_request_status env i st)" "keeps db_ok (update_proof_to_complete env i p)"
    "keeps db_ok (update_request_to_prove env i pid)" "keeps db_ok (update_request_to_relayed env i tx a)"
    "keeps db_ok (update_l1_head_block_number env i n)" "keeps db_ok (update_prove_duration env i)"
    "keeps db_ok (update_witnessgen_duration env i d)"
    "keeps db_ok (insert_execution_statistics env i xs d)"
    "keeps db_ok (cancel_all_requests_with_statuses env sts l1 l2)"
    "keeps db_ok (cancel_prove_requests_with_different_commitment_config env c l1 l2)"
  unfolding gauge_increment_def gauge_set_def add_chain_lock_def update_chain_lock_def
    cancel_all_requests_with_statuses_def cancel_prove_requests_with_different_commitment_config_def
    update_rows_def
  by (auto intro!: keeps_intros set_status.keeps_rows set_complete.keeps_rows set_prove.keeps_rows
      set_relayed.keeps_rows set_l1_head.keeps_rows set_prove_duration.keeps_rows
      set_witnessgen.keeps_rows set_statistics.keeps_rows db_ok_map)
    (simp_all add: db_ok_def)

lemma keeps_db_ok_delete [keeps_intros]:
  "keeps db_ok (delete_all_requests_with_statuses env sts l1 l2)"
  unfolding delete_all_requests_with_statuses_def
proof (rule keeps_db_exec)
  fix s :: "'a world_scheme"
  assume "db_ok s"
  then show "db_ok (s\<lparr>requests := filter (\<lambda>r. \<not> (req_status r \<in> set sts \<and> on_chains l1 l2 r)) (requests s)\<rparr>)"
    by (auto simp: db_ok_def intro: distinct_map_filter)
qed simp

lemma db_ok_append_one: "db_ok s \<Longrightarrow> db_ok (append_rows [r] s)"
  using db_ok_append [of s "next_id s", where rs = "[r]"] by (auto simp: db_ok_def append_rows_def)

lemma keeps_db_ok_insert [keeps_intros]: "keeps db_ok (insert_request env r)"
  unfolding insert_request_def by (rule keeps_db_exec) (simp_all add: db_ok_append_one)

lemma keeps_db_ok_inserts [keeps_intros]:
  "keeps db_ok (insert_requests env rs :: ('z world_scheme, unit) op)"
proof (rule keepsI)
    fix s :: "'z world_scheme"
    assume ok: "db_ok s"
    obtain x s' where run: "insert_requests env rs s = (x, s')" by fastforce
    consider "next_id s \<le> next_id s'" "requests s' = requests s"
      | "requests s' = requests s @ assign_ids (next_id s) rs" "next_id s' = next_id s + int (length rs)"
      using insert_requests_cases [OF run] by blast
    then show "db_ok (snd (insert_requests env rs s))"
    proof cases
      case 1
      then show ?thesis using ok run by (force simp: db_ok_def)
    next
      case 2
      then show ?thesis
        using db_ok_append [OF ok order.refl, where rs = rs] run by (auto simp: db_ok_def)
    qed
qed

subsection \<open>Properties\<close>

text \<open>
  \<open>insert_requests\<close> is atomic under every failure of the database: it either leaves the table
  as it was and reports the database error, or appends all requests, in order and with
  consecutive fresh identifiers, whatever the number of batches of 100; when it returns normally
  it has done the latter (it may also have done it when the commit was applied and only its
  acknowledgement was lost).
\<close>

theorem insert_requests_atomic:
  assumes "insert_requests env rs s = (r, s')"
  shows "(requests s' = requests s \<and> r = Err DbError
      \<or> requests s' = requests s @ assign_ids (next_id s) rs \<and> (r = Ok () \<or> r = Err DbError))
    \<and> map req_id (assign_ids (next_id s) rs) = map (\<lambda>k. next_id s + int k) [0..<length rs]
    \<and> (\<forall>c \<in> set (chunks_of 100 rs). length c \<le> 100)"
proof -
  have "\<forall>c \<in> set (chunks_of 100 rs). length c \<le> 100" using chunks_of_bound [of 100 rs] by simp
  then show ?thesis using insert_requests_cases [OF assms] assign_ids_ids [of "next_id s" rs] by metis
qed

text \<open>An environment in which everything succeeds and the clock ticks once per call.\<close>

definition sample_db :: db_env where
  "sample_db = \<lparr>rpc = sample_env, db_fate_at = (\<lambda>_. Acked), db_now = int, db_order = (\<lambda>_. []),
     local_now = int\<rparr>"

definition empty_world :: world where
  "empty_world = \<lparr>tick = 0, requests = [], next_id = 1, chain_locks = (\<lambda>_. None), gauges = (\<lambda>_. 0)\<rparr>"

theorem insert_requests_atomic_witness:
  "map req_id (assign_ids (next_id empty_world) [default_request, default_request]) = [1, 2]
   \<and> (let (r, s') = insert_requests sample_db [default_request, default_request] empty_world
      in requests s' = requests empty_world \<and> r = Err DbError
        \<or> requests s' = requests empty_world @ assign_ids (next_id empty_world) [default_request, default_request]
           \<and> (r = Ok () \<or> r = Err DbError))"
proof -
  obtain r s' where run: "insert_requests sample_db [default_request, default_request] empty_world = (r, s')"
    by fastforce
  have "[0..<2::nat] = [0, 1]" by (simp add: upt_rec)
  then show ?thesis using insert_requests_atomic [OF run] run by (simp add: empty_world_def)
qed

text \<open>
  Identifiers stay unique and below the sequence: every method of the client that writes to
  the database preserves that, for every fate of its statements.
\<close>

theorem identifiers_unique:
  "keeps db_ok (insert_request env r) \<and> keeps db_ok (insert_requests env rs)
   \<and> keeps db_ok (update_request_status env i st) \<and> keeps db_ok (update_proof_to_complete env i p)
   \<and> keeps db_ok (update_request_to_prove env i pid) \<and> keeps db_ok (update_request_to_relayed env i tx a)
   \<and> keeps db_ok (update_l1_head_block_number env i n) \<and> keeps db_ok (update_prove_duration env i)
   \<and> keeps db_ok (update_witnessgen_duration env i d)
   \<and> keeps db_ok (insert_execution_statistics env i xs d)
   \<and> keeps db_ok (cancel_all_requests_with_statuses env sts l1 l2)
   \<and> keeps db_ok (cancel_prove_requests_with_different_commitment_config env c l1 l2)
   \<and> keeps db_ok (delete_all_requests_with_statuses env sts l1 l2)
   \<and> keeps db_ok (add_chain_lock env l1 l2) \<and> keeps db_ok (update_chain_lock env l1 l2)"
  by (intro conjI keeps_intros)

definition sample_commitments :: commitment_config where
  "sample_commitments = \<lparr>cc_range_vkey_commitment = [1], cc_agg_vkey_hash = [2], cc_rollup_config_hash = [3]\<rparr>"

definition sample_range :: "int \<Rightarrow> request_status \<Rightarrow> int \<Rightarrow> int \<Rightarrow> request" where
  "sample_range i st s e =
     (new_range_request 0 Real s e [1] [3] [] 10 20)\<lparr>req_id := i, req_status := st\<rparr>"

definition sample_world :: world where
  "sample_world = empty_world
     \<lparr>requests := [sample_range 1 Complete 5 9, sample_range 2 Prove 9 12, sample_range 3 Complete 1 5],
      next_id := 4\<rparr>"

end
