(* ===== verification/ProofRequester.thy ===== *)
theory ProofRequester
  imports DbClient Host
begin

text \<open>
  The proof requester of the validity proposer, \<open>validity/src/proof_requester.rs\<close>, with
  \<open>get_agg_proof_stdin\<close> of \<open>utils/host/src/proof.rs\<close>: witness generation, local, network and mock
  proofs, the life of one request, and the retry of a failed one. The SP1 SDK (provers,
  serialization of proofs) is third-party code: its answers are the record \<open>sp1_env\<close>.
\<close>

subsection \<open>The SP1 SDK\<close>

datatype program = RangeProgram | AggProgram

datatype sp1_proof = Core bytes | Compressed bytes | Plonk bytes | Groth16 bytes

record sp1_proof_pv =
  pv_proof :: sp1_proof
  public_values :: bytes

datatype fulfillment_strategy = Hosted | Reserved

datatype proof_mode = PlonkMode | Groth16Mode | CompressedMode

record agg_stdin =
  as_proofs :: "(bytes \<times> vkey) list"
  as_inputs :: aggregation_inputs
  as_headers :: "header list"

datatype 'stdin prog_stdin = RangeStdin 'stdin | AggStdin agg_stdin

record 'stdin network_job =
  job_program :: program
  job_stdin :: "'stdin prog_stdin"
  job_mode :: proof_mode
  job_strategy :: fulfillment_strategy
  job_skip_simulation :: bool
  job_cycle_limit :: "int option"

datatype fulfillment_status =
  UnspecifiedFulfillment | Requested | Assigned | Fulfilled | Unfulfillable

datatype execution_status =
  UnspecifiedExecution | Unexecuted | Executed | Unexecutable | ValidationFailed

record proof_status =
  deadline :: int
  fulfillment :: fulfillment_status
  execution :: execution_status

text \<open>
  \<open>onchain_bytes\<close> is \<open>SP1ProofWithPublicValues::bytes\<close> and \<open>read_boot\<close> is
  \<open>public_values.read()\<close>; \<open>None\<close> stands for their panics.
\<close>

record 'stdin sp1_env =
  network_request :: "'stdin network_job \<Rightarrow> nat \<Rightarrow> error + b256"
  local_prove :: "program \<Rightarrow> proof_mode \<Rightarrow> 'stdin prog_stdin \<Rightarrow> nat \<Rightarrow> error + sp1_proof_pv"
  execute_program :: "program \<Rightarrow> 'stdin prog_stdin \<Rightarrow> nat \<Rightarrow> error + bytes \<times> execution_report"
  join_blocking :: "nat \<Rightarrow> error + unit"
  get_proof_status :: "b256 \<Rightarrow> nat \<Rightarrow> error + proof_status \<times> sp1_proof_pv option"
  mock_proof :: "program \<Rightarrow> proof_mode \<Rightarrow> bytes \<Rightarrow> sp1_proof_pv"
  bincode_serialize :: "sp1_proof_pv \<Rightarrow> bytes"
  bincode_deserialize :: "bytes \<Rightarrow> sp1_proof_pv option"
  onchain_bytes :: "sp1_proof_pv \<Rightarrow> bytes option"
  read_boot :: "bytes \<Rightarrow> boot_info option"

subsection \<open>The requester\<close>

record program_config =
  range_vk_hash :: vkey
  commitments :: commitment_config

record ('s, 'args, 'wit, 'stdin) requester =
  pr_host :: "('s, 'args, 'wit, 'stdin) succinct_host"
  pr_env :: db_env
  pr_sp1 :: "'stdin sp1_env"
  pr_network_prover :: bool
  pr_local_prover :: bool
  pr_program_config :: program_config
  pr_mock :: bool
  pr_range_strategy :: fulfillment_strategy
  pr_agg_strategy :: fulfillment_strategy
  pr_agg_mode :: proof_mode
  pr_safe_db_fallback :: bool
  pr_use_local_proving :: bool

subsection \<open>Witness generation\<close>

definition range_proof_witnessgen ::
  "('z world_scheme, 'args, 'wit, 'stdin) requester \<Rightarrow> request \<Rightarrow> ('z world_scheme, 'stdin prog_stdin) op"
  where
  "range_proof_witnessgen pr r =
     andThen (host_fetch (pr_host pr) (as_u64 (start_block r)) (as_u64 (end_block r)) None
                (pr_safe_db_fallback pr)) (\<lambda>host_args.
     andThen
       (case host_l1_head_hash (pr_host pr) host_args of
          None \<Rightarrow> ret ()
        | Some l1_hash \<Rightarrow>
            andThen (get_l1_header (rpc (pr_env pr)) (ByHash l1_hash)) (\<lambda>hdr.
              update_l1_head_block_number (pr_env pr) (req_id r) (as_i64 (number hdr)))) (\<lambda>_.
     andThen (host_run (pr_host pr) host_args) (\<lambda>witness.
       case host_sp1_stdin (pr_host pr) witness of
         Inl e \<Rightarrow> throw (Panic ''unwrap'')
       | Inr stdin \<Rightarrow> ret (RangeStdin stdin))))"

text \<open>\<open>get_agg_proof_stdin\<close>.\<close>

fun write_proofs :: "vkey \<Rightarrow> sp1_proof list \<Rightarrow> (bytes \<times> vkey) list res" where
  "write_proofs vk [] = Ok []"
| "write_proofs vk (p # ps) =
     (case p of
        Compressed c \<Rightarrow> res_bind (write_proofs vk ps) (\<lambda>ws. Ok ((c, vk) # ws))
      | _ \<Rightarrow> Err (Msg ''Invalid proof passed as compressed proof!''))"

definition get_agg_proof_stdin ::
  "sp1_proof list \<Rightarrow> boot_info list \<Rightarrow> header list \<Rightarrow> vkey \<Rightarrow> b256 \<Rightarrow> address \<Rightarrow> agg_stdin res" where
  "get_agg_proof_stdin proofs bs headers vk checkpoint prover =
     res_bind (write_proofs vk proofs) (\<lambda>ws.
       Ok \<lparr>as_proofs = ws,
           as_inputs = \<lparr>boot_infos = bs, latest_l1_checkpoint_head = checkpoint,
             multi_block_vkey = vk, prover_address = prover\<rparr>,
           as_headers = headers\<rparr>)"

text \<open>The closure over the range proofs of \<open>agg_proof_witnessgen\<close>.\<close>

definition read_range_proof :: "'stdin sp1_env \<Rightarrow> request \<Rightarrow> (boot_info \<times> sp1_proof) res" where
  "read_range_proof sp r =
     res_bind (unwrap (req_proof r) ''unwrap'') (\<lambda>b.
     res_bind (unwrap (bincode_deserialize sp b) ''Deserialization failure for range proof'') (\<lambda>p.
     res_bind (unwrap (read_boot sp (public_values p)) ''read'') (\<lambda>bi.
       Ok (bi, pv_proof p))))"

definition agg_proof_witnessgen ::
  "('z world_scheme, 'args, 'wit, 'stdin) requester \<Rightarrow> int \<Rightarrow> int \<Rightarrow> b256 \<Rightarrow> int \<Rightarrow> int \<Rightarrow> address
     \<Rightarrow> ('z world_scheme, 'stdin prog_stdin) op" where
  "agg_proof_witnessgen pr s e checkpoint l1 l2 prover =
     andThen (get_consecutive_complete_range_proofs (pr_env pr) s e
                (commitments (pr_program_config pr)) l1 l2) (\<lambda>range_proofs.
     andThen (lift (map_res (read_range_proof (pr_sp1 pr)) range_proofs)) (\<lambda>bps.
     andThen (get_header_preimages (rpc (pr_env pr)) (map fst bps) checkpoint) (\<lambda>headers.
     andThen (lift (get_agg_proof_stdin (map snd bps) (map fst bps) headers
                (range_vk_hash (pr_program_config pr)) checkpoint prover)) (\<lambda>stdin.
       ret (AggStdin stdin)))))"

definition generate_proof_stdin ::
  "('z world_scheme, 'args, 'wit, 'stdin) requester \<Rightarrow> request \<Rightarrow> ('z world_scheme, 'stdin prog_stdin) op"
  where
  "generate_proof_stdin pr r =
     (case req_type r of
        Range \<Rightarrow> range_proof_witnessgen pr r
      | Aggregation \<Rightarrow>
          andThen (case checkpointed_l1_block_hash r of
              None \<Rightarrow> throw (Failure (Msg ''Aggregation proof has no checkpointed block.''))
            | Some v \<Rightarrow> lift (b256_from_slice v)) (\<lambda>checkpoint.
          andThen (case req_prover_address r of
              None \<Rightarrow> throw (Failure (Msg ''Prover address must be set for aggregation proofs.''))
            | Some v \<Rightarrow> lift (address_from_slice v)) (\<lambda>prover.
            agg_proof_witnessgen pr (start_block r) (end_block r) checkpoint (l1_chain_id r)
              (l2_chain_id r) prover)))"

subsection \<open>Proofs\<close>

text \<open>\<open>match m { Ok(p) => p, Err(e) => { gauge.increment(1.0); return Err(e) } }\<close>.\<close>

definition counting :: "validity_gauge \<Rightarrow> ('z world_scheme, 'a) op \<Rightarrow> ('z world_scheme, 'a) op" where
  "counting g m = onErr m ret (\<lambda>e. andThen (gauge_increment g) (\<lambda>_. throw (Failure e)))"

definition generate_local_range_proof ::
  "('z world_scheme, 'args, 'wit, 'stdin) requester \<Rightarrow> 'stdin prog_stdin \<Rightarrow> ('z world_scheme, sp1_proof_pv) op"
  where
  "generate_local_range_proof pr stdin =
     (if \<not> pr_local_prover pr then throw (Failure (Msg ''Local prover not available''))
      else counting RangeProofRequestErrorCount
             (call (local_prove (pr_sp1 pr) RangeProgram CompressedMode stdin)))"

definition request_range_proof ::
  "('z world_scheme, 'args, 'wit, 'stdin) requester \<Rightarrow> 'stdin prog_stdin \<Rightarrow> ('z world_scheme, b256) op" where
  "request_range_proof pr stdin =
     (if \<not> pr_network_prover pr then throw (Failure (Msg ''Network prover not available''))
      else counting RangeProofRequestErrorCount
             (call (network_request (pr_sp1 pr)
                \<lparr>job_program = RangeProgram, job_stdin = stdin, job_mode = CompressedMode,
                 job_strategy = pr_range_strategy pr, job_skip_simulation = True,
                 job_cycle_limit = Some 1000000000000\<rparr>)))"

definition generate_local_agg_proof ::
  "('z world_scheme, 'args, 'wit, 'stdin) requester \<Rightarrow> 'stdin prog_stdin \<Rightarrow> ('z world_scheme, sp1_proof_pv) op"
  where
  "generate_local_agg_proof pr stdin =
     (if \<not> pr_local_prover pr then throw (Failure (Msg ''Local prover not available''))
      else counting AggProofRequestErrorCount
             (call (local_prove (pr_sp1 pr) AggProgram (pr_agg_mode pr) stdin)))"

definition request_agg_proof ::
  "('z world_scheme, 'args, 'wit, 'stdin) requester \<Rightarrow> 'stdin prog_stdin \<Rightarrow> ('z world_scheme, b256) op" where
  "request_agg_proof pr stdin =
     (if \<not> pr_network_prover pr then throw (Failure (Msg ''Network prover not available''))
      else counting AggProofRequestErrorCount
             (call (network_request (pr_sp1 pr)
                \<lparr>job_program = AggProgram, job_stdin = stdin, job_mode = pr_agg_mode pr,
                 job_strategy = pr_agg_strategy pr, job_skip_simulation = False,
                 job_cycle_limit = None\<rparr>)))"

text \<open>
  The execution inside \<open>spawn_blocking\<close>: a failed join is propagated as it is, an execution
  error is counted. Network and local prover execute alike.
\<close>

definition execute_mock ::
  "('z world_scheme, 'args, 'wit, 'stdin) requester \<Rightarrow> program \<Rightarrow> request \<Rightarrow> 'stdin prog_stdin
     \<Rightarrow> ('z world_scheme, bytes) op" where
  "execute_mock pr prog r stdin =
     andThen (now (pr_env pr)) (\<lambda>start_time.
     andThen
       (if pr_network_prover pr \<or> pr_local_prover pr
        then andThen (call (join_blocking (pr_sp1 pr))) (\<lambda>_.
               counting ExecutionErrorCount (call (execute_program (pr_sp1 pr) prog stdin)))
        else throw (Failure (Msg ''No prover available''))) (\<lambda>(pv, report).
     andThen (now (pr_env pr)) (\<lambda>end_time.
     andThen (insert_execution_statistics (pr_env pr) (req_id r) (execution_stats_new report)
                (as_i64 (sat_sub end_time start_time))) (\<lambda>_.
       ret pv))))"

definition generate_mock_range_proof ::
  "('z world_scheme, 'args, 'wit, 'stdin) requester \<Rightarrow> request \<Rightarrow> 'stdin prog_stdin
     \<Rightarrow> ('z world_scheme, sp1_proof_pv) op" where
  "generate_mock_range_proof pr r stdin =
     andThen (execute_mock pr RangeProgram r stdin) (\<lambda>pv.
       ret (mock_proof (pr_sp1 pr) RangeProgram CompressedMode pv))"

definition generate_mock_agg_proof ::
  "('z world_scheme, 'args, 'wit, 'stdin) requester \<Rightarrow> request \<Rightarrow> 'stdin prog_stdin
     \<Rightarrow> ('z world_scheme, sp1_proof_pv) op" where
  "generate_mock_agg_proof pr r stdin =
     andThen (execute_mock pr AggProgram r stdin) (\<lambda>pv.
       ret (mock_proof (pr_sp1 pr) AggProgram (pr_agg_mode pr) pv))"

subsection \<open>Retry\<close>

definition split_point :: "request \<Rightarrow> int" where
  "split_point r = tdiv (wrap_i64 (start_block r + end_block r)) 2"

text \<open>The part after the row has been marked and the chain identifiers are known.\<close>

definition retry_split ::
  "('z world_scheme, 'args, 'wit, 'stdin) requester \<Rightarrow> request \<Rightarrow> execution_status \<Rightarrow> int \<Rightarrow> int
     \<Rightarrow> ('z world_scheme, unit) op" where
  "retry_split pr r status l1 l2 =
     (let env = pr_env pr; cc = commitments (pr_program_config pr) in
      if 1 < wrap_i64 (end_block r - start_block r) \<and> req_type r = Range
      then
        andThen (fetch_failed_request_count_by_block_range env (start_block r) (end_block r)
                   (l1_chain_id r) (l2_chain_id r) cc) (\<lambda>num_failed.
          if 2 < num_failed \<or> status = Unexecutable
          then
            andThen (create_range_request env (req_mode r) (start_block r) (split_point r)
                       (cc_range_vkey_commitment cc) (cc_rollup_config_hash cc)
                       (as_i64 l1) (as_i64 l2)) (\<lambda>first_half.
            andThen (create_range_request env (req_mode r) (split_point r) (end_block r)
                       (cc_range_vkey_commitment cc) (cc_rollup_config_hash cc)
                       (as_i64 l1) (as_i64 l2)) (\<lambda>second_half.
              insert_requests env [first_half, second_half]))
          else ret ())
      else ret ())"

definition handle_failed_request ::
  "('z world_scheme, 'args, 'wit, 'stdin) requester \<Rightarrow> request \<Rightarrow> execution_status \<Rightarrow> ('z world_scheme, unit) op"
  where
  "handle_failed_request pr r status =
     andThen (update_request_status (pr_env pr) (req_id r) Failed) (\<lambda>_.
     andThen (call (l1_chain_id_rpc (rpc (pr_env pr)))) (\<lambda>l1.
     andThen (call (l2_chain_id_rpc (rpc (pr_env pr)))) (\<lambda>l2. retry_split pr r status l1 l2)))"

subsection \<open>One request\<close>

text \<open>What follows the first statement of \<open>make_proof_request\<close>.\<close>

definition make_proof_rest ::
  "('z world_scheme, 'args, 'wit, 'stdin) requester \<Rightarrow> request \<Rightarrow> ('z world_scheme, unit) op" where
  "make_proof_rest pr r =
     (let env = pr_env pr; sp = pr_sp1 pr in
      andThen (now env) (\<lambda>start_time.
      andThen (counting WitnessgenErrorCount (generate_proof_stdin pr r)) (\<lambda>stdin.
      andThen (now env) (\<lambda>end_time.
      andThen (update_witnessgen_duration env (req_id r) (as_i64 (sat_sub end_time start_time))) (\<lambda>_.
      andThen (if pr_mock pr then update_request_status env (req_id r) Execution else ret ()) (\<lambda>_.
        case req_type r of
          Range \<Rightarrow>
            if pr_mock pr
            then andThen (generate_mock_range_proof pr r stdin) (\<lambda>p.
                   update_proof_to_complete env (req_id r) (bincode_serialize sp p))
            else if pr_use_local_proving pr
            then andThen (generate_local_range_proof pr stdin) (\<lambda>p.
                   update_proof_to_complete env (req_id r) (bincode_serialize sp p))
            else andThen (request_range_proof pr stdin) (\<lambda>proof_id.
                   update_request_to_prove env (req_id r) proof_id)
        | Aggregation \<Rightarrow>
            if pr_mock pr
            then andThen (generate_mock_agg_proof pr r stdin) (\<lambda>p.
                 andThen (lift (unwrap (onchain_bytes sp p) ''bytes'')) (\<lambda>b.
                   update_proof_to_complete env (req_id r) b))
            else if pr_use_local_proving pr
            then andThen (generate_local_agg_proof pr stdin) (\<lambda>p.
                 andThen (lift (unwrap (onchain_bytes sp p) ''bytes'')) (\<lambda>b.
                   update_proof_to_complete env (req_id r) b))
            else andThen (request_agg_proof pr stdin) (\<lambda>proof_id.
                   update_request_to_prove env (req_id r) proof_id)))))))"

definition make_proof_request ::
  "('z world_scheme, 'args, 'wit, 'stdin) requester \<Rightarrow> request \<Rightarrow> ('z world_scheme, unit) op" where
  "make_proof_request pr r =
     andThen (update_request_status (pr_env pr) (req_id r) WitnessGeneration) (\<lambda>_. make_proof_rest pr r)"

subsection \<open>A request only touches its own row\<close>

lemma now_reads [tick_intros]: "tick_only (now env)"
  unfolding now_def by (intro tick_intros)

lemma create_range_request_reads [tick_intros]:
  "tick_only (create_range_request env m s e rv ch l1 l2)"
  unfolding create_range_request_def by (intro tick_intros)

lemma touches_reads [touch_intros]:
  "touches i S (now env)" "touches i S (get_l1_header renv b)"
  "touches i S (get_header_preimages renv bs cp)"
  "touches i S (get_consecutive_complete_range_proofs env b' e c l1 l2)"
  by (rule touches_tick_only, intro tick_intros)+

lemma touches_counting [touch_intros]: "touches i S m \<Longrightarrow> touches i S (counting g m)"
  unfolding counting_def by (intro touch_intros)

lemma witnessgen_touches:
  assumes "op_succinct_host (pr_host pr)"
  shows "touches (req_id r) S (generate_proof_stdin pr r)"
proof -
  note h = touches_tick_only [OF op_succinct_host.fetch_reads [OF assms]]
    touches_tick_only [OF op_succinct_host.run_reads [OF assms]]
  have range: "touches (req_id r) S (range_proof_witnessgen pr r)"
    unfolding range_proof_witnessgen_def by (intro touch_intros h)
  have agg: "touches (req_id r) S (agg_proof_witnessgen pr b e cp l1 l2 prover)" for b e cp l1 l2 prover
    unfolding agg_proof_witnessgen_def by (intro touch_intros)
  show ?thesis
    by (cases "req_type r") (auto simp: generate_proof_stdin_def range intro!: touch_intros agg)
qed

lemma proofs_touch [touch_intros]:
  "touches i S (generate_local_range_proof pr stdin)" "touches i S (request_range_proof pr stdin)"
  "touches i S (generate_local_agg_proof pr stdin)" "touches i S (request_agg_proof pr stdin)"
  unfolding generate_local_range_proof_def request_range_proof_def generate_local_agg_proof_def
    request_agg_proof_def
  by (intro touch_intros)+

lemma mock_touch [touch_intros]:
  "touches (req_id r) S (generate_mock_range_proof pr r stdin)"
  "touches (req_id r) S (generate_mock_agg_proof pr r stdin)"
  unfolding generate_mock_range_proof_def generate_mock_agg_proof_def execute_mock_def
  by (intro touch_intros)+

abbreviation working :: "request_status set" where
  "working \<equiv> {WitnessGeneration, Execution, Prove, Complete}"

lemma make_proof_rest_touches:
  assumes "op_succinct_host (pr_host pr)"
  shows "touches (req_id r) working (make_proof_rest pr r)"
  by (cases "req_type r")
    (auto simp: make_proof_rest_def Let_def intro!: touch_intros witnessgen_touches [OF assms])

lemma make_proof_request_touches:
  assumes "op_succinct_host (pr_host pr)"
  shows "touches (req_id r) working (make_proof_request pr r)"
  unfolding make_proof_request_def
  by (intro touch_intros make_proof_rest_touches [OF assms]) simp

subsection \<open>What a normal return leaves behind\<close>

definition leaves :: "('s \<Rightarrow> bool) \<Rightarrow> ('s, 'a) op \<Rightarrow> bool" where
  "leaves Q m \<longleftrightarrow> (\<forall>s x s'. m s = (Inr x, s') \<longrightarrow> Q s')"

lemma leaves_andThen: "(\<And>x. leaves Q (f x)) \<Longrightarrow> leaves Q (andThen m f)"
  unfolding leaves_def andThen_eq_Ok by blast

lemma leaves_if: "(b \<Longrightarrow> leaves Q m) \<Longrightarrow> (\<not> b \<Longrightarrow> leaves Q n) \<Longrightarrow> leaves Q (if b then m else n)"
  by simp

definition row_proved :: "int \<Rightarrow> 'z world_scheme \<Rightarrow> bool" where
  "row_proved i s \<longleftrightarrow> (\<forall>q \<in> set (requests s). req_id q = i \<longrightarrow>
     req_status q = Complete \<and> req_proof q \<noteq> None)"

definition row_requested :: "int \<Rightarrow> 'z world_scheme \<Rightarrow> bool" where
  "row_requested i s \<longleftrightarrow> (\<forall>q \<in> set (requests s). req_id q = i \<longrightarrow>
     req_status q = Prove \<and> proof_request_id q \<noteq> None \<and> proof_request_time q \<noteq> None)"

lemma mem_map_if:
  assumes "q \<in> set (map (\<lambda>r. if p r then f r else r) rs)"
  obtains r where "r \<in> set rs" "p r" "q = f r" | "q \<in> set rs" "\<not> p q"
  using assms by (auto split: if_splits)

lemma leaves_proved: "leaves (row_proved i) (update_proof_to_complete env i p)"
  unfolding leaves_def row_proved_def
proof (intro allI impI ballI)
  fix s x q and s' :: "'a world_scheme"
  assume run: "update_proof_to_complete env i p s = (Inr x, s')" and q: "q \<in> set (requests s')" "req_id q = i"
  show "req_status q = Complete \<and> req_proof q \<noteq> None"
    by (rule mem_map_if [OF q(1) [unfolded set_complete.done_row [OF run]]]) (use q(2) in simp_all)
qed

lemma leaves_requested: "leaves (row_requested i) (update_request_to_prove env i b)"
  unfolding leaves_def row_requested_def
proof (intro allI impI ballI)
  fix s x q and s' :: "'a world_scheme"
  assume run: "update_request_to_prove env i b s = (Inr x, s')" and q: "q \<in> set (requests s')" "req_id q = i"
  show "req_status q = Prove \<and> proof_request_id q \<noteq> None \<and> proof_request_time q \<noteq> None"
    by (rule mem_map_if [OF q(1) [unfolded set_prove.done_row [OF run]]]) (use q(2) in simp_all)
qed

lemmas leaves_intros = leaves_andThen leaves_if leaves_proved leaves_requested

subsection \<open>The retry\<close>

text \<open>The two requests that replace a failed range request.\<close>

definition halves :: "commitment_config \<Rightarrow> request \<Rightarrow> request \<Rightarrow> request \<Rightarrow> bool" where
  "halves c r a b \<longleftrightarrow>
     start_block a = start_block r \<and> end_block a = start_block b \<and> end_block b = end_block r
     \<and> start_block a < end_block a \<and> start_block b < end_block b
     \<and> req_type a = Range \<and> req_type b = Range
     \<and> req_status a = Unrequested \<and> req_status b = Unrequested
     \<and> same_program c a \<and> same_program c b"

lemma create_range_request_Ok:
  "create_range_request env m b e rv ch l1 l2 s = (Inr r, s') \<Longrightarrow>
     start_block r = b \<and> end_block r = e \<and> req_type r = Range \<and> req_status r = Unrequested
     \<and> range_vkey_commitment r = rv \<and> rollup_config_hash r = ch
     \<and> l1_chain_id r = l1 \<and> l2_chain_id r = l2 \<and> (\<exists>k. s' = s\<lparr>tick := k\<rparr>)"
  using tick_onlyD [OF create_range_request_reads, of env m b e rv ch l1 l2 s "Inr r" s']
  by (auto simp: create_range_request_def andThen_eq_Ok ret_def)

lemma split_point_between:
  assumes "0 \<le> start_block r" "end_block r < 2 ^ 62" "1 < end_block r - start_block r"
  shows "start_block r < split_point r" "split_point r < end_block r"
proof -
  have "is_i64 (start_block r + end_block r)" using assms by (simp add: int_bounds)
  then have "split_point r = (start_block r + end_block r) div 2"
    using assms by (simp add: split_point_def tdiv_2_nonneg)
  then show "start_block r < split_point r" "split_point r < end_block r" using assms by simp_all
qed

lemma andThen_cases:
  assumes "andThen m f s = (y, t)"
  obtains (first_fails) e where "m s = (Inl e, t)" "y = Inl e"
  | (second) x s1 where "m s = (Inr x, s1)" "f x s1 = (y, t)"
  using assms by (auto simp: andThen_def split: prod.splits sum.splits)

text \<open>The earlier attempts that \<open>fetch_failed_request_count_by_block_range\<close> counts.\<close>

definition failed_attempt :: "commitment_config \<Rightarrow> request \<Rightarrow> request \<Rightarrow> bool" where
  "failed_attempt c r q \<longleftrightarrow> start_block q = start_block r \<and> end_block q = end_block r
     \<and> (req_status q = Failed \<or> req_status q = Cancelled) \<and> same_program c q
     \<and> on_chains (l1_chain_id r) (l2_chain_id r) q"

lemma retry_split_cases:
  assumes run: "retry_split pr r status l1 l2 s = (x, s')"
    and blocks: "req_type r = Range \<Longrightarrow>
      0 \<le> start_block r \<and> start_block r \<le> end_block r \<and> end_block r < 2 ^ 62"
  shows "next_id s \<le> next_id s' \<and> outside s' = outside s
    \<and> (requests s' = requests s
       \<or> (\<exists>a b. next_id s' = next_id s + 2 \<and> requests s' = requests s @ assign_ids (next_id s) [a, b]
            \<and> halves (commitments (pr_program_config pr)) r a b \<and> req_type r = Range
            \<and> on_chains (as_i64 l1) (as_i64 l2) a \<and> on_chains (as_i64 l1) (as_i64 l2) b
            \<and> (status = Unexecutable
               \<or> 2 < length (filter (failed_attempt (commitments (pr_program_config pr)) r) (requests s)))))"
proof (cases "1 < end_block r - start_block r \<and> req_type r = Range")
  case False
  have "req_type r = Range \<Longrightarrow> wrap_i64 (end_block r - start_block r) = end_block r - start_block r"
    using blocks by (intro wrap_i64_id) (simp add: int_bounds)
  then have "\<not> (1 < wrap_i64 (end_block r - start_block r) \<and> req_type r = Range)" using False by auto
  then have "retry_split pr r status l1 l2 = ret ()"
    unfolding retry_split_def Let_def by (rule if_not_P)
  then have "s' = s" using run by (simp add: ret_def)
  then show ?thesis by simp
next
  case big: True
  let ?cc = "commitments (pr_program_config pr)" and ?env = "pr_env pr"
  let ?new = "\<lambda>b e. create_range_request ?env (req_mode r) b e (cc_range_vkey_commitment ?cc)
      (cc_rollup_config_hash ?cc) (as_i64 l1) (as_i64 l2)"
  let ?rest = "andThen (?new (start_block r) (split_point r)) (\<lambda>a.
      andThen (?new (split_point r) (end_block r)) (\<lambda>b. insert_requests ?env [a, b]))"
  have blocks': "0 \<le> start_block r" "start_block r \<le> end_block r" "end_block r < 2 ^ 62"
    using blocks big by blast+
  have w: "wrap_i64 (end_block r - start_block r) = end_block r - start_block r"
    using blocks' by (intro wrap_i64_id) (simp add: int_bounds)
  have run': "andThen (fetch_failed_request_count_by_block_range ?env (start_block r) (end_block r)
        (l1_chain_id r) (l2_chain_id r) ?cc)
      (\<lambda>n. if 2 < n \<or> status = Unexecutable then ?rest else ret ()) s = (x, s')"
    using run big unfolding retry_split_def Let_def w by simp
  have same: "requests t = requests s \<and> next_id t = next_id s \<and> outside t = outside s"
    if "t = s\<lparr>tick := k\<rparr>" for t k using that by simp
  from run' show ?thesis
  proof (cases rule: andThen_cases)
    case (first_fails e)
    then show ?thesis using tick_onlyD [OF queries_read(3) first_fails(1)] by auto
  next
    case (second n s1)
    obtain k1 where s1: "s1 = s\<lparr>tick := k1\<rparr>" using tick_onlyD [OF queries_read(3) second(1)] by blast
    show ?thesis
    proof (cases "2 < n \<or> status = Unexecutable")
      case False
      then have "s' = s1" using second(2) by (simp add: ret_def)
      then show ?thesis using s1 by simp
    next
      case True
      then have "?rest s1 = (x, s')" using second(2) by simp
      then show ?thesis
      proof (cases rule: andThen_cases)
        case (first_fails e)
        then show ?thesis using tick_onlyD [OF create_range_request_reads first_fails(1)] s1 by auto
      next
        case a: (second a s2)
        note A = create_range_request_Ok [OF a(1)]
        from a(2) show ?thesis
        proof (cases rule: andThen_cases)
          case (first_fails e)
          then show ?thesis
            using tick_onlyD [OF create_range_request_reads first_fails(1)] s1 A by auto
        next
          case b: (second b s3)
          note B = create_range_request_Ok [OF b(1)]
          have s3: "requests s3 = requests s \<and> next_id s3 = next_id s \<and> outside s3 = outside s"
            using s1 A B by auto
          have "halves ?cc r a b"
            using A B big split_point_between [OF blocks'(1,3)] by (simp add: halves_def same_program_def)
          moreover have "on_chains (as_i64 l1) (as_i64 l2) a \<and> on_chains (as_i64 l1) (as_i64 l2) b"
            using A B by (simp add: on_chains_def)
          moreover have "status = Unexecutable \<or> 2 < length (filter (failed_attempt ?cc r) (requests s))"
            using True select_count_Ok [OF second(1) [unfolded fetch_failed_request_count_by_block_range_def]]
            by (auto simp: failed_attempt_def [abs_def])
          ultimately show ?thesis
            using insert_requests_cases [OF b(2)] s3 big by auto
        qed
      qed
    qed
  qed
qed

text \<open>
  The possible outcomes of \<open>handle_failed_request\<close> on the table: the row of the request has been
  marked, or not, and in the first case two halves may follow.
\<close>

definition marked :: "request \<Rightarrow> 'z world_scheme \<Rightarrow> 'z world_scheme \<Rightarrow> bool" where
  "marked r s s' \<longleftrightarrow> next_id s \<le> next_id s' \<and> outside s' = outside s
    \<and> (\<exists>g. row_change (req_id r) {Failed} g \<and> requests s' = map g (requests s))"

definition replaced ::
  "('z world_scheme, 'args, 'wit, 'stdin) requester \<Rightarrow> request \<Rightarrow> execution_status \<Rightarrow> 'z world_scheme \<Rightarrow> 'z world_scheme \<Rightarrow> bool"
  where
  "replaced pr r status s s' \<longleftrightarrow> next_id s' = next_id s + 2 \<and> outside s' = outside s
    \<and> (\<exists>g a b t u l1 l2. row_change (req_id r) {Failed} g
        \<and> (\<forall>q. req_id q = req_id r \<longrightarrow> req_status (g q) = Failed)
        \<and> requests s' = map g (requests s) @ assign_ids (next_id s) [a, b]
        \<and> halves (commitments (pr_program_config pr)) r a b \<and> req_type r = Range
        \<and> l1_chain_id_rpc (rpc (pr_env pr)) t = Inr l1 \<and> l2_chain_id_rpc (rpc (pr_env pr)) u = Inr l2
        \<and> on_chains (as_i64 l1) (as_i64 l2) a \<and> on_chains (as_i64 l1) (as_i64 l2) b
        \<and> (status = Unexecutable
           \<or> 2 < length (filter (failed_attempt (commitments (pr_program_config pr)) r) (map g (requests s)))))"

lemma replacedI:
  assumes "next_id s' = next_id s + 2" "outside s' = outside s"
    and "row_change (req_id r) {Failed} g" "\<forall>q. req_id q = req_id r \<longrightarrow> req_status (g q) = Failed"
    and "requests s' = map g (requests s) @ assign_ids (next_id s) [a, b]"
    and "halves (commitments (pr_program_config pr)) r a b" "req_type r = Range"
    and "l1_chain_id_rpc (rpc (pr_env pr)) t = Inr l1" "l2_chain_id_rpc (rpc (pr_env pr)) u = Inr l2"
    and "on_chains (as_i64 l1) (as_i64 l2) a" "on_chains (as_i64 l1) (as_i64 l2) b"
    and "status = Unexecutable
      \<or> 2 < length (filter (failed_attempt (commitments (pr_program_config pr)) r) (map g (requests s)))"
  shows "replaced pr r status s s'"
  unfolding replaced_def using assms by blast

lemma handle_failed_cases:
  assumes run: "handle_failed_request pr r status s = (x, s')"
    and blocks: "req_type r = Range \<Longrightarrow>
      0 \<le> start_block r \<and> start_block r \<le> end_block r \<and> end_block r < 2 ^ 62"
  shows "marked r s s' \<or> replaced pr r status s s'"
  using run unfolding handle_failed_request_def
proof (cases rule: andThen_cases)
  case (first_fails e)
  obtain g where "row_change (req_id r) {Failed} g" "requests s' = map g (requests s)"
    "next_id s' = next_id s" "outside s' = outside s"
    using touchesD [OF touches_status(1) [of Failed "{Failed}"] first_fails(1)] by blast
  then have "marked r s s'" unfolding marked_def by (intro conjI exI [of _ g]) simp_all
  then show ?thesis ..
next
  case (second u s1)
  let ?g = "\<lambda>q. if req_id q = req_id r
      then q\<lparr>req_status := Failed, updated_at := db_now (pr_env pr) (tick s)\<rparr> else q"
  have s1: "requests s1 = map ?g (requests s)" by (rule set_status.done_row [OF second(1)])
  have n1: "next_id s1 = next_id s \<and> outside s1 = outside s"
    using touchesD [OF touches_status(1) [of Failed "{Failed}"] second(1)] by auto
  have g: "row_change (req_id r) {Failed} ?g" "\<forall>q. req_id q = req_id r \<longrightarrow> req_status (?g q) = Failed"
    by (simp_all add: row_change_def same_request_def)
  have unchanged: "marked r s s'"
    if "requests s' = requests s1" "next_id s1 \<le> next_id s'" "outside s' = outside s1"
    unfolding marked_def
    by (intro conjI exI [of _ ?g] g(1)) (use that s1 n1 in simp_all)
  from second(2) show ?thesis
  proof (cases rule: andThen_cases)
    case (first_fails e)
    then have "s' = s1\<lparr>tick := Suc (tick s1)\<rparr>" by (simp add: call_def)
    then show ?thesis using unchanged by simp
  next
    case l1: (second l1 s2)
    from l1(2) show ?thesis
    proof (cases rule: andThen_cases)
      case (first_fails e)
      then have "s' = s2\<lparr>tick := Suc (tick s2)\<rparr>" "s2 = s1\<lparr>tick := Suc (tick s1)\<rparr>"
        using l1(1) by (simp_all add: call_def)
      then show ?thesis using unchanged by simp
    next
      case l2: (second l2 s3)
      have L: "l1_chain_id_rpc (rpc (pr_env pr)) (tick s1) = Inr l1"
        "l2_chain_id_rpc (rpc (pr_env pr)) (tick s2) = Inr l2"
        using l1(1) l2(1) by (simp_all add: call_def split: sum.splits)
      have "s3 = s2\<lparr>tick := Suc (tick s2)\<rparr>" "s2 = s1\<lparr>tick := Suc (tick s1)\<rparr>"
        using l1(1) l2(1) by (simp_all add: call_def)
      then have s3: "requests s3 = requests s1" "next_id s3 = next_id s1" "outside s3 = outside s1"
        by simp_all
      note split = retry_split_cases [OF l2(2) blocks]
      show ?thesis
      proof (cases "requests s' = requests s3")
        case True
        then show ?thesis using split s3 unchanged by simp
      next
        case False
        then obtain a b where n2: "next_id s' = next_id s3 + 2"
          and ab: "requests s' = requests s3 @ assign_ids (next_id s3) [a, b]"
          "halves (commitments (pr_program_config pr)) r a b" "req_type r = Range"
          "on_chains (as_i64 l1) (as_i64 l2) a" "on_chains (as_i64 l1) (as_i64 l2) b"
          "status = Unexecutable
             \<or> 2 < length (filter (failed_attempt (commitments (pr_program_config pr)) r) (requests s3))"
          using split by blast
        have "replaced pr r status s s'"
        proof (rule replacedI [OF _ _ g _ ab(2,3) L ab(4,5) ab(6) [unfolded s3 s1]])
          show "requests s' = map ?g (requests s) @ assign_ids (next_id s) [a, b]"
            using ab(1) s3 s1 n1 by simp
        qed (use split s3 n1 n2 in simp_all)
        then show ?thesis ..
      qed
    qed
  qed
qed

subsection \<open>The inputs of an aggregation\<close>

lemma write_proofs_Ok_iff:
  "write_proofs vk ps = Inr ws \<longleftrightarrow> (\<exists>cs. ps = map Compressed cs \<and> ws = map (\<lambda>c. (c, vk)) cs)"
proof (induction ps arbitrary: ws)
  case Nil
  then show ?case by auto
next
  case (Cons p ps)
  show ?case
  proof (cases p)
    case (Compressed c)
    show ?thesis
    proof
      assume "write_proofs vk (p # ps) = Inr ws"
      then obtain cs where "ps = map sp1_proof.Compressed cs" "ws = (c, vk) # map (\<lambda>c. (c, vk)) cs"
        using Cons Compressed by (auto simp: res_bind_Ok_iff)
      then show "\<exists>cs. p # ps = map sp1_proof.Compressed cs \<and> ws = map (\<lambda>c. (c, vk)) cs"
        using Compressed by (intro exI [of _ "c # cs"]) simp
    next
      assume "\<exists>cs. p # ps = map sp1_proof.Compressed cs \<and> ws = map (\<lambda>c. (c, vk)) cs"
      then obtain cs where "ps = map sp1_proof.Compressed cs" "ws = (c, vk) # map (\<lambda>c. (c, vk)) cs"
        using Compressed by (auto simp: Cons_eq_map_conv)
      then show "write_proofs vk (p # ps) = Inr ws"
        using Cons Compressed by (auto simp: res_bind_Ok_iff)
    qed
  qed auto
qed

definition proof_of :: "'stdin sp1_env \<Rightarrow> request \<Rightarrow> boot_info \<Rightarrow> bytes \<Rightarrow> bool" where
  "proof_of sp r bi c \<longleftrightarrow> (\<exists>b p. req_proof r = Some b \<and> bincode_deserialize sp b = Some p
     \<and> read_boot sp (public_values p) = Some bi \<and> pv_proof p = Compressed c)"

lemma read_range_proof_Ok_iff:
  "read_range_proof sp r = Inr (bi, p) \<longleftrightarrow>
     (\<exists>b pv. req_proof r = Some b \<and> bincode_deserialize sp b = Some pv
        \<and> read_boot sp (public_values pv) = Some bi \<and> pv_proof pv = p)"
  by (auto simp: read_range_proof_def res_bind_Ok_iff)

lemma agg_witnessgen_Ok:
  assumes "agg_proof_witnessgen pr b e cp l1 l2 prover s = (Inr (AggStdin st), s')"
  shows "\<exists>rs cs. sorted (map start_block rs)
    \<and> mset rs = filter_mset (\<lambda>r. same_program (commitments (pr_program_config pr)) r
        \<and> req_status r = Complete \<and> req_type r = Range
        \<and> b \<le> start_block r \<and> end_block r \<le> e \<and> on_chains l1 l2 r) (mset (requests s))
    \<and> list_all2 (\<lambda>r (bi, c). proof_of (pr_sp1 pr) r bi c) rs (zip (boot_infos (as_inputs st)) cs)
    \<and> length cs = length rs \<and> length (boot_infos (as_inputs st)) = length rs
    \<and> as_proofs st = map (\<lambda>c. (c, range_vk_hash (pr_program_config pr))) cs
    \<and> multi_block_vkey (as_inputs st) = range_vk_hash (pr_program_config pr)
    \<and> latest_l1_checkpoint_head (as_inputs st) = cp \<and> prover_address (as_inputs st) = prover"
proof -
  let ?c = "commitments (pr_program_config pr)" and ?vk = "range_vk_hash (pr_program_config pr)"
  obtain rs s1 bps headers s2 where
    q: "get_consecutive_complete_range_proofs (pr_env pr) b e ?c l1 l2 s = (Inr rs, s1)"
    and bps: "map_res (read_range_proof (pr_sp1 pr)) rs = Inr bps"
    and st: "get_agg_proof_stdin (map snd bps) (map fst bps) headers ?vk cp prover = Inr st"
    using assms by (auto simp: agg_proof_witnessgen_def andThen_eq_Ok lift_def ret_def)
  obtain qs where sel: "select (pr_env pr) (\<lambda>r. same_program ?c r \<and> req_status r = Complete
      \<and> req_type r = Range \<and> b \<le> start_block r \<and> end_block r \<le> e \<and> on_chains l1 l2 r) s = (Inr qs, s1)"
    and rs: "rs = sort_key start_block qs"
    using q by (auto simp: get_consecutive_complete_range_proofs_def andThen_eq_Ok ret_def)
  obtain ws where "write_proofs ?vk (map snd bps) = Inr ws" and st': "st =
      \<lparr>as_proofs = ws, as_inputs = \<lparr>boot_infos = map fst bps, latest_l1_checkpoint_head = cp,
         multi_block_vkey = ?vk, prover_address = prover\<rparr>, as_headers = headers\<rparr>"
    using st by (auto simp: get_agg_proof_stdin_def res_bind_Ok_iff)
  then obtain cs where cs: "map snd bps = map Compressed cs" "ws = map (\<lambda>c. (c, ?vk)) cs"
    using write_proofs_Ok_iff by blast
  have len: "length bps = length rs" "length cs = length rs"
    using bps cs(1) list_all2_lengthD by (fastforce simp: map_res_Ok_iff dest: map_eq_imp_length_eq)+
  have "list_all2 (\<lambda>r (bi, c). proof_of (pr_sp1 pr) r bi c) rs (zip (map fst bps) cs)"
    unfolding list_all2_conv_all_nth
  proof (intro conjI allI impI)
    fix k assume k: "k < length rs"
    obtain bi p where bp: "bps ! k = (bi, p)" by fastforce
    have "read_range_proof (pr_sp1 pr) (rs ! k) = Inr (bi, p)"
      using bps k bp by (simp add: map_res_Ok_iff list_all2_conv_all_nth)
    moreover have "p = Compressed (cs ! k)"
      using cs(1) k len bp by (metis nth_map snd_conv)
    ultimately show "case zip (map fst bps) cs ! k of (bi, c) \<Rightarrow> proof_of (pr_sp1 pr) (rs ! k) bi c"
      using k len bp by (simp add: proof_of_def read_range_proof_Ok_iff)
  qed (use len in simp)
  then show ?thesis using st' cs(2) len select_Ok(1) [OF sel] rs
    by (intro exI [of _ rs] exI [of _ cs]) simp
qed

lemma make_proof_request_leaves:
  "leaves (if pr_mock pr \<or> pr_use_local_proving pr then row_proved (req_id r) else row_requested (req_id r))
     (make_proof_request pr r)"
  by (cases "req_type r"; cases "pr_mock pr"; cases "pr_use_local_proving pr")
    (auto simp: make_proof_request_def make_proof_rest_def Let_def intro!: leaves_intros)

subsection \<open>A concrete requester\<close>

definition sample_sp1 :: "unit sp1_env" where
  "sample_sp1 =
     \<lparr>network_request = (\<lambda>_ _. Inr [7]),
      local_prove = (\<lambda>_ _ _ _. Inr \<lparr>pv_proof = Compressed [1], public_values = []\<rparr>),
      execute_program = (\<lambda>_ _ _. Inr ([], \<lparr>total_instruction_count = 1, gas = None, cycle_tracker = (\<lambda>_. None)\<rparr>)),
      join_blocking = (\<lambda>_. Inr ()),
      get_proof_status = (\<lambda>_ _. Inr (\<lparr>deadline = 100, fulfillment = Fulfilled, execution = Executed\<rparr>,
        Some \<lparr>pv_proof = Compressed [1], public_values = []\<rparr>)),
      mock_proof = (\<lambda>_ _ pv. \<lparr>pv_proof = Compressed [1], public_values = pv\<rparr>),
      bincode_serialize = public_values,
      bincode_deserialize = (\<lambda>b. Some \<lparr>pv_proof = Compressed [1], public_values = b\<rparr>),
      onchain_bytes = (\<lambda>_. Some [9]),
      read_boot = (\<lambda>b. Some \<lparr>l1Head = [3], l2PreRoot = [], l2PostRoot = [], l2BlockNumber = 5,
        rollupConfigHash = []\<rparr>)\<rparr>"

definition sample_kona :: "(single_chain_host, unit) kona_env" where
  "sample_kona = \<lparr>start_server = (\<lambda>_ _. Inr ()), witness_client = (\<lambda>_ _. Inr ())\<rparr>"

definition sample_host :: "('z io_scheme, single_chain_host, unit, unit) succinct_host" where
  "sample_host = eth_host (\<lambda>h. [word_of_int (number h)]) (\<lambda>_ _ _. []) sample_env sample_fetcher sample_kona Inr"

definition sample_requester :: "('z world_scheme, single_chain_host, unit, unit) requester" where
  "sample_requester =
     \<lparr>pr_host = sample_host, pr_env = sample_db, pr_sp1 = sample_sp1, pr_network_prover = True,
      pr_local_prover = False,
      pr_program_config = \<lparr>range_vk_hash = replicate 8 0, commitments = sample_commitments\<rparr>,
      pr_mock = False, pr_range_strategy = Reserved, pr_agg_strategy = Reserved,
      pr_agg_mode = Groth16Mode, pr_safe_db_fallback = False, pr_use_local_proving = False\<rparr>"

lemma sample_requester_simps [simp]:
  "pr_env sample_requester = sample_db" "pr_sp1 sample_requester = sample_sp1"
  "pr_program_config sample_requester
     = \<lparr>range_vk_hash = replicate 8 0, commitments = sample_commitments\<rparr>"
  "rpc sample_db = sample_env"
  by (simp_all add: sample_requester_def sample_db_def)

lemma sample_host_ok: "op_succinct_host (pr_host sample_requester)"
  by (simp add: sample_requester_def sample_host_def eth.op_succinct_host_axioms)

subsection \<open>Properties\<close>

text \<open>
  C28. A proof request only works on its own row: whatever fails, \<open>make_proof_request\<close> adds and
  removes no row, leaves every other row as it was, and never marks its row failed, relayed or
  cancelled; when it returns normally, the row is complete with a proof (mock and local proving)
  or in status Prove with a proof request identifier and time (network proving).
\<close>

theorem make_proof_request_lifecycle:
  assumes "op_succinct_host (pr_host pr)" and "make_proof_request pr r s = (x, s')"
  shows "(\<exists>g. requests s' = map g (requests s) \<and> row_change (req_id r) working g)
    \<and> next_id s' = next_id s
    \<and> (x = Ok () \<longrightarrow> (if pr_mock pr \<or> pr_use_local_proving pr then row_proved (req_id r) s'
         else row_requested (req_id r) s'))"
  using touchesD [OF make_proof_request_touches [OF assms(1)] assms(2)]
    make_proof_request_leaves [of pr r] assms(2)
  by (auto simp: leaves_def)

theorem make_proof_request_lifecycle_witness:
  "\<exists>x s'. make_proof_request sample_requester (sample_range 2 Unrequested 9 12) sample_world = (x, s')
     \<and> (x = Ok () \<longrightarrow> row_requested 2 s') \<and> next_id s' = 4"
proof -
  obtain x s' where run: "make_proof_request sample_requester (sample_range 2 Unrequested 9 12) sample_world = (x, s')"
    by fastforce
  show ?thesis
    using make_proof_request_lifecycle [OF sample_host_ok run] run
    by (simp add: sample_requester_def sample_world_def sample_range_def)
qed

text \<open>
  A failed request is retried safely: for every fate of the statements, \<open>handle_failed_request\<close>
  at most marks the row of the request as failed, and appends either nothing or, for a range
  request that is unexecutable or has failed more than twice, exactly two unrequested range
  requests that cut its blocks into two non-empty halves; never the halves without the mark.
\<close>

theorem handle_failed_request_retries:
  assumes "handle_failed_request pr r status s = (x, s')"
    and "req_type r = Range \<Longrightarrow>
      0 \<le> start_block r \<and> start_block r \<le> end_block r \<and> end_block r < 2 ^ 62"
  shows "marked r s s' \<or> replaced pr r status s s'"
  using assms by (rule handle_failed_cases)

theorem handle_failed_request_retries_witness:
  "\<exists>x s'. handle_failed_request sample_requester (sample_range 2 Prove 9 12) Unexecutable sample_world = (x, s')
     \<and> (marked (sample_range 2 Prove 9 12) sample_world s'
        \<or> replaced sample_requester (sample_range 2 Prove 9 12) Unexecutable sample_world s')"
proof -
  obtain x s' where run:
    "handle_failed_request sample_requester (sample_range 2 Prove 9 12) Unexecutable sample_world = (x, s')"
    by fastforce
  show ?thesis
    using handle_failed_request_retries [OF run] run by (simp add: sample_range_def)
qed

text \<open>
  The input of an aggregation proof is built from the table as it is: when
  \<open>agg_proof_witnessgen\<close> succeeds, its boot infos and compressed proofs are those stored in the
  complete range requests inside the interval, one each and sorted by start block, every proof is
  written with the range verification key, and the checkpoint and prover address are the given
  ones.
\<close>

theorem agg_proof_witnessgen_inputs:
  assumes "agg_proof_witnessgen pr b e cp l1 l2 prover s = (Inr (AggStdin st), s')"
  shows "\<exists>rs cs. sorted (map start_block rs)
    \<and> mset rs = filter_mset (\<lambda>r. same_program (commitments (pr_program_config pr)) r
        \<and> req_status r = Complete \<and> req_type r = Range
        \<and> b \<le> start_block r \<and> end_block r \<le> e \<and> on_chains l1 l2 r) (mset (requests s))
    \<and> list_all2 (\<lambda>r (bi, c). proof_of (pr_sp1 pr) r bi c) rs (zip (boot_infos (as_inputs st)) cs)
    \<and> length cs = length rs \<and> length (boot_infos (as_inputs st)) = length rs
    \<and> as_proofs st = map (\<lambda>c. (c, range_vk_hash (pr_program_config pr))) cs
    \<and> multi_block_vkey (as_inputs st) = range_vk_hash (pr_program_config pr)
    \<and> latest_l1_checkpoint_head (as_inputs st) = cp \<and> prover_address (as_inputs st) = prover"
  using assms by (rule agg_witnessgen_Ok)

definition proved_range :: "int \<Rightarrow> int \<Rightarrow> int \<Rightarrow> request" where
  "proved_range i b e = (sample_range i Complete b e)\<lparr>req_proof := Some [1]\<rparr>"

lemma sample_agg_run:
  fixes s :: "'z world_scheme"
  assumes rows: "get_consecutive_complete_range_proofs sample_db 1 9 sample_commitments 10 20 s
      = (Inr [proved_range 2 1 5, proved_range 1 5 9], s\<lparr>tick := Suc (tick s)\<rparr>)"
  shows "\<exists>st s'. agg_proof_witnessgen sample_requester 1 9 [3] 10 20 [0] s = (Inr (AggStdin st), s')"
proof -
  let ?bi = "\<lparr>l1Head = [3], l2PreRoot = [], l2PostRoot = [], l2BlockNumber = 5, rollupConfigHash = []\<rparr>"
  have up: "[3..3] = [3::int]" by (simp add: upto.simps)
  have head: "get_l1_header sample_env b s = (Ok (blk_header (sample_chain 3)), s\<lparr>tick := Suc (tick s)\<rparr>)"
    if "b = ByHash [3] \<or> b = ByNumber 3" for b and s :: "'z world_scheme"
    using that by (auto simp: get_l1_header_def get_header_def andThen_def call_def ret_def sample_block_def)
  have read: "read_range_proof sample_sp1 (proved_range i b e) = Inr (?bi, Compressed [1])" for i b e
    by (simp add: read_range_proof_def proved_range_def sample_sp1_def unwrap_def)
  have e: "get_earliest_l1_head_in_batch sample_env [?bi, ?bi] s
      = (Ok (blk_header (sample_chain 3)), s\<lparr>tick := Suc (Suc (tick s))\<rparr>)" for s :: "'z world_scheme"
    by (simp add: get_earliest_l1_head_in_batch_def andThen_def head sample_number u64_max_def
        ret_def lift_def unwrap_def)
  have f: "fetch_headers_in_range sample_env 3 3 s
      = (Ok [blk_header (sample_chain 3)], s\<lparr>tick := Suc (tick s)\<rparr>)" for s :: "'z world_scheme"
    by (simp add: fetch_headers_in_range_def up andThen_def attempt_def onErr_def head ret_def lift_def)
  have "get_header_preimages sample_env [?bi, ?bi] [3] s
      = (Ok [blk_header (sample_chain 3)], s\<lparr>tick := Suc (Suc (Suc (Suc (tick s))))\<rparr>)" for s :: "'z world_scheme"
    by (simp add: get_header_preimages_def andThen_def e f head sample_number)
  then show ?thesis
    by (simp add: agg_proof_witnessgen_def andThen_def rows read lift_def ret_def get_agg_proof_stdin_def)
qed

theorem agg_proof_witnessgen_inputs_witness:
  "\<exists>st s'. agg_proof_witnessgen sample_requester 1 9 [3] 10 20 [0]
        (empty_world\<lparr>requests := [proved_range 1 5 9, proved_range 2 1 5]\<rparr>) = (Inr (AggStdin st), s')
     \<and> length (boot_infos (as_inputs st)) = 2 \<and> prover_address (as_inputs st) = [0]"
proof -
  let ?w = "empty_world\<lparr>requests := [proved_range 1 5 9, proved_range 2 1 5]\<rparr>"
  have sel: "get_consecutive_complete_range_proofs sample_db 1 9 sample_commitments 10 20 ?w
      = (Inr [proved_range 2 1 5, proved_range 1 5 9], ?w\<lparr>tick := Suc (tick ?w)\<rparr>)"
    by (simp add: get_consecutive_complete_range_proofs_def select_def db_read_def andThen_def ret_def
        sample_db_def empty_world_def sample_range_def new_range_request_def proved_range_def
        sample_commitments_def same_program_def on_chains_def default_request_def)
  from sample_agg_run [OF sel]
  obtain st s' where run: "agg_proof_witnessgen sample_requester 1 9 [3] 10 20 [0] ?w = (Inr (AggStdin st), s')"
    by blast
  obtain rs where "length (boot_infos (as_inputs st)) = length rs" "prover_address (as_inputs st) = [0]"
    "mset rs = filter_mset (\<lambda>r. same_program (commitments (pr_program_config
            (sample_requester :: (world, single_chain_host, unit, unit) requester))) r
        \<and> req_status r = Complete \<and> req_type r = Range
        \<and> 1 \<le> start_block r \<and> end_block r \<le> 9 \<and> on_chains 10 20 r) (mset (requests ?w))"
    using agg_proof_witnessgen_inputs [OF run] by blast
  moreover from this(3) have "length rs = 2"
    unfolding size_mset [symmetric]
    by (simp add: sample_commitments_def proved_range_def sample_range_def
        new_range_request_def default_request_def same_program_def on_chains_def)
  ultimately show ?thesis using run by metis
qed

end
