(* ===== verification/Proposer.thy ===== *)
theory Proposer
  imports ProofRequester RangeUtils
begin

text \<open>
  The validity proposer, \<open>validity/src/proposer.rs\<close>, with \<open>validity/src/contract.rs\<close>: every
  method of its loop, the task map of the spawned proof requests, and the interleaving of the loop
  with the tasks as a step relation. Contracts and the signer answer through \<open>contract_env\<close>;
  transactions sent are recorded in the state.
\<close>

subsection \<open>Contracts and transactions\<close>

text \<open>
  \<open>CreateGame\<close> and \<open>ProposeL2Output\<close> carry the arguments of the contract calls; the packed
  extra data of a game is computed by \<open>game_extra_data\<close>.
\<close>

datatype tx =
    CheckpointBlockHash int
  | CreateGame int b256 bytes int
  | ProposeL2Output b256 b256 int int bytes address

record tx_receipt =
  tx_status :: bool
  tx_receipt_hash :: b256

record succinct_config =
  sc_aggregation_vkey :: b256
  sc_range_vkey_commitment :: b256
  sc_rollup_config_hash :: b256

record contract_env =
  latest_block_number :: "nat \<Rightarrow> error + int"
  submission_interval :: "nat \<Rightarrow> error + int"
  op_succinct_configs :: "b256 \<Rightarrow> nat \<Rightarrow> error + succinct_config"
  init_bonds :: "int \<Rightarrow> nat \<Rightarrow> error + int"
  send_transaction :: "tx \<Rightarrow> nat \<Rightarrow> error + tx_receipt"

definition game_extra_data :: "int \<Rightarrow> int \<Rightarrow> address \<Rightarrow> b256 \<Rightarrow> bytes \<Rightarrow> bytes" where
  "game_extra_data e checkpoint prover config_name prf =
     u256_be e @ u256_be checkpoint @ prover @ config_name @ prf"

subsection \<open>The proposer\<close>

record requester_config =
  rc_l1_chain_id :: int
  rc_l2_chain_id :: int
  rc_prover_address :: address
  rc_l2oo_address :: address
  rc_dgf_address :: address
  rc_range_proof_interval :: int
  rc_submission_interval :: int
  rc_max_concurrent_witness_gen :: int
  rc_max_concurrent_proof_requests :: int
  rc_config_name_hash :: b256
  rc_mock :: bool
  rc_use_local_proving :: bool

text \<open>
  A task of the map: spawned but not yet scheduled, past its first statement, or finished with
  the result its handle holds. A task whose entry is overwritten in the map keeps running
  detached.
\<close>

datatype task_state = Spawned | Begun | Finished "unit res"

type_synonym task = "int \<times> task_state \<times> request"

record proposer_state = world +
  tasks :: "task list"
  detached :: "task list"
  sent_txs :: "tx list"

record ('args, 'wit, 'stdin) proposer =
  p_config :: requester_config
  p_requester :: "(proposer_state, 'args, 'wit, 'stdin) requester"
  p_contracts :: contract_env
  p_hash_slow :: "header \<Rightarrow> b256"
  p_task_order :: "nat \<Rightarrow> nat list"
  p_loop_interval :: int

abbreviation p_env :: "('args, 'wit, 'stdin) proposer \<Rightarrow> db_env" where
  "p_env p \<equiv> pr_env (p_requester p)"

abbreviation p_commitments :: "('args, 'wit, 'stdin) proposer \<Rightarrow> commitment_config" where
  "p_commitments p \<equiv> commitments (pr_program_config (p_requester p))"

abbreviation p_l1 :: "('args, 'wit, 'stdin) proposer \<Rightarrow> int" where
  "p_l1 p \<equiv> rc_l1_chain_id (p_config p)"

abbreviation p_l2 :: "('args, 'wit, 'stdin) proposer \<Rightarrow> int" where
  "p_l2 p \<equiv> rc_l2_chain_id (p_config p)"

definition send_tx :: "('args, 'wit, 'stdin) proposer \<Rightarrow> tx \<Rightarrow> (proposer_state, tx_receipt) op" where
  "send_tx p x =
     andThen (update (\<lambda>s. s\<lparr>sent_txs := sent_txs s @ [x]\<rparr>)) (\<lambda>_.
       call (send_transaction (p_contracts p) x))"

definition get_latest_proposed_block_number ::
  "('args, 'wit, 'stdin) proposer \<Rightarrow> (proposer_state, int) op" where
  "get_latest_proposed_block_number p =
     andThen (call (latest_block_number (p_contracts p))) (\<lambda>n. lift (u256_to_u64 n))"

subsection \<open>Start\<close>

text \<open>
  The check and the taking of the chain lock in \<open>Proposer::new\<close>. The keys come from the SP1 SDK:
  \<open>range_vk\<close> is \<open>range_vk.vk.hash_u32()\<close>, \<open>agg_vk\<close> the parsed \<open>agg_vk.bytes32()\<close> and
  \<open>config_hash\<close> the hash of the loaded rollup configuration, if any.
\<close>

definition acquire_chain_lock :: "db_env \<Rightarrow> int \<Rightarrow> int \<Rightarrow> int \<Rightarrow> ('z world_scheme, unit) op" where
  "acquire_chain_lock env l1 l2 loop_interval =
     andThen (is_chain_locked env l1 l2 loop_interval) (\<lambda>is_locked.
       if is_locked
       then throw (Failure (Msg ''There is another proposer for the same chain connected to the database.''))
       else add_chain_lock env l1 l2)"

definition proposer_new ::
  "db_env \<Rightarrow> requester_config \<Rightarrow> int \<Rightarrow> vkey \<Rightarrow> b256 \<Rightarrow> b256 option \<Rightarrow> ('z world_scheme, program_config) op"
  where
  "proposer_new env rc loop_interval range_vk agg_vk config_hash =
     andThen (acquire_chain_lock env (rc_l1_chain_id rc) (rc_l2_chain_id rc) loop_interval) (\<lambda>_.
     andThen (lift (unwrap config_hash ''unwrap'')) (\<lambda>h.
       ret \<lparr>range_vk_hash = range_vk,
            commitments = \<lparr>cc_range_vkey_commitment = u32_to_u8 range_vk, cc_agg_vkey_hash = agg_vk,
              cc_rollup_config_hash = h\<rparr>\<rparr>))"

subsection \<open>New range requests\<close>

definition proof_mode_of :: "('args, 'wit, 'stdin) proposer \<Rightarrow> request_mode" where
  "proof_mode_of p = (if rc_mock (p_config p) then Mock else Real)"

definition new_range_requests ::
  "('args, 'wit, 'stdin) proposer \<Rightarrow> range list \<Rightarrow> (proposer_state, request list) op" where
  "new_range_requests p ranges =
     traverse (\<lambda>(b, e). create_range_request (p_env p) (proof_mode_of p) b e
                 (cc_range_vkey_commitment (p_commitments p)) (cc_rollup_config_hash (p_commitments p))
                 (p_l1 p) (p_l2 p)) ranges"

definition add_new_ranges :: "('args, 'wit, 'stdin) proposer \<Rightarrow> (proposer_state, unit) op" where
  "add_new_ranges p =
     andThen (get_latest_proposed_block_number p) (\<lambda>latest.
     andThen (host_finalized_l2_block (pr_host (p_requester p)) latest) (\<lambda>finalized.
       case finalized of
         None \<Rightarrow> ret ()
       | Some finalized_block_number \<Rightarrow>
           andThen (fetch_ranges_after_block (p_env p) active_statuses (as_i64 latest)
                      (p_commitments p) (p_l1 p) (p_l2 p)) (\<lambda>ranges.
           andThen (lift (case get_ranges_to_prove
                        (find_gaps (as_i64 latest) (as_i64 finalized_block_number) (sort_key fst ranges))
                        (as_i64 (rc_range_proof_interval (p_config p))) of
                      None \<Rightarrow> Inl Diverged | Some rs \<Rightarrow> Ok rs)) (\<lambda>ranges_to_prove.
             if ranges_to_prove = [] then ret ()
             else andThen (new_range_requests p ranges_to_prove) (insert_requests (p_env p))))))"

subsection \<open>Requests in status Prove\<close>

definition process_proof_request_status ::
  "('args, 'wit, 'stdin) proposer \<Rightarrow> request \<Rightarrow> (proposer_state, unit) op" where
  "process_proof_request_status p r =
     (case proof_request_id r of
        None \<Rightarrow> ret ()
      | Some rid \<Rightarrow>
          if rc_use_local_proving (p_config p) then ret ()
          else if \<not> pr_network_prover (p_requester p)
          then throw (Failure (Msg ''Expected NetworkProver for network proving mode''))
          else
            andThen (lift (b256_from_slice rid)) (\<lambda>h.
            andThen (call (get_proof_status (pr_sp1 (p_requester p)) h)) (\<lambda>(status, prf).
            andThen (now (p_env p)) (\<lambda>current_time.
              if deadline status < current_time
              then
                andThen (onErr (handle_failed_request (p_requester p) r (execution status))
                          (\<lambda>_. gauge_increment ProofRequestRetryCount)
                          (\<lambda>e. andThen (gauge_increment RetryErrorCount) (\<lambda>_. throw (Failure e)))) (\<lambda>_.
                  gauge_increment ProofRequestTimeoutErrorCount)
              else if fulfillment status = Fulfilled
              then
                andThen (lift (unwrap prf ''unwrap'')) (\<lambda>pf.
                andThen (case pv_proof pf of
                    Compressed _ \<Rightarrow> ret (bincode_serialize (pr_sp1 (p_requester p)) pf)
                  | Groth16 _ \<Rightarrow> lift (unwrap (onchain_bytes (pr_sp1 (p_requester p)) pf) ''bytes'')
                  | Plonk _ \<Rightarrow> lift (unwrap (onchain_bytes (pr_sp1 (p_requester p)) pf) ''bytes'')
                  | Core _ \<Rightarrow> throw (Failure (Msg ''Core proofs are not supported.''))) (\<lambda>b.
                andThen (update_proof_to_complete (p_env p) (req_id r) b) (\<lambda>_.
                  update_prove_duration (p_env p) (req_id r))))
              else if fulfillment status = Unfulfillable
              then
                andThen (handle_failed_request (p_requester p) r (execution status)) (\<lambda>_.
                  gauge_increment ProofRequestRetryCount)
              else ret ()))))"

definition handle_proving_requests :: "('args, 'wit, 'stdin) proposer \<Rightarrow> (proposer_state, unit) op" where
  "handle_proving_requests p =
     (if rc_use_local_proving (p_config p) then ret ()
      else andThen (fetch_requests_by_status (p_env p) Prove (p_commitments p) (p_l1 p) (p_l2 p))
             (\<lambda>rs. forEach (process_proof_request_status p) rs))"

subsection \<open>Aggregation proofs\<close>

fun contiguous_end :: "int \<Rightarrow> range list \<Rightarrow> int" where
  "contiguous_end current_end [] = current_end"
| "contiguous_end current_end (r # rs) =
     (if fst r \<noteq> current_end then current_end else contiguous_end (snd r) rs)"

definition get_highest_proven_contiguous_block :: "range list \<Rightarrow> int option" where
  "get_highest_proven_contiguous_block completed =
     (case completed of [] \<Rightarrow> None | r # rs \<Rightarrow> Some (contiguous_end (snd r) rs))"

text \<open>The L1 checkpoint: reused from a failed request, or a new transaction.\<close>

definition checkpoint_l1_block ::
  "('args, 'wit, 'stdin) proposer \<Rightarrow> (bytes \<times> int) option \<Rightarrow> (proposer_state, b256 \<times> int) op" where
  "checkpoint_l1_block p existing =
     (case existing of
        Some (h, n) \<Rightarrow> andThen (lift (b256_from_slice h)) (\<lambda>h. ret (h, n))
      | None \<Rightarrow>
          andThen (get_l1_header (rpc (p_env p)) Latest) (\<lambda>latest_header.
          andThen (send_tx p (CheckpointBlockHash (number latest_header))) (\<lambda>receipt.
            if \<not> tx_status receipt
            then throw (Failure (Msg ''Checkpoint block transaction reverted''))
            else ret (p_hash_slow p latest_header, as_i64 (number latest_header)))))"

definition create_aggregation_proofs :: "('args, 'wit, 'stdin) proposer \<Rightarrow> (proposer_state, unit) op"
  where
  "create_aggregation_proofs p =
     andThen (get_latest_proposed_block_number p) (\<lambda>n. let latest = as_i64 n in
     andThen (fetch_active_agg_proofs_count (p_env p) latest (p_commitments p) (p_l1 p) (p_l2 p)) (\<lambda>active.
       if 0 < active then ret ()
       else
         andThen (fetch_completed_ranges (p_env p) (p_commitments p) latest (p_l1 p) (p_l2 p)) (\<lambda>completed.
           case get_highest_proven_contiguous_block (sort_key fst completed) of
             None \<Rightarrow> ret ()
           | Some highest \<Rightarrow>
               andThen (call (submission_interval (p_contracts p))) (\<lambda>si.
               andThen (lift (u256_to_u64 si)) (\<lambda>contract_interval.
                 if as_i64 (max contract_interval (rc_submission_interval (p_config p)))
                      \<le> wrap_i64 (highest - latest)
                 then
                   andThen (fetch_failed_agg_request_with_checkpointed_block_hash (p_env p) latest highest
                              (p_commitments p) (p_l1 p) (p_l2 p)) (\<lambda>existing.
                   andThen (checkpoint_l1_block p existing) (\<lambda>(cp_hash, cp_number).
                   andThen (now (p_env p)) (\<lambda>t.
                     insert_request (p_env p)
                       (new_agg_request t (proof_mode_of p) latest highest
                          (cc_range_vkey_commitment (p_commitments p)) (cc_agg_vkey_hash (p_commitments p))
                          (cc_rollup_config_hash (p_commitments p)) (p_l1 p) (p_l2 p)
                          cp_number cp_hash (rc_prover_address (p_config p))))))
                 else ret ())))))"

subsection \<open>Requesting queued proofs\<close>

definition lookup_task :: "int \<Rightarrow> task list \<Rightarrow> (task_state \<times> request) option" where
  "lookup_task i ts = map_of ts i"

text \<open>
  \<open>HashMap::insert\<close>: an entry with the same key is replaced; dropping its join handle detaches
  the task.
\<close>

definition insert_task :: "int \<Rightarrow> task_state \<Rightarrow> request \<Rightarrow> (proposer_state, unit) op" where
  "insert_task i st r =
     update (\<lambda>s. s\<lparr>tasks := filter (\<lambda>t. fst t \<noteq> i) (tasks s) @ [(i, st, r)],
                 detached := detached s @ filter (\<lambda>t. fst t = i) (tasks s)\<rparr>)"

definition check_neighbours :: "request \<Rightarrow> request \<Rightarrow> bool" where
  "check_neighbours prev cur \<longleftrightarrow>
     \<not> (end_block prev \<noteq> start_block cur) \<and> \<not> (start_block cur < end_block prev)"

fun check_consecutive :: "request list \<Rightarrow> bool" where
  "check_consecutive (prev # cur # rest) \<longleftrightarrow>
     check_neighbours prev cur \<and> check_consecutive (cur # rest)"
| "check_consecutive _ \<longleftrightarrow> True"

definition validate_aggregation_request :: "request list \<Rightarrow> request \<Rightarrow> bool" where
  "validate_aggregation_request range_proofs agg_request =
     (if range_proofs = [] then False
      else if start_block (hd range_proofs) \<noteq> start_block agg_request then False
      else if end_block (last range_proofs) \<noteq> end_block agg_request then False
      else check_consecutive range_proofs)"

definition get_next_unrequested_proof ::
  "('args, 'wit, 'stdin) proposer \<Rightarrow> (proposer_state, request option) op" where
  "get_next_unrequested_proof p =
     andThen (get_latest_proposed_block_number p) (\<lambda>n.
     andThen (fetch_unrequested_agg_proof (p_env p) (as_i64 n) (p_commitments p) (p_l1 p) (p_l2 p)) (\<lambda>agg.
     andThen
       (case agg of
          None \<Rightarrow> ret False
        | Some a \<Rightarrow>
            andThen (get_consecutive_complete_range_proofs (p_env p) (start_block a) (end_block a)
                       (p_commitments p) (p_l1 p) (p_l2 p)) (\<lambda>range_proofs.
              if validate_aggregation_request range_proofs a then ret True
              else andThen (gauge_increment AggProofValidationErrorCount) (\<lambda>_. ret False))) (\<lambda>valid.
       if valid then ret agg
       else fetch_first_unrequested_range_proof (p_env p) (as_i64 n) (p_commitments p) (p_l1 p) (p_l2 p))))"

definition request_queued_proofs :: "('args, 'wit, 'stdin) proposer \<Rightarrow> (proposer_state, unit) op" where
  "request_queued_proofs p =
     andThen (fetch_request_count (p_env p) WitnessGeneration (p_commitments p) (p_l1 p) (p_l2 p)) (\<lambda>witness_gen.
     andThen (fetch_request_count (p_env p) Execution (p_commitments p) (p_l1 p) (p_l2 p)) (\<lambda>execution_count.
     andThen (fetch_request_count (p_env p) Prove (p_commitments p) (p_l1 p) (p_l2 p)) (\<lambda>prove.
       if as_i64 (rc_max_concurrent_proof_requests (p_config p))
            \<le> wrap_i64 (wrap_i64 (witness_gen + execution_count) + prove)
       then ret ()
       else if as_i64 (rc_max_concurrent_witness_gen (p_config p)) \<le> witness_gen then ret ()
       else
         andThen (get_next_unrequested_proof p) (\<lambda>next.
           case next of
             None \<Rightarrow> ret ()
           | Some r \<Rightarrow> insert_task (req_id r) Spawned r))))"

subsection \<open>Submitting aggregation proofs\<close>

definition validity_game_type :: int where "validity_game_type = 6"

text \<open>\<open>U256::from\<close> of a negative number panics.\<close>

definition u256_from_i64 :: "int \<Rightarrow> int res" where
  "u256_from_i64 x = (if 0 \<le> x then Ok x else Inl (Panic ''U256::from''))"

definition relay_transaction ::
  "('args, 'wit, 'stdin) proposer \<Rightarrow> request \<Rightarrow> b256 \<Rightarrow> (proposer_state, tx) op" where
  "relay_transaction p r root =
     (if rc_dgf_address (p_config p) \<noteq> address_zero
      then
        andThen (call (init_bonds (p_contracts p) validity_game_type)) (\<lambda>bond.
        andThen (lift (unwrap (checkpointed_l1_block_number r) ''unwrap'')) (\<lambda>cp.
        andThen (lift (unwrap (req_proof r) ''unwrap'')) (\<lambda>prf.
          ret (CreateGame validity_game_type root
            (game_extra_data (as_u64 (end_block r)) (as_u64 cp) (rc_prover_address (p_config p))
               (rc_config_name_hash (p_config p)) prf) bond))))
      else
        andThen (lift (u256_from_i64 (end_block r))) (\<lambda>e.
        andThen (lift (unwrap (checkpointed_l1_block_number r) ''unwrap'')) (\<lambda>cp.
        andThen (lift (u256_from_i64 cp)) (\<lambda>cp.
        andThen (lift (unwrap (req_proof r) ''unwrap'')) (\<lambda>prf.
          ret (ProposeL2Output (rc_config_name_hash (p_config p)) root e cp prf
                 (rc_prover_address (p_config p))))))))"

definition relay_aggregation_proof ::
  "('args, 'wit, 'stdin) proposer \<Rightarrow> request \<Rightarrow> (proposer_state, b256) op" where
  "relay_aggregation_proof p r =
     andThen (get_l2_output_at_block (rpc (p_env p)) (as_u64 (end_block r))) (\<lambda>out.
     andThen (relay_transaction p r (output_root out)) (\<lambda>x.
     andThen (send_tx p x) (\<lambda>receipt.
       if \<not> tx_status receipt then throw (Failure (Msg ''Transaction reverted''))
       else ret (tx_receipt_hash receipt))))"

definition submit_agg_proofs :: "('args, 'wit, 'stdin) proposer \<Rightarrow> (proposer_state, unit) op" where
  "submit_agg_proofs p =
     andThen (get_latest_proposed_block_number p) (\<lambda>n.
     andThen (fetch_completed_agg_proof_after_block (p_env p) (as_i64 n) (p_commitments p) (p_l1 p) (p_l2 p)) (\<lambda>completed.
       case completed of
         None \<Rightarrow> ret ()
       | Some r \<Rightarrow>
           andThen (counting RelayAggProofErrorCount (relay_aggregation_proof p r)) (\<lambda>hash.
             update_request_to_relayed (p_env p) (req_id r) hash (rc_l2oo_address (p_config p)))))"

subsection \<open>Validation, orphans, ongoing tasks\<close>

definition validate_contract_config :: "('args, 'wit, 'stdin) proposer \<Rightarrow> (proposer_state, unit) op" where
  "validate_contract_config p =
     andThen (call (op_succinct_configs (p_contracts p) (rc_config_name_hash (p_config p)))) (\<lambda>c.
       if sc_rollup_config_hash c \<noteq> cc_rollup_config_hash (p_commitments p)
          \<or> sc_aggregation_vkey c \<noteq> cc_agg_vkey_hash (p_commitments p)
          \<or> sc_range_vkey_commitment c \<noteq> cc_range_vkey_commitment (p_commitments p)
       then throw (Failure (Msg ''Config mismatches detected.''))
       else ret ())"

definition fail_if_orphaned :: "('args, 'wit, 'stdin) proposer \<Rightarrow> request \<Rightarrow> (proposer_state, unit) op" where
  "fail_if_orphaned p r =
     andThen (asks (\<lambda>s. lookup_task (req_id r) (tasks s))) (\<lambda>t.
       if t = None then update_request_status (p_env p) (req_id r) Failed else ret ())"

definition set_orphaned_tasks_to_failed :: "('args, 'wit, 'stdin) proposer \<Rightarrow> (proposer_state, unit) op"
  where
  "set_orphaned_tasks_to_failed p =
     andThen (fetch_requests_by_status (p_env p) WitnessGeneration (p_commitments p) (p_l1 p) (p_l2 p)) (\<lambda>ws.
     andThen (fetch_requests_by_status (p_env p) Execution (p_commitments p) (p_l1 p) (p_l2 p)) (\<lambda>es.
       forEach (fail_if_orphaned p) (ws @ es)))"

definition is_finished :: "task_state \<Rightarrow> bool" where
  "is_finished st = (case st of Finished _ \<Rightarrow> True | _ \<Rightarrow> False)"

definition retry_task :: "('args, 'wit, 'stdin) proposer \<Rightarrow> request \<Rightarrow> (proposer_state, unit) op" where
  "retry_task p r =
     onErr (handle_failed_request (p_requester p) r UnspecifiedExecution)
       (\<lambda>_. gauge_increment ProofRequestRetryCount)
       (\<lambda>e. gauge_increment RetryErrorCount)"

text \<open>\<open>tasks.remove(&id)\<close> and the handling of the result of the task.\<close>

definition reap_task :: "('args, 'wit, 'stdin) proposer \<Rightarrow> int \<Rightarrow> (proposer_state, unit) op" where
  "reap_task p i =
     andThen (asks (\<lambda>s. lookup_task i (tasks s))) (\<lambda>t.
     andThen (update (\<lambda>s. s\<lparr>tasks := filter (\<lambda>t. fst t \<noteq> i) (tasks s)\<rparr>)) (\<lambda>_.
       case t of
         Some (Finished (Inl _), r) \<Rightarrow> retry_task p r
       | _ \<Rightarrow> ret ()))"

definition handle_ongoing_tasks :: "('args, 'wit, 'stdin) proposer \<Rightarrow> (proposer_state, unit) op" where
  "handle_ongoing_tasks p =
     andThen (asks (\<lambda>s. map fst (filter (\<lambda>t. is_finished (fst (snd t))) (scan (p_task_order p (tick s)) (tasks s)))))
       (\<lambda>completed. forEach (reap_task p) completed)"

subsection \<open>The loop\<close>

definition initialize_proposer :: "('args, 'wit, 'stdin) proposer \<Rightarrow> (proposer_state, unit) op" where
  "initialize_proposer p =
     andThen (validate_contract_config p) (\<lambda>_.
     andThen (delete_all_requests_with_statuses (p_env p) [Unrequested, Execution, WitnessGeneration]
                (p_l1 p) (p_l2 p)) (\<lambda>_.
       cancel_prove_requests_with_different_commitment_config (p_env p) (p_commitments p) (p_l1 p) (p_l2 p)))"

definition log_proposer_metrics :: "('args, 'wit, 'stdin) proposer \<Rightarrow> (proposer_state, unit) op" where
  "log_proposer_metrics p =
     andThen (get_latest_proposed_block_number p) (\<lambda>latest.
     andThen (fetch_completed_ranges (p_env p) (p_commitments p) (as_i64 latest) (p_l1 p) (p_l2 p)) (\<lambda>completed.
     let highest = (case get_highest_proven_contiguous_block completed of None \<Rightarrow> latest | Some b \<Rightarrow> as_u64 b) in
     andThen (fetch_request_count (p_env p) Unrequested (p_commitments p) (p_l1 p) (p_l2 p)) (\<lambda>unrequested.
     andThen (fetch_request_count (p_env p) Prove (p_commitments p) (p_l1 p) (p_l2 p)) (\<lambda>prove.
     andThen (fetch_request_count (p_env p) Execution (p_commitments p) (p_l1 p) (p_l2 p)) (\<lambda>execution_count.
     andThen (fetch_request_count (p_env p) WitnessGeneration (p_commitments p) (p_l1 p) (p_l2 p)) (\<lambda>witnessgen.
     andThen (gauge_set CurrentUnrequestedProofs unrequested) (\<lambda>_.
     andThen (gauge_set CurrentProvingProofs prove) (\<lambda>_.
     andThen (gauge_set CurrentWitnessgenProofs witnessgen) (\<lambda>_.
     andThen (gauge_set CurrentExecuteProofs execution_count) (\<lambda>_.
     andThen (gauge_set HighestProvenContiguousBlock highest) (\<lambda>_.
     andThen (gauge_set LatestContractL2Block latest) (\<lambda>_.
     andThen (get_l2_header (rpc (p_env p)) Latest) (\<lambda>unsafe_head.
     andThen (gauge_set L2UnsafeHeadBlock (number unsafe_head)) (\<lambda>_.
     andThen (get_l2_header (rpc (p_env p)) Finalized) (\<lambda>finalized.
     andThen (gauge_set L2FinalizedBlock (number finalized)) (\<lambda>_.
     andThen (call (submission_interval (p_contracts p))) (\<lambda>si.
     andThen (lift (u256_to_u64 si)) (\<lambda>contract_interval.
       gauge_set MinBlockToProveToAgg
         (wrap_u64 (latest + max contract_interval (rc_submission_interval (p_config p))))))))))))))))))))))"

definition run_loop_iteration :: "('args, 'wit, 'stdin) proposer \<Rightarrow> (proposer_state, unit) op" where
  "run_loop_iteration p =
     andThen (validate_contract_config p) (\<lambda>_.
     andThen (log_proposer_metrics p) (\<lambda>_.
     andThen (handle_ongoing_tasks p) (\<lambda>_.
     andThen (set_orphaned_tasks_to_failed p) (\<lambda>_.
     andThen (handle_proving_requests p) (\<lambda>_.
     andThen (add_new_ranges p) (\<lambda>_.
     andThen (create_aggregation_proofs p) (\<lambda>_.
     andThen (request_queued_proofs p) (\<lambda>_.
     andThen (submit_agg_proofs p) (\<lambda>_.
       update_chain_lock (p_env p) (p_l1 p) (p_l2 p))))))))))"

text \<open>One turn of \<open>run\<close>: an error is counted, a panic ends the process.\<close>

definition run_turn :: "('args, 'wit, 'stdin) proposer \<Rightarrow> (proposer_state, unit) op" where
  "run_turn p = onErr (run_loop_iteration p) ret (\<lambda>e. gauge_increment TotalErrorCount)"

subsection \<open>Interleaving with the tasks\<close>

text \<open>
  A spawned task runs \<open>make_proof_request\<close>: its first statement when it is first scheduled, the
  rest later; any number of turns of the loop may come between. Its result is kept in the map
  (unless it is detached) until \<open>handle_ongoing_tasks\<close> collects it. A task that does not return
  stays begun. A process that stops (an orderly stop, a crash, a panic of the loop) loses its tasks;
  the next one starts with \<open>initialize_proposer\<close>.
\<close>

definition set_task :: "int \<Rightarrow> task_state \<Rightarrow> proposer_state \<Rightarrow> proposer_state" where
  "set_task i st s = s\<lparr>tasks := map (\<lambda>(j, u, r). if j = i then (j, st, r) else (j, u, r)) (tasks s)\<rparr>"

definition begin_task :: "('args, 'wit, 'stdin) proposer \<Rightarrow> request \<Rightarrow> (proposer_state, unit) op" where
  "begin_task p r = update_request_status (p_env p) (req_id r) WitnessGeneration"

definition finish_task :: "('args, 'wit, 'stdin) proposer \<Rightarrow> request \<Rightarrow> (proposer_state, unit) op" where
  "finish_task p r = make_proof_rest (p_requester p) r"

definition after_begin :: "unit res \<Rightarrow> task_state" where
  "after_begin x = (case x of Inl f \<Rightarrow> Finished (Inl f) | Inr _ \<Rightarrow> Begun)"

definition restart :: "('args, 'wit, 'stdin) proposer \<Rightarrow> (proposer_state, unit) op" where
  "restart p = andThen (update (\<lambda>s. s\<lparr>tasks := [], detached := []\<rparr>)) (\<lambda>_. initialize_proposer p)"

inductive background_step ::
  "('args, 'wit, 'stdin) proposer \<Rightarrow> proposer_state \<Rightarrow> proposer_state \<Rightarrow> bool"
  for p :: "('args, 'wit, 'stdin) proposer" where
  task_begins: "(i, Spawned, r) \<in> set (tasks s) \<Longrightarrow> begin_task p r s = (x, s') \<Longrightarrow>
    background_step p s (set_task i (after_begin x) s')"
| task_ends: "(i, Begun, r) \<in> set (tasks s) \<Longrightarrow> finish_task p r s = (x, s') \<Longrightarrow> x \<noteq> Inl Diverged \<Longrightarrow>
    background_step p s (set_task i (Finished x) s')"
| detached_begins: "detached s = as @ (i, Spawned, r) # bs \<Longrightarrow>
    begin_task p r (s\<lparr>detached := as @ bs\<rparr>) = (x, s') \<Longrightarrow>
    background_step p s (s'\<lparr>detached := detached s' @ [(i, after_begin x, r)]\<rparr>)"
| detached_ends: "detached s = as @ (i, Begun, r) # bs \<Longrightarrow>
    finish_task p r (s\<lparr>detached := as @ bs\<rparr>) = (x, s') \<Longrightarrow> x \<noteq> Inl Diverged \<Longrightarrow>
    background_step p s s'"
| restarts: "restart p s = (x, s') \<Longrightarrow> background_step p s s'"

inductive proposer_step ::
  "('args, 'wit, 'stdin) proposer \<Rightarrow> proposer_state \<Rightarrow> proposer_state \<Rightarrow> bool"
  for p :: "('args, 'wit, 'stdin) proposer" where
  turn: "run_turn p s = (x, s') \<Longrightarrow> proposer_step p s s'"
| background: "background_step p s s' \<Longrightarrow> proposer_step p s s'"

inductive_cases background_cases: "background_step p s s'"
inductive_cases proposer_cases: "proposer_step p s s'"

subsection \<open>A concrete proposer\<close>

definition sample_contracts :: contract_env where
  "sample_contracts =
     \<lparr>latest_block_number = (\<lambda>_. Inr 1), submission_interval = (\<lambda>_. Inr 4),
      op_succinct_configs = (\<lambda>_ _. Inr \<lparr>sc_aggregation_vkey = [2], sc_range_vkey_commitment = [1],
        sc_rollup_config_hash = [3]\<rparr>),
      init_bonds = (\<lambda>_ _. Inr 8), send_transaction = (\<lambda>_ _. Inr \<lparr>tx_status = True, tx_receipt_hash = [6]\<rparr>)\<rparr>"

definition sample_config :: requester_config where
  "sample_config =
     \<lparr>rc_l1_chain_id = 10, rc_l2_chain_id = 20, rc_prover_address = [1], rc_l2oo_address = [2],
      rc_dgf_address = [3], rc_range_proof_interval = 3, rc_submission_interval = 4,
      rc_max_concurrent_witness_gen = 1, rc_max_concurrent_proof_requests = 2,
      rc_config_name_hash = [4], rc_mock = False, rc_use_local_proving = False\<rparr>"

definition sample_proposer :: "(single_chain_host, unit, unit) proposer" where
  "sample_proposer =
     \<lparr>p_config = sample_config, p_requester = sample_requester, p_contracts = sample_contracts,
      p_hash_slow = (\<lambda>h. [word_of_int (number h)]), p_task_order = (\<lambda>_. []), p_loop_interval = 60\<rparr>"

definition sample_state :: "request list \<Rightarrow> proposer_state" where
  "sample_state rs = \<lparr>tick = 0, requests = rs, next_id = 10, chain_locks = (\<lambda>_. None), gauges = (\<lambda>_. 0),
     tasks = [], detached = [], sent_txs = []\<rparr>"

lemma sample_proposer_simps [simp]:
  "p_config sample_proposer = sample_config" "p_contracts sample_proposer = sample_contracts"
  "rc_l1_chain_id sample_config = 10" "rc_l2_chain_id sample_config = 20"
  "p_requester sample_proposer = sample_requester"
  by (simp_all add: sample_proposer_def sample_config_def)

lemma sample_state_simps [simp]:
  "requests (sample_state rs) = rs" "tasks (sample_state rs) = []" "detached (sample_state rs) = []"
  "tick (sample_state rs) = 0" "next_id (sample_state rs) = 10" "sent_txs (sample_state rs) = []"
  "chain_locks (sample_state rs) = (\<lambda>_. None)" "gauges (sample_state rs) = (\<lambda>_. 0)"
  by (simp_all add: sample_state_def)

lemma sample_db_simps [simp]:
  "db_fate_at sample_db t = Acked" "db_now sample_db t = int t" "db_order sample_db t = []"
  "local_now sample_db t = int t"
  by (simp_all add: sample_db_def)

lemma sample_range_simps [simp]:
  "req_id (sample_range i st b e) = i" "req_status (sample_range i st b e) = st"
  "req_type (sample_range i st b e) = Range" "start_block (sample_range i st b e) = b"
  "end_block (sample_range i st b e) = e" "same_program sample_commitments (sample_range i st b e)"
  "on_chains 10 20 (sample_range i st b e)" "range_vkey_commitment (sample_range i st b e) = [1]"
  "rollup_config_hash (sample_range i st b e) = [3]"
  by (simp_all add: sample_range_def same_program_def sample_commitments_def on_chains_def)

end
