(* ===== verification/Booking.thy ===== *)
theory Booking
  imports Prelude
begin

text \<open>
  What the validity proposer promises about block ranges, without tables, tasks or provers: a
  reservation book. A book is the next free reservation number and the reserved block ranges by
  number. A reservation gets the next number and a range that meets no other reserved range;
  reservations may be given up and numbers may be skipped at any time. ProposerSafety shows that
  the table of requests is such a book on every run of the proposer.
\<close>

type_synonym book = "int \<times> (int \<rightharpoonup> int \<times> int)"

inductive booking_step :: "book \<Rightarrow> book \<Rightarrow> bool" where
  give_up: "n \<le> n' \<Longrightarrow> m' \<subseteq>\<^sub>m m \<Longrightarrow> booking_step (n, m) (n', m')"
| reserve: "0 \<le> a \<Longrightarrow> a < b \<Longrightarrow> (\<And>i c d. m i = Some (c, d) \<Longrightarrow> b \<le> c \<or> d \<le> a) \<Longrightarrow>
    booking_step (n, m) (n + 1, m(n \<mapsto> (a, b)))"

inductive_cases booking_cases: "booking_step (n, m) (n', m')"

definition well_booked :: "book \<Rightarrow> bool" where
  "well_booked x \<longleftrightarrow> (case x of (n, m) \<Rightarrow>
     (\<forall>i a b. m i = Some (a, b) \<longrightarrow> i < n \<and> 0 \<le> a \<and> a < b)
     \<and> (\<forall>i j a b c d. m i = Some (a, b) \<longrightarrow> m j = Some (c, d) \<longrightarrow> i \<noteq> j \<longrightarrow> b \<le> c \<or> d \<le> a))"

lemma well_booked_step: "booking_step x y \<Longrightarrow> well_booked x \<Longrightarrow> well_booked y"
proof (induction rule: booking_step.induct)
  case (give_up n n' m' m)
  have "m' i = Some v \<Longrightarrow> m i = Some v" for i v
    using give_up.hyps(2) unfolding map_le_def by (metis domI)
  then show ?case
    using give_up unfolding well_booked_def prod.case by (meson order_less_le_trans)
next
  case (reserve a b m n)
  have new: "b \<le> c \<or> d \<le> a" if "m i = Some (c, d)" for i c d using reserve(3) that by blast
  have "i < n + 1" "0 \<le> c" "c < d" if "(m(n \<mapsto> (a, b))) i = Some (c, d)" for i c d
    using that reserve(1,2,4) unfolding well_booked_def
    by (cases "i = n"; auto simp: less_imp_le intro: less_trans)+
  moreover have "d \<le> e \<or> f \<le> c"
    if "(m(n \<mapsto> (a, b))) i = Some (c, d)" "(m(n \<mapsto> (a, b))) j = Some (e, f)" "i \<noteq> j" for i j c d e f
  proof -
    consider "i = n" | "j = n" | "i \<noteq> n" "j \<noteq> n" by blast
    then show ?thesis
    proof cases
      case 1
      then show ?thesis using that new [of j e f] by auto
    next
      case 2
      then show ?thesis using that new [of i c d] by auto
    next
      case 3
      then have "m i = Some (c, d)" "m j = Some (e, f)" using that by simp_all
      then show ?thesis using reserve(4) that(3) unfolding well_booked_def prod.case by blast
    qed
  qed
  ultimately show ?case unfolding well_booked_def prod.case by blast
qed

lemma well_booked_run: "booking_step\<^sup>*\<^sup>* x y \<Longrightarrow> well_booked x \<Longrightarrow> well_booked y"
  by (induction rule: rtranclp_induct) (auto intro: well_booked_step)

text \<open>A number given out keeps its range or loses it for good.\<close>

lemma booking_history:
  assumes "booking_step\<^sup>*\<^sup>* (n, m) (n', m')"
  shows "n \<le> n'" "i < n \<Longrightarrow> m' i = m i \<or> m' i = None"
proof -
  have "n \<le> n' \<and> (\<forall>i < n. m' i = m i \<or> m' i = None)"
    using assms
  proof (induction rule: rtranclp_induct2)
    case (step n1 m1 n2 m2)
    from step(2) consider "n1 \<le> n2" "m2 \<subseteq>\<^sub>m m1" | a b where "n2 = n1 + 1" "m2 = m1(n1 \<mapsto> (a, b))"
      by (auto elim: booking_cases)
    then show ?case
    proof cases
      case 1
      have "m2 i = m1 i \<or> m2 i = None" for i
        using 1(2) unfolding map_le_def by (metis domIff)
      then show ?thesis using step(3) 1(1) by (metis order.trans)
    next
      case (2 a b)
      then show ?thesis using step(3) by auto
    qed
  qed simp
  then show "n \<le> n'" "i < n \<Longrightarrow> m' i = m i \<or> m' i = None" by simp_all
qed

end
