(* ===== verification/ProposerSafety.thy ===== *)
theory ProposerSafety
  imports Proposer Booking
begin

text \<open>
  The main safety property of the validity proposer: under every pattern of failures of the
  database, the nodes and the provers, the active range requests of the running program never
  overlap. The theory shows that each method of \<open>validity/src/proposer.rs\<close> preserves the
  invariant, and then the invariant over all interleavings of the loop, its tasks and restarts.
\<close>

subsection \<open>The invariant\<close>

definition ours :: "('args, 'wit, 'stdin) proposer \<Rightarrow> request \<Rightarrow> bool" where
  "ours p r \<longleftrightarrow> same_program (p_commitments p) r \<and> on_chains (p_l1 p) (p_l2 p) r"

text \<open>The active range requests of the program.\<close>

definition live :: "('args, 'wit, 'stdin) proposer \<Rightarrow> request \<Rightarrow> bool" where
  "live p r \<longleftrightarrow> ours p r \<and> req_type r = Range \<and> req_status r \<in> set active_statuses"

definition apart :: "request \<Rightarrow> request \<Rightarrow> bool" where
  "apart r q \<longleftrightarrow> end_block r \<le> start_block q \<or> end_block q \<le> start_block r"

definition good_blocks :: "request \<Rightarrow> bool" where
  "good_blocks r \<longleftrightarrow> 0 \<le> start_block r \<and> start_block r < end_block r \<and> end_block r < 2 ^ 62"

definition live_rows :: "('args, 'wit, 'stdin) proposer \<Rightarrow> request list \<Rightarrow> bool" where
  "live_rows p rs \<longleftrightarrow> sorted_wrt apart (filter (live p) rs) \<and> (\<forall>r \<in> set rs. live p r \<longrightarrow> good_blocks r)"

text \<open>What the row of a task looks like.\<close>

fun status_fits :: "task_state \<Rightarrow> request_status \<Rightarrow> bool" where
  "status_fits Spawned st \<longleftrightarrow> st = Unrequested"
| "status_fits Begun st \<longleftrightarrow> st = WitnessGeneration"
| "status_fits (Finished x) st \<longleftrightarrow> st \<in> set active_statuses"

definition task_fits :: "('args, 'wit, 'stdin) proposer \<Rightarrow> request list \<Rightarrow> task \<Rightarrow> bool" where
  "task_fits p rs t \<longleftrightarrow> (case t of (i, st, r) \<Rightarrow> req_id r = i \<and> ours p r
     \<and> (\<exists>q \<in> set rs. same_request q r \<and> status_fits st (req_status q)))"

definition tasks_fit :: "('args, 'wit, 'stdin) proposer \<Rightarrow> request list \<Rightarrow> task list \<Rightarrow> bool" where
  "tasks_fit p rs ts \<longleftrightarrow> distinct (map fst ts) \<and> (\<forall>t \<in> set ts. task_fits p rs t)"

definition task_ids :: "proposer_state \<Rightarrow> int set" where
  "task_ids s = fst ` set (tasks s)"

text \<open>
  The reservation book of a state: the next request number, and the block ranges of the active
  range requests of the program by request number. A state is booked from a book when the book's
  rules lead from that book to the one of the state.
\<close>

definition reservations ::
  "('args, 'wit, 'stdin) proposer \<Rightarrow> request list \<Rightarrow> int \<rightharpoonup> int \<times> int" where
  "reservations p rs = map_of (map (\<lambda>r. (req_id r, start_block r, end_block r)) (filter (live p) rs))"

definition book_of :: "('args, 'wit, 'stdin) proposer \<Rightarrow> proposer_state \<Rightarrow> book" where
  "book_of p s = (next_id s, reservations p (requests s))"

definition booked :: "book \<Rightarrow> ('args, 'wit, 'stdin) proposer \<Rightarrow> proposer_state \<Rightarrow> bool" where
  "booked bk p s \<longleftrightarrow> booking_step\<^sup>*\<^sup>* bk (book_of p s)"

definition inv :: "book \<Rightarrow> ('args, 'wit, 'stdin) proposer \<Rightarrow> proposer_state \<Rightarrow> bool" where
  "inv bk p s \<longleftrightarrow> db_ok s \<and> live_rows p (requests s) \<and> tasks_fit p (requests s) (tasks s)
     \<and> detached s = [] \<and> booked bk p s"

text \<open>
  Conditions that hold during parts of a turn: no task is still waiting for its first statement,
  no finished task is left in the map, and no block number in \<open>N\<close> lies strictly inside an active
  range.
\<close>

definition task_states :: "proposer_state \<Rightarrow> task_state set" where
  "task_states s = (fst \<circ> snd) ` set (tasks s)"

definition nospawn :: "proposer_state \<Rightarrow> bool" where
  "nospawn s \<longleftrightarrow> Spawned \<notin> task_states s"

definition quiet :: "proposer_state \<Rightarrow> bool" where
  "quiet s \<longleftrightarrow> (\<forall>st \<in> task_states s. \<not> is_finished st)"

definition rows_aligned :: "('args, 'wit, 'stdin) proposer \<Rightarrow> int set \<Rightarrow> request list \<Rightarrow> bool" where
  "rows_aligned p N rs \<longleftrightarrow>
     (\<forall>n \<in> N. \<forall>r \<in> set rs. live p r \<longrightarrow> n \<le> start_block r \<or> end_block r \<le> n)"

definition aligned :: "('args, 'wit, 'stdin) proposer \<Rightarrow> int set \<Rightarrow> proposer_state \<Rightarrow> bool" where
  "aligned p N s \<longleftrightarrow> rows_aligned p N (requests s)"

lemma apart_sym: "apart r q \<Longrightarrow> apart q r"
  by (auto simp: apart_def)

lemma booked_same:
  "requests s' = requests s \<Longrightarrow> next_id s' = next_id s \<Longrightarrow> booked bk p s' = booked bk p s"
  by (simp add: booked_def book_of_def)

lemma booked_update [simp]:
  "booked bk p (s\<lparr>tick := k\<rparr>) = booked bk p s" "booked bk p (s\<lparr>gauges := g\<rparr>) = booked bk p s"
  "booked bk p (s\<lparr>sent_txs := x\<rparr>) = booked bk p s" "booked bk p (s\<lparr>chain_locks := l\<rparr>) = booked bk p s"
  "booked bk p (s\<lparr>tasks := ts\<rparr>) = booked bk p s" "booked bk p (s\<lparr>detached := ds\<rparr>) = booked bk p s"
  by (rule booked_same; simp)+

lemma inv_update [simp]:
  "inv bk p (s\<lparr>tick := k\<rparr>) = inv bk p s" "inv bk p (s\<lparr>gauges := g\<rparr>) = inv bk p s"
  "inv bk p (s\<lparr>sent_txs := x\<rparr>) = inv bk p s"
  by (simp_all add: inv_def db_ok_def)

lemma reservations_Some:
  assumes "distinct (map req_id rs)"
  shows "reservations p rs i = Some (a, b) \<longleftrightarrow>
    (\<exists>r \<in> set rs. live p r \<and> req_id r = i \<and> start_block r = a \<and> end_block r = b)"
proof -
  have "distinct (map fst (map (\<lambda>r. (req_id r, start_block r, end_block r)) (filter (live p) rs)))"
    using distinct_map_filter [OF assms, of "live p"] by (simp add: comp_def)
  then show ?thesis unfolding reservations_def by (auto simp: map_of_eq_Some_iff)
qed

text \<open>Giving up reservations: no row becomes active, none changes its blocks.\<close>

lemma booked_fewer:
  assumes "booked bk p s" and ids: "distinct (map req_id (requests s))" "distinct (map req_id (requests s'))"
    and "next_id s \<le> next_id s'"
    and old: "\<And>q. q \<in> set (requests s') \<Longrightarrow> live p q \<Longrightarrow>
      \<exists>r \<in> set (requests s). live p r \<and> req_id r = req_id q \<and> start_block r = start_block q
        \<and> end_block r = end_block q"
  shows "booked bk p s'"
proof -
  have "reservations p (requests s) i = Some (a, b)" if "reservations p (requests s') i = Some (a, b)" for i a b
    using that old unfolding reservations_Some [OF ids(1)] reservations_Some [OF ids(2)] by metis
  then have "reservations p (requests s') \<subseteq>\<^sub>m reservations p (requests s)"
    unfolding map_le_def by (metis domD surj_pair)
  then have "booking_step (book_of p s) (book_of p s')"
    unfolding book_of_def by (rule booking_step.give_up [OF assms(4)])
  then show ?thesis using assms(1) unfolding booked_def by simp
qed

lemma task_states_update [simp]:
  "task_states (s\<lparr>tick := k\<rparr>) = task_states s" "task_states (s\<lparr>gauges := g\<rparr>) = task_states s"
  "task_states (s\<lparr>sent_txs := x\<rparr>) = task_states s"
  by (simp_all add: task_states_def)

lemma nospawn_update [simp]:
  "nospawn (s\<lparr>tick := k\<rparr>) = nospawn s" "nospawn (s\<lparr>gauges := g\<rparr>) = nospawn s"
  "nospawn (s\<lparr>sent_txs := x\<rparr>) = nospawn s"
  by (simp_all add: nospawn_def)

lemma quiet_update [simp]:
  "quiet (s\<lparr>tick := k\<rparr>) = quiet s" "quiet (s\<lparr>gauges := g\<rparr>) = quiet s"
  "quiet (s\<lparr>sent_txs := x\<rparr>) = quiet s"
  by (simp_all add: quiet_def)

lemma aligned_update [simp]:
  "aligned p N (s\<lparr>tick := k\<rparr>) = aligned p N s" "aligned p N (s\<lparr>gauges := g\<rparr>) = aligned p N s"
  "aligned p N (s\<lparr>sent_txs := x\<rparr>) = aligned p N s"
  by (simp_all add: aligned_def)

text \<open>The parts of the state that the conditions on tasks look at travel with \<open>outside\<close>.\<close>

lemma outside_tasks:
  assumes "outside s' = outside s"
  shows "tasks s' = tasks s" "detached s' = detached s"
  using assms by (cases s; cases s'; simp add: outside_def world.defs)+

lemma outside_states:
  assumes "outside s' = outside s"
  shows "nospawn s' = nospawn s" "quiet s' = quiet s" "task_ids s' = task_ids s"
  using outside_tasks(1) [OF assms]
  by (simp_all add: nospawn_def quiet_def task_states_def task_ids_def)

subsection \<open>Changing one row\<close>

lemma same_request_ours: "same_request q r \<Longrightarrow> ours p q = ours p r"
  by (simp add: same_request_def ours_def same_program_def on_chains_def)

lemma live_rows_map:
  assumes "live_rows p rs" and "\<And>r. same_request (g r) r"
    and "\<And>r. r \<in> set rs \<Longrightarrow> live p (g r) \<Longrightarrow> live p r"
  shows "live_rows p (map g rs)"
proof -
  have blocks: "start_block (g r) = start_block r \<and> end_block (g r) = end_block r" for r
    using assms(2) [of r] by (simp add: same_request_def)
  have "sorted_wrt apart (filter (live p) (map g qs))"
    if "sorted_wrt apart (filter (live p) qs)" "\<And>r. r \<in> set qs \<Longrightarrow> live p (g r) \<Longrightarrow> live p r" for qs
    using that
  proof (induction qs)
    case (Cons a qs)
    have IH: "sorted_wrt apart (filter (live p) (map g qs))"
      using Cons by (cases "live p a") simp_all
    show ?case
    proof (cases "live p (g a)")
      case True
      then have a: "live p a" using Cons.prems(2) by simp
      have "apart (g a) y" if y: "y \<in> set (filter (live p) (map g qs))" for y
      proof -
        obtain r where r: "r \<in> set qs" "y = g r" "live p (g r)" using y by auto
        then have "live p r" using Cons.prems(2) by simp
        then have "apart a r" using Cons.prems(1) a r by simp
        then show ?thesis using blocks r by (simp add: apart_def)
      qed
      then show ?thesis using IH True by simp
    next
      case False
      then show ?thesis using IH by simp
    qed
  qed simp
  then have "sorted_wrt apart (filter (live p) (map g rs))"
    using assms(1,3) by (simp add: live_rows_def)
  moreover have "\<forall>r \<in> set (map g rs). live p r \<longrightarrow> good_blocks r"
    using assms(1,3) blocks by (auto simp: live_rows_def good_blocks_def)
  ultimately show ?thesis by (simp add: live_rows_def)
qed

lemma rows_aligned_map:
  assumes "rows_aligned p N rs" and "\<And>r. same_request (g r) r"
    and "\<And>r. r \<in> set rs \<Longrightarrow> live p (g r) \<Longrightarrow> live p r"
  shows "rows_aligned p N (map g rs)"
  unfolding rows_aligned_def
proof (intro ballI impI)
  fix n q assume n: "n \<in> N" and "q \<in> set (map g rs)" "live p q"
  then obtain r where r: "r \<in> set rs" "q = g r" by auto
  then have "live p r" using assms(3) \<open>live p q\<close> by simp
  then have "n \<le> start_block r \<or> end_block r \<le> n" using assms(1) n r by (simp add: rows_aligned_def)
  then show "n \<le> start_block q \<or> end_block q \<le> n"
    using assms(2) [of r] r(2) by (simp add: same_request_def)
qed

lemma db_ok_same_ids:
  assumes "db_ok s" "map req_id (requests s') = map req_id (requests s)" "next_id s \<le> next_id s'"
  shows "db_ok s'"
proof -
  have "req_id ` set (requests s') = req_id ` set (requests s)"
    using arg_cong [OF assms(2), of set] by simp
  moreover have "\<forall>i \<in> req_id ` set (requests s). i < next_id s"
    using assms(1) by (simp add: db_ok_def)
  moreover have "i < next_id s \<Longrightarrow> i < next_id s'" for i using assms(3) by simp
  ultimately have "\<forall>i \<in> req_id ` set (requests s'). i < next_id s'" by blast
  then show ?thesis using assms(1,2) by (simp add: db_ok_def)
qed

lemma task_fits_mono:
  assumes "task_fits p rs t" "\<And>q. q \<in> set rs \<Longrightarrow> req_id q = fst t \<Longrightarrow> q \<in> set rs'"
  shows "task_fits p rs' t"
proof -
  obtain i st r where t: "t = (i, st, r)" by (cases t)
  obtain q where q: "q \<in> set rs" "same_request q r" "status_fits st (req_status q)"
    and r: "req_id r = i" "ours p r"
    using assms(1) by (auto simp: task_fits_def t)
  have "q \<in> set rs'" using assms(2) q r t by (simp add: same_request_def)
  then show ?thesis using q r by (auto simp: task_fits_def t)
qed

text \<open>
  A change of the row \<open>i\<close> that does not make it live, when no task refers to it.
\<close>

lemma booked_map:
  assumes "booked bk p s" "db_ok s" "requests s' = map g (requests s)" "next_id s \<le> next_id s'"
    and "\<And>r. same_request (g r) r" and "\<And>r. r \<in> set (requests s) \<Longrightarrow> live p (g r) \<Longrightarrow> live p r"
  shows "booked bk p s'"
proof (rule booked_fewer [OF assms(1) _ _ assms(4)])
  have same: "req_id (g r) = req_id r" "start_block (g r) = start_block r" "end_block (g r) = end_block r" for r
    using assms(5) [of r] by (simp_all add: same_request_def)
  show "distinct (map req_id (requests s))" using assms(2) by (simp add: db_ok_def)
  then show "distinct (map req_id (requests s'))" by (simp add: assms(3) same(1) comp_def)
  fix q assume "q \<in> set (requests s')" "live p q"
  then obtain r where "r \<in> set (requests s)" "q = g r" unfolding assms(3) by auto
  then show "\<exists>r \<in> set (requests s). live p r \<and> req_id r = req_id q \<and> start_block r = start_block q
      \<and> end_block r = end_block q"
    using same \<open>live p q\<close> assms(6) by metis
qed

lemma inv_row_change:
  assumes inv: "inv bk p s" and g: "row_change i S g"
    and rows: "requests s' = map g (requests s)" and "next_id s \<le> next_id s'"
    and out: "outside s' = outside s"
    and i: "i \<notin> task_ids s"
    and lv: "\<And>r. r \<in> set (requests s) \<Longrightarrow> req_id r = i \<Longrightarrow> live p (g r) \<Longrightarrow> live p r"
  shows "inv bk p s'"
proof -
  have same: "same_request (g r) r" "req_id (g r) = req_id r" "req_id r \<noteq> i \<Longrightarrow> g r = r" for r
    using g by (auto simp: row_change_def same_request_def)
  have lv': "r \<in> set (requests s) \<Longrightarrow> live p (g r) \<Longrightarrow> live p r" for r
    using lv same(3) by (cases "req_id r = i") auto
  have "map req_id (requests s') = map req_id (requests s)" by (simp add: rows same(2))
  then have "db_ok s'"
    using db_ok_same_ids [of s s'] inv assms(4) by (simp add: inv_def)
  moreover have "live_rows p (requests s')"
    unfolding rows by (rule live_rows_map [OF _ same(1) lv']) (use inv in \<open>simp_all add: inv_def\<close>)
  moreover have "task_fits p (requests s') t" if t: "t \<in> set (tasks s)" for t
  proof (rule task_fits_mono)
    show "task_fits p (requests s) t" using inv t by (simp add: inv_def tasks_fit_def)
    fix q assume q: "q \<in> set (requests s)" "req_id q = fst t"
    have "fst t \<noteq> i" using i t by (auto simp: task_ids_def)
    then have "g q = q" using same(3) q by simp
    then show "q \<in> set (requests s')" using q(1) rows by (metis image_eqI list.set_map)
  qed
  moreover have "booked bk p s'"
    by (rule booked_map [OF _ _ rows assms(4) same(1) lv']) (use inv in \<open>simp_all add: inv_def\<close>)
  ultimately show ?thesis using inv outside_tasks [OF out] by (simp add: inv_def tasks_fit_def)
qed

subsection \<open>Adding rows\<close>

lemma req_id_irrelevant [simp]:
  "live p (r\<lparr>req_id := n\<rparr>) = live p r" "good_blocks (r\<lparr>req_id := n\<rparr>) = good_blocks r"
  "apart (r\<lparr>req_id := n\<rparr>) q = apart r q" "apart q (r\<lparr>req_id := n\<rparr>) = apart q r"
  by (simp_all add: live_def ours_def same_program_def on_chains_def good_blocks_def apart_def)

lemma assign_ids_filter:
  "filter (live p) (assign_ids n xs) = [] \<longleftrightarrow> filter (live p) xs = []"
  "(\<forall>y \<in> set (filter (live p) (assign_ids n xs)). Q (start_block y) (end_block y)) \<longleftrightarrow>
     (\<forall>y \<in> set (filter (live p) xs). Q (start_block y) (end_block y))"
  by (induction xs arbitrary: n) simp_all

lemma sorted_assign_ids:
  "sorted_wrt apart (filter (live p) (assign_ids n xs)) \<longleftrightarrow> sorted_wrt apart (filter (live p) xs)"
proof (induction xs arbitrary: n)
  case (Cons x xs)
  have "(\<forall>y \<in> set (filter (live p) (assign_ids (n + 1) xs)). apart x y) \<longleftrightarrow>
      (\<forall>y \<in> set (filter (live p) xs). apart x y)"
    unfolding apart_def by (rule assign_ids_filter(2))
  then show ?case using Cons by simp
qed simp

text \<open>New requests with blocks of their own.\<close>

definition fresh_blocks ::
  "('args, 'wit, 'stdin) proposer \<Rightarrow> request list \<Rightarrow> request list \<Rightarrow> bool" where
  "fresh_blocks p rs new \<longleftrightarrow> sorted_wrt apart (filter (live p) new)
     \<and> (\<forall>r \<in> set new. live p r \<longrightarrow> good_blocks r \<and> (\<forall>q \<in> set rs. live p q \<longrightarrow> apart q r))"

lemma live_rows_append:
  assumes "live_rows p rs" "fresh_blocks p rs new"
  shows "live_rows p (rs @ assign_ids n new)"
proof -
  have mem: "\<exists>x \<in> set new. r = x\<lparr>req_id := req_id r\<rparr>" if "r \<in> set (assign_ids n new)" for r
    using assign_ids_mem [OF that] by blast
  have new: "good_blocks r \<and> (\<forall>q \<in> set rs. live p q \<longrightarrow> apart q r)"
    if r: "r \<in> set (assign_ids n new)" "live p r" for r
  proof -
    obtain x where x: "x \<in> set new" "r = x\<lparr>req_id := req_id r\<rparr>" using mem [OF r(1)] by blast
    have "live p x" using r(2) x(2) req_id_irrelevant(1) by metis
    then have "good_blocks x \<and> (\<forall>q \<in> set rs. live p q \<longrightarrow> apart q x)"
      using assms(2) x(1) by (simp add: fresh_blocks_def)
    then show ?thesis using x(2) req_id_irrelevant(2,4) by metis
  qed
  have "sorted_wrt apart (filter (live p) (rs @ assign_ids n new))"
    using assms new by (simp add: sorted_wrt_append live_rows_def fresh_blocks_def sorted_assign_ids)
  moreover have "good_blocks r" if "r \<in> set (rs @ assign_ids n new)" "live p r" for r
    using that assms(1) new by (auto simp: live_rows_def)
  ultimately show ?thesis unfolding live_rows_def by blast
qed

lemma reservations_append:
  assumes "distinct (map req_id rs)" "\<And>r. r \<in> set rs \<Longrightarrow> req_id r < n" "fresh_blocks p rs new"
  shows "booking_step\<^sup>*\<^sup>* (n, reservations p rs)
    (n + int (length new), reservations p (rs @ assign_ids n new))"
  using assms
proof (induction new arbitrary: rs n)
  case (Cons x xs)
  let ?x = "x\<lparr>req_id := n\<rparr>"
  have free: "reservations p rs n = None"
    using Cons.prems(1,2) by (metis less_irrefl not_Some_eq reservations_Some surj_pair)
  have one: "booking_step (n, reservations p rs) (n + 1, reservations p (rs @ [?x]))"
  proof (cases "live p x")
    case True
    have "reservations p (rs @ [?x]) = (reservations p rs)(n \<mapsto> (start_block x, end_block x))"
      using True free unfolding reservations_def by (auto simp: map_add_def split: option.splits)
    moreover have "good_blocks x" using True Cons.prems(3) by (simp add: fresh_blocks_def)
    moreover have "end_block x \<le> c \<or> d \<le> start_block x" if "reservations p rs i = Some (c, d)" for i c d
      using that True Cons.prems(3) unfolding reservations_Some [OF Cons.prems(1)]
      by (auto simp: fresh_blocks_def apart_def)
    ultimately show ?thesis by (auto simp: good_blocks_def intro!: booking_step.reserve)
  next
    case False
    then have "reservations p (rs @ [?x]) = reservations p rs" by (simp add: reservations_def)
    then show ?thesis by (auto intro: booking_step.give_up)
  qed
  have "booking_step\<^sup>*\<^sup>* (n + 1, reservations p (rs @ [?x]))
      (n + 1 + int (length xs), reservations p ((rs @ [?x]) @ assign_ids (n + 1) xs))"
  proof (rule Cons.IH)
    have "req_id r \<noteq> n" if "r \<in> set rs" for r using Cons.prems(2) [OF that] by simp
    then show "distinct (map req_id (rs @ [?x]))" using Cons.prems(1) by auto
    show "req_id r < n + 1" if "r \<in> set (rs @ [?x])" for r using that Cons.prems(2) by fastforce
    show "fresh_blocks p (rs @ [?x]) xs"
      using Cons.prems(3) by (cases "live p x") (auto simp: fresh_blocks_def)
  qed
  then show ?case using one by (auto intro: converse_rtranclp_into_rtranclp simp: algebra_simps)
qed simp

lemma booked_append:
  assumes "booked bk p s" "db_ok s" "fresh_blocks p (requests s) new"
    and "requests s' = requests s @ assign_ids (next_id s) new"
    and "next_id s' = next_id s + int (length new)"
  shows "booked bk p s'"
proof -
  have "booking_step\<^sup>*\<^sup>* (book_of p s) (book_of p s')"
    unfolding book_of_def assms(4,5)
    by (rule reservations_append [OF _ _ assms(3)]) (use assms(2) in \<open>auto simp: db_ok_def\<close>)
  then show ?thesis using assms(1) unfolding booked_def by simp
qed

lemma tasks_fit_append: "tasks_fit p rs ts \<Longrightarrow> tasks_fit p (rs @ new) ts"
proof -
  assume fit: "tasks_fit p rs ts"
  have "task_fits p (rs @ new) t" if "t \<in> set ts" for t
    by (rule task_fits_mono [of p rs]) (use fit that in \<open>simp_all add: tasks_fit_def\<close>)
  then show ?thesis using fit by (simp add: tasks_fit_def)
qed

lemma inv_append:
  assumes "inv bk p s" "fresh_blocks p (requests s) new"
    and rows: "requests s' = requests s @ assign_ids (next_id s) new"
    and "next_id s' = next_id s + int (length new)" and out: "outside s' = outside s"
  shows "inv bk p s'"
proof -
  have ok: "db_ok s" using assms(1) by (simp add: inv_def)
  have "db_ok s'"
    unfolding db_ok_def rows assms(4) using db_ok_append [OF ok order.refl] by blast
  then show ?thesis
    using assms(1) live_rows_append [OF _ assms(2)] outside_tasks [OF out]
      booked_append [OF _ ok assms(2) rows assms(4), of bk]
    by (simp add: inv_def rows tasks_fit_append)
qed

lemma inv_next_id:
  assumes "inv bk p s" "requests s' = requests s" "next_id s \<le> next_id s'" "outside s' = outside s"
  shows "inv bk p s'"
proof -
  have "booked bk p s'"
    by (rule booked_fewer [of bk p s]) (use assms in \<open>auto simp: inv_def db_ok_def\<close>)
  then show ?thesis
    using db_ok_same_ids [of s s'] assms outside_tasks [OF assms(4)] by (simp add: inv_def)
qed

lemma rows_aligned_append:
  assumes "rows_aligned p N rs"
    and "\<And>n r. n \<in> N \<Longrightarrow> r \<in> set new \<Longrightarrow> live p r \<Longrightarrow> n \<le> start_block r \<or> end_block r \<le> n"
  shows "rows_aligned p N (rs @ assign_ids k new)"
  unfolding rows_aligned_def
proof (intro ballI impI)
  fix n r assume n: "n \<in> N" and r: "r \<in> set (rs @ assign_ids k new)" "live p r"
  show "n \<le> start_block r \<or> end_block r \<le> n"
  proof (cases "r \<in> set rs")
    case True
    then show ?thesis using assms(1) n r by (simp add: rows_aligned_def)
  next
    case False
    then obtain x where x: "x \<in> set new" "r = x\<lparr>req_id := req_id r\<rparr>"
      using r(1) assign_ids_mem by fastforce
    then have "live p x" using r(2) req_id_irrelevant(1) by metis
    then have "n \<le> start_block x \<or> end_block x \<le> n" using assms(2) n x(1) by blast
    moreover have "start_block r = start_block x" "end_block r = end_block x"
      by (subst x(2), simp)+
    ultimately show ?thesis by simp
  qed
qed

subsection \<open>Retrying a request\<close>

lemma inactive:
  "Failed \<notin> set active_statuses" "Relayed \<notin> set active_statuses" "Cancelled \<notin> set active_statuses"
  by (simp_all add: active_statuses_def)

lemma row_change_same: "row_change i S g \<Longrightarrow> same_request (g r) r"
  by (simp add: row_change_def)

text \<open>The request is recorded in the table and active.\<close>

definition active_row ::
  "('args, 'wit, 'stdin) proposer \<Rightarrow> request list \<Rightarrow> request \<Rightarrow> bool" where
  "active_row p rs r \<longleftrightarrow> ours p r
     \<and> (\<exists>q \<in> set rs. same_request q r \<and> req_status q \<in> set active_statuses)"

lemma active_row_live:
  assumes "active_row p rs r" "req_type r = Range"
  shows "\<exists>q \<in> set rs. same_request q r \<and> live p q"
proof -
  obtain q where q: "q \<in> set rs" "same_request q r" "req_status q \<in> set active_statuses"
    using assms(1) by (auto simp: active_row_def)
  moreover have "ours p q" using assms(1) same_request_ours [OF q(2), of p] by (simp add: active_row_def)
  moreover have "req_type q = Range" using q(2) assms(2) by (simp add: same_request_def)
  ultimately show ?thesis by (auto simp: live_def)
qed

lemma sorted_apart_distinct:
  assumes "sorted_wrt apart (filter P rs)" "q \<in> set rs" "r \<in> set rs" "P q" "P r"
    "req_id q \<noteq> req_id r"
  shows "apart q r"
  using assms
proof (induction rs)
  case (Cons x rs)
  consider "q = x" | "r = x" | "q \<in> set rs" "r \<in> set rs" using Cons.prems by auto
  then show ?case
  proof cases
    case 1
    then show ?thesis using Cons.prems by (cases "r = x") simp_all
  next
    case 2
    then show ?thesis using Cons.prems apart_sym by (cases "q = x") simp_all
  next
    case 3
    then show ?thesis using Cons by (cases "P x") simp_all
  qed
qed simp

text \<open>The halves of an active range take its place.\<close>

lemma halves_fresh:
  assumes rows: "live_rows p rs" and q: "q \<in> set rs" "live p q" "same_request q r"
    and g: "row_change (req_id r) {Failed} g" "\<forall>q. req_id q = req_id r \<longrightarrow> req_status (g q) = Failed"
    and h: "halves c r a b"
  shows "fresh_blocks p (map g rs) [a, b]"
proof -
  have blk: "start_block q = start_block r" "end_block q = end_block r" "req_id q = req_id r"
    using q(3) by (simp_all add: same_request_def)
  have good: "good_blocks q" using rows q by (simp add: live_rows_def)
  have ab: "start_block a = start_block q" "end_block a = start_block b" "end_block b = end_block q"
    "start_block a < end_block a" "start_block b < end_block b"
    using h blk by (simp_all add: halves_def)
  have "good_blocks a" "good_blocks b" "apart a b"
    using good ab by (auto simp: good_blocks_def apart_def)
  moreover have "apart y a \<and> apart y b" if y: "y \<in> set (map g rs)" "live p y" for y
  proof -
    obtain z where z: "z \<in> set rs" "y = g z" using y(1) by auto
    have same: "same_request (g z) z" "req_id z \<noteq> req_id r \<Longrightarrow> g z = z"
      using g(1) by (simp_all add: row_change_def)
    have "req_id z \<noteq> req_id r"
    proof
      assume "req_id z = req_id r"
      then have "req_status y = Failed" using g(2) z by blast
      then show False using y(2) by (simp add: live_def active_statuses_def)
    qed
    then have "y = z" "req_id q \<noteq> req_id z" using same(2) z blk(3) by simp_all
    then have "apart q y"
      using sorted_apart_distinct [of "live p" rs q z] rows q z y(2) by (simp add: live_rows_def)
    then show ?thesis using ab by (auto simp: apart_def)
  qed
  ultimately show ?thesis by (auto simp: fresh_blocks_def)
qed

lemma inv_handle_failed:
  assumes inv: "inv bk p s" and row: "active_row p (requests s) r" and i: "req_id r \<notin> task_ids s"
    and run: "handle_failed_request (p_requester p) r status s = (x, s')"
  shows "inv bk p s' \<and> outside s' = outside s \<and> (aligned p N s \<longrightarrow> aligned p N s')
    \<and> (\<forall>q \<in> set (requests s). req_id q \<noteq> req_id r \<longrightarrow> q \<in> set (requests s'))"
proof -
  have blocks: "0 \<le> start_block r \<and> start_block r \<le> end_block r \<and> end_block r < 2 ^ 62"
    if "req_type r = Range"
  proof -
    obtain q where "q \<in> set (requests s)" "same_request q r" "live p q"
      using active_row_live [OF row \<open>req_type r = Range\<close>] by blast
    moreover from this have "good_blocks q" using inv by (simp add: inv_def live_rows_def)
    ultimately show ?thesis by (auto simp: good_blocks_def same_request_def)
  qed
  have kept: "q \<in> set (map g (requests s))"
    if "row_change (req_id r) {Failed} g" "q \<in> set (requests s)" "req_id q \<noteq> req_id r" for g q
  proof -
    have "g q = q" using that(1,3) by (simp add: row_change_def)
    then show ?thesis using that(2) by (metis image_eqI list.set_map)
  qed
  have notlive: "live p q" if g: "row_change (req_id r) {Failed} g" and l: "live p (g q)" for g q
  proof -
    have same: "same_request (g q) q" "req_status (g q) = req_status q \<or> req_status (g q) = Failed"
      using g by (simp_all add: row_change_def)
    have "req_type q = req_type (g q)" using same(1) by (simp add: same_request_def)
    moreover have "req_status (g q) \<noteq> Failed" 
      using l inactive(1) by (metis live_def)
    moreover have "ours p (g q) = ours p q" by (rule same_request_ours [OF same(1)])
    ultimately show ?thesis using l same(2) by (simp add: live_def)
  qed
  from handle_failed_cases [OF run blocks] show ?thesis
  proof
    assume "marked r s s'"
    then obtain g where g: "row_change (req_id r) {Failed} g" "requests s' = map g (requests s)"
      "next_id s \<le> next_id s'" "outside s' = outside s"
      by (auto simp: marked_def)
    have "inv bk p s'" by (rule inv_row_change [OF inv g i notlive [OF g(1)]])
    moreover have "aligned p N s \<Longrightarrow> aligned p N s'"
      unfolding aligned_def g(2)
      by (rule rows_aligned_map [OF _ row_change_same [OF g(1)] notlive [OF g(1)]])
    ultimately show ?thesis using g kept [OF g(1)] by simp
  next
    assume "replaced (p_requester p) r status s s'"
    then obtain g a b where g: "row_change (req_id r) {Failed} g"
      "\<forall>q. req_id q = req_id r \<longrightarrow> req_status (g q) = Failed"
      and s': "requests s' = map g (requests s) @ assign_ids (next_id s) [a, b]"
      "next_id s' = next_id s + 2" "outside s' = outside s"
      and h: "halves (p_commitments p) r a b" and rng: "req_type r = Range"
      unfolding replaced_def by blast
    obtain q where q: "q \<in> set (requests s)" "same_request q r" "live p q"
      using active_row_live [OF row rng] by blast
    let ?m = "s\<lparr>requests := map g (requests s)\<rparr>"
    have fresh: "fresh_blocks p (requests ?m) [a, b]"
      using halves_fresh [OF _ q(1,3,2) g h] inv by (simp add: inv_def)
    have m: "inv bk p ?m"
      by (rule inv_row_change [OF inv g(1) _ _ _ i notlive [OF g(1)]]) simp_all
    have "inv bk p s'"
      by (rule inv_append [OF m fresh]) (use s' in simp_all)
    moreover have "aligned p N s'" if al: "aligned p N s"
    proof -
      have "rows_aligned p N (map g (requests s))"
        by (rule rows_aligned_map [OF _ row_change_same [OF g(1)] notlive [OF g(1)]])
          (use al in \<open>simp add: aligned_def\<close>)
      moreover have "n \<le> start_block x \<or> end_block x \<le> n"
        if n: "n \<in> N" and x: "x \<in> set [a, b]" for n x
      proof -
        have "n \<le> start_block q \<or> end_block q \<le> n"
          using al n q by (simp add: aligned_def rows_aligned_def)
        then show ?thesis using x h q(2) by (auto simp: halves_def same_request_def)
      qed
      ultimately show ?thesis unfolding aligned_def s'(1) by (intro rows_aligned_append) blast+
    qed
    ultimately show ?thesis using s' kept [OF g(1)] by simp
  qed
qed

subsection \<open>Touching a row\<close>

definition can_touch :: "int \<Rightarrow> request_status set \<Rightarrow> proposer_state \<Rightarrow> bool" where
  "can_touch i S s \<longleftrightarrow> i \<notin> task_ids s
     \<and> (S \<inter> set active_statuses = {}
        \<or> (\<forall>q \<in> set (requests s). req_id q = i \<longrightarrow> req_status q \<in> set active_statuses))"

lemma inv_touch:
  assumes inv: "inv bk p s" and t: "touches i S m" and c: "can_touch i S s" and run: "m s = (x, s')"
  shows "inv bk p s' \<and> outside s' = outside s \<and> (aligned p N s \<longrightarrow> aligned p N s')
    \<and> (\<forall>q \<in> set (requests s). req_id q \<noteq> i \<longrightarrow> q \<in> set (requests s'))"
proof -
  obtain g where g: "row_change i S g" "requests s' = map g (requests s)" "next_id s' = next_id s"
    "outside s' = outside s"
    using touchesD [OF t run] by blast
  have lv: "live p r" if r: "r \<in> set (requests s)" and l: "live p (g r)" for r
  proof -
    have same: "same_request (g r) r" "req_id r \<noteq> i \<Longrightarrow> g r = r"
      "req_status (g r) = req_status r \<or> req_status (g r) \<in> S"
      using g(1) by (simp_all add: row_change_def)
    have "req_type r = req_type (g r)" using same(1) by (simp add: same_request_def)
    moreover have "ours p (g r) = ours p r" by (rule same_request_ours [OF same(1)])
    moreover have "req_status r \<in> set active_statuses"
    proof (cases "req_id r = i")
      case True
      have "req_status (g r) \<in> set active_statuses" using l by (simp add: live_def)
      then show ?thesis using c r True same(3) by (auto simp only: can_touch_def)
    next
      case False
      then show ?thesis using l same(2) by (simp add: live_def)
    qed
    ultimately show ?thesis using l by (simp add: live_def)
  qed
  have "inv bk p s'"
    by (rule inv_row_change [OF inv g(1,2) _ g(4) _ lv]) (use c g(3) in \<open>simp_all add: can_touch_def\<close>)
  moreover have "aligned p N s \<Longrightarrow> aligned p N s'"
    unfolding aligned_def g(2) by (rule rows_aligned_map [OF _ row_change_same [OF g(1)] lv])
  moreover have "q \<in> set (requests s')" if "q \<in> set (requests s)" "req_id q \<noteq> i" for q
  proof -
    have "g q = q" using that(2) g(1) by (simp add: row_change_def)
    then show ?thesis using that(1) g(2) by (metis image_eqI list.set_map)
  qed
  ultimately show ?thesis using g(4) by blast
qed

lemma row_unique:
  "db_ok s \<Longrightarrow> q \<in> set (requests s) \<Longrightarrow> r \<in> set (requests s) \<Longrightarrow> req_id q = req_id r \<Longrightarrow> q = r"
  unfolding db_ok_def by (metis (no_types, lifting) distinct_map inj_onD)

text \<open>Rows that no task of a quiet map refers to.\<close>

lemma not_in_tasks:
  assumes inv: "inv bk p s" and quiet: "quiet s" and r: "r \<in> set (requests s)"
    and st: "req_status r \<noteq> Unrequested" "req_status r \<noteq> WitnessGeneration"
  shows "req_id r \<notin> task_ids s"
proof
  assume "req_id r \<in> task_ids s"
  then obtain u q where t: "(req_id r, u, q) \<in> set (tasks s)" by (auto simp: task_ids_def)
  then have "task_fits p (requests s) (req_id r, u, q)"
    using inv unfolding inv_def tasks_fit_def by blast
  then obtain x where x: "x \<in> set (requests s)" "same_request x q" "status_fits u (req_status x)"
    "req_id q = req_id r"
    by (auto simp: task_fits_def)
  have "req_id x = req_id r" using x by (simp add: same_request_def)
  then have "x = r" using row_unique [of s x r] inv r x(1) by (simp add: inv_def)
  moreover have "\<not> is_finished u" using t quiet by (force simp: quiet_def task_states_def)
  ultimately show False using x(3) st by (cases u) (simp_all add: is_finished_def)
qed

subsection \<open>Stages of a turn\<close>

definition stage :: "book \<Rightarrow> ('args, 'wit, 'stdin) proposer \<Rightarrow> int set \<Rightarrow> proposer_state \<Rightarrow> bool" where
  "stage bk p N s \<longleftrightarrow> inv bk p s \<and> nospawn s \<and> aligned p N s"

definition calm :: "book \<Rightarrow> ('args, 'wit, 'stdin) proposer \<Rightarrow> int set \<Rightarrow> proposer_state \<Rightarrow> bool" where
  "calm bk p N s \<longleftrightarrow> stage bk p N s \<and> quiet s"

lemma stage_update [simp]:
  "stage bk p N (s\<lparr>tick := k\<rparr>) = stage bk p N s" "stage bk p N (s\<lparr>gauges := g\<rparr>) = stage bk p N s"
  "stage bk p N (s\<lparr>sent_txs := x\<rparr>) = stage bk p N s"
  "calm bk p N (s\<lparr>tick := k\<rparr>) = calm bk p N s" "calm bk p N (s\<lparr>gauges := g\<rparr>) = calm bk p N s"
  "calm bk p N (s\<lparr>sent_txs := x\<rparr>) = calm bk p N s"
  by (simp_all add: stage_def calm_def)

lemma keeps_gauges [keeps_intros]:
  "(\<And>s g. P (s\<lparr>gauges := g\<rparr>) = P s) \<Longrightarrow> keeps P (gauge_increment v)"
  "(\<And>s g. P (s\<lparr>gauges := g\<rparr>) = P s) \<Longrightarrow> keeps P (gauge_set v n)"
  by (simp_all add: keeps_def gauge_increment_def gauge_set_def update_def)

lemma stage_touch:
  assumes "stage bk p N s" "touches i S m" "can_touch i S s" "m s = (x, s')"
  shows "stage bk p N s'" "outside s' = outside s"
    "q \<in> set (requests s) \<Longrightarrow> req_id q \<noteq> i \<Longrightarrow> q \<in> set (requests s')"
proof -
  have *: "inv bk p s' \<and> outside s' = outside s \<and> (aligned p N s \<longrightarrow> aligned p N s')
      \<and> (\<forall>q \<in> set (requests s). req_id q \<noteq> i \<longrightarrow> q \<in> set (requests s'))"
    by (rule inv_touch [OF _ assms(2-4)]) (use assms(1) in \<open>simp add: stage_def\<close>)
  then show "stage bk p N s'" "outside s' = outside s"
    using assms(1) outside_states(1) [of s' s] by (simp_all add: stage_def)
  show "q \<in> set (requests s) \<Longrightarrow> req_id q \<noteq> i \<Longrightarrow> q \<in> set (requests s')" using * by blast
qed

lemma stage_failed:
  assumes "stage bk p N s" "active_row p (requests s) r" "req_id r \<notin> task_ids s"
    and "handle_failed_request (p_requester p) r status s = (x, s')"
  shows "stage bk p N s'" "outside s' = outside s"
    "q \<in> set (requests s) \<Longrightarrow> req_id q \<noteq> req_id r \<Longrightarrow> q \<in> set (requests s')"
proof -
  have *: "inv bk p s' \<and> outside s' = outside s \<and> (aligned p N s \<longrightarrow> aligned p N s')
      \<and> (\<forall>q \<in> set (requests s). req_id q \<noteq> req_id r \<longrightarrow> q \<in> set (requests s'))"
    by (rule inv_handle_failed [OF _ assms(2-4)]) (use assms(1) in \<open>simp add: stage_def\<close>)
  then show "stage bk p N s'" "outside s' = outside s"
    using assms(1) outside_states(1) [of s' s] by (simp_all add: stage_def)
  show "q \<in> set (requests s) \<Longrightarrow> req_id q \<noteq> req_id r \<Longrightarrow> q \<in> set (requests s')" using * by blast
qed

subsection \<open>Collecting tasks\<close>

abbreviation without_task :: "int \<Rightarrow> proposer_state \<Rightarrow> proposer_state" where
  "without_task i s \<equiv> s\<lparr>tasks := filter (\<lambda>t. fst t \<noteq> i) (tasks s)\<rparr>"

lemma tasks_fit_filter: "tasks_fit p rs ts \<Longrightarrow> tasks_fit p rs (filter P ts)"
  by (simp add: tasks_fit_def distinct_map_filter)

lemma stage_without:
  assumes "stage bk p N s"
  shows "stage bk p N (without_task i s)" "i \<notin> task_ids (without_task i s)"
    "task_states (without_task i s) \<subseteq> task_states s"
proof -
  show sub: "task_states (without_task i s) \<subseteq> task_states s"
    by (auto simp: task_states_def)
  show "stage bk p N (without_task i s)"
    using assms sub tasks_fit_filter
    by (auto simp: stage_def inv_def nospawn_def aligned_def db_ok_def)
  show "i \<notin> task_ids (without_task i s)" by (auto simp: task_ids_def)
qed

text \<open>The finished tasks are all waiting to be collected.\<close>

definition finished_ids :: "proposer_state \<Rightarrow> int set" where
  "finished_ids s = fst ` set (filter (\<lambda>t. is_finished (fst (snd t))) (tasks s))"

definition collecting ::
  "book \<Rightarrow> ('args, 'wit, 'stdin) proposer \<Rightarrow> int set \<Rightarrow> int list \<Rightarrow> proposer_state \<Rightarrow> bool" where
  "collecting bk p N ids s \<longleftrightarrow> stage bk p N s \<and> finished_ids s \<subseteq> set ids"

lemma quiet_finished: "quiet s \<longleftrightarrow> finished_ids s = {}"
  unfolding quiet_def task_states_def finished_ids_def image_is_empty set_empty filter_empty_conv
  by (simp only: ball_simps comp_def)

lemma finished_without: "finished_ids (without_task i s) = finished_ids s - {i}"
  by (auto simp: finished_ids_def)

lemma retry_task_stage:
  assumes "stage bk p N s" "active_row p (requests s) r" "req_id r \<notin> task_ids s"
    and "retry_task p r s = (x, s')"
  shows "stage bk p N s' \<and> tasks s' = tasks s"
proof -
  obtain y s1 where h: "handle_failed_request (p_requester p) r UnspecifiedExecution s = (y, s1)"
    by fastforce
  note st = stage_failed(1,2) [OF assms(1-3) h]
  have "s' = s1 \<or> (\<exists>g. s' = s1\<lparr>gauges := g\<rparr>)"
    using assms(4) h
    by (auto simp: retry_task_def onErr_def gauge_increment_def update_def
        split: sum.splits fault.splits)
  then show ?thesis using st outside_tasks(1) [OF st(2)] by auto
qed

lemma reap_task_collecting:
  "triple (collecting bk p N (i # ids)) (reap_task p i) (\<lambda>_. collecting bk p N ids) (stage bk p N)"
proof -
  have main: "collecting bk p N ids s'"
    if col: "collecting bk p N (i # ids) s" and run: "reap_task p i s = (x, s')" for s x s'
  proof -
    have st: "stage bk p N s" using col by (simp add: collecting_def)
    let ?w = "without_task i s"
    have rest: "collecting bk p N ids ?w"
      using col stage_without(1) [OF st, of i] by (auto simp: collecting_def finished_without)
    have run': "(case lookup_task i (tasks s) of Some (Finished (Inl f), r) \<Rightarrow> retry_task p r | _ \<Rightarrow> ret ()) ?w
        = (x, s')"
      using run by (simp add: reap_task_def andThen_def asks_def update_def)
    show ?thesis
    proof (cases "\<exists>f r. lookup_task i (tasks s) = Some (Finished (Inl f), r)")
      case True
      then obtain f r where l: "lookup_task i (tasks s) = Some (Finished (Inl f), r)" by blast
      have t: "(i, Finished (Inl f), r) \<in> set (tasks s)"
        using l by (simp add: lookup_task_def map_of_SomeD)
      have "task_fits p (requests s) (i, Finished (Inl f), r)"
        using st t unfolding stage_def inv_def tasks_fit_def by blast
      then have row: "req_id r = i" "active_row p (requests ?w) r"
        by (simp_all add: task_fits_def active_row_def)
      have "retry_task p r ?w = (x, s')" using run' l by simp
      then have "stage bk p N s' \<and> tasks s' = tasks ?w"
        using retry_task_stage [OF stage_without(1) [OF st] row(2)] stage_without(2) [OF st] row(1)
        by blast
      then show ?thesis using rest by (simp add: collecting_def finished_ids_def)
    next
      case False
      then have "s' = ?w"
        using run' by (auto simp: ret_def split: option.splits task_state.splits sum.splits)
      then show ?thesis using rest by simp
    qed
  qed
  show ?thesis
    by (rule tripleI) (use main in \<open>auto simp: collecting_def\<close>)
qed

lemma handle_ongoing_calm:
  "triple (stage bk p N) (handle_ongoing_tasks p) (\<lambda>_. calm bk p N) (stage bk p N)"
  unfolding handle_ongoing_tasks_def
proof (rule triple_andThen)
  show "triple (stage bk p N) (asks (\<lambda>s. map fst (filter (\<lambda>t. is_finished (fst (snd t)))
      (scan (p_task_order p (tick s)) (tasks s))))) (\<lambda>ids. collecting bk p N ids) (stage bk p N)"
    by (rule triple_asks) (force simp: collecting_def finished_ids_def)
  fix ids
  show "triple (collecting bk p N ids) (forEach (reap_task p) ids) (\<lambda>_. calm bk p N) (stage bk p N)"
  proof (rule triple_weaken)
    show "triple (collecting bk p N ids) (forEach (reap_task p) ids) (\<lambda>_. collecting bk p N []) (stage bk p N)"
      by (rule triple_forEach) (rule reap_task_collecting)
  qed (auto simp: collecting_def calm_def quiet_finished)
qed

subsection \<open>Orphans and requests in status Prove\<close>

lemma calm_touch:
  assumes "calm bk p N s" "touches i S m" "can_touch i S s" "m s = (x, s')"
  shows "calm bk p N s'" "q \<in> set (requests s) \<Longrightarrow> req_id q \<noteq> i \<Longrightarrow> q \<in> set (requests s')"
    "task_ids s' = task_ids s"
proof -
  have st: "stage bk p N s" using assms(1) by (simp add: calm_def)
  note h = stage_touch [OF st assms(2-4)]
  show "calm bk p N s'" using h(1) assms(1) outside_states(2) [OF h(2)] by (simp add: calm_def)
  show "q \<in> set (requests s) \<Longrightarrow> req_id q \<noteq> i \<Longrightarrow> q \<in> set (requests s')" by (rule h(3))
  show "task_ids s' = task_ids s" by (rule outside_states(3) [OF h(2)])
qed

lemma calm_failed:
  assumes "calm bk p N s" "active_row p (requests s) r" "req_id r \<notin> task_ids s"
    and "handle_failed_request (p_requester p) r status s = (x, s')"
  shows "calm bk p N s'" "q \<in> set (requests s) \<Longrightarrow> req_id q \<noteq> req_id r \<Longrightarrow> q \<in> set (requests s')"
proof -
  have st: "stage bk p N s" using assms(1) by (simp add: calm_def)
  note h = stage_failed [OF st assms(2-4)]
  show "calm bk p N s'" using h(1) assms(1) outside_states(2) [OF h(2)] by (simp add: calm_def)
  show "q \<in> set (requests s) \<Longrightarrow> req_id q \<noteq> req_id r \<Longrightarrow> q \<in> set (requests s')" by (rule h(3))
qed

lemma fail_if_orphaned_calm: "triple (calm bk p N) (fail_if_orphaned p r) (\<lambda>_. calm bk p N) (calm bk p N)"
proof (rule triple_both)
  fix s x s' assume c: "calm bk p N s" and run: "fail_if_orphaned p r s = (x, s')"
  show "calm bk p N s'"
  proof (cases "lookup_task (req_id r) (tasks s)")
    case None
    then have "req_id r \<notin> task_ids s" by (auto simp: lookup_task_def map_of_eq_None_iff task_ids_def)
    then have "can_touch (req_id r) {Failed} s" by (simp add: can_touch_def inactive)
    moreover have "update_request_status (p_env p) (req_id r) Failed s = (x, s')"
      using run None by (simp add: fail_if_orphaned_def andThen_def asks_def)
    ultimately show ?thesis using calm_touch(1) [OF c touches_status(1)] by blast
  next
    case (Some t)
    then show ?thesis using c run by (simp add: fail_if_orphaned_def andThen_def asks_def ret_def)
  qed
qed

lemma set_orphaned_calm:
  "triple (calm bk p N) (set_orphaned_tasks_to_failed p) (\<lambda>_. calm bk p N) (calm bk p N)"
  unfolding set_orphaned_tasks_to_failed_def
proof (rule triple_read_then, rule queries_read)
  fix ws
  show "triple (calm bk p N)
      (andThen (fetch_requests_by_status (p_env p) Execution (p_commitments p) (p_l1 p) (p_l2 p))
        (\<lambda>es. forEach (fail_if_orphaned p) (ws @ es))) (\<lambda>_. calm bk p N) (calm bk p N)"
  proof (rule triple_read_then, rule queries_read)
    fix es
    show "triple (calm bk p N) (forEach (fail_if_orphaned p) (ws @ es)) (\<lambda>_. calm bk p N) (calm bk p N)"
      by (rule triple_forEach [where R = "\<lambda>_. calm bk p N"]) (rule fail_if_orphaned_calm)
  qed simp_all
qed simp_all

text \<open>A list of rows in status Prove, as the table still has them.\<close>

definition proving ::
  "book \<Rightarrow> ('args, 'wit, 'stdin) proposer \<Rightarrow> int set \<Rightarrow> request list \<Rightarrow> proposer_state \<Rightarrow> bool" where
  "proving bk p N rs s \<longleftrightarrow> calm bk p N s \<and> distinct (map req_id rs) \<and> set rs \<subseteq> set (requests s)
     \<and> (\<forall>r \<in> set rs. ours p r \<and> req_status r = Prove)"

lemma proving_update [simp]:
  "proving bk p N rs (s\<lparr>tick := k\<rparr>) = proving bk p N rs s"
  "proving bk p N rs (s\<lparr>gauges := g\<rparr>) = proving bk p N rs s"
  by (simp_all add: proving_def)

lemma proving_calm: "proving bk p N rs s \<Longrightarrow> calm bk p N s"
  by (simp add: proving_def)

lemma proving_head:
  assumes "proving bk p N (r # rs) s"
  shows "calm bk p N s" "active_row p (requests s) r" "req_id r \<notin> task_ids s"
    "\<forall>q \<in> set (requests s). req_id q = req_id r \<longrightarrow> req_status q \<in> set active_statuses"
proof -
  show c: "calm bk p N s" using assms by (rule proving_calm)
  have r: "r \<in> set (requests s)" "ours p r" "req_status r = Prove"
    using assms by (simp_all add: proving_def)
  then show "active_row p (requests s) r"
    unfolding active_row_def active_statuses_def
    by (intro conjI bexI [of _ r]) simp_all
  have i: "inv bk p s" "quiet s" using c by (simp_all add: calm_def stage_def)
  show "req_id r \<notin> task_ids s" by (rule not_in_tasks [OF i r(1)]) (simp_all add: r(3))
  show "\<forall>q \<in> set (requests s). req_id q = req_id r \<longrightarrow> req_status q \<in> set active_statuses"
  proof (intro ballI impI)
    fix q assume "q \<in> set (requests s)" "req_id q = req_id r"
    then have "q = r" using row_unique [of s q r] i(1) r(1) by (simp add: inv_def)
    then show "req_status q \<in> set active_statuses" using r(3) by (simp add: active_statuses_def)
  qed
qed

lemma proving_rest:
  assumes "proving bk p N (r # rs) s" "calm bk p N s'"
    and "\<And>q. q \<in> set (requests s) \<Longrightarrow> req_id q \<noteq> req_id r \<Longrightarrow> q \<in> set (requests s')"
  shows "proving bk p N rs s'"
proof -
  have "q \<in> set (requests s')" if "q \<in> set rs" for q
  proof (rule assms(3))
    have "req_id q \<in> req_id ` set rs" using that by simp
    then show "req_id q \<noteq> req_id r" using assms(1) by (auto simp only: proving_def list.map distinct.simps list.set_map)
    show "q \<in> set (requests s)" using assms(1) that by (auto simp: proving_def)
  qed
  then show ?thesis using assms(1,2) by (auto simp: proving_def)
qed

lemma proving_failed:
  "triple (proving bk p N (r # rs)) (handle_failed_request (p_requester p) r st)
     (\<lambda>_. proving bk p N rs) (proving bk p N rs)"
proof (rule triple_both)
  fix s x s' assume pr: "proving bk p N (r # rs) s"
    and run: "handle_failed_request (p_requester p) r st s = (x, s')"
  show "proving bk p N rs s'"
    using proving_rest [OF pr calm_failed [OF proving_head(1-3) [OF pr] run]] by blast
qed

text \<open>The last two statements: complete the row, record the duration.\<close>

definition completed ::
  "book \<Rightarrow> ('args, 'wit, 'stdin) proposer \<Rightarrow> int set \<Rightarrow> request \<Rightarrow> request list \<Rightarrow> proposer_state \<Rightarrow> bool" where
  "completed bk p N r rs s \<longleftrightarrow> proving bk p N rs s \<and> req_id r \<notin> task_ids s \<and> req_id r \<notin> req_id ` set rs"

lemma proving_complete:
  "triple (proving bk p N (r # rs)) (update_proof_to_complete (p_env p) (req_id r) b)
     (\<lambda>_. completed bk p N r rs) (proving bk p N rs)"
proof -
  have main: "completed bk p N r rs s'" if pr: "proving bk p N (r # rs) s"
    and run: "update_proof_to_complete (p_env p) (req_id r) b s = (x, s')" for s x s'
  proof -
    note hd = proving_head [OF pr]
    have c: "can_touch (req_id r) {Complete} s" using hd(3,4) by (simp add: can_touch_def)
    note t = calm_touch [OF hd(1) touches_status(2) c run, OF insertI1]
    have "proving bk p N rs s'" using proving_rest [OF pr t(1)] t(2) by blast
    then show ?thesis using t(3) hd(3) pr by (auto simp: completed_def proving_def)
  qed
  show ?thesis by (rule tripleI) (use main in \<open>auto simp: completed_def\<close>)
qed

lemma completed_duration:
  "triple (completed bk p N r rs) (update_prove_duration (p_env p) (req_id r))
     (\<lambda>_. proving bk p N rs) (proving bk p N rs)"
proof -
  have main: "proving bk p N rs s'" if co: "completed bk p N r rs s"
    and run: "update_prove_duration (p_env p) (req_id r) s = (x, s')" for s x s'
  proof -
    have c: "can_touch (req_id r) {} s" using co by (simp add: completed_def can_touch_def)
    have cm: "calm bk p N s" using co by (simp add: completed_def proving_def)
    note t = calm_touch [OF cm touches_updates(2) c run]
    have "q \<in> set (requests s')" if "q \<in> set rs" for q
    proof (rule t(2))
      have "req_id q \<in> req_id ` set rs" using that by simp
      then show "req_id q \<noteq> req_id r" using co by (auto simp only: completed_def)
      show "q \<in> set (requests s)" using co that by (auto simp: completed_def proving_def)
    qed
    then show ?thesis using co t(1) by (auto simp: completed_def proving_def)
  qed
  show ?thesis by (rule tripleI) (use main in auto)
qed


lemma process_proof_request_proving:
  "triple (proving bk p N (r # rs)) (process_proof_request_status p r)
     (\<lambda>_. proving bk p N rs) (calm bk p N)"
proof -
  have weak: "triple (proving bk p N (r # rs)) m Q (proving bk p N rs) \<Longrightarrow> triple (proving bk p N (r # rs)) m Q (calm bk p N)"
    for m :: "(proposer_state, 'x) op" and Q
    by (erule triple_weaken) (auto dest: proving_calm)
  have drop: "proving bk p N (r # rs) s \<Longrightarrow> proving bk p N rs s" for s
    by (auto simp: proving_def)
  have gauges: "triple (proving bk p N rs) (gauge_increment g) (\<lambda>_. proving bk p N rs) (calm bk p N)" for g
    by (rule triple_weaken [OF triple_keeps [OF keeps_gauges(1) [of "proving bk p N rs"]]])
      (auto dest: proving_calm)
  have finish: "triple (proving bk p N (r # rs)) (andThen (update_proof_to_complete (p_env p) (req_id r) b)
      (\<lambda>_. update_prove_duration (p_env p) (req_id r))) (\<lambda>_. proving bk p N rs) (calm bk p N)" for b
    by (rule triple_andThen [OF triple_weaken [OF proving_complete]],
        assumption, assumption, erule proving_calm,
        rule triple_weaken [OF completed_duration], assumption, assumption, erule proving_calm)
  have retried: "triple (proving bk p N (r # rs)) (handle_failed_request (p_requester p) r st)
      (\<lambda>_. proving bk p N rs) (calm bk p N)" for st
    by (rule weak [OF proving_failed])
  have timeout: "triple (proving bk p N (r # rs)) (andThen (onErr (handle_failed_request (p_requester p) r st)
        (\<lambda>_. gauge_increment ProofRequestRetryCount)
        (\<lambda>e. andThen (gauge_increment RetryErrorCount) (\<lambda>_. throw (Failure e)))) (\<lambda>_.
          gauge_increment ProofRequestTimeoutErrorCount)) (\<lambda>_. proving bk p N rs) (calm bk p N)" for st
    by (rule triple_andThen [OF triple_onErr [OF proving_failed]], rule gauges,
        rule triple_andThen [OF gauges], rule triple_throw, erule proving_calm, erule proving_calm,
        rule gauges)
  show ?thesis
    unfolding process_proof_request_status_def
    apply (intro triple_case_option triple_if)
       apply (rule triple_ret, erule drop)
      apply (rule triple_ret, erule drop)
     apply (rule triple_throw, erule proving_calm)
    apply (rule triple_read_then, intro tick_intros, simp, erule proving_calm)
    apply (rule triple_read_then, intro tick_intros, simp, erule proving_calm)
    apply (simp only: split_paired_all prod.case)
    apply (rule triple_read_then, intro tick_intros, simp, erule proving_calm)
    apply (intro triple_if)
       apply (rule timeout)
      apply (rule triple_read_then, intro tick_intros, simp, erule proving_calm)
      apply (rule triple_read_then)
         apply (auto intro!: tick_intros split: sp1_proof.splits)[1]
        apply simp
       apply (erule proving_calm)
      apply (rule finish)
     apply (rule triple_andThen [OF retried gauges])
    apply (rule triple_ret, erule drop)
    done
qed

lemma handle_proving_calm:
  "triple (calm bk p N) (handle_proving_requests p) (\<lambda>_. calm bk p N) (calm bk p N)"
  unfolding handle_proving_requests_def
proof (rule triple_if)
  show "triple (calm bk p N) (ret ()) (\<lambda>_. calm bk p N) (calm bk p N)" by (rule triple_ret)
next
  show "triple (calm bk p N) (andThen (fetch_requests_by_status (p_env p) Prove (p_commitments p) (p_l1 p) (p_l2 p))
      (\<lambda>rs. forEach (process_proof_request_status p) rs)) (\<lambda>_. calm bk p N) (calm bk p N)"
  proof (rule triple_andThen)
    show "triple (calm bk p N) (fetch_requests_by_status (p_env p) Prove (p_commitments p) (p_l1 p) (p_l2 p))
        (\<lambda>rs. proving bk p N rs) (calm bk p N)"
    proof (rule tripleI)
      fix s rs s' assume c: "calm bk p N s"
        and run: "fetch_requests_by_status (p_env p) Prove (p_commitments p) (p_l1 p) (p_l2 p) s = (Inr rs, s')"
      note sel = select_Ok [OF run [unfolded fetch_requests_by_status_def]]
      let ?f = "\<lambda>r. same_program (p_commitments p) r \<and> req_status r = Prove \<and> on_chains (p_l1 p) (p_l2 p) r"
      have eq: "mset (map req_id rs) = mset (map req_id (filter ?f (requests s)))"
        by (simp only: mset_map sel(1) mset_filter)
      have "distinct (map req_id (requests s))"
        using c unfolding calm_def stage_def inv_def db_ok_def by blast
      from distinct_map_filter [OF this] have "distinct (map req_id rs)"
        unfolding mset_eq_imp_distinct_iff [OF eq] .
      moreover have "ours p r" "req_status r = Prove" "r \<in> set (requests s)" if "r \<in> set rs" for r
        using that [unfolded sel(2) mem_Collect_eq] unfolding ours_def by blast+
      ultimately have "proving bk p N rs s" using c unfolding proving_def by blast
      then show "proving bk p N rs s'" by (simp only: sel(3) proving_update)
    next
      fix s e s' assume "calm bk p N s"
        "fetch_requests_by_status (p_env p) Prove (p_commitments p) (p_l1 p) (p_l2 p) s = (Inl e, s')"
      then show "calm bk p N s'" using tick_onlyD [OF queries_read(7)] by fastforce
    qed
    fix rs
    show "triple (proving bk p N rs) (forEach (process_proof_request_status p) rs) (\<lambda>_. calm bk p N) (calm bk p N)"
      by (rule triple_weaken [OF triple_forEach [where R = "proving bk p N"]])
        (auto intro: process_proof_request_proving dest: proving_calm)
  qed
qed


subsection \<open>New ranges\<close>

text \<open>
  What the environment is trusted with: the two sources of block numbers answer values that leave
  room for 64-bit arithmetic, and so does the configured interval.
\<close>

definition sane :: "('args, 'wit, 'stdin) proposer \<Rightarrow> bool" where
  "sane p \<longleftrightarrow> op_succinct_host (pr_host (p_requester p))
     \<and> (\<forall>t n. latest_block_number (p_contracts p) t = Inr n \<longrightarrow> 0 \<le> n \<and> n < 2 ^ 62)
     \<and> (\<forall>n s f s'. host_finalized_l2_block (pr_host (p_requester p)) n s = (Inr (Some f), s') \<longrightarrow>
          0 \<le> f \<and> f < 2 ^ 62)
     \<and> 0 < rc_range_proof_interval (p_config p) \<and> rc_range_proof_interval (p_config p) < 2 ^ 62"

lemma get_latest_reads [tick_intros]: "tick_only (get_latest_proposed_block_number p)"
  unfolding get_latest_proposed_block_number_def by (intro tick_intros)

lemma get_latest_Ok:
  "get_latest_proposed_block_number p s = (Inr n, s') \<Longrightarrow>
     latest_block_number (p_contracts p) (tick s) = Inr n"
  by (auto simp: get_latest_proposed_block_number_def andThen_eq_Ok call_def lift_def split: sum.splits)

lemma new_range_requests_reads [tick_intros]: "tick_only (new_range_requests p rs)"
  unfolding new_range_requests_def by (intro tick_intros)

text \<open>A new request for the range \<open>x\<close>.\<close>

definition new_request_for :: "range \<Rightarrow> request \<Rightarrow> bool" where
  "new_request_for x r \<longleftrightarrow> start_block r = fst x \<and> end_block r = snd x \<and> req_status r = Unrequested
     \<and> req_type r = Range"

lemma new_range_requests_Ok:
  "new_range_requests p rs s = (Inr news, s') \<Longrightarrow> list_all2 new_request_for rs news"
  unfolding new_range_requests_def
proof (induction rs arbitrary: news s s')
  case Nil
  then show ?case by (simp add: ret_def)
next
  case (Cons x rs)
  obtain b e where x: "x = (b, e)" by (cases x)
  obtain r s1 qs s2 where
    r: "create_range_request (p_env p) (proof_mode_of p) b e (cc_range_vkey_commitment (p_commitments p))
        (cc_rollup_config_hash (p_commitments p)) (p_l1 p) (p_l2 p) s = (Inr r, s1)"
    and qs: "traverse (\<lambda>(b, e). create_range_request (p_env p) (proof_mode_of p) b e
        (cc_range_vkey_commitment (p_commitments p)) (cc_rollup_config_hash (p_commitments p))
        (p_l1 p) (p_l2 p)) rs s1 = (Inr qs, s2)" and news: "news = r # qs"
    using Cons.prems by (auto simp: andThen_eq_Ok ret_def x)
  have "new_request_for x r" using create_range_request_Ok [OF r] by (simp add: new_request_for_def x)
  then show ?case using Cons.IH [OF qs] news by simp
qed

text \<open>The active ranges that start at or after \<open>n\<close>, as \<open>fetch_ranges_after_block\<close> returns them.\<close>

definition ranges_from :: "('args, 'wit, 'stdin) proposer \<Rightarrow> request list \<Rightarrow> int \<Rightarrow> range list \<Rightarrow> bool" where
  "ranges_from p rows n rs \<longleftrightarrow>
     (\<forall>x. x \<in> set rs \<longleftrightarrow> (\<exists>r \<in> set rows. live p r \<and> n \<le> start_block r \<and> x = (start_block r, end_block r)))"

lemma fetch_ranges_after_block_Ok:
  assumes "fetch_ranges_after_block (p_env p) active_statuses n (p_commitments p) (p_l1 p) (p_l2 p) s
    = (Inr rs, s')"
  shows "ranges_from p (requests s) n rs"
proof -
  obtain qs where qs: "select (p_env p) (\<lambda>r. same_program (p_commitments p) r \<and> req_status r \<in> set active_statuses
      \<and> req_type r = Range \<and> n \<le> start_block r \<and> on_chains (p_l1 p) (p_l2 p) r) s = (Inr qs, s')"
    and rs: "rs = map (\<lambda>r. (start_block r, end_block r)) qs"
    using assms by (auto simp: fetch_ranges_after_block_def andThen_eq_Ok ret_def)
  show ?thesis
    unfolding ranges_from_def rs set_map select_Ok(2) [OF qs] image_iff live_def ours_def Bex_def mem_Collect_eq
    by blast
qed

text \<open>The insertion that a call of \<open>add_new_ranges\<close> ends with, if it comes to one.\<close>

definition planned ::
  "('args, 'wit, 'stdin) proposer \<Rightarrow> proposer_state \<Rightarrow> request list \<Rightarrow> bool" where
  "planned p s news \<longleftrightarrow> (\<exists>n f ranges rs.
     latest_block_number (p_contracts p) (tick s) = Inr n \<and> 0 \<le> n \<and> n < 2 ^ 62 \<and> 0 \<le> f \<and> f < 2 ^ 62
     \<and> ranges_from p (requests s) n ranges
     \<and> get_ranges_to_prove (find_gaps n f (sort_key fst ranges)) (rc_range_proof_interval (p_config p)) = Some rs
     \<and> list_all2 new_request_for rs news)"

lemma add_new_ranges_cases:
  assumes sane: "sane p" and run: "add_new_ranges p s = (x, s')"
  obtains k where "s' = s\<lparr>tick := k\<rparr>"
  | k news where "planned p s news" "insert_requests (p_env p) news (s\<lparr>tick := k\<rparr>) = (x, s')"
  using run unfolding add_new_ranges_def
proof (cases rule: andThen_cases)
  case (first_fails e)
  then show ?thesis using that(1) tick_onlyD [OF get_latest_reads] by blast
next
  case latest: (second n s1)
  obtain k1 where s1: "s1 = s\<lparr>tick := k1\<rparr>" using tick_onlyD [OF get_latest_reads latest(1)] by blast
  have fin: "tick_only (host_finalized_l2_block (pr_host (p_requester p)) n)"
    by (rule op_succinct_host.finalized_reads) (use sane in \<open>simp add: sane_def\<close>)
  have n: "0 \<le> n" "n < 2 ^ 62" using sane get_latest_Ok [OF latest(1)] by (auto simp: sane_def)
  from latest(2) show ?thesis
  proof (cases rule: andThen_cases)
    case (first_fails e)
    then show ?thesis using that(1) tick_onlyD [OF fin first_fails(1)] s1 by auto
  next
    case finalized: (second fo s2)
    obtain k2 where s2: "s2 = s\<lparr>tick := k2\<rparr>" using tick_onlyD [OF fin finalized(1)] s1 by auto
    show ?thesis
    proof (cases fo)
      case None
      then show ?thesis using that(1) finalized(2) s2 by (auto simp: ret_def)
    next
      case (Some f)
      have f: "0 \<le> f" "f < 2 ^ 62" using sane finalized(1) unfolding Some sane_def by blast+
      have w: "as_i64 n = n" "as_i64 f = f"
        "as_i64 (rc_range_proof_interval (p_config p)) = rc_range_proof_interval (p_config p)"
        using n f sane by (simp_all add: int_bounds sane_def)
      from finalized(2) [unfolded Some option.case w] show ?thesis
      proof (cases rule: andThen_cases)
        case (first_fails e)
        then show ?thesis using that(1) tick_onlyD [OF queries_read(5) first_fails(1)] s2 by auto
      next
        case ranges: (second ranges s3)
        obtain k3 where s3: "s3 = s\<lparr>tick := k3\<rparr>" using tick_onlyD [OF queries_read(5) ranges(1)] s2 by auto
        have rf: "ranges_from p (requests s) n ranges"
          using fetch_ranges_after_block_Ok [OF ranges(1)] by (simp add: s2)
        from ranges(2) show ?thesis
        proof (cases rule: andThen_cases)
          case (first_fails e)
          then show ?thesis using that(1) s3 by (auto simp: lift_def)
        next
          case rs: (second rs s4)
          have s4: "s4 = s3" and g: "get_ranges_to_prove (find_gaps n f (sort_key fst ranges))
              (rc_range_proof_interval (p_config p)) = Some rs"
            using rs(1) by (auto simp: lift_def split: option.splits)
          show ?thesis
          proof (cases "rs = []")
            case True
            then show ?thesis using that(1) rs(2) s3 s4 by (auto simp: ret_def)
          next
            case False
            with rs(2) have "andThen (new_range_requests p rs) (insert_requests (p_env p)) s4 = (x, s')" by simp
            then show ?thesis
            proof (cases rule: andThen_cases)
              case (first_fails e)
              then show ?thesis using that(1) tick_onlyD [OF new_range_requests_reads first_fails(1)] s3 s4 by auto
            next
              case (second news s5)
              obtain k5 where s5: "s5 = s\<lparr>tick := k5\<rparr>"
                using tick_onlyD [OF new_range_requests_reads second(1)] s3 s4 by auto
              have "planned p s news"
                unfolding planned_def
                using get_latest_Ok [OF latest(1)] n f rf g new_range_requests_Ok [OF second(1)] by blast
              then show ?thesis using that(2) second(2) s5 by blast
            qed
          qed
        qed
      qed
    qed
  qed
qed

text \<open>Two non-empty ranges without a common block are apart.\<close>

lemma disjoint_apart:
  assumes "start_block r < end_block r" "start_block q < end_block q"
    and "blocks (start_block r, end_block r) \<inter> blocks (start_block q, end_block q) = {}"
  shows "apart r q"
proof (rule ccontr)
  assume "\<not> apart r q"
  then have "max (start_block r) (start_block q) \<in> blocks (start_block r, end_block r)"
    "max (start_block r) (start_block q) \<in> blocks (start_block q, end_block q)"
    using assms(1,2) by (auto simp: apart_def)
  then show False using assms(3) by blast
qed

lemma ranges_from_mem:
  "ranges_from p rows n rs \<Longrightarrow> x \<in> set rs \<Longrightarrow>
     \<exists>r \<in> set rows. live p r \<and> n \<le> start_block r \<and> fst x = start_block r \<and> snd x = end_block r"
  unfolding ranges_from_def by (metis fst_conv snd_conv)

lemma new_requests_sorted:
  "list_all2 new_request_for rs news \<Longrightarrow> in_order rs \<Longrightarrow> sorted_wrt apart news"
proof (induction rs news rule: list_all2_induct)
  case Nil
  then show ?case by simp
next
  case (Cons x xs r news)
  have "apart r q" if q: "q \<in> set news" for q
  proof -
    obtain i where i: "i < length news" "q = news ! i" using q by (auto simp: in_set_conv_nth)
    have len: "length xs = length news" using Cons.hyps(2) by (rule list_all2_lengthD)
    then have "new_request_for (xs ! i) q" using list_all2_nthD [OF Cons.hyps(2), of i] i by simp
    moreover have "snd x \<le> fst (xs ! i)" using Cons.prems i len by (simp add: in_order_Cons)
    ultimately show ?thesis using Cons.hyps(1) by (simp add: new_request_for_def apart_def)
  qed
  then show ?case using Cons by (simp add: in_order_Cons)
qed

lemma sorted_wrt_filter': "sorted_wrt P xs \<Longrightarrow> sorted_wrt P (filter Q xs)"
  by (induction xs) auto

lemma list_all2_mem:
  "list_all2 P xs ys \<Longrightarrow> y \<in> set ys \<Longrightarrow> \<exists>x \<in> set xs. P x y"
  by (induction xs ys rule: list_all2_induct) auto

lemma planned_fresh:
  assumes sane: "sane p" and rows: "live_rows p (requests s)" and plan: "planned p s news"
    and al: "\<And>n. latest_block_number (p_contracts p) (tick s) = Inr n \<Longrightarrow> aligned p {n} s"
  shows "fresh_blocks p (requests s) news"
proof -
  let ?m = "rc_range_proof_interval (p_config p)"
  obtain n f ranges rs where n: "latest_block_number (p_contracts p) (tick s) = Inr n"
    "0 \<le> n" "n < 2 ^ 62" and f: "0 \<le> f" "f < 2 ^ 62"
    and rf: "ranges_from p (requests s) n ranges"
    and g: "get_ranges_to_prove (find_gaps n f (sort_key fst ranges)) ?m = Some rs"
    and news: "list_all2 new_request_for rs news"
    using plan unfolding planned_def by blast
  let ?gaps = "find_gaps n f (sort_key fst ranges)"
  have good: "fst x < snd x \<and> n \<le> fst x \<and> snd x < 2 ^ 62" if x: "x \<in> set ranges" for x
  proof -
    obtain r where r: "r \<in> set (requests s)" "live p r" "n \<le> start_block r" "fst x = start_block r"
      "snd x = end_block r" using ranges_from_mem [OF rf x] by blast
    then have "good_blocks r" using rows unfolding live_rows_def by blast
    then show ?thesis using r by (simp add: good_blocks_def)
  qed
  have sorted: "sorted (map fst (sort_key fst ranges))" by simp
  have le: "\<forall>r \<in> set (sort_key fst ranges). fst r \<le> snd r" using good by (simp add: less_imp_le)
  have gap: "n \<le> fst g \<and> fst g < snd g \<and> snd g < 2 ^ 62" if g: "g \<in> set ?gaps" for g
  proof -
    have "snd g = f \<or> snd g \<in> fst ` set (sort_key fst ranges)" by (rule find_gaps_ends [OF g])
    then have "snd g < 2 ^ 62" using f good by force
    then show ?thesis using find_gaps_lower [OF g] by simp
  qed
  have m: "0 < ?m" "?m < 2 ^ 62" using sane by (simp_all add: sane_def)
  have "\<forall>g \<in> set ?gaps. fst g < snd g \<and> 0 \<le> fst g \<and> snd g + ?m \<le> i64_max"
    using gap n(2) m by (fastforce simp: i64_max_def)
  from get_ranges_to_prove_tiles [OF m(1) find_gaps_in_order [OF sorted le] this]
  obtain tail where o: "in_order (rs @ tail)" and inside:
    "\<forall>r \<in> set (rs @ tail). fst r < snd r \<and> (\<exists>g \<in> set ?gaps. blocks r \<subseteq> blocks g)"
    using g by auto
  have fine: "start_block r < end_block r \<and> 0 \<le> start_block r \<and> n \<le> start_block r \<and> end_block r < 2 ^ 62
      \<and> (\<forall>y \<in> blocks (start_block r, end_block r). y \<notin> all_blocks ranges)" if r: "r \<in> set news" for r
  proof -
    obtain x where x: "x \<in> set rs" "new_request_for x r" using list_all2_mem [OF news r] by blast
    obtain h where h: "h \<in> set ?gaps" "blocks x \<subseteq> blocks h" "fst x < snd x"
      using bspec [OF inside, of x] x(1) by (auto simp del: ivl_subset)
    have xs: "start_block r = fst x" "end_block r = snd x" using x(2) by (simp_all add: new_request_for_def)
    have "y \<notin> all_blocks ranges" if "y \<in> blocks x" for y
    proof -
      have "y \<in> all_blocks ?gaps" unfolding all_blocks_def using h(1,2) that by blast
      then have "y \<notin> all_blocks (sort_key fst ranges)" using find_gaps_disjoint [OF sorted le] by blast
      then show ?thesis by (simp add: all_blocks_def)
    qed
    moreover have "fst h \<le> fst x" "snd x \<le> snd h" using h(2,3) by auto
    ultimately show ?thesis using gap [OF h(1)] h(3) xs n(2) by auto
  qed
  have "apart q r" if r: "r \<in> set news" and q: "q \<in> set (requests s)" "live p q" for q r
  proof (cases "n \<le> start_block q")
    case True
    have "(start_block q, end_block q) \<in> set ranges"
      using rf q True unfolding ranges_from_def by blast
    then have "blocks (start_block q, end_block q) \<inter> blocks (start_block r, end_block r) = {}"
      using fine [OF r] by (fastforce simp: all_blocks_def)
    moreover have "good_blocks q" using rows q unfolding live_rows_def by blast
    ultimately show ?thesis using disjoint_apart [of q r] fine [OF r] by (simp add: good_blocks_def)
  next
    case False
    then have "end_block q \<le> n"
      using al [OF n(1)] q by (auto simp: aligned_def rows_aligned_def)
    then show ?thesis using fine [OF r] by (simp add: apart_def)
  qed
  moreover have "good_blocks r" if "r \<in> set news" for r
    using fine [OF that] by (simp add: good_blocks_def)
  moreover have "sorted_wrt apart (filter (live p) news)"
    using o by (intro sorted_wrt_filter' new_requests_sorted [OF news]) (simp add: in_order_append)
  ultimately show ?thesis unfolding fresh_blocks_def by blast
qed

definition unaligned_calm :: "book \<Rightarrow> ('args, 'wit, 'stdin) proposer \<Rightarrow> proposer_state \<Rightarrow> bool" where
  "unaligned_calm bk p s \<longleftrightarrow> inv bk p s \<and> nospawn s \<and> quiet s"

lemma calm_unaligned: "calm bk p N s \<Longrightarrow> unaligned_calm bk p s"
  by (simp add: calm_def stage_def unaligned_calm_def)

lemma unaligned_update [simp]:
  "unaligned_calm bk p (s\<lparr>tick := k\<rparr>) = unaligned_calm bk p s"
  "unaligned_calm bk p (s\<lparr>gauges := g\<rparr>) = unaligned_calm bk p s"
  "unaligned_calm bk p (s\<lparr>sent_txs := x\<rparr>) = unaligned_calm bk p s"
  by (simp_all add: unaligned_calm_def)

lemma inv_insert_requests:
  assumes "inv bk p s" "fresh_blocks p (requests s) news"
    and run: "insert_requests env news (s\<lparr>tick := k\<rparr>) = (x, s')"
  shows "inv bk p s' \<and> outside s' = outside s"
proof -
  have out: "outside s' = outside s" and n: "next_id s \<le> next_id s'"
    and rows: "requests s' = requests s \<or> requests s' = requests s @ assign_ids (next_id s) news
       \<and> next_id s' = next_id s + int (length news)"
    using insert_requests_cases [OF run] by auto
  from rows have "inv bk p s'"
    using inv_next_id [OF assms(1) _ n out] inv_append [OF assms(1,2) _ _ out] by blast
  then show ?thesis using out by blast
qed

lemma add_new_ranges_inv:
  assumes sane: "sane p" and c: "unaligned_calm bk p s" and run: "add_new_ranges p s = (x, s')"
    and al: "\<And>n. latest_block_number (p_contracts p) (tick s) = Inr n \<Longrightarrow> aligned p {n} s"
  shows "unaligned_calm bk p s'"
  using sane run
proof (cases rule: add_new_ranges_cases)
  case (1 k)
  then show ?thesis using c by simp
next
  case (2 k news)
  have i: "inv bk p s" using c by (simp add: unaligned_calm_def)
  then have "fresh_blocks p (requests s) news"
    using planned_fresh [OF sane _ 2(1) al] by (simp add: inv_def)
  from inv_insert_requests [OF i this 2(2)] have *: "inv bk p s'" "outside s' = outside s" by simp_all
  then show ?thesis using c outside_states [OF *(2)] by (simp add: unaligned_calm_def)
qed

subsection \<open>The other methods\<close>

lemma keeps_unaligned_reads [keeps_intros]:
  "keeps (unaligned_calm bk p) (get_latest_proposed_block_number p)"
  "keeps (unaligned_calm bk p) (now env)"
  "keeps (unaligned_calm bk p) (get_l1_header renv b)" "keeps (unaligned_calm bk p) (get_l2_header renv b)"
  "keeps (unaligned_calm bk p) (get_l2_output_at_block renv n)"
  by (rule keeps_tick_only; (intro tick_intros)?; simp)+

lemma keeps_insert_dead:
  assumes "\<not> live p r"
  shows "keeps (unaligned_calm bk p) (insert_request env r)"
  unfolding insert_request_def
proof (rule keeps_db_exec)
  fix t s assume c: "unaligned_calm bk p s"
  let ?s' = "append_rows [r] s"
  have s': "requests ?s' = requests s @ assign_ids (next_id s) [r]"
    "next_id ?s' = next_id s + int (length [r])" "outside ?s' = outside s"
    unfolding append_rows_def by simp_all
  have "fresh_blocks p (requests s) [r]" using assms by (simp add: fresh_blocks_def)
  then have "inv bk p ?s'"
    using inv_append [OF _ _ s'(1,2,3)] c unfolding unaligned_calm_def by blast
  then show "unaligned_calm bk p ?s'" using c outside_states [OF s'(3)] by (simp add: unaligned_calm_def)
qed simp

lemma keeps_send_tx [keeps_intros]:
  "(\<And>s x. P (s\<lparr>sent_txs := x\<rparr>) = P s) \<Longrightarrow> (\<And>s k. P (s\<lparr>tick := k\<rparr>) = P s) \<Longrightarrow> keeps P (send_tx p x)"
  unfolding send_tx_def by (intro keeps_intros) simp_all

lemma keeps_checkpoint [keeps_intros]: "keeps (unaligned_calm bk p) (checkpoint_l1_block q existing)"
  unfolding checkpoint_l1_block_def
  by (cases existing) (auto intro!: keeps_intros)

lemma keeps_case_prod [keeps_intros]:
  "(\<And>a b. keeps P (f a b)) \<Longrightarrow> keeps P (case x of (a, b) \<Rightarrow> f a b)"
  by (cases x) auto

lemma create_aggregation_proofs_calm: "keeps (unaligned_calm bk p) (create_aggregation_proofs p)"
  unfolding create_aggregation_proofs_def Let_def
  by (intro keeps_intros keeps_insert_dead; simp add: live_def)

lemma keeps_relay [keeps_intros]:
  assumes "\<And>s k. P (s\<lparr>tick := k\<rparr>) = P s" "\<And>s x. P (s\<lparr>sent_txs := x\<rparr>) = P s"
  shows "keeps P (relay_aggregation_proof p r)"
proof -
  have reads: "tick_only m \<Longrightarrow> keeps P m" for m :: "(proposer_state, 'x) op"
    by (rule keeps_tick_only) (simp_all add: assms(1))
  note r = reads [OF fetcher_tick_only(8)]
  show ?thesis
    unfolding relay_aggregation_proof_def relay_transaction_def
    by (intro keeps_intros r; simp add: assms)
qed

lemma keeps_counting [keeps_intros]:
  "keeps P m \<Longrightarrow> (\<And>s g. P (s\<lparr>gauges := g\<rparr>) = P s) \<Longrightarrow> keeps P (counting v m)"
  unfolding counting_def by (intro keeps_intros)

lemma keeps_validate_contract [keeps_intros]:
  "(\<And>s. P s \<Longrightarrow> P (s\<lparr>tick := Suc (tick s)\<rparr>)) \<Longrightarrow> keeps P (validate_contract_config p)"
  unfolding validate_contract_config_def by (intro keeps_intros)

lemma keeps_log_metrics:
  assumes "\<And>s k. P (s\<lparr>tick := k\<rparr>) = P s" "\<And>s g. P (s\<lparr>gauges := g\<rparr>) = P s"
  shows "keeps P (log_proposer_metrics p)"
proof -
  have reads: "tick_only m \<Longrightarrow> keeps P m" for m :: "(proposer_state, 'x) op"
    by (rule keeps_tick_only) (simp_all add: assms(1))
  note r = reads [OF get_latest_reads] reads [OF fetcher_tick_only(2)]
  show ?thesis
    unfolding log_proposer_metrics_def Let_def
    by (intro keeps_intros r; simp add: assms)
qed

subsection \<open>Spawning and relaying\<close>

definition settled :: "book \<Rightarrow> ('args, 'wit, 'stdin) proposer \<Rightarrow> proposer_state \<Rightarrow> bool" where
  "settled bk p s \<longleftrightarrow> inv bk p s \<and> quiet s"

lemma settled_update [simp]:
  "settled bk p (s\<lparr>tick := k\<rparr>) = settled bk p s" "settled bk p (s\<lparr>gauges := g\<rparr>) = settled bk p s"
  "settled bk p (s\<lparr>sent_txs := x\<rparr>) = settled bk p s" "settled bk p (s\<lparr>chain_locks := l\<rparr>) = settled bk p s"
  by (simp_all add: settled_def inv_def db_ok_def quiet_def task_states_def)

lemma unaligned_settled: "unaligned_calm bk p s \<Longrightarrow> settled bk p s"
  by (simp add: unaligned_calm_def settled_def)

lemma first_sorted_mem: "first_row (sort_key f rs) = Some r \<Longrightarrow> r \<in> set rs"
  using first_row_mem by fastforce

text \<open>A request that waits in the table.\<close>

definition waiting :: "book \<Rightarrow> ('args, 'wit, 'stdin) proposer \<Rightarrow> request \<Rightarrow> proposer_state \<Rightarrow> bool" where
  "waiting bk p r s \<longleftrightarrow> unaligned_calm bk p s \<and> r \<in> set (requests s) \<and> ours p r \<and> req_status r = Unrequested"

lemma waiting_update [simp]:
  "waiting bk p r (s\<lparr>tick := k\<rparr>) = waiting bk p r s" "waiting bk p r (s\<lparr>gauges := g\<rparr>) = waiting bk p r s"
  by (simp_all add: waiting_def)

lemma fetch_unrequested_waiting:
  "unaligned_calm bk p s \<Longrightarrow>
   fetch_unrequested_agg_proof (p_env p) n (p_commitments p) (p_l1 p) (p_l2 p) s = (Inr (Some r), s') \<Longrightarrow>
   waiting bk p r s'"
  "unaligned_calm bk p s \<Longrightarrow>
   fetch_first_unrequested_range_proof (p_env p) n (p_commitments p) (p_l1 p) (p_l2 p) s = (Inr (Some r), s') \<Longrightarrow>
   waiting bk p r s'"
proof -
  assume c: "unaligned_calm bk p s"
  {
    assume "fetch_unrequested_agg_proof (p_env p) n (p_commitments p) (p_l1 p) (p_l2 p) s = (Inr (Some r), s')"
    then obtain rs where sel: "select (p_env p) (\<lambda>r. same_program (p_commitments p) r
         \<and> same_agg (p_commitments p) r \<and> req_status r = Unrequested \<and> req_type r = Aggregation
         \<and> n \<le> start_block r \<and> on_chains (p_l1 p) (p_l2 p) r) s = (Inr rs, s')"
      and r: "first_row (sort_key start_block rs) = Some r"
      unfolding fetch_unrequested_agg_proof_def andThen_eq_Ok ret_def by auto
    show "waiting bk p r s'"
      using first_sorted_mem [OF r] c unfolding select_Ok(2,3) [OF sel] waiting_update mem_Collect_eq
      by (simp add: waiting_def ours_def)
  next
    assume "fetch_first_unrequested_range_proof (p_env p) n (p_commitments p) (p_l1 p) (p_l2 p) s = (Inr (Some r), s')"
    then obtain rs where sel: "select (p_env p) (\<lambda>r. same_program (p_commitments p) r
         \<and> req_status r = Unrequested \<and> req_type r = Range
         \<and> n \<le> start_block r \<and> on_chains (p_l1 p) (p_l2 p) r) s = (Inr rs, s')"
      and r: "first_row (sort_key start_block rs) = Some r"
      unfolding fetch_first_unrequested_range_proof_def andThen_eq_Ok ret_def by auto
    show "waiting bk p r s'"
      using first_sorted_mem [OF r] c unfolding select_Ok(2,3) [OF sel] waiting_update mem_Collect_eq
      by (simp add: waiting_def ours_def)
  }
qed

definition next_waiting :: "book \<Rightarrow> ('args, 'wit, 'stdin) proposer \<Rightarrow> request option \<Rightarrow> proposer_state \<Rightarrow> bool" where
  "next_waiting bk p x s \<longleftrightarrow> (case x of None \<Rightarrow> unaligned_calm bk p s | Some r \<Rightarrow> waiting bk p r s)"

lemma next_waiting_simps [simp]:
  "next_waiting bk p None s = unaligned_calm bk p s" "next_waiting bk p (Some r) s = waiting bk p r s"
  "next_waiting bk p x (s\<lparr>tick := k\<rparr>) = next_waiting bk p x s"
  "next_waiting bk p x (s\<lparr>gauges := g\<rparr>) = next_waiting bk p x s"
  by (simp_all add: next_waiting_def split: option.splits)

lemma next_waiting_calm: "next_waiting bk p x s \<Longrightarrow> unaligned_calm bk p s"
  by (cases x) (simp_all add: waiting_def)

lemma fetch_next_waiting:
  "triple (unaligned_calm bk p) (fetch_unrequested_agg_proof (p_env p) n (p_commitments p) (p_l1 p) (p_l2 p))
     (next_waiting bk p) (unaligned_calm bk p)"
  "triple (unaligned_calm bk p) (fetch_first_unrequested_range_proof (p_env p) n (p_commitments p) (p_l1 p) (p_l2 p))
     (next_waiting bk p) (unaligned_calm bk p)"
proof -
  have weak: "triple (unaligned_calm bk p) m (next_waiting bk p) (unaligned_calm bk p)"
    if ro: "tick_only m" and w: "\<And>s r s'. unaligned_calm bk p s \<Longrightarrow> m s = (Inr (Some r), s') \<Longrightarrow> waiting bk p r s'"
    for m :: "(proposer_state, request option) op"
  proof (rule tripleI)
    fix s x s' assume c: "unaligned_calm bk p s" and run: "m s = (Inr x, s')"
    obtain k where "s' = s\<lparr>tick := k\<rparr>" using tick_onlyD [OF ro run] by blast
    then show "next_waiting bk p x s'" using c w [OF c] run by (cases x) auto
  next
    fix s e s' assume "unaligned_calm bk p s" "m s = (Inl e, s')"
    then show "unaligned_calm bk p s'" using tick_onlyD [OF ro] by fastforce
  qed
  show "triple (unaligned_calm bk p) (fetch_unrequested_agg_proof (p_env p) n (p_commitments p) (p_l1 p) (p_l2 p))
     (next_waiting bk p) (unaligned_calm bk p)"
    by (rule weak, intro tick_intros) (rule fetch_unrequested_waiting(1))
  show "triple (unaligned_calm bk p) (fetch_first_unrequested_range_proof (p_env p) n (p_commitments p) (p_l1 p) (p_l2 p))
     (next_waiting bk p) (unaligned_calm bk p)"
    by (rule weak, intro tick_intros) (rule fetch_unrequested_waiting(2))
qed

lemma get_next_waiting:
  "triple (unaligned_calm bk p) (get_next_unrequested_proof p) (next_waiting bk p) (unaligned_calm bk p)"
  unfolding get_next_unrequested_proof_def
proof (rule triple_read_then, intro tick_intros)
  fix n
  show "triple (unaligned_calm bk p)
      (andThen (fetch_unrequested_agg_proof (p_env p) (as_i64 n) (p_commitments p) (p_l1 p) (p_l2 p)) (\<lambda>agg.
       andThen
         (case agg of
            None \<Rightarrow> ret False
          | Some a \<Rightarrow>
              andThen (get_consecutive_complete_range_proofs (p_env p) (start_block a) (end_block a)
                         (p_commitments p) (p_l1 p) (p_l2 p)) (\<lambda>range_proofs.
                if validate_aggregation_request range_proofs a then ret True
                else andThen (gauge_increment AggProofValidationErrorCount) (\<lambda>_. ret False))) (\<lambda>valid.
         if valid then ret agg
         else fetch_first_unrequested_range_proof (p_env p) (as_i64 n) (p_commitments p) (p_l1 p) (p_l2 p))))
      (next_waiting bk p) (unaligned_calm bk p)"
  proof (rule triple_andThen [OF fetch_next_waiting(1)], rule triple_keeps_then)
    fix agg
    show "keeps (next_waiting bk p agg)
        (case agg of
            None \<Rightarrow> ret False
          | Some a \<Rightarrow>
              andThen (get_consecutive_complete_range_proofs (p_env p) (start_block a) (end_block a)
                         (p_commitments p) (p_l1 p) (p_l2 p)) (\<lambda>range_proofs.
                if validate_aggregation_request range_proofs a then ret True
                else andThen (gauge_increment AggProofValidationErrorCount) (\<lambda>_. ret False)))"
      by (intro keeps_intros; simp)
    show "next_waiting bk p agg s \<Longrightarrow> unaligned_calm bk p s" for s by (rule next_waiting_calm)
    show "triple (next_waiting bk p agg) (if valid then ret agg
         else fetch_first_unrequested_range_proof (p_env p) (as_i64 n) (p_commitments p) (p_l1 p) (p_l2 p))
         (next_waiting bk p) (unaligned_calm bk p)" for valid
      by (rule triple_if, rule triple_ret, assumption,
          rule triple_weaken [OF fetch_next_waiting(2)]) (auto dest: next_waiting_calm)
  qed
qed simp_all

lemma spawn_settled: "triple (waiting bk p r) (insert_task (req_id r) Spawned r) (\<lambda>_. settled bk p) (settled bk p)"
  unfolding insert_task_def
proof (rule triple_update)
  fix s assume w: "waiting bk p r s"
  have i: "inv bk p s" and calm: "nospawn s" "quiet s" and r: "r \<in> set (requests s)" "ours p r"
    "req_status r = Unrequested"
    using w by (simp_all add: waiting_def unaligned_calm_def)
  have new: "fst t \<noteq> req_id r" if t: "t \<in> set (tasks s)" for t
  proof
    assume id: "fst t = req_id r"
    obtain u q where tq: "t = (req_id r, u, q)" using id by (cases t) auto
    have "task_fits p (requests s) t" using i t unfolding inv_def tasks_fit_def by blast
    then obtain x where x: "x \<in> set (requests s)" "same_request x q" "status_fits u (req_status x)"
      "req_id q = req_id r"
      unfolding task_fits_def tq by auto
    have "req_id x = req_id r" using x by (simp add: same_request_def)
    then have "x = r" using row_unique [of s x r] i r(1) x(1) by (simp add: inv_def)
    moreover have "u \<noteq> Spawned" "\<not> is_finished u"
      using t calm unfolding tq nospawn_def quiet_def task_states_def by force+
    ultimately show False using x(3) r(3) by (cases u) (simp_all add: is_finished_def)
  qed
  have same: "filter (\<lambda>t. fst t \<noteq> req_id r) (tasks s) = tasks s" "filter (\<lambda>t. fst t = req_id r) (tasks s) = []"
    using new by (simp_all add: filter_empty_conv filter_id_conv)
  have "task_fits p (requests s) (req_id r, Spawned, r)"
    unfolding task_fits_def prod.case status_fits.simps using r same_request_refl by blast
  moreover have "req_id r \<notin> fst ` set (tasks s)" using new by force
  ultimately have "tasks_fit p (requests s) (tasks s @ [(req_id r, Spawned, r)])"
    using i unfolding inv_def tasks_fit_def by auto
  moreover have "quiet (s\<lparr>tasks := tasks s @ [(req_id r, Spawned, r)]\<rparr>)"
    using calm(2) by (simp add: quiet_def task_states_def is_finished_def)
  ultimately show "settled bk p (s\<lparr>tasks := filter (\<lambda>t. fst t \<noteq> req_id r) (tasks s) @ [(req_id r, Spawned, r)],
      detached := detached s @ filter (\<lambda>t. fst t = req_id r) (tasks s)\<rparr>)"
    using i unfolding same settled_def inv_def quiet_def task_states_def by (simp add: db_ok_def)
qed

lemma request_queued_settled:
  "triple (unaligned_calm bk p) (request_queued_proofs p) (\<lambda>_. settled bk p) (settled bk p)"
proof -
  have ret: "triple (unaligned_calm bk p) (ret u) (\<lambda>_. settled bk p) (settled bk p)" for u
    by (rule triple_ret) (rule unaligned_settled)
  have next_one: "triple (next_waiting bk p x) (case x of None \<Rightarrow> ret () | Some r \<Rightarrow> insert_task (req_id r) Spawned r)
      (\<lambda>_. settled bk p) (settled bk p)" for x
  proof (cases x)
    case None
    have "next_waiting bk p None = unaligned_calm bk p" by (rule ext) simp
    then show ?thesis using ret None by simp
  next
    case (Some r)
    have "next_waiting bk p (Some r) = waiting bk p r" by (rule ext) simp
    then show ?thesis using spawn_settled Some by simp
  qed
  have get_next: "triple (unaligned_calm bk p) (get_next_unrequested_proof p) (next_waiting bk p) (settled bk p)"
    by (rule triple_weaken [OF get_next_waiting [of bk p]]) (simp_all add: unaligned_settled)
  show ?thesis
    unfolding request_queued_proofs_def
    apply (rule triple_read_then, intro tick_intros, simp, erule unaligned_settled)
    apply (rule triple_read_then, intro tick_intros, simp, erule unaligned_settled)
    apply (rule triple_read_then, intro tick_intros, simp, erule unaligned_settled)
    apply (intro triple_if ret)
    apply (rule triple_andThen [OF get_next next_one])
    done
qed

lemma settled_touch:
  assumes "settled bk p s" "touches i S m" "can_touch i S s" "m s = (x, s')"
  shows "settled bk p s'"
  using inv_touch [OF _ assms(2-4)] outside_states(2) assms(1) unfolding settled_def by metis

text \<open>The complete aggregation that is relayed.\<close>

definition relaying :: "book \<Rightarrow> ('args, 'wit, 'stdin) proposer \<Rightarrow> int \<Rightarrow> proposer_state \<Rightarrow> bool" where
  "relaying bk p i s \<longleftrightarrow> settled bk p s \<and> i \<notin> task_ids s"

lemma relaying_update [simp]:
  "relaying bk p i (s\<lparr>tick := k\<rparr>) = relaying bk p i s" "relaying bk p i (s\<lparr>gauges := g\<rparr>) = relaying bk p i s"
  "relaying bk p i (s\<lparr>sent_txs := x\<rparr>) = relaying bk p i s"
  by (simp_all add: relaying_def task_ids_def)

lemma fetch_completed_relaying:
  "triple (settled bk p) (fetch_completed_agg_proof_after_block (p_env p) n (p_commitments p) (p_l1 p) (p_l2 p))
     (\<lambda>x s. settled bk p s \<and> (\<forall>r. x = Some r \<longrightarrow> relaying bk p (req_id r) s)) (settled bk p)"
    (is "triple _ ?m _ _")
proof (rule tripleI)
  fix s x s' assume c: "settled bk p s" and run: "?m s = (Inr x, s')"
  obtain k where s': "s' = s\<lparr>tick := k\<rparr>" using tick_onlyD [OF queries_read(14) run] by blast
  have "relaying bk p (req_id r) s'" if x: "x = Some r" for r
  proof -
    obtain rs where sel: "select (p_env p) (\<lambda>r. same_program (p_commitments p) r
         \<and> same_agg (p_commitments p) r \<and> req_status r = Complete \<and> req_type r = Aggregation
         \<and> start_block r = n \<and> on_chains (p_l1 p) (p_l2 p) r) s = (Inr rs, s')"
      and r: "first_row (sort_key start_block rs) = Some r"
      using run unfolding x fetch_completed_agg_proof_after_block_def andThen_eq_Ok ret_def by auto
    have "r \<in> set (requests s)" "req_status r = Complete"
      using first_sorted_mem [OF r] unfolding select_Ok(2) [OF sel] by simp_all
    then have "req_id r \<notin> task_ids s"
      using not_in_tasks [of bk p s r] c by (simp add: settled_def)
    then show ?thesis using c s' by (simp add: relaying_def task_ids_def)
  qed
  then show "settled bk p s' \<and> (\<forall>r. x = Some r \<longrightarrow> relaying bk p (req_id r) s')" using c s' by simp
next
  fix s e s' assume "settled bk p s" "?m s = (Inl e, s')"
  then show "settled bk p s'" using tick_onlyD [OF queries_read(14)] by fastforce
qed

lemma submit_settled: "triple (settled bk p) (submit_agg_proofs p) (\<lambda>_. settled bk p) (settled bk p)"
  unfolding submit_agg_proofs_def
proof (rule triple_read_then, intro tick_intros)
  fix n
  let ?do = "\<lambda>r. andThen (counting RelayAggProofErrorCount (relay_aggregation_proof p r)) (\<lambda>hash.
             update_request_to_relayed (p_env p) (req_id r) hash (rc_l2oo_address (p_config p)))"
  have relay: "triple (relaying bk p (req_id r)) (?do r) (\<lambda>_. settled bk p) (settled bk p)" for r
  proof (rule triple_keeps_then)
    show "keeps (relaying bk p (req_id r)) (counting RelayAggProofErrorCount (relay_aggregation_proof p r))"
      by (intro keeps_intros; simp)
    show "relaying bk p (req_id r) s \<Longrightarrow> settled bk p s" for s by (simp add: relaying_def)
    fix hash
    show "triple (relaying bk p (req_id r))
        (update_request_to_relayed (p_env p) (req_id r) hash (rc_l2oo_address (p_config p))) (\<lambda>_. settled bk p) (settled bk p)"
    proof (rule triple_both)
      fix s x s' assume c: "relaying bk p (req_id r) s" and
        run: "update_request_to_relayed (p_env p) (req_id r) hash (rc_l2oo_address (p_config p)) s = (x, s')"
      have "can_touch (req_id r) {Relayed} s" using c by (simp add: can_touch_def relaying_def inactive)
      then show "settled bk p s'"
        using settled_touch [OF _ touches_status(4) _ run, OF _ insertI1] c unfolding relaying_def by blast
    qed
  qed
  show "triple (settled bk p)
      (andThen (fetch_completed_agg_proof_after_block (p_env p) (as_i64 n) (p_commitments p) (p_l1 p) (p_l2 p))
        (\<lambda>completed. case completed of None \<Rightarrow> ret () | Some r \<Rightarrow> ?do r)) (\<lambda>_. settled bk p) (settled bk p)"
  proof (rule triple_andThen [OF fetch_completed_relaying], rule triple_case_option)
    fix x :: "request option" assume "x = None"
    show "triple (\<lambda>s. settled bk p s \<and> (\<forall>r. x = Some r \<longrightarrow> relaying bk p (req_id r) s)) (ret ()) (\<lambda>_. settled bk p) (settled bk p)"
      by (rule triple_ret) simp
  next
    fix x :: "request option" and r assume "x = Some r"
    then show "triple (\<lambda>s. settled bk p s \<and> (\<forall>r. x = Some r \<longrightarrow> relaying bk p (req_id r) s)) (?do r) (\<lambda>_. settled bk p) (settled bk p)"
      by (intro triple_weaken [OF relay]) simp_all
  qed
qed simp_all

lemma update_chain_lock_settled: "keeps (settled bk p) (update_chain_lock env l1 l2)"
  unfolding update_chain_lock_def by (rule keeps_db_exec) simp_all

subsection \<open>A whole turn\<close>

lemma andThen_assoc: "andThen (andThen m f) g = andThen m (\<lambda>x. andThen (f x) g)"
  by (rule ext) (simp add: andThen_def split: prod.splits sum.splits)

definition before_ranges :: "('args, 'wit, 'stdin) proposer \<Rightarrow> (proposer_state, unit) op" where
  "before_ranges p =
     andThen (validate_contract_config p) (\<lambda>_.
     andThen (log_proposer_metrics p) (\<lambda>_.
     andThen (handle_ongoing_tasks p) (\<lambda>_.
     andThen (set_orphaned_tasks_to_failed p) (\<lambda>_. handle_proving_requests p))))"

definition after_ranges :: "('args, 'wit, 'stdin) proposer \<Rightarrow> (proposer_state, unit) op" where
  "after_ranges p =
     andThen (create_aggregation_proofs p) (\<lambda>_.
     andThen (request_queued_proofs p) (\<lambda>_.
     andThen (submit_agg_proofs p) (\<lambda>_. update_chain_lock (p_env p) (p_l1 p) (p_l2 p))))"

lemma run_loop_iteration_parts:
  "run_loop_iteration p = andThen (before_ranges p) (\<lambda>_. andThen (add_new_ranges p) (\<lambda>_. after_ranges p))"
  unfolding run_loop_iteration_def before_ranges_def after_ranges_def andThen_assoc ..

text \<open>
  What a turn needs of the contract: when \<open>add_new_ranges\<close> reads the latest proposed block, that
  block does not lie strictly inside an active range.
\<close>

definition range_aligned :: "('args, 'wit, 'stdin) proposer \<Rightarrow> proposer_state \<Rightarrow> bool" where
  "range_aligned p s \<longleftrightarrow> (\<forall>u s1 n. before_ranges p s = (Inr u, s1) \<longrightarrow>
     latest_block_number (p_contracts p) (tick s1) = Inr n \<longrightarrow> aligned p {n} s1)"

lemma before_ranges_calm: "triple (stage bk p N) (before_ranges p) (\<lambda>_. calm bk p N) (stage bk p N)"
proof -
  have stage: "calm bk p N s \<Longrightarrow> stage bk p N s" for s by (simp add: calm_def)
  have orphaned: "triple (calm bk p N) (set_orphaned_tasks_to_failed p) (\<lambda>_. calm bk p N) (stage bk p N)"
    by (rule triple_weaken [OF set_orphaned_calm [of bk p N]]) (simp_all add: stage)
  have proving: "triple (calm bk p N) (handle_proving_requests p) (\<lambda>_. calm bk p N) (stage bk p N)"
    by (rule triple_weaken [OF handle_proving_calm [of bk p N]]) (simp_all add: stage)
  have "keeps (stage bk p N) (validate_contract_config p)" by (intro keeps_intros) simp
  moreover have "keeps (stage bk p N) (log_proposer_metrics p)" by (rule keeps_log_metrics) simp_all
  ultimately show ?thesis
    unfolding before_ranges_def
    by (intro triple_keeps_then triple_andThen [OF handle_ongoing_calm] triple_andThen [OF orphaned] proving)
qed

lemma after_ranges_settled: "triple (unaligned_calm bk p) (after_ranges p) (\<lambda>_. settled bk p) (settled bk p)"
  unfolding after_ranges_def
  by (intro triple_keeps_then [OF create_aggregation_proofs_calm] triple_andThen [OF request_queued_settled]
      triple_andThen [OF submit_settled] triple_keeps update_chain_lock_settled) (rule unaligned_settled)

lemma turn_inv:
  assumes sane: "sane p" and i: "inv bk p s" "nospawn s" and al: "range_aligned p s"
    and run: "run_turn p s = (x, s')"
  shows "inv bk p s'"
proof -
  obtain y s1 where y: "run_loop_iteration p s = (y, s1)" by fastforce
  have "inv bk p s1"
    using y unfolding run_loop_iteration_parts
  proof (cases rule: andThen_cases)
    case (first_fails e)
    moreover have "stage bk p {} s" using i by (simp add: stage_def aligned_def rows_aligned_def)
    ultimately have "stage bk p {} s1" using tripleD_Err [OF before_ranges_calm] by blast
    then show ?thesis by (simp add: stage_def)
  next
    case (second u s2)
    have "stage bk p {} s" using i by (simp add: stage_def aligned_def rows_aligned_def)
    then have c: "unaligned_calm bk p s2"
      using tripleD_Ok [OF before_ranges_calm _ second(1)] calm_unaligned by blast
    have al2: "aligned p {n} s2" if "latest_block_number (p_contracts p) (tick s2) = Inr n" for n
      using al second(1) that unfolding range_aligned_def by blast
    from second(2) show ?thesis
    proof (cases rule: andThen_cases)
      case (first_fails e)
      then show ?thesis using add_new_ranges_inv [OF sane c first_fails(1) al2]
        by (simp add: unaligned_calm_def)
    next
      case (second v s3)
      have "unaligned_calm bk p s3" by (rule add_new_ranges_inv [OF sane c second(1) al2])
      then have "settled bk p s1"
        using after_ranges_settled [of bk p] second(2) unfolding triple_iff by (cases y) blast+
      then show ?thesis by (simp add: settled_def)
    qed
  qed
  moreover have "s' = s1 \<or> (\<exists>g. s' = s1\<lparr>gauges := g\<rparr>)"
    using run y by (auto simp: run_turn_def onErr_def ret_def gauge_increment_def update_def
        split: sum.splits fault.splits)
  ultimately show ?thesis by auto
qed

subsection \<open>Steps in the background\<close>

lemma set_task_simps [simp]:
  "requests (set_task i st s) = requests s" "detached (set_task i st s) = detached s"
  "next_id (set_task i st s) = next_id s"
  "tasks (set_task i st s) = map (\<lambda>(j, u, r). if j = i then (j, st, r) else (j, u, r)) (tasks s)"
  by (simp_all add: set_task_def)

lemma status_fits_active: "status_fits u st \<Longrightarrow> st \<in> set active_statuses"
  by (cases u) (auto simp: active_statuses_def)

text \<open>A task changes its own row and nothing else.\<close>

lemma inv_own_row:
  assumes inv: "inv bk p s" and t: "(i, u, r) \<in> set (tasks s)" and touch: "touches i S m"
    and S: "S \<subseteq> set active_statuses" and run: "m s = (x, s')"
    and fits: "\<And>q. q \<in> set (requests s') \<Longrightarrow> req_id q = i \<Longrightarrow> req_status q \<in> set active_statuses \<Longrightarrow>
      status_fits st (req_status q)"
  shows "inv bk p (set_task i st s')"
proof -
  obtain g where g: "row_change i S g" and rows: "requests s' = map g (requests s)"
    and n: "next_id s' = next_id s" and out: "outside s' = outside s"
    using touchesD [OF touch run] by blast
  have same: "same_request (g q) q" "req_id (g q) = req_id q" "req_id q \<noteq> i \<Longrightarrow> g q = q"
    "req_status (g q) = req_status q \<or> req_status (g q) \<in> S" for q
    using g by (auto simp: row_change_def same_request_def)
  have tf: "tasks_fit p (requests s) (tasks s)" using inv by (simp add: inv_def)
  then have "task_fits p (requests s) (i, u, r)" using t unfolding tasks_fit_def by blast
  then obtain q where q: "q \<in> set (requests s)" "same_request q r" "status_fits u (req_status q)"
    and r: "req_id r = i" "ours p r"
    unfolding task_fits_def by auto
  have qi: "req_id q = i" using q(2) r by (simp add: same_request_def)
  have only: "y = q" if "y \<in> set (requests s)" "req_id y = i" for y
    using row_unique [of s y q] inv q(1) qi that by (simp add: inv_def)
  have act: "req_status q \<in> set active_statuses" by (rule status_fits_active [OF q(3)])
  have lv: "live p y" if y: "y \<in> set (requests s)" "live p (g y)" for y
  proof (cases "req_id y = i")
    case True
    then have "y = q" using only y(1) by blast
    moreover have "ours p (g y) = ours p y" by (rule same_request_ours [OF same(1)])
    moreover have "req_type (g y) = req_type y" using same(1) [of y] by (simp add: same_request_def)
    ultimately show ?thesis using y(2) act by (simp add: live_def)
  next
    case False
    then show ?thesis using y same(3) by simp
  qed
  have "map req_id (requests s') = map req_id (requests s)" by (simp add: rows same(2))
  then have ok: "db_ok s'" using db_ok_same_ids [of s s'] inv n by (simp add: inv_def)
  have lr: "live_rows p (requests s')"
    unfolding rows by (rule live_rows_map [OF _ same(1) lv]) (use inv in \<open>simp_all add: inv_def\<close>)
  have bkd: "booked bk p s'"
    by (rule booked_map [OF _ _ rows _ same(1) lv]) (use inv n in \<open>simp_all add: inv_def\<close>)
  have mine: "task_fits p (requests s') (i, st, r)"
  proof -
    have gq: "g q \<in> set (requests s')" "req_id (g q) = i" "req_status (g q) \<in> set active_statuses"
      "same_request (g q) r"
      using q(1) rows qi same(2) act same(4) [of q] S same_request_trans [OF same(1) q(2)] by auto
    then have "status_fits st (req_status (g q))" using fits by blast
    then show ?thesis using gq r unfolding task_fits_def by auto
  qed
  have other: "task_fits p (requests s') t'" if "t' \<in> set (tasks s)" "fst t' \<noteq> i" for t'
  proof (rule task_fits_mono)
    show "task_fits p (requests s) t'" using tf that(1) by (simp add: tasks_fit_def)
    fix y assume "y \<in> set (requests s)" "req_id y = fst t'"
    then show "y \<in> set (requests s')" using same(3) [of y] that(2) rows by (metis image_eqI list.set_map)
  qed
  let ?f = "\<lambda>(j, v, q). if j = i then (j, st, q) else (j, v, q)"
  have unique: "w = r" if "(i, v, w) \<in> set (tasks s)" for v w
    using tf t that unfolding tasks_fit_def by (metis Pair_inject eq_key_imp_eq_value)
  have "task_fits p (requests s') (?f t')" if t': "t' \<in> set (tasks s)" for t'
  proof (cases t')
    case (fields j v w)
    then show ?thesis using t' mine other unique by (cases "j = i") auto
  qed
  moreover have "map fst (map ?f (tasks s)) = map fst (tasks s)" by (induction "tasks s") auto
  moreover have "distinct (map fst (tasks s))" using tf by (simp add: tasks_fit_def)
  ultimately have "tasks_fit p (requests s') (map ?f (tasks s))"
    unfolding tasks_fit_def by (metis (no_types, lifting) imageE list.set_map)
  then show ?thesis
    using ok lr bkd outside_tasks [OF out] inv
    by (simp add: inv_def db_ok_def booked_same [of "set_task i st s'" s'])
qed

lemma sane_host: "sane p \<Longrightarrow> op_succinct_host (pr_host (p_requester p))"
  by (simp add: sane_def)

lemma inv_task_begins:
  assumes inv: "inv bk p s" and t: "(i, Spawned, r) \<in> set (tasks s)" and run: "begin_task p r s = (x, s')"
  shows "inv bk p (set_task i (after_begin x) s')"
proof -
  have "task_fits p (requests s) (i, Spawned, r)" using inv t unfolding inv_def tasks_fit_def by blast
  then have i: "req_id r = i" unfolding task_fits_def by simp
  have run': "update_request_status (p_env p) i WitnessGeneration s = (x, s')"
    using run by (simp add: begin_task_def i)
  show ?thesis
  proof (rule inv_own_row [OF inv t touches_status(1) [OF insertI1] _ run'])
    show "{WitnessGeneration} \<subseteq> set active_statuses" by (simp add: active_statuses_def)
    fix q assume q: "q \<in> set (requests s')" "req_id q = i" "req_status q \<in> set active_statuses"
    show "status_fits (after_begin x) (req_status q)"
    proof (cases x)
      case (Inl e)
      then show ?thesis using q(3) by (simp add: after_begin_def)
    next
      case (Inr v)
      have "req_status q = WitnessGeneration"
        by (rule mem_map_if [OF q(1) [unfolded set_status.done_row [OF run' [unfolded Inr]]]])
          (use q(2) in simp_all)
      then show ?thesis using Inr by (simp add: after_begin_def)
    qed
  qed
qed

lemma inv_task_ends:
  assumes sane: "sane p" and inv: "inv bk p s" and t: "(i, Begun, r) \<in> set (tasks s)"
    and run: "finish_task p r s = (x, s')"
  shows "inv bk p (set_task i (Finished x) s')"
proof -
  have "task_fits p (requests s) (i, Begun, r)" using inv t unfolding inv_def tasks_fit_def by blast
  then have i: "req_id r = i" unfolding task_fits_def by simp
  have touch: "touches i working (finish_task p r)"
    unfolding finish_task_def i [symmetric] by (rule make_proof_rest_touches [OF sane_host [OF sane]])
  show ?thesis
    by (rule inv_own_row [OF inv t touch _ run]) (simp_all add: active_statuses_def)
qed

definition stopped :: "('args, 'wit, 'stdin) proposer \<Rightarrow> proposer_state \<Rightarrow> bool" where
  "stopped p s \<longleftrightarrow> db_ok s \<and> live_rows p (requests s) \<and> tasks s = [] \<and> detached s = []"

definition halted :: "book \<Rightarrow> ('args, 'wit, 'stdin) proposer \<Rightarrow> proposer_state \<Rightarrow> bool" where
  "halted bk p s \<longleftrightarrow> stopped p s \<and> booked bk p s"

lemma halted_inv: "halted bk p s \<Longrightarrow> inv bk p s"
  by (simp add: halted_def stopped_def inv_def tasks_fit_def)

lemma halted_tick [simp]: "halted bk p (s\<lparr>tick := k\<rparr>) = halted bk p s"
  by (simp add: halted_def stopped_def)

lemma keeps_halted_delete: "keeps (halted bk p) (delete_all_requests_with_statuses env sts l1 l2)"
  unfolding delete_all_requests_with_statuses_def
proof (rule keeps_db_exec)
  fix s assume st: "halted bk p s"
  let ?Q = "\<lambda>r. \<not> (req_status r \<in> set sts \<and> on_chains l1 l2 r)"
  have "filter (live p) (filter ?Q (requests s)) = filter ?Q (filter (live p) (requests s))"
    by (simp only: filter_filter conj_commute)
  moreover have "sorted_wrt apart (filter ?Q (filter (live p) (requests s)))"
    by (rule sorted_wrt_filter') (use st in \<open>simp add: halted_def stopped_def live_rows_def\<close>)
  moreover have "\<forall>r \<in> set (filter ?Q (requests s)). live p r \<longrightarrow> good_blocks r"
    using st unfolding halted_def stopped_def live_rows_def set_filter by blast
  ultimately have "live_rows p (filter ?Q (requests s))" unfolding live_rows_def by presburger
  moreover have "db_ok (s\<lparr>requests := filter ?Q (requests s)\<rparr>)"
    using st by (auto simp: halted_def stopped_def db_ok_def intro: distinct_map_filter)
  moreover have "booked bk p (s\<lparr>requests := filter ?Q (requests s)\<rparr>)"
    by (rule booked_fewer [of bk p s])
      (use st in \<open>auto simp: halted_def stopped_def db_ok_def intro: distinct_map_filter\<close>)
  ultimately show "halted bk p (s\<lparr>requests := filter ?Q (requests s)\<rparr>)"
    using st by (simp add: halted_def stopped_def)
qed simp

lemma keeps_halted_cancel:
  "keeps (halted bk p) (cancel_prove_requests_with_different_commitment_config env c l1 l2)"
  unfolding cancel_prove_requests_with_different_commitment_config_def update_rows_def
proof (rule keeps_db_exec)
  fix s assume st: "halted bk p s"
  let ?Q = "\<lambda>r. req_status r = Prove \<and> (range_vkey_commitment r \<noteq> cc_range_vkey_commitment c
      \<or> rollup_config_hash r \<noteq> cc_rollup_config_hash c) \<and> on_chains l1 l2 r"
  let ?g = "\<lambda>r. if ?Q r then r\<lparr>req_status := Cancelled\<rparr> else r"
  have same: "same_request (?g r) r" for r by (simp add: same_request_def)
  have lv: "live p r" if "live p (?g r)" for r
  proof -
    have "\<not> live p (r\<lparr>req_status := Cancelled\<rparr>)" by (simp add: live_def active_statuses_def)
    then show ?thesis using that by presburger
  qed
  have "live_rows p (map ?g (requests s))"
    by (rule live_rows_map [OF _ same lv]) (use st in \<open>simp_all add: halted_def stopped_def\<close>)
  moreover have "booked bk p (s\<lparr>requests := map ?g (requests s)\<rparr>)"
    by (rule booked_map [of bk p s _ ?g, OF _ _ _ _ same lv])
      (use st in \<open>simp_all add: halted_def stopped_def\<close>)
  moreover have "db_ok (s\<lparr>requests := map ?g (requests s)\<rparr>)"
    by (rule db_ok_map) (use st in \<open>simp_all add: halted_def stopped_def\<close>)
  ultimately show "halted bk p (s\<lparr>requests := map ?g (requests s)\<rparr>)"
    using st by (simp add: halted_def stopped_def)
qed simp

lemma restart_inv:
  assumes "inv bk p s" and run: "restart p s = (x, s')"
  shows "inv bk p s'"
proof -
  have "triple (inv bk p) (restart p) (\<lambda>_. halted bk p) (halted bk p)"
    unfolding restart_def
  proof (rule triple_andThen [OF triple_update triple_keeps])
    fix s assume "inv bk p s"
    then show "halted bk p (s\<lparr>tasks := [], detached := []\<rparr>)" by (simp add: inv_def halted_def stopped_def db_ok_def)
  next
    show "keeps (halted bk p) (initialize_proposer p)"
      unfolding initialize_proposer_def
      by (intro keeps_intros keeps_halted_delete keeps_halted_cancel) simp
  qed
  then have "halted bk p s'" using assms unfolding triple_iff by (cases x) blast+
  then show ?thesis by (rule halted_inv)
qed

lemma background_inv:
  assumes "background_step p s s'" and "sane p" and inv: "inv bk p s"
  shows "inv bk p s'"
  using assms(1)
proof cases
  case (task_begins i r x t)
  then show ?thesis using inv_task_begins [OF inv] by blast
next
  case (task_ends i r x t)
  then show ?thesis using inv_task_ends [OF assms(2) inv] by blast
next
  case (restarts x)
  then show ?thesis using restart_inv [OF inv] by blast
qed (use inv in \<open>simp_all add: inv_def\<close>)

subsection \<open>Prompt runs\<close>

text \<open>
  Runs in which a spawned task executes its first statement before the next turn of the loop
  starts, and in which no turn finds the contract at a block strictly inside an active range.
  Tasks otherwise finish, and the process stops and starts again, at any time; every call may
  fail.
\<close>

inductive prompt_run ::
  "('args, 'wit, 'stdin) proposer \<Rightarrow> proposer_state \<Rightarrow> proposer_state \<Rightarrow> bool"
  for p :: "('args, 'wit, 'stdin) proposer" and s0 :: proposer_state where
  start: "prompt_run p s0 s0"
| turn: "prompt_run p s0 s \<Longrightarrow> nospawn s \<Longrightarrow> range_aligned p s \<Longrightarrow> run_turn p s = (x, s') \<Longrightarrow>
    prompt_run p s0 s'"
| background: "prompt_run p s0 s \<Longrightarrow> background_step p s s' \<Longrightarrow> prompt_run p s0 s'"

lemma prompt_run_inv:
  assumes "prompt_run p s0 s" "sane p" "stopped p s0"
  shows "inv (book_of p s0) p s"
  using assms(1)
proof induction
  case start
  show ?case by (rule halted_inv) (simp add: halted_def booked_def assms(3))
next
  case (turn s x s')
  then show ?case using turn_inv [OF assms(2)] by blast
next
  case (background s s')
  then show ?case using background_inv assms(2) by blast
qed

lemma prompt_run_is_run:
  "prompt_run p s0 s \<Longrightarrow> (proposer_step p)\<^sup>*\<^sup>* s0 s"
proof (induction rule: prompt_run.induct)
  case (turn s x s')
  then show ?case using proposer_step.turn by (meson rtranclp.rtrancl_into_rtrancl)
next
  case (background s s')
  then show ?case using proposer_step.background by (meson rtranclp.rtrancl_into_rtrancl)
qed simp

subsection \<open>The proofs of an aggregation\<close>

text \<open>
  Where active ranges do not overlap, a tiling by complete ranges is the only one, and it is all of the complete
  ranges inside its interval.
\<close>

lemma tiling_block: "tiles a rs b \<Longrightarrow> a \<le> x \<Longrightarrow> x < b \<Longrightarrow> \<exists>r\<in>set rs. fst r \<le> x \<and> x < snd r"
proof (induction rs arbitrary: a)
  case (Cons r rs)
  then show ?case by (cases "x < snd r") auto
qed simp

lemma tiling_starts: "tiles a rs b \<Longrightarrow> sorted (map fst rs) \<and> distinct (map fst rs)"
proof (induction rs arbitrary: a)
  case (Cons r rs)
  then have "\<forall>q\<in>set rs. snd r \<le> fst q" "fst r < snd r" by (auto dest: tiles_mem)
  then show ?case using Cons.IH [of "snd r"] Cons.prems by force
qed simp

lemma complete_tiling_unique:
  assumes ids: "distinct (map req_id rows)" and live: "live_rows p rows"
    and ws: "set ws \<subseteq> set rows" "\<forall>r\<in>set ws. live p r \<and> req_status r = Complete"
      "tiles b (map (\<lambda>r. (start_block r, end_block r)) ws) e"
    and rs: "sorted (map start_block rs)"
      "mset rs = filter_mset (\<lambda>r. same_program (p_commitments p) r \<and> req_status r = Complete \<and> req_type r = Range
        \<and> b \<le> start_block r \<and> end_block r \<le> e \<and> on_chains (p_l1 p) (p_l2 p) r) (mset rows)"
  shows "rs = ws"
proof -
  let ?P = "\<lambda>r. live p r \<and> req_status r = Complete \<and> b \<le> start_block r \<and> end_block r \<le> e"
  have "(\<lambda>r. same_program (p_commitments p) r \<and> req_status r = Complete \<and> req_type r = Range
      \<and> b \<le> start_block r \<and> end_block r \<le> e \<and> on_chains (p_l1 p) (p_l2 p) r) = ?P"
    by (rule ext) (auto simp: live_def ours_def active_statuses_def)
  then have ms: "mset rs = filter_mset ?P (mset rows)" using rs(2) by simp
  have mem: "set rs = {r \<in> set rows. ?P r}" using arg_cong [OF ms, of set_mset] by simp
  have starts: "sorted (map start_block ws)" "distinct (map start_block ws)"
    using tiling_starts [OF ws(3)] by (simp_all add: comp_def)
  have same: "set rs = set ws"
  proof
    show "set ws \<subseteq> set rs"
      using ws tiles_mem [OF ws(3)] unfolding mem by fastforce
    show "set rs \<subseteq> set ws"
    proof
      fix r assume "r \<in> set rs"
      then have r: "r \<in> set rows" "?P r" using mem by auto
      then have "start_block r < end_block r" using live by (simp add: live_rows_def good_blocks_def)
      then obtain w where w: "w \<in> set ws" "start_block w \<le> start_block r" "start_block r < end_block w"
        using tiling_block [OF ws(3), of "start_block r"] r(2) by auto
      then have "live p w" "w \<in> set rows" using ws by blast+
      have "req_id r = req_id w"
      proof (rule ccontr)
        assume "req_id r \<noteq> req_id w"
        then have "apart r w"
          using sorted_apart_distinct [of "live p" rows r w] live r \<open>live p w\<close> \<open>w \<in> set rows\<close>
          unfolding live_rows_def by blast
        then show False using w \<open>start_block r < end_block r\<close> by (auto simp: apart_def)
      qed
      then have "r = w" using ids r(1) \<open>w \<in> set rows\<close> by (metis inj_onD distinct_map)
      then show "r \<in> set ws" using w(1) by simp
    qed
  qed
  have "distinct rows" using ids by (simp add: distinct_map)
  then have "distinct (filter ?P rows)" by simp
  moreover have "mset rs = mset (filter ?P rows)" using ms by simp
  ultimately have "distinct rs" using mset_eq_imp_distinct_iff by blast
  moreover have inj: "inj_on start_block (set ws)" using starts(2) by (simp add: distinct_map)
  ultimately have "distinct (map start_block rs)" using same by (simp add: distinct_map)
  from map_sorted_distinct_set_unique [OF _ rs(1) this starts] inj same show ?thesis by simp
qed

lemma agg_witnessgen_rows:
  assumes "agg_proof_witnessgen pr b e cp l1 l2 prover s = (Inr (AggStdin st), s')"
    and "\<And>rs. sorted (map start_block rs) \<Longrightarrow>
      mset rs = filter_mset (\<lambda>r. same_program (commitments (pr_program_config pr)) r
        \<and> req_status r = Complete \<and> req_type r = Range
        \<and> b \<le> start_block r \<and> end_block r \<le> e \<and> on_chains l1 l2 r) (mset (requests s)) \<Longrightarrow> rs = ws"
  shows "\<exists>cs. list_all2 (\<lambda>r (bi, c). proof_of (pr_sp1 pr) r bi c) ws (zip (boot_infos (as_inputs st)) cs)
    \<and> length cs = length ws \<and> length (boot_infos (as_inputs st)) = length ws
    \<and> as_proofs st = map (\<lambda>c. (c, range_vk_hash (pr_program_config pr))) cs
    \<and> multi_block_vkey (as_inputs st) = range_vk_hash (pr_program_config pr)
    \<and> latest_l1_checkpoint_head (as_inputs st) = cp \<and> prover_address (as_inputs st) = prover"
  using agg_witnessgen_Ok [OF assms(1)] assms(2) by blast

subsection \<open>Properties\<close>

text \<open>
  C2. The active range requests of the proposer's program never overlap: from a stopped proposer
  with a consistent table, after any prompt run, whatever fails on the way, two different active
  range requests of the table share no block.
\<close>

theorem active_ranges_never_overlap:
  assumes "sane p" and "stopped p s0" and "prompt_run p s0 s"
    and "r \<in> set (requests s)" "q \<in> set (requests s)" "req_id r \<noteq> req_id q"
    and "live p r" "live p q"
  shows "blocks (start_block r, end_block r) \<inter> blocks (start_block q, end_block q) = {}"
proof -
  have "live_rows p (requests s)" using prompt_run_inv [OF assms(3,1,2)] by (simp add: inv_def)
  then have "apart r q"
    using sorted_apart_distinct assms(4-8) unfolding live_rows_def by blast
  then show ?thesis by (auto simp: apart_def)
qed

lemma sample_sane: "sane sample_proposer"
proof -
  have "pr_host (sample_requester :: (proposer_state, single_chain_host, unit, unit) requester) = sample_host"
    by (simp add: sample_requester_def)
  then have "host_finalized_l2_block (pr_host (sample_requester ::
      (proposer_state, single_chain_host, unit, unit) requester)) n s = (Inr (Some f), s') \<Longrightarrow> f = 10"
    for n f s and s' :: proposer_state
    by (auto simp: sample_host_def eth_host_def eth_finalized_l2_block_def get_l2_header_def get_header_def
        andThen_eq_Ok call_def ret_def sample_block_def sample_chain_def lift_def split: option.splits)
  then show ?thesis
    using sample_host_ok by (fastforce simp: sane_def sample_contracts_def sample_config_def)
qed

lemma sample_live [simp]: "live sample_proposer (sample_range i st b e) \<longleftrightarrow> st \<in> set active_statuses"
  by (simp add: live_def ours_def)

abbreviation sample_rows :: "request list" where
  "sample_rows \<equiv> [sample_range 1 Complete 5 9, sample_range 2 Prove 9 12, sample_range 3 Execution 1 5]"

lemma sample_stopped: "stopped sample_proposer (sample_state sample_rows)"
  by (simp add: stopped_def db_ok_def live_rows_def active_statuses_def apart_def good_blocks_def)

lemma sample_restart:
  "\<exists>s. prompt_run sample_proposer (sample_state sample_rows) s
     \<and> requests s = [sample_range 1 Complete 5 9, sample_range 2 Prove 9 12]"
proof -
  obtain x s where run: "restart sample_proposer (sample_state sample_rows) = (x, s)" by fastforce
  then have "prompt_run sample_proposer (sample_state sample_rows) s"
    using prompt_run.background [OF prompt_run.start background_step.restarts] by blast
  moreover have "requests s = [sample_range 1 Complete 5 9, sample_range 2 Prove 9 12]"
    using run
    by (auto simp: restart_def initialize_proposer_def validate_contract_config_def andThen_def update_def
        call_def sample_contracts_def sample_commitments_def ret_def db_exec_def Let_def
        delete_all_requests_with_statuses_def update_rows_def
        cancel_prove_requests_with_different_commitment_config_def)
  ultimately show ?thesis by blast
qed

theorem active_ranges_never_overlap_witness:
  "\<exists>s. prompt_run sample_proposer (sample_state sample_rows) s
     \<and> requests s = [sample_range 1 Complete 5 9, sample_range 2 Prove 9 12]
     \<and> blocks (5, 9) \<inter> blocks (9, 12) = ({} :: int set)"
proof -
  obtain s where p: "prompt_run sample_proposer (sample_state sample_rows) s"
    and rows: "requests s = [sample_range 1 Complete 5 9, sample_range 2 Prove 9 12]"
    using sample_restart by blast
  have "blocks (start_block (sample_range 1 Complete 5 9), end_block (sample_range 1 Complete 5 9))
      \<inter> blocks (start_block (sample_range 2 Prove 9 12), end_block (sample_range 2 Prove 9 12)) = {}"
    by (rule active_ranges_never_overlap [OF sample_sane sample_stopped p])
      (simp_all add: rows active_statuses_def)
  then show ?thesis using p rows by auto
qed

text \<open>
  C4. The proposer refines a reservation book: on a prompt run from a stopped proposer with a
  consistent table, every change of the table, by the loop, by the tasks and at a restart, and
  under every failure, is a sequence of the book's steps. A range is only ever reserved under the
  next unused request number and where no active range lies; everything else gives reservations up.
\<close>

theorem proposer_refines_booking:
  assumes "sane p" and "stopped p s0" and "prompt_run p s0 s"
  shows "booking_step\<^sup>*\<^sup>* (book_of p s0) (book_of p s)"
  using prompt_run_inv [OF assms(3,1,2)] by (simp add: inv_def booked_def)

theorem proposer_refines_booking_witness:
  "\<exists>s. prompt_run sample_proposer (sample_state sample_rows) s
     \<and> reservations sample_proposer (requests s) = [1 \<mapsto> (5, 9), 2 \<mapsto> (9, 12)]
     \<and> booking_step\<^sup>*\<^sup>* (book_of sample_proposer (sample_state sample_rows)) (book_of sample_proposer s)"
proof -
  obtain s where p: "prompt_run sample_proposer (sample_state sample_rows) s"
    and rows: "requests s = [sample_range 1 Complete 5 9, sample_range 2 Prove 9 12]"
    using sample_restart by blast
  have "reservations sample_proposer (requests s) = [1 \<mapsto> (5, 9), 2 \<mapsto> (9, 12)]"
    by (rule ext) (simp add: rows reservations_def active_statuses_def)
  then show ?thesis using p proposer_refines_booking [OF sample_sane sample_stopped p] by blast
qed

text \<open>
  What the book says of the table: a request number given out before keeps its range or loses it
  for good, and no range comes back under an old number.
\<close>

lemma ranges_never_come_back:
  assumes "inv (book_of p s0) p s" "i < next_id s0"
  shows "reservations p (requests s) i = reservations p (requests s0) i
    \<or> reservations p (requests s) i = None"
  using booking_history(2) [of "next_id s0" "reservations p (requests s0)" "next_id s"
      "reservations p (requests s)" i] assms
  by (simp add: inv_def booked_def book_of_def)

text \<open>
  C13. (functional) What an aggregation proof is made of. On a prompt run from a stopped proposer with a
  consistent table, let complete range requests of the program tile an interval of blocks. Then the
  input that the proposer builds for an aggregation of this interval holds exactly the stored proofs and boot infos of
  these requests, one each and in the order of their blocks, with the key of the range program, the checkpoint and the
  prover address: no block is proved twice, no failed or replaced request and none of another
  program gets in, whatever else is in the table and in whatever order the server scans it.
\<close>

theorem aggregation_input_is_tiling:
  assumes "sane p" and "stopped p s0" and "prompt_run p s0 s"
    and "set ws \<subseteq> set (requests s)" and "\<forall>r\<in>set ws. live p r \<and> req_status r = Complete"
    and "tiles b (map (\<lambda>r. (start_block r, end_block r)) ws) e"
    and "agg_proof_witnessgen (p_requester p) b e cp (p_l1 p) (p_l2 p) prover s = (Inr (AggStdin st), s')"
  shows "\<exists>cs. list_all2 (\<lambda>r (bi, c). proof_of (pr_sp1 (p_requester p)) r bi c) ws (zip (boot_infos (as_inputs st)) cs)
    \<and> length cs = length ws \<and> length (boot_infos (as_inputs st)) = length ws
    \<and> as_proofs st = map (\<lambda>c. (c, range_vk_hash (pr_program_config (p_requester p)))) cs
    \<and> multi_block_vkey (as_inputs st) = range_vk_hash (pr_program_config (p_requester p))
    \<and> latest_l1_checkpoint_head (as_inputs st) = cp \<and> prover_address (as_inputs st) = prover"
proof (rule agg_witnessgen_rows [OF assms(7)])
  have "inv (book_of p s0) p s" by (rule prompt_run_inv [OF assms(3,1,2)])
  then have "distinct (map req_id (requests s))" "live_rows p (requests s)" by (simp_all add: inv_def db_ok_def)
  then show "rs = ws" if "sorted (map start_block rs)"
    "mset rs = filter_mset (\<lambda>r. same_program (p_commitments p) r \<and> req_status r = Complete \<and> req_type r = Range
        \<and> b \<le> start_block r \<and> end_block r \<le> e \<and> on_chains (p_l1 p) (p_l2 p) r) (mset (requests s))" for rs
    using complete_tiling_unique [OF _ _ assms(4-6) that] by blast
qed

text \<open>A table with two complete ranges, and a failed request for the blocks of both.\<close>

theorem aggregation_input_is_tiling_witness:
  "\<exists>st s' cs. agg_proof_witnessgen (p_requester sample_proposer) 1 9 [3] 10 20 [0]
        (sample_state [proved_range 1 5 9, sample_range 3 Failed 1 9, proved_range 2 1 5]) = (Inr (AggStdin st), s')
     \<and> list_all2 (\<lambda>r (bi, c). proof_of sample_sp1 r bi c) [proved_range 2 1 5, proved_range 1 5 9]
        (zip (boot_infos (as_inputs st)) cs) \<and> length cs = 2"
proof -
  let ?rows = "[proved_range 1 5 9, sample_range 3 Failed 1 9, proved_range 2 1 5]"
  let ?s = "sample_state ?rows"
  have live: "live sample_proposer (proved_range i b e)" for i b e
    by (simp add: live_def ours_def proved_range_def active_statuses_def same_program_def on_chains_def sample_range_def
        new_range_request_def sample_commitments_def default_request_def)
  have not_live: "\<not> live sample_proposer (sample_range 3 Failed 1 9)" by (simp add: active_statuses_def)
  have stopped: "stopped sample_proposer ?s"
    using live not_live
    by (simp add: stopped_def db_ok_def live_rows_def) (simp add: apart_def good_blocks_def proved_range_def)
  have sel: "get_consecutive_complete_range_proofs sample_db 1 9 sample_commitments 10 20 ?s
      = (Inr [proved_range 2 1 5, proved_range 1 5 9], ?s\<lparr>tick := Suc (tick ?s)\<rparr>)"
    by (simp add: get_consecutive_complete_range_proofs_def select_def db_read_def andThen_def ret_def
        sample_db_def sample_state_def sample_range_def new_range_request_def proved_range_def
        sample_commitments_def same_program_def on_chains_def default_request_def)
  from sample_agg_run [OF sel]
  obtain st s' where run: "agg_proof_witnessgen (p_requester sample_proposer) 1 9 [3] (p_l1 sample_proposer)
      (p_l2 sample_proposer) [0] ?s = (Inr (AggStdin st), s')"
    by auto
  have "\<exists>cs. list_all2 (\<lambda>r (bi, c). proof_of (pr_sp1 (p_requester sample_proposer)) r bi c) [proved_range 2 1 5, proved_range 1 5 9]
      (zip (boot_infos (as_inputs st)) cs) \<and> length cs = length [proved_range 2 1 5, proved_range 1 5 9]"
  proof -
    have "set [proved_range 2 1 5, proved_range 1 5 9] \<subseteq> set (requests ?s)"
      "\<forall>r\<in>set [proved_range 2 1 5, proved_range 1 5 9]. live sample_proposer r \<and> req_status r = Complete"
      using live by (simp_all add: proved_range_def)
    moreover have "tiles 1 (map (\<lambda>r. (start_block r, end_block r)) [proved_range 2 1 5, proved_range 1 5 9]) 9"
      by (simp add: proved_range_def)
    ultimately show ?thesis
      using aggregation_input_is_tiling [OF sample_sane stopped prompt_run.start _ _ _ run] by blast
  qed
  then show ?thesis using run by auto
qed

end
