(* ===== verification/ProposerProps.thy ===== *)
theory ProposerProps
  imports Proposer
begin

text \<open>
  Functional behaviour of the methods of \<open>validity/src/proposer.rs\<close>: which aggregation is
  requested and when, the concurrency limits, what is sent to the contract and recorded, the
  chain lock, and what a mismatch of the configuration prevents.
\<close>

subsection \<open>Contiguous ranges\<close>

abbreviation row_range :: "request \<Rightarrow> range" where
  "row_range r \<equiv> (start_block r, end_block r)"

lemma check_neighbours_iff: "check_neighbours r q \<longleftrightarrow> end_block r = start_block q"
  by (auto simp: check_neighbours_def)

lemma check_consecutive_tiles:
  "rs \<noteq> [] \<Longrightarrow> \<forall>r \<in> set rs. start_block r < end_block r \<Longrightarrow>
   check_consecutive rs \<longleftrightarrow> tiles (start_block (hd rs)) (map row_range rs) (end_block (last rs))"
  by (induction rs rule: check_consecutive.induct) (auto simp: check_neighbours_iff)

lemma validate_tiles:
  assumes "\<forall>r \<in> set rs. start_block r < end_block r"
  shows "validate_aggregation_request rs a \<longleftrightarrow>
    rs \<noteq> [] \<and> tiles (start_block a) (map row_range rs) (end_block a)"
proof (cases "rs = []")
  case True
  then show ?thesis by (simp add: validate_aggregation_request_def)
next
  case False
  have ends: "start_block (hd rs) = b \<and> end_block (last rs) = e" if "tiles b (map row_range rs) e" for b e
    using False that
  proof (induction rs arbitrary: b)
    case (Cons r rs)
    then show ?case by (cases rs) auto
  qed simp
  show ?thesis
    using check_consecutive_tiles [OF False assms] ends [of "start_block a" "end_block a"] False
    by (auto simp: validate_aggregation_request_def)
qed

lemma contiguous_end_split:
  "\<forall>r \<in> set rs. fst r < snd r \<Longrightarrow>
   \<exists>xs ys. rs = xs @ ys \<and> tiles c xs (contiguous_end c rs) \<and> (ys = [] \<or> fst (hd ys) \<noteq> contiguous_end c rs)"
proof (induction rs arbitrary: c)
  case Nil
  then show ?case by simp
next
  case (Cons r rs)
  show ?case
  proof (cases "fst r = c")
    case True
    obtain xs ys where "rs = xs @ ys" "tiles (snd r) xs (contiguous_end (snd r) rs)"
      "ys = [] \<or> fst (hd ys) \<noteq> contiguous_end (snd r) rs"
      using Cons.IH [of "snd r"] Cons.prems by auto
    then show ?thesis using True Cons.prems by (intro exI [of _ "r # xs"] exI [of _ ys]) simp
  next
    case False
    then show ?thesis by (intro exI [of _ "[]"] exI [of _ "r # rs"]) simp
  qed
qed

lemma highest_block_split:
  assumes "get_highest_proven_contiguous_block rs = Some b" "\<forall>r \<in> set rs. fst r < snd r"
  shows "\<exists>xs ys. rs = xs @ ys \<and> xs \<noteq> [] \<and> tiles (fst (hd rs)) xs b \<and> (ys = [] \<or> fst (hd ys) \<noteq> b)"
proof -
  obtain r qs where rs: "rs = r # qs" and b: "b = contiguous_end (snd r) qs"
    using assms(1) by (auto simp: get_highest_proven_contiguous_block_def split: list.splits)
  obtain xs ys where "qs = xs @ ys" "tiles (snd r) xs b" "ys = [] \<or> fst (hd ys) \<noteq> b"
    using contiguous_end_split [of qs "snd r"] assms(2) b by (auto simp: rs)
  then show ?thesis using assms(2) by (intro exI [of _ "r # xs"] exI [of _ ys]) (simp add: rs)
qed

subsection \<open>The next proof\<close>

lemma latest_reads [tick_intros]: "tick_only (get_latest_proposed_block_number p)"
  unfolding get_latest_proposed_block_number_def by (intro tick_intros)

lemma latest_Ok:
  "get_latest_proposed_block_number p s = (Inr n, s') \<Longrightarrow>
     latest_block_number (p_contracts p) (tick s) = Inr n \<and> (\<exists>k. s' = s\<lparr>tick := k\<rparr>)"
  using tick_onlyD [OF latest_reads, of p s "Inr n" s']
  by (auto simp: get_latest_proposed_block_number_def andThen_eq_Ok call_def lift_def split: sum.splits)

definition of_program :: "('args, 'wit, 'stdin) proposer \<Rightarrow> request \<Rightarrow> bool" where
  "of_program p r \<longleftrightarrow> same_program (p_commitments p) r \<and> on_chains (p_l1 p) (p_l2 p) r"

lemma sort_key_first:
  "first_row (sort_key f rs) = Some r \<Longrightarrow> r \<in> set rs \<and> (\<forall>q \<in> set rs. f r \<le> f q)"
proof -
  assume h: "first_row (sort_key f rs) = Some r"
  then obtain qs where qs: "sort_key f rs = r # qs"
    by (cases "sort_key f rs") auto
  have "sorted (map f (r # qs))" using sorted_sort_key [of f rs] unfolding qs .
  moreover have "set rs = set (r # qs)" using qs set_sort [of f rs] by simp
  ultimately show ?thesis by auto
qed

lemma first_unrequested_range:
  assumes "fetch_first_unrequested_range_proof (p_env p) n (p_commitments p) (p_l1 p) (p_l2 p) s
    = (Inr (Some r), s')"
  shows "r \<in> set (requests s) \<and> of_program p r \<and> req_status r = Unrequested \<and> req_type r = Range
    \<and> n \<le> start_block r
    \<and> (\<forall>q \<in> set (requests s). of_program p q \<and> req_status q = Unrequested \<and> req_type q = Range
        \<and> n \<le> start_block q \<longrightarrow> start_block r \<le> start_block q)
    \<and> (\<exists>k. s' = s\<lparr>tick := k\<rparr>)"
proof -
  let ?P = "\<lambda>r. same_program (p_commitments p) r \<and> req_status r = Unrequested
      \<and> req_type r = Range \<and> n \<le> start_block r \<and> on_chains (p_l1 p) (p_l2 p) r"
  obtain rs where sel: "select (p_env p) ?P s = (Inr rs, s')"
    and r: "first_row (sort_key start_block rs) = Some r"
    using assms unfolding fetch_first_unrequested_range_proof_def andThen_eq_Ok ret_def by auto
  note f = sort_key_first [OF r]
  have "r \<in> set (requests s) \<and> ?P r"
    using conjunct1 [OF f] unfolding select_Ok(2) [OF sel] by blast
  moreover have "start_block r \<le> start_block q" if "q \<in> set (requests s)" "?P q" for q
    using conjunct2 [OF f] that unfolding select_Ok(2) [OF sel] by blast
  ultimately show ?thesis unfolding of_program_def using select_Ok(3) [OF sel] by blast
qed

lemma unrequested_agg:
  assumes "fetch_unrequested_agg_proof (p_env p) n (p_commitments p) (p_l1 p) (p_l2 p) s = (Inr (Some r), s')"
  shows "r \<in> set (requests s) \<and> of_program p r \<and> same_agg (p_commitments p) r
    \<and> req_status r = Unrequested \<and> req_type r = Aggregation \<and> n \<le> start_block r
    \<and> (\<exists>k. s' = s\<lparr>tick := k\<rparr>)"
proof -
  let ?P = "\<lambda>r. same_program (p_commitments p) r \<and> same_agg (p_commitments p) r \<and> req_status r = Unrequested
      \<and> req_type r = Aggregation \<and> n \<le> start_block r \<and> on_chains (p_l1 p) (p_l2 p) r"
  obtain rs where sel: "select (p_env p) ?P s = (Inr rs, s')"
    and r: "first_row (sort_key start_block rs) = Some r"
    using assms unfolding fetch_unrequested_agg_proof_def andThen_eq_Ok ret_def by auto
  have "r \<in> set (requests s) \<and> ?P r"
    using conjunct1 [OF sort_key_first [OF r]] unfolding select_Ok(2) [OF sel] by blast
  then show ?thesis unfolding of_program_def using select_Ok(3) [OF sel] by blast
qed

text \<open>Complete range requests inside an interval.\<close>

definition complete_inside :: "('args, 'wit, 'stdin) proposer \<Rightarrow> int \<Rightarrow> int \<Rightarrow> request \<Rightarrow> bool" where
  "complete_inside p b e r \<longleftrightarrow> of_program p r \<and> req_status r = Complete \<and> req_type r = Range
     \<and> b \<le> start_block r \<and> end_block r \<le> e"

lemma complete_ranges_Ok:
  assumes "get_consecutive_complete_range_proofs (p_env p) b e (p_commitments p) (p_l1 p) (p_l2 p) s
    = (Inr rs, s')"
  shows "sorted (map start_block rs) \<and> mset rs = filter_mset (complete_inside p b e) (mset (requests s))
    \<and> (\<exists>k. s' = s\<lparr>tick := k\<rparr>)"
proof -
  let ?P = "\<lambda>r. same_program (p_commitments p) r \<and> req_status r = Complete
      \<and> req_type r = Range \<and> b \<le> start_block r \<and> end_block r \<le> e \<and> on_chains (p_l1 p) (p_l2 p) r"
  obtain qs where q: "select (p_env p) ?P s = (Inr qs, s')" and rs: "rs = sort_key start_block qs"
    using assms by (auto simp: get_consecutive_complete_range_proofs_def andThen_eq_Ok ret_def)
  have "?P = complete_inside p b e"
    by (rule ext) (auto simp: complete_inside_def of_program_def)
  then show ?thesis using select_Ok(1,3) [OF q] rs by auto
qed

text \<open>The aggregation \<open>a\<close> is covered: the complete ranges of the table inside it tile it.\<close>

definition covered :: "('args, 'wit, 'stdin) proposer \<Rightarrow> request list \<Rightarrow> request \<Rightarrow> bool" where
  "covered p rows a \<longleftrightarrow> (\<exists>rs. rs \<noteq> [] \<and> sorted (map start_block rs)
     \<and> mset rs = filter_mset (complete_inside p (start_block a) (end_block a)) (mset rows)
     \<and> tiles (start_block a) (map row_range rs) (end_block a))"

definition agg_choice :: "('args, 'wit, 'stdin) proposer \<Rightarrow> request list \<Rightarrow> int \<Rightarrow> request \<Rightarrow> bool" where
  "agg_choice p rows n r \<longleftrightarrow> r \<in> set rows \<and> of_program p r \<and> same_agg (p_commitments p) r
     \<and> req_status r = Unrequested \<and> req_type r = Aggregation \<and> n \<le> start_block r \<and> covered p rows r"

definition range_choice :: "('args, 'wit, 'stdin) proposer \<Rightarrow> request list \<Rightarrow> int \<Rightarrow> request \<Rightarrow> bool" where
  "range_choice p rows n r \<longleftrightarrow> r \<in> set rows \<and> of_program p r \<and> req_status r = Unrequested
     \<and> req_type r = Range \<and> n \<le> start_block r
     \<and> (\<forall>q \<in> set rows. of_program p q \<and> req_status q = Unrequested \<and> req_type q = Range
          \<and> n \<le> start_block q \<longrightarrow> start_block r \<le> start_block q)"

lemma get_next_choice:
  assumes run: "get_next_unrequested_proof p s = (Inr (Some r), s')"
    and proper: "\<forall>q \<in> set (requests s). of_program p q \<and> req_status q = Complete \<and> req_type q = Range \<longrightarrow>
      start_block q < end_block q"
  shows "\<exists>n. latest_block_number (p_contracts p) (tick s) = Inr n \<and> requests s' = requests s
    \<and> (agg_choice p (requests s) (as_i64 n) r \<or> range_choice p (requests s) (as_i64 n) r)"
proof -
  let ?check = "\<lambda>agg. case agg of
          None \<Rightarrow> ret False
        | Some a \<Rightarrow>
            andThen (get_consecutive_complete_range_proofs (p_env p) (start_block a) (end_block a)
                       (p_commitments p) (p_l1 p) (p_l2 p)) (\<lambda>range_proofs.
              if validate_aggregation_request range_proofs a then ret True
              else andThen (gauge_increment AggProofValidationErrorCount) (\<lambda>_. ret False))"
  obtain n s1 agg s2 valid s3 where
    n: "get_latest_proposed_block_number p s = (Inr n, s1)"
    and agg: "fetch_unrequested_agg_proof (p_env p) (as_i64 n) (p_commitments p) (p_l1 p) (p_l2 p) s1 = (Inr agg, s2)"
    and valid: "?check agg s2 = (Inr valid, s3)"
    and rest: "(if valid then ret agg
       else fetch_first_unrequested_range_proof (p_env p) (as_i64 n) (p_commitments p) (p_l1 p) (p_l2 p)) s3
       = (Inr (Some r), s')"
    using run unfolding get_next_unrequested_proof_def andThen_eq_Ok by blast
  have s1: "requests s1 = requests s" and ln: "latest_block_number (p_contracts p) (tick s) = Inr n"
    using latest_Ok [OF n] by auto
  have s2: "requests s2 = requests s" using tick_onlyD [OF queries_read(11) agg] s1 by auto
  have s3: "requests s3 = requests s \<and> (valid \<longrightarrow> agg \<noteq> None \<and> covered p (requests s) (the agg))"
  proof (cases agg)
    case None
    then show ?thesis using valid s2 by (auto simp: ret_def)
  next
    case (Some a)
    obtain rs t where rs: "get_consecutive_complete_range_proofs (p_env p) (start_block a) (end_block a)
        (p_commitments p) (p_l1 p) (p_l2 p) s2 = (Inr rs, t)"
      and v: "(if validate_aggregation_request rs a then ret True
        else andThen (gauge_increment AggProofValidationErrorCount) (\<lambda>_. ret False)) t = (Inr valid, s3)"
      using valid unfolding Some option.case andThen_eq_Ok by blast
    have t: "requests t = requests s" and
      sorted: "sorted (map start_block rs)" and
      ms: "mset rs = filter_mset (complete_inside p (start_block a) (end_block a)) (mset (requests s))"
      using complete_ranges_Ok [OF rs] s2 by auto
    have "set rs = {q \<in> set (requests s). complete_inside p (start_block a) (end_block a) q}"
      using arg_cong [OF ms, of set_mset] by simp
    then have "\<forall>q \<in> set rs. start_block q < end_block q"
      using proper unfolding complete_inside_def by blast
    from validate_tiles [OF this, of a]
    have "validate_aggregation_request rs a \<Longrightarrow> covered p (requests s) a"
      using sorted ms unfolding covered_def by blast
    then show ?thesis
      using v t Some by (auto simp: ret_def andThen_def gauge_increment_def update_def split: if_splits)
  qed
  show ?thesis
  proof (cases valid)
    case True
    then have "agg = Some r" "s' = s3" using rest by (simp_all add: ret_def)
    then show ?thesis
      using unrequested_agg [of p "as_i64 n" s1 r s2] agg s1 s3 True ln unfolding agg_choice_def by auto
  next
    case False
    then have f: "fetch_first_unrequested_range_proof (p_env p) (as_i64 n) (p_commitments p) (p_l1 p) (p_l2 p) s3
      = (Inr (Some r), s')" using rest by simp
    have "requests s3 = requests s" using s3 by blast
    moreover have "requests s' = requests s3" using tick_onlyD [OF queries_read(12) f] by auto
    ultimately show ?thesis
      using first_unrequested_range [OF f] ln unfolding range_choice_def by auto
  qed
qed

subsection \<open>Requesting\<close>

definition status_count :: "('args, 'wit, 'stdin) proposer \<Rightarrow> request_status \<Rightarrow> request list \<Rightarrow> int" where
  "status_count p st rows = int (length (filter (\<lambda>r. of_program p r \<and> req_status r = st) rows))"

lemma fetch_request_count_Ok:
  assumes "fetch_request_count (p_env p) st (p_commitments p) (p_l1 p) (p_l2 p) s = (Inr n, s')"
  shows "n = status_count p st (requests s) \<and> (\<exists>k. s' = s\<lparr>tick := k\<rparr>)"
proof -
  have "(\<lambda>r. same_program (p_commitments p) r \<and> req_status r = st \<and> on_chains (p_l1 p) (p_l2 p) r)
      = (\<lambda>r. of_program p r \<and> req_status r = st)"
    by (rule ext) (auto simp: of_program_def)
  then show ?thesis
    using select_count_Ok [OF assms [unfolded fetch_request_count_def]] unfolding status_count_def by auto
qed

lemma get_next_frame:
  assumes "get_next_unrequested_proof p s = (x, s')"
  shows "tasks s' = tasks s \<and> detached s' = detached s \<and> requests s' = requests s"
proof -
  let ?P = "\<lambda>t. tasks t = tasks s \<and> detached t = detached s \<and> requests t = requests s"
  have reads: "tick_only m \<Longrightarrow> keeps ?P m" for m :: "(proposer_state, 'x) op"
    by (rule keeps_tick_only) simp_all
  have "keeps ?P (get_next_unrequested_proof p)"
    unfolding get_next_unrequested_proof_def
    by (intro keeps_intros reads [OF latest_reads])
      (auto simp: keeps_def gauge_increment_def update_def)
  then show ?thesis using keepsD [of ?P _ s] assms by (metis (no_types, lifting) snd_conv)
qed

lemma tasks_change:
  assumes run: "request_queued_proofs p s = (x, s')" and changed: "tasks s' \<noteq> tasks s"
  shows "\<exists>r t u. get_next_unrequested_proof p t = (Inr (Some r), u) \<and> requests t = requests s
    \<and> insert_task (req_id r) Spawned r u = (x, s') \<and> tasks u = tasks s
    \<and> \<not> as_i64 (rc_max_concurrent_proof_requests (p_config p)) \<le>
        wrap_i64 (wrap_i64 (status_count p WitnessGeneration (requests s) + status_count p Execution (requests s))
          + status_count p Prove (requests s))
    \<and> \<not> as_i64 (rc_max_concurrent_witness_gen (p_config p)) \<le> status_count p WitnessGeneration (requests s)"
  using run unfolding request_queued_proofs_def
proof (cases rule: andThen_cases)
  case (first_fails e)
  then show ?thesis using changed tick_onlyD [OF queries_read(6) first_fails(1)] by auto
next
  case w: (second wc s1)
  note w' = fetch_request_count_Ok [OF w(1)]
  from w(2) show ?thesis
  proof (cases rule: andThen_cases)
    case (first_fails e)
    then show ?thesis using changed w' tick_onlyD [OF queries_read(6) first_fails(1)] by auto
  next
    case e: (second ec s2)
    note e' = fetch_request_count_Ok [OF e(1)]
    from e(2) show ?thesis
    proof (cases rule: andThen_cases)
      case (first_fails e)
      then show ?thesis using changed w' e' tick_onlyD [OF queries_read(6) first_fails(1)] by auto
    next
      case pr: (second pc s3)
      note p' = fetch_request_count_Ok [OF pr(1)]
      have same: "requests s3 = requests s" "tasks s3 = tasks s" using w' e' p' by auto
      have counts: "wc = status_count p WitnessGeneration (requests s)"
        "ec = status_count p Execution (requests s)" "pc = status_count p Prove (requests s)"
        using w' e' p' by auto
      show ?thesis
      proof (cases "as_i64 (rc_max_concurrent_proof_requests (p_config p)) \<le> wrap_i64 (wrap_i64 (wc + ec) + pc)
          \<or> as_i64 (rc_max_concurrent_witness_gen (p_config p)) \<le> wc")
        case True
        then have "s' = s3" using pr(2) by (auto simp: ret_def split: if_splits)
        then show ?thesis using changed same by simp
      next
        case False
        with pr(2) have "andThen (get_next_unrequested_proof p)
            (\<lambda>next. case next of None \<Rightarrow> ret () | Some r \<Rightarrow> insert_task (req_id r) Spawned r) s3 = (x, s')"
          by simp
        then show ?thesis
        proof (cases rule: andThen_cases)
          case (first_fails e)
          then show ?thesis using changed same get_next_frame [OF first_fails(1)] by simp
        next
          case (second nx u)
          note fr = get_next_frame [OF second(1)]
          show ?thesis
          proof (cases nx)
            case None
            then show ?thesis using second(2) fr same changed by (auto simp: ret_def)
          next
            case (Some r)
            then show ?thesis using second fr same False counts by auto
          qed
        qed
      qed
    qed
  qed
qed

subsection \<open>Relaying\<close>

lemma send_tx_frame:
  assumes "send_tx p y s = (x, s')"
  shows "requests s' = requests s \<and> sent_txs s' = sent_txs s @ [y]
    \<and> (\<forall>rc. x = Inr rc \<longrightarrow> (\<exists>t. send_transaction (p_contracts p) y t = Inr rc))"
  using assms by (auto simp: send_tx_def andThen_def update_def call_def split: sum.splits)

text \<open>The transaction \<open>y\<close> proposes the output root \<open>root\<close> with the proof of the aggregation \<open>r\<close>.\<close>

fun proposes :: "('args, 'wit, 'stdin) proposer \<Rightarrow> request \<Rightarrow> b256 \<Rightarrow> tx \<Rightarrow> bool" where
  "proposes p r root (CheckpointBlockHash n) \<longleftrightarrow> False"
| "proposes p r root (CreateGame gt rt ex bond) \<longleftrightarrow> rc_dgf_address (p_config p) \<noteq> address_zero \<and> rt = root
     \<and> gt = validity_game_type \<and> (\<exists>cp prf. checkpointed_l1_block_number r = Some cp \<and> req_proof r = Some prf
       \<and> ex = game_extra_data (as_u64 (end_block r)) (as_u64 cp) (rc_prover_address (p_config p))
                (rc_config_name_hash (p_config p)) prf)"
| "proposes p r root (ProposeL2Output nm rt e cp prf pa) \<longleftrightarrow> rc_dgf_address (p_config p) = address_zero
     \<and> rt = root \<and> nm = rc_config_name_hash (p_config p) \<and> e = end_block r \<and> 0 \<le> e
     \<and> checkpointed_l1_block_number r = Some cp \<and> 0 \<le> cp \<and> req_proof r = Some prf
     \<and> pa = rc_prover_address (p_config p)"

lemma u256_from_i64_Ok [simp]: "u256_from_i64 x = Inr y \<longleftrightarrow> 0 \<le> x \<and> y = x"
  by (auto simp: u256_from_i64_def)

lemma relay_transaction_reads [tick_intros]: "tick_only (relay_transaction p r root)"
  unfolding relay_transaction_def by (intro tick_intros)

lemma relay_transaction_Ok:
  "relay_transaction p r root s = (Inr y, s') \<Longrightarrow> proposes p r root y"
  by (auto simp: relay_transaction_def andThen_eq_Ok lift_def ret_def split: if_splits)

lemma output_reads: "tick_only (get_l2_output_at_block renv n)"
  by (intro tick_intros)

lemma relay_cases:
  assumes run: "relay_aggregation_proof p r s = (x, s')"
  shows "requests s' = requests s
    \<and> (case x of Inl e \<Rightarrow> sent_txs s' = sent_txs s \<or> (\<exists>y root. sent_txs s' = sent_txs s @ [y] \<and> proposes p r root y)
       | Inr hash \<Rightarrow> (\<exists>y out rc t t'. sent_txs s' = sent_txs s @ [y] \<and> proposes p r (output_root out) y
          \<and> output_at_block (rpc (p_env p)) (as_u64 (end_block r)) t = Inr out
          \<and> send_transaction (p_contracts p) y t' = Inr rc \<and> tx_status rc \<and> hash = tx_receipt_hash rc))"
  using run unfolding relay_aggregation_proof_def
proof (cases rule: andThen_cases)
  case (first_fails e)
  then show ?thesis using tick_onlyD [OF output_reads first_fails(1)] by auto
next
  case out: (second out s1)
  have o: "\<exists>t. output_at_block (rpc (p_env p)) (as_u64 (end_block r)) t = Inr out"
    using out(1) by (auto simp: get_l2_output_at_block_def call_def split: sum.splits)
  have s1: "requests s1 = requests s \<and> sent_txs s1 = sent_txs s"
    using tick_onlyD [OF output_reads out(1)] by auto
  from out(2) show ?thesis
  proof (cases rule: andThen_cases)
    case (first_fails e)
    then show ?thesis using s1 tick_onlyD [OF relay_transaction_reads first_fails(1)] by auto
  next
    case y: (second y s2)
    have s2: "requests s2 = requests s \<and> sent_txs s2 = sent_txs s"
      using s1 tick_onlyD [OF relay_transaction_reads y(1)] by auto
    note yp = relay_transaction_Ok [OF y(1)]
    from y(2) show ?thesis
    proof (cases rule: andThen_cases)
      case (first_fails e)
      then show ?thesis using s2 send_tx_frame [OF first_fails(1)] yp by auto
    next
      case (second rc s3)
      note sent = send_tx_frame [OF second(1)]
      show ?thesis
      proof (cases "tx_status rc")
        case True
        then have x: "x = Inr (tx_receipt_hash rc)" "s' = s3" using second(2) by (simp_all add: ret_def)
        have "requests s3 = requests s" "sent_txs s3 = sent_txs s @ [y]"
          "\<exists>t. send_transaction (p_contracts p) y t = Inr rc" using sent s2 by auto
        then show ?thesis unfolding x sum.case using True yp o by blast
      next
        case False
        then show ?thesis using second(2) sent s2 yp by (auto simp: throw_def)
      qed
    qed
  qed
qed

lemma counting_cases:
  assumes "counting g m s = (x, s')"
  shows "\<exists>s1. m s = (x, s1) \<and> (s' = s1 \<or> (\<exists>gs. s' = s1\<lparr>gauges := gs\<rparr>))"
  using assms
  by (auto simp: counting_def onErr_def ret_def andThen_def gauge_increment_def update_def throw_def
      split: prod.splits sum.splits fault.splits)

lemma completed_agg:
  assumes "fetch_completed_agg_proof_after_block (p_env p) n (p_commitments p) (p_l1 p) (p_l2 p) s
    = (Inr (Some r), s')"
  shows "r \<in> set (requests s) \<and> of_program p r \<and> same_agg (p_commitments p) r
    \<and> req_status r = Complete \<and> req_type r = Aggregation \<and> start_block r = n"
proof -
  let ?P = "\<lambda>r. same_program (p_commitments p) r \<and> same_agg (p_commitments p) r \<and> req_status r = Complete
      \<and> req_type r = Aggregation \<and> start_block r = n \<and> on_chains (p_l1 p) (p_l2 p) r"
  obtain rs where sel: "select (p_env p) ?P s = (Inr rs, s')"
    and r: "first_row (sort_key start_block rs) = Some r"
    using assms unfolding fetch_completed_agg_proof_after_block_def andThen_eq_Ok ret_def by auto
  have "r \<in> set (requests s) \<and> ?P r"
    using conjunct1 [OF sort_key_first [OF r]] unfolding select_Ok(2) [OF sel] by blast
  then show ?thesis unfolding of_program_def by blast
qed

text \<open>What the table and the outgoing transactions look like after a relay that was recorded.\<close>

definition recorded ::
  "('args, 'wit, 'stdin) proposer \<Rightarrow> proposer_state \<Rightarrow> request \<Rightarrow> proposer_state \<Rightarrow> bool" where
  "recorded p s r s' \<longleftrightarrow> (\<exists>y out rc t t' now.
     sent_txs s' = sent_txs s @ [y] \<and> proposes p r (output_root out) y
     \<and> output_at_block (rpc (p_env p)) (as_u64 (end_block r)) t = Inr out
     \<and> send_transaction (p_contracts p) y t' = Inr rc \<and> tx_status rc
     \<and> requests s' = map (\<lambda>q. if req_id q = req_id r
          then q\<lparr>req_status := Relayed, relay_tx_hash := Some (tx_receipt_hash rc),
                 contract_address := Some (rc_l2oo_address (p_config p)), updated_at := now\<rparr>
          else q) (requests s))"

definition proposable :: "('args, 'wit, 'stdin) proposer \<Rightarrow> request list \<Rightarrow> int \<Rightarrow> request \<Rightarrow> bool" where
  "proposable p rows n r \<longleftrightarrow> r \<in> set rows \<and> of_program p r \<and> same_agg (p_commitments p) r
     \<and> req_status r = Complete \<and> req_type r = Aggregation \<and> start_block r = n"

lemma update_to_relayed_cases:
  assumes "update_request_to_relayed env i tx a s = (x, s')"
  shows "sent_txs s' = sent_txs s
    \<and> (requests s' = requests s \<or> (\<exists>t. requests s' = map (\<lambda>r. if req_id r = i
         then r\<lparr>req_status := Relayed, relay_tx_hash := Some tx, contract_address := Some a, updated_at := t\<rparr>
         else r) (requests s)))"
proof (cases rule: db_exec_cases [of env "\<lambda>t s. s\<lparr>requests := map (\<lambda>r. if req_id r = i
         then r\<lparr>req_status := Relayed, relay_tx_hash := Some tx, contract_address := Some a, updated_at := t\<rparr>
         else r) (requests s)\<rparr>" s])
  case (applied y)
  then show ?thesis using assms by (auto simp: update_request_to_relayed_def update_rows_def)
next
  case lost
  then show ?thesis using assms by (auto simp: update_request_to_relayed_def update_rows_def)
qed

lemma submit_cases:
  assumes run: "submit_agg_proofs p s = (x, s')"
  shows "(requests s' = requests s \<and> sent_txs s' = sent_txs s)
    \<or> (\<exists>n r. latest_block_number (p_contracts p) (tick s) = Inr n \<and> proposable p (requests s) (as_i64 n) r
        \<and> (recorded p s r s'
           \<or> requests s' = requests s \<and> (\<exists>y root. sent_txs s' = sent_txs s @ [y] \<and> proposes p r root y)))"
  using run unfolding submit_agg_proofs_def
proof (cases rule: andThen_cases)
  case (first_fails e)
  then show ?thesis using tick_onlyD [OF latest_reads first_fails(1)] by auto
next
  case n: (second n s1)
  have ln: "latest_block_number (p_contracts p) (tick s) = Inr n"
    and s1: "requests s1 = requests s \<and> sent_txs s1 = sent_txs s" using latest_Ok [OF n(1)] by auto
  from n(2) show ?thesis
  proof (cases rule: andThen_cases)
    case (first_fails e)
    then show ?thesis using s1 tick_onlyD [OF queries_read(14) first_fails(1)] by auto
  next
    case c: (second completed s2)
    have s2: "requests s2 = requests s \<and> sent_txs s2 = sent_txs s"
      using s1 tick_onlyD [OF queries_read(14) c(1)] by auto
    show ?thesis
    proof (cases completed)
      case None
      then show ?thesis using c(2) s2 by (simp add: ret_def)
    next
      case (Some r)
      have ok: "proposable p (requests s) (as_i64 n) r"
        using completed_agg c(1) s1 unfolding Some proposable_def by metis
      from c(2) [unfolded Some option.case] show ?thesis
      proof (cases rule: andThen_cases)
        case (first_fails e)
        obtain t where t: "relay_aggregation_proof p r s2 = (Inl e, t)"
          "requests s' = requests t" "sent_txs s' = sent_txs t"
          using counting_cases [OF first_fails(1)] by auto
        then show ?thesis using relay_cases [OF t(1)] s2 ok ln by auto
      next
        case h: (second hash s3)
        obtain t where t: "relay_aggregation_proof p r s2 = (Inr hash, t)"
          "requests s3 = requests t" "sent_txs s3 = sent_txs t"
          using counting_cases [OF h(1)] by auto
        obtain y out rc t1 t2 where s3: "requests s3 = requests s" "sent_txs s3 = sent_txs s @ [y]"
          and y: "proposes p r (output_root out) y"
            "output_at_block (rpc (p_env p)) (as_u64 (end_block r)) t1 = Inr out"
            "send_transaction (p_contracts p) y t2 = Inr rc" "tx_status rc" "hash = tx_receipt_hash rc"
          using relay_cases [OF t(1)] t(2,3) s2 by auto
        from update_to_relayed_cases [OF h(2)] show ?thesis
        proof (elim conjE disjE exE)
          assume "sent_txs s' = sent_txs s3" "requests s' = requests s3"
          then show ?thesis using s3 y ok ln by auto
        next
          fix now assume "sent_txs s' = sent_txs s3" "requests s' = map (\<lambda>q. if req_id q = req_id r
            then q\<lparr>req_status := Relayed, relay_tx_hash := Some hash,
              contract_address := Some (rc_l2oo_address (p_config p)), updated_at := now\<rparr> else q) (requests s3)"
          then have "recorded p s r s'"
            unfolding recorded_def using s3 y
            by (intro exI [of _ y] exI [of _ out] exI [of _ rc] exI [of _ t1] exI [of _ t2] exI [of _ now]) simp
          then show ?thesis using ok ln by blast
        qed
      qed
    qed
  qed
qed

subsection \<open>Creating an aggregation\<close>

lemma checkpoint_frame:
  assumes "checkpoint_l1_block p existing s = (x, s')"
  shows "requests s' = requests s \<and> next_id s' = next_id s
    \<and> (sent_txs s' = sent_txs s \<or> (\<exists>n. sent_txs s' = sent_txs s @ [CheckpointBlockHash n] \<and> existing = None))"
proof (cases existing)
  case None
  have run: "andThen (get_l1_header (rpc (p_env p)) Latest) (\<lambda>latest_header.
          andThen (send_tx p (CheckpointBlockHash (number latest_header))) (\<lambda>receipt.
            if \<not> tx_status receipt
            then throw (Failure (Msg ''Checkpoint block transaction reverted''))
            else ret (p_hash_slow p latest_header, as_i64 (number latest_header)))) s = (x, s')"
    using assms by (simp add: checkpoint_l1_block_def None)
  then show ?thesis
  proof (cases rule: andThen_cases)
    case (first_fails e)
    then show ?thesis using tick_onlyD [OF fetcher_tick_only(1) first_fails(1)] by auto
  next
    case h: (second hdr s1)
    obtain k where s1: "s1 = s\<lparr>tick := k\<rparr>" using tick_onlyD [OF fetcher_tick_only(1) h(1)] by blast
    have "requests s' = requests s1 \<and> next_id s' = next_id s1
        \<and> sent_txs s' = sent_txs s1 @ [CheckpointBlockHash (number hdr)]"
      using h(2) by (auto simp: andThen_def send_tx_def update_def call_def throw_def ret_def split: sum.splits if_splits)
    then show ?thesis using s1 None by auto
  qed
next
  case (Some hn)
  then show ?thesis
    using assms by (cases hn) (auto simp: checkpoint_l1_block_def andThen_def lift_def ret_def
        b256_from_slice_def split: if_splits)
qed

text \<open>
  The completed ranges that count: those of the program that start at or after the latest proposed
  block, sorted by start.
\<close>

definition completed_from :: "('args, 'wit, 'stdin) proposer \<Rightarrow> request list \<Rightarrow> int \<Rightarrow> range list \<Rightarrow> bool" where
  "completed_from p rows n rs \<longleftrightarrow> sorted (map fst rs)
     \<and> mset rs = image_mset row_range (filter_mset (\<lambda>r. of_program p r \<and> req_status r = Complete
         \<and> req_type r = Range \<and> n \<le> start_block r) (mset rows))"

lemma fetch_completed_ranges_Ok:
  assumes "fetch_completed_ranges (p_env p) (p_commitments p) n (p_l1 p) (p_l2 p) s = (Inr rs, s')"
  shows "completed_from p (requests s) n (sort_key fst rs)"
proof -
  have eq: "(\<lambda>r. same_program (p_commitments p) r \<and> req_status r = Complete \<and> req_type r = Range
      \<and> n \<le> start_block r \<and> on_chains (p_l1 p) (p_l2 p) r)
     = (\<lambda>r. of_program p r \<and> req_status r = Complete \<and> req_type r = Range \<and> n \<le> start_block r)"
    by (rule ext) (auto simp: of_program_def)
  obtain qs where sel: "select (p_env p) (\<lambda>r. of_program p r \<and> req_status r = Complete \<and> req_type r = Range
      \<and> n \<le> start_block r) s = (Inr qs, s')"
    and rs: "rs = map row_range (sort_key start_block qs)"
    using assms unfolding fetch_completed_ranges_def eq andThen_eq_Ok ret_def by auto
  have "mset rs = image_mset row_range (mset qs)" by (simp add: rs)
  then show ?thesis
    unfolding completed_from_def select_Ok(1) [OF sel] by simp
qed

definition active_agg :: "('args, 'wit, 'stdin) proposer \<Rightarrow> int \<Rightarrow> request \<Rightarrow> bool" where
  "active_agg p n r \<longleftrightarrow> of_program p r \<and> same_agg (p_commitments p) r
     \<and> req_status r \<in> set active_statuses \<and> req_type r = Aggregation \<and> start_block r = n"

text \<open>The aggregation \<open>a\<close> that a call may insert.\<close>

definition new_agg :: "('args, 'wit, 'stdin) proposer \<Rightarrow> proposer_state \<Rightarrow> request \<Rightarrow> bool" where
  "new_agg p s a \<longleftrightarrow> (\<exists>n rs si t. latest_block_number (p_contracts p) (tick s) = Inr n
     \<and> submission_interval (p_contracts p) t = Inr si
     \<and> (\<forall>r \<in> set (requests s). \<not> active_agg p (as_i64 n) r)
     \<and> completed_from p (requests s) (as_i64 n) rs
     \<and> get_highest_proven_contiguous_block rs = Some (end_block a) \<and> start_block a = as_i64 n
     \<and> as_i64 (max si (rc_submission_interval (p_config p))) \<le> wrap_i64 (end_block a - start_block a)
     \<and> active_agg p (as_i64 n) a \<and> req_status a = Unrequested
     \<and> checkpointed_l1_block_hash a \<noteq> None \<and> checkpointed_l1_block_number a \<noteq> None
     \<and> req_prover_address a = Some (rc_prover_address (p_config p)))"

lemma insert_request_cases:
  assumes "insert_request env r s = (x, s')"
  shows "sent_txs s' = sent_txs s
    \<and> (requests s' = requests s \<or> requests s' = requests s @ assign_ids (next_id s) [r])"
proof (cases rule: db_exec_cases [of env "\<lambda>t. append_rows [r]" s])
  case (applied y)
  then have "s' = append_rows [r] (s\<lparr>tick := Suc (tick s)\<rparr>)"
    using assms by (auto simp: insert_request_def)
  then show ?thesis by (simp add: append_rows_def)
next
  case lost
  then show ?thesis using assms by (auto simp: insert_request_def)
qed

lemma no_active_agg:
  assumes "fetch_active_agg_proofs_count (p_env p) n (p_commitments p) (p_l1 p) (p_l2 p) s = (Inr k, s')" "k \<le> 0"
    and "r \<in> set (requests s)"
  shows "\<not> active_agg p n r"
proof -
  have eq: "(\<lambda>r. same_program (p_commitments p) r \<and> same_agg (p_commitments p) r
      \<and> req_status r \<in> set active_statuses \<and> req_type r = Aggregation \<and> start_block r = n
      \<and> on_chains (p_l1 p) (p_l2 p) r) = active_agg p n"
    by (rule ext) (auto simp: of_program_def active_agg_def)
  show ?thesis
    using select_count_0 [OF assms(1) [unfolded fetch_active_agg_proofs_count_def eq] assms(2,3)] .
qed

abbreviation agg_insertion ::
  "('args, 'wit, 'stdin) proposer \<Rightarrow> int \<Rightarrow> int \<Rightarrow> b256 \<Rightarrow> int \<Rightarrow> (proposer_state, unit) op" where
  "agg_insertion p n e h m \<equiv> andThen (now (p_env p)) (\<lambda>t.
     insert_request (p_env p) (new_agg_request t (proof_mode_of p) n e
       (cc_range_vkey_commitment (p_commitments p)) (cc_agg_vkey_hash (p_commitments p))
       (cc_rollup_config_hash (p_commitments p)) (p_l1 p) (p_l2 p) m h (rc_prover_address (p_config p))))"

lemma agg_insertion_cases:
  assumes run: "agg_insertion p n e h m s = (x, s')"
  shows "sent_txs s' = sent_txs s \<and> (requests s' = requests s \<or>
    (\<exists>a. requests s' = requests s @ assign_ids (next_id s) [a] \<and> start_block a = n \<and> end_block a = e
       \<and> active_agg p n a \<and> req_status a = Unrequested \<and> checkpointed_l1_block_hash a \<noteq> None
       \<and> checkpointed_l1_block_number a \<noteq> None
       \<and> req_prover_address a = Some (rc_prover_address (p_config p))))"
  using run
proof (cases rule: andThen_cases)
  case (first_fails e)
  then show ?thesis using tick_onlyD [OF now_reads first_fails(1)] by auto
next
  case (second t s1)
  obtain k where s1: "s1 = s\<lparr>tick := k\<rparr>" using tick_onlyD [OF now_reads second(1)] by blast
  let ?a = "new_agg_request t (proof_mode_of p) n e
       (cc_range_vkey_commitment (p_commitments p)) (cc_agg_vkey_hash (p_commitments p))
       (cc_rollup_config_hash (p_commitments p)) (p_l1 p) (p_l2 p) m h (rc_prover_address (p_config p))"
  have "active_agg p n ?a"
    by (simp add: active_agg_def of_program_def same_program_def same_agg_def on_chains_def active_statuses_def)
  then show ?thesis
    using insert_request_cases [OF second(2)] s1 by (auto intro!: exI [of _ ?a] simp del: assign_ids.simps)
qed

text \<open>The part after the highest contiguous block is known.\<close>

definition aggregate_to :: "('args, 'wit, 'stdin) proposer \<Rightarrow> int \<Rightarrow> int \<Rightarrow> (proposer_state, unit) op" where
  "aggregate_to p latest highest =
     andThen (call (submission_interval (p_contracts p))) (\<lambda>si.
     andThen (lift (u256_to_u64 si)) (\<lambda>ci.
       if as_i64 (max ci (rc_submission_interval (p_config p))) \<le> wrap_i64 (highest - latest)
       then
         andThen (fetch_failed_agg_request_with_checkpointed_block_hash (p_env p) latest highest
                    (p_commitments p) (p_l1 p) (p_l2 p)) (\<lambda>existing.
         andThen (checkpoint_l1_block p existing) (\<lambda>(h, m). agg_insertion p latest highest h m))
       else ret ()))"

definition aggregated :: "('args, 'wit, 'stdin) proposer \<Rightarrow> (request \<Rightarrow> bool) \<Rightarrow> proposer_state \<Rightarrow> proposer_state \<Rightarrow> bool" where
  "aggregated p Q s s' \<longleftrightarrow>
     (requests s' = requests s \<or> (\<exists>a. Q a \<and> requests s' = requests s @ assign_ids (next_id s) [a]))
     \<and> (sent_txs s' = sent_txs s \<or> (\<exists>n. sent_txs s' = sent_txs s @ [CheckpointBlockHash n]))"

lemma aggregated_tick: "aggregated p Q (s\<lparr>tick := k\<rparr>) s' = aggregated p Q s s'"
  "aggregated p Q s (s\<lparr>tick := k\<rparr>)"
  by (simp_all add: aggregated_def)

lemma aggregated_mono:
  "aggregated p Q s s' \<Longrightarrow> (\<And>a. Q a \<Longrightarrow> R a) \<Longrightarrow> aggregated p R s s'"
  unfolding aggregated_def by blast

lemma checkpoint_and_insert:
  assumes run: "andThen (checkpoint_l1_block p existing) (\<lambda>(h, m). agg_insertion p n e h m) s = (x, s')"
  shows "aggregated p (\<lambda>a. start_block a = n \<and> end_block a = e \<and> active_agg p n a \<and> req_status a = Unrequested
    \<and> checkpointed_l1_block_hash a \<noteq> None \<and> checkpointed_l1_block_number a \<noteq> None
    \<and> req_prover_address a = Some (rc_prover_address (p_config p))) s s'"
  using run
proof (cases rule: andThen_cases)
  case (first_fails e)
  then show ?thesis using checkpoint_frame [OF first_fails(1)] by (auto simp: aggregated_def)
next
  case (second hm s1)
  obtain h m where "hm = (h, m)" by fastforce
  then have "agg_insertion p n e h m s1 = (x, s')" using second(2) by simp
  from agg_insertion_cases [OF this] checkpoint_frame [OF second(1)] show ?thesis
    unfolding aggregated_def by metis
qed

lemma aggregate_to_cases:
  assumes run: "aggregate_to p n e s = (x, s')"
  shows "aggregated p (\<lambda>a. start_block a = n \<and> end_block a = e \<and> active_agg p n a \<and> req_status a = Unrequested
    \<and> checkpointed_l1_block_hash a \<noteq> None \<and> checkpointed_l1_block_number a \<noteq> None
    \<and> req_prover_address a = Some (rc_prover_address (p_config p))
    \<and> (\<exists>si t. submission_interval (p_contracts p) t = Inr si
         \<and> as_i64 (max si (rc_submission_interval (p_config p))) \<le> wrap_i64 (e - n))) s s'"
  using run unfolding aggregate_to_def
proof (cases rule: andThen_cases)
  case (first_fails e)
  then show ?thesis by (auto simp: call_def aggregated_tick split: sum.splits)
next
  case si: (second si s1)
  have s1: "s1 = s\<lparr>tick := Suc (tick s)\<rparr>" and sub: "submission_interval (p_contracts p) (tick s) = Inr si"
    using si(1) by (auto simp: call_def split: sum.splits)
  from si(2) show ?thesis
  proof (cases rule: andThen_cases)
    case (first_fails e)
    then show ?thesis using s1 by (auto simp: lift_def aggregated_tick)
  next
    case ci: (second ci s2)
    have s2: "s2 = s1" "ci = si" using ci(1) by (auto simp: lift_def)
    show ?thesis
    proof (cases "as_i64 (max si (rc_submission_interval (p_config p))) \<le> wrap_i64 (e - n)")
      case False
      then show ?thesis using ci(2) s1 s2 by (auto simp: ret_def aggregated_tick)
    next
      case big: True
      from ci(2) [unfolded s2 if_P [OF big]] show ?thesis
      proof (cases rule: andThen_cases)
        case (first_fails e)
        then show ?thesis using s1 tick_onlyD [OF queries_read(9) first_fails(1)] by (auto simp: aggregated_tick)
      next
        case (second existing s3)
        obtain k where s3: "s3 = s\<lparr>tick := k\<rparr>" using s1 tick_onlyD [OF queries_read(9) second(1)] by auto
        show ?thesis
          using checkpoint_and_insert [OF second(2)] sub big unfolding s3 aggregated_tick(1)
          unfolding aggregated_def by blast
      qed
    qed
  qed
qed

lemma create_agg_cases:
  assumes run: "create_aggregation_proofs p s = (x, s')"
  shows "aggregated p (new_agg p s) s s'"
  using run unfolding create_aggregation_proofs_def Let_def
proof (cases rule: andThen_cases)
  case (first_fails e)
  then show ?thesis using tick_onlyD [OF latest_reads first_fails(1)] by (auto simp: aggregated_tick)
next
  case n: (second n s1)
  obtain k1 where s1: "s1 = s\<lparr>tick := k1\<rparr>" and ln: "latest_block_number (p_contracts p) (tick s) = Inr n"
    using latest_Ok [OF n(1)] by auto
  from n(2) show ?thesis
  proof (cases rule: andThen_cases)
    case (first_fails e)
    then show ?thesis using s1 tick_onlyD [OF queries_read(10) first_fails(1)] by (auto simp: aggregated_tick)
  next
    case act: (second active s2)
    obtain k2 where s2: "s2 = s\<lparr>tick := k2\<rparr>" using s1 tick_onlyD [OF queries_read(10) act(1)] by auto
    show ?thesis
    proof (cases "0 < active")
      case True
      then show ?thesis using act(2) s2 by (auto simp: ret_def aggregated_tick)
    next
      case False
      have none: "\<forall>r \<in> set (requests s). \<not> active_agg p (as_i64 n) r"
        using no_active_agg [OF act(1)] False s1 by simp
      from act(2) [unfolded if_not_P [OF False]] show ?thesis
      proof (cases rule: andThen_cases)
        case (first_fails e)
        then show ?thesis using s2 tick_onlyD [OF queries_read(13) first_fails(1)] by (auto simp: aggregated_tick)
      next
        case c: (second completed s3)
        obtain k3 where s3: "s3 = s\<lparr>tick := k3\<rparr>" using s2 tick_onlyD [OF queries_read(13) c(1)] by auto
        have cf: "completed_from p (requests s) (as_i64 n) (sort_key fst completed)"
          using fetch_completed_ranges_Ok [OF c(1)] s2 by simp
        show ?thesis
        proof (cases "get_highest_proven_contiguous_block (sort_key fst completed)")
          case None
          then show ?thesis using c(2) s3 by (auto simp: ret_def aggregated_tick)
        next
          case (Some highest)
          have "aggregate_to p (as_i64 n) highest s3 = (x, s')"
            using c(2) by (simp add: Some aggregate_to_def)
          from aggregate_to_cases [OF this] show ?thesis
            unfolding s3 aggregated_tick(1)
          proof (rule aggregated_mono, elim conjE exE)
            fix a si t
            assume a: "start_block a = as_i64 n" "end_block a = highest" and
              due: "as_i64 (max si (rc_submission_interval (p_config p))) \<le> wrap_i64 (highest - as_i64 n)" and
              rest: "active_agg p (as_i64 n) a" "submission_interval (p_contracts p) t = Inr si"
              "req_status a = Unrequested" "checkpointed_l1_block_hash a \<noteq> None"
              "checkpointed_l1_block_number a \<noteq> None"
              "req_prover_address a = Some (rc_prover_address (p_config p))"
            have "get_highest_proven_contiguous_block (sort_key fst completed) = Some (end_block a)"
              "as_i64 (max si (rc_submission_interval (p_config p))) \<le> wrap_i64 (end_block a - start_block a)"
              using a due Some by simp_all
            then show "new_agg p s a" unfolding new_agg_def using ln none cf a(1) rest by blast
          qed
        qed
      qed
    qed
  qed
qed

subsection \<open>The chain lock\<close>

lemma is_chain_locked_Ok:
  "is_chain_locked env l1 l2 iv s = (Inr b, s') \<Longrightarrow>
     b = (case chain_locks s (l1, l2) of None \<Rightarrow> False | Some t \<Rightarrow> db_now env (tick s) - iv < t)
     \<and> s' = s\<lparr>tick := Suc (tick s)\<rparr>"
  by (auto simp: is_chain_locked_def andThen_eq_Ok lift_def pg_interval_def db_read_Ok split: if_splits)

lemma acquire_Ok:
  assumes "acquire_chain_lock env l1 l2 iv s = (Inr u, s')"
  shows "chain_locks s' = (chain_locks s)((l1, l2) := Some (db_now env (Suc (tick s))))
    \<and> (case chain_locks s (l1, l2) of None \<Rightarrow> True | Some t \<Rightarrow> t \<le> db_now env (tick s) - iv)
    \<and> iv * 1000000 \<le> i64_max"
proof -
  obtain b s1 where b: "is_chain_locked env l1 l2 iv s = (Inr b, s1)"
    and r: "(if b then throw (Failure (Msg ''There is another proposer for the same chain connected to the database.''))
       else add_chain_lock env l1 l2) s1 = (Inr u, s')"
    using assms unfolding acquire_chain_lock_def andThen_eq_Ok by blast
  have "iv * 1000000 \<le> i64_max"
    using b by (auto simp: is_chain_locked_def andThen_eq_Ok lift_def pg_interval_def split: if_splits)
  moreover have "\<not> b" using r by (auto simp: throw_def)
  ultimately show ?thesis
    using r is_chain_locked_Ok [OF b]
    by (auto simp: add_chain_lock_def db_exec_Ok split: option.splits)
qed

subsection \<open>Orphans\<close>

definition orphan_free :: "('args, 'wit, 'stdin) proposer \<Rightarrow> request list \<Rightarrow> proposer_state \<Rightarrow> bool" where
  "orphan_free p rest s \<longleftrightarrow> (\<forall>r \<in> set (requests s). of_program p r
     \<and> req_status r \<in> {WitnessGeneration, Execution} \<and> lookup_task (req_id r) (tasks s) = None \<longrightarrow>
       req_id r \<in> req_id ` set rest)"

lemma fail_if_orphaned_step:
  "triple (orphan_free p (r # rs)) (fail_if_orphaned p r) (\<lambda>_. orphan_free p rs) (\<lambda>_. True)"
proof (rule tripleI)
  fix s x s' assume of: "orphan_free p (r # rs) s" and run: "fail_if_orphaned p r s = (Inr x, s')"
  show "orphan_free p rs s'"
  proof (cases "lookup_task (req_id r) (tasks s)")
    case None
    then have u: "update_request_status (p_env p) (req_id r) Failed s = (Inr x, s')"
      using run by (simp add: fail_if_orphaned_def andThen_def asks_def)
    have "outside s' = outside s"
      using touchesD [OF touches_status(1) [OF insertI1] u] by blast
    then have out: "tasks s' = tasks s"
      by (cases s; cases s') (simp add: outside_def world.defs)
    show ?thesis
      unfolding orphan_free_def
    proof (intro ballI impI)
      fix q assume q: "q \<in> set (requests s')"
        and st: "of_program p q \<and> req_status q \<in> {WitnessGeneration, Execution}
          \<and> lookup_task (req_id q) (tasks s') = None"
      show "req_id q \<in> req_id ` set rs"
      proof (rule mem_map_if [OF q [unfolded set_status.done_row [OF u]]])
        fix y assume "q = y\<lparr>req_status := Failed, updated_at := db_now (p_env p) (tick s)\<rparr>"
        then show ?thesis using st by simp
      next
        assume y: "q \<in> set (requests s)" "req_id q \<noteq> req_id r"
        have "req_id q \<in> req_id ` set (r # rs)"
          using bspec [OF of [unfolded orphan_free_def] y(1)] st unfolding out by (rule mp)
        then show ?thesis using y(2) by simp
      qed
    qed
  next
    case (Some t)
    then have s': "s' = s" using run by (simp add: fail_if_orphaned_def andThen_def asks_def ret_def)
    show ?thesis
      unfolding orphan_free_def s'
    proof (intro ballI impI)
      fix q assume q: "q \<in> set (requests s)" and st: "of_program p q
        \<and> req_status q \<in> {WitnessGeneration, Execution} \<and> lookup_task (req_id q) (tasks s) = None"
      have "req_id q \<noteq> req_id r" using st Some by auto
      moreover have "req_id q \<in> req_id ` set (r # rs)" using of q st unfolding orphan_free_def by blast
      ultimately show "req_id q \<in> req_id ` set rs" by simp
    qed
  qed
qed simp

lemma requests_by_status_Ok:
  assumes "fetch_requests_by_status (p_env p) st (p_commitments p) (p_l1 p) (p_l2 p) s = (Inr rs, s')"
  shows "set rs = {r \<in> set (requests s). of_program p r \<and> req_status r = st} \<and> (\<exists>k. s' = s\<lparr>tick := k\<rparr>)"
proof -
  have "(\<lambda>r. same_program (p_commitments p) r \<and> req_status r = st \<and> on_chains (p_l1 p) (p_l2 p) r)
      = (\<lambda>r. of_program p r \<and> req_status r = st)"
    by (rule ext) (auto simp: of_program_def)
  note sel = select_Ok(2,3) [OF assms [unfolded fetch_requests_by_status_def this]]
  show ?thesis using sel by blast
qed

lemma set_orphaned_free:
  assumes "set_orphaned_tasks_to_failed p s = (Inr u, s')"
  shows "orphan_free p [] s'"
proof -
  obtain ws s1 es s2 where
    ws: "fetch_requests_by_status (p_env p) WitnessGeneration (p_commitments p) (p_l1 p) (p_l2 p) s = (Inr ws, s1)"
    and es: "fetch_requests_by_status (p_env p) Execution (p_commitments p) (p_l1 p) (p_l2 p) s1 = (Inr es, s2)"
    and run: "forEach (fail_if_orphaned p) (ws @ es) s2 = (Inr u, s')"
    using assms unfolding set_orphaned_tasks_to_failed_def andThen_eq_Ok by blast
  note w = conjunct1 [OF requests_by_status_Ok [OF ws]] and e = conjunct1 [OF requests_by_status_Ok [OF es]]
  have s1: "requests s1 = requests s" using tick_onlyD [OF queries_read(7) ws] by auto
  have s2: "requests s2 = requests s" using tick_onlyD [OF queries_read(7) es] s1 by auto
  have "orphan_free p (ws @ es) s2"
    unfolding orphan_free_def s2
  proof (intro ballI impI imageI)
    fix r assume "r \<in> set (requests s)" and "of_program p r
      \<and> req_status r \<in> {WitnessGeneration, Execution} \<and> lookup_task (req_id r) (tasks s2) = None"
    then show "r \<in> set (ws @ es)" unfolding set_append w e s1 Un_iff mem_Collect_eq insert_iff by blast
  qed
  then show ?thesis
    by (rule tripleD_Ok [OF triple_forEach [where R = "orphan_free p", OF fail_if_orphaned_step] _ run])
qed

text \<open>A request of the program in witness generation or execution for which no task runs.\<close>

definition orphan :: "('args, 'wit, 'stdin) proposer \<Rightarrow> proposer_state \<Rightarrow> request \<Rightarrow> bool" where
  "orphan p s r \<longleftrightarrow> of_program p r \<and> req_status r \<in> {WitnessGeneration, Execution} \<and> (\<forall>t \<in> set (tasks s). fst t \<noteq> req_id r)"

lemma lookup_task_None: "lookup_task i ts = None \<longleftrightarrow> (\<forall>t\<in>set ts. fst t \<noteq> i)"
  by (auto simp: lookup_task_def map_of_eq_None_iff)

abbreviation failed_at :: "int \<Rightarrow> request \<Rightarrow> request" where
  "failed_at t r \<equiv> r\<lparr>req_status := Failed, updated_at := t\<rparr>"

text \<open>Failing the orphans among \<open>rs\<close>, whatever becomes of the statements.\<close>

definition fails_only :: "int set \<Rightarrow> request list \<Rightarrow> request list \<Rightarrow> bool" where
  "fails_only I = list_all2 (\<lambda>r r'. r' = r \<or> req_id r \<in> I \<and> (\<exists>t. r' = failed_at t r))"

lemma fails_only_refl: "fails_only I rows rows"
  by (simp add: fails_only_def list_all2_same)

lemma fails_only_trans:
  assumes "fails_only I as bs" and "fails_only J bs cs" and "I \<subseteq> K" "J \<subseteq> K"
  shows "fails_only K as cs"
  unfolding fails_only_def
proof (rule list_all2_trans [OF _ assms(1,2) [unfolded fails_only_def]])
  fix a b c :: request
  assume "b = a \<or> req_id a \<in> I \<and> (\<exists>t. b = failed_at t a)" and "c = b \<or> req_id b \<in> J \<and> (\<exists>t. c = failed_at t b)"
  then show "c = a \<or> req_id a \<in> K \<and> (\<exists>t. c = failed_at t a)"
    using assms(3,4) by auto
qed

lemma fail_if_orphaned_rows:
  assumes "fail_if_orphaned p r s = (x, s')"
  shows "tasks s' = tasks s"
    "fails_only (if lookup_task (req_id r) (tasks s) = None then {req_id r} else {}) (requests s) (requests s')"
proof -
  have map: "fails_only {req_id r} rows (map (\<lambda>q. if req_id q = req_id r then failed_at t q else q) rows)" for t rows
    by (auto simp: fails_only_def list_all2_map2 list_all2_same)
  show "tasks s' = tasks s"
    "fails_only (if lookup_task (req_id r) (tasks s) = None then {req_id r} else {}) (requests s) (requests s')"
    using assms map
    by (auto simp: fail_if_orphaned_def andThen_def asks_def ret_def update_request_status_def update_rows_def
        db_exec_def Let_def fails_only_refl split: if_splits db_fate.splits)
qed

lemma fail_orphans_rows:
  "forEach (fail_if_orphaned p) rs s = (x, s') \<Longrightarrow> tasks s' = tasks s \<and>
     fails_only (req_id ` {r \<in> set rs. lookup_task (req_id r) (tasks s) = None}) (requests s) (requests s')"
proof (induction rs arbitrary: s)
  case Nil
  then show ?case by (auto simp: ret_def fails_only_refl)
next
  case (Cons r rs)
  obtain y t where one: "fail_if_orphaned p r s = (y, t)" by fastforce
  note step = fail_if_orphaned_rows [OF one]
  show ?case
  proof (cases y)
    case (Inl e)
    then have "s' = t" using Cons.prems one by (simp add: andThen_def)
    then show ?thesis
      using step fails_only_trans [OF step(2) fails_only_refl [of "{}"]] by auto
  next
    case (Inr u)
    then have "forEach (fail_if_orphaned p) rs t = (x, s')" using Cons.prems one by (simp add: andThen_def)
    from Cons.IH [OF this] step(1) have rest: "tasks s' = tasks s"
      "fails_only (req_id ` {r \<in> set rs. lookup_task (req_id r) (tasks s) = None}) (requests t) (requests s')"
      by simp_all
    have "fails_only (req_id ` {q \<in> set (r # rs). lookup_task (req_id q) (tasks s) = None}) (requests s) (requests s')"
      by (rule fails_only_trans [OF step(2) rest(2)]) auto
    then show ?thesis using rest(1) by blast
  qed
qed

lemma set_orphaned_rows:
  assumes run: "set_orphaned_tasks_to_failed p s = (x, s')"
  shows "tasks s' = tasks s \<and>
     fails_only (req_id ` {r \<in> set (requests s). orphan p s r}) (requests s) (requests s')"
proof -
  obtain a s1 where ws: "fetch_requests_by_status (p_env p) WitnessGeneration (p_commitments p) (p_l1 p) (p_l2 p) s = (a, s1)"
    by fastforce
  obtain k where s1: "s1 = s\<lparr>tick := k\<rparr>" using tick_onlyD [OF queries_read(7) ws] by auto
  show ?thesis
  proof (cases a)
    case (Inl e)
    then show ?thesis using run ws s1 by (auto simp: set_orphaned_tasks_to_failed_def andThen_def fails_only_refl)
  next
    case (Inr ws')
    note w = conjunct1 [OF requests_by_status_Ok [OF ws [unfolded Inr]]]
    obtain b s2 where es: "fetch_requests_by_status (p_env p) Execution (p_commitments p) (p_l1 p) (p_l2 p) s1 = (b, s2)"
      by fastforce
    obtain k2 where s2: "s2 = s1\<lparr>tick := k2\<rparr>" using tick_onlyD [OF queries_read(7) es] by auto
    show ?thesis
    proof (cases b)
      case (Inl e)
      then show ?thesis using run ws es s1 s2 Inr
        by (auto simp: set_orphaned_tasks_to_failed_def andThen_def fails_only_refl)
    next
      case (Inr es')
      note e = conjunct1 [OF requests_by_status_Ok [OF es [unfolded Inr]]]
      have "forEach (fail_if_orphaned p) (ws' @ es') s2 = (x, s')"
        using run ws es \<open>a = Inr ws'\<close> Inr by (simp add: set_orphaned_tasks_to_failed_def andThen_def)
      note rows = fail_orphans_rows [OF this]
      have "set (ws' @ es') \<subseteq> {r \<in> set (requests s). of_program p r \<and> req_status r \<in> {WitnessGeneration, Execution}}"
        using w e s1 by auto
      then have "req_id ` {r \<in> set (ws' @ es'). lookup_task (req_id r) (tasks s2) = None}
          \<subseteq> req_id ` {r \<in> set (requests s). orphan p s r}"
        using s1 s2 by (intro image_mono) (auto simp: orphan_def lookup_task_None)
      from fails_only_trans [OF conjunct2 [OF rows] fails_only_refl this, of "{}"] rows s1 s2 show ?thesis by simp
    qed
  qed
qed

subsection \<open>Properties\<close>

text \<open>
  C29. Choosing the next proof. An aggregation is requested only when it is unrequested, belongs to
  the running program and keys, starts at or after the latest proposed block, and the complete
  range proofs inside it, in whatever order the server scanned them, tile it end to end; in
  every other case the request chosen is the unrequested range of the program with the lowest
  start at or after that block. The table is not changed by the choice.
\<close>

theorem next_proof_ready:
  assumes "get_next_unrequested_proof p s = (Inr (Some r), s')"
    and "\<forall>q \<in> set (requests s). of_program p q \<and> req_status q = Complete \<and> req_type q = Range \<longrightarrow>
      start_block q < end_block q"
  shows "\<exists>n. latest_block_number (p_contracts p) (tick s) = Inr n \<and> requests s' = requests s
    \<and> (agg_choice p (requests s) (as_i64 n) r \<or> range_choice p (requests s) (as_i64 n) r)"
  using assms by (rule get_next_choice)

definition sample_agg :: "int \<Rightarrow> request_status \<Rightarrow> int \<Rightarrow> int \<Rightarrow> request" where
  "sample_agg i st b e =
     (new_agg_request 0 Real b e [1] [2] [3] 10 20 7 [7] [1])\<lparr>req_id := i, req_status := st, req_proof := Some [9]\<rparr>"

lemma sample_agg_simps [simp]:
  "req_id (sample_agg i st b e) = i" "req_status (sample_agg i st b e) = st"
  "req_type (sample_agg i st b e) = Aggregation" "start_block (sample_agg i st b e) = b"
  "end_block (sample_agg i st b e) = e" "same_program sample_commitments (sample_agg i st b e)"
  "same_agg sample_commitments (sample_agg i st b e)" "on_chains 10 20 (sample_agg i st b e)"
  "req_proof (sample_agg i st b e) = Some [9]"
  "checkpointed_l1_block_number (sample_agg i st b e) = Some 7"
  by (simp_all add: sample_agg_def same_program_def same_agg_def sample_commitments_def on_chains_def)

lemma sample_latest [simp]:
  "get_latest_proposed_block_number sample_proposer s = (Inr 1, s\<lparr>tick := Suc (tick s)\<rparr>)"
  by (simp add: get_latest_proposed_block_number_def andThen_def call_def lift_def sample_contracts_def
      u256_to_u64_def u64_max_def)

lemma sample_select [simp]:
  "select sample_db q s = (Inr (filter q (requests s)), s\<lparr>tick := Suc (tick s)\<rparr>)"
  by (simp add: select_def db_read_def)

lemma as_i64_1 [simp]: "as_i64 1 = 1"
  by (simp add: wrap_i64_def)

theorem next_proof_ready_witness:
  "\<exists>s'. get_next_unrequested_proof sample_proposer
      (sample_state [sample_range 1 Complete 5 9, sample_agg 2 Unrequested 1 9, sample_range 3 Complete 1 5])
      = (Inr (Some (sample_agg 2 Unrequested 1 9)), s')
    \<and> covered sample_proposer [sample_range 1 Complete 5 9, sample_agg 2 Unrequested 1 9, sample_range 3 Complete 1 5]
        (sample_agg 2 Unrequested 1 9)"
proof -
  let ?rows = "[sample_range 1 Complete 5 9, sample_agg 2 Unrequested 1 9, sample_range 3 Complete 1 5]"
  have "\<exists>s'. get_next_unrequested_proof sample_proposer (sample_state ?rows)
      = (Inr (Some (sample_agg 2 Unrequested 1 9)), s')"
    by (simp add: get_next_unrequested_proof_def andThen_def fetch_unrequested_agg_proof_def ret_def
        get_consecutive_complete_range_proofs_def validate_aggregation_request_def check_neighbours_def)
  then obtain s' where run: "get_next_unrequested_proof sample_proposer (sample_state ?rows)
      = (Inr (Some (sample_agg 2 Unrequested 1 9)), s')" by blast
  have "agg_choice sample_proposer ?rows (as_i64 1) (sample_agg 2 Unrequested 1 9)
      \<or> range_choice sample_proposer ?rows (as_i64 1) (sample_agg 2 Unrequested 1 9)"
    using next_proof_ready [OF run] by (auto simp: sample_contracts_def)
  then have "covered sample_proposer ?rows (sample_agg 2 Unrequested 1 9)"
    by (simp add: agg_choice_def range_choice_def)
  then show ?thesis using run by blast
qed

lemma status_count_bound: "0 \<le> status_count p st rows \<and> status_count p st rows \<le> int (length rows)"
  by (simp add: status_count_def)

text \<open>
  C30. The concurrency limits. One call of \<open>request_queued_proofs\<close> adds at most one task, and only
  while fewer requests of the program than configured are in witness generation, and fewer in
  witness generation, execution and proving together (the counts are the exact row counts); the
  new task works on an unrequested request of the table. So once the task has marked its row,
  both counts are within their limits.
\<close>

theorem request_queued_within_limits:
  assumes run: "request_queued_proofs p s = (x, s')" and changed: "tasks s' \<noteq> tasks s"
    and conc: "0 \<le> rc_max_concurrent_proof_requests (p_config p)" "rc_max_concurrent_proof_requests (p_config p) < 2 ^ 62"
    and wit: "0 \<le> rc_max_concurrent_witness_gen (p_config p)" "rc_max_concurrent_witness_gen (p_config p) < 2 ^ 62"
    and len: "int (length (requests s)) < 2 ^ 61"
    and proper: "\<forall>q \<in> set (requests s). of_program p q \<and> req_status q = Complete \<and> req_type q = Range \<longrightarrow>
      start_block q < end_block q"
  shows "status_count p WitnessGeneration (requests s) + status_count p Execution (requests s)
      + status_count p Prove (requests s) < rc_max_concurrent_proof_requests (p_config p)
    \<and> status_count p WitnessGeneration (requests s) < rc_max_concurrent_witness_gen (p_config p)
    \<and> requests s' = requests s
    \<and> (\<exists>r \<in> set (requests s). req_status r = Unrequested \<and> of_program p r
         \<and> tasks s' = filter (\<lambda>t. fst t \<noteq> req_id r) (tasks s) @ [(req_id r, Spawned, r)])"
proof -
  obtain r t u where next_one: "get_next_unrequested_proof p t = (Inr (Some r), u)"
    and t: "requests t = requests s" and ins: "insert_task (req_id r) Spawned r u = (x, s')"
    and u: "tasks u = tasks s"
    and c: "\<not> as_i64 (rc_max_concurrent_proof_requests (p_config p)) \<le>
        wrap_i64 (wrap_i64 (status_count p WitnessGeneration (requests s) + status_count p Execution (requests s))
          + status_count p Prove (requests s))"
    and w: "\<not> as_i64 (rc_max_concurrent_witness_gen (p_config p)) \<le> status_count p WitnessGeneration (requests s)"
    using tasks_change [OF run changed] by blast
  note b = status_count_bound [of p WitnessGeneration "requests s"] status_count_bound [of p Execution "requests s"]
    status_count_bound [of p Prove "requests s"]
  have ids: "as_i64 (rc_max_concurrent_proof_requests (p_config p)) = rc_max_concurrent_proof_requests (p_config p)"
    "as_i64 (rc_max_concurrent_witness_gen (p_config p)) = rc_max_concurrent_witness_gen (p_config p)"
    using conc wit by (simp_all add: int_bounds)
  have w1: "wrap_i64 (status_count p WitnessGeneration (requests s) + status_count p Execution (requests s))
      = status_count p WitnessGeneration (requests s) + status_count p Execution (requests s)"
    by (rule wrap_i64_id) (use b len in \<open>simp add: int_bounds\<close>)
  have w2: "wrap_i64 (status_count p WitnessGeneration (requests s) + status_count p Execution (requests s)
        + status_count p Prove (requests s))
      = status_count p WitnessGeneration (requests s) + status_count p Execution (requests s)
        + status_count p Prove (requests s)"
    by (rule wrap_i64_id) (use b len in \<open>simp add: int_bounds\<close>)
  have "r \<in> set (requests s) \<and> req_status r = Unrequested \<and> of_program p r"
    using get_next_choice [OF next_one] proper unfolding t agg_choice_def range_choice_def by blast
  moreover have "tasks s' = filter (\<lambda>t. fst t \<noteq> req_id r) (tasks s) @ [(req_id r, Spawned, r)]"
    "requests s' = requests u"
    using ins u by (auto simp: insert_task_def update_def)
  moreover have "requests u = requests s" using get_next_frame [OF next_one] t by simp
  ultimately show ?thesis using c w unfolding ids w1 w2 by auto
qed

lemma sample_count [simp]:
  "fetch_request_count sample_db st sample_commitments 10 20 s
     = (Inr (status_count sample_proposer st (requests s)), s\<lparr>tick := Suc (tick s)\<rparr>)"
proof -
  have eq: "(\<lambda>r. same_program sample_commitments r \<and> req_status r = st \<and> on_chains 10 20 r)
      = (\<lambda>r. of_program sample_proposer r \<and> req_status r = st)"
    by (rule ext) (auto simp: of_program_def)
  show ?thesis unfolding fetch_request_count_def eq by (simp add: select_count_def db_read_def status_count_def)
qed

theorem request_queued_within_limits_witness:
  "\<exists>x s'. request_queued_proofs sample_proposer (sample_state [sample_range 4 Unrequested 5 9, sample_range 5 Prove 1 5])
      = (x, s')
    \<and> tasks s' = [(4, Spawned, sample_range 4 Unrequested 5 9)]
    \<and> status_count sample_proposer Prove [sample_range 4 Unrequested 5 9, sample_range 5 Prove 1 5] < 2"
proof -
  let ?rows = "[sample_range 4 Unrequested 5 9, sample_range 5 Prove 1 5]"
  obtain x s' where run: "request_queued_proofs sample_proposer (sample_state ?rows) = (x, s')" by fastforce
  have pr [simp]: "of_program sample_proposer (sample_range i st b e)" for i st b e
    by (simp add: of_program_def)
  have [simp]: "as_i64 2 = 2" "as_i64 0 = 0" by (simp_all add: wrap_i64_def)
  have tasks: "tasks s' = [(4, Spawned, sample_range 4 Unrequested 5 9)]"
    using run
    by (simp add: request_queued_proofs_def andThen_def status_count_def sample_config_def
        get_next_unrequested_proof_def fetch_unrequested_agg_proof_def ret_def throw_def
        fetch_first_unrequested_range_proof_def insert_task_def update_def)
      (auto simp: insort_key_def)
  have "status_count sample_proposer WitnessGeneration ?rows + status_count sample_proposer Execution ?rows
      + status_count sample_proposer Prove ?rows < rc_max_concurrent_proof_requests (p_config sample_proposer)"
    using request_queued_within_limits [OF run] tasks by (simp add: sample_config_def)
  then have "status_count sample_proposer Prove ?rows < 2"
    by (simp add: sample_config_def status_count_def)
  then show ?thesis using run tasks by blast
qed

text \<open>
  C12. Relaying. One call of \<open>submit_agg_proofs\<close> sends at most one transaction, which proposes the
  proof of a complete aggregation of the running program and keys that starts exactly at the
  latest proposed block; the table changes only if the node's output root at the end block was
  proposed by that transaction and its receipt reports success, and then exactly by recording
  the hash in the row of that aggregation.
\<close>

theorem relayed_only_after_success:
  assumes "submit_agg_proofs p s = (x, s')"
  shows "(requests s' = requests s \<and> sent_txs s' = sent_txs s)
    \<or> (\<exists>n r. latest_block_number (p_contracts p) (tick s) = Inr n \<and> proposable p (requests s) (as_i64 n) r
        \<and> (recorded p s r s'
           \<or> requests s' = requests s \<and> (\<exists>y root. sent_txs s' = sent_txs s @ [y] \<and> proposes p r root y)))"
  using assms by (rule submit_cases)

lemma sample_dgf [simp]: "rc_dgf_address sample_config \<noteq> address_zero"
proof -
  have "length (rc_dgf_address sample_config) \<noteq> length address_zero"
    by (simp add: sample_config_def address_zero_def)
  then show ?thesis by metis
qed

theorem relayed_only_after_success_witness:
  "\<exists>x s'. submit_agg_proofs sample_proposer (sample_state [sample_agg 2 Complete 1 9]) = (x, s')
    \<and> length (sent_txs s') = 1
    \<and> (\<exists>r. proposable sample_proposer [sample_agg 2 Complete 1 9] 1 r)"
proof -
  obtain x s' where run: "submit_agg_proofs sample_proposer (sample_state [sample_agg 2 Complete 1 9]) = (x, s')"
    by fastforce
  have len: "length (sent_txs s') = 1"
    using run
    by (simp add: submit_agg_proofs_def andThen_def fetch_completed_agg_proof_after_block_def ret_def
        counting_def onErr_def relay_aggregation_proof_def relay_transaction_def get_l2_output_at_block_def
        call_def sample_contracts_def lift_def unwrap_def send_tx_def
        update_def update_request_to_relayed_def update_rows_def db_exec_def Let_def)
      auto
  then have "\<exists>n r. latest_block_number (p_contracts sample_proposer) 0 = Inr n
      \<and> proposable sample_proposer [sample_agg 2 Complete 1 9] (as_i64 n) r"
    using relayed_only_after_success [OF run] by auto
  then show ?thesis using run len by (auto simp: sample_contracts_def)
qed

text \<open>
  C31. Creating an aggregation. One call of \<open>create_aggregation_proofs\<close> inserts at most one request and
  sends at most the checkpoint transaction. A request it inserts starts at the latest proposed
  block, when no active aggregation of the program and keys starts there, carries an L1 checkpoint
  and the prover address, covers at least the larger of the two submission intervals, and ends
  where the chain of complete ranges breaks: the complete ranges of the program from that
  block on, sorted by start, begin with a non-empty run of adjacent ranges up to its end block, and
  the next one, if any, does not start there.
\<close>

theorem aggregation_created_when_due:
  assumes run: "create_aggregation_proofs p s = (x, s')"
    and proper: "\<forall>q \<in> set (requests s). of_program p q \<and> req_status q = Complete \<and> req_type q = Range \<longrightarrow>
      start_block q < end_block q"
  shows "aggregated p (\<lambda>a. new_agg p s a
    \<and> (\<exists>xs ys. completed_from p (requests s) (start_block a) (xs @ ys) \<and> xs \<noteq> []
         \<and> tiles (fst (hd xs)) xs (end_block a) \<and> (ys = [] \<or> fst (hd ys) \<noteq> end_block a))) s s'"
proof (rule aggregated_mono [OF create_agg_cases [OF run]])
  fix a assume a: "new_agg p s a"
  then obtain rs where rs: "completed_from p (requests s) (start_block a) rs"
    "get_highest_proven_contiguous_block rs = Some (end_block a)"
    unfolding new_agg_def by metis
  have "fst r < snd r" if r: "r \<in> set rs" for r
  proof -
    have "r \<in># mset rs" using r by simp
    then obtain q where "q \<in> set (requests s)" "of_program p q" "req_status q = Complete" "req_type q = Range"
      "r = row_range q"
      using rs(1) unfolding completed_from_def by auto
    then show ?thesis using proper by (metis fst_conv snd_conv)
  qed
  then obtain xs ys where "rs = xs @ ys" "xs \<noteq> []" "tiles (fst (hd rs)) xs (end_block a)"
    "ys = [] \<or> fst (hd ys) \<noteq> end_block a"
    using highest_block_split [OF rs(2)] by blast
  then have "completed_from p (requests s) (start_block a) (xs @ ys) \<and> xs \<noteq> []
      \<and> tiles (fst (hd xs)) xs (end_block a) \<and> (ys = [] \<or> fst (hd ys) \<noteq> end_block a)"
    using rs(1) by simp
  then show "new_agg p s a
    \<and> (\<exists>xs ys. completed_from p (requests s) (start_block a) (xs @ ys) \<and> xs \<noteq> []
         \<and> tiles (fst (hd xs)) xs (end_block a) \<and> (ys = [] \<or> fst (hd ys) \<noteq> end_block a))"
    using a by blast
qed

theorem aggregation_created_when_due_witness:
  "\<exists>x s'. create_aggregation_proofs sample_proposer
      (sample_state [sample_range 1 Complete 5 9, sample_range 3 Complete 1 5, sample_range 5 Complete 12 15]) = (x, s')
    \<and> length (requests s') = 4 \<and> length (sent_txs s') \<le> 1
    \<and> end_block (last (requests s')) = 9"
proof -
  let ?rows = "[sample_range 1 Complete 5 9, sample_range 3 Complete 1 5, sample_range 5 Complete 12 15]"
  obtain x s' where run: "create_aggregation_proofs sample_proposer (sample_state ?rows) = (x, s')" by fastforce
  have "as_i64 4 = 4" "as_i64 8 = 8" by (simp_all add: wrap_i64_def)
  then have rows: "length (requests s') = 4" "end_block (last (requests s')) = 9"
    using run
    by (simp_all add: create_aggregation_proofs_def andThen_def fetch_active_agg_proofs_count_def select_count_def
        db_read_def fetch_completed_ranges_def ret_def get_highest_proven_contiguous_block_def call_def
        sample_contracts_def lift_def u256_to_u64_def u64_max_def
        fetch_failed_agg_request_with_checkpointed_block_hash_def checkpoint_l1_block_def
        get_l1_header_def get_header_def sample_block_def send_tx_def update_def now_def sample_config_def
        insert_request_def db_exec_def Let_def append_rows_def) auto
  have "length (sent_txs s') \<le> 1"
    using aggregation_created_when_due [OF run] by (auto simp: aggregated_def)
  then show ?thesis using run rows by blast
qed

text \<open>
  The chain lock holds for exactly one interval. After a proposer took the lock, and as long as
  nobody writes it, another acquisition whose statements succeed gets it iff at least the loop
  interval has passed on the database's clock since; an acquisition that does not get it leaves
  the lock alone. (A proposer refreshes its lock only at the end of a turn and then sleeps for the
  same interval, so a second one can get in between two refreshes.)
\<close>

theorem chain_lock_window:
  assumes "acquire_chain_lock env l1 l2 iv s = (Inr (), s1)"
    and "chain_locks s2 (l1, l2) = chain_locks s1 (l1, l2)"
    and "db_fate_at env2 (tick s2) = Acked" "db_fate_at env2 (Suc (tick s2)) = Acked"
    and "acquire_chain_lock env2 l1 l2 iv s2 = (x, s3)"
  shows "(x = Ok () \<longleftrightarrow> db_now env (Suc (tick s)) + iv \<le> db_now env2 (tick s2))
    \<and> (x \<noteq> Ok () \<longrightarrow> chain_locks s3 = chain_locks s2)"
proof -
  have l: "chain_locks s2 (l1, l2) = Some (db_now env (Suc (tick s)))" and iv: "iv * 1000000 \<le> i64_max"
    using acquire_Ok [OF assms(1)] assms(2) by simp_all
  have run: "acquire_chain_lock env2 l1 l2 iv s2 =
      (if db_now env2 (tick s2) - iv < db_now env (Suc (tick s))
       then (Inl (Failure (Msg ''There is another proposer for the same chain connected to the database.'')),
         s2\<lparr>tick := Suc (tick s2)\<rparr>)
       else add_chain_lock env2 l1 l2 (s2\<lparr>tick := Suc (tick s2)\<rparr>))"
    using l iv assms(3)
    by (simp add: acquire_chain_lock_def is_chain_locked_def andThen_def lift_def pg_interval_def db_read_def throw_def)
  have ok: "fst (add_chain_lock env2 l1 l2 (s2\<lparr>tick := Suc (tick s2)\<rparr>)) = Ok ()"
    using assms(4) by (simp add: add_chain_lock_def db_exec_def Let_def)
  show ?thesis
  proof (cases "db_now env2 (tick s2) - iv < db_now env (Suc (tick s))")
    case True
    then show ?thesis using run assms(5) by auto
  next
    case False
    then have "x = Ok ()" using run assms(5) ok by (metis fst_conv)
    then show ?thesis using False by simp
  qed
qed

theorem chain_lock_window_witness:
  "\<exists>s1 x s3. acquire_chain_lock sample_db 10 20 60 (sample_state []) = (Inr (), s1)
     \<and> acquire_chain_lock sample_db 10 20 60 s1 = (x, s3) \<and> x \<noteq> Ok ()"
proof -
  obtain y s1 where first: "acquire_chain_lock sample_db 10 20 60 (sample_state []) = (y, s1)" by fastforce
  then have y: "y = Inr ()"
    by (simp add: acquire_chain_lock_def is_chain_locked_def andThen_def lift_def pg_interval_def i64_max_def
        db_read_def add_chain_lock_def db_exec_def Let_def)
  have t: "tick s1 = 2"
    using first by (auto simp: acquire_chain_lock_def is_chain_locked_def andThen_def lift_def pg_interval_def
        i64_max_def db_read_def add_chain_lock_def db_exec_def Let_def)
  obtain x s3 where second: "acquire_chain_lock sample_db 10 20 60 s1 = (x, s3)" by fastforce
  have "x \<noteq> Ok ()"
    using chain_lock_window [OF first [unfolded y] refl _ _ second] t by simp
  then show ?thesis using first y second by blast
qed

text \<open>
  The check and the taking of the lock are two statements: when two proposers start on an
  unlocked chain and both check before either takes the lock, both checks report it free and both
  take it, whatever the interval.
\<close>

theorem chain_lock_race:
  assumes "chain_locks s (l1, l2) = None" and "iv * 1000000 \<le> i64_max" and "\<And>t. db_fate_at env t = Acked"
  shows "\<exists>s1 s2 s3 s4. is_chain_locked env l1 l2 iv s = (Inr False, s1)
    \<and> is_chain_locked env l1 l2 iv s1 = (Inr False, s2)
    \<and> add_chain_lock env l1 l2 s2 = (Inr (), s3) \<and> add_chain_lock env l1 l2 s3 = (Inr (), s4)"
  using assms
  by (simp add: is_chain_locked_def andThen_def lift_def pg_interval_def db_read_def add_chain_lock_def
      db_exec_def Let_def)

theorem chain_lock_race_witness:
  "\<exists>s1 s2. is_chain_locked sample_db 10 20 60 (sample_state []) = (Inr False, s1)
     \<and> is_chain_locked sample_db 10 20 60 s1 = (Inr False, s2)"
  using chain_lock_race [of "sample_state []" 10 20 60 sample_db] by (auto simp: i64_max_def)

text \<open>
  A mismatch of the configuration stops every turn before it does anything: if the contract
  only ever answers with a configuration that differs from the program's in one of the three
  hashes, a turn changes no request, no task and no lock, sends nothing, survives, and is counted
  as an error.
\<close>

theorem config_mismatch_stops_turn:
  assumes "\<And>t c. op_succinct_configs (p_contracts p) (rc_config_name_hash (p_config p)) t = Inr c \<Longrightarrow>
      sc_rollup_config_hash c \<noteq> cc_rollup_config_hash (p_commitments p)
      \<or> sc_aggregation_vkey c \<noteq> cc_agg_vkey_hash (p_commitments p)
      \<or> sc_range_vkey_commitment c \<noteq> cc_range_vkey_commitment (p_commitments p)"
    and "run_turn p s = (x, s')"
  shows "x = Ok () \<and> requests s' = requests s \<and> tasks s' = tasks s \<and> detached s' = detached s
    \<and> sent_txs s' = sent_txs s \<and> chain_locks s' = chain_locks s
    \<and> gauges s' = (gauges s)(TotalErrorCount := gauges s TotalErrorCount + 1)"
proof -
  let ?s1 = "s\<lparr>tick := Suc (tick s)\<rparr>"
  have "\<exists>e. validate_contract_config p s = (Err e, ?s1)"
    using assms(1) [of "tick s"]
    by (auto simp: validate_contract_config_def andThen_def call_def throw_def split: sum.splits)
  then obtain e where "run_loop_iteration p s = (Err e, ?s1)"
    by (auto simp: run_loop_iteration_def andThen_def)
  then show ?thesis
    using assms(2) by (auto simp: run_turn_def onErr_def gauge_increment_def update_def)
qed

definition mismatched_proposer :: "(single_chain_host, unit, unit) proposer" where
  "mismatched_proposer = sample_proposer\<lparr>p_contracts := sample_contracts\<lparr>op_succinct_configs :=
     (\<lambda>_ _. Inr \<lparr>sc_aggregation_vkey = [2], sc_range_vkey_commitment = [9], sc_rollup_config_hash = [3]\<rparr>)\<rparr>\<rparr>"

theorem config_mismatch_stops_turn_witness:
  "\<exists>s'. run_turn mismatched_proposer (sample_state [sample_range 1 Complete 1 5]) = (Ok (), s')
    \<and> requests s' = [sample_range 1 Complete 1 5]"
proof -
  obtain x s' where run: "run_turn mismatched_proposer (sample_state [sample_range 1 Complete 1 5]) = (x, s')"
    by fastforce
  show ?thesis
    using config_mismatch_stops_turn [OF _ run] run
    by (simp add: mismatched_proposer_def sample_commitments_def)
qed

text \<open>
  C32. (safety) Exactly the orphans are failed. Whatever becomes of its statements,
  \<open>set_orphaned_tasks_to_failed\<close> keeps the task map, adds and removes no row, and changes only rows of the
  program in witness generation or execution that have no task, and of these only the status, to
  failed, with its time; a request with a running task, in another status or of another program stays as it is. When it returns
  normally, no orphan is left out.
\<close>

theorem exactly_orphans_failed:
  assumes "set_orphaned_tasks_to_failed p s = (x, s')" and "db_ok s"
  shows "tasks s' = tasks s \<and>
    list_all2 (\<lambda>r r'. orphan p s r \<and> (\<exists>t. r' = r\<lparr>req_status := Failed, updated_at := t\<rparr>)
        \<or> r' = r \<and> (orphan p s r \<longrightarrow> x \<noteq> Ok ()))
      (requests s) (requests s')"
proof
  note rows = set_orphaned_rows [OF assms(1)]
  show tasks: "tasks s' = tasks s" using rows by blast
  let ?I = "req_id ` {r \<in> set (requests s). orphan p s r}"
  have all: "list_all2 (\<lambda>r r'. r' = r \<or> req_id r \<in> ?I \<and> (\<exists>t. r' = failed_at t r)) (requests s) (requests s')"
    using rows unfolding fails_only_def by blast
  show "list_all2 (\<lambda>r r'. orphan p s r \<and> (\<exists>t. r' = failed_at t r) \<or> r' = r \<and> (orphan p s r \<longrightarrow> x \<noteq> Ok ()))
      (requests s) (requests s')"
  proof (rule list.rel_mono_strong [OF all])
    fix r r' assume mem: "r \<in> set (requests s)" "r' \<in> set (requests s')"
      and "r' = r \<or> req_id r \<in> ?I \<and> (\<exists>t. r' = failed_at t r)"
    then consider "r' = r" | q t where "q \<in> set (requests s)" "orphan p s q" "req_id r = req_id q" "r' = failed_at t r"
      by auto
    then show "orphan p s r \<and> (\<exists>t. r' = failed_at t r) \<or> r' = r \<and> (orphan p s r \<longrightarrow> x \<noteq> Ok ())"
    proof cases
      case 1
      have "x \<noteq> Ok ()" if "orphan p s r"
      proof
        assume "x = Ok ()"
        then have "orphan_free p [] s'" using set_orphaned_free assms(1) by blast
        then show False
          using that mem(2) 1 tasks by (auto simp: orphan_free_def orphan_def lookup_task_None)
      qed
      then show ?thesis using 1 by blast
    next
      case 2
      then have "r = q" using assms(2) mem(1) by (metis db_ok_def distinct_map inj_onD)
      then show ?thesis using 2 by blast
    qed
  qed
qed

text \<open>Two requests in witness generation, of which the second has a task.\<close>

theorem exactly_orphans_failed_witness:
  "\<exists>s' q. set_orphaned_tasks_to_failed sample_proposer
      ((sample_state [sample_range 1 WitnessGeneration 1 5, sample_range 2 WitnessGeneration 5 9])
        \<lparr>tasks := [(2, Begun, sample_range 2 WitnessGeneration 5 9)]\<rparr>) = (Inr (), s')
     \<and> requests s' = [q, sample_range 2 WitnessGeneration 5 9] \<and> req_status q = Failed \<and> req_id q = 1"
proof -
  let ?r1 = "sample_range 1 WitnessGeneration 1 5" and ?r2 = "sample_range 2 WitnessGeneration 5 9"
  let ?s = "(sample_state [?r1, ?r2])\<lparr>tasks := [(2, Begun, ?r2)]\<rparr>"
  obtain x s' where run: "set_orphaned_tasks_to_failed sample_proposer ?s = (x, s')" by fastforce
  have x: "x = Inr ()"
    using run by (auto simp: set_orphaned_tasks_to_failed_def fetch_requests_by_status_def andThen_def
        fail_if_orphaned_def asks_def lookup_task_def update_request_status_def update_rows_def db_exec_def
        Let_def ret_def split: if_splits)
  have ids: "req_id ?r1 = 1" "req_id ?r2 = 2" by (simp_all add: sample_range_def)
  then have "db_ok ?s" by (simp add: db_ok_def)
  from exactly_orphans_failed [OF run this] x
  have rows: "list_all2 (\<lambda>r r'. orphan sample_proposer ?s r \<and> (\<exists>t. r' = failed_at t r)
      \<or> r' = r \<and> \<not> orphan sample_proposer ?s r) [?r1, ?r2] (requests s')"
    by simp
  moreover have "orphan sample_proposer ?s ?r1" "\<not> orphan sample_proposer ?s ?r2"
    using ids by (simp_all add: orphan_def)
      (simp add: of_program_def same_program_def on_chains_def sample_range_def sample_commitments_def
        new_range_request_def default_request_def)
  ultimately obtain t where "requests s' = [failed_at t ?r1, ?r2]"
    by (auto simp: list_all2_Cons1)
  then show ?thesis using run x ids by auto
qed

end
