(* ===== verification/FaultFactory.thy ===== *)
theory FaultFactory
  imports Fetcher
begin

text \<open>
  The view of the dispute games that the fault proof proposer and the challenger share:
  \<open>fault-proof/src/lib.rs\<close> with the contract types of \<open>contract.rs\<close>, the gauges of
  \<open>prometheus.rs\<close> and the sending of transactions. The contracts, the L2 node and the signer
  answer through \<open>game_env\<close>: an answer depends on the arguments and on the number of calls made
  before, so the games may change between any two reads.
\<close>

subsection \<open>Contract types\<close>

datatype game_status = IN_PROGRESS | CHALLENGER_WINS | DEFENDER_WINS

datatype proposal_status =
    Unchallenged
  | Challenged
  | UnchallengedAndValidProofProvided
  | ChallengedAndValidProofProvided
  | Resolved

record claim_data =
  cd_parent_index :: int
  cd_countered_by :: address
  cd_prover :: address
  cd_claim :: b256
  cd_status :: proposal_status
  cd_deadline :: int

text \<open>\<open>L2Output\<close> is a static struct: four words of 32 bytes, the first the \<open>uint64\<close> zero.\<close>

definition encode_l2_output :: "b256 \<Rightarrow> b256 \<Rightarrow> b256 \<Rightarrow> bytes" where
  "encode_l2_output state_hash storage_hash claim_hash =
     u256_be 0 @ state_hash @ storage_hash @ claim_hash"

datatype mode = ProposerMode | ChallengerMode

datatype action = Performed | Skipped

subsection \<open>Transactions and gauges\<close>

datatype game_tx =
    CreateGame int b256 bytes int
  | ProveGame address bytes
  | ChallengeGame address int
  | ResolveGame address
  | ClaimCredit address address

text \<open>\<open>gr_created\<close> are the proxies of the \<open>DisputeGameCreated\<close> events of the logs, in order.\<close>

record game_receipt =
  gr_success :: bool
  gr_hash :: b256
  gr_created :: "address list"

datatype fault_gauge =
    ProposerFinalizedL2BlockNumber
  | ProposerLatestGameL2BlockNumber
  | ProposerAnchorGameL2BlockNumber
  | ProposerGamesCreated
  | ProposerGamesResolved
  | ProposerGamesBondsClaimed
  | ProposerGameCreationError
  | ProposerGameProvingError
  | ProposerGameResolutionError
  | ProposerBondClaimingError
  | ProposerMetricsError
  | ChallengerGamesChallenged
  | ChallengerGamesResolved
  | ChallengerGamesBondsClaimed
  | ChallengerGameChallengingError
  | ChallengerGameResolutionError
  | ChallengerBondClaimingError

record fault_world = io +
  sent :: "game_tx list"
  fault_gauges :: "fault_gauge \<Rightarrow> int"

record game_env =
  ge_rpc :: rpc_env
  ge_keccak :: "bytes \<Rightarrow> b256"
  ge_game_count :: "nat \<Rightarrow> error + int"
  ge_game_at_index :: "int \<Rightarrow> nat \<Rightarrow> error + address"
  ge_init_bonds :: "int \<Rightarrow> nat \<Rightarrow> error + int"
  ge_game_impls :: "int \<Rightarrow> nat \<Rightarrow> error + address"
  ge_challenger_bond :: "address \<Rightarrow> nat \<Rightarrow> error + int"
  ge_anchor_registry :: "address \<Rightarrow> nat \<Rightarrow> error + address"
  ge_anchor_root :: "address \<Rightarrow> nat \<Rightarrow> error + b256 \<times> int"
  ge_is_finalized :: "address \<Rightarrow> address \<Rightarrow> nat \<Rightarrow> error + bool"
  ge_l2_block_number :: "address \<Rightarrow> nat \<Rightarrow> error + int"
  ge_root_claim :: "address \<Rightarrow> nat \<Rightarrow> error + b256"
  ge_l1_head :: "address \<Rightarrow> nat \<Rightarrow> error + b256"
  ge_status :: "address \<Rightarrow> nat \<Rightarrow> error + game_status"
  ge_claim_data :: "address \<Rightarrow> nat \<Rightarrow> error + claim_data"
  ge_credit :: "address \<Rightarrow> address \<Rightarrow> nat \<Rightarrow> error + int"
  ge_send :: "game_tx \<Rightarrow> nat \<Rightarrow> error + game_receipt"

definition fault_increment :: "fault_gauge \<Rightarrow> ('z fault_world_scheme, unit) op" where
  "fault_increment g = update (\<lambda>s. s\<lparr>fault_gauges := (fault_gauges s)(g := fault_gauges s g + 1)\<rparr>)"

definition fault_set :: "fault_gauge \<Rightarrow> int \<Rightarrow> ('z fault_world_scheme, unit) op" where
  "fault_set g v = update (\<lambda>s. s\<lparr>fault_gauges := (fault_gauges s)(g := v)\<rparr>)"

text \<open>
  \<open>send_transaction_request\<close> of the signer: the receipt comes back whatever its status, and
  nothing above looks at the status.
\<close>

definition send_game_tx :: "game_env \<Rightarrow> game_tx \<Rightarrow> ('z fault_world_scheme, game_receipt) op" where
  "send_game_tx env x =
     andThen (update (\<lambda>s. s\<lparr>sent := sent s @ [x]\<rparr>)) (\<lambda>_. call (ge_send env x))"

subsection \<open>The L2 provider\<close>

definition get_l2_block_by_number :: "game_env \<Rightarrow> block_id \<Rightarrow> ('z io_scheme, rpc_block) op" where
  "get_l2_block_by_number env b =
     andThen (call (l2_block (ge_rpc env) b)) (\<lambda>block.
       case block of
         Some x \<Rightarrow> ret x
       | None \<Rightarrow> throw (Failure (Msg ''Failed to get L2 block by number'')))"

definition compute_output_root_at_block :: "game_env \<Rightarrow> int \<Rightarrow> ('z io_scheme, b256) op" where
  "compute_output_root_at_block env l2_block_number =
     andThen (lift (u256_to_u64 l2_block_number)) (\<lambda>n.
     andThen (get_l2_block_by_number env (ByNumber n)) (\<lambda>block.
     andThen (call (l2_storage_hash (ge_rpc env) n)) (\<lambda>storage.
       ret (ge_keccak env (encode_l2_output (state_root (blk_header block)) storage (blk_hash block))))))"

definition latest_l2_timestamp :: "game_env \<Rightarrow> ('z io_scheme, int) op" where
  "latest_l2_timestamp env =
     andThen (get_l2_block_by_number env Latest) (\<lambda>b. ret (timestamp (blk_header b)))"

subsection \<open>The factory\<close>

definition fetch_init_bond :: "game_env \<Rightarrow> int \<Rightarrow> ('z io_scheme, int) op" where
  "fetch_init_bond env game_type = call (ge_init_bonds env game_type)"

definition fetch_challenger_bond :: "game_env \<Rightarrow> int \<Rightarrow> ('z io_scheme, int) op" where
  "fetch_challenger_bond env game_type =
     andThen (call (ge_game_impls env game_type)) (\<lambda>impl. call (ge_challenger_bond env impl))"

definition fetch_latest_game_index :: "game_env \<Rightarrow> ('z io_scheme, int option) op" where
  "fetch_latest_game_index env =
     andThen (call (ge_game_count env)) (\<lambda>game_count.
       ret (if game_count = 0 then None else Some (wrap_u256 (game_count - 1))))"

definition fetch_game_address_by_index :: "game_env \<Rightarrow> int \<Rightarrow> ('z io_scheme, address) op" where
  "fetch_game_address_by_index env i = call (ge_game_at_index env i)"

text \<open>
  \<open>get_latest_valid_proposal\<close>: the index counts down to 0, so the loop is primitive recursion
  on it.
\<close>

fun latest_valid_loop :: "game_env \<Rightarrow> nat \<Rightarrow> ('z io_scheme, (int \<times> int) option) op" where
  "latest_valid_loop env i =
     andThen (fetch_game_address_by_index env (int i)) (\<lambda>game.
     andThen (call (ge_l2_block_number env game)) (\<lambda>block_number.
     andThen (call (ge_root_claim env game)) (\<lambda>game_claim.
     andThen (compute_output_root_at_block env block_number) (\<lambda>output_root.
       if output_root = game_claim then ret (Some (block_number, int i))
       else (case i of 0 \<Rightarrow> ret None | Suc j \<Rightarrow> latest_valid_loop env j)))))"

definition get_latest_valid_proposal :: "game_env \<Rightarrow> ('z io_scheme, (int \<times> int) option) op" where
  "get_latest_valid_proposal env =
     andThen (fetch_latest_game_index env) (\<lambda>latest.
       case latest of None \<Rightarrow> ret None | Some i \<Rightarrow> latest_valid_loop env (nat i))"

definition get_anchor_state_registry_address :: "game_env \<Rightarrow> int \<Rightarrow> ('z io_scheme, address) op" where
  "get_anchor_state_registry_address env game_type =
     andThen (call (ge_game_impls env game_type)) (\<lambda>impl. call (ge_anchor_registry env impl))"

definition get_anchor_l2_block_number :: "game_env \<Rightarrow> int \<Rightarrow> ('z io_scheme, int) op" where
  "get_anchor_l2_block_number env game_type =
     andThen (get_anchor_state_registry_address env game_type) (\<lambda>registry.
     andThen (call (ge_anchor_root env registry)) (\<lambda>root. ret (snd root)))"

definition is_game_finalized :: "game_env \<Rightarrow> int \<Rightarrow> address \<Rightarrow> ('z io_scheme, bool) op" where
  "is_game_finalized env game_type game =
     andThen (get_anchor_state_registry_address env game_type) (\<lambda>registry.
       call (ge_is_finalized env registry game))"

definition is_claimable :: "game_env \<Rightarrow> int \<Rightarrow> address \<Rightarrow> address \<Rightarrow> ('z io_scheme, bool) op" where
  "is_claimable env game_type game claimant =
     andThen (call (ge_claim_data env game)) (\<lambda>claim.
       if cd_status claim \<noteq> Resolved then ret False
       else andThen (is_game_finalized env game_type game) (\<lambda>finalized.
         if \<not> finalized then ret False
         else andThen (call (ge_credit env game claimant)) (\<lambda>credit. ret (credit \<noteq> 0))))"

text \<open>
  \<open>get_oldest_game_address\<close>: the loop of \<open>game_index\<close> up to \<open>latest_game_index\<close>, which is below
  \<open>2^256 - 1\<close>, so that the increment does not wrap.
\<close>

fun oldest_game_loop ::
  "game_env \<Rightarrow> (proposal_status \<Rightarrow> bool) \<Rightarrow> (b256 \<Rightarrow> b256 \<Rightarrow> bool) \<Rightarrow> int list
     \<Rightarrow> ('z io_scheme, address option) op" where
  "oldest_game_loop env status_check output_root_check [] = ret None"
| "oldest_game_loop env status_check output_root_check (game_index # rest) =
     andThen (fetch_game_address_by_index env game_index) (\<lambda>game.
     andThen (call (ge_claim_data env game)) (\<lambda>claim.
       if \<not> status_check (cd_status claim)
       then oldest_game_loop env status_check output_root_check rest
       else andThen (latest_l2_timestamp env) (\<lambda>current_timestamp.
         if cd_deadline claim < current_timestamp
         then oldest_game_loop env status_check output_root_check rest
         else
           andThen (call (ge_l2_block_number env game)) (\<lambda>block_number.
           andThen (call (ge_root_claim env game)) (\<lambda>game_claim.
           andThen (compute_output_root_at_block env block_number) (\<lambda>output_root.
             if output_root_check output_root game_claim then ret (Some game)
             else oldest_game_loop env status_check output_root_check rest))))))"

definition get_oldest_game_address ::
  "game_env \<Rightarrow> int \<Rightarrow> (proposal_status \<Rightarrow> bool) \<Rightarrow> (b256 \<Rightarrow> b256 \<Rightarrow> bool)
     \<Rightarrow> ('z io_scheme, address option) op" where
  "get_oldest_game_address env max_games_to_check status_check output_root_check =
     andThen (fetch_latest_game_index env) (\<lambda>latest.
       case latest of
         None \<Rightarrow> ret None
       | Some i \<Rightarrow> oldest_game_loop env status_check output_root_check
                    [sat_sub i max_games_to_check..i])"

definition get_oldest_challengable_game_address :: "game_env \<Rightarrow> int \<Rightarrow> ('z io_scheme, address option) op"
  where
  "get_oldest_challengable_game_address env n =
     get_oldest_game_address env n (\<lambda>status. status = Unchallenged) (\<lambda>root claim. root \<noteq> claim)"

definition get_oldest_defensible_game_address :: "game_env \<Rightarrow> int \<Rightarrow> ('z io_scheme, address option) op"
  where
  "get_oldest_defensible_game_address env n =
     get_oldest_game_address env n (\<lambda>status. status = Challenged) (\<lambda>root claim. root = claim)"

fun claimable_loop ::
  "game_env \<Rightarrow> int \<Rightarrow> address \<Rightarrow> int list \<Rightarrow> ('z io_scheme, address option) op" where
  "claimable_loop env game_type claimant [] = ret None"
| "claimable_loop env game_type claimant (index # rest) =
     andThen (fetch_game_address_by_index env index) (\<lambda>game.
     andThen (is_claimable env game_type game claimant) (\<lambda>claimable.
       if claimable then ret (Some game) else claimable_loop env game_type claimant rest))"

definition get_oldest_claimable_bond_game_address ::
  "game_env \<Rightarrow> int \<Rightarrow> int \<Rightarrow> address \<Rightarrow> ('z io_scheme, address option) op" where
  "get_oldest_claimable_bond_game_address env game_type n claimant =
     andThen (fetch_latest_game_index env) (\<lambda>latest.
       case latest of
         None \<Rightarrow> ret None
       | Some i \<Rightarrow> claimable_loop env game_type claimant
                    (map (\<lambda>k. sat_sub i n + k) [0..min i n - 1]))"

subsection \<open>Resolution\<close>

definition should_attempt_resolution :: "game_env \<Rightarrow> int \<Rightarrow> ('z io_scheme, bool \<times> address) op" where
  "should_attempt_resolution env oldest_game_index =
     andThen (fetch_game_address_by_index env oldest_game_index) (\<lambda>oldest_game.
     andThen (call (ge_claim_data env oldest_game)) (\<lambda>claim.
       if cd_parent_index claim = u32_max then ret (True, oldest_game)
       else andThen (fetch_game_address_by_index env (cd_parent_index claim)) (\<lambda>parent_game.
            andThen (call (ge_status env parent_game)) (\<lambda>parent_status.
              ret (parent_status \<noteq> IN_PROGRESS, oldest_game)))))"

fun resolvable_status :: "mode \<Rightarrow> proposal_status" where
  "resolvable_status ProposerMode = Unchallenged"
| "resolvable_status ChallengerMode = Challenged"

definition try_resolve_games :: "game_env \<Rightarrow> int \<Rightarrow> mode \<Rightarrow> ('z fault_world_scheme, action) op" where
  "try_resolve_games env index m =
     andThen (fetch_game_address_by_index env index) (\<lambda>game.
     andThen (call (ge_status env game)) (\<lambda>status.
       if status \<noteq> IN_PROGRESS then ret Skipped
       else andThen (call (ge_claim_data env game)) (\<lambda>claim.
         if cd_status claim \<noteq> resolvable_status m then ret Skipped
         else andThen (latest_l2_timestamp env) (\<lambda>current_timestamp.
           if current_timestamp \<le> cd_deadline claim then ret Skipped
           else andThen (send_game_tx env (ResolveGame game)) (\<lambda>receipt. ret Performed)))))"

fun resolved_gauge :: "mode \<Rightarrow> fault_gauge" where
  "resolved_gauge ProposerMode = ProposerGamesResolved"
| "resolved_gauge ChallengerMode = ChallengerGamesResolved"

definition resolve_one :: "game_env \<Rightarrow> mode \<Rightarrow> int \<Rightarrow> ('z fault_world_scheme, unit) op" where
  "resolve_one env m index =
     onErr (try_resolve_games env index m)
       (\<lambda>a. case a of Performed \<Rightarrow> fault_increment (resolved_gauge m) | Skipped \<Rightarrow> ret ())
       (\<lambda>e. ret ())"

definition resolve_games :: "game_env \<Rightarrow> mode \<Rightarrow> int \<Rightarrow> ('z fault_world_scheme, unit) op" where
  "resolve_games env m n =
     andThen (fetch_latest_game_index env) (\<lambda>latest.
       case latest of
         None \<Rightarrow> ret ()
       | Some i \<Rightarrow>
           andThen (should_attempt_resolution env (sat_sub i n)) (\<lambda>(attempt_resolution, game).
             if attempt_resolution
             then forEach (\<lambda>k. resolve_one env m (sat_sub i n + k)) [0..min i n - 1]
             else ret ()))"

declare latest_valid_loop.simps [simp del]

end
