(* ===== verification/FaultGames.thy ===== *)
theory FaultGames
  imports FaultFactory
begin

text \<open>
  What the searches of the factory find. A list of games describes contracts that do not change
  during the call (\<open>stable_games\<close>); on it, the searches that read the chain step by step compute
  the reference functions \<open>latest_valid\<close> and \<open>oldest_game\<close> on the list, and a resolution sends
  exactly the transactions of \<open>to_resolve\<close>.
\<close>

subsection \<open>Reads of the factory\<close>

lemma factory_reads [tick_intros]:
  "tick_only (get_l2_block_by_number env b)" "tick_only (compute_output_root_at_block env n)"
  "tick_only (latest_l2_timestamp env)" "tick_only (fetch_latest_game_index env)"
  "tick_only (fetch_game_address_by_index env i)" "tick_only (get_anchor_l2_block_number env gt)"
  "tick_only (is_game_finalized env gt g)" "tick_only (is_claimable env gt g c)"
  "tick_only (should_attempt_resolution env i)"
  unfolding get_l2_block_by_number_def compute_output_root_at_block_def latest_l2_timestamp_def
    fetch_latest_game_index_def fetch_game_address_by_index_def get_anchor_l2_block_number_def
    get_anchor_state_registry_address_def is_game_finalized_def is_claimable_def
    should_attempt_resolution_def
  by (intro tick_intros)+

lemma latest_valid_loop_reads [tick_intros]: "tick_only (latest_valid_loop env i)"
proof (induction i)
  case 0
  show ?case unfolding latest_valid_loop.simps [of env 0] nat.case by (intro tick_intros)
next
  case (Suc i)
  show ?case unfolding latest_valid_loop.simps [of env "Suc i"] nat.case by (intro tick_intros Suc)
qed

lemma oldest_game_loop_reads [tick_intros]: "tick_only (oldest_game_loop env sc oc ix)"
  by (induction ix) (auto intro!: tick_intros)

lemma claimable_loop_reads [tick_intros]: "tick_only (claimable_loop env gt c ix)"
  by (induction ix) (auto intro!: tick_intros)

lemma factory_search_reads [tick_intros]:
  "tick_only (get_latest_valid_proposal env)" "tick_only (get_oldest_game_address env n sc oc)"
  "tick_only (get_oldest_claimable_bond_game_address env gt n c)"
  "tick_only (get_oldest_challengable_game_address env n)"
  "tick_only (get_oldest_defensible_game_address env n)"
  unfolding get_latest_valid_proposal_def get_oldest_game_address_def
    get_oldest_claimable_bond_game_address_def get_oldest_challengable_game_address_def
    get_oldest_defensible_game_address_def
  by (intro tick_intros)+

subsection \<open>Games that do not change\<close>

record game_view =
  gv_address :: address
  gv_block :: int
  gv_claim :: b256
  gv_data :: claim_data
  gv_status :: game_status

record l2_view =
  lv_block :: "int \<Rightarrow> rpc_block"
  lv_storage :: "int \<Rightarrow> b256"
  lv_latest :: rpc_block

definition true_root :: "game_env \<Rightarrow> l2_view \<Rightarrow> int \<Rightarrow> b256" where
  "true_root env l2 n =
     ge_keccak env (encode_l2_output (state_root (blk_header (lv_block l2 n))) (lv_storage l2 n)
       (blk_hash (lv_block l2 n)))"

definition stable_game :: "game_env \<Rightarrow> int \<Rightarrow> game_view \<Rightarrow> bool" where
  "stable_game env i g \<longleftrightarrow>
     (\<forall>t. ge_game_at_index env i t = Inr (gv_address g)) \<and>
     (\<forall>t. ge_l2_block_number env (gv_address g) t = Inr (gv_block g)) \<and>
     (\<forall>t. ge_root_claim env (gv_address g) t = Inr (gv_claim g)) \<and>
     (\<forall>t. ge_claim_data env (gv_address g) t = Inr (gv_data g)) \<and>
     (\<forall>t. ge_status env (gv_address g) t = Inr (gv_status g)) \<and>
     gv_block g \<le> u64_max"

definition stable_games :: "game_env \<Rightarrow> l2_view \<Rightarrow> game_view list \<Rightarrow> bool" where
  "stable_games env l2 gs \<longleftrightarrow>
     (\<forall>t. ge_game_count env t = Inr (int (length gs))) \<and> int (length gs) \<le> u256_max \<and>
     (\<forall>i < length gs. stable_game env (int i) (gs ! i)) \<and>
     (\<forall>n t. l2_block (ge_rpc env) (ByNumber n) t = Inr (Some (lv_block l2 n))) \<and>
     (\<forall>n t. l2_storage_hash (ge_rpc env) n t = Inr (lv_storage l2 n)) \<and>
     (\<forall>t. l2_block (ge_rpc env) Latest t = Inr (Some (lv_latest l2)))"

definition valid_claim :: "game_env \<Rightarrow> l2_view \<Rightarrow> game_view \<Rightarrow> bool" where
  "valid_claim env l2 g \<longleftrightarrow> true_root env l2 (gv_block g) = gv_claim g"

text \<open>The last game with a correct claim, with its index.\<close>

definition latest_valid :: "(game_view \<Rightarrow> bool) \<Rightarrow> game_view list \<Rightarrow> (int \<times> int) option" where
  "latest_valid ok gs =
     map_option (\<lambda>i. (gv_block (gs ! i), int i)) (find (\<lambda>i. ok (gs ! i)) (rev [0..<length gs]))"

text \<open>The first game of the window of a search that passes its checks.\<close>

definition window :: "game_view list \<Rightarrow> int \<Rightarrow> game_view list" where
  "window gs n = drop (nat (sat_sub (int (length gs) - 1) n)) gs"

definition game_matches ::
  "game_env \<Rightarrow> l2_view \<Rightarrow> (proposal_status \<Rightarrow> bool) \<Rightarrow> (b256 \<Rightarrow> b256 \<Rightarrow> bool) \<Rightarrow> game_view \<Rightarrow> bool" where
  "game_matches env l2 sc oc g \<longleftrightarrow>
     sc (cd_status (gv_data g)) \<and> timestamp (blk_header (lv_latest l2)) \<le> cd_deadline (gv_data g) \<and>
     oc (true_root env l2 (gv_block g)) (gv_claim g)"

definition oldest_game :: "(game_view \<Rightarrow> bool) \<Rightarrow> game_view list \<Rightarrow> address option" where
  "oldest_game ok gs = map_option gv_address (find ok gs)"

lemma block_answers [answers_intros]:
  "stable_games env l2 gs \<Longrightarrow> answers (get_l2_block_by_number env (ByNumber n)) (lv_block l2 n)"
  "stable_games env l2 gs \<Longrightarrow> answers (get_l2_block_by_number env Latest) (lv_latest l2)"
  unfolding get_l2_block_by_number_def
  by (rule answers_andThen [OF answers_call], auto simp: stable_games_def intro: answers_intros)+

lemma latest_timestamp_answers [answers_intros]:
  "stable_games env l2 gs \<Longrightarrow> answers (latest_l2_timestamp env) (timestamp (blk_header (lv_latest l2)))"
  unfolding latest_l2_timestamp_def by (rule answers_andThen [OF block_answers(2) answers_ret])

lemma root_answers [answers_intros]:
  assumes "stable_games env l2 gs" and "n \<le> u64_max"
  shows "answers (compute_output_root_at_block env n) (true_root env l2 n)"
proof -
  have storage: "answers (call (l2_storage_hash (ge_rpc env) n)) (lv_storage l2 n)"
    using assms(1) by (intro answers_call) (simp add: stable_games_def)
  have fits: "answers (lift (u256_to_u64 n)) n"
    using assms(2) by (intro answers_lift) simp
  show ?thesis
    unfolding compute_output_root_at_block_def true_root_def
    by (rule answers_andThen [OF fits])
      (rule answers_andThen [OF block_answers(1) [OF assms(1)]],
       rule answers_andThen [OF storage answers_ret])
qed

lemma latest_index_answers [answers_intros]:
  assumes "stable_games env l2 gs"
  shows "answers (fetch_latest_game_index env) (if gs = [] then None else Some (int (length gs) - 1))"
proof -
  have "is_u256 (int (length gs) - 1)" if "gs \<noteq> []"
    using that assms by (cases gs) (auto simp: stable_games_def is_u256_def)
  then have index: "(if int (length gs) = 0 then None else Some (wrap_u256 (int (length gs) - 1)))
      = (if gs = [] then None else Some (int (length gs) - 1))" by auto
  have "answers (fetch_latest_game_index env)
      (if int (length gs) = 0 then None else Some (wrap_u256 (int (length gs) - 1)))"
    unfolding fetch_latest_game_index_def
    by (rule answers_andThen [OF answers_call answers_ret]) (use assms in \<open>simp add: stable_games_def\<close>)
  then show ?thesis by (simp only: index)
qed

lemma game_answers [answers_intros]:
  assumes "stable_game env i g"
  shows "answers (fetch_game_address_by_index env i) (gv_address g)"
    "answers (call (ge_l2_block_number env (gv_address g))) (gv_block g)"
    "answers (call (ge_root_claim env (gv_address g))) (gv_claim g)"
    "answers (call (ge_claim_data env (gv_address g))) (gv_data g)"
    "answers (call (ge_status env (gv_address g))) (gv_status g)"
  using assms unfolding fetch_game_address_by_index_def stable_game_def
  by (auto intro!: answers_call)

subsection \<open>The latest valid proposal\<close>

lemma latest_valid_snoc:
  "latest_valid ok (gs @ [g]) =
     (if ok g then Some (gv_block g, int (length gs)) else latest_valid ok gs)"
proof -
  have same: "find (\<lambda>i. ok ((gs @ [g]) ! i)) (rev [0..<length gs]) = find (\<lambda>i. ok (gs ! i)) (rev [0..<length gs])"
    by (rule find_cong) (auto simp: nth_append)
  have "i < length gs" if "find (\<lambda>i. ok (gs ! i)) (rev [0..<length gs]) = Some i" for i
    using that by (auto simp: find_Some_iff rev_nth)
  then have "map_option (\<lambda>i. (gv_block ((gs @ [g]) ! i), int i)) (find (\<lambda>i. ok (gs ! i)) (rev [0..<length gs]))
      = map_option (\<lambda>i. (gv_block (gs ! i), int i)) (find (\<lambda>i. ok (gs ! i)) (rev [0..<length gs]))"
    by (intro option.map_cong0) (simp add: nth_append)
  then show ?thesis unfolding latest_valid_def using same by (simp add: nth_append)
qed

lemma latest_valid_take:
  "i < length gs \<Longrightarrow> latest_valid ok (take (Suc i) gs) =
     (if ok (gs ! i) then Some (gv_block (gs ! i), int i) else latest_valid ok (take i gs))"
  by (simp add: take_Suc_conv_app_nth latest_valid_snoc)

lemma latest_valid_loop_answers:
  assumes st: "stable_games env l2 gs"
  shows "i < length gs \<Longrightarrow>
    answers (latest_valid_loop env i) (latest_valid (valid_claim env l2) (take (Suc i) gs))"
proof (induction i)
  case 0
  then have g: "stable_game env (int 0) (gs ! 0)" using st unfolding stable_games_def by blast
  then have fits: "gv_block (gs ! 0) \<le> u64_max" by (simp add: stable_game_def)
  show ?case unfolding latest_valid_loop.simps [of env 0] nat.case latest_valid_take [OF 0]
    by (intro answers_andThen [OF game_answers(1) [OF g]] answers_andThen [OF game_answers(2) [OF g]]
        answers_andThen [OF game_answers(3) [OF g]] answers_andThen [OF root_answers [OF st fits]])
      (auto simp: valid_claim_def [of env l2 "gs ! 0"] latest_valid_def intro: answers_ret)
next
  case (Suc i)
  then have g: "stable_game env (int (Suc i)) (gs ! Suc i)" using st unfolding stable_games_def by blast
  then have fits: "gv_block (gs ! Suc i) \<le> u64_max" by (simp add: stable_game_def)
  show ?case unfolding latest_valid_loop.simps [of env "Suc i"] nat.case latest_valid_take [OF Suc.prems]
    by (intro answers_andThen [OF game_answers(1) [OF g]] answers_andThen [OF game_answers(2) [OF g]]
        answers_andThen [OF game_answers(3) [OF g]] answers_andThen [OF root_answers [OF st fits]])
      (use Suc in \<open>auto simp: valid_claim_def [of env l2 "gs ! Suc i"] intro: answers_ret\<close>)
qed

lemma latest_valid_proposal_answers:
  assumes st: "stable_games env l2 gs"
  shows "answers (get_latest_valid_proposal env) (latest_valid (valid_claim env l2) gs)"
  unfolding get_latest_valid_proposal_def
proof (rule answers_andThen [OF latest_index_answers [OF st]])
  show "answers (case if gs = [] then None else Some (int (length gs) - 1) of None \<Rightarrow> ret None
      | Some i \<Rightarrow> latest_valid_loop env (nat i)) (latest_valid (valid_claim env l2) gs)"
  proof (cases "gs = []")
    case True
    then show ?thesis by (simp add: latest_valid_def answers_ret)
  next
    case False
    then have "nat (int (length gs) - 1) = length gs - 1" "length gs - 1 < length gs"
      "take (Suc (length gs - 1)) gs = gs"
      by auto
    then show ?thesis using latest_valid_loop_answers [OF st, of "length gs - 1"] False by simp
  qed
qed

subsection \<open>The oldest matching game\<close>

lemma oldest_step_answers:
  assumes st: "stable_games env l2 gs" and g: "stable_game env i g"
    and rest: "answers (oldest_game_loop env sc oc ix :: ('z io_scheme, address option) op) r"
  shows "answers (oldest_game_loop env sc oc (i # ix) :: ('z io_scheme, address option) op)
    (if game_matches env l2 sc oc g then Some (gv_address g) else r)"
proof -
  have fits: "gv_block g \<le> u64_max" using g by (simp add: stable_game_def)
  show ?thesis
    unfolding oldest_game_loop.simps
    by (rule answers_andThen [OF game_answers(1) [OF g]], rule answers_andThen [OF game_answers(4) [OF g]],
        cases "sc (cd_status (gv_data g))";
        cases "cd_deadline (gv_data g) < timestamp (blk_header (lv_latest l2))")
      (use rest in \<open>auto simp: game_matches_def
        intro!: answers_andThen [OF latest_timestamp_answers [OF st]] answers_ret
          answers_andThen [OF game_answers(2) [OF g]] answers_andThen [OF game_answers(3) [OF g]]
          answers_andThen [OF root_answers [OF st fits]]\<close>)
qed

lemma oldest_game_loop_answers:
  assumes st: "stable_games env l2 gs"
  shows "list_all2 (stable_game env) ix hs \<Longrightarrow>
    answers (oldest_game_loop env sc oc ix) (oldest_game (game_matches env l2 sc oc) hs)"
proof (induction ix arbitrary: hs)
  case Nil
  then show ?case by (simp add: oldest_game_def answers_ret)
next
  case (Cons i ix)
  then obtain g hs' where hs: "hs = g # hs'" and g: "stable_game env i g"
    and rest: "list_all2 (stable_game env) ix hs'"
    by (auto simp: list_all2_Cons1)
  then show ?case
    using oldest_step_answers [OF st g Cons.IH [OF rest]]
    by (cases "game_matches env l2 sc oc g") (simp_all add: oldest_game_def)
qed

lemma window_indices:
  assumes "stable_games env l2 gs" and "gs \<noteq> []" and "0 \<le> n"
  shows "list_all2 (stable_game env) [sat_sub (int (length gs) - 1) n..int (length gs) - 1] (window gs n)"
proof -
  let ?a = "sat_sub (int (length gs) - 1) n"
  have a: "0 \<le> ?a" "?a \<le> int (length gs) - 1" using assms(2,3) by (auto simp: sat_sub_def Suc_le_eq)
  have "stable_game env (?a + int i) (gs ! (nat ?a + i))" if "i < length gs - nat ?a" for i
  proof -
    have "nat ?a + i < length gs" "int (nat ?a + i) = ?a + int i" using that a by auto
    then show ?thesis using assms(1) unfolding stable_games_def by metis
  qed
  then show ?thesis unfolding window_def list_all2_conv_all_nth
    using a by (auto simp: nth_upto algebra_simps)
qed

lemma oldest_game_answers:
  assumes st: "stable_games env l2 gs" and n: "0 \<le> n"
  shows "answers (get_oldest_game_address env n sc oc)
    (oldest_game (game_matches env l2 sc oc) (window gs n))"
  unfolding get_oldest_game_address_def
proof (rule answers_andThen [OF latest_index_answers [OF st]])
  show "answers (case if gs = [] then None else Some (int (length gs) - 1) of None \<Rightarrow> ret None
      | Some i \<Rightarrow> oldest_game_loop env sc oc [sat_sub i n..i])
      (oldest_game (game_matches env l2 sc oc) (window gs n))"
    using oldest_game_loop_answers [OF st window_indices [OF st _ n]]
    by (cases "gs = []") (auto simp: window_def oldest_game_def intro: answers_ret)
qed

subsection \<open>Resolution\<close>

definition ready_to_resolve :: "mode \<Rightarrow> l2_view \<Rightarrow> game_view \<Rightarrow> bool" where
  "ready_to_resolve m l2 g \<longleftrightarrow>
     gv_status g = IN_PROGRESS \<and> cd_status (gv_data g) = resolvable_status m \<and>
     cd_deadline (gv_data g) < timestamp (blk_header (lv_latest l2))"

definition parent_known :: "game_view list \<Rightarrow> game_view \<Rightarrow> bool" where
  "parent_known gs g \<longleftrightarrow> cd_parent_index (gv_data g) = u32_max \<or>
     0 \<le> cd_parent_index (gv_data g) \<and> cd_parent_index (gv_data g) < int (length gs)"

definition parent_done :: "game_view list \<Rightarrow> game_view \<Rightarrow> bool" where
  "parent_done gs g \<longleftrightarrow> cd_parent_index (gv_data g) = u32_max \<or>
     gv_status (gs ! nat (cd_parent_index (gv_data g))) \<noteq> IN_PROGRESS"

definition to_resolve :: "mode \<Rightarrow> l2_view \<Rightarrow> game_view list \<Rightarrow> int \<Rightarrow> game_tx list" where
  "to_resolve m l2 gs n =
     (case window gs n of
        [] \<Rightarrow> []
      | g # _ \<Rightarrow>
          if parent_done gs g
          then map (\<lambda>h. ResolveGame (gv_address h)) (filter (ready_to_resolve m l2) (butlast (window gs n)))
          else [])"

lemma should_attempt_answers:
  assumes st: "stable_games env l2 gs" and g: "stable_game env i g" and known: "parent_known gs g"
  shows "answers (should_attempt_resolution env i) (parent_done gs g, gv_address g)"
proof (cases "cd_parent_index (gv_data g) = u32_max")
  case True
  then show ?thesis unfolding should_attempt_resolution_def
    by (intro answers_andThen [OF game_answers(1) [OF g]] answers_andThen [OF game_answers(4) [OF g]])
      (simp add: parent_done_def answers_ret)
next
  case False
  let ?p = "cd_parent_index (gv_data g)"
  have "nat ?p < length gs" "int (nat ?p) = ?p" using False known by (auto simp: parent_known_def)
  then have p: "stable_game env ?p (gs ! nat ?p)" using st unfolding stable_games_def by metis
  show ?thesis unfolding should_attempt_resolution_def
    by (intro answers_andThen [OF game_answers(1) [OF g]] answers_andThen [OF game_answers(4) [OF g]])
      (use False in \<open>auto simp: parent_done_def intro!: answers_ret
        answers_andThen [OF game_answers(1) [OF p]] answers_andThen [OF game_answers(5) [OF p]]\<close>)
qed

text \<open>Operations that send the transactions \<open>txs\<close> whatever the signer answers, and do not panic.\<close>

definition sends :: "('z fault_world_scheme, 'a) op \<Rightarrow> game_tx list \<Rightarrow> bool" where
  "sends m txs \<longleftrightarrow>
     (\<forall>s. sent (snd (m s)) = sent s @ txs \<and>
       (case fst (m s) of Inl (Failure e) \<Rightarrow> True | Inl _ \<Rightarrow> False | Inr _ \<Rightarrow> True))"

lemma sends_ret: "sends (ret x) []"
  by (simp add: sends_def ret_def)

lemma sends_tx: "sends (andThen (send_game_tx env x) (\<lambda>_. ret y)) [x]"
  by (auto simp: sends_def send_game_tx_def andThen_def update_def call_def ret_def split: sum.splits)

lemma sends_answers:
  assumes "answers m x" and "sends (f x) txs"
  shows "sends (andThen m f) txs"
  unfolding sends_def
proof
  fix s
  obtain k where "m s = (Inr x, s\<lparr>tick := k\<rparr>)" by (rule answersE [OF assms(1)])
  then have "andThen m f s = f x (s\<lparr>tick := k\<rparr>)" by (simp add: andThen_def)
  then show "sent (snd (andThen m f s)) = sent s @ txs \<and>
      (case fst (andThen m f s) of Inl (Failure e) \<Rightarrow> True | Inl _ \<Rightarrow> False | Inr _ \<Rightarrow> True)"
    using assms(2) unfolding sends_def by simp
qed

lemma resolve_onErr_sends:
  assumes m: "sends m txs" and f: "\<And>x. f x = fault_increment (g x) \<or> f x = ret ()" and h: "\<And>e. h e = ret ()"
  shows "\<exists>s'. onErr m f h s = (Inr (), s') \<and> sent s' = sent s @ txs"
proof -
  obtain r s' where run: "m s = (r, s')" by fastforce
  then have sent: "sent s' = sent s @ txs"
    and r: "case r of Inl (Failure e) \<Rightarrow> True | Inl _ \<Rightarrow> False | Inr _ \<Rightarrow> True"
    using m unfolding sends_def by (metis fst_conv snd_conv)+
  show ?thesis
  proof (cases r)
    case (Inl e)
    then show ?thesis using run sent r h by (cases e) (auto simp: onErr_def ret_def)
  next
    case (Inr x)
    then show ?thesis using run sent f [of x] h
      by (auto simp: onErr_def ret_def fault_increment_def update_def)
  qed
qed

lemma try_resolve_sends:
  assumes st: "stable_games env l2 gs" and g: "stable_game env i g"
  shows "sends (try_resolve_games env i m)
    (if ready_to_resolve m l2 g then [ResolveGame (gv_address g)] else [])"
  unfolding try_resolve_games_def
  by (rule sends_answers [OF game_answers(1) [OF g]], rule sends_answers [OF game_answers(5) [OF g]],
      cases "gv_status g = IN_PROGRESS"; cases "cd_status (gv_data g) = resolvable_status m")
    (auto simp: ready_to_resolve_def intro!: sends_ret sends_tx
      sends_answers [OF game_answers(4) [OF g]] sends_answers [OF latest_timestamp_answers [OF st]])

lemma resolve_one_sends:
  assumes st: "stable_games env l2 gs" and g: "stable_game env i g"
  shows "\<exists>s'. resolve_one env m i s = (Inr (), s') \<and>
    sent s' = sent s @ (if ready_to_resolve m l2 g then [ResolveGame (gv_address g)] else [])"
  unfolding resolve_one_def
  by (rule resolve_onErr_sends [OF try_resolve_sends [OF st g], of _ "\<lambda>_. resolved_gauge m"])
    (auto split: action.splits)

lemma resolve_all_sends:
  assumes st: "stable_games env l2 gs"
  shows "list_all2 (\<lambda>k g. stable_game env (a + k) g) ks hs \<Longrightarrow>
    \<exists>s'. forEach (\<lambda>k. resolve_one env m (a + k)) ks s = (Inr (), s') \<and>
      sent s' = sent s @ map (\<lambda>h. ResolveGame (gv_address h)) (filter (ready_to_resolve m l2) hs)"
proof (induction ks arbitrary: hs s)
  case Nil
  then show ?case by (simp add: ret_def)
next
  case (Cons k ks)
  then obtain g hs' where hs: "hs = g # hs'" and g: "stable_game env (a + k) g"
    and rest: "list_all2 (\<lambda>k g. stable_game env (a + k) g) ks hs'"
    by (auto simp: list_all2_Cons1)
  obtain s1 where one: "resolve_one env m (a + k) s = (Inr (), s1)"
    "sent s1 = sent s @ (if ready_to_resolve m l2 g then [ResolveGame (gv_address g)] else [])"
    using resolve_one_sends [OF st g] by blast
  then show ?case using Cons.IH [OF rest, of s1] hs by (auto simp: andThen_def)
qed

lemma butlast_window_indices:
  assumes "stable_games env l2 gs" and "gs \<noteq> []" and "0 \<le> n"
  shows "list_all2 (\<lambda>k g. stable_game env (sat_sub (int (length gs) - 1) n + k) g)
    [0..min (int (length gs) - 1) n - 1] (butlast (window gs n))"
proof -
  let ?a = "sat_sub (int (length gs) - 1) n"
  have a: "0 \<le> ?a" "?a \<le> int (length gs) - 1" "min (int (length gs) - 1) n = int (length gs) - 1 - ?a"
    using assms(2,3) by (auto simp: sat_sub_def Suc_le_eq)
  have "stable_game env (?a + int i) (gs ! (nat ?a + i))" if "i < length gs - nat ?a" for i
  proof -
    have "nat ?a + i < length gs" "int (nat ?a + i) = ?a + int i" using that a by auto
    then show ?thesis using assms(1) unfolding stable_games_def by metis
  qed
  then show ?thesis unfolding window_def list_all2_conv_all_nth a(3)
    using a by (auto simp: nth_upto nth_butlast)
qed

lemma resolve_games_sent:
  assumes st: "stable_games env l2 gs" and n: "0 \<le> n"
    and known: "\<forall>g \<in> set gs. parent_known gs g"
  shows "\<exists>s'. resolve_games env m n s = (Inr (), s') \<and> sent s' = sent s @ to_resolve m l2 gs n"
proof (cases "gs = []")
  case True
  obtain k where "fetch_latest_game_index env s = (Inr None, s\<lparr>tick := k\<rparr>)"
    using answersE [OF latest_index_answers [OF st]] True by (metis (full_types))
  then show ?thesis using True
    by (simp add: resolve_games_def andThen_def ret_def to_resolve_def window_def)
next
  case False
  let ?i = "int (length gs) - 1" and ?a = "sat_sub (int (length gs) - 1) n"
  obtain k where latest: "fetch_latest_game_index env s = (Inr (Some ?i), s\<lparr>tick := k\<rparr>)"
    using answersE [OF latest_index_answers [OF st]] False by (metis (full_types))
  have a: "0 \<le> ?a" "?a \<le> ?i" using False n by (auto simp: sat_sub_def Suc_le_eq)
  then have w: "window gs n = gs ! nat ?a # drop (Suc (nat ?a)) gs"
    unfolding window_def by (intro Cons_nth_drop_Suc [symmetric]) simp
  have g: "stable_game env ?a (gs ! nat ?a)"
    using window_indices [OF st False n] a by (simp add: w upto.simps)
  have "gs ! nat ?a \<in> set gs" using a by (intro nth_mem) simp
  then have "parent_known gs (gs ! nat ?a)" using known by blast
  then obtain j where should: "should_attempt_resolution env ?a (s\<lparr>tick := k\<rparr>)
      = (Inr (parent_done gs (gs ! nat ?a), gv_address (gs ! nat ?a)), s\<lparr>tick := k\<rparr>\<lparr>tick := j\<rparr>)"
    by (rule answersE [OF should_attempt_answers [OF st g]])
  show ?thesis
    using latest should w resolve_all_sends [OF st butlast_window_indices [OF st False n], of m "s\<lparr>tick := j\<rparr>"]
    by (auto simp: resolve_games_def andThen_def ret_def to_resolve_def)
qed

subsection \<open>Claiming bonds\<close>

text \<open>What a claimant has seen of a game it claims from, each at some moment.\<close>

definition seen_claimable :: "game_env \<Rightarrow> int \<Rightarrow> address \<Rightarrow> address \<Rightarrow> bool" where
  "seen_claimable env game_type game claimant \<longleftrightarrow>
     (\<exists>t c. ge_claim_data env game t = Inr c \<and> cd_status c = Resolved) \<and>
     (\<exists>t registry. ge_is_finalized env registry game t = Inr True) \<and>
     (\<exists>t credit. ge_credit env game claimant t = Inr credit \<and> credit \<noteq> 0)"

lemma call_Ok_iff: "call f s = (Inr x, s') \<longleftrightarrow> f (tick s) = Inr x \<and> s' = s\<lparr>tick := Suc (tick s)\<rparr>"
  by (auto simp: call_def split: sum.splits)

lemma is_claimable_seen:
  "is_claimable env gt g c s = (Inr True, s') \<Longrightarrow> seen_claimable env gt g c"
  unfolding is_claimable_def is_game_finalized_def seen_claimable_def
  by (auto simp: andThen_eq_Ok call_Ok_iff ret_def split: if_splits)

lemma claimable_loop_seen:
  "claimable_loop env gt c ix s = (Inr (Some g), s') \<Longrightarrow> seen_claimable env gt g c"
proof (induction ix arbitrary: s)
  case Nil
  then show ?case by (simp add: ret_def)
next
  case (Cons i ix)
  then obtain a t b u where found: "is_claimable env gt a c t = (Inr b, u)"
    and rest: "(if b then ret (Some a) else claimable_loop env gt c ix) u = (Inr (Some g), s')"
    by (auto simp: andThen_eq_Ok)
  show ?case
  proof (cases b)
    case True
    then show ?thesis using found rest is_claimable_seen by (auto simp: ret_def)
  next
    case False
    then show ?thesis using rest Cons.IH by simp
  qed
qed

lemma oldest_claimable_seen:
  "get_oldest_claimable_bond_game_address env gt n c s = (Inr (Some g), s') \<Longrightarrow> seen_claimable env gt g c"
  unfolding get_oldest_claimable_bond_game_address_def
  by (auto simp: andThen_eq_Ok ret_def split: option.splits dest: claimable_loop_seen)

text \<open>The proposer and the challenger claim alike.\<close>

locale bond_claimer =
  fixes claim :: "('z fault_world_scheme, action) op"
    and env :: game_env and game_type n :: int and claimant :: address
  assumes claims: "claim =
    andThen (get_oldest_claimable_bond_game_address env game_type n claimant) (\<lambda>found.
      case found of
        Some game \<Rightarrow>
          onErr (send_game_tx env (ClaimCredit game claimant))
            (\<lambda>receipt. ret Performed) (\<lambda>e. throw (Failure (Msg ''Failed to claim bond'')))
      | None \<Rightarrow> ret Skipped)"
begin

lemma claims_only_claimable:
  assumes run: "claim s = (r, s')"
  shows "sent s' = sent s \<and> r \<noteq> Ok Performed \<or>
    (\<exists>game. sent s' = sent s @ [ClaimCredit game claimant] \<and> seen_claimable env game_type game claimant)"
proof -
  let ?search = "get_oldest_claimable_bond_game_address env game_type n claimant"
  obtain x t where search: "?search s = (x, t)" by fastforce
  have "tick_only (?search :: ('z fault_world_scheme, address option) op)" by (intro tick_intros)
  then obtain k where t: "t = s\<lparr>tick := k\<rparr>" using tick_onlyD search by blast
  show ?thesis
  proof (cases x)
    case (Inl e)
    then show ?thesis using run search t by (auto simp: claims andThen_def)
  next
    case (Inr found)
    show ?thesis
    proof (cases found)
      case None
      then show ?thesis using run search Inr t by (auto simp: claims andThen_def ret_def)
    next
      case (Some game)
      then have "seen_claimable env game_type game claimant"
        using search Inr oldest_claimable_seen by blast
      moreover have "sent s' = sent s @ [ClaimCredit game claimant]"
        using run search Inr Some t
        by (cases "ge_send env (ClaimCredit game claimant) k")
          (auto simp: claims andThen_def onErr_def ret_def throw_def send_game_tx_def update_def call_def)
      ultimately show ?thesis by blast
    qed
  qed
qed

end

subsection \<open>A concrete chain of games\<close>

definition find_game :: "game_view list \<Rightarrow> address \<Rightarrow> (game_view \<Rightarrow> 'a) \<Rightarrow> nat \<Rightarrow> error + 'a" where
  "find_game gs a f t = (case find (\<lambda>g. gv_address g = a) gs of None \<Rightarrow> Inl RpcError | Some g \<Rightarrow> Inr (f g))"

definition view_rpc :: "l2_view \<Rightarrow> rpc_env" where
  "view_rpc l2 = sample_env
     \<lparr>l2_block := (\<lambda>b t. Inr (Some (case b of ByNumber n \<Rightarrow> lv_block l2 n | _ \<Rightarrow> lv_latest l2))),
      l2_storage_hash := (\<lambda>n t. Inr (lv_storage l2 n))\<rparr>"

definition view_env :: "l2_view \<Rightarrow> game_view list \<Rightarrow> game_env" where
  "view_env l2 gs =
     \<lparr>ge_rpc = view_rpc l2, ge_keccak = (\<lambda>b. [last b]), ge_game_count = (\<lambda>t. Inr (int (length gs))),
      ge_game_at_index = (\<lambda>i t. if 0 \<le> i \<and> i < int (length gs) then Inr (gv_address (gs ! nat i)) else Inl RpcError),
      ge_init_bonds = (\<lambda>_ _. Inr 8), ge_game_impls = (\<lambda>_ _. Inr [200]), ge_challenger_bond = (\<lambda>_ _. Inr 9),
      ge_anchor_registry = (\<lambda>_ _. Inr [201]), ge_anchor_root = (\<lambda>_ _. Inr ([], 5)),
      ge_is_finalized = (\<lambda>_ _ _. Inr True),
      ge_l2_block_number = (\<lambda>a. find_game gs a gv_block), ge_root_claim = (\<lambda>a. find_game gs a gv_claim),
      ge_l1_head = (\<lambda>_ _. Inr [3]), ge_status = (\<lambda>a. find_game gs a gv_status),
      ge_claim_data = (\<lambda>a. find_game gs a gv_data), ge_credit = (\<lambda>_ _ _. Inr 1),
      ge_send = (\<lambda>_ _. Inr \<lparr>gr_success = True, gr_hash = [7], gr_created = [[50]]\<rparr>)\<rparr>"

lemma find_game_nth:
  assumes "distinct (map gv_address gs)" and "i < length gs"
  shows "find_game gs (gv_address (gs ! i)) f t = Inr (f (gs ! i))"
proof -
  have "find (\<lambda>g. gv_address g = gv_address (gs ! i)) gs = Some (gs ! i)"
    unfolding find_Some_iff
    using assms by (intro exI [of _ i]) (auto simp: distinct_conv_nth)
  then show ?thesis by (simp add: find_game_def)
qed

lemma view_env_stable:
  assumes "distinct (map gv_address gs)" and "int (length gs) \<le> u256_max"
    and "\<forall>g \<in> set gs. gv_block g \<le> u64_max"
  shows "stable_games (view_env l2 gs) l2 gs"
  using assms
  by (simp add: stable_games_def stable_game_def view_env_def view_rpc_def find_game_nth)

definition sample_l2 :: l2_view where
  "sample_l2 =
     \<lparr>lv_block = (\<lambda>n. \<lparr>blk_header = \<lparr>parent_hash = [], number = n, timestamp = n, state_root = [], gas_used = 0\<rparr>,
        blk_hash = [word_of_int n], blk_tx_count = 0\<rparr>),
      lv_storage = (\<lambda>_. []),
      lv_latest = \<lparr>blk_header = \<lparr>parent_hash = [], number = 100, timestamp = 100, state_root = [], gas_used = 0\<rparr>,
        blk_hash = [100], blk_tx_count = 0\<rparr>\<rparr>"

definition sample_game :: "8 word \<Rightarrow> int \<Rightarrow> b256 \<Rightarrow> int \<Rightarrow> proposal_status \<Rightarrow> int \<Rightarrow> game_status \<Rightarrow> game_view" where
  "sample_game a block claim parent st deadline gst =
     \<lparr>gv_address = [a], gv_block = block, gv_claim = claim,
      gv_data = \<lparr>cd_parent_index = parent, cd_countered_by = address_zero, cd_prover = address_zero,
        cd_claim = claim, cd_status = st, cd_deadline = deadline\<rparr>, gv_status = gst\<rparr>"

text \<open>A resolved first game, a wrong open one, and correct ones past and before their deadlines.\<close>

definition sample_games :: "game_view list" where
  "sample_games =
     [sample_game 10 20 [20] u32_max Resolved 40 DEFENDER_WINS,
      sample_game 11 30 [30] 0 Unchallenged 90 IN_PROGRESS,
      sample_game 12 40 [99] 1 Unchallenged 120 IN_PROGRESS,
      sample_game 13 50 [51] 1 Challenged 130 IN_PROGRESS]"

definition sample_fault_world :: fault_world where
  "sample_fault_world = \<lparr>tick = 0, sent = [], fault_gauges = (\<lambda>_. 0)\<rparr>"

lemma sample_game_simps [simp]:
  "gv_address (sample_game a b c p st d gst) = [a]" "gv_block (sample_game a b c p st d gst) = b"
  "gv_claim (sample_game a b c p st d gst) = c" "gv_status (sample_game a b c p st d gst) = gst"
  "cd_parent_index (gv_data (sample_game a b c p st d gst)) = p"
  "cd_status (gv_data (sample_game a b c p st d gst)) = st"
  "cd_deadline (gv_data (sample_game a b c p st d gst)) = d"
  by (simp_all add: sample_game_def)

lemma sample_games_stable: "stable_games (view_env sample_l2 sample_games) sample_l2 sample_games"
  by (rule view_env_stable) (auto simp: sample_games_def u256_max_def u64_max_def)

lemma sample_root: "true_root (view_env sample_l2 gs) sample_l2 n = [word_of_int n]"
  by (simp add: true_root_def view_env_def sample_l2_def encode_l2_output_def)

lemma sample_l2_latest [simp]: "timestamp (blk_header (lv_latest sample_l2)) = 100"
  by (simp add: sample_l2_def)

subsection \<open>Properties\<close>

text \<open>C9. On contracts and a node that do not change during the call, \<open>get_latest_valid_proposal\<close>
  returns the block and index of the last game whose claim is the true output root of its
  block, and \<open>None\<close> exactly when no game has a correct claim.\<close>

theorem latest_valid_proposal_is_reference:
  assumes "stable_games env l2 gs"
  shows "fst (get_latest_valid_proposal env s) = Ok (latest_valid (valid_claim env l2) gs)
    \<and> (latest_valid (valid_claim env l2) gs = None \<longleftrightarrow> \<not> (\<exists>g \<in> set gs. valid_claim env l2 g))"
proof
  show "fst (get_latest_valid_proposal env s) = Ok (latest_valid (valid_claim env l2) gs)"
    by (rule answersD [OF latest_valid_proposal_answers [OF assms]])
  show "latest_valid (valid_claim env l2) gs = None \<longleftrightarrow> \<not> (\<exists>g \<in> set gs. valid_claim env l2 g)"
    unfolding latest_valid_def option.map_disc_iff find_None_iff set_rev set_upt
    by (auto simp: in_set_conv_nth) (use nth_mem in blast)
qed

theorem latest_valid_proposal_is_reference_witness:
  "fst (get_latest_valid_proposal (view_env sample_l2 sample_games) sample_fault_world) = Ok (Some (30, 1))"
  using latest_valid_proposal_is_reference [OF sample_games_stable, of sample_fault_world]
  by (simp add: sample_games_def latest_valid_def valid_claim_def sample_root)

text \<open>C23. On contracts and a node that do not change during the call, the search of the
  challenger and of the defence returns the first game of the window of the last \<open>n + 1\<close> games
  whose status passes, whose deadline has not passed, and whose claim compares with the true
  output root as asked; \<open>None\<close> if there is none.\<close>

theorem oldest_game_is_reference:
  assumes "stable_games env l2 gs" and "0 \<le> n"
  shows "fst (get_oldest_game_address env n sc oc s)
    = Ok (oldest_game (game_matches env l2 sc oc) (window gs n))"
  by (rule answersD [OF oldest_game_answers [OF assms]])

theorem oldest_game_is_reference_witness:
  "fst (get_oldest_game_address (view_env sample_l2 sample_games) 3 (\<lambda>st. st = Unchallenged) (\<noteq>) sample_fault_world)
    = Ok (Some [12])"
  using oldest_game_is_reference [OF sample_games_stable, of 3 "\<lambda>st. st = Unchallenged" "(\<noteq>)" sample_fault_world]
  by (simp add: sample_games_def oldest_game_def game_matches_def window_def sample_root sat_sub_def)

text \<open>C33. A resolution on games that do not change during the call sends one \<open>resolve\<close>
  transaction to each game of the window before the latest game that is in progress, in the
  status the role resolves and past its deadline, in the order of their indices, and none when
  the parent of the oldest game of the window is in progress. This holds whatever becomes of the
  transactions: a failed one does not stop the others, and the call succeeds.\<close>

theorem resolve_games_sends_exactly_ready:
  assumes "stable_games env l2 gs" and "0 \<le> n" and "\<forall>g \<in> set gs. parent_known gs g"
  shows "\<exists>s'. resolve_games env m n s = (Inr (), s') \<and> sent s' = sent s @ to_resolve m l2 gs n"
  by (rule resolve_games_sent [OF assms])

theorem resolve_games_sends_exactly_ready_witness:
  "\<exists>s'. resolve_games (view_env sample_l2 sample_games) ProposerMode 3 sample_fault_world = (Inr (), s')
    \<and> sent s' = [ResolveGame [11]]"
proof -
  have known: "\<forall>g \<in> set sample_games. parent_known sample_games g"
    by (simp add: sample_games_def parent_known_def u32_max_def)
  have "to_resolve ProposerMode sample_l2 sample_games 3 = [ResolveGame [11]]"
    by (simp add: to_resolve_def window_def sample_games_def sat_sub_def parent_done_def
        ready_to_resolve_def)
  moreover have "sent sample_fault_world = []" by (simp add: sample_fault_world_def)
  ultimately show ?thesis
    using resolve_games_sends_exactly_ready [OF sample_games_stable _ known, of 3 ProposerMode sample_fault_world]
    by simp
qed

end
