(* ===== verification/FaultProposer.thy ===== *)
theory FaultProposer
  imports ProofRequester FaultGames
begin

text \<open>
  The fault proof proposer, \<open>fault-proof/src/proposer.rs\<close>: proving, creating and resolving games,
  claiming bonds, and the loop that spawns these as tasks and collects them. A spawned task is an
  entry of the task map; its work runs later, at any time (\<open>fault_step\<close>).
\<close>

subsection \<open>Configuration and state\<close>

record fault_proposer_config =
  fc_mock_mode :: bool
  fc_fast_finality_mode :: bool
  fc_proposal_interval_in_blocks :: int
  fc_game_type :: int
  fc_max_games_to_check_for_defense :: int
  fc_enable_game_resolution :: bool
  fc_max_games_to_check_for_resolution :: int
  fc_max_games_to_check_for_bond_claiming :: int
  fc_safe_db_fallback :: bool

datatype task_info =
    GameCreation int
  | GameProving address
  | GameResolution
  | BondClaim

datatype handle_state = TaskRunning | TaskFinished "unit res"

type_synonym fault_task = "int \<times> handle_state \<times> task_info"

record fault_state = fault_world +
  fault_tasks :: "fault_task list"
  next_task_id :: int

text \<open>A proof request; \<open>None\<close> leaves the default of the SDK.\<close>

record 'stdin fault_job =
  fj_program :: program
  fj_stdin :: "'stdin prog_stdin"
  fj_mode :: proof_mode
  fj_strategy :: "fulfillment_strategy option"
  fj_skip_simulation :: "bool option"
  fj_cycle_limit :: "int option"

record ('args, 'wit, 'stdin) fault_proposer =
  fp_config :: fault_proposer_config
  fp_env :: game_env
  fp_host :: "(fault_state, 'args, 'wit, 'stdin) succinct_host"
  fp_sp1 :: "'stdin sp1_env"
  fp_prove :: "'stdin fault_job \<Rightarrow> nat \<Rightarrow> error + sp1_proof_pv"
  fp_new_fetcher :: "nat \<Rightarrow> error + unit"
  fp_range_vk :: vkey
  fp_prover_address :: address
  fp_init_bond :: int

definition fault_proposer_new ::
  "('args, 'wit, 'stdin) fault_proposer \<Rightarrow> (fault_state, ('args, 'wit, 'stdin) fault_proposer) op" where
  "fault_proposer_new p =
     andThen (fetch_init_bond (fp_env p) (fc_game_type (fp_config p))) (\<lambda>bond.
     andThen (update (\<lambda>s. s\<lparr>fault_tasks := [], next_task_id := 1\<rparr>)) (\<lambda>_.
       ret (p\<lparr>fp_init_bond := bond\<rparr>)))"

text \<open>\<open>map_err\<close>: an error is replaced by another, a panic goes through.\<close>

definition rephrase :: "error \<Rightarrow> ('s, 'a) op \<Rightarrow> ('s, 'a) op" where
  "rephrase e m = onErr m ret (\<lambda>_. throw (Failure e))"

subsection \<open>Proving\<close>

definition prove_range ::
  "('args, 'wit, 'stdin) fault_proposer \<Rightarrow> 'stdin prog_stdin \<Rightarrow> (fault_state, sp1_proof_pv) op" where
  "prove_range p stdin =
     (if fc_mock_mode (fp_config p)
      then andThen (call (execute_program (fp_sp1 p) RangeProgram stdin)) (\<lambda>(pv, _).
             ret (mock_proof (fp_sp1 p) RangeProgram CompressedMode pv))
      else call (fp_prove p
             \<lparr>fj_program = RangeProgram, fj_stdin = stdin, fj_mode = CompressedMode,
              fj_strategy = Some Hosted, fj_skip_simulation = Some True,
              fj_cycle_limit = Some 1000000000000\<rparr>))"

definition prove_aggregation ::
  "('args, 'wit, 'stdin) fault_proposer \<Rightarrow> 'stdin prog_stdin \<Rightarrow> (fault_state, sp1_proof_pv) op" where
  "prove_aggregation p stdin =
     (if fc_mock_mode (fp_config p)
      then andThen (call (execute_program (fp_sp1 p) AggProgram stdin)) (\<lambda>(pv, _).
             ret (mock_proof (fp_sp1 p) AggProgram Groth16Mode pv))
      else call (fp_prove p
             \<lparr>fj_program = AggProgram, fj_stdin = stdin, fj_mode = Groth16Mode,
              fj_strategy = None, fj_skip_simulation = None, fj_cycle_limit = None\<rparr>))"

definition range_stdin_of_game ::
  "('args, 'wit, 'stdin) fault_proposer \<Rightarrow> address \<Rightarrow> (fault_state, 'stdin prog_stdin) op" where
  "range_stdin_of_game p game =
     andThen (call (ge_l1_head (fp_env p) game)) (\<lambda>l1_head_hash.
     andThen (call (ge_l2_block_number (fp_env p) game)) (\<lambda>l2_block_number.
     andThen (lift (u256_to_u64 l2_block_number)) (\<lambda>n.
     andThen (host_fetch (fp_host p)
                (wrap_u64 (n - fc_proposal_interval_in_blocks (fp_config p))) n
                (Some l1_head_hash) (fc_safe_db_fallback (fp_config p))) (\<lambda>host_args.
     andThen (host_run (fp_host p) host_args) (\<lambda>witness_data.
       case host_sp1_stdin (fp_host p) witness_data of
         Inl e \<Rightarrow> throw (Failure (Msg ''Failed to get proof stdin''))
       | Inr stdin \<Rightarrow> ret (RangeStdin stdin))))))"

definition aggregation_stdin_of_range ::
  "('args, 'wit, 'stdin) fault_proposer \<Rightarrow> sp1_proof_pv \<Rightarrow> (fault_state, 'stdin prog_stdin) op" where
  "aggregation_stdin_of_range p range_proof =
     andThen (lift (unwrap (read_boot (fp_sp1 p) (public_values range_proof)) ''read'')) (\<lambda>boot_info.
     andThen (rephrase (Msg ''Failed to get header preimages'')
                (get_header_preimages (ge_rpc (fp_env p)) [boot_info] (l1Head boot_info))) (\<lambda>headers.
     andThen (rephrase (Msg ''Failed to get agg proof stdin'')
                (lift (get_agg_proof_stdin [pv_proof range_proof] [boot_info] headers (fp_range_vk p)
                         (l1Head boot_info) (fp_prover_address p)))) (\<lambda>stdin.
       ret (AggStdin stdin))))"

definition prove_game :: "('args, 'wit, 'stdin) fault_proposer \<Rightarrow> address \<Rightarrow> (fault_state, b256) op" where
  "prove_game p game =
     andThen (rephrase (Msg ''Failed to create data fetcher'') (call (fp_new_fetcher p))) (\<lambda>_.
     andThen (range_stdin_of_game p game) (\<lambda>range_stdin.
     andThen (prove_range p range_stdin) (\<lambda>range_proof.
     andThen (aggregation_stdin_of_range p range_proof) (\<lambda>agg_stdin.
     andThen (prove_aggregation p agg_stdin) (\<lambda>agg_proof.
     andThen (lift (unwrap (onchain_bytes (fp_sp1 p) agg_proof) ''bytes'')) (\<lambda>proof_bytes.
     andThen (send_game_tx (fp_env p) (ProveGame game proof_bytes)) (\<lambda>receipt.
       ret (gr_hash receipt))))))))"

subsection \<open>The task map\<close>

text \<open>
  \<open>tokio::spawn\<close> and the insertion of the handle under a fresh identifier of \<open>fetch_add\<close>, which
  wraps.
\<close>

definition fetch_add_task_id :: "(fault_state, int) op" where
  "fetch_add_task_id =
     andThen (asks next_task_id) (\<lambda>i.
     andThen (update (\<lambda>s. s\<lparr>next_task_id := wrap_u64 (next_task_id s + 1)\<rparr>)) (\<lambda>_. ret i))"

definition insert_fault_task :: "int \<Rightarrow> task_info \<Rightarrow> (fault_state, unit) op" where
  "insert_fault_task i info =
     update (\<lambda>s. s\<lparr>fault_tasks := filter (\<lambda>(j, _, _). j \<noteq> i) (fault_tasks s) @ [(i, TaskRunning, info)]\<rparr>)"

fun same_discriminant :: "task_info \<Rightarrow> task_info \<Rightarrow> bool" where
  "same_discriminant (GameCreation _) (GameCreation _) = True"
| "same_discriminant (GameProving _) (GameProving _) = True"
| "same_discriminant GameResolution GameResolution = True"
| "same_discriminant BondClaim BondClaim = True"
| "same_discriminant _ _ = False"

definition has_active_task_of_type :: "task_info \<Rightarrow> (fault_state, bool) op" where
  "has_active_task_of_type task_type =
     asks (\<lambda>s. list_ex (\<lambda>(_, _, info). same_discriminant info task_type) (fault_tasks s))"

definition has_active_proving_for_game :: "address \<Rightarrow> (fault_state, bool) op" where
  "has_active_proving_for_game game =
     asks (\<lambda>s. list_ex (\<lambda>(_, _, info). info = GameProving game) (fault_tasks s))"

definition spawn_game_proving_task ::
  "('args, 'wit, 'stdin) fault_proposer \<Rightarrow> address \<Rightarrow> (fault_state, unit) op" where
  "spawn_game_proving_task p game =
     andThen fetch_add_task_id (\<lambda>task_id.
     andThen (call (ge_l2_block_number (fp_env p) game)) (\<lambda>l2_block_number.
     andThen (lift (u256_to_u64 l2_block_number)) (\<lambda>_.
       insert_fault_task task_id (GameProving game))))"

subsection \<open>Creating games\<close>

definition create_game ::
  "('args, 'wit, 'stdin) fault_proposer \<Rightarrow> int \<Rightarrow> int \<Rightarrow> (fault_state, address) op" where
  "create_game p l2_block_number parent_game_index =
     andThen (compute_output_root_at_block (fp_env p) l2_block_number) (\<lambda>root.
     andThen (send_game_tx (fp_env p)
                (CreateGame (fc_game_type (fp_config p)) root
                   (u256_be l2_block_number @ u32_be parent_game_index) (fp_init_bond p))) (\<lambda>receipt.
     andThen (case gr_created receipt of
                [] \<Rightarrow> throw (Failure (Msg ''Could not find DisputeGameCreated event in transaction receipt logs''))
              | a # _ \<Rightarrow> ret a) (\<lambda>game_address.
     andThen (if fc_fast_finality_mode (fp_config p)
              then onErr (spawn_game_proving_task p game_address) ret (\<lambda>e. ret ())
              else ret ()) (\<lambda>_.
       ret game_address))))"

text \<open>
  The block proposed last, the next one and the parent index, as \<open>handle_game_creation\<close> and
  \<open>should_create_game\<close> compute them. \<open>U256\<close> addition wraps, \<open>checked_add\<close> does not.
\<close>

definition proposal_target ::
  "('args, 'wit, 'stdin) fault_proposer \<Rightarrow> (fault_state, int \<times> int \<times> int) op" where
  "proposal_target p =
     (let interval = fc_proposal_interval_in_blocks (fp_config p) in
      andThen (get_latest_valid_proposal (fp_env p)) (\<lambda>latest_valid_proposal.
        case latest_valid_proposal of
          Some (latest_block, latest_game_idx) \<Rightarrow>
            andThen (lift (u256_to_u32 latest_game_idx)) (\<lambda>parent.
              ret (latest_block, wrap_u256 (latest_block + interval), parent))
        | None \<Rightarrow>
            andThen (get_anchor_l2_block_number (fp_env p) (fc_game_type (fp_config p))) (\<lambda>anchor.
              if anchor + interval \<le> u256_max
              then ret (anchor, anchor + interval, u32_max)
              else throw (Panic ''unwrap''))))"

definition finalized_after ::
  "('args, 'wit, 'stdin) fault_proposer \<Rightarrow> int \<Rightarrow> (fault_state, int option) op" where
  "finalized_after p latest =
     andThen (lift (u256_to_u64 latest)) (\<lambda>n. host_finalized_l2_block (fp_host p) n)"

definition handle_game_creation ::
  "('args, 'wit, 'stdin) fault_proposer \<Rightarrow> (fault_state, address option) op" where
  "handle_game_creation p =
     andThen (proposal_target p) (\<lambda>(latest_block, next_block, parent).
     andThen (finalized_after p latest_block) (\<lambda>finalized.
       case finalized of
         Some finalized_block \<Rightarrow>
           if next_block < finalized_block
           then andThen (create_game p next_block parent) (\<lambda>a. ret (Some a))
           else ret None
       | None \<Rightarrow> ret None))"

definition should_create_game :: "('args, 'wit, 'stdin) fault_proposer \<Rightarrow> (fault_state, bool) op" where
  "should_create_game p =
     andThen (proposal_target p) (\<lambda>(latest_block, next_block, _).
     andThen (finalized_after p latest_block) (\<lambda>finalized.
       ret (case finalized of Some finalized_block \<Rightarrow> next_block < finalized_block | None \<Rightarrow> False)))"

definition get_next_proposal_block :: "('args, 'wit, 'stdin) fault_proposer \<Rightarrow> (fault_state, int) op" where
  "get_next_proposal_block p =
     (let interval = fc_proposal_interval_in_blocks (fp_config p) in
      andThen (get_latest_valid_proposal (fp_env p)) (\<lambda>latest_valid_proposal.
        case latest_valid_proposal of
          Some (latest_block, _) \<Rightarrow> ret (wrap_u256 (latest_block + interval))
        | None \<Rightarrow>
            andThen (get_anchor_l2_block_number (fp_env p) (fc_game_type (fp_config p))) (\<lambda>anchor.
              if anchor + interval \<le> u256_max then ret (anchor + interval) else throw (Panic ''unwrap''))))"

subsection \<open>Bonds\<close>

definition fault_handle_bond_claiming :: "('args, 'wit, 'stdin) fault_proposer \<Rightarrow> (fault_state, action) op"
  where
  "fault_handle_bond_claiming p =
     andThen (get_oldest_claimable_bond_game_address (fp_env p) (fc_game_type (fp_config p))
                (fc_max_games_to_check_for_bond_claiming (fp_config p)) (fp_prover_address p)) (\<lambda>found.
       case found of
         Some game \<Rightarrow>
           onErr (send_game_tx (fp_env p) (ClaimCredit game (fp_prover_address p)))
             (\<lambda>receipt. ret Performed)
             (\<lambda>e. throw (Failure (Msg ''Failed to claim bond'')))
       | None \<Rightarrow> ret Skipped)"

subsection \<open>Metrics\<close>

definition fetch_proposer_metrics :: "('args, 'wit, 'stdin) fault_proposer \<Rightarrow> (fault_state, unit) op" where
  "fetch_proposer_metrics p =
     andThen (get_latest_valid_proposal (fp_env p)) (\<lambda>latest.
     andThen (case latest of
                Some (l2_block_number, _) \<Rightarrow> ret l2_block_number
              | None \<Rightarrow> get_anchor_l2_block_number (fp_env p) (fc_game_type (fp_config p))) (\<lambda>latest_proposed.
     andThen (lift (u256_to_u64 latest_proposed)) (\<lambda>n.
     andThen (fault_set ProposerLatestGameL2BlockNumber n) (\<lambda>_.
     andThen (host_finalized_l2_block (fp_host p) n) (\<lambda>finalized.
     andThen (case finalized of
                Some f \<Rightarrow> fault_set ProposerFinalizedL2BlockNumber f
              | None \<Rightarrow> ret ()) (\<lambda>_.
     andThen (get_anchor_l2_block_number (fp_env p) (fc_game_type (fp_config p))) (\<lambda>anchor.
     andThen (lift (u256_to_u64 anchor)) (\<lambda>a.
       fault_set ProposerAnchorGameL2BlockNumber a))))))))"

definition collect_metrics :: "('args, 'wit, 'stdin) fault_proposer \<Rightarrow> (fault_state, unit) op" where
  "collect_metrics p =
     onErr (fetch_proposer_metrics p) ret (\<lambda>e. fault_increment ProposerMetricsError)"

subsection \<open>Spawning tasks\<close>

definition spawn_game_creation_task :: "('args, 'wit, 'stdin) fault_proposer \<Rightarrow> (fault_state, bool) op" where
  "spawn_game_creation_task p =
     andThen (should_create_game p) (\<lambda>should_create.
       if \<not> should_create then ret False
       else
         andThen fetch_add_task_id (\<lambda>task_id.
         andThen (onErr (get_next_proposal_block p) ret (\<lambda>e. ret 0)) (\<lambda>next_block.
         andThen (insert_fault_task task_id (GameCreation next_block)) (\<lambda>_. ret True))))"

definition spawn_game_defense_tasks :: "('args, 'wit, 'stdin) fault_proposer \<Rightarrow> (fault_state, bool) op" where
  "spawn_game_defense_tasks p =
     andThen (get_oldest_defensible_game_address (fp_env p)
                (fc_max_games_to_check_for_defense (fp_config p))) (\<lambda>found.
       case found of
         Some game \<Rightarrow>
           andThen (has_active_proving_for_game game) (\<lambda>active.
             if \<not> active then andThen (spawn_game_proving_task p game) (\<lambda>_. ret True)
             else ret False)
       | None \<Rightarrow> ret False)"

definition spawn_game_resolution_task :: "('args, 'wit, 'stdin) fault_proposer \<Rightarrow> (fault_state, bool) op"
  where
  "spawn_game_resolution_task p =
     andThen fetch_add_task_id (\<lambda>task_id.
     andThen (insert_fault_task task_id GameResolution) (\<lambda>_. ret True))"

definition spawn_bond_claim_task :: "('args, 'wit, 'stdin) fault_proposer \<Rightarrow> (fault_state, bool) op" where
  "spawn_bond_claim_task p =
     andThen (get_oldest_claimable_bond_game_address (fp_env p) (fc_game_type (fp_config p))
                (fc_max_games_to_check_for_bond_claiming (fp_config p)) (fp_prover_address p)) (\<lambda>found.
       if found = None then ret False
       else
         andThen fetch_add_task_id (\<lambda>task_id.
         andThen (insert_fault_task task_id BondClaim) (\<lambda>_. ret True)))"

text \<open>The three outcomes of a spawn are only logged.\<close>

definition logged :: "(fault_state, bool) op \<Rightarrow> (fault_state, unit) op" where
  "logged m = onErr m (\<lambda>_. ret ()) (\<lambda>_. ret ())"

definition spawn_unless_active :: "task_info \<Rightarrow> (fault_state, bool) op \<Rightarrow> (fault_state, unit) op" where
  "spawn_unless_active info m =
     andThen (has_active_task_of_type info) (\<lambda>active. if \<not> active then logged m else ret ())"

definition spawn_pending_operations :: "('args, 'wit, 'stdin) fault_proposer \<Rightarrow> (fault_state, unit) op" where
  "spawn_pending_operations p =
     andThen (spawn_unless_active (GameCreation 0) (spawn_game_creation_task p)) (\<lambda>_.
     andThen (logged (spawn_game_defense_tasks p)) (\<lambda>_.
     andThen (spawn_unless_active GameResolution (spawn_game_resolution_task p)) (\<lambda>_.
       spawn_unless_active BondClaim (spawn_bond_claim_task p))))"

subsection \<open>Collecting tasks\<close>

fun failure_gauge :: "task_info \<Rightarrow> fault_gauge" where
  "failure_gauge (GameCreation _) = ProposerGameCreationError"
| "failure_gauge (GameProving _) = ProposerGameProvingError"
| "failure_gauge GameResolution = ProposerGameResolutionError"
| "failure_gauge BondClaim = ProposerBondClaimingError"

definition handle_task_failure :: "task_info \<Rightarrow> (fault_state, unit) op" where
  "handle_task_failure info = fault_increment (failure_gauge info)"

fun task_finished :: "fault_task \<Rightarrow> bool" where
  "task_finished (_, TaskFinished _, _) = True"
| "task_finished (_, TaskRunning, _) = False"

text \<open>
  One entry of \<open>completed\<close>: \<open>remove\<close> takes it from the map and \<open>await\<close> gives its result, or the
  panic of the task. The order of the map is immaterial: the results only move gauges.
\<close>

definition collect_task :: "fault_task \<Rightarrow> (fault_state, unit) op" where
  "collect_task t =
     (case t of (i, h, info) \<Rightarrow>
       andThen (update (\<lambda>s. s\<lparr>fault_tasks := filter (\<lambda>(j, _, _). j \<noteq> i) (fault_tasks s)\<rparr>)) (\<lambda>_.
         case h of
           TaskFinished (Inl (Failure e)) \<Rightarrow> handle_task_failure info
         | _ \<Rightarrow> ret ()))"

definition handle_completed_tasks :: "(fault_state, unit) op" where
  "handle_completed_tasks =
     andThen (asks (\<lambda>s. filter task_finished (fault_tasks s))) (\<lambda>completed. forEach collect_task completed)"

text \<open>The counts that \<open>log_task_stats\<close> prints.\<close>

fun task_type_name :: "task_info \<Rightarrow> string" where
  "task_type_name (GameCreation _) = ''GameCreation''"
| "task_type_name (GameProving _) = ''GameProving''"
| "task_type_name GameResolution = ''GameResolution''"
| "task_type_name BondClaim = ''BondClaim''"

definition log_task_stats :: "(fault_state, nat \<times> (string \<Rightarrow> nat)) op" where
  "log_task_stats =
     asks (\<lambda>s. (length (fault_tasks s),
       \<lambda>name. length (filter (\<lambda>(_, _, info). task_type_name info = name) (fault_tasks s))))"

subsection \<open>One turn of the loop\<close>

definition fault_turn :: "('args, 'wit, 'stdin) fault_proposer \<Rightarrow> (fault_state, unit) op" where
  "fault_turn p =
     andThen (onErr handle_completed_tasks ret (\<lambda>e. ret ())) (\<lambda>_.
     andThen (onErr (spawn_pending_operations p) ret (\<lambda>e. ret ())) (\<lambda>_.
     andThen log_task_stats (\<lambda>_. ret ())))"

subsection \<open>The work of a task\<close>

definition task_body :: "('args, 'wit, 'stdin) fault_proposer \<Rightarrow> task_info \<Rightarrow> (fault_state, unit) op" where
  "task_body p info =
     (case info of
        GameCreation _ \<Rightarrow>
          andThen (handle_game_creation p) (\<lambda>created.
            case created of Some _ \<Rightarrow> fault_increment ProposerGamesCreated | None \<Rightarrow> ret ())
      | GameProving game \<Rightarrow> andThen (prove_game p game) (\<lambda>_. ret ())
      | GameResolution \<Rightarrow>
          resolve_games (fp_env p) ProposerMode (fc_max_games_to_check_for_resolution (fp_config p))
      | BondClaim \<Rightarrow>
          andThen (fault_handle_bond_claiming p) (\<lambda>a.
            case a of Performed \<Rightarrow> fault_increment ProposerGamesBondsClaimed | Skipped \<Rightarrow> ret ()))"

definition finish_handle :: "int \<Rightarrow> unit res \<Rightarrow> fault_state \<Rightarrow> fault_state" where
  "finish_handle i x s =
     s\<lparr>fault_tasks := map (\<lambda>(j, h, info). if j = i then (j, TaskFinished x, info) else (j, h, info))
        (fault_tasks s)\<rparr>"

text \<open>
  The loop takes a turn, a running task does its work and finishes (a task that does not return
  stays running), or the metrics are collected. A turn that panics ends the process, so that only
  turns that return count.
\<close>

inductive fault_step ::
  "('args, 'wit, 'stdin) fault_proposer \<Rightarrow> fault_state \<Rightarrow> fault_state \<Rightarrow> bool"
  for p :: "('args, 'wit, 'stdin) fault_proposer" where
  fault_turns: "fault_turn p s = (Inr x, s') \<Longrightarrow> fault_step p s s'"
| fault_task_ends: "(i, TaskRunning, info) \<in> set (fault_tasks s) \<Longrightarrow>
    task_body p info s = (x, s') \<Longrightarrow> x \<noteq> Inl Diverged \<Longrightarrow> fault_step p s (finish_handle i x s')"
| fault_metrics: "collect_metrics p s = (x, s') \<Longrightarrow> fault_step p s s'"

inductive_cases fault_step_cases: "fault_step p s s'"

definition fault_reachable ::
  "('args, 'wit, 'stdin) fault_proposer \<Rightarrow> fault_state \<Rightarrow> fault_state \<Rightarrow> bool" where
  "fault_reachable p = (fault_step p)\<^sup>*\<^sup>*"

end
