(* ===== verification/FaultProposerProps.thy ===== *)
theory FaultProposerProps
  imports FaultProposer
begin

text \<open>
  What the fault proof proposer guarantees: its task map never holds two tasks that would create
  games, resolve games or claim bonds at the same time; every turn collects what has finished and
  counts what has failed; the game it creates; the proof it sends.
\<close>

subsection \<open>What touches the task map\<close>

abbreviation on_tasks :: "(fault_task list \<Rightarrow> bool) \<Rightarrow> fault_state \<Rightarrow> bool" where
  "on_tasks Q \<equiv> \<lambda>s. Q (fault_tasks s)"

lemma fault_tasks_tick: "fault_tasks (s\<lparr>tick := k\<rparr>) = fault_tasks s"
  by simp

lemma keeps_tasks_read: "tick_only m \<Longrightarrow> keeps (on_tasks Q) m"
  by (rule keeps_tick_only) simp_all

lemma keeps_tasks_basic [keeps_intros]:
  "keeps (on_tasks Q) (fault_increment g)" "keeps (on_tasks Q) (fault_set g v)"
  "keeps (on_tasks Q) (send_game_tx env x)" "keeps (on_tasks Q) fetch_add_task_id"
  unfolding fault_increment_def fault_set_def send_game_tx_def fetch_add_task_id_def
  by (intro keeps_intros; simp)+

lemma keeps_prod_case [keeps_intros]:
  "(\<And>a b. x = (a, b) \<Longrightarrow> keeps P (f a b)) \<Longrightarrow> keeps P (case x of (a, b) \<Rightarrow> f a b)"
  by (cases x) auto

lemma keeps_case_sum [keeps_intros]:
  "(\<And>y. keeps P (f y)) \<Longrightarrow> (\<And>y. keeps P (g y)) \<Longrightarrow> keeps P (case x of Inl y \<Rightarrow> f y | Inr y \<Rightarrow> g y)"
  by (cases x) auto

lemma keeps_case_action [keeps_intros]:
  "keeps P m \<Longrightarrow> keeps P n \<Longrightarrow> keeps P (case a of Performed \<Rightarrow> m | Skipped \<Rightarrow> n)"
  by (cases a) auto

lemma keeps_case_list [keeps_intros]:
  "keeps P m \<Longrightarrow> (\<And>y ys. keeps P (f y ys)) \<Longrightarrow> keeps P (case xs of [] \<Rightarrow> m | y # ys \<Rightarrow> f y ys)"
  by (cases xs) auto

lemma keeps_rephrase [keeps_intros]: "keeps P m \<Longrightarrow> keeps P (rephrase e m)"
  unfolding rephrase_def by (intro keeps_intros)

lemma proposal_target_reads [tick_intros]: "tick_only (proposal_target p)"
  unfolding proposal_target_def Let_def by (intro tick_intros)

lemma get_next_proposal_block_reads [tick_intros]: "tick_only (get_next_proposal_block p)"
  unfolding get_next_proposal_block_def Let_def by (intro tick_intros)

lemmas keeps_tasks_reads [keeps_intros] =
  keeps_tasks_read [OF factory_reads(1)] keeps_tasks_read [OF factory_reads(2)]
  keeps_tasks_read [OF factory_reads(3)] keeps_tasks_read [OF factory_reads(4)]
  keeps_tasks_read [OF factory_reads(5)] keeps_tasks_read [OF factory_reads(6)]
  keeps_tasks_read [OF factory_reads(9)]
  keeps_tasks_read [OF factory_search_reads(1)] keeps_tasks_read [OF factory_search_reads(3)]
  keeps_tasks_read [OF factory_search_reads(5)]
  keeps_tasks_read [OF proposal_target_reads] keeps_tasks_read [OF get_next_proposal_block_reads]

lemma keeps_tasks_resolve [keeps_intros]: "keeps (on_tasks Q) (resolve_games env m n)"
  unfolding resolve_games_def resolve_one_def try_resolve_games_def
  by (intro keeps_intros; simp)

definition closed_under_proving :: "(fault_task list \<Rightarrow> bool) \<Rightarrow> bool" where
  "closed_under_proving Q \<longleftrightarrow>
     (\<forall>ts i game. Q ts \<longrightarrow> Q (filter (\<lambda>(j, _, _). j \<noteq> i) ts @ [(i, TaskRunning, GameProving game)]))"

lemma keeps_spawn_proving [keeps_intros]:
  assumes "closed_under_proving Q"
  shows "keeps (on_tasks Q) (spawn_game_proving_task p game)"
  unfolding spawn_game_proving_task_def insert_fault_task_def
  by (intro keeps_intros) (use assms in \<open>auto simp: closed_under_proving_def\<close>)

lemma keeps_tasks_finalized:
  assumes "op_succinct_host (fp_host p)"
  shows "keeps (on_tasks Q) (finalized_after p n)"
  unfolding finalized_after_def
  by (intro keeps_intros keeps_tasks_read [OF op_succinct_host.finalized_reads [OF assms]])

lemma keeps_tasks_prove:
  assumes "op_succinct_host (fp_host p)"
  shows "keeps (on_tasks Q) (prove_game p game)"
  unfolding prove_game_def range_stdin_of_game_def prove_range_def aggregation_stdin_of_range_def
    prove_aggregation_def
  by (intro keeps_intros keeps_tasks_read [OF op_succinct_host.fetch_reads [OF assms]]
      keeps_tasks_read [OF op_succinct_host.run_reads [OF assms]]
      keeps_tasks_read [OF fetcher_tick_only'(1)]; simp)

lemma keeps_tasks_creation:
  assumes "op_succinct_host (fp_host p)" and "closed_under_proving Q"
  shows "keeps (on_tasks Q) (handle_game_creation p)"
  unfolding handle_game_creation_def create_game_def
  by (intro keeps_intros keeps_tasks_finalized assms)

lemma keeps_tasks_body:
  assumes "op_succinct_host (fp_host p)" and "closed_under_proving Q"
  shows "keeps (on_tasks Q) (task_body p info)"
proof (cases info)
  case (GameCreation b)
  then show ?thesis
    by (simp add: task_body_def) (intro keeps_intros keeps_tasks_creation assms)
next
  case (GameProving game)
  then show ?thesis by (simp add: task_body_def) (intro keeps_intros keeps_tasks_prove assms)
next
  case GameResolution
  then show ?thesis by (simp add: task_body_def) (intro keeps_intros)
next
  case BondClaim
  then show ?thesis
    by (simp add: task_body_def fault_handle_bond_claiming_def) (intro keeps_intros)
qed

lemma keeps_tasks_metrics:
  assumes "op_succinct_host (fp_host p)"
  shows "keeps (on_tasks Q) (collect_metrics p)"
  unfolding collect_metrics_def fetch_proposer_metrics_def
  by (intro keeps_intros keeps_tasks_read [OF op_succinct_host.finalized_reads [OF assms]])

subsection \<open>At most one task of a kind\<close>

definition kind_count :: "task_info \<Rightarrow> fault_task list \<Rightarrow> nat" where
  "kind_count k ts = length (filter (\<lambda>(_, _, info). same_discriminant info k) ts)"

definition one_at_a_time :: "task_info \<Rightarrow> bool" where
  "one_at_a_time k \<longleftrightarrow> (\<nexists>game. k = GameProving game)"

definition few_tasks :: "fault_task list \<Rightarrow> bool" where
  "few_tasks ts \<longleftrightarrow> (\<forall>k. one_at_a_time k \<longrightarrow> kind_count k ts \<le> 1)"

lemma kind_count_filter: "kind_count k (filter P ts) \<le> kind_count k ts"
  by (induction ts) (auto simp: kind_count_def split: prod.splits)

lemma few_tasks_filter: "few_tasks ts \<Longrightarrow> few_tasks (filter P ts)"
  unfolding few_tasks_def using kind_count_filter le_trans by metis

lemma kind_count_snoc:
  "kind_count k (ts @ [(i, h, info)]) = kind_count k ts + (if same_discriminant info k then 1 else 0)"
  by (simp add: kind_count_def)

lemma same_discriminant_kind: "same_discriminant info k \<Longrightarrow> same_discriminant x k = same_discriminant x info"
  by (cases info; cases k; cases x) auto

lemma few_tasks_insert:
  assumes "few_tasks ts" and "kind_count info ts = 0 \<or> (\<exists>game. info = GameProving game)"
  shows "few_tasks (filter P ts @ [(i, h, info)])"
  unfolding few_tasks_def
proof (intro allI impI)
  fix k assume k: "one_at_a_time k"
  show "kind_count k (filter P ts @ [(i, h, info)]) \<le> 1"
  proof (cases "same_discriminant info k")
    case True
    then have "kind_count k ts = kind_count info ts"
      by (simp add: kind_count_def same_discriminant_kind [OF True])
    moreover have "\<nexists>game. info = GameProving game"
      using True k by (cases k) (auto simp: one_at_a_time_def)
    ultimately have "kind_count k ts = 0" using assms(2) by simp
    then have "kind_count k (filter P ts) = 0" using kind_count_filter [of k P ts] by simp
    then show ?thesis by (simp add: kind_count_snoc)
  next
    case False
    then show ?thesis
      using few_tasks_filter [OF assms(1), of P] k by (simp add: kind_count_snoc few_tasks_def)
  qed
qed

lemma few_tasks_proving: "closed_under_proving few_tasks"
  by (auto simp: closed_under_proving_def intro: few_tasks_insert)

lemma few_tasks_finish: "few_tasks (fault_tasks (finish_handle i x s)) = few_tasks (fault_tasks s)"
proof -
  have "kind_count k (fault_tasks (finish_handle i x s)) = kind_count k (fault_tasks s)" for k
    unfolding finish_handle_def kind_count_def
    by (simp add: filter_map comp_def case_prod_beta) (rule arg_cong [where f = length], rule filter_cong, auto)
  then show ?thesis by (simp add: few_tasks_def)
qed

abbreviation none_of :: "task_info \<Rightarrow> fault_task list \<Rightarrow> bool" where
  "none_of k ts \<equiv> few_tasks ts \<and> kind_count k ts = 0"

lemma triple_tasks_read:
  "tick_only m \<Longrightarrow> (\<And>x. triple (on_tasks Q) (f x) R E) \<Longrightarrow> (\<And>s. Q (fault_tasks s) \<Longrightarrow> E s) \<Longrightarrow>
   triple (on_tasks Q) (andThen m f) R E"
  by (rule triple_read_then) simp_all

lemma triple_tasks_keeps:
  "keeps (on_tasks Q) m \<Longrightarrow> (\<And>x. triple (on_tasks Q) (f x) R E) \<Longrightarrow> (\<And>s. Q (fault_tasks s) \<Longrightarrow> E s) \<Longrightarrow>
   triple (on_tasks Q) (andThen m f) R E"
  by (rule triple_keeps_then) simp_all

lemma triple_insert_task:
  "same_discriminant info k \<Longrightarrow>
   triple (on_tasks (none_of k)) (insert_fault_task i info) (\<lambda>_. on_tasks few_tasks) (on_tasks few_tasks)"
proof (rule tripleI)
  fix s x s'
  assume same: "same_discriminant info k" and none: "none_of k (fault_tasks s)"
    and run: "insert_fault_task i info s = (Inr x, s')"
  have "kind_count info (fault_tasks s) = kind_count k (fault_tasks s)"
    by (simp add: kind_count_def same_discriminant_kind [OF same])
  then show "few_tasks (fault_tasks s')"
    using none run by (auto simp: insert_fault_task_def update_def intro: few_tasks_insert)
next
  fix s e s'
  assume "insert_fault_task i info s = (Inl e, s')"
  then show "few_tasks (fault_tasks s')" by (simp add: insert_fault_task_def update_def)
qed

lemma triple_few_ret: "triple (on_tasks (none_of k)) (ret x) (\<lambda>_. on_tasks few_tasks) (on_tasks few_tasks)"
  by (rule triple_ret) simp

lemma triple_insert_then_ret:
  assumes "same_discriminant info k"
  shows "triple (on_tasks (none_of k)) (andThen (insert_fault_task i info) (\<lambda>_. ret x))
    (\<lambda>_. on_tasks few_tasks) (on_tasks few_tasks)"
  by (rule triple_andThen [OF triple_insert_task [OF assms]]) (simp add: triple_ret)

lemma should_create_reads:
  assumes "op_succinct_host (fp_host p)"
  shows "tick_only (should_create_game p)"
  unfolding should_create_game_def finalized_after_def
  by (intro tick_intros op_succinct_host.finalized_reads [OF assms])

lemma triple_spawn_creation:
  assumes "op_succinct_host (fp_host p)"
  shows "triple (on_tasks (none_of (GameCreation 0))) (spawn_game_creation_task p)
    (\<lambda>_. on_tasks few_tasks) (on_tasks few_tasks)"
  unfolding spawn_game_creation_task_def
  by (intro triple_tasks_read [OF should_create_reads [OF assms]] triple_if triple_few_ret
      triple_tasks_keeps [OF keeps_tasks_basic(4)]
      triple_tasks_keeps [OF keeps_onErr [OF keeps_tasks_read [OF get_next_proposal_block_reads]
        keeps_basic(1) keeps_basic(1)]]
      triple_insert_then_ret) simp_all

lemma triple_spawn_resolution:
  "triple (on_tasks (none_of GameResolution)) (spawn_game_resolution_task p)
    (\<lambda>_. on_tasks few_tasks) (on_tasks few_tasks)"
  unfolding spawn_game_resolution_task_def
  by (intro triple_tasks_keeps [OF keeps_tasks_basic(4)] triple_insert_then_ret) simp_all

lemma triple_spawn_bond_claim:
  "triple (on_tasks (none_of BondClaim)) (spawn_bond_claim_task p)
    (\<lambda>_. on_tasks few_tasks) (on_tasks few_tasks)"
  unfolding spawn_bond_claim_task_def
  by (intro triple_tasks_read [OF factory_search_reads(3)] triple_if triple_few_ret
      triple_tasks_keeps [OF keeps_tasks_basic(4)] triple_insert_then_ret) simp_all

lemma keeps_spawn_unless_active:
  assumes "triple (on_tasks (none_of k)) m (\<lambda>_. on_tasks few_tasks) (on_tasks few_tasks)"
  shows "keeps (on_tasks few_tasks) (spawn_unless_active k m)"
proof (rule keepsI)
  fix s :: fault_state assume few: "few_tasks (fault_tasks s)"
  show "few_tasks (fault_tasks (snd (spawn_unless_active k m s)))"
  proof (cases "list_ex (\<lambda>(_, _, info). same_discriminant info k) (fault_tasks s)")
    case True
    then show ?thesis
      using few by (simp add: spawn_unless_active_def has_active_task_of_type_def andThen_def asks_def ret_def)
  next
    case False
    then have "none_of k (fault_tasks s)"
      using few by (auto simp: kind_count_def list_ex_iff filter_empty_conv)
    moreover obtain r s' where run: "m s = (r, s')" by fastforce
    ultimately have "few_tasks (fault_tasks s')"
      using tripleD_Ok [OF assms, of s] tripleD_Err [OF assms, of s] by (cases r) blast+
    moreover have "spawn_unless_active k m s = logged m s"
      using False by (simp add: spawn_unless_active_def has_active_task_of_type_def andThen_def asks_def)
    moreover have "snd (logged m s) = s'"
      by (cases r; cases "projl r") (simp_all add: run logged_def onErr_def ret_def)
    ultimately show ?thesis by (simp only:)
  qed
qed

lemma keeps_defense: "keeps (on_tasks few_tasks) (spawn_game_defense_tasks p)"
  unfolding spawn_game_defense_tasks_def has_active_proving_for_game_def
  by (intro keeps_intros few_tasks_proving)

lemma keeps_completed: "keeps (on_tasks few_tasks) handle_completed_tasks"
proof -
  have "keeps (on_tasks few_tasks) (collect_task t)" for t
    unfolding collect_task_def handle_task_failure_def
    by (cases t) (auto intro!: keeps_intros few_tasks_filter split: handle_state.splits sum.splits fault.splits)
  then show ?thesis unfolding handle_completed_tasks_def by (intro keeps_intros)
qed

lemma keeps_few_turn:
  assumes "op_succinct_host (fp_host p)"
  shows "keeps (on_tasks few_tasks) (fault_turn p)"
  unfolding fault_turn_def spawn_pending_operations_def log_task_stats_def
  by (intro keeps_intros keeps_completed keeps_spawn_unless_active triple_spawn_creation [OF assms]
      triple_spawn_resolution triple_spawn_bond_claim)
    (unfold logged_def, intro keeps_intros keeps_defense)

lemma few_tasks_step:
  assumes "op_succinct_host (fp_host p)" and "fault_step p s s'" and few: "few_tasks (fault_tasks s)"
  shows "few_tasks (fault_tasks s')"
  using assms(2)
proof (cases rule: fault_step.cases)
  case (fault_turns x)
  then show ?thesis using keepsD [OF keeps_few_turn [OF assms(1)], of s] few by simp
next
  case (fault_task_ends i info x t)
  then show ?thesis
    using keepsD [OF keeps_tasks_body [OF assms(1) few_tasks_proving], of s] few
    by (metis few_tasks_finish snd_conv)
next
  case (fault_metrics x)
  then show ?thesis using keepsD [OF keeps_tasks_metrics [OF assms(1)], of few_tasks s] few by simp
qed

lemma few_tasks_reachable:
  assumes "op_succinct_host (fp_host p)" and "fault_reachable p s s'" and "fault_tasks s = []"
  shows "few_tasks (fault_tasks s')"
  using assms(2) unfolding fault_reachable_def
proof (induction rule: rtranclp_induct)
  case base
  then show ?case using assms(3) by (simp add: few_tasks_def kind_count_def)
next
  case (step t u)
  then show ?case using few_tasks_step [OF assms(1)] by blast
qed

subsection \<open>Collecting finished tasks\<close>

definition failed_with :: "fault_gauge \<Rightarrow> fault_task \<Rightarrow> bool" where
  "failed_with g t = (case t of (i, h, info) \<Rightarrow>
     (case h of TaskFinished (Inl (Failure e)) \<Rightarrow> failure_gauge info = g | _ \<Rightarrow> False))"

definition count_failures :: "fault_task list \<Rightarrow> (fault_gauge \<Rightarrow> int) \<Rightarrow> fault_gauge \<Rightarrow> int" where
  "count_failures ts gs g = gs g + int (length (filter (failed_with g) ts))"

lemma count_failures_Cons:
  "count_failures (t # ts) gs = count_failures ts (\<lambda>g. gs g + (if failed_with g t then 1 else 0))"
  by (rule ext) (simp add: count_failures_def)

lemma collect_task_run:
  "collect_task t s = (Inr (), s\<lparr>fault_tasks := filter (\<lambda>u. fst u \<noteq> fst t) (fault_tasks s),
     fault_gauges := (\<lambda>g. fault_gauges s g + (if failed_with g t then 1 else 0))\<rparr>)"
proof -
  obtain i h info where t: "t = (i, h, info)" by (cases t)
  have away: "(\<lambda>(j, _, _). j \<noteq> i) = (\<lambda>u :: fault_task. fst u \<noteq> i)" by auto
  show ?thesis
    by (cases s)
      (auto simp: t away collect_task_def handle_task_failure_def fault_increment_def failed_with_def
        andThen_def update_def ret_def fun_eq_iff split: handle_state.splits sum.splits fault.splits)
qed

lemma collect_all_run:
  "forEach collect_task cs s = (Inr (), s\<lparr>fault_tasks := filter (\<lambda>u. fst u \<notin> fst ` set cs) (fault_tasks s),
     fault_gauges := count_failures cs (fault_gauges s)\<rparr>)"
proof (induction cs arbitrary: s)
  case Nil
  have "count_failures [] gs = gs" for gs by (rule ext) (simp add: count_failures_def)
  then show ?case by (simp add: ret_def)
next
  case (Cons c cs)
  then show ?case
    by (simp add: andThen_def collect_task_run count_failures_Cons)
qed

lemma handle_completed_run:
  assumes "distinct (map fst (fault_tasks s))"
  shows "handle_completed_tasks s =
    (Inr (), s\<lparr>fault_tasks := filter (Not \<circ> task_finished) (fault_tasks s),
       fault_gauges := count_failures (filter task_finished (fault_tasks s)) (fault_gauges s)\<rparr>)"
proof -
  have "filter (\<lambda>u. fst u \<notin> fst ` set (filter task_finished (fault_tasks s))) (fault_tasks s)
      = filter (Not \<circ> task_finished) (fault_tasks s)"
    by (rule filter_cong) (use assms in \<open>auto simp: distinct_map inj_on_def\<close>)
  then show ?thesis by (simp add: handle_completed_tasks_def andThen_def asks_def collect_all_run)
qed

text \<open>Identifiers stay distinct: an insertion replaces the entry of its key.\<close>

abbreviation distinct_ids :: "fault_task list \<Rightarrow> bool" where
  "distinct_ids ts \<equiv> distinct (map fst ts)"

lemma distinct_ids_filter: "distinct_ids ts \<Longrightarrow> distinct_ids (filter P ts)"
  by (simp add: distinct_map_filter)

lemma distinct_ids_insert:
  "distinct_ids ts \<Longrightarrow> distinct_ids (filter (\<lambda>(j, _, _). j \<noteq> i) ts @ [(i, h, info)])"
  by (auto simp: distinct_map_filter)

lemma distinct_ids_proving: "closed_under_proving distinct_ids"
  by (simp only: closed_under_proving_def) (intro allI impI distinct_ids_insert)

lemma keeps_ids_insert: "keeps (on_tasks distinct_ids) (insert_fault_task i info)"
  unfolding insert_fault_task_def
  by (rule keeps_update) (use distinct_ids_insert in simp)

lemma keeps_ids_turn:
  assumes "op_succinct_host (fp_host p)"
  shows "keeps (on_tasks distinct_ids) (fault_turn p)"
proof -
  have collect: "keeps (on_tasks distinct_ids) (collect_task t)" for t
    by (rule keepsI) (simp add: collect_task_run distinct_ids_filter)
  have should: "keeps (on_tasks distinct_ids) (should_create_game p)"
    by (rule keeps_tasks_read [OF should_create_reads [OF assms]])
  show ?thesis
    unfolding fault_turn_def spawn_pending_operations_def log_task_stats_def spawn_unless_active_def
      handle_completed_tasks_def logged_def has_active_task_of_type_def spawn_game_creation_task_def
      spawn_game_defense_tasks_def spawn_game_resolution_task_def spawn_bond_claim_task_def
      has_active_proving_for_game_def
    by (intro keeps_intros collect should keeps_ids_insert distinct_ids_proving)
qed

lemma finish_handle_ids: "map fst (fault_tasks (finish_handle i x s)) = map fst (fault_tasks s)"
  by (auto simp: finish_handle_def)

lemma distinct_ids_step:
  assumes "op_succinct_host (fp_host p)" and "fault_step p s s'" and ids: "distinct_ids (fault_tasks s)"
  shows "distinct_ids (fault_tasks s')"
  using assms(2)
proof (cases rule: fault_step.cases)
  case (fault_turns x)
  then show ?thesis using keepsD [OF keeps_ids_turn [OF assms(1)], of s] ids by simp
next
  case (fault_task_ends i info x t)
  then show ?thesis
    using keepsD [OF keeps_tasks_body [OF assms(1) distinct_ids_proving], of s] ids
    by (metis finish_handle_ids snd_conv)
next
  case (fault_metrics x)
  then show ?thesis using keepsD [OF keeps_tasks_metrics [OF assms(1)], of distinct_ids s] ids by simp
qed

lemma distinct_ids_reachable:
  assumes "op_succinct_host (fp_host p)" and "fault_reachable p s s'" and "fault_tasks s = []"
  shows "distinct_ids (fault_tasks s')"
  using assms(2) unfolding fault_reachable_def
proof (induction rule: rtranclp_induct)
  case base
  then show ?case using assms(3) by simp
next
  case (step t u)
  then show ?case using distinct_ids_step [OF assms(1)] by blast
qed

subsection \<open>The game that is created\<close>

record chain_view =
  cv_l2 :: l2_view
  cv_games :: "game_view list"
  cv_anchor :: int
  cv_finalized :: "int option"

text \<open>Contracts, node and host that do not change during a call, with room for the sums.\<close>

definition stable_view :: "('args, 'wit, 'stdin) fault_proposer \<Rightarrow> chain_view \<Rightarrow> bool" where
  "stable_view p v \<longleftrightarrow>
     stable_games (fp_env p) (cv_l2 v) (cv_games v) \<and> int (length (cv_games v)) \<le> u32_max \<and>
     (\<exists>impl reg. (\<forall>t. ge_game_impls (fp_env p) (fc_game_type (fp_config p)) t = Inr impl) \<and>
        (\<forall>t. ge_anchor_registry (fp_env p) impl t = Inr reg) \<and>
        (\<exists>r. \<forall>t. ge_anchor_root (fp_env p) reg t = Inr (r, cv_anchor v))) \<and>
     (\<forall>n. answers (host_finalized_l2_block (fp_host p) n) (cv_finalized v)) \<and>
     0 \<le> fc_proposal_interval_in_blocks (fp_config p) \<and>
     0 \<le> cv_anchor v \<and> cv_anchor v + fc_proposal_interval_in_blocks (fp_config p) \<le> u64_max \<and>
     (\<forall>g \<in> set (cv_games v). 0 \<le> gv_block g \<and> gv_block g + fc_proposal_interval_in_blocks (fp_config p) \<le> u64_max)"

definition next_proposal :: "('args, 'wit, 'stdin) fault_proposer \<Rightarrow> chain_view \<Rightarrow> int \<times> int \<times> int" where
  "next_proposal p v =
     (case latest_valid (valid_claim (fp_env p) (cv_l2 v)) (cv_games v) of
        Some (b, i) \<Rightarrow> (b, b + fc_proposal_interval_in_blocks (fp_config p), i)
      | None \<Rightarrow> (cv_anchor v, cv_anchor v + fc_proposal_interval_in_blocks (fp_config p), u32_max))"

definition proposal_due :: "('args, 'wit, 'stdin) fault_proposer \<Rightarrow> chain_view \<Rightarrow> bool" where
  "proposal_due p v =
     (case cv_finalized v of None \<Rightarrow> False | Some f \<Rightarrow> fst (snd (next_proposal p v)) < f)"

lemma anchor_answers:
  assumes "stable_view p v"
  shows "answers (get_anchor_l2_block_number (fp_env p) (fc_game_type (fp_config p))) (cv_anchor v)"
proof -
  obtain impl reg r where e: "\<forall>t. ge_game_impls (fp_env p) (fc_game_type (fp_config p)) t = Inr impl"
    "\<forall>t. ge_anchor_registry (fp_env p) impl t = Inr reg"
    "\<forall>t. ge_anchor_root (fp_env p) reg t = Inr (r, cv_anchor v)"
    using assms unfolding stable_view_def by blast
  have "answers (get_anchor_state_registry_address (fp_env p) (fc_game_type (fp_config p))) reg"
    unfolding get_anchor_state_registry_address_def
    by (rule answers_andThen [OF answers_call answers_call]) (use e in blast)+
  then show ?thesis
    unfolding get_anchor_l2_block_number_def
    by (rule answers_andThen [OF _ answers_andThen [OF answers_call]])
      (use e(3) answers_ret [of "snd (r, cv_anchor v)"] in auto)
qed

lemma latest_valid_mem:
  assumes "latest_valid ok gs = Some (b, i)"
  shows "\<exists>j < length gs. i = int j \<and> b = gv_block (gs ! j) \<and> ok (gs ! j)"
proof -
  obtain j where j: "find (\<lambda>i. ok (gs ! i)) (rev [0..<length gs]) = Some j" "b = gv_block (gs ! j)" "i = int j"
    using assms unfolding latest_valid_def by auto
  then obtain k where "k < length gs" "j = rev [0..<length gs] ! k" "ok (gs ! j)"
    by (auto simp: find_Some_iff)
  then show ?thesis using j by (intro exI [of _ j]) (simp add: rev_nth)
qed

lemma proposal_target_answers:
  assumes v: "stable_view p v"
  shows "answers (proposal_target p) (next_proposal p v)"
proof -
  have st: "stable_games (fp_env p) (cv_l2 v) (cv_games v)" using v by (simp add: stable_view_def)
  note latest = latest_valid_proposal_answers [OF st]
  let ?lv = "latest_valid (valid_claim (fp_env p) (cv_l2 v)) (cv_games v)"
  show ?thesis
  proof (cases ?lv)
    case None
    have "cv_anchor v + fc_proposal_interval_in_blocks (fp_config p) \<le> u256_max"
      using v by (simp add: stable_view_def u64_max_def u256_max_def)
    then show ?thesis
      unfolding proposal_target_def Let_def next_proposal_def None option.case
      by (intro answers_andThen [OF latest])
        (simp only: None option.case, rule answers_andThen [OF anchor_answers [OF v]],
         simp add: answers_ret)
  next
    case (Some bi)
    obtain b i where bi: "bi = (b, i)" by (cases bi)
    obtain j where j: "j < length (cv_games v)" "i = int j" "b = gv_block (cv_games v ! j)"
      using latest_valid_mem [OF Some [unfolded bi]] by blast
    have mem: "cv_games v ! j \<in> set (cv_games v)" using j by simp
    have games: "\<forall>g \<in> set (cv_games v). 0 \<le> gv_block g \<and>
        gv_block g + fc_proposal_interval_in_blocks (fp_config p) \<le> u64_max"
      and len: "int (length (cv_games v)) \<le> u32_max" "0 \<le> fc_proposal_interval_in_blocks (fp_config p)"
      using v unfolding stable_view_def by blast+
    have "i \<le> u32_max" using len j by linarith
    then have parent: "answers (lift (u256_to_u32 i)) i" by (intro answers_lift) (simp add: u256_to_u32_def)
    have "is_u256 (b + fc_proposal_interval_in_blocks (fp_config p))"
      using bspec [OF games mem] len j by (simp add: is_u256_def u64_max_def u256_max_def)
    then have sum: "wrap_u256 (b + fc_proposal_interval_in_blocks (fp_config p))
        = b + fc_proposal_interval_in_blocks (fp_config p)" by simp
    show ?thesis
      unfolding proposal_target_def Let_def next_proposal_def Some bi option.case prod.case
      by (intro answers_andThen [OF latest])
        (simp add: Some bi, rule answers_andThen [OF parent], simp only: sum, rule answers_ret)
  qed
qed

lemma next_proposal_bounds:
  assumes "stable_view p v" and "next_proposal p v = (b, n, i)"
  shows "b \<le> u64_max" "n \<le> u64_max"
proof -
  have games: "\<forall>g \<in> set (cv_games v). 0 \<le> gv_block g \<and>
      gv_block g + fc_proposal_interval_in_blocks (fp_config p) \<le> u64_max"
    and "0 \<le> fc_proposal_interval_in_blocks (fp_config p)"
    "cv_anchor v + fc_proposal_interval_in_blocks (fp_config p) \<le> u64_max"
    using assms(1) unfolding stable_view_def by blast+
  then have "b \<le> u64_max \<and> n \<le> u64_max"
    using assms(2) latest_valid_mem [of "valid_claim (fp_env p) (cv_l2 v)" "cv_games v"]
    by (fastforce simp: next_proposal_def split: option.splits dest: nth_mem)
  then show "b \<le> u64_max" "n \<le> u64_max" by auto
qed

lemma finalized_answers:
  assumes "stable_view p v" and "n \<le> u64_max"
  shows "answers (finalized_after p n) (cv_finalized v)"
  unfolding finalized_after_def
  by (rule answers_andThen [OF answers_lift]) (use assms in \<open>auto simp: stable_view_def\<close>)

lemma should_create_answers:
  assumes v: "stable_view p v"
  shows "answers (should_create_game p) (proposal_due p v)"
proof -
  obtain b n i where t: "next_proposal p v = (b, n, i)" by (metis surj_pair)
  note target = proposal_target_answers [OF v, unfolded t]
  note fin = finalized_answers [OF v next_proposal_bounds(1) [OF v t]]
  show ?thesis
    unfolding should_create_game_def proposal_due_def t fst_conv snd_conv
    by (rule answers_andThen [OF target], unfold prod.case)
      (rule answers_andThen [OF fin], rule answers_ret)
qed

lemma keeps_sent_spawn: "keeps (\<lambda>s. sent s = X) (spawn_game_proving_task p game)"
  unfolding spawn_game_proving_task_def insert_fault_task_def fetch_add_task_id_def
  by (intro keeps_intros; simp)

lemma create_game_sent:
  assumes "stable_games (fp_env p) l2 gs" and "n \<le> u64_max"
  shows "sent (snd (create_game p n i s)) = sent s @
    [CreateGame (fc_game_type (fp_config p)) (true_root (fp_env p) l2 n) (u256_be n @ u32_be i) (fp_init_bond p)]"
proof -
  let ?tx = "CreateGame (fc_game_type (fp_config p)) (true_root (fp_env p) l2 n) (u256_be n @ u32_be i) (fp_init_bond p)"
  let ?rest = "\<lambda>receipt. andThen (case gr_created receipt of
        [] \<Rightarrow> throw (Failure (Msg ''Could not find DisputeGameCreated event in transaction receipt logs''))
      | a # _ \<Rightarrow> ret a) (\<lambda>game_address.
     andThen (if fc_fast_finality_mode (fp_config p)
              then onErr (spawn_game_proving_task p game_address) ret (\<lambda>e. ret ())
              else ret ()) (\<lambda>_. ret game_address))"
  obtain k where root: "compute_output_root_at_block (fp_env p) n s
      = (Inr (true_root (fp_env p) l2 n), s\<lparr>tick := k\<rparr>)"
    by (rule answersE [OF root_answers [OF assms]])
  have rest: "keeps (\<lambda>s. sent s = X) (?rest r)" for r X
    by (intro keeps_intros keeps_sent_spawn)
  have send: "sent (snd (send_game_tx (fp_env p) ?tx (s\<lparr>tick := k\<rparr>))) = sent s @ [?tx]"
    by (simp add: send_game_tx_def andThen_def update_def call_def)
  have "sent (snd (andThen (send_game_tx (fp_env p) ?tx) ?rest (s\<lparr>tick := k\<rparr>))) = sent s @ [?tx]"
    using send keepsD [OF rest]
    by (cases "send_game_tx (fp_env p) ?tx (s\<lparr>tick := k\<rparr>)"; cases "fst (send_game_tx (fp_env p) ?tx (s\<lparr>tick := k\<rparr>))")
      (auto simp: andThen_def [of "send_game_tx (fp_env p) ?tx"])
  moreover have "create_game p n i s = andThen (send_game_tx (fp_env p) ?tx) ?rest (s\<lparr>tick := k\<rparr>)"
    unfolding create_game_def andThen_def [of "compute_output_root_at_block (fp_env p) n"] root by simp
  ultimately show ?thesis by simp
qed

lemma handle_creation_sent:
  assumes v: "stable_view p v" and t: "next_proposal p v = (b, n, i)"
  shows "sent (snd (handle_game_creation p s)) = sent s @
    (if proposal_due p v
     then [CreateGame (fc_game_type (fp_config p)) (true_root (fp_env p) (cv_l2 v) n)
             (u256_be n @ u32_be i) (fp_init_bond p)]
     else [])"
proof -
  have st: "stable_games (fp_env p) (cv_l2 v) (cv_games v)" using v by (simp add: stable_view_def)
  obtain k where target: "proposal_target p s = (Inr (b, n, i), s\<lparr>tick := k\<rparr>)"
    by (rule answersE [OF proposal_target_answers [OF v, unfolded t]])
  obtain j where fin: "finalized_after p b (s\<lparr>tick := k\<rparr>)
      = (Inr (cv_finalized v), s\<lparr>tick := k\<rparr>\<lparr>tick := j\<rparr>)"
    by (rule answersE [OF finalized_answers [OF v next_proposal_bounds(1) [OF v t]]])
  have create: "sent (snd (andThen (create_game p n i) (\<lambda>a. ret (Some a)) (s\<lparr>tick := j\<rparr>))) = sent s @
      [CreateGame (fc_game_type (fp_config p)) (true_root (fp_env p) (cv_l2 v) n)
        (u256_be n @ u32_be i) (fp_init_bond p)]"
    using create_game_sent [OF st next_proposal_bounds(2) [OF v t], of i "s\<lparr>tick := j\<rparr>"]
    by (auto simp: andThen_def ret_def split: prod.splits sum.splits)
  have run: "handle_game_creation p s = (case cv_finalized v of
      Some f \<Rightarrow> if n < f then andThen (create_game p n i) (\<lambda>a. ret (Some a)) else ret None
    | None \<Rightarrow> ret None) (s\<lparr>tick := j\<rparr>)"
    unfolding handle_game_creation_def andThen_def [of "proposal_target p"] target
      andThen_def [of "finalized_after p b"] using fin by (simp add: andThen_def split: option.splits)
  show ?thesis
    unfolding run proposal_due_def t using create
    by (cases "cv_finalized v") (auto simp: ret_def)
qed

subsection \<open>The status of a receipt is not looked at\<close>

text \<open>The same world, in which every transaction that is included reverts.\<close>

definition revert_all :: "game_env \<Rightarrow> game_env" where
  "revert_all env = env\<lparr>ge_send := (\<lambda>x t. case ge_send env x t of
     Inl e \<Rightarrow> Inl e | Inr r \<Rightarrow> Inr (r\<lparr>gr_success := False\<rparr>))\<rparr>"

definition with_reverts ::
  "('args, 'wit, 'stdin) fault_proposer \<Rightarrow> ('args, 'wit, 'stdin) fault_proposer" where
  "with_reverts p = p\<lparr>fp_env := revert_all (fp_env p)\<rparr>"

lemma revert_all_simps [simp]:
  "ge_rpc (revert_all env) = ge_rpc env" "ge_keccak (revert_all env) = ge_keccak env"
  "ge_game_count (revert_all env) = ge_game_count env"
  "ge_game_at_index (revert_all env) = ge_game_at_index env"
  "ge_game_impls (revert_all env) = ge_game_impls env"
  "ge_anchor_registry (revert_all env) = ge_anchor_registry env"
  "ge_anchor_root (revert_all env) = ge_anchor_root env"
  "ge_is_finalized (revert_all env) = ge_is_finalized env"
  "ge_l2_block_number (revert_all env) = ge_l2_block_number env"
  "ge_root_claim (revert_all env) = ge_root_claim env" "ge_l1_head (revert_all env) = ge_l1_head env"
  "ge_status (revert_all env) = ge_status env" "ge_claim_data (revert_all env) = ge_claim_data env"
  "ge_credit (revert_all env) = ge_credit env"
  by (simp_all add: revert_all_def)

lemma with_reverts_simps [simp]:
  "fp_env (with_reverts p) = revert_all (fp_env p)" "fp_config (with_reverts p) = fp_config p"
  "fp_host (with_reverts p) = fp_host p" "fp_sp1 (with_reverts p) = fp_sp1 p"
  "fp_prove (with_reverts p) = fp_prove p" "fp_new_fetcher (with_reverts p) = fp_new_fetcher p"
  "fp_range_vk (with_reverts p) = fp_range_vk p" "fp_prover_address (with_reverts p) = fp_prover_address p"
  "fp_init_bond (with_reverts p) = fp_init_bond p"
  by (simp_all add: with_reverts_def)

lemma reads_reverted [simp]:
  "get_l2_block_by_number (revert_all env) = get_l2_block_by_number env"
  "compute_output_root_at_block (revert_all env) = compute_output_root_at_block env"
  "latest_l2_timestamp (revert_all env) = latest_l2_timestamp env"
  "fetch_latest_game_index (revert_all env) = fetch_latest_game_index env"
  "fetch_game_address_by_index (revert_all env) = fetch_game_address_by_index env"
  "get_anchor_l2_block_number (revert_all env) = get_anchor_l2_block_number env"
  "is_claimable (revert_all env) = is_claimable env"
  "should_attempt_resolution (revert_all env) = should_attempt_resolution env"
  unfolding get_l2_block_by_number_def compute_output_root_at_block_def latest_l2_timestamp_def
    fetch_latest_game_index_def fetch_game_address_by_index_def get_anchor_l2_block_number_def
    get_anchor_state_registry_address_def is_game_finalized_def is_claimable_def
    should_attempt_resolution_def revert_all_simps
  by (rule refl)+

lemma latest_valid_loop_reverted: "latest_valid_loop (revert_all env) i = latest_valid_loop env i"
proof (induction i)
  case 0
  show ?case
    unfolding latest_valid_loop.simps [where i = 0] reads_reverted revert_all_simps nat.case by (rule refl)
next
  case (Suc i)
  show ?case
    unfolding latest_valid_loop.simps [where i = "Suc i"] reads_reverted revert_all_simps nat.case Suc
    by (rule refl)
qed

lemma claimable_loop_reverted: "claimable_loop (revert_all env) gt c ix = claimable_loop env gt c ix"
  by (induction ix) (simp_all cong: if_cong)

lemma searches_reverted [simp]:
  "get_latest_valid_proposal (revert_all env) = get_latest_valid_proposal env"
  "get_oldest_claimable_bond_game_address (revert_all env) = get_oldest_claimable_bond_game_address env"
  unfolding get_latest_valid_proposal_def [abs_def] get_oldest_claimable_bond_game_address_def [abs_def]
    reads_reverted latest_valid_loop_reverted claimable_loop_reverted
  by (rule refl)+

lemma send_reverted:
  assumes "\<And>r. f (r\<lparr>gr_success := False\<rparr>) = f r"
  shows "andThen (send_game_tx (revert_all env) x) f = andThen (send_game_tx env x) f"
    "onErr (send_game_tx (revert_all env) x) f h = onErr (send_game_tx env x) f h"
  by (rule ext, simp add: send_game_tx_def revert_all_def andThen_def onErr_def update_def call_def assms
      split: sum.splits)+

lemma resolve_reverted: "resolve_games (revert_all env) m n = resolve_games env m n"
  unfolding resolve_games_def resolve_one_def try_resolve_games_def reads_reverted revert_all_simps
  by (simp only: send_reverted)

lemma proposal_reverted:
  "proposal_target (with_reverts p) = proposal_target p"
  "finalized_after (with_reverts p) = finalized_after p"
  "spawn_game_proving_task (with_reverts p) = spawn_game_proving_task p"
  unfolding proposal_target_def [abs_def] finalized_after_def [abs_def] spawn_game_proving_task_def [abs_def]
    with_reverts_simps reads_reverted searches_reverted revert_all_simps
  by (rule refl)+

lemma create_reverted: "create_game (with_reverts p) = create_game p"
  unfolding create_game_def [abs_def] proposal_reverted with_reverts_simps reads_reverted
  by (simp add: send_reverted cong: if_cong)

lemma prove_reverted: "prove_game (with_reverts p) = prove_game p"
proof -
  have "range_stdin_of_game (with_reverts p) = range_stdin_of_game p"
    "aggregation_stdin_of_range (with_reverts p) = aggregation_stdin_of_range p"
    "prove_range (with_reverts p) = prove_range p" "prove_aggregation (with_reverts p) = prove_aggregation p"
    unfolding range_stdin_of_game_def [abs_def] aggregation_stdin_of_range_def [abs_def]
      prove_range_def [abs_def] prove_aggregation_def [abs_def] with_reverts_simps revert_all_simps
    by (rule refl)+
  then show ?thesis
    unfolding prove_game_def [abs_def] with_reverts_simps
    by (simp add: send_reverted cong: if_cong)
qed

lemma task_body_reverted: "task_body (with_reverts p) info = task_body p info"
proof -
  have "handle_game_creation (with_reverts p) = handle_game_creation p"
    unfolding handle_game_creation_def proposal_reverted create_reverted by (rule refl)
  moreover have "fault_handle_bond_claiming (with_reverts p) = fault_handle_bond_claiming p"
    unfolding fault_handle_bond_claiming_def with_reverts_simps searches_reverted
    by (simp only: send_reverted)
  ultimately show ?thesis
    unfolding task_body_def prove_reverted with_reverts_simps resolve_reverted by (simp only:)
qed

subsection \<open>Claiming bonds\<close>

interpretation proposer_bonds: bond_claimer "fault_handle_bond_claiming p" "fp_env p"
  "fc_game_type (fp_config p)" "fc_max_games_to_check_for_bond_claiming (fp_config p)"
  "fp_prover_address p"
  for p :: "('args, 'wit, 'stdin) fault_proposer"
  by unfold_locales (simp only: fault_handle_bond_claiming_def)

subsection \<open>A concrete proposer\<close>

definition sample_fault_host :: "l2_view \<Rightarrow> (fault_state, single_chain_host, unit, unit) succinct_host" where
  "sample_fault_host l2 =
     eth_host (\<lambda>h. []) (\<lambda>a b c. []) (view_rpc l2) sample_fetcher
       \<lparr>start_server = (\<lambda>_ _. Inr ()), witness_client = (\<lambda>_ _. Inr ())\<rparr> (\<lambda>_. Inr ())"

definition sample_fault_proposer :: "(single_chain_host, unit, unit) fault_proposer" where
  "sample_fault_proposer =
     \<lparr>fp_config = \<lparr>fc_mock_mode = False, fc_fast_finality_mode = True, fc_proposal_interval_in_blocks = 20,
        fc_game_type = 42, fc_max_games_to_check_for_defense = 3, fc_enable_game_resolution = True,
        fc_max_games_to_check_for_resolution = 3, fc_max_games_to_check_for_bond_claiming = 3,
        fc_safe_db_fallback = False\<rparr>,
      fp_env = view_env sample_l2 sample_games, fp_host = sample_fault_host sample_l2,
      fp_sp1 = sample_sp1, fp_prove = (\<lambda>_ _. Inr \<lparr>pv_proof = Compressed [1], public_values = [2]\<rparr>),
      fp_new_fetcher = (\<lambda>_. Inr ()), fp_range_vk = [1], fp_prover_address = [9], fp_init_bond = 8\<rparr>"

definition sample_fault_state :: "fault_task list \<Rightarrow> fault_state" where
  "sample_fault_state ts = \<lparr>tick = 0, sent = [], fault_gauges = (\<lambda>_. 0), fault_tasks = ts, next_task_id = 5\<rparr>"

lemma sample_fault_host_ok: "op_succinct_host (fp_host sample_fault_proposer)"
  unfolding sample_fault_proposer_def sample_fault_host_def fault_proposer.simps
  by (rule eth.op_succinct_host_axioms)

lemma sample_fault_state_simps [simp]:
  "fault_tasks (sample_fault_state ts) = ts" "sent (sample_fault_state ts) = []"
  "fault_gauges (sample_fault_state ts) = (\<lambda>_. 0)" "tick (sample_fault_state ts) = 0"
  by (simp_all add: sample_fault_state_def)

definition sample_chain_view :: chain_view where
  "sample_chain_view =
     \<lparr>cv_l2 = sample_l2, cv_games = sample_games, cv_anchor = 5, cv_finalized = Some 100\<rparr>"

lemma sample_finalized: "answers (host_finalized_l2_block (fp_host sample_fault_proposer) n) (Some 100)"
  by (simp add: sample_fault_proposer_def sample_fault_host_def eth_host_def eth_finalized_l2_block_def
      get_l2_header_def get_header_def answers_def andThen_def call_def ret_def view_rpc_def sample_l2_def)
    (rule allI, rule exI, rule refl)

lemma sample_view_stable: "stable_view sample_fault_proposer sample_chain_view"
proof -
  have "fp_env sample_fault_proposer = view_env sample_l2 sample_games"
    by (simp add: sample_fault_proposer_def)
  then show ?thesis
    using sample_games_stable sample_finalized
    by (simp add: stable_view_def sample_chain_view_def)
      (simp add: sample_fault_proposer_def view_env_def sample_games_def u32_max_def u64_max_def)
qed

subsection \<open>Properties\<close>

text \<open>C14. From an empty task map, over all interleavings of turns, task completions (failures and
  panics included) and metrics, with any answers of the contracts and nodes, the map never holds
  two tasks that create games, nor two that resolve games, nor two that claim bonds, and its
  identifiers stay distinct. (Proving tasks are not limited.)\<close>

theorem one_task_of_each_kind:
  assumes "op_succinct_host (fp_host p)" and "fault_reachable p s s'" and "fault_tasks s = []"
  shows "kind_count (GameCreation b) (fault_tasks s') \<le> 1 \<and> kind_count GameResolution (fault_tasks s') \<le> 1
    \<and> kind_count BondClaim (fault_tasks s') \<le> 1 \<and> distinct (map fst (fault_tasks s'))"
  using few_tasks_reachable [OF assms] distinct_ids_reachable [OF assms]
  by (simp add: few_tasks_def one_at_a_time_def)

theorem one_task_of_each_kind_witness:
  "\<exists>s'. fault_step sample_fault_proposer (sample_fault_state []) s' \<and> kind_count GameResolution (fault_tasks s') \<le> 1"
proof -
  let ?p = sample_fault_proposer
  obtain x s' where run: "collect_metrics ?p (sample_fault_state []) = (x, s')" by fastforce
  have step: "fault_step ?p (sample_fault_state []) s'" by (rule fault_metrics [OF run])
  then have "fault_reachable ?p (sample_fault_state []) s'" unfolding fault_reachable_def by simp
  then have "kind_count GameResolution (fault_tasks s') \<le> 1"
    using one_task_of_each_kind [OF sample_fault_host_ok] by simp
  then show ?thesis using step by blast
qed

text \<open>In every reachable state, \<open>handle_completed_tasks\<close> succeeds, removes exactly the finished
  tasks from the map, and adds to each error gauge the number of tasks of its kind that returned
  an error; a task that panicked is removed without being counted.\<close>

theorem completed_tasks_collected:
  assumes "op_succinct_host (fp_host p)" and "fault_reachable p s0 s" and "fault_tasks s0 = []"
  shows "handle_completed_tasks s =
    (Inr (), s\<lparr>fault_tasks := filter (Not \<circ> task_finished) (fault_tasks s),
       fault_gauges := count_failures (filter task_finished (fault_tasks s)) (fault_gauges s)\<rparr>)"
  by (rule handle_completed_run [OF distinct_ids_reachable [OF assms]])

theorem completed_tasks_collected_witness:
  "\<exists>s'. handle_completed_tasks (sample_fault_state []) = (Inr (), s') \<and> fault_tasks s' = []"
proof -
  have "fault_reachable sample_fault_proposer (sample_fault_state []) (sample_fault_state [])"
    by (simp add: fault_reachable_def)
  then show ?thesis
    using completed_tasks_collected [OF sample_fault_host_ok] by simp
qed

text \<open>C11. With contracts, node and host that do not change during the call, the check of
  \<open>should_create_game\<close> and the work of \<open>handle_game_creation\<close> agree: a game is created exactly when
  the finalized L2 block is above the next block to propose. Its transaction carries that block,
  one interval after the latest valid proposal (or the anchor, without one), the true output root
  of the block, the index of the latest valid game as parent (or \<open>u32::MAX\<close>), and the bond. No
  other transaction is sent.\<close>

theorem created_game_is_next_proposal:
  assumes "stable_view p v" and "next_proposal p v = (b, n, i)"
  shows "fst (should_create_game p s) = Ok (proposal_due p v) \<and>
    sent (snd (handle_game_creation p s)) = sent s @
      (if proposal_due p v
       then [CreateGame (fc_game_type (fp_config p)) (true_root (fp_env p) (cv_l2 v) n)
               (u256_be n @ u32_be i) (fp_init_bond p)]
       else [])"
  using answersD [OF should_create_answers [OF assms(1)]] handle_creation_sent [OF assms] by blast

theorem created_game_is_next_proposal_witness:
  "sent (snd (handle_game_creation sample_fault_proposer (sample_fault_state []))) =
     [CreateGame 42 [50] (u256_be 50 @ u32_be 1) 8]"
proof -
  have env: "fp_env sample_fault_proposer = view_env sample_l2 sample_games"
    by (simp add: sample_fault_proposer_def)
  have "next_proposal sample_fault_proposer sample_chain_view = (30, 50, 1)"
    by (simp add: next_proposal_def env sample_chain_view_def sample_games_def latest_valid_def
        valid_claim_def sample_root) (simp add: sample_fault_proposer_def)
  note target = this
  have "proposal_due sample_fault_proposer sample_chain_view"
    unfolding proposal_due_def target by (simp add: sample_chain_view_def)
  then show ?thesis
    using created_game_is_next_proposal [OF sample_view_stable target, of "sample_fault_state []"]
    by (simp add: env sample_root sample_chain_view_def) (simp add: sample_fault_proposer_def)
qed

text \<open>Every task of the proposer does the same, with the same result, the same transactions and
  the same gauges, in a world in which every included transaction reverts: the status of a
  receipt is never looked at, so that a reverted proof, resolution or claim counts as done.\<close>

theorem receipt_status_ignored: "task_body (with_reverts p) info s = task_body p info s"
  by (simp only: task_body_reverted)

end
