(* ===== verification/Challenger.thy ===== *)
theory Challenger
  imports Complex_Main FaultGames
begin

text \<open>
  The challenger of the fault proof system, \<open>fault-proof/bin/challenger.rs\<close>: it challenges the
  oldest open game with a wrong output root, resolves the challenged games, claims its bonds, and,
  for testing, challenges a share of the valid games. The percentages are \<open>f64\<close> and are modelled
  as reals (they are only compared).
\<close>

subsection \<open>Configuration\<close>

record challenger_config =
  cc_game_type :: int
  cc_max_games_to_check_for_challenge :: int
  cc_enable_game_resolution :: bool
  cc_max_games_to_check_for_resolution :: int
  cc_max_games_to_check_for_bond_claiming :: int
  cc_malicious_challenge_percentage :: real

record challenger =
  ch_config :: challenger_config
  ch_env :: game_env
  ch_address :: address
  ch_bond :: int
  ch_random :: "nat \<Rightarrow> real"

definition challenger_new :: "challenger \<Rightarrow> ('z io_scheme, challenger) op" where
  "challenger_new c =
     andThen (fetch_challenger_bond (ch_env c) (cc_game_type (ch_config c))) (\<lambda>bond.
       ret (c\<lparr>ch_bond := bond\<rparr>))"

subsection \<open>Operations\<close>

definition challenge_game :: "challenger \<Rightarrow> address \<Rightarrow> ('z fault_world_scheme, unit) op" where
  "challenge_game c game =
     andThen (send_game_tx (ch_env c) (ChallengeGame game (ch_bond c))) (\<lambda>receipt. ret ())"

definition get_oldest_valid_game_for_malicious_challenge ::
  "challenger \<Rightarrow> ('z io_scheme, address option) op" where
  "get_oldest_valid_game_for_malicious_challenge c =
     get_oldest_game_address (ch_env c) (cc_max_games_to_check_for_challenge (ch_config c))
       (\<lambda>status. status = Unchallenged) (\<lambda>root claim. root = claim)"

definition random_percentage :: "challenger \<Rightarrow> ('z io_scheme, real) op" where
  "random_percentage c = call (\<lambda>t. Inr (ch_random c t))"

definition malicious_challenge :: "challenger \<Rightarrow> ('z fault_world_scheme, action) op" where
  "malicious_challenge c =
     (if 0 < cc_malicious_challenge_percentage (ch_config c)
      then andThen (get_oldest_valid_game_for_malicious_challenge c) (\<lambda>found.
        case found of
          Some game \<Rightarrow>
            andThen (random_percentage c) (\<lambda>draw.
              if draw \<le> cc_malicious_challenge_percentage (ch_config c)
              then andThen (challenge_game c game) (\<lambda>_. ret Performed)
              else ret Skipped)
        | None \<Rightarrow> ret Skipped)
      else ret Skipped)"

definition handle_game_challenging :: "challenger \<Rightarrow> ('z fault_world_scheme, action) op" where
  "handle_game_challenging c =
     andThen (get_oldest_challengable_game_address (ch_env c)
                (cc_max_games_to_check_for_challenge (ch_config c))) (\<lambda>found.
       case found of
         Some game \<Rightarrow> andThen (challenge_game c game) (\<lambda>_. ret Performed)
       | None \<Rightarrow> malicious_challenge c)"

definition handle_game_resolution :: "challenger \<Rightarrow> ('z fault_world_scheme, unit) op" where
  "handle_game_resolution c =
     resolve_games (ch_env c) ChallengerMode (cc_max_games_to_check_for_resolution (ch_config c))"

definition challenger_handle_bond_claiming :: "challenger \<Rightarrow> ('z fault_world_scheme, action) op" where
  "challenger_handle_bond_claiming c =
     andThen (get_oldest_claimable_bond_game_address (ch_env c) (cc_game_type (ch_config c))
                (cc_max_games_to_check_for_bond_claiming (ch_config c)) (ch_address c)) (\<lambda>found.
       case found of
         Some game \<Rightarrow>
           onErr (send_game_tx (ch_env c) (ClaimCredit game (ch_address c)))
             (\<lambda>receipt. ret Performed)
             (\<lambda>e. throw (Failure (Msg ''Failed to claim bond'')))
       | None \<Rightarrow> ret Skipped)"

definition count_action :: "fault_gauge \<Rightarrow> action \<Rightarrow> ('z fault_world_scheme, unit) op" where
  "count_action g a = (case a of Performed \<Rightarrow> fault_increment g | Skipped \<Rightarrow> ret ())"

text \<open>One iteration of the loop of \<open>run\<close>: an error is counted and the next part goes on.\<close>

definition challenger_turn :: "challenger \<Rightarrow> ('z fault_world_scheme, unit) op" where
  "challenger_turn c =
     andThen (onErr (handle_game_challenging c) (count_action ChallengerGamesChallenged)
                (\<lambda>e. fault_increment ChallengerGameChallengingError)) (\<lambda>_.
     andThen (onErr (handle_game_resolution c) ret
                (\<lambda>e. fault_increment ChallengerGameResolutionError)) (\<lambda>_.
       onErr (challenger_handle_bond_claiming c) (count_action ChallengerGamesBondsClaimed)
         (\<lambda>e. fault_increment ChallengerBondClaimingError)))"

interpretation challenger_bonds: bond_claimer "challenger_handle_bond_claiming c" "ch_env c"
  "cc_game_type (ch_config c)" "cc_max_games_to_check_for_bond_claiming (ch_config c)" "ch_address c"
  for c :: challenger
  by unfold_locales (simp only: challenger_handle_bond_claiming_def)

subsection \<open>What an honest challenger challenges\<close>

definition honest :: "challenger \<Rightarrow> bool" where
  "honest c \<longleftrightarrow> cc_malicious_challenge_percentage (ch_config c) \<le> 0"

text \<open>An open game of the list with a wrong claim.\<close>

definition challengable :: "game_env \<Rightarrow> l2_view \<Rightarrow> game_view \<Rightarrow> bool" where
  "challengable env l2 = game_matches env l2 (\<lambda>status. status = Unchallenged) (\<lambda>root claim. root \<noteq> claim)"

lemma handle_game_challenging_sent:
  assumes st: "stable_games (ch_env c) l2 gs" and "honest c"
    and n: "0 \<le> cc_max_games_to_check_for_challenge (ch_config c)"
    and run: "handle_game_challenging c s = (x, s')"
  shows "sent s' = sent s @
    (case oldest_game (challengable (ch_env c) l2) (window gs (cc_max_games_to_check_for_challenge (ch_config c)))
       of None \<Rightarrow> [] | Some game \<Rightarrow> [ChallengeGame game (ch_bond c)])"
proof -
  let ?n = "cc_max_games_to_check_for_challenge (ch_config c)"
  let ?found = "oldest_game (challengable (ch_env c) l2) (window gs ?n)"
  obtain k where search: "get_oldest_challengable_game_address (ch_env c) ?n s = (Inr ?found, s\<lparr>tick := k\<rparr>)"
    unfolding get_oldest_challengable_game_address_def challengable_def
    by (rule answersE [OF oldest_game_answers [OF st n]])
  show ?thesis
  proof (cases ?found)
    case None
    then show ?thesis
      using run search \<open>honest c\<close>
      by (auto simp: handle_game_challenging_def andThen_def malicious_challenge_def honest_def ret_def)
  next
    case (Some game)
    then show ?thesis
      using run search
      by (cases "ge_send (ch_env c) (ChallengeGame game (ch_bond c)) k")
        (auto simp: handle_game_challenging_def challenge_game_def andThen_def send_game_tx_def
          update_def call_def ret_def)
  qed
qed

subsection \<open>The contract\<close>

text \<open>
  \<open>challenge()\<close> of \<open>contracts/src/fp/OPSuccinctFaultDisputeGame.sol\<close>: its guards in order and its effect on the
  claim data; \<open>Inl\<close> is the error it reverts with. The immutable settings of the game and the access manager are
  \<open>game_rules\<close>, \<open>time\<close> is the timestamp of the L1 block, \<open>value\<close> the bond sent along. The
  credit for a refund is not part of the claim data.
\<close>

record game_rules =
  ru_challenger_bond :: int
  ru_max_prove_duration :: int
  ru_allowed_challenger :: "address \<Rightarrow> bool"

definition contract_game_over :: "int \<Rightarrow> claim_data \<Rightarrow> bool" where
  "contract_game_over time d \<longleftrightarrow> cd_deadline d < time \<or> cd_prover d \<noteq> address_zero"

definition contract_challenge ::
  "game_rules \<Rightarrow> int \<Rightarrow> address \<Rightarrow> int \<Rightarrow> claim_data \<Rightarrow> string + claim_data" where
  "contract_challenge rules time sender value d =
     (if cd_status d \<noteq> Unchallenged then Inl ''ClaimAlreadyChallenged''
      else if \<not> ru_allowed_challenger rules sender then Inl ''BadAuth''
      else if contract_game_over time d then Inl ''GameOver''
      else if value \<noteq> ru_challenger_bond rules then Inl ''IncorrectBondAmount''
      else Inr (d\<lparr>cd_countered_by := sender, cd_status := Challenged,
             cd_deadline := wrap_u64 (time + ru_max_prove_duration rules)\<rparr>))"

text \<open>A transaction in a block of L1: a call that reverts changes nothing.\<close>

definition execute_challenge :: "game_rules \<Rightarrow> int \<Rightarrow> address \<Rightarrow> game_tx \<Rightarrow> game_view \<Rightarrow> game_view" where
  "execute_challenge rules time sender x g =
     (case x of
        ChallengeGame a value \<Rightarrow>
          (if a = gv_address g
           then (case contract_challenge rules time sender value (gv_data g) of
               Inl revert \<Rightarrow> g
             | Inr d \<Rightarrow> g\<lparr>gv_data := d\<rparr>)
           else g)
      | _ \<Rightarrow> g)"

subsection \<open>Rounds\<close>

definition open_wrong :: "game_env \<Rightarrow> l2_view \<Rightarrow> int \<Rightarrow> game_view list \<Rightarrow> nat" where
  "open_wrong env l2 n gs = length (filter (challengable env l2) (window gs n))"

text \<open>
  Rounds of the challenger on a chain whose games only change by its transactions. The transactions of a
  round are executed by the contract at the time of the round, or never (\<open>executed\<close>); what the
  signer returns a receipt for has been executed, an error may come with either.
\<close>

definition challenge_rounds ::
  "game_rules \<Rightarrow> challenger \<Rightarrow> l2_view \<Rightarrow> (nat \<Rightarrow> game_env) \<Rightarrow> (nat \<Rightarrow> int) \<Rightarrow> (nat \<Rightarrow> bool)
     \<Rightarrow> (nat \<Rightarrow> game_view list) \<Rightarrow> (nat \<Rightarrow> fault_world) \<Rightarrow> bool" where
  "challenge_rounds rules c l2 env time executed gs st \<longleftrightarrow>
     (\<forall>k. stable_games (env k) l2 (gs k) \<and> ge_keccak (env k) = ge_keccak (env 0) \<and>
        st (Suc k) = snd (handle_game_challenging (c\<lparr>ch_env := env k\<rparr>) (st k)) \<and>
        (is_ok (fst (handle_game_challenging (c\<lparr>ch_env := env k\<rparr>) (st k))) \<longrightarrow> executed k) \<and>
        gs (Suc k) =
          (if executed k
           then map (fold (execute_challenge rules (time k) (ch_address c))
                  (drop (length (sent (st k))) (sent (st (Suc k))))) (gs k)
           else gs k))"

lemma execute_challenge_view [simp]:
  "gv_address (execute_challenge rules time sender x g) = gv_address g"
  "gv_block (execute_challenge rules time sender x g) = gv_block g"
  "cd_prover (gv_data (execute_challenge rules time sender x g)) = cd_prover (gv_data g)"
  by (auto simp: execute_challenge_def contract_challenge_def split: game_tx.splits sum.splits if_splits)

lemma execute_challenges_view [simp]:
  "gv_address (fold (execute_challenge rules time sender) xs g) = gv_address g"
  "gv_block (fold (execute_challenge rules time sender) xs g) = gv_block g"
  "cd_prover (gv_data (fold (execute_challenge rules time sender) xs g)) = cd_prover (gv_data g)"
  by (induction xs arbitrary: g) simp_all

lemma challengable_keccak:
  assumes "ge_keccak env = ge_keccak env'"
  shows "challengable env l2 = challengable env' l2"
  by (rule ext) (simp add: challengable_def game_matches_def true_root_def assms)

lemma window_map: "window (map f gs) n = map f (window gs n)"
  by (simp add: window_def drop_map)

lemma window_mem: "g \<in> set (window gs n) \<Longrightarrow> g \<in> set gs"
  unfolding window_def by (rule in_set_dropD)

lemma window_distinct: "distinct (map gv_address gs) \<Longrightarrow> distinct (map gv_address (window gs n))"
  by (simp add: window_def drop_map [symmetric])

text \<open>An executed challenge of the first match, from an allowed sender, with the bond and in time, leaves one match less.\<close>

lemma challenge_one_less:
  assumes "distinct (map gv_address hs)" and "oldest_game (challengable env l2) hs = Some a"
    and allowed: "ru_allowed_challenger rules sender"
    and "\<forall>g\<in>set hs. challengable env l2 g \<longrightarrow> \<not> contract_game_over time (gv_data g)"
  shows "Suc (length (filter (challengable env l2)
      (map (execute_challenge rules time sender (ChallengeGame a (ru_challenger_bond rules))) hs)))
    = length (filter (challengable env l2) hs)"
  using assms(1,2,4)
proof (induction hs)
  case Nil
  then show ?case by (simp add: oldest_game_def)
next
  case (Cons g hs)
  let ?x = "ChallengeGame a (ru_challenger_bond rules)"
  show ?case
  proof (cases "challengable env l2 g")
    case True
    then have a: "a = gv_address g" using Cons.prems(2) by (simp add: oldest_game_def)
    have "\<not> contract_game_over time (gv_data g)" using Cons.prems(3) True by simp
    moreover have "cd_status (gv_data g) = Unchallenged" using True by (simp add: challengable_def game_matches_def)
    ultimately have "cd_status (gv_data (execute_challenge rules time sender ?x g)) = Challenged"
      using allowed by (simp add: execute_challenge_def a contract_challenge_def)
    then have "\<not> challengable env l2 (execute_challenge rules time sender ?x g)"
      by (simp add: challengable_def game_matches_def)
    moreover have "map (execute_challenge rules time sender ?x) hs = hs"
    proof (rule map_idI)
      fix h assume "h \<in> set hs"
      then have "gv_address h \<in> gv_address ` set hs" by (rule imageI)
      then have "a \<noteq> gv_address h" using Cons.prems(1) a by auto
      then show "execute_challenge rules time sender ?x h = h" by (simp add: execute_challenge_def)
    qed
    ultimately show ?thesis
      using True by (simp only: list.map filter.simps if_True if_False list.size)
  next
    case False
    then have rest: "oldest_game (challengable env l2) hs = Some a"
      using Cons.prems(2) by (simp add: oldest_game_def)
    then obtain h where "find (challengable env l2) hs = Some h" "gv_address h = a"
      by (auto simp: oldest_game_def)
    then have "h \<in> set hs" by (auto simp: find_Some_iff)
    then have "a \<in> gv_address ` set hs" using \<open>gv_address h = a\<close> by blast
    moreover have "gv_address g \<notin> gv_address ` set hs" using Cons.prems(1) by simp
    ultimately have "a \<noteq> gv_address g" by blast
    then have "execute_challenge rules time sender ?x g = g" by (simp add: execute_challenge_def)
    then show ?thesis using Cons.IH [OF _ rest] Cons.prems(1,3) False by simp
  qed
qed

lemma no_match_no_open:
  "oldest_game (challengable env l2) hs = None \<Longrightarrow> length (filter (challengable env l2) hs) = 0"
  by (simp add: oldest_game_def find_None_iff filter_empty_conv)

text \<open>The contract does not consider a game over that the challenger may still challenge.\<close>

definition in_time :: "game_env \<Rightarrow> l2_view \<Rightarrow> int \<Rightarrow> game_view list \<Rightarrow> bool" where
  "in_time env l2 time gs \<longleftrightarrow> (\<forall>g\<in>set gs. challengable env l2 g \<longrightarrow> \<not> contract_game_over time (gv_data g))"

lemma challenge_round:
  assumes rounds: "challenge_rounds rules c l2 env time executed gs st" and c: "honest c"
    and n: "0 \<le> cc_max_games_to_check_for_challenge (ch_config c)"
    and d: "distinct (map gv_address (gs k))"
    and bond: "ch_bond c = ru_challenger_bond rules" and allowed: "ru_allowed_challenger rules (ch_address c)"
    and in_time: "in_time (env 0) l2 (time k) (gs k)"
  shows "open_wrong (env 0) l2 (cc_max_games_to_check_for_challenge (ch_config c)) (gs (Suc k))
      = open_wrong (env 0) l2 (cc_max_games_to_check_for_challenge (ch_config c)) (gs k) - (if executed k then 1 else 0)"
proof -
  let ?n = "cc_max_games_to_check_for_challenge (ch_config c)" and ?c = "c\<lparr>ch_env := env k\<rparr>"
  have stable: "stable_games (ch_env ?c) l2 (gs k)"
    and keccak: "ge_keccak (env k) = ge_keccak (env 0)"
    and step: "st (Suc k) = snd (handle_game_challenging ?c (st k))"
    and games: "gs (Suc k) = (if executed k then map (fold (execute_challenge rules (time k) (ch_address c))
      (drop (length (sent (st k))) (sent (st (Suc k))))) (gs k) else gs k)"
    using rounds unfolding challenge_rounds_def by simp_all
  have "honest ?c" "0 \<le> cc_max_games_to_check_for_challenge (ch_config ?c)"
    using c n by (simp_all add: honest_def)
  note sent = handle_game_challenging_sent [OF stable this, of "st k" "fst (handle_game_challenging ?c (st k))" "st (Suc k)"]
  have same: "challengable (env k) l2 = challengable (env 0) l2" by (rule challengable_keccak [OF keccak])
  have new: "drop (length (sent (st k))) (sent (st (Suc k)))
      = (case oldest_game (challengable (env 0) l2) (window (gs k) ?n)
           of None \<Rightarrow> [] | Some game \<Rightarrow> [ChallengeGame game (ch_bond c)])"
  proof -
    have "ch_bond ?c = ch_bond c" "cc_max_games_to_check_for_challenge (ch_config ?c) = ?n" "ch_env ?c = env k"
      by simp_all
    then show ?thesis using sent unfolding step by (simp only: prod.collapse same append_eq_conv_conj) simp
  qed
  show ?thesis
  proof (cases "oldest_game (challengable (env 0) l2) (window (gs k) ?n)")
    case None
    then have "gs (Suc k) = gs k" using games new by (simp add: map_idI)
    then show ?thesis using no_match_no_open [OF None] by (simp add: open_wrong_def)
  next
    case (Some a)
    show ?thesis
    proof (cases "executed k")
      case False
      then show ?thesis using games by simp
    next
      case True
      then have "gs (Suc k) = map (execute_challenge rules (time k) (ch_address c) (ChallengeGame a (ru_challenger_bond rules))) (gs k)"
        using games new Some bond by simp
      moreover have "\<forall>g\<in>set (window (gs k) ?n). challengable (env 0) l2 g \<longrightarrow> \<not> contract_game_over (time k) (gv_data g)"
        using in_time window_mem unfolding in_time_def by blast
      ultimately show ?thesis
        using challenge_one_less [OF window_distinct [OF d] Some allowed, of "time k"] True
        by (simp add: open_wrong_def window_map)
    qed
  qed
qed

lemma card_lessThan_Suc_filter:
  "card {i. i < Suc k \<and> P i} = card {i. i < k \<and> P i} + (if P k then 1 else 0)"
proof -
  have "{i. i < Suc k \<and> P i} = {i. i < k \<and> P i} \<union> (if P k then {k} else {})" by (auto simp: less_Suc_eq)
  then show ?thesis by (auto simp: card_insert_if)
qed

lemma challenge_rounds_progress:
  assumes rounds: "challenge_rounds rules c l2 env time executed gs st" and c: "honest c"
    and n: "0 \<le> cc_max_games_to_check_for_challenge (ch_config c)"
    and d: "distinct (map gv_address (gs 0))"
    and bond: "ch_bond c = ru_challenger_bond rules" and allowed: "ru_allowed_challenger rules (ch_address c)"
    and in_time: "\<And>k. in_time (env 0) l2 (time k) (gs k)"
  shows "distinct (map gv_address (gs k)) \<and>
    open_wrong (env 0) l2 (cc_max_games_to_check_for_challenge (ch_config c)) (gs k)
      = open_wrong (env 0) l2 (cc_max_games_to_check_for_challenge (ch_config c)) (gs 0) - card {i. i < k \<and> executed i}"
proof (induction k)
  case 0
  then show ?case using d by simp
next
  case (Suc k)
  have "gs (Suc k) = (if executed k then map (fold (execute_challenge rules (time k) (ch_address c))
      (drop (length (sent (st k))) (sent (st (Suc k))))) (gs k) else gs k)"
    using rounds unfolding challenge_rounds_def by blast
  then have "map gv_address (gs (Suc k)) = map gv_address (gs k)" by (simp add: comp_def)
  then show ?case
    using Suc challenge_round [OF rounds c n _ bond allowed in_time, of k]
    by (simp add: card_lessThan_Suc_filter)
qed

lemma successful_rounds_executed:
  assumes "challenge_rounds rules c l2 env time executed gs st"
  shows "card {i. i < k \<and> is_ok (fst (handle_game_challenging (c\<lparr>ch_env := env i\<rparr>) (st i)))} \<le> card {i. i < k \<and> executed i}"
  using assms unfolding challenge_rounds_def by (intro card_mono) auto

lemma challenger_new_bond:
  assumes "challenger_new c0 s = (Ok c, s')" and "\<And>impl t b. ge_challenger_bond (ch_env c0) impl t = Inr b \<Longrightarrow> b = bond"
  shows "ch_bond c = bond" "ch_config c = ch_config c0" "ch_address c = ch_address c0"
  using assms
  by (auto simp: challenger_new_def fetch_challenger_bond_def andThen_def call_def ret_def split: sum.splits)

subsection \<open>Properties\<close>

text \<open>C22. An honest challenger, on contracts and a node that do not change during the call,
  challenges exactly the oldest game of its window that is unchallenged, before its deadline and
  has a claim other than the true output root, with the challenger bond, and sends nothing else;
  in particular a game with a correct claim is never challenged.\<close>

theorem honest_challenges_oldest_wrong:
  assumes "stable_games (ch_env c) l2 gs" and "honest c"
    and "0 \<le> cc_max_games_to_check_for_challenge (ch_config c)"
    and "handle_game_challenging c s = (x, s')"
  shows "sent s' = sent s @
      (case oldest_game (challengable (ch_env c) l2) (window gs (cc_max_games_to_check_for_challenge (ch_config c)))
         of None \<Rightarrow> [] | Some game \<Rightarrow> [ChallengeGame game (ch_bond c)])
    \<and> (\<forall>g. challengable (ch_env c) l2 g \<longrightarrow> \<not> valid_claim (ch_env c) l2 g)"
  using handle_game_challenging_sent [OF assms]
  by (simp add: challengable_def game_matches_def valid_claim_def)

definition sample_challenger :: challenger where
  "sample_challenger =
     \<lparr>ch_config = \<lparr>cc_game_type = 42, cc_max_games_to_check_for_challenge = 3,
        cc_enable_game_resolution = True, cc_max_games_to_check_for_resolution = 3,
        cc_max_games_to_check_for_bond_claiming = 3, cc_malicious_challenge_percentage = 0\<rparr>,
      ch_env = view_env sample_l2 sample_games, ch_address = [8], ch_bond = 9, ch_random = (\<lambda>_. 50)\<rparr>"

lemma sample_challenger_simps [simp]:
  "ch_env sample_challenger = view_env sample_l2 sample_games" "ch_bond sample_challenger = 9"
  "cc_max_games_to_check_for_challenge (ch_config sample_challenger) = 3" "honest sample_challenger"
  "ch_address sample_challenger = [8]" "cc_game_type (ch_config sample_challenger) = 42"
  by (simp_all add: sample_challenger_def honest_def)

theorem honest_challenges_oldest_wrong_witness:
  "\<exists>x s'. handle_game_challenging sample_challenger sample_fault_world = (x, s') \<and>
     sent s' = [ChallengeGame [12] 9]"
proof -
  obtain x s' where run: "handle_game_challenging sample_challenger sample_fault_world = (x, s')" by fastforce
  have "oldest_game (challengable (view_env sample_l2 sample_games) sample_l2) (window sample_games 3) = Some [12]"
    by (simp add: challengable_def sample_games_def oldest_game_def game_matches_def window_def sample_root sat_sub_def)
  then show ?thesis
    using honest_challenges_oldest_wrong [of sample_challenger sample_l2 sample_games, OF _ _ _ run]
      sample_games_stable run
    by (simp add: sample_fault_world_def)
qed

text \<open>C10. (liveness) A challenger that has read its bond from the game implementation, is whitelisted and honest
  makes progress on a chain whose games only change by its own transactions: with every round whose
  transaction is executed, as long as the contract does not consider the games over, the contract's
  \<open>challenge()\<close> accepts it, and the number of open games with a wrong claim in its window is one less; a
  round without an executed transaction leaves it as it is. So it is 0 once as many rounds have succeeded as there
  were such games, however many rounds in between have failed.\<close>

theorem every_wrong_game_challenged:
  assumes "challenger_new c0 s = (Ok c, s')"
    and "\<And>impl t b. ge_challenger_bond (ch_env c0) impl t = Inr b \<Longrightarrow> b = ru_challenger_bond rules"
    and "ru_allowed_challenger rules (ch_address c0)" and "honest c0"
    and "0 \<le> cc_max_games_to_check_for_challenge (ch_config c0)"
    and "challenge_rounds rules c l2 env time executed gs st" and "distinct (map gv_address (gs 0))"
    and "\<And>k. in_time (env 0) l2 (time k) (gs k)"
  shows "let n = cc_max_games_to_check_for_challenge (ch_config c) in
      open_wrong (env 0) l2 n (gs k) = open_wrong (env 0) l2 n (gs 0) - card {i. i < k \<and> executed i} \<and>
      (open_wrong (env 0) l2 n (gs 0) \<le> card {i. i < k \<and> is_ok (fst (handle_game_challenging (c\<lparr>ch_env := env i\<rparr>) (st i)))} \<longrightarrow>
        open_wrong (env 0) l2 n (gs k) = 0)"
proof -
  note new = challenger_new_bond [OF assms(1,2)]
  have "honest c" "0 \<le> cc_max_games_to_check_for_challenge (ch_config c)" "ru_allowed_challenger rules (ch_address c)"
    using assms(3-5) new by (simp_all add: honest_def)
  from challenge_rounds_progress [OF assms(6) this(1,2) assms(7) new(1) this(3) assms(8), where k = k]
    successful_rounds_executed [OF assms(6), of k]
  show ?thesis by (auto simp: Let_def)
qed

text \<open>Rounds of the sample: the send of the first fails, later ones are executed.\<close>

definition sample_rules :: game_rules where
  "sample_rules = \<lparr>ru_challenger_bond = 9, ru_max_prove_duration = 50, ru_allowed_challenger = (\<lambda>a. a = [8])\<rparr>"

definition round_env :: "nat \<Rightarrow> game_view list \<Rightarrow> game_env" where
  "round_env k gs = (view_env sample_l2 gs)
     \<lparr>ge_send := \<lambda>x t. if k = 0 then Inl TxError else Inr \<lparr>gr_success = True, gr_hash = [7], gr_created = []\<rparr>\<rparr>"

lemma round_root: "true_root (round_env k gs) sample_l2 n = [word_of_int n]"
  using sample_root [of gs n] by (simp add: true_root_def round_env_def)

fun sample_rounds :: "nat \<Rightarrow> game_view list \<times> fault_world" where
  "sample_rounds 0 = (sample_games, sample_fault_world)"
| "sample_rounds (Suc k) =
     (let (gs, s) = sample_rounds k;
          s' = snd (handle_game_challenging (sample_challenger\<lparr>ch_env := round_env k gs\<rparr>) s)
      in (if k \<noteq> 0 then map (fold (execute_challenge sample_rules 100 [8]) (drop (length (sent s)) (sent s'))) gs else gs, s'))"

lemma sample_rounds_games:
  "map gv_address (fst (sample_rounds k)) = map gv_address sample_games \<and>
   map gv_block (fst (sample_rounds k)) = map gv_block sample_games \<and>
   (\<forall>g\<in>set (fst (sample_rounds k)). cd_prover (gv_data g) = address_zero)"
proof (induction k)
  case 0
  then show ?case by (simp add: sample_games_def sample_game_def)
next
  case (Suc k)
  then show ?case by (auto simp: case_prod_beta Let_def comp_def)
qed

lemma sample_rounds_stable: "stable_games (round_env k (fst (sample_rounds k))) sample_l2 (fst (sample_rounds k))"
proof -
  have a: "map gv_address (fst (sample_rounds k)) = map gv_address sample_games"
    and b: "map gv_block (fst (sample_rounds k)) = map gv_block sample_games"
    using sample_rounds_games by blast+
  have "stable_games (view_env sample_l2 (fst (sample_rounds k))) sample_l2 (fst (sample_rounds k))"
  proof (rule view_env_stable)
    show "distinct (map gv_address (fst (sample_rounds k)))" unfolding a by (simp add: sample_games_def)
    have "length (fst (sample_rounds k)) = length sample_games" using a map_eq_imp_length_eq by blast
    then show "int (length (fst (sample_rounds k))) \<le> u256_max" by (simp add: sample_games_def u256_max_def)
    have "gv_block ` set (fst (sample_rounds k)) = gv_block ` set sample_games" using b by (metis set_map)
    then have "\<forall>b \<in> gv_block ` set (fst (sample_rounds k)). b \<le> u64_max"
      by (simp add: sample_games_def u64_max_def)
    then show "\<forall>g \<in> set (fst (sample_rounds k)). gv_block g \<le> u64_max" by blast
  qed
  then show ?thesis by (simp add: round_env_def stable_games_def stable_game_def)
qed

lemma sample_first_round_fails:
  "\<not> is_ok (fst (handle_game_challenging (sample_challenger\<lparr>ch_env := round_env 0 sample_games\<rparr>) sample_fault_world))"
proof -
  let ?env = "round_env 0 sample_games"
  have st: "stable_games ?env sample_l2 sample_games" using sample_rounds_stable [of 0] by simp
  have "oldest_game (challengable ?env sample_l2) (window sample_games 3) = Some [12]"
    by (simp add: challengable_def sample_games_def oldest_game_def game_matches_def window_def round_root sat_sub_def)
  then obtain k where "get_oldest_challengable_game_address ?env 3 sample_fault_world = (Inr (Some [12]), sample_fault_world\<lparr>tick := k\<rparr>)"
    unfolding get_oldest_challengable_game_address_def challengable_def
    by (metis answersE [OF oldest_game_answers [OF st, of 3]] zero_le_numeral)
  then show ?thesis
    by (simp add: handle_game_challenging_def andThen_def challenge_game_def send_game_tx_def update_def call_def round_env_def)
qed

lemma sample_rounds_ok:
  "challenge_rounds sample_rules sample_challenger sample_l2 (\<lambda>k. round_env k (fst (sample_rounds k))) (\<lambda>_. 100) (\<lambda>k. k \<noteq> 0)
     (\<lambda>k. fst (sample_rounds k)) (\<lambda>k. snd (sample_rounds k))"
proof -
  have "ge_keccak (round_env j gs) = ge_keccak (round_env k hs)" for j k gs hs
    by (simp add: round_env_def view_env_def)
  then show ?thesis
    unfolding challenge_rounds_def using sample_rounds_stable sample_first_round_fails
    by (auto simp: case_prod_beta Let_def)
qed

theorem every_wrong_game_challenged_witness:
  "let env = round_env 0 sample_games in
   open_wrong env sample_l2 3 (fst (sample_rounds 1)) = 1 \<and> open_wrong env sample_l2 3 (fst (sample_rounds 2)) = 0"
proof -
  let ?env = "round_env 0 sample_games"
  have new: "\<exists>s'. challenger_new (sample_challenger\<lparr>ch_bond := 0\<rparr>) sample_fault_world = (Ok sample_challenger, s')"
    by (simp add: challenger_new_def fetch_challenger_bond_def andThen_def call_def ret_def sample_challenger_def view_env_def)
  then obtain s' where new: "challenger_new (sample_challenger\<lparr>ch_bond := 0\<rparr>) sample_fault_world = (Ok sample_challenger, s')" by blast
  have open_one: "open_wrong ?env sample_l2 3 sample_games = 1"
    by (simp add: open_wrong_def challengable_def sample_games_def game_matches_def window_def round_root sat_sub_def)
  have in_time: "in_time ?env sample_l2 100 (fst (sample_rounds k))" for k
    using sample_rounds_games [of k]
    by (auto simp: in_time_def challengable_def game_matches_def contract_game_over_def)
  have rounds: "open_wrong ?env sample_l2 3 (fst (sample_rounds k)) = 1 - card {i. i < k \<and> i \<noteq> 0}" for k
    using every_wrong_game_challenged [OF new _ _ _ _ sample_rounds_ok, of k] in_time open_one
    by (simp add: Let_def view_env_def sample_rules_def honest_def sample_challenger_def sample_games_def)
  have "{i. i < (1::nat) \<and> i \<noteq> 0} = {}" "{i. i < (2::nat) \<and> i \<noteq> 0} = {1}" by auto
  then show ?thesis using rounds [of 1] rounds [of 2] by (simp only: Let_def) simp
qed

end
