(* ===== verification/Celestia.thy ===== *)
theory Celestia
  imports Host
begin

text \<open>
  The Celestia instance of the host, \<open>utils/celestia/host/src/blobstream_utils.rs\<close> and \<open>host.rs\<close>:
  the L1 block in which Blobstream has committed to the Celestia height of an L2 block, the
  highest L2 block for which there is one, and the host trait. The indexer, the L1 node and the
  decoding of Blobstream events are the record \<open>celestia_env\<close>.
\<close>

subsection \<open>What the outside answers\<close>

record celestia_location =
  cl_height :: int
  cl_commitment :: string
  cl_l2_start :: int
  cl_l2_end :: int
  cl_l1_block :: int

text \<open>
  The JSON answer of the indexer: the \<open>error\<close> member with its \<open>message\<close>, if it is a string, and
  the \<open>result\<close> member with the outcome of parsing it.
\<close>

record indexer_response =
  ir_error :: "string option option"
  ir_result :: "(error + celestia_location) option"

record log =
  log_address :: address
  log_block_number :: "int option"
  log_topics :: nat
  log_payload :: bytes

record celestia_env =
  ce_rpc :: rpc_env
  ce_indexer :: "int \<Rightarrow> nat \<Rightarrow> error + indexer_response"
  ce_block_number :: "nat \<Rightarrow> error + int"
  ce_logs :: "address \<Rightarrow> int \<Rightarrow> int \<Rightarrow> nat \<Rightarrow> error + log list"
  ce_blobstream_address :: "int \<Rightarrow> address option"
  ce_decode :: "log \<Rightarrow> error + int \<times> int"

record celestia_safe_head =
  l1_block_number :: int
  l2_safe_head_number :: int

definition get_l1_hash :: "(header \<Rightarrow> b256) \<Rightarrow> celestia_env \<Rightarrow> celestia_safe_head \<Rightarrow> ('z io_scheme, b256) op" where
  "get_l1_hash hh ce h =
     andThen (get_l1_header (ce_rpc ce) (ByNumber (l1_block_number h))) (\<lambda>hdr. ret (hh hdr))"

subsection \<open>Blobstream events\<close>

text \<open>\<open>LogData::new\<close> gives \<open>None\<close> for more than four topics, and is unwrapped.\<close>

definition verify_data_commitment_event :: "celestia_env \<Rightarrow> log \<Rightarrow> int \<Rightarrow> bool res" where
  "verify_data_commitment_event ce lg target_celestia_height =
     res_bind (ensure (log_topics lg \<le> 4) ''unwrap'') (\<lambda>_.
       case ce_decode ce lg of
         Inl e \<Rightarrow> Err e
       | Inr (start_block, end_block) \<Rightarrow>
           Ok (start_block \<le> target_celestia_height \<and> target_celestia_height \<le> end_block))"

fun scan_logs :: "celestia_env \<Rightarrow> address \<Rightarrow> int \<Rightarrow> log list \<Rightarrow> int option res" where
  "scan_logs ce blobstream_addr celestia_height [] = Ok None"
| "scan_logs ce blobstream_addr celestia_height (lg # rest) =
     (if log_address lg = blobstream_addr
      then (case log_block_number lg of
              None \<Rightarrow> Err (Msg ''Log missing block number'')
            | Some l1_number \<Rightarrow>
                (case verify_data_commitment_event ce lg celestia_height of
                   Inr True \<Rightarrow> Ok (Some l1_number)
                 | Inr False \<Rightarrow> scan_logs ce blobstream_addr celestia_height rest
                 | Inl (Failure e) \<Rightarrow> scan_logs ce blobstream_addr celestia_height rest
                 | Inl f \<Rightarrow> Inl f))
      else scan_logs ce blobstream_addr celestia_height rest)"

definition filter_block_range :: int where "filter_block_range = 5000"

partial_function (option) blobstream_loop ::
  "celestia_env \<Rightarrow> address \<Rightarrow> int \<Rightarrow> int \<Rightarrow> int \<Rightarrow> 'z io_scheme \<Rightarrow> (int res \<times> 'z io_scheme) option" where
  "blobstream_loop ce addr celestia_height latest_block current_start s =
     (let current_end = min (wrap_u64 (wrap_u64 (current_start + filter_block_range) - 1)) latest_block in
      case call (ce_logs ce addr current_start current_end) s of
        (Inl e, s') \<Rightarrow> Some (Inl e, s')
      | (Inr logs, s') \<Rightarrow>
          (case scan_logs ce addr celestia_height logs of
             Inl e \<Rightarrow> Some (Inl e, s')
           | Inr (Some l1_number) \<Rightarrow> Some (Ok l1_number, s')
           | Inr None \<Rightarrow>
               (if latest_block < wrap_u64 (current_end + 1)
                then Some (Err (Msg ''Reached latest block without finding Blobstream proof''), s')
                else blobstream_loop ce addr celestia_height latest_block (wrap_u64 (current_end + 1)) s')))"

definition find_minimum_blobstream_block ::
  "celestia_env \<Rightarrow> ('cfg \<Rightarrow> int) \<Rightarrow> 'cfg data_fetcher \<Rightarrow> int \<Rightarrow> int \<Rightarrow> ('z io_scheme, int) op" where
  "find_minimum_blobstream_block ce l1_chain_id_of f celestia_height start_block =
     andThen (lift (unwrap (df_rollup_config f) ''unwrap'')) (\<lambda>cfg.
     case ce_blobstream_address ce (l1_chain_id_of cfg) of
       None \<Rightarrow> throw (Failure (Msg ''No Blobstream address found for chain ID''))
     | Some addr \<Rightarrow>
         andThen (call (ce_block_number ce)) (\<lambda>latest_block.
           run_loop (blobstream_loop ce addr celestia_height latest_block start_block)))"

subsection \<open>The indexer\<close>

definition contains :: "string \<Rightarrow> string \<Rightarrow> bool" where
  "contains needle s \<longleftrightarrow> list_ex (\<lambda>i. take (length needle) (drop i s) = needle) [0..<Suc (length s)]"

definition query_celestia_indexer :: "celestia_env \<Rightarrow> int \<Rightarrow> ('z io_scheme, celestia_location option) op" where
  "query_celestia_indexer ce block =
     andThen (call (ce_indexer ce block)) (\<lambda>r.
       case ir_error r of
         Some msg \<Rightarrow>
           (case msg of
              Some m \<Rightarrow> if contains ''not found'' m then ret None else throw (Failure (Msg ''Indexer RPC error''))
            | None \<Rightarrow> throw (Failure (Msg ''Indexer RPC error'')))
       | None \<Rightarrow>
           (case ir_result r of
              None \<Rightarrow> throw (Failure (Msg ''No result in indexer response''))
            | Some (Inl e) \<Rightarrow> throw (Failure (Msg ''Failed to parse Celestia location response''))
            | Some (Inr loc) \<Rightarrow> ret (Some loc)))"

definition get_celestia_safe_head_info ::
  "celestia_env \<Rightarrow> ('cfg \<Rightarrow> int) \<Rightarrow> 'cfg data_fetcher \<Rightarrow> int \<Rightarrow> ('z io_scheme, celestia_safe_head option) op" where
  "get_celestia_safe_head_info ce l1_chain_id_of f l2_reference_block =
     onErr (query_celestia_indexer ce l2_reference_block)
       (\<lambda>r. case r of
          Some location \<Rightarrow>
            onErr (find_minimum_blobstream_block ce l1_chain_id_of f (cl_height location) (cl_l1_block location))
              (\<lambda>safe_l1_block. ret (Some \<lparr>l1_block_number = safe_l1_block, l2_safe_head_number = l2_reference_block\<rparr>))
              (\<lambda>e. throw (Failure (Msg ''Failed to find Blobstream proof for Celestia height'')))
        | None \<Rightarrow> throw (Failure (Msg ''Celestia indexer has no data for L2 block'')))
       (\<lambda>e. throw (Failure (Msg ''Celestia indexer error'')))"

subsection \<open>The highest provable L2 block\<close>

partial_function (option) highest_loop ::
  "(int \<Rightarrow> ('z io_scheme, celestia_safe_head option) op) \<Rightarrow> int \<Rightarrow> int \<Rightarrow> int option \<Rightarrow> 'z io_scheme
     \<Rightarrow> (int option res \<times> 'z io_scheme) option" where
  "highest_loop info low high result s =
     (if low \<le> high
      then (case attempt (info (low + (high - low) div 2)) s of
              (Inl e, s') \<Rightarrow> Some (Inl e, s')
            | (Inr (Inr (Some _)), s') \<Rightarrow>
                highest_loop info (wrap_u64 (low + (high - low) div 2 + 1)) high
                  (Some (low + (high - low) div 2)) s'
            | (Inr (Inr None), s') \<Rightarrow>
                highest_loop info low (wrap_u64 (low + (high - low) div 2 - 1)) result s'
            | (Inr (Inl e), s') \<Rightarrow>
                highest_loop info low (wrap_u64 (low + (high - low) div 2 - 1)) result s')
      else Some (Ok result, s))"

definition get_highest_finalized_l2_block ::
  "celestia_env \<Rightarrow> ('cfg \<Rightarrow> int) \<Rightarrow> 'cfg data_fetcher \<Rightarrow> int \<Rightarrow> ('z io_scheme, int option) op" where
  "get_highest_finalized_l2_block ce l1_chain_id_of f latest_proposed_block_number =
     andThen (get_l2_header (ce_rpc ce) Finalized) (\<lambda>h.
       run_loop (highest_loop (get_celestia_safe_head_info ce l1_chain_id_of f)
         latest_proposed_block_number (number h) None))"

subsection \<open>The host\<close>

record celestia_cfg =
  celestia_connection :: "string option"
  auth_token :: "string option"
  namespace :: "string option"

record celestia_chain_host =
  single_host :: single_chain_host
  celestia_args :: celestia_cfg

definition celestia_safe_l1_head ::
  "(header \<Rightarrow> b256) \<Rightarrow> celestia_env \<Rightarrow> ('cfg \<Rightarrow> int) \<Rightarrow> 'cfg data_fetcher \<Rightarrow> int \<Rightarrow> bool \<Rightarrow> ('z io_scheme, b256) op" where
  "celestia_safe_l1_head hh ce l1_chain_id_of f l2_end_block fb =
     andThen (get_celestia_safe_head_info ce l1_chain_id_of f l2_end_block) (\<lambda>r.
       case r of
         Some safe_head \<Rightarrow> get_l1_hash hh ce safe_head
       | None \<Rightarrow> throw (Failure (Msg ''Failed to find a safe L1 block for the given L2 block.'')))"

definition celestia_fetch ::
  "(header \<Rightarrow> b256) \<Rightarrow> (b256 \<Rightarrow> b256 \<Rightarrow> b256 \<Rightarrow> b256) \<Rightarrow> celestia_env \<Rightarrow> ('cfg \<Rightarrow> int) \<Rightarrow> 'cfg data_fetcher
     \<Rightarrow> celestia_cfg \<Rightarrow> int \<Rightarrow> int \<Rightarrow> b256 option \<Rightarrow> bool \<Rightarrow> ('z io_scheme, celestia_chain_host) op" where
  "celestia_fetch hh output_hash ce l1_chain_id_of f vars l2_start l2_end l1_head_hash fb =
     andThen (case l1_head_hash of Some h \<Rightarrow> ret h | None \<Rightarrow> celestia_safe_l1_head hh ce l1_chain_id_of f l2_end fb) (\<lambda>h.
     andThen (get_host_args output_hash (ce_rpc ce) f l2_start l2_end h) (\<lambda>host.
       ret \<lparr>single_host = host, celestia_args = vars\<rparr>))"

definition celestia_host ::
  "(header \<Rightarrow> b256) \<Rightarrow> (b256 \<Rightarrow> b256 \<Rightarrow> b256 \<Rightarrow> b256) \<Rightarrow> celestia_env \<Rightarrow> ('cfg \<Rightarrow> int) \<Rightarrow> 'cfg data_fetcher
     \<Rightarrow> celestia_cfg \<Rightarrow> (celestia_chain_host, 'wit) kona_env \<Rightarrow> ('wit \<Rightarrow> error + 'stdin)
     \<Rightarrow> ('z io_scheme, celestia_chain_host, 'wit, 'stdin) succinct_host" where
  "celestia_host hh output_hash ce l1_chain_id_of f vars kona to_stdin =
     \<lparr>host_fetch = celestia_fetch hh output_hash ce l1_chain_id_of f vars,
      host_run = default_run kona,
      host_sp1_stdin = to_stdin,
      host_l1_head_hash = (\<lambda>args. Some (sch_l1_head (single_host args))),
      host_finalized_l2_block = get_highest_finalized_l2_block ce l1_chain_id_of f,
      host_safe_l1_head = celestia_safe_l1_head hh ce l1_chain_id_of f\<rparr>"

subsection \<open>Only reads\<close>

lemma blobstream_loop_tick:
  assumes "blobstream_loop ce addr h latest c s = Some (r, s')"
  shows "\<exists>k. s' = s\<lparr>tick := k\<rparr>"
proof -
  have "\<exists>k. snd (r, s') = s\<lparr>tick := k\<rparr>"
  proof (rule blobstream_loop.raw_induct [OF _ assms])
    fix loop :: "celestia_env \<Rightarrow> address \<Rightarrow> int \<Rightarrow> int \<Rightarrow> int \<Rightarrow> 'a io_scheme \<Rightarrow> (int res \<times> 'a io_scheme) option"
      and ce addr h latest c and s :: "'a io_scheme" and x :: "int res \<times> 'a io_scheme"
    assume IH: "\<And>ce addr h latest c s x. loop ce addr h latest c s = Some x \<Longrightarrow> \<exists>k. snd x = s\<lparr>tick := k\<rparr>"
    let ?e = "min (wrap_u64 (wrap_u64 (c + filter_block_range) - 1)) latest"
    assume run: "(let current_end = ?e in
      case call (ce_logs ce addr c current_end) s of
        (Inl e, s') \<Rightarrow> Some (Inl e, s')
      | (Inr logs, s') \<Rightarrow>
          (case scan_logs ce addr h logs of
             Inl e \<Rightarrow> Some (Inl e, s')
           | Inr None \<Rightarrow>
               (if latest < wrap_u64 (current_end + 1)
                then Some (Err (Msg ''Reached latest block without finding Blobstream proof''), s')
                else loop ce addr h latest (wrap_u64 (current_end + 1)) s')
           | Inr (Some l1_number) \<Rightarrow> Some (Ok l1_number, s'))) = Some x"
    then show "\<exists>k. snd x = s\<lparr>tick := k\<rparr>"
      by (auto simp: Let_def split: prod.splits sum.splits option.splits if_splits dest!: call_tick IH)
  qed
  then show ?thesis by simp
qed

lemma highest_loop_tick:
  assumes run: "highest_loop info low high res s = Some (r, s')" and reads: "\<And>n. tick_only (info n)"
  shows "\<exists>k. s' = s\<lparr>tick := k\<rparr>"
proof -
  have "(\<forall>n. tick_only (info n)) \<longrightarrow> (\<exists>k. snd (r, s') = s\<lparr>tick := k\<rparr>)"
  proof (rule highest_loop.raw_induct [OF _ run])
    fix loop :: "(int \<Rightarrow> ('a io_scheme, celestia_safe_head option) op) \<Rightarrow> int \<Rightarrow> int \<Rightarrow> int option \<Rightarrow> 'a io_scheme
        \<Rightarrow> (int option res \<times> 'a io_scheme) option"
      and info and low high :: int and res and s :: "'a io_scheme" and x :: "int option res \<times> 'a io_scheme"
    assume IH: "\<And>info low high res s x. loop info low high res s = Some x \<Longrightarrow>
        (\<forall>n. tick_only (info n)) \<longrightarrow> (\<exists>k. snd x = s\<lparr>tick := k\<rparr>)"
    let ?mid = "low + (high - low) div 2"
    assume step: "(if low \<le> high
      then (case attempt (info ?mid) s of
              (Inl e, s') \<Rightarrow> Some (Inl e, s')
            | (Inr (Inl e), s') \<Rightarrow> loop info low (wrap_u64 (?mid - 1)) res s'
            | (Inr (Inr None), s') \<Rightarrow> loop info low (wrap_u64 (?mid - 1)) res s'
            | (Inr (Inr (Some _)), s') \<Rightarrow> loop info (wrap_u64 (?mid + 1)) high (Some ?mid) s')
      else Some (Ok res, s)) = Some x"
    show "(\<forall>n. tick_only (info n)) \<longrightarrow> (\<exists>k. snd x = s\<lparr>tick := k\<rparr>)"
    proof
      assume reads: "\<forall>n. tick_only (info n)"
      obtain q t where q: "attempt (info ?mid) s = (q, t)" by fastforce
      obtain k where t: "t = s\<lparr>tick := k\<rparr>"
        using tick_onlyD [OF tick_only_attempt [OF spec [OF reads]] q] by blast
      have "\<exists>k. snd x = t\<lparr>tick := k\<rparr>" if "loop info a b c t = Some x" for a b c
        using IH [OF that] reads by blast
      then show "\<exists>k. snd x = s\<lparr>tick := k\<rparr>"
        using step q t
        by (auto split: if_splits sum.splits option.splits intro: tick_only_same)
    qed
  qed
  then show ?thesis using reads by simp
qed

lemma query_celestia_reads [tick_intros]: "tick_only (query_celestia_indexer ce n)"
  unfolding query_celestia_indexer_def by (intro tick_intros)

lemma find_minimum_reads [tick_intros]: "tick_only (find_minimum_blobstream_block ce lc f h b)"
  unfolding find_minimum_blobstream_block_def
  by (intro tick_intros) (erule blobstream_loop_tick)

lemma safe_head_info_reads [tick_intros]: "tick_only (get_celestia_safe_head_info ce lc f n)"
  unfolding get_celestia_safe_head_info_def by (intro tick_intros)

lemma highest_reads [tick_intros]: "tick_only (get_highest_finalized_l2_block ce lc f n)"
  unfolding get_highest_finalized_l2_block_def
  by (intro tick_intros) (erule highest_loop_tick, intro tick_intros)

lemma celestia_safe_l1_head_reads [tick_intros]: "tick_only (celestia_safe_l1_head hh ce lc f e fb)"
  unfolding celestia_safe_l1_head_def get_l1_hash_def by (intro tick_intros)

interpretation celestia: op_succinct_host "celestia_host hh output_hash ce lc f vars kona to_stdin"
  for hh output_hash ce lc f vars kona to_stdin
proof
  fix b e l1 hd fb n args and s s' :: "'z io_scheme"
  let ?h = "celestia_host hh output_hash ce lc f vars kona to_stdin"
  show "tick_only (host_fetch ?h b e hd fb)"
    unfolding celestia_host_def celestia_fetch_def succinct_host.simps by (intro tick_intros)
  show "tick_only (host_run ?h args)"
    unfolding celestia_host_def succinct_host.simps by (intro tick_intros)
  show "tick_only (host_finalized_l2_block ?h n)"
    unfolding celestia_host_def succinct_host.simps by (intro tick_intros)
  show "tick_only (host_safe_l1_head ?h e fb)"
    unfolding celestia_host_def succinct_host.simps by (intro tick_intros)
  show "host_fetch ?h b e (Some l1) fb s = (Inr args, s') \<Longrightarrow> host_l1_head_hash ?h args = Some l1"
    by (auto simp: celestia_host_def celestia_fetch_def andThen_eq_Ok ret_def dest!: get_host_args_head)
  show "host_fetch ?h b e None fb = andThen (host_safe_l1_head ?h e fb) (\<lambda>l1. host_fetch ?h b e (Some l1) fb)"
    by (simp add: celestia_host_def celestia_fetch_def)
qed

subsection \<open>The scan in batches is a scan of all logs\<close>

definition covers :: "celestia_env \<Rightarrow> int \<Rightarrow> log \<Rightarrow> bool" where
  "covers ce h lg \<longleftrightarrow> (case ce_decode ce lg of Inl e \<Rightarrow> False | Inr (a, b) \<Rightarrow> a \<le> h \<and> h \<le> b)"

definition in_block_range :: "int \<Rightarrow> int \<Rightarrow> log \<Rightarrow> bool" where
  "in_block_range a b lg \<longleftrightarrow> (case log_block_number lg of None \<Rightarrow> False | Some n \<Rightarrow> a \<le> n \<and> n \<le> b)"

text \<open>An L1 node that answers from one list of logs, in the order of their blocks.\<close>

definition stable_logs :: "celestia_env \<Rightarrow> address \<Rightarrow> int \<Rightarrow> log list \<Rightarrow> bool" where
  "stable_logs ce addr latest logs \<longleftrightarrow>
     (\<forall>t. ce_block_number ce t = Inr latest) \<and> 0 \<le> latest \<and> latest + filter_block_range < u64_max \<and>
     (\<forall>a b t. ce_logs ce addr a b t = Inr (filter (in_block_range a b) logs)) \<and>
     sorted (map (\<lambda>lg. the (log_block_number lg)) logs) \<and>
     (\<forall>lg \<in> set logs. log_topics lg \<le> 4 \<and> log_block_number lg \<noteq> None)"

definition first_commitment :: "celestia_env \<Rightarrow> address \<Rightarrow> int \<Rightarrow> int \<Rightarrow> int \<Rightarrow> log list \<Rightarrow> log option" where
  "first_commitment ce addr h start latest logs =
     find (\<lambda>lg. log_address lg = addr \<and> covers ce h lg) (filter (in_block_range start latest) logs)"

lemma scan_logs_find:
  "\<forall>lg \<in> set logs. log_topics lg \<le> 4 \<and> log_block_number lg \<noteq> None \<Longrightarrow>
   scan_logs ce addr h logs = Ok (map_option (\<lambda>lg. the (log_block_number lg))
     (find (\<lambda>lg. log_address lg = addr \<and> covers ce h lg) logs))"
  by (induction logs)
    (auto simp: verify_data_commitment_event_def ensure_def covers_def split: sum.splits)

lemma in_block_range_split:
  assumes "sorted (map (\<lambda>lg. the (log_block_number lg)) logs)"
    and "\<forall>lg \<in> set logs. log_block_number lg \<noteq> None" and "a \<le> e + 1" and "e \<le> b"
  shows "filter (in_block_range a b) logs = filter (in_block_range a e) logs @ filter (in_block_range (e + 1) b) logs"
  using assms(1,2)
proof (induction logs)
  case (Cons lg logs)
  obtain n where n: "log_block_number lg = Some n" using Cons.prems(2) by auto
  have IH: "filter (in_block_range a b) logs = filter (in_block_range a e) logs @ filter (in_block_range (e + 1) b) logs"
    using Cons by simp
  show ?case
  proof (cases "n \<le> e")
    case True
    then have "in_block_range a b lg = in_block_range a e lg" "\<not> in_block_range (e + 1) b lg"
      using assms(4) n by (auto simp: in_block_range_def)
    then show ?thesis using IH by simp
  next
    case False
    have "filter (in_block_range a e) logs = []"
      using Cons.prems False n by (fastforce simp: filter_empty_conv in_block_range_def split: option.splits)
    moreover have "\<not> in_block_range a e lg" "in_block_range a b lg = in_block_range (e + 1) b lg"
      using False assms(3) n by (auto simp: in_block_range_def)
    ultimately show ?thesis using IH by simp
  qed
qed simp

lemma find_append: "find P (xs @ ys) = (case find P xs of None \<Rightarrow> find P ys | Some x \<Rightarrow> Some x)"
  by (induction xs) simp_all

lemma blobstream_loop_finds:
  assumes st: "stable_logs ce addr latest logs"
  shows "0 \<le> c \<Longrightarrow> c \<le> latest + 1 \<Longrightarrow>
    \<exists>k. blobstream_loop ce addr h latest c s =
      Some (case first_commitment ce addr h c latest logs of
              Some lg \<Rightarrow> Ok (the (log_block_number lg))
            | None \<Rightarrow> Err (Msg ''Reached latest block without finding Blobstream proof''),
            s\<lparr>tick := k\<rparr>)"
proof (induction "nat (latest + 1 - c)" arbitrary: c s rule: less_induct)
  case less
  let ?e = "min (c + 4999) latest"
  have fit: "latest + 5000 < u64_max" "0 \<le> latest" using st by (simp_all add: stable_logs_def filter_block_range_def)
  have "is_u64 (c + 5000)" "is_u64 (c + 5000 - 1)" "is_u64 (?e + 1)"
    using less.prems fit by (auto simp: is_u64_def)
  then have w: "min (wrap_u64 (wrap_u64 (c + filter_block_range) - 1)) latest = ?e" "wrap_u64 (?e + 1) = ?e + 1"
    by (simp_all add: filter_block_range_def)
  have logs: "call (ce_logs ce addr c ?e) s = (Inr (filter (in_block_range c ?e) logs), s\<lparr>tick := Suc (tick s)\<rparr>)"
    using st by (simp add: call_def stable_logs_def)
  have ok: "\<forall>lg \<in> set logs. log_topics lg \<le> 4 \<and> log_block_number lg \<noteq> None" and sorted: "sorted (map (\<lambda>lg. the (log_block_number lg)) logs)"
    using st by (simp_all add: stable_logs_def)
  let ?found = "find (\<lambda>lg. log_address lg = addr \<and> covers ce h lg) (filter (in_block_range c ?e) logs)"
  have scan: "scan_logs ce addr h (filter (in_block_range c ?e) logs)
      = Ok (map_option (\<lambda>lg. the (log_block_number lg)) ?found)"
    using ok by (intro scan_logs_find) simp
  have split: "first_commitment ce addr h c latest logs
      = (case ?found of None \<Rightarrow> first_commitment ce addr h (?e + 1) latest logs | Some lg \<Rightarrow> Some lg)"
    unfolding first_commitment_def
    using in_block_range_split [OF sorted, of c ?e latest] ok less.prems by (simp add: find_append)
  note unfold = blobstream_loop.simps [of ce addr h latest c s] Let_def w logs prod.case sum.case scan
  show ?case
  proof (cases ?found)
    case (Some lg)
    then show ?thesis unfolding unfold split by (auto intro: exI)
  next
    case None
    show ?thesis
    proof (cases "latest < ?e + 1")
      case True
      then have "filter (in_block_range (?e + 1) latest) logs = []"
        by (auto simp: filter_empty_conv in_block_range_def split: option.splits)
      then have "first_commitment ce addr h (?e + 1) latest logs = None" by (simp add: first_commitment_def)
      then show ?thesis unfolding unfold split using None True by (auto intro: exI)
    next
      case False
      then have dec: "nat (latest + 1 - (?e + 1)) < nat (latest + 1 - c)" and "0 \<le> ?e + 1" "?e + 1 \<le> latest + 1"
        using less.prems by auto
      from less.hyps [OF this, of "s\<lparr>tick := Suc (tick s)\<rparr>"] show ?thesis
        unfolding unfold split using None False by simp
    qed
  qed
qed

subsection \<open>The binary search\<close>

text \<open>Availability that does not change during the call, and holds below every block it holds for.\<close>

definition stable_availability ::
  "(int \<Rightarrow> ('z io_scheme, celestia_safe_head option) op) \<Rightarrow> (int \<Rightarrow> bool) \<Rightarrow> bool" where
  "stable_availability info avail \<longleftrightarrow>
     (\<forall>n s. \<exists>k. (avail n \<longrightarrow> (\<exists>x. info n s = (Inr (Some x), s\<lparr>tick := k\<rparr>))) \<and>
        (\<not> avail n \<longrightarrow> (\<exists>e. info n s = (Err e, s\<lparr>tick := k\<rparr>)))) \<and>
     (\<forall>m n. m \<le> n \<longrightarrow> avail n \<longrightarrow> avail m)"

definition highest_available :: "(int \<Rightarrow> bool) \<Rightarrow> int \<Rightarrow> int \<Rightarrow> int option \<Rightarrow> bool" where
  "highest_available avail low high r \<longleftrightarrow>
     (case r of
        None \<Rightarrow> \<forall>n. low \<le> n \<longrightarrow> n \<le> high \<longrightarrow> \<not> avail n
      | Some n \<Rightarrow> low \<le> n \<and> n \<le> high \<and> avail n \<and> (\<forall>m. n < m \<longrightarrow> m \<le> high \<longrightarrow> \<not> avail m))"

lemma highest_loop_finds:
  assumes st: "stable_availability info avail" and top_bound: "fin < 2 ^ 63" and a: "1 \<le> a"
  shows "a \<le> low \<Longrightarrow> high \<le> fin \<Longrightarrow> low \<le> high + 1 \<Longrightarrow>
    (\<forall>n. high < n \<longrightarrow> n \<le> fin \<longrightarrow> \<not> avail n) \<Longrightarrow>
    (case res of None \<Rightarrow> low = a | Some n \<Rightarrow> a \<le> n \<and> n + 1 = low \<and> avail n) \<Longrightarrow>
    \<exists>r k. highest_loop info low high res s = Some (Ok r, s\<lparr>tick := k\<rparr>) \<and> highest_available avail a fin r"
proof (induction "nat (high + 1 - low)" arbitrary: low high res s rule: less_induct)
  case less
  show ?case
  proof (cases "low \<le> high")
    case False
    then have "low = high + 1" using less.prems by simp
    then have "highest_available avail a fin res"
      using less.prems by (auto simp: highest_available_def split: option.splits)
    then show ?thesis using False by (auto simp: highest_loop.simps intro: tick_only_same)
  next
    case True
    let ?mid = "low + (high - low) div 2"
    have mid: "low \<le> ?mid" "?mid \<le> high" using True by auto
    have w: "wrap_u64 (?mid + 1) = ?mid + 1" "wrap_u64 (?mid - 1) = ?mid - 1"
      using mid less.prems(1,2) top_bound a by (auto simp: is_u64_def u64_max_def)
    obtain k where k: "avail ?mid \<Longrightarrow> \<exists>x. info ?mid s = (Inr (Some x), s\<lparr>tick := k\<rparr>)"
      "\<not> avail ?mid \<Longrightarrow> \<exists>e. info ?mid s = (Err e, s\<lparr>tick := k\<rparr>)"
      using st unfolding stable_availability_def by blast
    have mono: "\<And>m n. m \<le> n \<Longrightarrow> avail n \<Longrightarrow> avail m" using st unfolding stable_availability_def by blast
    show ?thesis
    proof (cases "avail ?mid")
      case av: True
      then obtain x where "attempt (info ?mid) s = (Inr (Inr (Some x)), s\<lparr>tick := k\<rparr>)"
        using k(1) by (auto simp: attempt_def onErr_def ret_def)
      then have "highest_loop info low high res s = highest_loop info (?mid + 1) high (Some ?mid) (s\<lparr>tick := k\<rparr>)"
        using True w by (subst highest_loop.simps) simp
      moreover have "nat (high + 1 - (?mid + 1)) < nat (high + 1 - low)" using mid by linarith
      moreover have "a \<le> ?mid + 1" "?mid + 1 \<le> high + 1" using mid less.prems(1) by linarith+
      ultimately show ?thesis
        using less.hyps [of high "?mid + 1" "Some ?mid" "s\<lparr>tick := k\<rparr>"] av less.prems mid by auto
    next
      case no: False
      then obtain e where "attempt (info ?mid) s = (Inr (Inl e), s\<lparr>tick := k\<rparr>)"
        using k(2) by (auto simp: attempt_def onErr_def ret_def)
      then have "highest_loop info low high res s = highest_loop info low (?mid - 1) res (s\<lparr>tick := k\<rparr>)"
        using True w by (subst highest_loop.simps) simp
      moreover have "nat (?mid - 1 + 1 - low) < nat (high + 1 - low)" using mid by linarith
      moreover have "\<forall>n. ?mid - 1 < n \<longrightarrow> n \<le> fin \<longrightarrow> \<not> avail n"
      proof (intro allI impI notI)
        fix n assume "?mid - 1 < n" and "avail n"
        then show False using no mono [of ?mid n] by simp
      qed
      moreover have "low \<le> ?mid - 1 + 1" "?mid - 1 \<le> fin" using mid less.prems(2) by linarith+
      ultimately show ?thesis
        using less.hyps [of "?mid - 1" low res "s\<lparr>tick := k\<rparr>"] less.prems(1,5) by auto
    qed
  qed
qed

subsection \<open>A concrete chain with two commitments\<close>

text \<open>
  Events in the L1 blocks 7 and 5008, in two batches for a scan from block 3, commit to the
  Celestia heights 1 to 20 and 21 to 40; an L2 block is posted at five times its number.
\<close>

definition sample_logs :: "log list" where
  "sample_logs =
     [\<lparr>log_address = [9], log_block_number = Some 7, log_topics = 1, log_payload = [1, 20]\<rparr>,
      \<lparr>log_address = [9], log_block_number = Some 5008, log_topics = 1, log_payload = [21, 40]\<rparr>]"

definition sample_location :: "int \<Rightarrow> celestia_location" where
  "sample_location n = \<lparr>cl_height = max 1 (5 * n), cl_commitment = [], cl_l2_start = n, cl_l2_end = n, cl_l1_block = 3\<rparr>"

definition sample_celestia :: celestia_env where
  "sample_celestia =
     \<lparr>ce_rpc = sample_env, ce_indexer = (\<lambda>n t. Inr \<lparr>ir_error = None, ir_result = Some (Inr (sample_location n))\<rparr>),
      ce_block_number = (\<lambda>t. Inr 6000), ce_logs = (\<lambda>addr a b t. Inr (filter (in_block_range a b) sample_logs)),
      ce_blobstream_address = (\<lambda>n. Some [9]),
      ce_decode = (\<lambda>lg. Inr (uint (log_payload lg ! 0), uint (log_payload lg ! 1)))\<rparr>"

lemma sample_stable_logs: "stable_logs sample_celestia [9] 6000 sample_logs"
  by (simp add: stable_logs_def sample_celestia_def sample_logs_def filter_block_range_def u64_max_def)

lemma find_minimum_finds:
  assumes "stable_logs ce addr latest logs" and "df_rollup_config f = Some cfg"
    and "ce_blobstream_address ce (lc cfg) = Some addr" and "0 \<le> start" and "start \<le> latest + 1"
  shows "\<exists>k. find_minimum_blobstream_block ce lc f h start s =
      (case first_commitment ce addr h start latest logs of
         Some lg \<Rightarrow> Ok (the (log_block_number lg))
       | None \<Rightarrow> Err (Msg ''Reached latest block without finding Blobstream proof''), s\<lparr>tick := k\<rparr>)"
proof -
  let ?t = "s\<lparr>tick := Suc (tick s)\<rparr>"
  have "call (ce_block_number ce) s = (Inr latest, ?t)"
    using assms(1) by (simp add: call_def stable_logs_def)
  moreover obtain k where "blobstream_loop ce addr h latest start ?t =
      Some (case first_commitment ce addr h start latest logs of
              Some lg \<Rightarrow> Ok (the (log_block_number lg))
            | None \<Rightarrow> Err (Msg ''Reached latest block without finding Blobstream proof''),
            ?t\<lparr>tick := k\<rparr>)"
    using blobstream_loop_finds [OF assms(1,4,5), of h ?t] by blast
  ultimately show ?thesis
    using assms(2,3)
    by (auto simp: find_minimum_blobstream_block_def andThen_def lift_def run_loop_def unwrap_def ret_def)
qed

text \<open>
  C17. (equivalence) The search for the Blobstream commitment goes through the L1 blocks in batches
  of 5000, asking for the logs of one batch at a time. It is equivalent to one pass over all logs
  from the start block to the latest: it always returns, with the L1 block of the first Blobstream
  event covering the Celestia height, or with the error exactly if there is none; a log on the
  border of two batches is neither missed nor seen twice.
\<close>

theorem blobstream_scan_is_complete:
  assumes "stable_logs ce addr latest logs" and "df_rollup_config f = Some cfg"
    and "ce_blobstream_address ce (lc cfg) = Some addr" and "0 \<le> start" and "start \<le> latest + 1"
  shows "fst (find_minimum_blobstream_block ce lc f h start s) =
      (case find (\<lambda>lg. log_address lg = addr \<and> covers ce h lg) (filter (in_block_range start latest) logs) of
         Some lg \<Rightarrow> Ok (the (log_block_number lg))
       | None \<Rightarrow> Err (Msg ''Reached latest block without finding Blobstream proof''))"
  using find_minimum_finds [where lc = lc, OF assms, of h s] by (auto simp: first_commitment_def)

theorem blobstream_scan_is_complete_witness:
  "fst (find_minimum_blobstream_block sample_celestia (\<lambda>_. 1) sample_fetcher 30 3 \<lparr>tick = 0\<rparr>) = Ok 5008"
  using blobstream_scan_is_complete [OF sample_stable_logs, of sample_fetcher "()" "\<lambda>_. 1" 3 30 "\<lparr>tick = 0\<rparr>"]
  by (simp add: sample_fetcher_def sample_celestia_def sample_logs_def covers_def in_block_range_def)

text \<open>
  The answer of the indexer for a block, stable over the call: \<open>ix n\<close> is the location of block
  \<open>n\<close>, or \<open>None\<close> where the indexer answers with an error.
\<close>

definition stable_indexer :: "celestia_env \<Rightarrow> int \<Rightarrow> (int \<Rightarrow> celestia_location option) \<Rightarrow> bool" where
  "stable_indexer ce latest ix \<longleftrightarrow>
     (\<forall>n t. case ix n of
        None \<Rightarrow> \<exists>msg. ce_indexer ce n t = Inr \<lparr>ir_error = Some msg, ir_result = None\<rparr>
      | Some loc \<Rightarrow> ce_indexer ce n t = Inr \<lparr>ir_error = None, ir_result = Some (Inr loc)\<rparr> \<and>
          0 \<le> cl_l1_block loc \<and> cl_l1_block loc \<le> latest + 1)"

definition committed_in ::
  "celestia_env \<Rightarrow> address \<Rightarrow> int \<Rightarrow> log list \<Rightarrow> (int \<Rightarrow> celestia_location option) \<Rightarrow> int \<Rightarrow> log option" where
  "committed_in ce addr latest logs ix n =
     Option.bind (ix n) (\<lambda>loc. first_commitment ce addr (cl_height loc) (cl_l1_block loc) latest logs)"

lemma sample_stable_indexer: "stable_indexer sample_celestia 6000 (\<lambda>n. Some (sample_location n))"
  by (simp add: stable_indexer_def sample_celestia_def sample_location_def)

lemma sample_committed:
  "(committed_in sample_celestia [9] 6000 sample_logs (\<lambda>n. Some (sample_location n)) n \<noteq> None) = (n \<le> 8)"
  by (auto simp: committed_in_def first_commitment_def sample_celestia_def sample_logs_def sample_location_def
      covers_def in_block_range_def)

lemma query_indexer_eq:
  assumes "stable_indexer ce latest ix"
  shows "query_celestia_indexer ce n s =
    (case ix n of
       Some loc \<Rightarrow> (Ok (Some loc), s\<lparr>tick := Suc (tick s)\<rparr>)
     | None \<Rightarrow> query_celestia_indexer ce n s)"
  and "ix n = None \<Longrightarrow> (query_celestia_indexer ce n s = (Ok None, s\<lparr>tick := Suc (tick s)\<rparr>)) \<or>
    (query_celestia_indexer ce n s = (Err (Msg ''Indexer RPC error''), s\<lparr>tick := Suc (tick s)\<rparr>))"
proof -
  have ix: "case ix n of
        None \<Rightarrow> \<exists>msg. ce_indexer ce n (tick s) = Inr \<lparr>ir_error = Some msg, ir_result = None\<rparr>
      | Some loc \<Rightarrow> ce_indexer ce n (tick s) = Inr \<lparr>ir_error = None, ir_result = Some (Inr loc)\<rparr> \<and>
          0 \<le> cl_l1_block loc \<and> cl_l1_block loc \<le> latest + 1"
    using assms unfolding stable_indexer_def by blast
  show "query_celestia_indexer ce n s =
    (case ix n of Some loc \<Rightarrow> (Ok (Some loc), s\<lparr>tick := Suc (tick s)\<rparr>) | None \<Rightarrow> query_celestia_indexer ce n s)"
    using ix by (auto simp: query_celestia_indexer_def andThen_def call_def ret_def split: option.splits)
  show "ix n = None \<Longrightarrow> (query_celestia_indexer ce n s = (Ok None, s\<lparr>tick := Suc (tick s)\<rparr>)) \<or>
    (query_celestia_indexer ce n s = (Err (Msg ''Indexer RPC error''), s\<lparr>tick := Suc (tick s)\<rparr>))"
    using ix by (auto simp: query_celestia_indexer_def andThen_def call_def ret_def throw_def split: option.splits)
qed

lemma safe_head_info_eq:
  assumes st: "stable_logs ce addr latest logs" "df_rollup_config f = Some cfg" "ce_blobstream_address ce (lc cfg) = Some addr"
    and ix: "stable_indexer ce latest ix"
  shows "\<exists>k. case committed_in ce addr latest logs ix n of
      Some lg \<Rightarrow> get_celestia_safe_head_info ce lc f n s =
        (Ok (Some \<lparr>l1_block_number = the (log_block_number lg), l2_safe_head_number = n\<rparr>), s\<lparr>tick := k\<rparr>)
    | None \<Rightarrow> \<exists>e. get_celestia_safe_head_info ce lc f n s = (Err e, s\<lparr>tick := k\<rparr>)"
proof (cases "ix n")
  case None
  then show ?thesis
    using query_indexer_eq(2) [OF ix None, of s]
    by (auto simp: committed_in_def get_celestia_safe_head_info_def onErr_def throw_def)
next
  case (Some loc)
  then have q: "query_celestia_indexer ce n s = (Ok (Some loc), s\<lparr>tick := Suc (tick s)\<rparr>)"
    using query_indexer_eq(1) [OF ix, of n s] by simp
  have "0 \<le> cl_l1_block loc" "cl_l1_block loc \<le> latest + 1"
    using ix Some unfolding stable_indexer_def by (auto dest: spec [of _ n])
  from find_minimum_finds [where lc = lc, OF st this, of "cl_height loc" "s\<lparr>tick := Suc (tick s)\<rparr>"] show ?thesis
    using q Some
    by (auto simp: committed_in_def get_celestia_safe_head_info_def onErr_def throw_def ret_def split: option.splits)
qed

lemma stable_availability_celestia:
  assumes "stable_logs ce addr latest logs" "df_rollup_config f = Some cfg" "ce_blobstream_address ce (lc cfg) = Some addr"
    and "stable_indexer ce latest ix"
    and mono: "\<And>m n. m \<le> n \<Longrightarrow> committed_in ce addr latest logs ix n \<noteq> None \<Longrightarrow> committed_in ce addr latest logs ix m \<noteq> None"
  shows "stable_availability (get_celestia_safe_head_info ce lc f)
    (\<lambda>n. committed_in ce addr latest logs ix n \<noteq> None)"
proof -
  have "\<exists>k. (committed_in ce addr latest logs ix n \<noteq> None \<longrightarrow>
        (\<exists>x. get_celestia_safe_head_info ce lc f n s = (Inr (Some x), s\<lparr>tick := k\<rparr>))) \<and>
      (\<not> committed_in ce addr latest logs ix n \<noteq> None \<longrightarrow>
        (\<exists>e. get_celestia_safe_head_info ce lc f n s = (Err e, s\<lparr>tick := k\<rparr>)))" for n s
  proof -
    obtain k where "case committed_in ce addr latest logs ix n of
        Some lg \<Rightarrow> get_celestia_safe_head_info ce lc f n s =
          (Ok (Some \<lparr>l1_block_number = the (log_block_number lg), l2_safe_head_number = n\<rparr>), s\<lparr>tick := k\<rparr>)
      | None \<Rightarrow> \<exists>e. get_celestia_safe_head_info ce lc f n s = (Err e, s\<lparr>tick := k\<rparr>)"
      using safe_head_info_eq [where lc = lc, OF assms(1-4), of n s] by blast
    then show ?thesis by (intro exI [of _ k]) (auto split: option.splits)
  qed
  then show ?thesis using mono unfolding stable_availability_def by blast
qed

text \<open>
  C16. (functional) Commitment to Celestia is monotone in the L2 block. Against an indexer and an L1
  node that do not change during the call, the binary search for the highest provable L2 block
  always ends without an error; its answer is the highest block between the latest proposed and
  the finalized one whose batch data Blobstream has committed to, and \<open>None\<close> exactly if no block
  of that range is committed. The latest proposed block must not be genesis, where the search can
  step below zero.
\<close>

theorem highest_provable_block_is_highest:
  assumes "stable_logs ce addr latest logs" and "df_rollup_config f = Some cfg"
    and "ce_blobstream_address ce (lc cfg) = Some addr" and "stable_indexer ce latest ix"
    and "\<And>m n. m \<le> n \<Longrightarrow> committed_in ce addr latest logs ix n \<noteq> None \<Longrightarrow> committed_in ce addr latest logs ix m \<noteq> None"
    and "get_l2_header (ce_rpc ce) Finalized s = (Inr hdr, s')"
    and "1 \<le> proposed" and "proposed \<le> number hdr + 1" and "number hdr < 2 ^ 63"
  shows "\<exists>r. fst (get_highest_finalized_l2_block ce lc f proposed s) = Ok r \<and>
    highest_available (\<lambda>n. committed_in ce addr latest logs ix n \<noteq> None) proposed (number hdr) r"
proof -
  have st: "stable_availability (get_celestia_safe_head_info ce lc f)
      (\<lambda>n. committed_in ce addr latest logs ix n \<noteq> None)"
    by (rule stable_availability_celestia [where lc = lc, OF assms(1-4)]) (rule assms(5))
  obtain r k where "highest_loop (get_celestia_safe_head_info ce lc f) proposed (number hdr) None s'
        = Some (Ok r, s'\<lparr>tick := k\<rparr>)"
      "highest_available (\<lambda>n. committed_in ce addr latest logs ix n \<noteq> None) proposed (number hdr) r"
    using highest_loop_finds [OF st assms(9,7), of proposed "number hdr" None s'] assms(8) by auto
  then show ?thesis using assms(6)
    by (simp add: get_highest_finalized_l2_block_def andThen_def run_loop_def)
qed

theorem highest_provable_block_is_highest_witness:
  "fst (get_highest_finalized_l2_block sample_celestia (\<lambda>_. 1) sample_fetcher 2 \<lparr>tick = 0\<rparr>) = Ok (Some 8)"
proof -
  let ?avail = "\<lambda>n. committed_in sample_celestia [9] 6000 sample_logs (\<lambda>n. Some (sample_location n)) n \<noteq> None"
  have "get_l2_header (ce_rpc sample_celestia) Finalized \<lparr>tick = 0\<rparr>
      = (Inr (blk_header (sample_chain 10)), \<lparr>tick = 1\<rparr>)"
    by (simp add: get_l2_header_def get_header_def sample_celestia_def sample_env_def sample_block_def
        op_defs call_def)
  then have "\<exists>r. fst (get_highest_finalized_l2_block sample_celestia (\<lambda>_. 1) sample_fetcher 2 \<lparr>tick = 0\<rparr>) = Ok r \<and>
      highest_available ?avail 2 (number (blk_header (sample_chain 10))) r"
    by (intro highest_provable_block_is_highest [OF sample_stable_logs, of _ "()" _ "\<lambda>n. Some (sample_location n)"])
      (simp_all only: sample_committed sample_stable_indexer,
        simp_all add: sample_fetcher_def sample_chain_def sample_celestia_def)
  moreover have "highest_available ?avail 2 10 r \<Longrightarrow> r = Some 8" for r
    unfolding sample_committed highest_available_def
    by (auto split: option.splits dest: spec [of _ 8])
  ultimately show ?thesis by (auto simp: sample_chain_def)
qed

end
