(* ===== verification/BlockRange.thy ===== *)
theory BlockRange
  imports RangeUtils Fetcher
begin

text \<open>
  The block ranges of the proving scripts, \<open>utils/host/src/block_range.rs\<close>: validated and rolling
  ranges, the plain split of a range, and the split along the batches posted to L1. Block numbers
  are wrapping \<open>u64\<close>; a split that does not end is \<open>None\<close>.
\<close>

subsection \<open>Ranges\<close>

definition get_validated_block_range ::
  "rpc_env \<Rightarrow> int option \<Rightarrow> int option \<Rightarrow> int \<Rightarrow> ('z io_scheme, range) op" where
  "get_validated_block_range env start end default_range =
     andThen (get_l2_header env Finalized) (\<lambda>h.
     andThen (case end of
         Some e \<Rightarrow>
           if number h < e
           then throw (Failure (Msg ''The end block is greater than the latest finalized block''))
           else ret e
       | None \<Rightarrow> ret (number h)) (\<lambda>l2_end_block.
       let l2_start_block = (case start of Some s \<Rightarrow> s | None \<Rightarrow> max 1 (sat_sub l2_end_block default_range)) in
       if l2_end_block \<le> l2_start_block
       then throw (Failure (Msg ''Start block must be less than end block''))
       else ret (l2_start_block, l2_end_block)))"

definition get_rolling_block_range :: "rpc_env \<Rightarrow> int \<Rightarrow> int \<Rightarrow> ('z io_scheme, range) op" where
  "get_rolling_block_range env interval_secs r =
     andThen (get_l2_header env Finalized) (\<lambda>h.
       if interval_secs = 0 then throw (Panic ''attempt to calculate the remainder with a divisor of zero'')
       else
         andThen (find_l2_block_by_timestamp env (timestamp h - timestamp h mod interval_secs)) (\<lambda>(_, l2_start_block).
           ret (l2_start_block, wrap_u64 (l2_start_block + r))))"

partial_function (option) split_range_basic_loop :: "int \<Rightarrow> int \<Rightarrow> int \<Rightarrow> range list \<Rightarrow> range list option" where
  "split_range_basic_loop end max_range_size current_start ranges =
     (if current_start < end
      then
        let current_end = min (wrap_u64 (current_start + max_range_size)) end
        in split_range_basic_loop end max_range_size current_end (ranges @ [(current_start, current_end)])
      else Some ranges)"

definition split_range_basic :: "int \<Rightarrow> int \<Rightarrow> int \<Rightarrow> range list option" where
  "split_range_basic start end max_range_size = split_range_basic_loop end max_range_size start []"

text \<open>The inner loop over one safe head, whose last range ends at \<open>m = min l2_end safe_head\<close>.\<close>

partial_function (option) head_ranges_loop :: "int \<Rightarrow> int \<Rightarrow> int \<Rightarrow> range list \<Rightarrow> range list option" where
  "head_ranges_loop m max_range_size range_start ranges =
     (if wrap_u64 (range_start + max_range_size) < m
      then head_ranges_loop m max_range_size (wrap_u64 (range_start + max_range_size))
             (ranges @ [(range_start, wrap_u64 (range_start + max_range_size))])
      else Some (ranges @ [(range_start, m)]))"

fun safe_head_ranges :: "int \<Rightarrow> int \<Rightarrow> int list \<Rightarrow> int \<Rightarrow> range list \<Rightarrow> range list option" where
  "safe_head_ranges l2_end max_range_size [] current_l2_start ranges = Some ranges"
| "safe_head_ranges l2_end max_range_size (safe_head # rest) current_l2_start ranges =
     (if current_l2_start < safe_head \<and> current_l2_start < l2_end
      then Option.bind (head_ranges_loop (min l2_end safe_head) max_range_size current_l2_start ranges)
             (\<lambda>ranges'. safe_head_ranges l2_end max_range_size rest safe_head ranges')
      else safe_head_ranges l2_end max_range_size rest current_l2_start ranges)"

text \<open>\<open>expect\<close> on the answers of the stream, collected into a set and sorted.\<close>

definition safe_head_of_block :: "rpc_env \<Rightarrow> int \<Rightarrow> ('z io_scheme, int) op" where
  "safe_head_of_block env block =
     onErr (call (safe_head_at_l1 env block)) (\<lambda>r. ret (safe_head_number r))
       (\<lambda>e. throw (Panic ''Failed to fetch safe head''))"

definition split_range_based_on_safe_heads ::
  "rpc_env \<Rightarrow> int \<Rightarrow> int \<Rightarrow> int \<Rightarrow> ('z io_scheme, range list) op" where
  "split_range_based_on_safe_heads env l2_start l2_end max_range_size =
     andThen (call (output_at_block env l2_start)) (\<lambda>start_output.
     andThen (get_safe_l1_block_for_l2_block env l2_end) (\<lambda>(_, l1_head_number).
     andThen (traverse (safe_head_of_block env) [l1_origin_number start_output..l1_head_number]) (\<lambda>safe_heads.
     andThen (asks (\<lambda>s. safe_head_ranges l2_end max_range_size (sort (remdups safe_heads)) l2_start [])) (\<lambda>r.
       case r of None \<Rightarrow> throw Diverged | Some ranges \<Rightarrow> ret ranges))))"

subsection \<open>The plain split\<close>

definition block_fits :: "int \<Rightarrow> int \<Rightarrow> int \<Rightarrow> bool" where
  "block_fits s e m \<longleftrightarrow> 0 \<le> s \<and> e + m \<le> u64_max"

lemma basic_loop_done: "e \<le> s \<Longrightarrow> split_range_basic_loop e m s acc = Some acc"
  by (simp add: split_range_basic_loop.simps)

lemma basic_loop_step:
  "block_fits s e m \<Longrightarrow> 0 < m \<Longrightarrow> s < e \<Longrightarrow>
   split_range_basic_loop e m s acc = split_range_basic_loop e m (min (s + m) e) (acc @ [(s, min (s + m) e)])"
  by (subst split_range_basic_loop.simps) (simp add: block_fits_def is_u64_def Let_def)

lemma block_fits_step: "block_fits s e m \<Longrightarrow> 0 < m \<Longrightarrow> s < e \<Longrightarrow> block_fits (min (s + m) e) e m"
  by (auto simp: block_fits_def)

lemma basic_loop_acc:
  "block_fits s e m \<Longrightarrow> 0 < m \<Longrightarrow>
   split_range_basic_loop e m s acc = map_option ((@) acc) (split_range_basic_loop e m s [])"
proof (induction "nat (e - s)" arbitrary: s acc rule: less_induct)
  case less
  show ?case
  proof (cases "s < e")
    case True
    let ?t = "min (s + m) e"
    have dec: "nat (e - ?t) < nat (e - s)" using True less.prems by simp
    note IH = less.hyps [OF dec block_fits_step [OF less.prems True] less.prems(2)]
    show ?thesis
      using IH [of "acc @ [(s, ?t)]"] IH [of "[(s, ?t)]"]
      by (cases "split_range_basic_loop e m ?t []") (simp_all add: basic_loop_step [OF less.prems True])
  next
    case False
    then show ?thesis by (simp add: basic_loop_done)
  qed
qed

interpretation basic: range_splitter split_range_basic block_fits
proof
  fix s e m :: int
  show "e \<le> s \<Longrightarrow> split_range_basic s e m = Some []" by (simp add: split_range_basic_def basic_loop_done)
  assume h: "block_fits s e m" "0 < m" "s < e"
  let ?t = "min (s + m) e"
  show fits: "block_fits ?t e m" by (rule block_fits_step [OF h])
  show "split_range_basic s e m = map_option ((#) (s, ?t)) (split_range_basic ?t e m)"
    unfolding split_range_basic_def using basic_loop_acc [OF fits h(2), of "[(s, ?t)]"]
    by (cases "split_range_basic_loop e m ?t []") (simp_all add: basic_loop_step [OF h])
qed

subsection \<open>The split along safe heads\<close>

text \<open>The inner loop is the plain split of a non-empty interval.\<close>

lemma head_ranges_basic:
  "block_fits s e m \<Longrightarrow> 0 < m \<Longrightarrow> s < e \<Longrightarrow>
   head_ranges_loop e m s acc = map_option ((@) acc) (split_range_basic s e m)"
proof (induction "nat (e - s)" arbitrary: s acc rule: less_induct)
  case less
  have w: "wrap_u64 (s + m) = s + m" using less.prems by (simp add: block_fits_def is_u64_def)
  show ?case
  proof (cases "s + m < e")
    case True
    have dec: "nat (e - (s + m)) < nat (e - s)" using True less.prems by simp
    have fits: "block_fits (s + m) e m" using block_fits_step [OF less.prems] True by simp
    have "head_ranges_loop e m s acc = head_ranges_loop e m (s + m) (acc @ [(s, s + m)])"
      using True w by (subst head_ranges_loop.simps) simp
    also have "\<dots> = map_option ((@) (acc @ [(s, s + m)])) (split_range_basic (s + m) e m)"
      by (rule less.hyps [OF dec fits less.prems(2) True])
    also have "\<dots> = map_option ((@) acc) (split_range_basic s e m)"
      using basic.split_step [OF less.prems] True by (cases "split_range_basic (s + m) e m") simp_all
    finally show ?thesis .
  next
    case False
    then have "split_range_basic s e m = Some [(s, e)]"
      using basic.split_step [OF less.prems] by (simp add: basic.split_done)
    then show ?thesis using False w by (subst head_ranges_loop.simps) simp
  qed
qed

text \<open>A range does not reach over a safe head.\<close>

definition within_heads :: "int list \<Rightarrow> range \<Rightarrow> bool" where
  "within_heads heads r \<longleftrightarrow> (\<forall>h \<in> set heads. \<not> (fst r < h \<and> h < snd r))"

lemma safe_head_ranges_done:
  "l2_end \<le> cur \<Longrightarrow> safe_head_ranges l2_end m heads cur acc = Some acc"
  by (induction heads) simp_all

lemma fold_max_ge: "c \<le> fold max heads (c :: int)"
proof (induction heads arbitrary: c)
  case (Cons h heads)
  from Cons.IH [of "max h c"] show ?case by simp
qed simp

lemma safe_head_ranges_tile:
  assumes m: "0 < m" and fit: "l2_end + m \<le> u64_max"
  shows "sorted heads \<Longrightarrow> 0 \<le> cur \<Longrightarrow> cur \<le> l2_end \<Longrightarrow>
    \<exists>rs. safe_head_ranges l2_end m heads cur acc = Some (acc @ rs)
      \<and> tiles cur rs (max cur (min l2_end (fold max heads cur)))
      \<and> (\<forall>r \<in> set rs. snd r - fst r \<le> m \<and> within_heads heads r)"
proof (induction heads arbitrary: cur acc)
  case Nil
  then show ?case by simp
next
  case (Cons h heads)
  have sorted: "sorted heads" "\<forall>g \<in> set heads. h \<le> g" using Cons.prems(1) by auto
  show ?case
  proof (cases "cur < h \<and> cur < l2_end")
    case False
    obtain rs where rs: "safe_head_ranges l2_end m heads cur acc = Some (acc @ rs)"
      "tiles cur rs (max cur (min l2_end (fold max heads cur)))"
      "\<forall>r \<in> set rs. snd r - fst r \<le> m \<and> within_heads heads r"
      using Cons.IH [OF sorted(1) Cons.prems(2,3)] by blast
    have "\<not> (fst r < h \<and> h < snd r)" if "r \<in> set rs" for r
      using tiles_mem [OF rs(2) that] False Cons.prems(3) by auto
    then have "\<forall>r \<in> set rs. within_heads (h # heads) r" using rs(3) by (auto simp: within_heads_def)
    moreover have "max cur (min l2_end (fold max (h # heads) cur)) = max cur (min l2_end (fold max heads cur))"
    proof (cases "h \<le> cur")
      case True
      then show ?thesis by (simp add: max_def)
    next
      case False': False
      then have "cur = l2_end" using False Cons.prems(3) by simp
      then show ?thesis by simp
    qed
    moreover have "safe_head_ranges l2_end m (h # heads) cur acc = Some (acc @ rs)"
      using rs(1) False by (simp only: safe_head_ranges.simps if_False)
    ultimately show ?thesis using rs(2,3) by (intro exI [of _ rs]) simp
  next
    case True
    let ?e = "min l2_end h"
    have fits: "block_fits cur ?e m" and lt: "cur < ?e" using Cons.prems(2) fit True by (auto simp: block_fits_def)
    obtain qs where qs: "split_range_basic cur ?e m = Some qs" and t: "tiles cur qs ?e"
      and len: "\<forall>r \<in> set qs. snd r - fst r \<le> m"
      using basic.split_exact [OF fits m less_imp_le [OF lt]] by blast
    have inner: "head_ranges_loop ?e m cur acc = Some (acc @ qs)"
      using head_ranges_basic [OF fits m lt] qs by simp
    have within: "within_heads (h # heads) r" if "r \<in> set qs" for r
      using tiles_mem [OF t that] sorted(2) by (force simp: within_heads_def)
    have step: "safe_head_ranges l2_end m (h # heads) cur acc = safe_head_ranges l2_end m heads h (acc @ qs)"
      using True inner by simp
    show ?thesis
    proof (cases "l2_end \<le> h")
      case past: True
      have "h \<le> fold max heads (max h cur)" using fold_max_ge [of "max h cur" heads] by simp
      then have bound: "max cur (min l2_end (fold max (h # heads) cur)) = ?e" using past True by simp
      have "safe_head_ranges l2_end m (h # heads) cur acc = Some (acc @ qs)"
        unfolding step by (rule safe_head_ranges_done [OF past])
      then show ?thesis
        unfolding bound using t len within by blast
    next
      case before: False
      have "0 \<le> h" "h \<le> l2_end" using True before Cons.prems(2) by auto
      then obtain rs where rs: "safe_head_ranges l2_end m heads h (acc @ qs) = Some ((acc @ qs) @ rs)"
        "tiles h rs (max h (min l2_end (fold max heads h)))"
        "\<forall>r \<in> set rs. snd r - fst r \<le> m \<and> within_heads heads r"
        using Cons.IH [OF sorted(1)] by blast
      have "h \<le> fold max heads h" by (rule fold_max_ge)
      then have bound: "max cur (min l2_end (fold max (h # heads) cur)) = max h (min l2_end (fold max heads h))"
        using True before by (simp add: max_def)
      have "tiles cur (qs @ rs) (max h (min l2_end (fold max heads h)))"
        using t rs(2) before by (auto simp: tiles_append intro!: exI [of _ h])
      moreover have "within_heads (h # heads) r" if "r \<in> set rs" for r
        using tiles_mem [OF rs(2) that] rs(3) that by (auto simp: within_heads_def)
      moreover have "safe_head_ranges l2_end m (h # heads) cur acc = Some (acc @ (qs @ rs))"
        unfolding step using rs(1) by simp
      moreover have "\<forall>r \<in> set (qs @ rs). snd r - fst r \<le> m" using len rs(3) by auto
      ultimately show ?thesis
        unfolding bound using within by (intro exI [of _ "qs @ rs"]) auto
    qed
  qed
qed

lemma fold_max_mem: "h \<in> set heads \<Longrightarrow> h \<le> fold max heads (c :: int)"
proof (induction heads arbitrary: c)
  case (Cons g heads)
  show ?case
  proof (cases "h = g")
    case True
    then show ?thesis using fold_max_ge [of "max g c" heads] by simp
  next
    case False
    then show ?thesis using Cons by simp
  qed
qed simp

lemma answers_traverse:
  "(\<And>x. x \<in> set xs \<Longrightarrow> answers (f x) (g x)) \<Longrightarrow> answers (traverse f xs) (map g xs)"
proof (induction xs)
  case Nil
  then show ?case by (simp add: answers_ret)
next
  case (Cons x xs)
  have "answers (f x) (g x)" "answers (traverse f xs) (map g xs)" using Cons by simp_all
  then show ?case
    unfolding traverse.simps list.map by (rule answers_andThen [OF _ answers_andThen [OF _ answers_ret]])
qed

lemma safe_head_answers:
  assumes "\<And>t. safe_head_at_l1 env b t = Inr r"
  shows "answers (safe_head_of_block env b) (safe_head_number r)"
  by (auto simp: answers_def safe_head_of_block_def onErr_def call_def ret_def assms)

subsection \<open>Properties\<close>

text \<open>C18. The split along safe heads, on nodes that do not change during the call: it ends, the
  ranges tile the whole interval from \<open>l2_start\<close> to \<open>l2_end\<close> in order without gap or overlap, none
  is longer than the maximum, and none reaches over the safe head of an L1 block of the scan, so
  that every range lies within the blocks of one batch posting.\<close>

theorem split_along_safe_heads:
  assumes out: "\<And>t. output_at_block env l2_start t = Inr out"
    and l1: "\<And>u :: 'z io_scheme. \<exists>k. get_safe_l1_block_for_l2_block env l2_end u = (Inr (hash, n), u\<lparr>tick := k\<rparr>)"
    and heads: "\<And>b t. l1_origin_number out \<le> b \<Longrightarrow> b \<le> n \<Longrightarrow> safe_head_at_l1 env b t = Inr (sh b)"
    and range: "0 \<le> l2_start" "l2_start \<le> l2_end" "0 < m" "l2_end + m \<le> u64_max"
    and reached: "l1_origin_number out \<le> n" "l2_end \<le> safe_head_number (sh n)"
  shows "\<exists>rs. fst (split_range_based_on_safe_heads env l2_start l2_end m (s :: 'z io_scheme)) = Ok rs
    \<and> tiles l2_start rs l2_end \<and> (\<forall>r \<in> set rs. snd r - fst r \<le> m)
    \<and> (\<forall>r \<in> set rs. \<forall>b. l1_origin_number out \<le> b \<longrightarrow> b \<le> n \<longrightarrow>
         \<not> (fst r < safe_head_number (sh b) \<and> safe_head_number (sh b) < snd r))"
proof -
  let ?bs = "[l1_origin_number out..n]"
  let ?hs = "map (\<lambda>b. safe_head_number (sh b)) ?bs" and ?sorted = "sort (remdups (map (\<lambda>b. safe_head_number (sh b)) [l1_origin_number out..n]))"
  obtain rs where rs: "safe_head_ranges l2_end m ?sorted l2_start [] = Some rs"
    and t: "tiles l2_start rs (max l2_start (min l2_end (fold max ?sorted l2_start)))"
    and each: "\<forall>r \<in> set rs. snd r - fst r \<le> m \<and> within_heads ?sorted r"
    using safe_head_ranges_tile [OF range(3,4), of ?sorted l2_start "[]"] range(1,2) by auto
  have "safe_head_number (sh n) \<in> set ?sorted" using reached(1) by auto
  then have "l2_end \<le> fold max ?sorted l2_start" using fold_max_mem reached(2) order_trans by blast
  then have t': "tiles l2_start rs l2_end" using t range(2) by simp
  have a1: "answers (call (output_at_block env l2_start) :: ('z io_scheme, output_response) op) out"
    by (rule answers_call) (rule out)
  have a2: "answers (get_safe_l1_block_for_l2_block env l2_end :: ('z io_scheme, b256 \<times> int) op) (hash, n)"
    unfolding answers_def using l1 by blast
  have a3: "answers (traverse (safe_head_of_block env) ?bs :: ('z io_scheme, int list) op) ?hs"
    by (rule answers_traverse, rule safe_head_answers, rule heads) auto
  have a4: "answers (andThen (asks (\<lambda>s. safe_head_ranges l2_end m ?sorted l2_start []))
      (\<lambda>r. case r of None \<Rightarrow> throw Diverged | Some ranges \<Rightarrow> ret ranges) :: ('z io_scheme, range list) op) rs"
    by (auto simp: answers_def andThen_def asks_def ret_def rs intro: tick_only_same)
  have "answers (split_range_based_on_safe_heads env l2_start l2_end m :: ('z io_scheme, range list) op) rs"
    unfolding split_range_based_on_safe_heads_def
    by (rule answers_andThen [OF a1], rule answers_andThen [OF a2], unfold prod.case,
        rule answers_andThen [OF a3], rule a4)
  then have "fst (split_range_based_on_safe_heads env l2_start l2_end m s) = Ok rs" by (rule answersD)
  moreover have "\<not> (fst r < safe_head_number (sh b) \<and> safe_head_number (sh b) < snd r)"
    if "r \<in> set rs" "l1_origin_number out \<le> b" "b \<le> n" for r b
    using each that by (auto simp: within_heads_def)
  ultimately show ?thesis using t' each by blast
qed

theorem split_along_safe_heads_witness:
  "\<exists>rs. fst (split_range_based_on_safe_heads sample_env 3 9 2 \<lparr>tick = 0\<rparr>) = Ok rs \<and> tiles 3 rs 9"
proof -
  have "\<exists>k. get_safe_l1_block_for_l2_block sample_env 9 u = (Inr ([6], 6), u\<lparr>tick := k\<rparr>)" for u :: io
    by (simp add: get_safe_l1_block_for_l2_block_def get_l1_header_def get_header_def andThen_def
        call_def ret_def run_loop_def sample_block_def sample_number safe_l1_loop.simps wrap_u64_def
        sample_safe_head_def) (rule exI, rule refl)
  then show ?thesis
    using split_along_safe_heads [of sample_env 3 "\<lparr>output_root = [], l1_origin_number = 1\<rparr>" 9 "[6]" 6
        sample_safe_head 2 "\<lparr>tick = 0\<rparr>"]
    by (auto simp: sample_safe_head_def u64_max_def)
qed

end
