(* ===== verification/Witness.thy ===== *)
theory Witness
  imports Prelude
begin

text \<open>
  The witness of the range program: the host records every preimage and blob it reads
  (\<open>utils/host/src/witness_generation\<close>), the program checks them and reads from the record
  (\<open>utils/client/src/witness\<close>, \<open>utils/client/src/oracle/blob_provider.rs\<close>). The hash functions, the
  format of a preimage key (\<open>kona_preimage::PreimageKey\<close>) and the KZG scheme are third-party code:
  the record \<open>oracle_env\<close>, over a type \<open>'key\<close> of keys.
\<close>

subsection \<open>Preimages\<close>

datatype key_type = LocalKey | Keccak256Key | GlobalGenericKey | Sha256Key | BlobKey | PrecompileKey

record ('key, 'blob) oracle_env =
  oe_keccak256 :: "bytes \<Rightarrow> bytes"
  oe_sha256 :: "bytes \<Rightarrow> bytes"
  oe_key_type :: "'key \<Rightarrow> key_type"
  oe_new_key :: "bytes \<Rightarrow> key_type \<Rightarrow> 'key"
  oe_versioned_hash :: "bytes \<Rightarrow> b256"
  oe_verify_blobs :: "'blob list \<Rightarrow> bytes list \<Rightarrow> bytes list \<Rightarrow> error + bool"
  oe_commitment :: "'blob \<Rightarrow> bytes"
  oe_proof :: "'blob \<Rightarrow> bytes \<Rightarrow> bytes"

text \<open>The map of a store as its entries, in the order a traversal meets them.\<close>

type_synonym 'key preimage_store = "('key \<times> bytes) list"

definition invalid_key :: error where "invalid_key = Msg ''InvalidPreimageKey''"

definition expected_hash :: "('key, 'blob) oracle_env \<Rightarrow> key_type \<Rightarrow> bytes \<Rightarrow> bytes option res" where
  "expected_hash oe ty v =
     (case ty of
        Keccak256Key \<Rightarrow> Ok (Some (oe_keccak256 oe v))
      | Sha256Key \<Rightarrow> Ok (Some (oe_sha256 oe v))
      | LocalKey \<Rightarrow> Ok None
      | GlobalGenericKey \<Rightarrow> Ok None
      | PrecompileKey \<Rightarrow> Inl (Panic ''Precompile not supported in zkVM'')
      | BlobKey \<Rightarrow> Inl (Panic ''Blob keys validated in blob witness''))"

definition check_preimage :: "('key, 'blob) oracle_env \<Rightarrow> 'key \<Rightarrow> bytes \<Rightarrow> unit res" where
  "check_preimage oe key v =
     res_bind (expected_hash oe (oe_key_type oe key) v) (\<lambda>h.
       case h of
         Some e \<Rightarrow> if key \<noteq> oe_new_key oe e (oe_key_type oe key) then Err invalid_key else Ok ()
       | None \<Rightarrow> Ok ())"

fun check_preimages :: "('key, 'blob) oracle_env \<Rightarrow> 'key preimage_store \<Rightarrow> unit res" where
  "check_preimages oe [] = Ok ()"
| "check_preimages oe ((k, v) # rest) = res_bind (check_preimage oe k v) (\<lambda>_. check_preimages oe rest)"

definition expect :: "'a res \<Rightarrow> string \<Rightarrow> 'a res" where
  "expect r m = (case r of Inl (Failure e) \<Rightarrow> Inl (Panic m) | Inl f \<Rightarrow> Inl f | Inr x \<Rightarrow> Ok x)"

definition lift_answer :: "error + 'a \<Rightarrow> 'a res" where
  "lift_answer r = (case r of Inl e \<Rightarrow> Err e | Inr x \<Rightarrow> Ok x)"

text \<open>\<open>HashMap::insert\<close> replaces the value of a key that is present.\<close>

fun insert_preimage :: "'key \<Rightarrow> bytes \<Rightarrow> 'key preimage_store \<Rightarrow> 'key preimage_store" where
  "insert_preimage k v [] = [(k, v)]"
| "insert_preimage k v ((j, u) # rest) = (if j = k then (j, v) # rest else (j, u) # insert_preimage k v rest)"

definition save_preimage ::
  "('key, 'blob) oracle_env \<Rightarrow> 'key \<Rightarrow> bytes \<Rightarrow> 'key preimage_store \<Rightarrow> 'key preimage_store res" where
  "save_preimage oe key v store =
     res_bind (expect (check_preimage oe key v) ''Invalid preimage'') (\<lambda>_.
       case map_of store key of
         Some old \<Rightarrow> if old \<noteq> v then Inl (Panic ''Cannot overwrite key'') else Ok (insert_preimage key v store)
       | None \<Rightarrow> Ok (insert_preimage key v store))"

definition store_get :: "'key preimage_store \<Rightarrow> 'key \<Rightarrow> bytes res" where
  "store_get store key = (case map_of store key of None \<Rightarrow> Err invalid_key | Some v \<Rightarrow> Ok v)"

text \<open>Writing a hint to the preimage store does nothing.\<close>

definition store_write :: "'key preimage_store \<Rightarrow> string \<Rightarrow> unit res" where
  "store_write store hint = Ok ()"

text \<open>\<open>get_exact\<close> into a buffer of \<open>n\<close> bytes; \<open>copy_from_slice\<close> panics on another length.\<close>

definition store_get_exact :: "'key preimage_store \<Rightarrow> 'key \<Rightarrow> nat \<Rightarrow> bytes res" where
  "store_get_exact store key n =
     res_bind (store_get store key) (\<lambda>v. if length v = n then Ok v else Inl (Panic ''copy_from_slice''))"

subsection \<open>Blobs\<close>

record 'blob blob_data =
  bd_blobs :: "'blob list"
  bd_commitments :: "bytes list"
  bd_proofs :: "bytes list"

definition empty_blob_data :: "'blob blob_data" where
  "empty_blob_data = \<lparr>bd_blobs = [], bd_commitments = [], bd_proofs = []\<rparr>"

type_synonym 'blob blob_store = "(b256 \<times> 'blob) list"

text \<open>The batch verification returns a verdict or an error; the code unwraps it and drops the verdict.\<close>

definition blob_store_from :: "('key, 'blob) oracle_env \<Rightarrow> 'blob blob_data \<Rightarrow> 'blob blob_store res" where
  "blob_store_from oe d =
     res_bind (expect (lift_answer (oe_verify_blobs oe (bd_blobs d) (bd_commitments d) (bd_proofs d)))
                 ''Failed to verify blob KZG proofs.'') (\<lambda>verdict.
       Ok (rev (zip (map (oe_versioned_hash oe) (bd_commitments d)) (bd_blobs d))))"

text \<open>Each requested hash pops one blob, also when the hashes differ.\<close>

fun get_blobs :: "b256 list \<Rightarrow> 'blob blob_store \<Rightarrow> ('blob list \<times> 'blob blob_store) res" where
  "get_blobs [] store = Ok ([], store)"
| "get_blobs (h # hs) store =
     (if store = [] then Inl (Panic ''unwrap'')
      else let (blob_hash, blob) = last store in
        res_bind (get_blobs hs (butlast store)) (\<lambda>(bs, rest).
          Ok (if h = blob_hash then blob # bs else bs, rest)))"

subsection \<open>The witness\<close>

record ('key, 'blob) witness_data =
  wd_preimages :: "'key preimage_store"
  wd_blobs :: "'blob blob_data"

definition get_oracle_and_blob_provider ::
  "('key, 'blob) oracle_env \<Rightarrow> ('key, 'blob) witness_data \<Rightarrow> ('key preimage_store \<times> 'blob blob_store) res" where
  "get_oracle_and_blob_provider oe w =
     res_bind (expect (check_preimages oe (wd_preimages w)) ''Failed to validate preimages'') (\<lambda>_.
     res_bind (blob_store_from oe (wd_blobs w)) (\<lambda>beacon. Ok (wd_preimages w, beacon)))"

subsection \<open>Recording on the host\<close>

text \<open>
  What derivation and execution ask for: a preimage, a preimage of a known length, the blobs of
  a list of versioned hashes, or to write a hint or flush the cache. The answers of the real oracle and blob provider are those of
  \<open>source_env\<close>, indexed by the number of questions asked before; the result is what was answered.
\<close>

datatype 'key question =
  GetPreimage 'key | GetPreimageExact 'key nat | GetBlobs "b256 list" | WriteHint string | FlushCache

datatype 'blob reply = Bytes bytes | Blobs "'blob list" | Written

record ('key, 'blob) source_env =
  se_get :: "'key \<Rightarrow> nat \<Rightarrow> error + bytes"
  se_get_exact :: "'key \<Rightarrow> nat \<Rightarrow> nat \<Rightarrow> error + bytes"
  se_blobs :: "b256 list \<Rightarrow> nat \<Rightarrow> error + 'blob list"
  se_write :: "string \<Rightarrow> nat \<Rightarrow> error + unit"

definition get_blob_data :: "('key, 'blob) oracle_env \<Rightarrow> 'blob \<Rightarrow> 'blob \<times> bytes \<times> bytes" where
  "get_blob_data oe b = (let c = oe_commitment oe b in (b, c, oe_proof oe b c))"

definition push_blob :: "('key, 'blob) oracle_env \<Rightarrow> 'blob \<Rightarrow> 'blob blob_data \<Rightarrow> 'blob blob_data" where
  "push_blob oe b d =
     (let (blob, commitment, prf) = get_blob_data oe b in
      \<lparr>bd_blobs = bd_blobs d @ [blob], bd_commitments = bd_commitments d @ [commitment],
       bd_proofs = bd_proofs d @ [prf]\<rparr>)"

text \<open>The collector and the online blob store hand on the answer and keep it.\<close>

definition collector_get ::
  "('key, 'blob) oracle_env \<Rightarrow> ('key, 'blob) source_env \<Rightarrow> nat \<Rightarrow> 'key \<Rightarrow> 'key preimage_store
     \<Rightarrow> (bytes \<times> 'key preimage_store) res" where
  "collector_get oe se t key store =
     res_bind (lift_answer (se_get se key t)) (\<lambda>v.
     res_bind (save_preimage oe key v store) (\<lambda>store'. Ok (v, store')))"

definition collector_get_exact ::
  "('key, 'blob) oracle_env \<Rightarrow> ('key, 'blob) source_env \<Rightarrow> nat \<Rightarrow> 'key \<Rightarrow> nat \<Rightarrow> 'key preimage_store
     \<Rightarrow> (bytes \<times> 'key preimage_store) res" where
  "collector_get_exact oe se t key n store =
     res_bind (lift_answer (se_get_exact se key n t)) (\<lambda>v.
     res_bind (save_preimage oe key v store) (\<lambda>store'. Ok (v, store')))"

definition online_get_blobs ::
  "('key, 'blob) oracle_env \<Rightarrow> ('key, 'blob) source_env \<Rightarrow> nat \<Rightarrow> b256 list \<Rightarrow> 'blob blob_data
     \<Rightarrow> ('blob list \<times> 'blob blob_data) res" where
  "online_get_blobs oe se t blob_hashes store =
     res_bind (lift_answer (se_blobs se blob_hashes t)) (\<lambda>blobs. Ok (blobs, fold (push_blob oe) blobs store))"

definition collector_write :: "('key, 'blob) source_env \<Rightarrow> nat \<Rightarrow> string \<Rightarrow> unit res" where
  "collector_write se t hint = lift_answer (se_write se hint t)"

definition collect_question ::
  "('key, 'blob) oracle_env \<Rightarrow> ('key, 'blob) source_env \<Rightarrow> nat \<Rightarrow> 'key question
     \<Rightarrow> ('key, 'blob) witness_data \<Rightarrow> ('blob reply \<times> ('key, 'blob) witness_data) res" where
  "collect_question oe se t q w =
     (case q of
        GetPreimage k \<Rightarrow>
          res_bind (collector_get oe se t k (wd_preimages w)) (\<lambda>(v, store). Ok (Bytes v, w\<lparr>wd_preimages := store\<rparr>))
      | GetPreimageExact k n \<Rightarrow>
          res_bind (collector_get_exact oe se t k n (wd_preimages w)) (\<lambda>(v, store). Ok (Bytes v, w\<lparr>wd_preimages := store\<rparr>))
      | GetBlobs hs \<Rightarrow>
          res_bind (online_get_blobs oe se t hs (wd_blobs w)) (\<lambda>(bs, d). Ok (Blobs bs, w\<lparr>wd_blobs := d\<rparr>))
      | WriteHint hint \<Rightarrow> res_bind (collector_write se t hint) (\<lambda>_. Ok (Written, w))
      | FlushCache \<Rightarrow> Ok (Written, w))"

lemmas collector_defs = collect_question_def collector_get_def collector_get_exact_def online_get_blobs_def
  collector_write_def

text \<open>The program asks the same questions of the checked witness.\<close>

definition replay_question ::
  "'key question \<Rightarrow> 'key preimage_store \<times> 'blob blob_store
     \<Rightarrow> ('blob reply \<times> 'key preimage_store \<times> 'blob blob_store) res" where
  "replay_question q s =
     (case s of (store, beacon) \<Rightarrow>
       (case q of
          GetPreimage k \<Rightarrow> res_bind (store_get store k) (\<lambda>v. Ok (Bytes v, store, beacon))
        | GetPreimageExact k n \<Rightarrow> res_bind (store_get_exact store k n) (\<lambda>v. Ok (Bytes v, store, beacon))
        | GetBlobs hs \<Rightarrow> res_bind (get_blobs hs beacon) (\<lambda>(bs, rest). Ok (Blobs bs, store, rest))
        | WriteHint hint \<Rightarrow> res_bind (store_write store hint) (\<lambda>_. Ok (Written, store, beacon))
        | FlushCache \<Rightarrow> Ok (Written, store, beacon)))"

text \<open>
  A client is any function of the answers so far: its next question, or the end with a result.
  Both sides run the same client.
\<close>

type_synonym ('key, 'blob, 'r) client = "'blob reply list \<Rightarrow> 'key question + 'r"

fun run_collecting ::
  "nat \<Rightarrow> ('key, 'blob) oracle_env \<Rightarrow> ('key, 'blob) source_env \<Rightarrow> ('key, 'blob, 'r) client \<Rightarrow> 'blob reply list
     \<Rightarrow> ('key, 'blob) witness_data \<Rightarrow> ('r \<times> ('key, 'blob) witness_data) res" where
  "run_collecting 0 oe se c as w = Inl Diverged"
| "run_collecting (Suc fuel) oe se c as w =
     (case c as of
        Inr r \<Rightarrow> Ok (r, w)
      | Inl q \<Rightarrow> res_bind (collect_question oe se (length as) q w) (\<lambda>(a, w').
          run_collecting fuel oe se c (as @ [a]) w'))"

fun run_replaying ::
  "nat \<Rightarrow> ('key, 'blob, 'r) client \<Rightarrow> 'blob reply list \<Rightarrow> 'key preimage_store \<times> 'blob blob_store
     \<Rightarrow> ('r \<times> 'key preimage_store \<times> 'blob blob_store) res" where
  "run_replaying 0 c as s = Inl Diverged"
| "run_replaying (Suc fuel) c as s =
     (case c as of
        Inr r \<Rightarrow> Ok (r, s)
      | Inl q \<Rightarrow> res_bind (replay_question q s) (\<lambda>(a, s'). run_replaying fuel c (as @ [a]) s'))"

subsection \<open>Stores only grow\<close>

lemma map_of_insert: "map_of (insert_preimage k v m) = (map_of m)(k \<mapsto> v)"
  by (induction m) (auto simp: fun_eq_iff)

lemma check_insert:
  assumes "check_preimages oe m = Ok ()" and "check_preimage oe k v = Ok ()"
  shows "check_preimages oe (insert_preimage k v m) = Ok ()"
  using assms by (induction m) (auto simp: res_bind_Ok_iff)

lemma expect_Ok_iff [simp]: "expect r m = Inr x \<longleftrightarrow> r = Inr x"
  by (auto simp: expect_def split: sum.splits fault.splits)

lemma lift_answer_Ok_iff [simp]: "lift_answer r = Inr x \<longleftrightarrow> r = Inr x"
  by (auto simp: lift_answer_def split: sum.splits)

lemma save_preimage_Ok:
  assumes "save_preimage oe k v m = Ok m'"
  shows "map_of m \<subseteq>\<^sub>m map_of m'" "map_of m' k = Some v"
    "check_preimages oe m = Ok () \<Longrightarrow> check_preimages oe m' = Ok ()"
proof -
  have check: "check_preimage oe k v = Ok ()" and m': "m' = insert_preimage k v m"
    and old: "map_of m k = None \<or> map_of m k = Some v"
    using assms by (auto simp: save_preimage_def res_bind_Ok_iff split: option.splits if_splits)
  show "map_of m \<subseteq>\<^sub>m map_of m'" "map_of m' k = Some v"
    using old by (auto simp: m' map_of_insert map_le_def)
  show "check_preimages oe m = Ok () \<Longrightarrow> check_preimages oe m' = Ok ()"
    unfolding m' by (rule check_insert [OF _ check])
qed

lemma checked_mem: "check_preimages oe m = Ok () \<Longrightarrow> map_of m k = Some v \<Longrightarrow> check_preimage oe k v = Ok ()"
  by (induction m) (auto simp: res_bind_Ok_iff split: if_splits)

lemma store_get_bound:
  assumes "check_preimages oe store = Ok ()" and "store_get store k = Ok v"
  shows "oe_key_type oe k = Keccak256Key \<longrightarrow> k = oe_new_key oe (oe_keccak256 oe v) Keccak256Key"
    "oe_key_type oe k = Sha256Key \<longrightarrow> k = oe_new_key oe (oe_sha256 oe v) Sha256Key"
    "oe_key_type oe k \<noteq> BlobKey" "oe_key_type oe k \<noteq> PrecompileKey"
proof -
  have "map_of store k = Some v" using assms(2) by (auto simp: store_get_def split: option.splits)
  from checked_mem [OF assms(1) this]
  show "oe_key_type oe k = Keccak256Key \<longrightarrow> k = oe_new_key oe (oe_keccak256 oe v) Keccak256Key"
    "oe_key_type oe k = Sha256Key \<longrightarrow> k = oe_new_key oe (oe_sha256 oe v) Sha256Key"
    "oe_key_type oe k \<noteq> BlobKey" "oe_key_type oe k \<noteq> PrecompileKey"
    by (cases "oe_key_type oe k"; auto simp: check_preimage_def res_bind_Ok_iff expected_hash_def split: if_splits)+
qed

lemma get_blobs_pairs:
  "get_blobs hs beacon = Ok (bs, rest) \<Longrightarrow> b \<in> set bs \<Longrightarrow> \<exists>h\<in>set hs. (h, b) \<in> set beacon"
proof (induction hs arbitrary: beacon bs rest)
  case Nil
  then show ?case by simp
next
  case (Cons h hs)
  obtain bh bl where last: "last beacon = (bh, bl)" by fastforce
  have ne: "beacon \<noteq> []" using Cons.prems(1) by auto
  then obtain cs where rec: "get_blobs hs (butlast beacon) = Ok (cs, rest)"
    and bs: "bs = (if h = bh then bl # cs else cs)"
    using Cons.prems(1) last by (auto simp: Let_def res_bind_Ok_iff)
  have mem: "(bh, bl) \<in> set beacon" using last_in_set [OF ne] last by simp
  show ?case
  proof (cases "b \<in> set cs")
    case True
    from Cons.IH [OF rec this] show ?thesis by (auto dest: in_set_butlastD)
  next
    case False
    then have "h = bh" "b = bl" using bs Cons.prems(2) by (auto split: if_splits)
    then show ?thesis using mem by auto
  qed
qed

lemma verify_blobs_unused [simp]:
  "check_preimages (oe\<lparr>oe_verify_blobs := f\<rparr>) m = check_preimages oe m"
proof (induction m)
  case (Cons kv m)
  have "check_preimage (oe\<lparr>oe_verify_blobs := f\<rparr>) k v = check_preimage oe k v" for k v
    by (cases "oe_key_type oe k") (simp_all add: check_preimage_def expected_hash_def)
  then show ?case using Cons by (cases kv) simp
qed simp

subsection \<open>Blobs come out in the order they went in\<close>

definition tagged :: "('key, 'blob) oracle_env \<Rightarrow> 'blob list \<Rightarrow> 'blob blob_store" where
  "tagged oe bs = map (\<lambda>b. (oe_versioned_hash oe (oe_commitment oe b), b)) bs"

lemma tagged_simps [simp]:
  "tagged oe [] = []" "tagged oe (b # bs) = (oe_versioned_hash oe (oe_commitment oe b), b) # tagged oe bs"
  "tagged oe (as @ bs) = tagged oe as @ tagged oe bs"
  by (simp_all add: tagged_def)

lemma tagged_zip: "zip (map (oe_versioned_hash oe) (map (oe_commitment oe) bs)) bs = tagged oe bs"
  by (induction bs) simp_all

lemma fold_push_blob:
  "fold (push_blob oe) bs d =
     \<lparr>bd_blobs = bd_blobs d @ bs, bd_commitments = bd_commitments d @ map (oe_commitment oe) bs,
      bd_proofs = bd_proofs d @ map (\<lambda>b. oe_proof oe b (oe_commitment oe b)) bs\<rparr>"
  by (induction bs arbitrary: d) (simp_all add: push_blob_def get_blob_data_def Let_def)

lemma get_blobs_tagged:
  "map (\<lambda>b. oe_versioned_hash oe (oe_commitment oe b)) bs = hs \<Longrightarrow>
   get_blobs hs (rev (tagged oe (bs @ cs))) = Ok (bs, rev (tagged oe cs))"
proof (induction bs arbitrary: hs)
  case Nil
  then show ?case by simp
next
  case (Cons b bs)
  then show ?case by (auto simp: butlast_append)
qed

subsection \<open>Replaying a recorded run\<close>

text \<open>What the recording relies on: answers fill the buffer, and the provider serves the blobs asked for.\<close>

definition honest_source :: "('key, 'blob) oracle_env \<Rightarrow> ('key, 'blob) source_env \<Rightarrow> bool" where
  "honest_source oe se \<longleftrightarrow>
     (\<forall>k n t v. se_get_exact se k n t = Inr v \<longrightarrow> length v = n) \<and>
     (\<forall>hs t bs. se_blobs se hs t = Inr bs \<longrightarrow>
        map (\<lambda>b. oe_versioned_hash oe (oe_commitment oe b)) bs = hs)"

text \<open>The completeness of the KZG scheme: on computed commitments and proofs the verdict is true.\<close>

definition kzg_complete :: "('key, 'blob) oracle_env \<Rightarrow> bool" where
  "kzg_complete oe \<longleftrightarrow>
     (\<forall>bs. oe_verify_blobs oe bs (map (oe_commitment oe) bs) (map (\<lambda>b. oe_proof oe b (oe_commitment oe b)) bs) = Inr True)"

definition asked_blobs :: "'blob reply \<Rightarrow> 'blob list" where
  "asked_blobs a = (case a of Blobs bs \<Rightarrow> bs | _ \<Rightarrow> [])"

lemma collect_question_replay:
  assumes h: "honest_source oe se" and run: "collect_question oe se t q w = Ok (a, w')"
  shows "map_of (wd_preimages w) \<subseteq>\<^sub>m map_of (wd_preimages w')"
    and "check_preimages oe (wd_preimages w) = Ok () \<Longrightarrow> check_preimages oe (wd_preimages w') = Ok ()"
    and "wd_blobs w' = fold (push_blob oe) (asked_blobs a) (wd_blobs w)"
    and "map_of (wd_preimages w') \<subseteq>\<^sub>m map_of store \<Longrightarrow>
      replay_question q (store, rev (tagged oe (asked_blobs a @ cs))) = Ok (a, store, rev (tagged oe cs))"
proof -
  have "map_of (wd_preimages w) \<subseteq>\<^sub>m map_of (wd_preimages w') \<and>
    (check_preimages oe (wd_preimages w) = Ok () \<longrightarrow> check_preimages oe (wd_preimages w') = Ok ()) \<and>
    wd_blobs w' = fold (push_blob oe) (asked_blobs a) (wd_blobs w) \<and>
    (map_of (wd_preimages w') \<subseteq>\<^sub>m map_of store \<longrightarrow>
      replay_question q (store, rev (tagged oe (asked_blobs a @ cs))) = Ok (a, store, rev (tagged oe cs)))"
  proof (cases q)
    case (GetPreimage k)
    then obtain v m where v: "a = Bytes v" "w' = w\<lparr>wd_preimages := m\<rparr>" "save_preimage oe k v (wd_preimages w) = Ok m"
      using run by (auto simp: collector_defs res_bind_Ok_iff)
    note save = save_preimage_Ok [OF v(3)]
    have "map_of store k = Some v" if "map_of m \<subseteq>\<^sub>m map_of store"
      using that save(2) by (auto simp: map_le_def dom_def)
    then show ?thesis
      using save v by (auto simp: GetPreimage replay_question_def store_get_def asked_blobs_def)
  next
    case (GetPreimageExact k n)
    then obtain v m where v: "a = Bytes v" "w' = w\<lparr>wd_preimages := m\<rparr>" "save_preimage oe k v (wd_preimages w) = Ok m"
      and "se_get_exact se k n t = Inr v"
      using run by (auto simp: collector_defs res_bind_Ok_iff)
    then have n: "length v = n" using h unfolding honest_source_def by blast
    note save = save_preimage_Ok [OF v(3)]
    have "map_of store k = Some v" if "map_of m \<subseteq>\<^sub>m map_of store"
      using that save(2) by (auto simp: map_le_def dom_def)
    then show ?thesis
      using save v n
      by (auto simp: GetPreimageExact replay_question_def store_get_exact_def store_get_def asked_blobs_def)
  next
    case (GetBlobs hs)
    then obtain bs where bs: "a = Blobs bs" "w' = w\<lparr>wd_blobs := fold (push_blob oe) bs (wd_blobs w)\<rparr>"
      and "se_blobs se hs t = Inr bs"
      using run by (auto simp: collector_defs res_bind_Ok_iff)
    then have "map (\<lambda>b. oe_versioned_hash oe (oe_commitment oe b)) bs = hs"
      using h unfolding honest_source_def by blast
    from get_blobs_tagged [OF this, of cs] show ?thesis
      using bs by (simp add: GetBlobs replay_question_def asked_blobs_def)
  next
    case (WriteHint hint)
    then show ?thesis
      using run by (auto simp: collector_defs res_bind_Ok_iff replay_question_def store_write_def asked_blobs_def)
  next
    case FlushCache
    then show ?thesis
      using run by (auto simp: collector_defs replay_question_def asked_blobs_def)
  qed
  then show "map_of (wd_preimages w) \<subseteq>\<^sub>m map_of (wd_preimages w')"
    and "check_preimages oe (wd_preimages w) = Ok () \<Longrightarrow> check_preimages oe (wd_preimages w') = Ok ()"
    and "wd_blobs w' = fold (push_blob oe) (asked_blobs a) (wd_blobs w)"
    and "map_of (wd_preimages w') \<subseteq>\<^sub>m map_of store \<Longrightarrow>
      replay_question q (store, rev (tagged oe (asked_blobs a @ cs))) = Ok (a, store, rev (tagged oe cs))"
    by blast+
qed

lemma run_collecting_replay:
  assumes h: "honest_source oe se"
  shows "run_collecting fuel oe se c as w = Ok (r, we) \<Longrightarrow>
    map_of (wd_preimages w) \<subseteq>\<^sub>m map_of (wd_preimages we) \<and>
    (check_preimages oe (wd_preimages w) = Ok () \<longrightarrow> check_preimages oe (wd_preimages we) = Ok ()) \<and>
    (\<exists>bs. wd_blobs we = fold (push_blob oe) bs (wd_blobs w) \<and>
      run_replaying fuel c as (wd_preimages we, rev (tagged oe bs)) = Ok (r, wd_preimages we, []))"
proof (induction fuel arbitrary: as w)
  case 0
  then show ?case by simp
next
  case (Suc fuel)
  show ?case
  proof (cases "c as")
    case (Inr x)
    then show ?thesis using Suc.prems by (auto intro!: exI [of _ "[]"])
  next
    case (Inl q)
    obtain a w' where one: "collect_question oe se (length as) q w = Ok (a, w')"
      and rest: "run_collecting fuel oe se c (as @ [a]) w' = Ok (r, we)"
      using Suc.prems Inl by (auto simp: res_bind_Ok_iff)
    note step = collect_question_replay [OF h one]
    from Suc.IH [OF rest] obtain bs where ih: "map_of (wd_preimages w') \<subseteq>\<^sub>m map_of (wd_preimages we)"
      "check_preimages oe (wd_preimages w') = Ok () \<longrightarrow> check_preimages oe (wd_preimages we) = Ok ()"
      "wd_blobs we = fold (push_blob oe) bs (wd_blobs w')"
      "run_replaying fuel c (as @ [a]) (wd_preimages we, rev (tagged oe bs)) = Ok (r, wd_preimages we, [])"
      by blast
    have "run_replaying (Suc fuel) c as (wd_preimages we, rev (tagged oe (asked_blobs a @ bs)))
        = Ok (r, wd_preimages we, [])"
      using Inl ih(4) by (simp only: run_replaying.simps sum.case step(4) [OF ih(1)] res_bind_simps prod.case)
    moreover have "wd_blobs we = fold (push_blob oe) (asked_blobs a @ bs) (wd_blobs w)"
      using ih(3) step(3) by simp
    ultimately show ?thesis
      using map_le_trans [OF step(1) ih(1)] step(2) ih(2) by blast
  qed
qed

lemma recorded_run_replays:
  assumes h: "honest_source oe se" and kzg: "kzg_complete oe"
    and run: "run_collecting fuel oe se c [] \<lparr>wd_preimages = [], wd_blobs = empty_blob_data\<rparr> = Ok (r, w)"
  shows "\<exists>s store. get_oracle_and_blob_provider oe w = Ok s \<and> run_replaying fuel c [] s = Ok (r, store, [])"
proof -
  from run_collecting_replay [OF h run] obtain bs where check: "check_preimages oe (wd_preimages w) = Ok ()"
    and blobs: "wd_blobs w = fold (push_blob oe) bs empty_blob_data"
    and replay: "run_replaying fuel c [] (wd_preimages w, rev (tagged oe bs)) = Ok (r, wd_preimages w, [])"
    by auto
  have "blob_store_from oe (wd_blobs w) = Ok (rev (tagged oe bs))"
    using kzg unfolding blobs fold_push_blob empty_blob_data_def blob_store_from_def kzg_complete_def
    by (simp add: lift_answer_def expect_def tagged_zip [symmetric])
  then have "get_oracle_and_blob_provider oe w = Ok (wd_preimages w, rev (tagged oe bs))"
    by (simp add: get_oracle_and_blob_provider_def check expect_def)
  then show ?thesis using replay by blast
qed

subsection \<open>A concrete run\<close>

definition sample_oracle :: "(key_type \<times> bytes, bytes) oracle_env" where
  "sample_oracle =
     \<lparr>oe_keccak256 = (\<lambda>v. rev v), oe_sha256 = (\<lambda>v. v), oe_key_type = fst, oe_new_key = (\<lambda>h ty. (ty, h)),
      oe_versioned_hash = (\<lambda>c. 1 # c),
      oe_verify_blobs = (\<lambda>bs cs ps. if length bs \<noteq> length cs \<or> length bs \<noteq> length ps then Inl (Msg ''MismatchLength'')
        else Inr (cs = map (\<lambda>b. take 2 b) bs \<and> ps = map (\<lambda>b. drop 2 b) bs)),
      oe_commitment = (\<lambda>b. take 2 b), oe_proof = (\<lambda>b c. drop 2 b)\<rparr>"

definition sample_source :: "(key_type \<times> bytes, bytes) source_env" where
  "sample_source =
     \<lparr>se_get = (\<lambda>k t. Inr (rev (snd k))), se_get_exact = (\<lambda>k n t. if n = 2 then Inr [3, 4] else Inl RpcError),
      se_blobs = (\<lambda>hs t. if hs = [[1, 7, 8], [1, 9, 9]] then Inr [[7, 8, 5], [9, 9]] else Inl RpcError),
      se_write = (\<lambda>_ _. Inr ())\<rparr>"

definition sample_client :: "(key_type \<times> bytes, bytes, nat) client" where
  "sample_client as =
     (case as of
        [] \<Rightarrow> Inl (GetPreimage (Keccak256Key, [1, 2]))
      | [_] \<Rightarrow> Inl (GetBlobs [[1, 7, 8], [1, 9, 9]])
      | [_, _] \<Rightarrow> Inl (GetPreimageExact (Sha256Key, [3, 4]) 2)
      | _ \<Rightarrow> Inr (length as))"

lemma sample_source_honest: "honest_source sample_oracle sample_source"
  by (auto simp: honest_source_def sample_oracle_def sample_source_def split: if_splits)

lemma sample_kzg: "kzg_complete sample_oracle"
  by (simp add: kzg_complete_def sample_oracle_def)

subsection \<open>Properties\<close>

text \<open>C8. The witness is complete. If the host's run of a client (derivation and execution) returns
  \<open>r\<close> while its answers are recorded, then the checks of the program accept the recorded witness,
  and the program's run of the same client on it asks the same questions, gets the same answers,
  returns the same \<open>r\<close>, and uses up all recorded blobs. This holds for every sequence of preimage
  and blob requests, repeated ones included.\<close>

theorem recorded_witness_replays:
  assumes "honest_source oe se" and "kzg_complete oe"
    and "run_collecting fuel oe se c [] \<lparr>wd_preimages = [], wd_blobs = empty_blob_data\<rparr> = Ok (r, w)"
  shows "\<exists>s store. get_oracle_and_blob_provider oe w = Ok s \<and> run_replaying fuel c [] s = Ok (r, store, [])"
  by (rule recorded_run_replays [OF assms])

theorem recorded_witness_replays_witness:
  "\<exists>w s store. run_collecting 4 sample_oracle sample_source sample_client []
        \<lparr>wd_preimages = [], wd_blobs = empty_blob_data\<rparr> = Ok (3, w)
     \<and> get_oracle_and_blob_provider sample_oracle w = Ok s
     \<and> run_replaying 4 sample_client [] s = Ok (3, store, [])"
proof -
  have "\<exists>w. run_collecting 4 sample_oracle sample_source sample_client []
      \<lparr>wd_preimages = [], wd_blobs = empty_blob_data\<rparr> = Ok (3, w)"
    by (simp add: numeral_eq_Suc sample_client_def collector_defs sample_source_def lift_answer_def
        save_preimage_def check_preimage_def expected_hash_def expect_def sample_oracle_def)
  then obtain w where run: "run_collecting 4 sample_oracle sample_source sample_client []
      \<lparr>wd_preimages = [], wd_blobs = empty_blob_data\<rparr> = Ok (3, w)" by blast
  from recorded_witness_replays [OF sample_source_honest sample_kzg this] run show ?thesis by blast
qed

text \<open>C19. (safety) What the program reads is bound to the keys it reads by. When the checks of the
  program accept a witness, every preimage it can read under a Keccak or SHA-256 key has the
  hash of that key, no other hashed kind of key is present, and every blob it is handed for a list of versioned
  hashes is the blob of the witness at a position whose commitment has one of these hashes. The batch
  verification of the blobs has returned without an error; its verdict is not looked at: the same
  witness is accepted when the verdict is false.\<close>

theorem accepted_witness_is_bound:
  assumes "get_oracle_and_blob_provider oe w = Ok (store, beacon)"
  shows "(\<forall>k v. store_get store k = Ok v \<longrightarrow>
        (oe_key_type oe k = Keccak256Key \<longrightarrow> k = oe_new_key oe (oe_keccak256 oe v) Keccak256Key) \<and>
        (oe_key_type oe k = Sha256Key \<longrightarrow> k = oe_new_key oe (oe_sha256 oe v) Sha256Key) \<and>
        oe_key_type oe k \<noteq> BlobKey \<and> oe_key_type oe k \<noteq> PrecompileKey)
    \<and> (\<forall>hs bs rest. get_blobs hs beacon = Ok (bs, rest) \<longrightarrow>
        (\<forall>b\<in>set bs. \<exists>i < length (bd_blobs (wd_blobs w)). i < length (bd_commitments (wd_blobs w)) \<and>
          b = bd_blobs (wd_blobs w) ! i \<and> oe_versioned_hash oe (bd_commitments (wd_blobs w) ! i) \<in> set hs))
    \<and> (\<exists>verdict. oe_verify_blobs oe (bd_blobs (wd_blobs w)) (bd_commitments (wd_blobs w)) (bd_proofs (wd_blobs w)) = Inr verdict)
    \<and> get_oracle_and_blob_provider (oe\<lparr>oe_verify_blobs := \<lambda>_ _ _. Inr False\<rparr>) w = Ok (store, beacon)"
proof (intro conjI allI impI ballI)
  have checks: "check_preimages oe store = Ok ()"
    and beacon: "rev beacon = zip (map (oe_versioned_hash oe) (bd_commitments (wd_blobs w))) (bd_blobs (wd_blobs w))"
    using assms by (auto simp: get_oracle_and_blob_provider_def res_bind_Ok_iff blob_store_from_def)
  show "oe_key_type oe k = Keccak256Key \<Longrightarrow> k = oe_new_key oe (oe_keccak256 oe v) Keccak256Key"
    "oe_key_type oe k = Sha256Key \<Longrightarrow> k = oe_new_key oe (oe_sha256 oe v) Sha256Key"
    "oe_key_type oe k \<noteq> BlobKey" "oe_key_type oe k \<noteq> PrecompileKey" if "store_get store k = Ok v" for k v
    using store_get_bound [OF checks that] by simp_all
  show "\<exists>i < length (bd_blobs (wd_blobs w)). i < length (bd_commitments (wd_blobs w)) \<and>
      b = bd_blobs (wd_blobs w) ! i \<and> oe_versioned_hash oe (bd_commitments (wd_blobs w) ! i) \<in> set hs"
    if "get_blobs hs beacon = Ok (bs, rest)" and "b \<in> set bs" for hs bs rest b
    using get_blobs_pairs [OF that] unfolding set_rev [of beacon, symmetric] beacon
    by (auto simp: set_zip)
  show "\<exists>verdict. oe_verify_blobs oe (bd_blobs (wd_blobs w)) (bd_commitments (wd_blobs w)) (bd_proofs (wd_blobs w)) = Inr verdict"
    "get_oracle_and_blob_provider (oe\<lparr>oe_verify_blobs := \<lambda>_ _ _. Inr False\<rparr>) w = Ok (store, beacon)"
    using assms by (auto simp: get_oracle_and_blob_provider_def res_bind_Ok_iff blob_store_from_def)
qed

theorem accepted_witness_is_bound_witness:
  "let w = \<lparr>wd_preimages = [((Keccak256Key, [1, 2]), [2, 1])],
      wd_blobs = \<lparr>bd_blobs = [[7, 8, 5]], bd_commitments = [[6, 6]], bd_proofs = [[]]\<rparr>\<rparr>;
     beacon = [([1, 6, 6], [7, 8, 5])] in
   get_oracle_and_blob_provider sample_oracle w = Ok (wd_preimages w, beacon)
   \<and> (Keccak256Key, [1, 2]) = oe_new_key sample_oracle (oe_keccak256 sample_oracle [2, 1]) Keccak256Key
   \<and> oe_verify_blobs sample_oracle [[7, 8, 5]] [[6, 6]] [[]] = Inr False
   \<and> get_oracle_and_blob_provider (sample_oracle\<lparr>oe_verify_blobs := \<lambda>_ _ _. Inr False\<rparr>) w = Ok (wd_preimages w, beacon)"
proof -
  let ?store = "[((Keccak256Key, [1, 2 :: 8 word]), [2, 1 :: 8 word])]"
  let ?w = "\<lparr>wd_preimages = ?store, wd_blobs = \<lparr>bd_blobs = [[7, 8, 5]], bd_commitments = [[6, 6]], bd_proofs = [[]]\<rparr>\<rparr>"
  have ok: "get_oracle_and_blob_provider sample_oracle ?w = Ok (?store, [([1, 6, 6], [7, 8, 5])])"
    by (simp add: get_oracle_and_blob_provider_def check_preimage_def expected_hash_def expect_def
        blob_store_from_def lift_answer_def sample_oracle_def)
  have verdict: "oe_verify_blobs sample_oracle [[7, 8, 5]] [[6, 6]] [[]] = Inr False"
    by (simp add: sample_oracle_def)
  have "store_get ?store (Keccak256Key, [1, 2]) = Ok [2, 1]" by (simp add: store_get_def)
  moreover note accepted_witness_is_bound [OF ok]
  ultimately show ?thesis using ok verdict by (simp add: Let_def) (simp add: sample_oracle_def)
qed

end
