(* ===== verification/Derivation.thy ===== *)
theory Derivation
  imports Boot Fetcher Witness
begin

text \<open>
  The range program: \<open>programs/range/utils/src/lib.rs\<close> checks the witness, boots from it
  (\<open>utils/client/src/witness/executor.rs\<close>), advances the derivation driver to the claimed block
  (\<open>utils/client/src/client.rs\<close>) and commits to the claim if the output root is the claimed one.
  The driver, its pipeline, the block executor and the oracle-backed providers are the kona crates;
  they are the fields of \<open>driver_env\<close> and \<open>kona_range_env\<close>, over their types of states.
\<close>

subsection \<open>Data of the driver\<close>

record block_ref =
  br_hash :: b256
  br_number :: int
  br_parent_hash :: b256
  br_timestamp :: int

record l2_block_info =
  li_block_info :: block_ref
  li_l1_origin :: "b256 \<times> int"
  li_seq_num :: int

record tip_cursor =
  tc_l2_safe_head :: l2_block_info
  tc_l2_safe_head_header :: header
  tc_l2_safe_head_output_root :: b256

text \<open>Payload attributes: the two fields the program reads, and the rest.\<close>

record 'x attributes =
  at_timestamp :: int
  at_transactions :: "bytes list option"
  at_rest :: 'x

datatype 'x payload_result = Payload "'x attributes" | EndOfSource | PipelineFailure error

record ('pipe, 'exec, 'cur) driver =
  d_cursor :: 'cur
  d_executor :: 'exec
  d_pipeline :: 'pipe

record ('cfg, 'pipe, 'exec, 'cur, 'x, 'tx) driver_env =
  produce_payload :: "'pipe \<Rightarrow> l2_block_info \<Rightarrow> 'x payload_result \<times> 'pipe"
  signal_flush_channel :: "'pipe \<Rightarrow> (error + unit) \<times> 'pipe"
  pipeline_origin :: "'pipe \<Rightarrow> block_ref option"
  update_safe_head :: "header \<Rightarrow> 'exec \<Rightarrow> 'exec"
  execute_payload :: "'x attributes \<Rightarrow> 'exec \<Rightarrow> (error + header) \<times> 'exec"
  compute_output_root :: "'exec \<Rightarrow> (error + b256) \<times> 'exec"
  decode_tx :: "bytes \<Rightarrow> error + 'tx"
  from_block_and_genesis :: "header \<Rightarrow> 'tx list \<Rightarrow> 'pipe \<Rightarrow> error + l2_block_info"
  cursor_tip :: "'cur \<Rightarrow> tip_cursor"
  cursor_advance :: "block_ref \<Rightarrow> tip_cursor \<Rightarrow> 'cur \<Rightarrow> 'cur"
  is_interop_active :: "'cfg \<Rightarrow> int \<Rightarrow> bool"
  is_holocene_active :: "'cfg \<Rightarrow> int \<Rightarrow> bool"

abbreviation safe_number :: "tip_cursor \<Rightarrow> int" where
  "safe_number t \<equiv> br_number (li_block_info (tc_l2_safe_head t))"

subsection \<open>Advancing to the target\<close>

definition on_pipeline :: "('pipe \<Rightarrow> 'a \<times> 'pipe) \<Rightarrow> (('pipe, 'exec, 'cur) driver, 'a) op" where
  "on_pipeline f = (\<lambda>d. case f (d_pipeline d) of (x, p) \<Rightarrow> (Ok x, d\<lparr>d_pipeline := p\<rparr>))"

definition on_executor :: "('exec \<Rightarrow> 'a \<times> 'exec) \<Rightarrow> (('pipe, 'exec, 'cur) driver, 'a) op" where
  "on_executor f = (\<lambda>d. case f (d_executor d) of (x, e) \<Rightarrow> (Ok x, d\<lparr>d_executor := e\<rparr>))"

text \<open>\<open>OpTxType::Deposit\<close>.\<close>

definition deposit_type :: "8 word" where "deposit_type = 126"

definition deposits_only :: "'x attributes \<Rightarrow> 'x attributes" where
  "deposits_only a =
     a\<lparr>at_transactions := map_option (filter (\<lambda>tx. tx \<noteq> [] \<and> hd tx = deposit_type)) (at_transactions a)\<rparr>"

text \<open>
  Execution of a payload on the safe head: the header and the attributes that were executed, or
  \<open>None\<close> where the loop continues without the block.
\<close>

definition execute_or_retry ::
  "('cfg, 'pipe, 'exec, 'cur, 'x, 'tx) driver_env \<Rightarrow> 'cfg \<Rightarrow> tip_cursor \<Rightarrow> 'x attributes
     \<Rightarrow> (('pipe, 'exec, 'cur) driver, (header \<times> 'x attributes) option) op" where
  "execute_or_retry env cfg tip attrs =
     andThen (on_executor (\<lambda>e. ((), update_safe_head env (tc_l2_safe_head_header tip) e))) (\<lambda>_.
     andThen (on_executor (execute_payload env attrs)) (\<lambda>r.
       case r of
         Inr h \<Rightarrow> ret (Some (h, attrs))
       | Inl _ \<Rightarrow>
           (if is_holocene_active env cfg (at_timestamp attrs)
            then andThen (on_pipeline (signal_flush_channel env)) (\<lambda>f.
              case f of
                Inl e \<Rightarrow> throw (Failure e)
              | Inr _ \<Rightarrow>
                  andThen (on_executor (\<lambda>e. ((), update_safe_head env (tc_l2_safe_head_header tip) e))) (\<lambda>_.
                  andThen (on_executor (execute_payload env (deposits_only attrs))) (\<lambda>r2.
                    case r2 of
                      Inr h \<Rightarrow> ret (Some (h, deposits_only attrs))
                    | Inl e \<Rightarrow> throw (Failure e))))
            else ret None)))"

fun decode_all :: "(bytes \<Rightarrow> error + 'tx) \<Rightarrow> bytes list \<Rightarrow> 'tx list res" where
  "decode_all f [] = Ok []"
| "decode_all f (tx # txs) =
     (case f tx of Inl e \<Rightarrow> Err e | Inr t \<Rightarrow> res_bind (decode_all f txs) (\<lambda>ts. Ok (t # ts)))"

definition adopt_block ::
  "('cfg, 'pipe, 'exec, 'cur, 'x, 'tx) driver_env \<Rightarrow> header \<Rightarrow> 'x attributes
     \<Rightarrow> (('pipe, 'exec, 'cur) driver, unit) op" where
  "adopt_block env h attrs =
     andThen (lift (decode_all (decode_tx env)
                (case at_transactions attrs of None \<Rightarrow> [] | Some txs \<Rightarrow> txs))) (\<lambda>txs.
     andThen (asks (\<lambda>d. pipeline_origin env (d_pipeline d))) (\<lambda>o1.
       case o1 of
         None \<Rightarrow> throw (Failure (Msg ''MissingOrigin''))
       | Some l1_origin \<Rightarrow>
           andThen (asks (\<lambda>d. from_block_and_genesis env h txs (d_pipeline d))) (\<lambda>i.
             case i of
               Inl e \<Rightarrow> throw (Failure e)
             | Inr l2_info \<Rightarrow>
                 andThen (on_executor (compute_output_root env)) (\<lambda>r.
                   case r of
                     Inl e \<Rightarrow> throw (Failure e)
                   | Inr root \<Rightarrow>
                       update (\<lambda>d. d\<lparr>d_cursor := cursor_advance env l1_origin
                         \<lparr>tc_l2_safe_head = l2_info, tc_l2_safe_head_header = h,
                          tc_l2_safe_head_output_root = root\<rparr> (d_cursor d)\<rparr>)))))"

text \<open>One iteration: \<open>Inl t\<close> continues with target \<open>t\<close>, \<open>Inr\<close> returns.\<close>

definition advance_step ::
  "('cfg, 'pipe, 'exec, 'cur, 'x, 'tx) driver_env \<Rightarrow> 'cfg \<Rightarrow> int option
     \<Rightarrow> (('pipe, 'exec, 'cur) driver, int option + l2_block_info \<times> b256) op" where
  "advance_step env cfg target =
     andThen (asks (\<lambda>d. cursor_tip env (d_cursor d))) (\<lambda>tip.
       if (case target of None \<Rightarrow> False | Some tb \<Rightarrow> tb \<le> safe_number tip)
       then ret (Inr (tc_l2_safe_head tip, tc_l2_safe_head_output_root tip))
       else
         andThen (on_pipeline (\<lambda>p. produce_payload env p (tc_l2_safe_head tip))) (\<lambda>r.
           case r of
             PipelineFailure e \<Rightarrow> throw (Failure e)
           | EndOfSource \<Rightarrow>
               (if is_interop_active env cfg (safe_number tip)
                then throw (Failure (Msg ''EndOfSource''))
                else ret (Inl (if target \<noteq> None then Some (safe_number tip) else None)))
           | Payload attrs \<Rightarrow>
               andThen (execute_or_retry env cfg tip attrs) (\<lambda>x.
                 case x of
                   None \<Rightarrow> ret (Inl target)
                 | Some (h, executed) \<Rightarrow> andThen (adopt_block env h executed) (\<lambda>_. ret (Inl target)))))"

partial_function (option) advance_loop ::
  "('cfg, 'pipe, 'exec, 'cur, 'x, 'tx) driver_env \<Rightarrow> 'cfg \<Rightarrow> int option \<Rightarrow> ('pipe, 'exec, 'cur) driver
     \<Rightarrow> ((l2_block_info \<times> b256) res \<times> ('pipe, 'exec, 'cur) driver) option" where
  "advance_loop env cfg target d =
     (case advance_step env cfg target d of
        (Inl e, d') \<Rightarrow> Some (Inl e, d')
      | (Inr (Inr r), d') \<Rightarrow> Some (Ok r, d')
      | (Inr (Inl t), d') \<Rightarrow> advance_loop env cfg t d')"

definition advance_to_target ::
  "('cfg, 'pipe, 'exec, 'cur, 'x, 'tx) driver_env \<Rightarrow> 'cfg \<Rightarrow> int option
     \<Rightarrow> (('pipe, 'exec, 'cur) driver, l2_block_info \<times> b256) op" where
  "advance_to_target env cfg target = run_loop (advance_loop env cfg target)"

subsection \<open>Booting from the witness\<close>

definition fetch_safe_head_hash :: "('key, 'blob) oracle_env \<Rightarrow> 'key preimage_store \<Rightarrow> b256 \<Rightarrow> b256 res" where
  "fetch_safe_head_hash oe store agreed_root =
     res_bind (store_write store ''starting-l2-output'') (\<lambda>_.
     res_bind (store_get_exact store (oe_new_key oe agreed_root Keccak256Key) 128) (\<lambda>output_preimage.
       Ok (take 32 (drop 96 output_preimage))))"

text \<open>The providers are generic in their oracle; the program's oracle is the checked preimage store.\<close>

record 'o l1_provider =
  l1p_head :: b256
  l1p_oracle :: 'o

record ('o, 'cfg, 'cur) l2_provider =
  l2p_head :: b256
  l2p_config :: 'cfg
  l2p_oracle :: 'o
  l2p_cursor :: "'cur option"

record ('key, 'blob, 'cfg, 'pipe, 'exec, 'cur) kona_range_env =
  load_boot :: "'key preimage_store \<Rightarrow> error + 'cfg kona_boot"
  header_by_hash :: "('key preimage_store, 'cfg, 'cur) l2_provider \<Rightarrow> b256 \<Rightarrow> error + header"
  new_oracle_pipeline_cursor ::
    "'cfg \<Rightarrow> header \<times> b256 \<Rightarrow> 'key preimage_store l1_provider \<Rightarrow> ('key preimage_store, 'cfg, 'cur) l2_provider \<Rightarrow> error + 'cur"
  create_pipeline ::
    "'cfg \<Rightarrow> 'cur \<Rightarrow> 'key preimage_store \<Rightarrow> 'blob blob_store \<Rightarrow> 'key preimage_store l1_provider
       \<Rightarrow> ('key preimage_store, 'cfg, 'cur) l2_provider \<Rightarrow> error + 'pipe"
  new_executor :: "'cfg \<Rightarrow> ('key preimage_store, 'cfg, 'cur) l2_provider \<Rightarrow> 'exec"

definition get_inputs_for_pipeline ::
  "('key, 'blob) oracle_env \<Rightarrow> ('key, 'blob, 'cfg, 'pipe, 'exec, 'cur) kona_range_env \<Rightarrow> 'key preimage_store
     \<Rightarrow> ('cfg kona_boot \<times> ('cur \<times> 'key preimage_store l1_provider \<times> ('key preimage_store, 'cfg, 'cur) l2_provider) option) res" where
  "get_inputs_for_pipeline oe ke store =
     (case load_boot ke store of
        Inl e \<Rightarrow> Err (Msg ''Failed to load boot info'')
      | Inr boot \<Rightarrow>
          res_bind (fetch_safe_head_hash oe store (agreed_l2_output_root boot)) (\<lambda>safe_head_hash.
            let l1 = \<lparr>l1p_head = l1_head boot, l1p_oracle = store\<rparr>;
                l2 = \<lparr>l2p_head = safe_head_hash, l2p_config = rollup_config boot, l2p_oracle = store,
                      l2p_cursor = None\<rparr> in
            res_bind (lift_answer (header_by_hash ke l2 safe_head_hash)) (\<lambda>safe_head.
              if claimed_l2_block_number boot < number safe_head
              then Err (Msg ''Claimed L2 block number is less than the safe head'')
              else res_bind (lift_answer (new_oracle_pipeline_cursor ke (rollup_config boot)
                               (safe_head, safe_head_hash) l1 l2)) (\<lambda>cur.
                Ok (boot, Some (cur, l1, l2\<lparr>l2p_cursor := Some cur\<rparr>))))))"

subsection \<open>The executor\<close>

definition executor_run ::
  "('key, 'blob, 'cfg, 'pipe, 'exec, 'cur) kona_range_env \<Rightarrow> ('cfg, 'pipe, 'exec, 'cur, 'x, 'tx) driver_env
     \<Rightarrow> 'cfg kona_boot \<Rightarrow> 'pipe \<Rightarrow> 'cur \<Rightarrow> ('key preimage_store, 'cfg, 'cur) l2_provider \<Rightarrow> 'cfg kona_boot res" where
  "executor_run ke env boot pipeline cur l2 =
     (let d = \<lparr>d_cursor = cur, d_executor = new_executor ke (rollup_config boot) l2, d_pipeline = pipeline\<rparr> in
      res_bind (fst (advance_to_target env (rollup_config boot) (Some (claimed_l2_block_number boot)) d))
        (\<lambda>(safe_head, output_root).
          if output_root \<noteq> claimed_l2_output_root boot
          then Err (Msg ''Failed to validate L2 block with claimed output root'')
          else Ok boot))"

subsection \<open>The range program\<close>

definition run_range_program ::
  "('cfg \<Rightarrow> b256) \<Rightarrow> ('key, 'blob) oracle_env \<Rightarrow> ('key, 'blob, 'cfg, 'pipe, 'exec, 'cur) kona_range_env
     \<Rightarrow> ('cfg, 'pipe, 'exec, 'cur, 'x, 'tx) driver_env \<Rightarrow> ('key, 'blob) witness_data \<Rightarrow> boot_info res" where
  "run_range_program cfg_hash oe ke env w =
     res_bind (expect (get_oracle_and_blob_provider oe w) ''unwrap'') (\<lambda>(oracle, beacon).
     res_bind (expect (get_inputs_for_pipeline oe ke oracle) ''unwrap'') (\<lambda>(boot, input).
     res_bind (case input of
         Some (cur, l1, l2) \<Rightarrow>
           res_bind (expect (lift_answer (create_pipeline ke (rollup_config boot) cur oracle beacon l1 l2)) ''unwrap'')
             (\<lambda>pipeline. expect (executor_run ke env boot pipeline cur l2) ''unwrap'')
       | None \<Rightarrow> Ok boot) (\<lambda>b.
       Ok (boot_info_from cfg_hash b))))"

text \<open>\<open>main\<close>: the witness is deserialized from the standard input.\<close>

definition range_main ::
  "(bytes \<Rightarrow> error + ('key, 'blob) witness_data) \<Rightarrow> ('cfg \<Rightarrow> b256) \<Rightarrow> ('key, 'blob) oracle_env
     \<Rightarrow> ('key, 'blob, 'cfg, 'pipe, 'exec, 'cur) kona_range_env
     \<Rightarrow> ('cfg, 'pipe, 'exec, 'cur, 'x, 'tx) driver_env \<Rightarrow> bytes \<Rightarrow> boot_info res" where
  "range_main from_bytes cfg_hash oe ke env stdin =
     res_bind (expect (lift_answer (from_bytes stdin)) ''Failed to deserialize witness data.'')
       (run_range_program cfg_hash oe ke env)"

subsection \<open>What one iteration does\<close>

text \<open>
  Execution of a payload on the block of a tip, leaving the executor in state \<open>e'\<close>: of the payload
  itself, or, where that failed and Holocene is active, of its deposits.
\<close>

definition executed_on ::
  "('cfg, 'pipe, 'exec, 'cur, 'x, 'tx) driver_env \<Rightarrow> 'cfg \<Rightarrow> tip_cursor \<Rightarrow> 'x attributes \<Rightarrow> 'x attributes
     \<Rightarrow> header \<Rightarrow> 'exec \<Rightarrow> bool" where
  "executed_on env cfg t attrs used h e' \<longleftrightarrow>
     (\<exists>e. let start = update_safe_head env (tc_l2_safe_head_header t) in
       used = attrs \<and> execute_payload env attrs (start e) = (Inr h, e')
       \<or> is_holocene_active env cfg (at_timestamp attrs) \<and> used = deposits_only attrs \<and>
         (\<exists>err e1. execute_payload env attrs (start e) = (Inl err, e1) \<and>
            execute_payload env (deposits_only attrs) (start e1) = (Inr h, e')))"

text \<open>One derived block on top of another.\<close>

definition builds_on ::
  "('cfg, 'pipe, 'exec, 'cur, 'x, 'tx) driver_env \<Rightarrow> 'cfg \<Rightarrow> tip_cursor \<Rightarrow> tip_cursor \<Rightarrow> bool" where
  "builds_on env cfg t t' \<longleftrightarrow>
     (\<exists>p p' attrs used e e' txs pp.
        produce_payload env p (tc_l2_safe_head t) = (Payload attrs, p') \<and>
        executed_on env cfg t attrs used (tc_l2_safe_head_header t') e \<and>
        decode_all (decode_tx env) (case at_transactions used of None \<Rightarrow> [] | Some l \<Rightarrow> l) = Ok txs \<and>
        from_block_and_genesis env (tc_l2_safe_head_header t') txs pp = Inr (tc_l2_safe_head t') \<and>
        compute_output_root env e = (Inr (tc_l2_safe_head_output_root t'), e'))"

definition source_ends_at :: "('cfg, 'pipe, 'exec, 'cur, 'x, 'tx) driver_env \<Rightarrow> tip_cursor \<Rightarrow> bool" where
  "source_ends_at env t \<longleftrightarrow> (\<exists>p p'. produce_payload env p (tc_l2_safe_head t) = (EndOfSource, p'))"

text \<open>What the kona cursor promises: the tip it was advanced to is its tip.\<close>

definition cursor_law :: "('cfg, 'pipe, 'exec, 'cur, 'x, 'tx) driver_env \<Rightarrow> bool" where
  "cursor_law env \<longleftrightarrow> (\<forall>o1 t c. cursor_tip env (cursor_advance env o1 t c) = t)"

abbreviation tip_of :: "('cfg, 'pipe, 'exec, 'cur, 'x, 'tx) driver_env \<Rightarrow> ('pipe, 'exec, 'cur) driver \<Rightarrow> tip_cursor" where
  "tip_of env d \<equiv> cursor_tip env (d_cursor d)"

lemma execute_or_retry_Ok:
  assumes "execute_or_retry env cfg tip attrs d = (Inr x, d')"
  shows "d_cursor d' = d_cursor d"
    and "x = Some (h, used) \<Longrightarrow> executed_on env cfg tip attrs used h (d_executor d')"
proof -
  let ?start = "update_safe_head env (tc_l2_safe_head_header tip)"
  obtain r e1 where ex: "execute_payload env attrs (?start (d_executor d)) = (r, e1)" by fastforce
  have both: "d_cursor d' = d_cursor d \<and> (\<forall>h used. x = Some (h, used) \<longrightarrow>
      executed_on env cfg tip attrs used h (d_executor d'))"
  proof (cases r)
    case (Inr h)
    then have "x = Some (h, attrs)" "d' = d\<lparr>d_executor := e1\<rparr>"
      using assms ex by (simp_all add: execute_or_retry_def andThen_def on_executor_def ret_def)
    then show ?thesis using ex Inr by (auto simp: executed_on_def Let_def)
  next
    case (Inl err)
    show ?thesis
    proof (cases "is_holocene_active env cfg (at_timestamp attrs)")
      case False
      then have "x = None" "d' = d\<lparr>d_executor := e1\<rparr>"
        using assms ex Inl by (simp_all add: execute_or_retry_def andThen_def on_executor_def ret_def)
      then show ?thesis by simp
    next
      case True
      obtain f p where f: "signal_flush_channel env (d_pipeline d) = (f, p)" by fastforce
      obtain r2 e2 where ex2: "execute_payload env (deposits_only attrs) (?start e1) = (r2, e2)" by fastforce
      obtain h where "r2 = Inr h" "x = Some (h, deposits_only attrs)" "d' = d\<lparr>d_executor := e2, d_pipeline := p\<rparr>"
        using assms ex Inl True f ex2
        by (auto simp: execute_or_retry_def andThen_def on_executor_def on_pipeline_def ret_def throw_def
            split: sum.splits)
      then show ?thesis using ex Inl True ex2 by (auto simp: executed_on_def Let_def)
    qed
  qed
  show "d_cursor d' = d_cursor d" using both by blast
  show "x = Some (h, used) \<Longrightarrow> executed_on env cfg tip attrs used h (d_executor d')" using both by blast
qed

lemma adopt_block_Ok:
  assumes "adopt_block env h attrs d = (Inr u, d')" and "cursor_law env"
  shows "\<exists>txs e'. decode_all (decode_tx env) (case at_transactions attrs of None \<Rightarrow> [] | Some l \<Rightarrow> l) = Ok txs \<and>
     tc_l2_safe_head_header (tip_of env d') = h \<and>
     from_block_and_genesis env h txs (d_pipeline d) = Inr (tc_l2_safe_head (tip_of env d')) \<and>
     compute_output_root env (d_executor d) = (Inr (tc_l2_safe_head_output_root (tip_of env d')), e')"
proof -
  obtain r e1 where r: "compute_output_root env (d_executor d) = (r, e1)" by fastforce
  show ?thesis using assms r
    by (cases "decode_all (decode_tx env) (case at_transactions attrs of None \<Rightarrow> [] | Some l \<Rightarrow> l)";
        cases "pipeline_origin env (d_pipeline d)"; cases r)
      (auto simp: adopt_block_def andThen_def asks_def lift_def throw_def update_def on_executor_def cursor_law_def
        split: sum.splits)
qed

lemma advance_step_Ok:
  assumes run: "advance_step env cfg target d = (Inr out, d')" and law: "cursor_law env"
  shows "case out of
     Inr (info, root) \<Rightarrow> d' = d \<and> (\<exists>tb. target = Some tb \<and> tb \<le> safe_number (tip_of env d)) \<and>
       info = tc_l2_safe_head (tip_of env d) \<and> root = tc_l2_safe_head_output_root (tip_of env d)
   | Inl t \<Rightarrow> \<not> (\<exists>tb. target = Some tb \<and> tb \<le> safe_number (tip_of env d)) \<and>
      (t = target \<and> (tip_of env d' = tip_of env d \<or> builds_on env cfg (tip_of env d) (tip_of env d'))
       \<or> t = map_option (\<lambda>_. safe_number (tip_of env d)) target \<and> tip_of env d' = tip_of env d \<and>
         source_ends_at env (tip_of env d))"
proof (cases "\<exists>tb. target = Some tb \<and> tb \<le> safe_number (tip_of env d)")
  case True
  then show ?thesis using run
    by (auto simp: advance_step_def andThen_def asks_def ret_def)
next
  case False
  let ?tip = "tip_of env d"
  obtain r p where pp: "produce_payload env (d_pipeline d) (tc_l2_safe_head ?tip) = (r, p)" by fastforce
  have no: "\<not> (case target of None \<Rightarrow> False | Some tb \<Rightarrow> tb \<le> safe_number ?tip)"
    using False by (auto split: option.splits)
  let ?d = "d\<lparr>d_pipeline := p\<rparr>"
  show ?thesis
  proof (cases r)
    case (PipelineFailure e)
    then show ?thesis using run no pp
      by (simp add: advance_step_def andThen_def asks_def on_pipeline_def throw_def)
  next
    case EndOfSource
    then have "source_ends_at env ?tip" using pp unfolding source_ends_at_def by blast
    moreover have "out = Inl (map_option (\<lambda>_. safe_number ?tip) target)" "d' = ?d"
      using EndOfSource run no pp
      by (auto simp: advance_step_def andThen_def asks_def on_pipeline_def throw_def ret_def split: if_splits)
    ultimately show ?thesis using False by simp
  next
    case (Payload attrs)
    obtain x d1 where ex: "execute_or_retry env cfg ?tip attrs ?d = (x, d1)" by fastforce
    show ?thesis
    proof (cases x)
      case (Inl e)
      then show ?thesis using Payload run no pp ex
        by (simp add: advance_step_def andThen_def asks_def on_pipeline_def)
    next
      case (Inr y)
      note exec = execute_or_retry_Ok [OF ex [unfolded Inr]]
      show ?thesis
      proof (cases y)
        case None
        then have "out = Inl target" "d' = d1"
          using Payload run no pp ex Inr by (simp_all add: advance_step_def andThen_def asks_def on_pipeline_def ret_def)
        then show ?thesis using exec(1) False by simp
      next
        case (Some z)
        obtain h used where z: "z = (h, used)" by fastforce
        have "\<exists>u. adopt_block env h used d1 = (Inr u, d') \<and> out = Inl target"
          using Payload run no pp ex Inr Some z
          by (auto simp: advance_step_def andThen_def asks_def on_pipeline_def ret_def split: prod.splits sum.splits)
        then obtain u where adopt: "adopt_block env h used d1 = (Inr u, d')" and out: "out = Inl target" by blast
        obtain txs e' where block:
          "decode_all (decode_tx env) (case at_transactions used of None \<Rightarrow> [] | Some l \<Rightarrow> l) = Ok txs"
          "tc_l2_safe_head_header (tip_of env d') = h"
          "from_block_and_genesis env h txs (d_pipeline d1) = Inr (tc_l2_safe_head (tip_of env d'))"
          "compute_output_root env (d_executor d1) = (Inr (tc_l2_safe_head_output_root (tip_of env d')), e')"
          using adopt_block_Ok [OF adopt law] by blast
        have "executed_on env cfg ?tip attrs used h (d_executor d1)" by (rule exec(2)) (simp add: Some z)
        then have "builds_on env cfg ?tip (tip_of env d')"
          unfolding builds_on_def using pp [unfolded Payload] block by metis
        then show ?thesis using out False by simp
      qed
    qed
  qed
qed

subsection \<open>What the loop returns\<close>

definition derived ::
  "('cfg, 'pipe, 'exec, 'cur, 'x, 'tx) driver_env \<Rightarrow> 'cfg \<Rightarrow> tip_cursor \<Rightarrow> int \<Rightarrow> tip_cursor \<Rightarrow> bool" where
  "derived env cfg t tb t' \<longleftrightarrow>
     (builds_on env cfg)\<^sup>*\<^sup>* t t' \<and> (tb \<le> safe_number t' \<or> source_ends_at env t')"

lemma advance_loop_sound:
  fixes env :: "('cfg, 'pipe, 'exec, 'cur, 'x, 'tx) driver_env"
  assumes run: "advance_loop env cfg (Some tb) d = Some (Inr (info, root), d')" and law: "cursor_law env"
  shows "\<exists>t. derived env cfg (tip_of env d) tb t \<and> info = tc_l2_safe_head t \<and> root = tc_l2_safe_head_output_root t"
proof -
  let ?good = "\<lambda>env cfg target d x. cursor_law env \<longrightarrow> (\<forall>tb info root d'. target = Some tb \<longrightarrow> x = (Ok (info, root), d') \<longrightarrow>
     (\<exists>t. derived env cfg (tip_of env d) tb t \<and> (tb \<le> safe_number (tip_of env d) \<longrightarrow> t = tip_of env d) \<and>
        info = tc_l2_safe_head t \<and> root = tc_l2_safe_head_output_root t))"
  have "?good env cfg (Some tb) d (Ok (info, root), d')"
  proof (rule advance_loop.raw_induct [where P = ?good, OF _ run], intro impI allI)
    fix loop :: "('cfg, 'pipe, 'exec, 'cur, 'x, 'tx) driver_env \<Rightarrow> 'cfg \<Rightarrow> int option \<Rightarrow> ('pipe, 'exec, 'cur) driver
        \<Rightarrow> ((l2_block_info \<times> b256) res \<times> ('pipe, 'exec, 'cur) driver) option"
      and env :: "('cfg, 'pipe, 'exec, 'cur, 'x, 'tx) driver_env"
      and cfg target d x tb info root d'
    assume IH: "\<And>env cfg target d x. loop env cfg target d = Some x \<Longrightarrow> ?good env cfg target d x"
      and law: "cursor_law env" and target: "target = Some tb" and x: "x = (Inr (info, root), d')"
      and step: "(case advance_step env cfg target d of
        (Inl e, d') \<Rightarrow> Some (Inl e, d')
      | (Inr (Inl t), d') \<Rightarrow> loop env cfg t d'
      | (Inr (Inr r), d') \<Rightarrow> Some (Ok r, d')) = Some x"
    let ?tip = "tip_of env d"
    obtain res d1 where one: "advance_step env cfg target d = (res, d1)" by fastforce
    then obtain out where res: "res = Inr out" using step x by (cases res) auto
    note spec = advance_step_Ok [OF one [unfolded res] law]
    show "\<exists>t. derived env cfg ?tip tb t \<and> (tb \<le> safe_number ?tip \<longrightarrow> t = ?tip) \<and>
        info = tc_l2_safe_head t \<and> root = tc_l2_safe_head_output_root t"
    proof (cases out)
      case (Inr r)
      then show ?thesis using spec step one res x target by (auto simp: derived_def)
    next
      case (Inl t1)
      have rest: "loop env cfg t1 d1 = Some x" using step one res Inl by simp
      have below: "\<not> tb \<le> safe_number ?tip" using spec Inl target by simp
      consider "t1 = target" "tip_of env d1 = ?tip \<or> builds_on env cfg ?tip (tip_of env d1)"
        | "t1 = Some (safe_number ?tip)" "tip_of env d1 = ?tip" "source_ends_at env ?tip"
        using spec Inl target by auto
      then show ?thesis
      proof cases
        case 1
        obtain t where t: "derived env cfg (tip_of env d1) tb t" "info = tc_l2_safe_head t"
            "root = tc_l2_safe_head_output_root t"
          using IH [OF rest] law target 1(1) x by blast
        have "derived env cfg ?tip tb t"
          using t(1) 1(2) by (auto simp: derived_def intro: converse_rtranclp_into_rtranclp)
        then show ?thesis using t below by blast
      next
        case 2
        obtain t where "safe_number ?tip \<le> safe_number (tip_of env d1) \<longrightarrow> t = tip_of env d1"
            "info = tc_l2_safe_head t" "root = tc_l2_safe_head_output_root t"
          using IH [OF rest] law 2(1) x by blast
        then show ?thesis using 2 below by (auto simp: derived_def)
      qed
    qed
  qed
  then show ?thesis using law by blast
qed

lemma advance_to_target_sound:
  assumes "fst (advance_to_target env cfg (Some tb) d) = Ok (info, root)" and "cursor_law env"
  shows "\<exists>t. derived env cfg (tip_of env d) tb t \<and> info = tc_l2_safe_head t \<and> root = tc_l2_safe_head_output_root t"
proof -
  obtain d' where "advance_loop env cfg (Some tb) d = Some (Inr (info, root), d')"
    using assms(1) by (auto simp: advance_to_target_def run_loop_def split: option.splits)
  then show ?thesis by (rule advance_loop_sound [OF _ assms(2)])
qed

subsection \<open>A pipeline that is used up\<close>

text \<open>Every payload takes from the finite data of the pipeline, and a flush adds none.\<close>

definition finite_source :: "('cfg, 'pipe, 'exec, 'cur, 'x, 'tx) driver_env \<Rightarrow> ('pipe \<Rightarrow> nat) \<Rightarrow> bool" where
  "finite_source env left \<longleftrightarrow>
     (\<forall>p i attrs p'. produce_payload env p i = (Payload attrs, p') \<longrightarrow> left p' < left p) \<and>
     (\<forall>p f p'. signal_flush_channel env p = (f, p') \<longrightarrow> left p' \<le> left p)"

lemma execute_or_retry_pipeline:
  assumes "execute_or_retry env cfg tip attrs d = (x, d')" and "finite_source env left"
  shows "left (d_pipeline d') \<le> left (d_pipeline d) \<and> x \<noteq> Inl Diverged"
proof -
  obtain f p where f: "signal_flush_channel env (d_pipeline d) = (f, p)" by fastforce
  then have "left p \<le> left (d_pipeline d)" using assms(2) unfolding finite_source_def by blast
  then show ?thesis using assms(1) f
    by (auto simp: execute_or_retry_def andThen_def on_executor_def on_pipeline_def ret_def throw_def
        split: sum.splits if_splits prod.splits)
qed

lemma decode_all_returns: "decode_all f txs \<noteq> Inl Diverged"
  by (induction txs) (auto simp: res_bind_def split: sum.splits)

lemma adopt_block_pipeline:
  assumes "adopt_block env h attrs d = (x, d')"
  shows "d_pipeline d' = d_pipeline d \<and> x \<noteq> Inl Diverged"
proof -
  obtain r e1 where r: "compute_output_root env (d_executor d) = (r, e1)" by fastforce
  let ?txs = "decode_all (decode_tx env) (case at_transactions attrs of None \<Rightarrow> [] | Some l \<Rightarrow> l)"
  have "?txs \<noteq> Inl Diverged" by (rule decode_all_returns)
  then show ?thesis using assms r
    by (cases ?txs; cases "pipeline_origin env (d_pipeline d)"; cases r)
      (auto simp: adopt_block_def andThen_def asks_def lift_def throw_def update_def on_executor_def
        split: sum.splits)
qed

lemma advance_step_continues:
  assumes run: "advance_step env cfg target d = (x, d')" and fin: "finite_source env left"
  shows "x \<noteq> Inl Diverged"
    and "x = Inr (Inl t) \<Longrightarrow> left (d_pipeline d') < left (d_pipeline d) \<and> t = target \<or>
      t = map_option (\<lambda>_. safe_number (tip_of env d)) target \<and> tip_of env d' = tip_of env d"
proof -
  let ?tip = "tip_of env d"
  obtain r p where pp: "produce_payload env (d_pipeline d) (tc_l2_safe_head ?tip) = (r, p)" by fastforce
  let ?d = "d\<lparr>d_pipeline := p\<rparr>"
  have "x \<noteq> Inl Diverged \<and> (\<forall>t. x = Inr (Inl t) \<longrightarrow> left (d_pipeline d') < left (d_pipeline d) \<and> t = target \<or>
      t = map_option (\<lambda>_. safe_number ?tip) target \<and> tip_of env d' = ?tip)"
  proof (cases "case target of None \<Rightarrow> False | Some tb \<Rightarrow> tb \<le> safe_number ?tip")
    case True
    then show ?thesis using run by (auto simp: advance_step_def andThen_def asks_def ret_def)
  next
    case no: False
    show ?thesis
    proof (cases r)
      case (PipelineFailure e)
      then show ?thesis using run no pp
        by (auto simp: advance_step_def andThen_def asks_def on_pipeline_def throw_def)
    next
      case EndOfSource
      then show ?thesis using run no pp
        by (auto simp: advance_step_def andThen_def asks_def on_pipeline_def throw_def ret_def split: if_splits)
    next
      case (Payload attrs)
      then have less: "left p < left (d_pipeline d)" using fin pp unfolding finite_source_def by blast
      obtain y d1 where ex: "execute_or_retry env cfg ?tip attrs ?d = (y, d1)" by fastforce
      have y: "left (d_pipeline d1) < left (d_pipeline d)" "y \<noteq> Inl Diverged"
        using execute_or_retry_pipeline [OF ex fin] less by simp_all
      have step: "(x, d') = (case y of Inl e \<Rightarrow> (Inl e, d1) | Inr None \<Rightarrow> (Inr (Inl target), d1)
          | Inr (Some (h, used)) \<Rightarrow> andThen (adopt_block env h used) (\<lambda>_. ret (Inl target)) d1)"
        using run no pp Payload ex
        by (auto simp: advance_step_def andThen_def asks_def on_pipeline_def ret_def split: sum.splits option.splits)
      show ?thesis
      proof (cases "\<exists>h used. y = Inr (Some (h, used))")
        case False
        then show ?thesis using step y by (auto split: sum.splits option.splits)
      next
        case True
        then obtain h used where hu: "y = Inr (Some (h, used))" by blast
        obtain z d2 where ad: "adopt_block env h used d1 = (z, d2)" by fastforce
        have "d_pipeline d2 = d_pipeline d1" "z \<noteq> Inl Diverged" using adopt_block_pipeline [OF ad] by simp_all
        then show ?thesis using step hu ad y by (auto simp: andThen_def ret_def split: sum.splits)
      qed
    qed
  qed
  then show "x \<noteq> Inl Diverged"
    and "x = Inr (Inl t) \<Longrightarrow> left (d_pipeline d') < left (d_pipeline d) \<and> t = target \<or>
      t = map_option (\<lambda>_. safe_number ?tip) target \<and> tip_of env d' = ?tip" by blast+
qed

lemma advance_loop_returns:
  assumes fin: "finite_source env left"
  shows "\<exists>x d'. advance_loop env cfg (Some tb) d = Some (x, d') \<and> x \<noteq> Inl Diverged"
proof (induction "left (d_pipeline d)" arbitrary: tb d rule: less_induct)
  case less
  obtain x d1 where one: "advance_step env cfg (Some tb) d = (x, d1)" by fastforce
  note cont = advance_step_continues [OF one fin]
  consider (stop) "\<And>t. x \<noteq> Inr (Inl t)" | (more) t where "x = Inr (Inl t)" by blast
  then show ?case
  proof cases
    case stop
    then show ?thesis using one cont(1)
      by (subst advance_loop.simps) (auto split: sum.splits)
  next
    case more
    then have go: "advance_loop env cfg (Some tb) d = advance_loop env cfg t d1"
      using one by (subst advance_loop.simps) simp
    show ?thesis
    proof (cases "t = Some (safe_number (tip_of env d)) \<and> tip_of env d1 = tip_of env d")
      case True
      then show ?thesis unfolding go
        by (subst advance_loop.simps) (simp add: advance_step_def andThen_def asks_def ret_def)
    next
      case False
      then have "left (d_pipeline d1) < left (d_pipeline d)" using cont(2) [OF more] by auto
      moreover have "t = Some tb" using cont(2) [OF more] False by auto
      ultimately show ?thesis unfolding go using less.hyps by blast
    qed
  qed
qed

subsection \<open>The target only matters once it is reached\<close>

lemma advance_step_target:
  assumes "safe_number (tip_of env d) < n" and "n \<le> m"
  shows "advance_step env cfg (Some m) d =
    (case advance_step env cfg (Some n) d of
       (Inr (Inl t), d1) \<Rightarrow> (Inr (Inl (if t = Some n then Some m else t)), d1)
     | r \<Rightarrow> r)"
proof -
  let ?tip = "tip_of env d"
  obtain r p where pp: "produce_payload env (d_pipeline d) (tc_l2_safe_head ?tip) = (r, p)" by fastforce
  have no: "\<not> n \<le> safe_number ?tip" "\<not> m \<le> safe_number ?tip" using assms by simp_all
  note unfold = advance_step_def andThen_def asks_def on_pipeline_def throw_def ret_def
  show ?thesis
  proof (cases r)
    case (PipelineFailure e)
    then show ?thesis using no pp by (simp add: unfold)
  next
    case EndOfSource
    then show ?thesis using no pp assms by (auto simp: unfold)
  next
    case (Payload attrs)
    obtain y d1 where ex: "execute_or_retry env cfg ?tip attrs (d\<lparr>d_pipeline := p\<rparr>) = (y, d1)" by fastforce
    show ?thesis
    proof (cases "\<exists>h used. y = Inr (Some (h, used))")
      case False
      then show ?thesis using no pp Payload ex by (auto simp: unfold split: sum.splits option.splits)
    next
      case True
      then obtain h used where hu: "y = Inr (Some (h, used))" by blast
      obtain z d2 where "adopt_block env h used d1 = (z, d2)" by fastforce
      then show ?thesis using no pp Payload ex hu by (cases z) (auto simp: unfold)
    qed
  qed
qed

lemma advance_loop_target:
  fixes env :: "('cfg, 'pipe, 'exec, 'cur, 'x, 'tx) driver_env"
  assumes run: "advance_loop env cfg (Some n) d = Some (Inr (info, root), d')" and law: "cursor_law env"
    and short: "br_number (li_block_info info) < n" and le: "n \<le> m"
  shows "advance_loop env cfg (Some m) d = Some (Inr (info, root), d')"
proof -
  let ?good = "\<lambda>env cfg target d x. advance_loop env cfg target d = Some x \<and> (cursor_law env \<longrightarrow> (\<forall>n info root d'. target = Some n \<longrightarrow> x = (Ok (info, root), d') \<longrightarrow>
     br_number (li_block_info info) < n \<longrightarrow> n \<le> m \<longrightarrow> advance_loop env cfg (Some m) d = Some x))"
  have "?good env cfg (Some n) d (Ok (info, root), d')"
  proof (rule advance_loop.raw_induct [where P = ?good, OF _ run], intro conjI impI allI)
    fix loop :: "('cfg, 'pipe, 'exec, 'cur, 'x, 'tx) driver_env \<Rightarrow> 'cfg \<Rightarrow> int option \<Rightarrow> ('pipe, 'exec, 'cur) driver
        \<Rightarrow> ((l2_block_info \<times> b256) res \<times> ('pipe, 'exec, 'cur) driver) option"
      and env :: "('cfg, 'pipe, 'exec, 'cur, 'x, 'tx) driver_env"
      and cfg target d x
    assume IH: "\<And>env cfg target d x. loop env cfg target d = Some x \<Longrightarrow> ?good env cfg target d x"
      and step: "(case advance_step env cfg target d of
        (Inl e, d') \<Rightarrow> Some (Inl e, d')
      | (Inr (Inl t), d') \<Rightarrow> loop env cfg t d'
      | (Inr (Inr r), d') \<Rightarrow> Some (Ok r, d')) = Some x"
    obtain res d1 where one: "advance_step env cfg target d = (res, d1)" by fastforce
    show "advance_loop env cfg target d = Some x"
      using step one IH by (subst advance_loop.simps) (auto split: sum.splits)
    fix n info root d'
    assume law: "cursor_law env" and target: "target = Some n" and x: "x = (Ok (info, root), d')"
      and short: "br_number (li_block_info info) < n" and le: "n \<le> m"
    let ?tip = "tip_of env d"
    obtain out where res: "res = Inr out" using step one x by (cases res) auto
    note spec = advance_step_Ok [OF one [unfolded res] law]
    show "advance_loop env cfg (Some m) d = Some x"
    proof (cases out)
      case (Inr r)
      then show ?thesis using spec step one res x target short by auto
    next
      case (Inl t1)
      have rest: "loop env cfg t1 d1 = Some x" using step one res Inl by simp
      have below: "safe_number ?tip < n" using spec Inl target by simp
      have large: "advance_loop env cfg (Some m) d = advance_loop env cfg (if t1 = Some n then Some m else t1) d1"
        using advance_step_target [OF below le, of cfg] one res Inl target by (subst advance_loop.simps) simp
      have "t1 = target \<or> t1 = Some (safe_number ?tip) \<and> tip_of env d1 = ?tip" using spec Inl target by auto
      then show ?thesis
      proof
        assume "t1 = target"
        then show ?thesis using IH [OF rest] law target x short le large by auto
      next
        assume t1: "t1 = Some (safe_number ?tip) \<and> tip_of env d1 = ?tip"
        have "t1 \<noteq> Some n" using t1 below by simp
        then show ?thesis using large IH [OF rest] by simp
      qed
    qed
  qed
  then show ?thesis using law short le by blast
qed

subsection \<open>The claim of a range proof\<close>

text \<open>
  The statement behind the committed boot information \<open>b\<close>: its pre-root is the hash of a preimage
  that ends in the hash of a header not above the committed block number, and its post-root is the
  output root of a tip that is derived, block by block, from the cursor at this header, with the L1
  head and the rollup configuration of \<open>b\<close>; the tip has reached the committed number, or the source
  of payloads has ended there.
\<close>

definition range_claim ::
  "('cfg \<Rightarrow> b256) \<Rightarrow> ('key, 'blob) oracle_env \<Rightarrow> ('key, 'blob, 'cfg, 'pipe, 'exec, 'cur) kona_range_env
     \<Rightarrow> ('cfg, 'pipe, 'exec, 'cur, 'x, 'tx) driver_env \<Rightarrow> boot_info \<Rightarrow> bool" where
  "range_claim cfg_hash oe ke env b \<longleftrightarrow>
     (\<exists>store cfg pre hdr cur t.
        let hash = take 32 (drop 96 pre);
            l1 = \<lparr>l1p_head = l1Head b, l1p_oracle = store\<rparr>;
            l2 = \<lparr>l2p_head = hash, l2p_config = cfg, l2p_oracle = store, l2p_cursor = None\<rparr> in
        rollupConfigHash b = cfg_hash cfg \<and>
        length pre = 128 \<and> oe_new_key oe (l2PreRoot b) Keccak256Key = oe_new_key oe (oe_keccak256 oe pre) Keccak256Key \<and>
        header_by_hash ke l2 hash = Inr hdr \<and> number hdr \<le> l2BlockNumber b \<and>
        new_oracle_pipeline_cursor ke cfg (hdr, hash) l1 l2 = Inr cur \<and>
        derived env cfg (cursor_tip env cur) (l2BlockNumber b) t \<and>
        tc_l2_safe_head_output_root t = l2PostRoot b)"

text \<open>\<open>PreimageKey::new\<close> keeps the type of the key.\<close>

definition key_law :: "('key, 'blob) oracle_env \<Rightarrow> bool" where
  "key_law oe \<longleftrightarrow> (\<forall>h ty. oe_key_type oe (oe_new_key oe h ty) = ty)"

lemma fetch_safe_head_hash_Ok:
  "fetch_safe_head_hash oe store root = Ok h \<longleftrightarrow>
     (\<exists>pre. map_of store (oe_new_key oe root Keccak256Key) = Some pre \<and> length pre = 128 \<and> h = take 32 (drop 96 pre))"
  by (auto simp: fetch_safe_head_hash_def store_write_def store_get_exact_def store_get_def res_bind_Ok_iff
      split: option.splits)

lemma get_inputs_Ok:
  assumes "get_inputs_for_pipeline oe ke store = Ok (boot, input)"
  obtains (inputs) pre hdr cur where "load_boot ke store = Inr boot"
    and "map_of store (oe_new_key oe (agreed_l2_output_root boot) Keccak256Key) = Some pre" and "length pre = 128"
    and "header_by_hash ke \<lparr>l2p_head = take 32 (drop 96 pre), l2p_config = rollup_config boot, l2p_oracle = store,
        l2p_cursor = None\<rparr> (take 32 (drop 96 pre)) = Inr hdr"
    and "number hdr \<le> claimed_l2_block_number boot"
    and "new_oracle_pipeline_cursor ke (rollup_config boot) (hdr, take 32 (drop 96 pre))
        \<lparr>l1p_head = l1_head boot, l1p_oracle = store\<rparr>
        \<lparr>l2p_head = take 32 (drop 96 pre), l2p_config = rollup_config boot, l2p_oracle = store, l2p_cursor = None\<rparr> = Inr cur"
    and "\<exists>l1 l2. input = Some (cur, l1, l2)"
  using assms unfolding get_inputs_for_pipeline_def Let_def
  by (auto simp: res_bind_Ok_iff fetch_safe_head_hash_Ok split: sum.splits if_splits)

lemma executor_run_Ok:
  assumes "executor_run ke env boot p cur l2 = Ok b" and "cursor_law env"
  shows "b = boot" and "\<exists>t. derived env (rollup_config boot) (cursor_tip env cur) (claimed_l2_block_number boot) t \<and>
    tc_l2_safe_head_output_root t = claimed_l2_output_root boot"
proof -
  let ?d = "\<lparr>d_cursor = cur, d_executor = new_executor ke (rollup_config boot) l2, d_pipeline = p\<rparr>"
  let ?adv = "fst (advance_to_target env (rollup_config boot) (Some (claimed_l2_block_number boot)) ?d)"
  have run: "res_bind ?adv (\<lambda>(safe_head, output_root).
      if output_root \<noteq> claimed_l2_output_root boot
      then Err (Msg ''Failed to validate L2 block with claimed output root'') else Ok boot) = Ok b"
    using assms(1) unfolding executor_run_def Let_def .
  then obtain info root where adv: "?adv = Ok (info, root)"
    and check: "(if root \<noteq> claimed_l2_output_root boot
      then Err (Msg ''Failed to validate L2 block with claimed output root'') else Ok boot) = Ok b"
    unfolding res_bind_Ok_iff by fast
  have root: "root = claimed_l2_output_root boot" using check by (cases "root = claimed_l2_output_root boot") simp_all
  then have b: "b = boot" using check by simp
  show "b = boot" by (rule b)
  show "\<exists>t. derived env (rollup_config boot) (cursor_tip env cur) (claimed_l2_block_number boot) t \<and>
    tc_l2_safe_head_output_root t = claimed_l2_output_root boot"
    using advance_to_target_sound [OF adv assms(2)] root by auto
qed

lemma run_range_program_claim:
  assumes run: "run_range_program cfg_hash oe ke env w = Ok b" and law: "cursor_law env" and keys: "key_law oe"
  shows "range_claim cfg_hash oe ke env b"
proof -
  obtain store beacon boot input where checked: "get_oracle_and_blob_provider oe w = Ok (store, beacon)"
    and inputs: "get_inputs_for_pipeline oe ke store = Ok (boot, input)"
    and rest: "res_bind (case input of
         Some (cur, l1, l2) \<Rightarrow>
           res_bind (expect (lift_answer (create_pipeline ke (rollup_config boot) cur store beacon l1 l2)) ''unwrap'')
             (\<lambda>pipeline. expect (executor_run ke env boot pipeline cur l2) ''unwrap'')
       | None \<Rightarrow> Ok boot) (\<lambda>b. Ok (boot_info_from cfg_hash b)) = Ok b"
    using run unfolding run_range_program_def by (auto simp: res_bind_Ok_iff)
  from inputs show ?thesis
  proof (rule get_inputs_Ok)
    fix pre hdr cur
    assume pre: "map_of store (oe_new_key oe (agreed_l2_output_root boot) Keccak256Key) = Some pre" "length pre = 128"
      and hdr: "header_by_hash ke \<lparr>l2p_head = take 32 (drop 96 pre), l2p_config = rollup_config boot, l2p_oracle = store,
          l2p_cursor = None\<rparr> (take 32 (drop 96 pre)) = Inr hdr" "number hdr \<le> claimed_l2_block_number boot"
      and cur: "new_oracle_pipeline_cursor ke (rollup_config boot) (hdr, take 32 (drop 96 pre))
          \<lparr>l1p_head = l1_head boot, l1p_oracle = store\<rparr>
          \<lparr>l2p_head = take 32 (drop 96 pre), l2p_config = rollup_config boot, l2p_oracle = store, l2p_cursor = None\<rparr> = Inr cur"
      and "\<exists>l1 l2. input = Some (cur, l1, l2)"
    then obtain l1 l2 p b0 where exec: "executor_run ke env boot p cur l2 = Ok b0" and b: "b = boot_info_from cfg_hash b0"
      using rest by (auto simp: res_bind_Ok_iff)
    note ran = executor_run_Ok [OF exec law]
    obtain t where t: "derived env (rollup_config boot) (cursor_tip env cur) (claimed_l2_block_number boot) t"
        "tc_l2_safe_head_output_root t = claimed_l2_output_root boot"
      using ran(2) by blast
    have "check_preimage oe (oe_new_key oe (agreed_l2_output_root boot) Keccak256Key) pre = Ok ()"
      using checked pre(1) by (auto simp: get_oracle_and_blob_provider_def res_bind_Ok_iff intro: checked_mem)
    then have "oe_new_key oe (agreed_l2_output_root boot) Keccak256Key = oe_new_key oe (oe_keccak256 oe pre) Keccak256Key"
      using keys by (auto simp: check_preimage_def expected_hash_def key_law_def split: if_splits)
    then show ?thesis
      unfolding range_claim_def Let_def b ran(1) boot_info_from_def boot_info.simps
      using pre(2) hdr cur t by blast
  qed
qed

subsection \<open>A concrete derivation\<close>

text \<open>
  A source of blocks, the second of which has a transaction that is not a deposit and fails; the
  state of the executor is the number of its last block, and its output root.
\<close>

definition sample_l2_header :: "int \<Rightarrow> header" where
  "sample_l2_header n = \<lparr>parent_hash = [], number = n, timestamp = 2 * n, state_root = [], gas_used = 0\<rparr>"

definition sample_tip :: "int \<Rightarrow> tip_cursor" where
  "sample_tip n =
     \<lparr>tc_l2_safe_head = \<lparr>li_block_info = \<lparr>br_hash = [], br_number = n, br_parent_hash = [], br_timestamp = 2 * n\<rparr>,
        li_l1_origin = ([], 0), li_seq_num = 0\<rparr>,
      tc_l2_safe_head_header = sample_l2_header n, tc_l2_safe_head_output_root = [word_of_int n]\<rparr>"

definition sample_payload :: "int \<Rightarrow> unit attributes" where
  "sample_payload n =
     \<lparr>at_timestamp = 2 * n, at_transactions = Some (if n = 2 then [[126, 1], [2]] else [[126, 1]]), at_rest = ()\<rparr>"

definition sample_driver_env :: "(unit, nat, int, tip_cursor, unit, bytes) driver_env" where
  "sample_driver_env =
     \<lparr>produce_payload = (\<lambda>p i. case p of 0 \<Rightarrow> (EndOfSource, 0)
        | Suc q \<Rightarrow> (Payload (sample_payload (br_number (li_block_info i) + 1)), q)),
      signal_flush_channel = (\<lambda>p. (Inr (), p)), pipeline_origin = (\<lambda>p. Some \<lparr>br_hash = [], br_number = 5,
        br_parent_hash = [], br_timestamp = 50\<rparr>),
      update_safe_head = (\<lambda>h e. number h),
      execute_payload = (\<lambda>a e. if at_transactions a = Some [[126, 1]] then (Inr (sample_l2_header (e + 1)), e + 1)
        else (Inl TxError, e)),
      compute_output_root = (\<lambda>e. (Inr [word_of_int e], e)), decode_tx = (\<lambda>tx. Inr tx),
      from_block_and_genesis = (\<lambda>h txs p. Inr (tc_l2_safe_head (sample_tip (number h)))),
      cursor_tip = (\<lambda>c. c), cursor_advance = (\<lambda>o1 t c. t),
      is_interop_active = (\<lambda>_ _. False), is_holocene_active = (\<lambda>_ _. True)\<rparr>"

definition sample_range_oracle :: "(key_type \<times> bytes, unit) oracle_env" where
  "sample_range_oracle =
     \<lparr>oe_keccak256 = (\<lambda>v. drop 96 v), oe_sha256 = (\<lambda>v. v), oe_key_type = fst, oe_new_key = (\<lambda>h ty. (ty, h)),
      oe_versioned_hash = (\<lambda>c. c), oe_verify_blobs = (\<lambda>bs cs ps. Inr True), oe_commitment = (\<lambda>b. []),
      oe_proof = (\<lambda>b c. [])\<rparr>"

definition sample_kona_boot :: "int \<Rightarrow> unit kona_boot" where
  "sample_kona_boot n =
     \<lparr>l1_head = [5], agreed_l2_output_root = replicate 32 1, claimed_l2_output_root = [3],
      claimed_l2_block_number = n, rollup_config = ()\<rparr>"

text \<open>The source holds \<open>len\<close> payloads; the witness claims block \<open>n\<close>.\<close>

definition sample_kona_range ::
  "nat \<Rightarrow> int \<Rightarrow> (key_type \<times> bytes, unit, unit, nat, int, tip_cursor) kona_range_env" where
  "sample_kona_range len n =
     \<lparr>load_boot = (\<lambda>store. Inr (sample_kona_boot n)), header_by_hash = (\<lambda>l2 h. Inr (sample_l2_header 0)),
      new_oracle_pipeline_cursor = (\<lambda>cfg h l1 l2. Inr (sample_tip (number (fst h)))),
      create_pipeline = (\<lambda>cfg cur store beacon l1 l2. Inr len), new_executor = (\<lambda>cfg l2. 0)\<rparr>"

definition sample_range_witness :: "(key_type \<times> bytes, unit) witness_data" where
  "sample_range_witness =
     \<lparr>wd_preimages = [((Keccak256Key, replicate 32 1), replicate 96 0 @ replicate 32 1)], wd_blobs = empty_blob_data\<rparr>"

lemma sample_laws [simp]:
  "cursor_law sample_driver_env" "key_law sample_range_oracle" "finite_source sample_driver_env (\<lambda>p. p)"
  by (auto simp: cursor_law_def key_law_def finite_source_def sample_driver_env_def sample_range_oracle_def
      split: nat.splits)

lemma sample_step:
  "advance_step sample_driver_env () (Some tb) \<lparr>d_cursor = sample_tip n, d_executor = e, d_pipeline = p\<rparr> =
     (if tb \<le> n then (Ok (Inr (tc_l2_safe_head (sample_tip n), [word_of_int n])),
         \<lparr>d_cursor = sample_tip n, d_executor = e, d_pipeline = p\<rparr>)
      else case p of
        0 \<Rightarrow> (Ok (Inl (Some n)), \<lparr>d_cursor = sample_tip n, d_executor = e, d_pipeline = 0\<rparr>)
      | Suc q \<Rightarrow> (Ok (Inl (Some tb)), \<lparr>d_cursor = sample_tip (n + 1), d_executor = n + 1, d_pipeline = q\<rparr>))"
proof -
  note unfold = advance_step_def andThen_def asks_def ret_def on_pipeline_def on_executor_def sample_driver_env_def
  have tip: "safe_number (sample_tip n) = n" "tc_l2_safe_head_output_root (sample_tip n) = [word_of_int n]"
    "number (tc_l2_safe_head_header (sample_tip n)) = n"
    by (simp_all add: sample_tip_def sample_l2_header_def)
  have new: "\<lparr>tc_l2_safe_head = tc_l2_safe_head (sample_tip (number (sample_l2_header (n + 1)))),
      tc_l2_safe_head_header = sample_l2_header (n + 1), tc_l2_safe_head_output_root = [word_of_int n + 1]\<rparr>
      = sample_tip (n + 1)"
    by (simp add: sample_tip_def sample_l2_header_def)
  show ?thesis
  proof (cases "tb \<le> n")
    case True
    then show ?thesis by (simp add: unfold tip)
  next
    case False
    show ?thesis
    proof (cases p)
      case 0
      then show ?thesis using False by (simp add: unfold tip)
    next
      case (Suc q)
      have exec: "execute_or_retry sample_driver_env () (sample_tip n) (sample_payload (n + 1))
          \<lparr>d_cursor = sample_tip n, d_executor = e, d_pipeline = q\<rparr> =
        (Ok (Some (sample_l2_header (n + 1), (sample_payload (n + 1))\<lparr>at_transactions := Some [[126, 1]]\<rparr>)),
         \<lparr>d_cursor = sample_tip n, d_executor = n + 1, d_pipeline = q\<rparr>)"
        by (simp add: execute_or_retry_def unfold tip sample_payload_def deposits_only_def deposit_type_def)
      have adopt: "adopt_block sample_driver_env (sample_l2_header (n + 1)) ((sample_payload (n + 1))\<lparr>at_transactions := Some [[126, 1]]\<rparr>)
          \<lparr>d_cursor = sample_tip n, d_executor = n + 1, d_pipeline = q\<rparr> =
        (Ok (), \<lparr>d_cursor = sample_tip (n + 1), d_executor = n + 1, d_pipeline = q\<rparr>)"
        by (simp add: adopt_block_def andThen_def asks_def lift_def update_def on_executor_def sample_driver_env_def new)
      have "produce_payload sample_driver_env (Suc q) (tc_l2_safe_head (sample_tip n)) = (Payload (sample_payload (n + 1)), q)"
        "cursor_tip sample_driver_env c = c" for c
        by (simp_all add: sample_driver_env_def tip)
      then show ?thesis using False Suc exec adopt
        by (simp add: advance_step_def andThen_def asks_def ret_def on_pipeline_def tip)
    qed
  qed
qed

lemma sample_loop:
  "advance_loop sample_driver_env () (Some tb) \<lparr>d_cursor = sample_tip n, d_executor = e, d_pipeline = p\<rparr> =
     (if tb \<le> n then Some (Ok (tc_l2_safe_head (sample_tip n), [word_of_int n]),
         \<lparr>d_cursor = sample_tip n, d_executor = e, d_pipeline = p\<rparr>)
      else case p of
        0 \<Rightarrow> Some (Ok (tc_l2_safe_head (sample_tip n), [word_of_int n]),
          \<lparr>d_cursor = sample_tip n, d_executor = e, d_pipeline = 0\<rparr>)
      | Suc q \<Rightarrow> advance_loop sample_driver_env () (Some tb)
          \<lparr>d_cursor = sample_tip (n + 1), d_executor = n + 1, d_pipeline = q\<rparr>)"
  by (subst advance_loop.simps, subst sample_step)
    (auto split: nat.splits simp: advance_loop.simps [of _ _ "Some n"] sample_step)

lemma sample_executor_run:
  "executor_run (sample_kona_range len n) sample_driver_env (sample_kona_boot n) 5 (sample_tip 0) l2 = Ok (sample_kona_boot n)"
  if "n = 3"
proof -
  have "advance_to_target sample_driver_env () (Some 3) \<lparr>d_cursor = sample_tip 0, d_executor = 0, d_pipeline = 5\<rparr>
      = (Ok (tc_l2_safe_head (sample_tip 3), [3]), \<lparr>d_cursor = sample_tip 3, d_executor = 3, d_pipeline = 2\<rparr>)"
    by (simp add: advance_to_target_def run_loop_def sample_loop numeral_eq_Suc)
  then show ?thesis using that
    by (simp add: executor_run_def sample_kona_range_def sample_kona_boot_def Let_def)
qed

lemma sample_range_run:
  "run_range_program (\<lambda>_. [7]) sample_range_oracle (sample_kona_range 5 3) sample_driver_env sample_range_witness
    = Ok \<lparr>l1Head = [5], l2PreRoot = replicate 32 1, l2PostRoot = [3], l2BlockNumber = 3, rollupConfigHash = [7]\<rparr>"
proof -
  let ?store = "wd_preimages sample_range_witness"
  have "get_oracle_and_blob_provider sample_range_oracle sample_range_witness = Ok (?store, [])"
    by (simp add: get_oracle_and_blob_provider_def sample_range_witness_def check_preimage_def expected_hash_def
        sample_range_oracle_def expect_def blob_store_from_def lift_answer_def empty_blob_data_def)
  moreover have "\<exists>l1 l2. get_inputs_for_pipeline sample_range_oracle (sample_kona_range 5 3) ?store
      = Ok (sample_kona_boot 3, Some (sample_tip 0, l1, l2))"
    by (simp add: get_inputs_for_pipeline_def sample_kona_range_def fetch_safe_head_hash_def store_write_def
        store_get_exact_def store_get_def sample_range_witness_def sample_range_oracle_def Let_def lift_answer_def)
      (simp add: sample_kona_boot_def sample_l2_header_def)
  ultimately show ?thesis
    by (auto simp: run_range_program_def expect_def sample_kona_range_def lift_answer_def
        sample_executor_run [unfolded sample_kona_range_def] boot_info_from_def)
      (simp_all add: sample_kona_boot_def)
qed

subsection \<open>Properties\<close>

text \<open>C3. (safety) A range proof only exists for derived blocks. If the program commits boot
  information for some witness, its post-root is the output root of a tip that derivation reaches
  block by block from the header whose hash the pre-root commits to: each block is a payload of
  the pipeline executed on its parent, or, after a failed execution under Holocene, its deposits.
  The tip has at least the committed number unless the L1 data ended there, and the committed
  number is never below the block of the pre-root.\<close>

theorem range_program_sound:
  assumes "run_range_program cfg_hash oe ke env w = Ok b" and "cursor_law env" and "key_law oe"
  shows "\<exists>store cfg pre hdr cur t.
        let hash = take 32 (drop 96 pre);
            l1 = \<lparr>l1p_head = l1Head b, l1p_oracle = store\<rparr>;
            l2 = \<lparr>l2p_head = hash, l2p_config = cfg, l2p_oracle = store, l2p_cursor = None\<rparr> in
        rollupConfigHash b = cfg_hash cfg \<and>
        length pre = 128 \<and> oe_new_key oe (l2PreRoot b) Keccak256Key = oe_new_key oe (oe_keccak256 oe pre) Keccak256Key \<and>
        header_by_hash ke l2 hash = Inr hdr \<and> number hdr \<le> l2BlockNumber b \<and>
        new_oracle_pipeline_cursor ke cfg (hdr, hash) l1 l2 = Inr cur \<and>
        (builds_on env cfg)\<^sup>*\<^sup>* (cursor_tip env cur) t \<and> tc_l2_safe_head_output_root t = l2PostRoot b \<and>
        (l2BlockNumber b \<le> safe_number t \<or> source_ends_at env t)"
  using run_range_program_claim [OF assms] unfolding range_claim_def derived_def Let_def by blast

theorem range_program_sound_witness:
  "\<exists>t. (builds_on sample_driver_env ())\<^sup>*\<^sup>* (sample_tip 0) t \<and> tc_l2_safe_head_output_root t = [3]
     \<and> (3 \<le> safe_number t \<or> source_ends_at sample_driver_env t)"
  using range_program_sound [OF sample_range_run sample_laws(1,2)]
  by (auto simp: Let_def sample_kona_range_def sample_l2_header_def sample_driver_env_def)

text \<open>C21. (termination) The derivation loop ends. If the pipeline has finitely many payloads, which
  is the case for the batches up to a fixed L1 head, the loop returns for every target and from
  every state of the driver: with a safe head, an error or a panic, whatever payloads fail to execute.\<close>

theorem derivation_ends:
  assumes "finite_source env left"
  shows "\<exists>x d'. advance_to_target env cfg (Some tb) d = (x, d') \<and> x \<noteq> Inl Diverged"
  using advance_loop_returns [OF assms, of cfg tb d] by (auto simp: advance_to_target_def run_loop_def)

theorem derivation_ends_witness:
  "\<exists>x d'. advance_to_target sample_driver_env () (Some 9)
      \<lparr>d_cursor = sample_tip 0, d_executor = 0, d_pipeline = 5\<rparr> = (x, d') \<and> x \<noteq> Inl Diverged"
  by (rule derivation_ends) (rule sample_laws(3))

text \<open>C20. (functional) The claimed block number is not bound to the derived block. The executor
  compares the output root but not the number of the safe head: when the L1 data ends before the
  claimed block, the run that accepts the claim accepts the same output root for every larger
  number as well.\<close>

theorem claimed_number_not_bound:
  assumes "cursor_law env" and "executor_run ke env boot p cur l2 = Ok boot"
    and "fst (advance_to_target env (rollup_config boot) (Some (claimed_l2_block_number boot))
        \<lparr>d_cursor = cur, d_executor = new_executor ke (rollup_config boot) l2, d_pipeline = p\<rparr>) = Ok (info, root)"
    and "br_number (li_block_info info) < claimed_l2_block_number boot" and "claimed_l2_block_number boot \<le> m"
  shows "executor_run ke env (boot\<lparr>claimed_l2_block_number := m\<rparr>) p cur l2 = Ok (boot\<lparr>claimed_l2_block_number := m\<rparr>)"
proof -
  let ?n = "claimed_l2_block_number boot"
  let ?d = "\<lparr>d_cursor = cur, d_executor = new_executor ke (rollup_config boot) l2, d_pipeline = p\<rparr>"
  obtain d' where "advance_loop env (rollup_config boot) (Some ?n) ?d = Some (Inr (info, root), d')"
    using assms(3) by (auto simp: advance_to_target_def run_loop_def split: option.splits)
  from advance_loop_target [OF this assms(1,4,5)]
  have "fst (advance_to_target env (rollup_config boot) (Some m) ?d) = Ok (info, root)"
    by (simp add: advance_to_target_def run_loop_def)
  moreover have "root = claimed_l2_output_root boot"
    using assms(2,3) by (cases "root = claimed_l2_output_root boot") (simp_all add: executor_run_def Let_def)
  ultimately show ?thesis by (simp add: executor_run_def Let_def)
qed

theorem claimed_number_not_bound_witness:
  "executor_run (sample_kona_range 3 4) sample_driver_env (sample_kona_boot 1000) 3 (sample_tip 0)
      \<lparr>l2p_head = [], l2p_config = (), l2p_oracle = [], l2p_cursor = None\<rparr>
    = Ok (sample_kona_boot 1000)"
proof -
  let ?l2 = "\<lparr>l2p_head = [], l2p_config = (), l2p_oracle = [], l2p_cursor = None\<rparr> :: ((key_type \<times> bytes) preimage_store, unit, tip_cursor) l2_provider"
  have adv: "advance_to_target sample_driver_env () (Some 4) \<lparr>d_cursor = sample_tip 0, d_executor = 0, d_pipeline = 3\<rparr>
      = (Ok (tc_l2_safe_head (sample_tip 3), [3]), \<lparr>d_cursor = sample_tip 3, d_executor = 3, d_pipeline = 0\<rparr>)"
    by (simp add: advance_to_target_def run_loop_def sample_loop numeral_eq_Suc)
  then have run: "executor_run (sample_kona_range 3 4) sample_driver_env (sample_kona_boot 4) 3 (sample_tip 0) ?l2
      = Ok (sample_kona_boot 4)"
    by (simp add: executor_run_def sample_kona_range_def sample_kona_boot_def Let_def)
  have "executor_run (sample_kona_range 3 4) sample_driver_env ((sample_kona_boot 4)\<lparr>claimed_l2_block_number := 1000\<rparr>)
      3 (sample_tip 0) ?l2 = Ok ((sample_kona_boot 4)\<lparr>claimed_l2_block_number := 1000\<rparr>)"
  proof (rule claimed_number_not_bound [OF sample_laws(1) run, of "tc_l2_safe_head (sample_tip 3)" "[3]"])
    show "fst (advance_to_target sample_driver_env (rollup_config (sample_kona_boot 4))
        (Some (claimed_l2_block_number (sample_kona_boot 4)))
        \<lparr>d_cursor = sample_tip 0, d_executor = new_executor (sample_kona_range 3 4) (rollup_config (sample_kona_boot 4)) ?l2,
         d_pipeline = 3\<rparr>) = Ok (tc_l2_safe_head (sample_tip 3), [3])"
      using adv by (simp add: sample_kona_boot_def sample_kona_range_def)
  qed (simp_all add: sample_tip_def sample_kona_boot_def)
  then show ?thesis by (simp add: sample_kona_boot_def)
qed

end
