(* ===== verification/Aggregation.thy ===== *)
theory Aggregation
  imports ProofRequester
begin

text \<open>
  The aggregation program that runs in the zkVM, \<open>programs/aggregation/src/main.rs\<close>: it checks that
  the range proofs it is given follow one another, verifies each, walks the L1 headers back from
  the checkpointed block, and commits to one range. Hashing, serialization and the verification of
  a proof inside the zkVM are the record \<open>zkvm_env\<close>; a failed check panics, so that no proof exists.
\<close>

subsection \<open>The program\<close>

record zkvm_env =
  hash_slow :: "header \<Rightarrow> b256"
  serialize_boot :: "boot_info \<Rightarrow> bytes"
  sha256 :: "bytes \<Rightarrow> b256"
  verified :: "vkey \<Rightarrow> b256 \<Rightarrow> bool"

text \<open>\<open>windows(2).for_each\<close> with the two \<open>assert_eq!\<close>.\<close>

fun check_sequential :: "boot_info list \<Rightarrow> unit res" where
  "check_sequential (prev # boot # rest) =
     res_bind (ensure (l2PostRoot prev = l2PreRoot boot) ''assert_eq'') (\<lambda>_.
     res_bind (ensure (rollupConfigHash prev = rollupConfigHash boot) ''assert_eq'') (\<lambda>_.
       check_sequential (boot # rest)))"
| "check_sequential _ = Ok ()"

fun verify_all :: "zkvm_env \<Rightarrow> vkey \<Rightarrow> boot_info list \<Rightarrow> unit res" where
  "verify_all z vk [] = Ok ()"
| "verify_all z vk (b # bs) =
     res_bind (ensure (verified z vk (sha256 z (serialize_boot z b))) ''verify_sp1_proof'') (\<lambda>_.
       verify_all z vk bs)"

definition initial_heads :: "boot_info list \<Rightarrow> b256 \<rightharpoonup> bool" where
  "initial_heads bs = map_of (map (\<lambda>b. (l1Head b, False)) bs)"

text \<open>The loop over \<open>headers.iter().rev()\<close>, on the reversed list.\<close>

fun walk_headers :: "zkvm_env \<Rightarrow> b256 \<Rightarrow> header list \<Rightarrow> (b256 \<rightharpoonup> bool) \<Rightarrow> (b256 \<rightharpoonup> bool) res" where
  "walk_headers z current_hash [] heads = Ok heads"
| "walk_headers z current_hash (h # hs) heads =
     res_bind (ensure (current_hash = hash_slow z h) ''assert_eq'') (\<lambda>_.
       walk_headers z (parent_hash h) hs
         (if current_hash \<in> dom heads then heads(current_hash \<mapsto> True) else heads))"

definition check_found :: "boot_info list \<Rightarrow> (b256 \<rightharpoonup> bool) \<Rightarrow> unit res" where
  "check_found bs heads =
     ensure (list_all (\<lambda>b. heads (l1Head b) = Some True) bs) ''l1 head not found in the provided header chain''"

definition final_boot_info :: "aggregation_inputs \<Rightarrow> boot_info" where
  "final_boot_info inp =
     \<lparr>l1Head = latest_l1_checkpoint_head inp,
      l2PreRoot = l2PreRoot (hd (boot_infos inp)),
      l2PostRoot = l2PostRoot (last (boot_infos inp)),
      l2BlockNumber = l2BlockNumber (last (boot_infos inp)),
      rollupConfigHash = rollupConfigHash (last (boot_infos inp))\<rparr>"

definition aggregate :: "zkvm_env \<Rightarrow> aggregation_inputs \<Rightarrow> header list \<Rightarrow> aggregation_outputs res" where
  "aggregate z inp headers =
     res_bind (ensure (boot_infos inp \<noteq> []) ''assert'') (\<lambda>_.
     res_bind (check_sequential (boot_infos inp)) (\<lambda>_.
     res_bind (verify_all z (multi_block_vkey inp) (boot_infos inp)) (\<lambda>_.
     res_bind (walk_headers z (latest_l1_checkpoint_head inp) (rev headers)
                 (initial_heads (boot_infos inp))) (\<lambda>heads.
     res_bind (check_found (boot_infos inp) heads) (\<lambda>_.
       let final = final_boot_info inp in
       Ok \<lparr>out_l1Head = l1Head final,
           out_l2PreRoot = l2PreRoot final,
           out_l2PostRoot = l2PostRoot final,
           out_l2BlockNumber = l2BlockNumber final,
           out_rollupConfigHash = rollupConfigHash final,
           out_multiBlockVKey = u32_to_u8 (multi_block_vkey inp),
           out_proverAddress = prover_address inp\<rparr>)))))"

text \<open>\<open>abi_encode\<close> of the static struct \<open>AggregationOutputs\<close>: seven words.\<close>

definition encode_outputs :: "aggregation_outputs \<Rightarrow> bytes" where
  "encode_outputs out =
     out_l1Head out @ out_l2PreRoot out @ out_l2PostRoot out @ u256_be (out_l2BlockNumber out)
       @ out_rollupConfigHash out @ out_multiBlockVKey out @ replicate 12 0 @ out_proverAddress out"

text \<open>\<open>main\<close> on its standard input, with the public values it commits.\<close>

definition aggregation_main :: "zkvm_env \<Rightarrow> agg_stdin \<Rightarrow> bytes res" where
  "aggregation_main z stdin =
     res_bind (aggregate z (as_inputs stdin) (as_headers stdin)) (\<lambda>out. Ok (encode_outputs out))"

subsection \<open>What the checks say\<close>

definition sequential :: "boot_info list \<Rightarrow> bool" where
  "sequential bs \<longleftrightarrow> (\<forall>i. Suc i < length bs \<longrightarrow>
     l2PostRoot (bs ! i) = l2PreRoot (bs ! Suc i) \<and> rollupConfigHash (bs ! i) = rollupConfigHash (bs ! Suc i))"

lemma sequential_Cons2:
  "sequential (a # b # rest) \<longleftrightarrow>
     l2PostRoot a = l2PreRoot b \<and> rollupConfigHash a = rollupConfigHash b \<and> sequential (b # rest)"
proof -
  have "(\<forall>i. Suc i < length (a # b # rest) \<longrightarrow> P i) \<longleftrightarrow>
      P 0 \<and> (\<forall>i. Suc i < length (b # rest) \<longrightarrow> P (Suc i))" for P :: "nat \<Rightarrow> bool"
    by (auto simp: less_Suc_eq_0_disj)
  then show ?thesis unfolding sequential_def by simp
qed

lemma check_sequential_iff: "check_sequential bs = Ok () \<longleftrightarrow> sequential bs"
proof (induction bs rule: check_sequential.induct)
  case (1 prev boot rest)
  then show ?case by (auto simp: res_bind_Ok_iff sequential_Cons2)
qed (simp_all add: sequential_def)

lemma verify_all_iff:
  "verify_all z vk bs = Ok () \<longleftrightarrow> (\<forall>b \<in> set bs. verified z vk (sha256 z (serialize_boot z b)))"
  by (induction bs) (auto simp: res_bind_Ok_iff)

fun chain_down :: "zkvm_env \<Rightarrow> b256 \<Rightarrow> header list \<Rightarrow> bool" where
  "chain_down z c [] \<longleftrightarrow> True"
| "chain_down z c (h # hs) \<longleftrightarrow> c = hash_slow z h \<and> chain_down z (parent_hash h) hs"

definition mark :: "b256 set \<Rightarrow> (b256 \<rightharpoonup> bool) \<Rightarrow> (b256 \<rightharpoonup> bool)" where
  "mark S m = (\<lambda>h. if h \<in> S \<and> h \<in> dom m then Some True else m h)"

lemma mark_insert: "mark S (if c \<in> dom m then m(c \<mapsto> True) else m) = mark (insert c S) m"
  by (rule ext) (auto simp: mark_def)

lemma walk_headers_iff:
  "walk_headers z c hs m = Ok m' \<longleftrightarrow> chain_down z c hs \<and> m' = mark (hash_slow z ` set hs) m"
proof (induction hs arbitrary: c m)
  case Nil
  then show ?case by (auto simp: mark_def)
next
  case (Cons h hs)
  show ?case
    unfolding walk_headers.simps res_bind_Ok_iff Cons.IH mark_insert chain_down.simps by auto
qed

lemma initial_heads_simps: "initial_heads bs h = (if h \<in> l1Head ` set bs then Some False else None)"
  by (induction bs) (auto simp: initial_heads_def)

lemma aggregate_Ok_iff:
  "aggregate z inp headers = Ok out \<longleftrightarrow>
     boot_infos inp \<noteq> [] \<and> sequential (boot_infos inp) \<and>
     (\<forall>b \<in> set (boot_infos inp). verified z (multi_block_vkey inp) (sha256 z (serialize_boot z b))) \<and>
     chain_down z (latest_l1_checkpoint_head inp) (rev headers) \<and>
     l1Head ` set (boot_infos inp) \<subseteq> hash_slow z ` set headers \<and>
     out = \<lparr>out_l1Head = latest_l1_checkpoint_head inp,
       out_l2PreRoot = l2PreRoot (hd (boot_infos inp)),
       out_l2PostRoot = l2PostRoot (last (boot_infos inp)),
       out_l2BlockNumber = l2BlockNumber (last (boot_infos inp)),
       out_rollupConfigHash = rollupConfigHash (last (boot_infos inp)),
       out_multiBlockVKey = u32_to_u8 (multi_block_vkey inp),
       out_proverAddress = prover_address inp\<rparr>"
  unfolding aggregate_def final_boot_info_def Let_def
  by (auto simp: res_bind_Ok_iff check_sequential_iff verify_all_iff walk_headers_iff check_found_def
      list_all_iff mark_def initial_heads_simps dom_def split: if_splits)

subsection \<open>Composition of the range proofs\<close>

text \<open>Parent links of the headers, by hash.\<close>

definition parent_links :: "zkvm_env \<Rightarrow> header list \<Rightarrow> (b256 \<times> b256) set" where
  "parent_links z headers = {(parent_hash h, hash_slow z h) | h. h \<in> set headers}"

lemma chain_down_ancestor:
  "chain_down z c hs \<Longrightarrow> h \<in> set hs \<Longrightarrow> (hash_slow z h, c) \<in> (parent_links z hs)\<^sup>*"
proof (induction hs arbitrary: c)
  case (Cons g hs)
  have sub: "(parent_links z hs)\<^sup>* \<subseteq> (parent_links z (g # hs))\<^sup>*"
    by (rule rtrancl_mono) (auto simp: parent_links_def)
  show ?case
  proof (cases "h = g")
    case True
    then show ?thesis using Cons.prems by simp
  next
    case False
    then have "(hash_slow z h, parent_hash g) \<in> (parent_links z hs)\<^sup>*" using Cons by simp
    then have "(hash_slow z h, parent_hash g) \<in> (parent_links z (g # hs))\<^sup>*" using sub by blast
    moreover have "(parent_hash g, c) \<in> parent_links z (g # hs)"
      using Cons.prems(1) by (auto simp: parent_links_def)
    ultimately show ?thesis by (rule rtrancl_into_rtrancl)
  qed
qed simp

lemma parent_links_rev: "parent_links z (rev headers) = parent_links z headers"
  by (simp add: parent_links_def)

text \<open>One proved range of the aggregated one.\<close>

definition proved_step :: "(boot_info \<Rightarrow> bool) \<Rightarrow> b256 \<Rightarrow> (b256 \<Rightarrow> bool) \<Rightarrow> b256 \<Rightarrow> b256 \<Rightarrow> bool" where
  "proved_step T cfg ok_head p q \<longleftrightarrow>
     (\<exists>b. T b \<and> l2PreRoot b = p \<and> l2PostRoot b = q \<and> rollupConfigHash b = cfg \<and> ok_head (l1Head b))"

lemma sequential_config:
  "sequential bs \<Longrightarrow> b \<in> set bs \<Longrightarrow> rollupConfigHash b = rollupConfigHash (last bs)"
proof (induction bs arbitrary: b rule: check_sequential.induct)
  case (1 prev boot rest)
  have same: "rollupConfigHash prev = rollupConfigHash boot" and seq: "sequential (boot # rest)"
    using 1(2) by (simp_all add: sequential_Cons2)
  show ?case
  proof (cases "b = prev")
    case True
    then show ?thesis using same 1(1) [OF seq, of boot] by simp
  next
    case False
    then have "b \<in> set (boot # rest)" using 1(3) by simp
    from 1(1) [OF seq this] show ?thesis by simp
  qed
qed simp_all

lemma sequential_path:
  "sequential bs \<Longrightarrow> bs \<noteq> [] \<Longrightarrow>
   (\<And>b. b \<in> set bs \<Longrightarrow> T b \<and> rollupConfigHash b = cfg \<and> ok_head (l1Head b)) \<Longrightarrow>
   (proved_step T cfg ok_head)\<^sup>+\<^sup>+ (l2PreRoot (hd bs)) (l2PostRoot (last bs))"
proof (induction bs rule: check_sequential.induct)
  case (1 prev boot rest)
  have seq: "sequential (boot # rest)" and link: "l2PostRoot prev = l2PreRoot boot"
    using 1(2) by (simp_all add: sequential_Cons2)
  have "T prev \<and> rollupConfigHash prev = cfg \<and> ok_head (l1Head prev)" by (rule 1(4)) simp
  then have "proved_step T cfg ok_head (l2PreRoot prev) (l2PreRoot boot)"
    unfolding proved_step_def using link by blast
  moreover have "(proved_step T cfg ok_head)\<^sup>+\<^sup>+ (l2PreRoot (hd (boot # rest))) (l2PostRoot (last (boot # rest)))"
    by (rule 1(1) [OF seq _ 1(4)]) simp_all
  ultimately show ?case by (simp add: tranclp_into_tranclp2)
qed (auto simp: proved_step_def intro!: tranclp.r_into_trancl)

lemma chain_down_of_chain:
  assumes link: "\<And>n. lo < n \<Longrightarrow> n \<le> hi \<Longrightarrow> parent_hash (hd_at n) = hash_slow z (hd_at (n - 1))"
    and "hash_slow z (hd_at hi) = c"
  shows "chain_down z c (rev (map hd_at [lo..hi]))"
  using assms
proof (induction "nat (hi - lo + 1)" arbitrary: hi c)
  case 0
  then show ?case by simp
next
  case (Suc m)
  show ?case
  proof (cases "lo < hi")
    case False
    then have "[lo..hi] = [] \<or> [lo..hi] = [hi]" by (cases "lo = hi") auto
    then show ?thesis using Suc.prems(2) by auto
  next
    case True
    then have cut: "[lo..hi] = [lo..hi - 1] @ [hi]" by (simp add: upto_rec2)
    have "m = nat (hi - 1 - lo + 1)" using Suc(2) True by linarith
    moreover have "parent_hash (hd_at n) = hash_slow z (hd_at (n - 1))" if "lo < n" "n \<le> hi - 1" for n
      using Suc.prems(1) that by simp
    moreover have "hash_slow z (hd_at (hi - 1)) = parent_hash (hd_at hi)" using Suc.prems(1) True by simp
    ultimately have "chain_down z (parent_hash (hd_at hi)) (rev (map hd_at [lo..hi - 1]))"
      by (rule Suc.hyps(1))
    then show ?thesis using Suc.prems(2) by (simp add: cut)
  qed
qed

lemma aggregate_composes:
  assumes "aggregate z inp headers = Ok out"
    and "\<And>b. verified z (multi_block_vkey inp) (sha256 z (serialize_boot z b)) \<Longrightarrow> T b"
  shows "(proved_step T (out_rollupConfigHash out)
        (\<lambda>h. (h, out_l1Head out) \<in> (parent_links z headers)\<^sup>*))\<^sup>+\<^sup>+ (out_l2PreRoot out) (out_l2PostRoot out)
    \<and> (\<exists>b. T b \<and> l2PostRoot b = out_l2PostRoot out \<and> l2BlockNumber b = out_l2BlockNumber out)
    \<and> out_l1Head out = latest_l1_checkpoint_head inp
    \<and> out_multiBlockVKey out = u32_to_u8 (multi_block_vkey inp)
    \<and> out_proverAddress out = prover_address inp"
proof -
  let ?bs = "boot_infos inp" and ?c = "latest_l1_checkpoint_head inp"
  have checks: "?bs \<noteq> []" "sequential ?bs"
    "\<forall>b \<in> set ?bs. verified z (multi_block_vkey inp) (sha256 z (serialize_boot z b))"
    "chain_down z ?c (rev headers)" "l1Head ` set ?bs \<subseteq> hash_slow z ` set headers"
    and out: "out_l1Head out = ?c" "out_l2PreRoot out = l2PreRoot (hd ?bs)"
      "out_l2PostRoot out = l2PostRoot (last ?bs)" "out_l2BlockNumber out = l2BlockNumber (last ?bs)"
      "out_rollupConfigHash out = rollupConfigHash (last ?bs)"
      "out_multiBlockVKey out = u32_to_u8 (multi_block_vkey inp)" "out_proverAddress out = prover_address inp"
    using assms(1) unfolding aggregate_Ok_iff by simp_all
  have "T b \<and> rollupConfigHash b = rollupConfigHash (last ?bs) \<and> (l1Head b, ?c) \<in> (parent_links z headers)\<^sup>*"
    if b: "b \<in> set ?bs" for b
  proof -
    obtain h where "h \<in> set headers" "l1Head b = hash_slow z h" using checks(5) b by blast
    then have "(l1Head b, ?c) \<in> (parent_links z headers)\<^sup>*"
      using chain_down_ancestor [OF checks(4), of h] by (simp add: parent_links_rev)
    then show ?thesis using assms(2) checks(3) sequential_config [OF checks(2) b] b by blast
  qed
  note path = sequential_path [OF checks(2,1) this]
  moreover have "T (last ?bs)" using assms(2) checks(1,3) last_in_set by blast
  ultimately show ?thesis unfolding out by blast
qed


subsection \<open>A concrete batch\<close>

definition linked_block :: "int \<Rightarrow> rpc_block" where
  "linked_block n =
     \<lparr>blk_header = \<lparr>parent_hash = [word_of_int (n - 1)], number = n, timestamp = 100 + 2 * n,
        state_root = [], gas_used = 0\<rparr>,
      blk_hash = [word_of_int n], blk_tx_count = 0\<rparr>"

definition linked_l1 :: "block_id \<Rightarrow> nat \<Rightarrow> error + rpc_block option" where
  "linked_l1 b t = Inr (Some (case b of
     ByNumber n \<Rightarrow> linked_block n | ByHash h \<Rightarrow> linked_block (uint (hd h)) | _ \<Rightarrow> linked_block 10))"

definition sample_zkvm :: zkvm_env where
  "sample_zkvm =
     \<lparr>hash_slow = (\<lambda>h. [word_of_int (number h)]), serialize_boot = (\<lambda>b. l2PreRoot b @ l2PostRoot b),
      sha256 = (\<lambda>b. b), verified = (\<lambda>vk d. d = [1, 2] \<or> d = [2, 3])\<rparr>"

definition sample_boot :: "8 word \<Rightarrow> 8 word \<Rightarrow> 8 word \<Rightarrow> int \<Rightarrow> boot_info" where
  "sample_boot l1 pre post n =
     \<lparr>l1Head = [l1], l2PreRoot = [pre], l2PostRoot = [post], l2BlockNumber = n, rollupConfigHash = [7]\<rparr>"

definition sample_batch :: aggregation_inputs where
  "sample_batch =
     \<lparr>boot_infos = [sample_boot 5 1 2 6, sample_boot 4 2 3 9], latest_l1_checkpoint_head = [6],
      multi_block_vkey = replicate 8 1, prover_address = [9]\<rparr>"

lemma sample_batch_sequential: "sequential (boot_infos sample_batch)"
  by (simp add: sample_batch_def sample_boot_def sequential_Cons2 sequential_def)

lemma sample_batch_simps [simp]:
  "latest_l1_checkpoint_head sample_batch = [6]" "multi_block_vkey sample_batch = replicate 8 1"
  "prover_address sample_batch = [9]"
  by (simp_all add: sample_batch_def)

subsection \<open>Properties\<close>

text \<open>C6. Soundness of the aggregation. If the program commits an output, the output is the
  composition of verified ranges: whatever statement \<open>T\<close> a verified range proof establishes of its
  boot information, there is a chain of one or more ranges with \<open>T\<close> from the committed pre-root to
  the committed post-root, all with the committed rollup configuration and all on an L1 head that
  is an ancestor of the committed L1 head through the headers. The committed block number is that
  of a verified range that ends at the committed post-root, and the committed L1 head, verification
  key and prover address are those of the input.\<close>

theorem aggregation_sound:
  assumes "aggregate z inp headers = Ok out"
    and "\<And>b. verified z (multi_block_vkey inp) (sha256 z (serialize_boot z b)) \<Longrightarrow> T b"
  shows "(proved_step T (out_rollupConfigHash out)
        (\<lambda>h. (h, out_l1Head out) \<in> (parent_links z headers)\<^sup>*))\<^sup>+\<^sup>+ (out_l2PreRoot out) (out_l2PostRoot out)
    \<and> (\<exists>b. T b \<and> l2PostRoot b = out_l2PostRoot out \<and> l2BlockNumber b = out_l2BlockNumber out)
    \<and> out_l1Head out = latest_l1_checkpoint_head inp
    \<and> out_multiBlockVKey out = u32_to_u8 (multi_block_vkey inp)
    \<and> out_proverAddress out = prover_address inp"
  by (rule aggregate_composes [OF assms])

theorem aggregation_sound_witness:
  "\<exists>out. aggregate sample_zkvm sample_batch (map (\<lambda>n. blk_header (linked_block n)) [4, 5, 6]) = Ok out
    \<and> (proved_step (\<lambda>b. l2PreRoot b @ l2PostRoot b \<in> {[1, 2], [2, 3]}) [7]
          (\<lambda>h. (h, [6]) \<in> (parent_links sample_zkvm (map (\<lambda>n. blk_header (linked_block n)) [4, 5, 6]))\<^sup>*))\<^sup>+\<^sup>+
        [1] [3]"
proof -
  let ?hs = "map (\<lambda>n. blk_header (linked_block n)) [4, 5, 6]"
  obtain out where run: "aggregate sample_zkvm sample_batch ?hs = Ok out"
    and out: "out_l2PreRoot out = [1]" "out_l2PostRoot out = [3]" "out_rollupConfigHash out = [7]" "out_l1Head out = [6]"
    unfolding aggregate_Ok_iff using sample_batch_sequential
    by (auto simp: sample_zkvm_def linked_block_def) (simp_all add: sample_batch_def sample_boot_def)
  have established: "l2PreRoot b @ l2PostRoot b \<in> {[1, 2], [2, 3]}"
    if "verified sample_zkvm (multi_block_vkey sample_batch) (sha256 sample_zkvm (serialize_boot sample_zkvm b))" for b
    using that by (simp add: sample_zkvm_def)
  note sound = aggregation_sound [OF run, of "\<lambda>b. l2PreRoot b @ l2PostRoot b \<in> {[1, 2], [2, 3]}", OF established]
  have "(proved_step (\<lambda>b. l2PreRoot b @ l2PostRoot b \<in> {[1, 2], [2, 3]}) (out_rollupConfigHash out)
      (\<lambda>h. (h, out_l1Head out) \<in> (parent_links sample_zkvm ?hs)\<^sup>*))\<^sup>+\<^sup>+ (out_l2PreRoot out) (out_l2PostRoot out)"
    using sound by blast
  then show ?thesis using run unfolding out by blast
qed

text \<open>Completeness for the inputs of the host. On an L1 chain whose headers are linked by their
  hashes, the headers that \<open>get_header_preimages\<close> fetches for a batch let the aggregation program
  accept the batch: if the boot infos follow one another, are verified, and lie on L1 blocks not
  above the checkpointed one, no check panics and the batch is committed from its first pre-root to
  its last post-root.\<close>

theorem aggregation_accepts_host_inputs:
  assumes st: "stable_headers env chain tip hs at" and bs: "bs \<noteq> []" "l1Head ` set bs \<subseteq> hs" "checkpoint \<in> hs"
    and links: "\<And>n. 0 < n \<Longrightarrow> n \<le> tip \<Longrightarrow>
      parent_hash (blk_header (chain n)) = hash_slow z (blk_header (chain (n - 1)))"
    and hashes: "\<And>h. h \<in> hs \<Longrightarrow> hash_slow z (blk_header (chain (at h))) = h"
    and before: "\<And>b. b \<in> set bs \<Longrightarrow> at (l1Head b) \<le> at checkpoint"
    and seq: "sequential bs"
    and proved: "\<And>b. b \<in> set bs \<Longrightarrow> verified z vk (sha256 z (serialize_boot z b))"
  shows "\<exists>headers out. fst (get_header_preimages env bs checkpoint s) = Ok headers
    \<and> aggregate z \<lparr>boot_infos = bs, latest_l1_checkpoint_head = checkpoint, multi_block_vkey = vk,
        prover_address = prover\<rparr> headers = Ok out
    \<and> out_l2PreRoot out = l2PreRoot (hd bs) \<and> out_l2PostRoot out = l2PostRoot (last bs)
    \<and> out_l1Head out = checkpoint"
proof -
  let ?m = "Min (at ` l1Head ` set bs)" and ?at = "\<lambda>n. blk_header (chain n)"
  let ?headers = "map ?at [?m .. at checkpoint]"
  have range: "0 \<le> at h" "at h \<le> tip" if "h \<in> hs" for h using st that by (auto simp: stable_headers_def)
  have "?m \<in> at ` l1Head ` set bs" using bs(1) by simp
  then have m: "0 \<le> ?m" using bs(2) range(1) by auto
  have "parent_hash (?at n) = hash_slow z (?at (n - 1))" if "?m < n" "n \<le> at checkpoint" for n
    using links [of n] m that range(2) [OF bs(3)] by linarith
  then have down: "chain_down z checkpoint (rev ?headers)"
    using chain_down_of_chain [of ?m "at checkpoint" ?at z checkpoint] hashes [OF bs(3)] by blast
  have found: "l1Head ` set bs \<subseteq> hash_slow z ` set ?headers"
  proof
    fix h assume "h \<in> l1Head ` set bs"
    then obtain b where b: "b \<in> set bs" "h = l1Head b" by blast
    then have "h \<in> hs" "?m \<le> at h" "at h \<le> at checkpoint" using bs(2) before by auto
    then show "h \<in> hash_slow z ` set ?headers" using hashes [of h] by (auto intro!: image_eqI [of _ _ "?at (at h)"])
  qed
  have "fst (get_header_preimages env bs checkpoint s) = Ok ?headers"
    by (rule header_preimages_stable [OF st bs])
  moreover have "\<exists>out. aggregate z \<lparr>boot_infos = bs, latest_l1_checkpoint_head = checkpoint,
      multi_block_vkey = vk, prover_address = prover\<rparr> ?headers = Ok out
    \<and> out_l2PreRoot out = l2PreRoot (hd bs) \<and> out_l2PostRoot out = l2PostRoot (last bs)
    \<and> out_l1Head out = checkpoint"
    unfolding aggregate_Ok_iff using bs(1) seq proved down found by auto
  ultimately show ?thesis by blast
qed

theorem aggregation_accepts_host_inputs_witness:
  "\<exists>headers out. fst (get_header_preimages (sample_env\<lparr>l1_block := linked_l1\<rparr>) (boot_infos sample_batch) [6] \<lparr>tick = 0\<rparr>)
      = Ok headers
    \<and> aggregate sample_zkvm \<lparr>boot_infos = boot_infos sample_batch, latest_l1_checkpoint_head = [6],
        multi_block_vkey = replicate 8 1, prover_address = [9]\<rparr> headers = Ok out"
proof -
  have st: "stable_headers (sample_env\<lparr>l1_block := linked_l1\<rparr>) linked_block 10 {[4], [5], [6]} (\<lambda>h. uint (hd h))"
    by (simp add: stable_headers_def stable_chain_def linked_l1_def linked_block_def)
  have boots: "boot_infos sample_batch = [sample_boot 5 1 2 6, sample_boot 4 2 3 9]"
    by (simp add: sample_batch_def)
  have heads: "l1Head ` set (boot_infos sample_batch) \<subseteq> {[4], [5], [6]}" "boot_infos sample_batch \<noteq> []"
    by (simp_all add: boots sample_boot_def)
  have links: "parent_hash (blk_header (linked_block n)) = hash_slow sample_zkvm (blk_header (linked_block (n - 1)))" for n
    by (simp add: linked_block_def sample_zkvm_def)
  have hashes: "hash_slow sample_zkvm (blk_header (linked_block (uint (hd h)))) = h" if "h \<in> {[4], [5], [6]}" for h
    using that by (auto simp: linked_block_def sample_zkvm_def)
  have before: "uint (hd (l1Head b)) \<le> uint (hd [6 :: 8 word])" if "b \<in> set (boot_infos sample_batch)" for b
    using that by (auto simp: boots sample_boot_def)
  have proved: "verified sample_zkvm (replicate 8 1) (sha256 sample_zkvm (serialize_boot sample_zkvm b))"
    if "b \<in> set (boot_infos sample_batch)" for b
    using that by (auto simp: boots sample_boot_def sample_zkvm_def)
  show ?thesis
    using aggregation_accepts_host_inputs [OF st heads(2,1) _ links hashes before sample_batch_sequential proved]
    by blast
qed

end
