(* ===== verification/Programs.thy ===== *)
theory Programs
  imports Aggregation Derivation
begin

text \<open>
  The range program and the aggregation program together: what the output of the second says about
  the derivation that the first performs.
\<close>

subsection \<open>A concrete proof\<close>

definition sample_range_boot :: boot_info where
  "sample_range_boot =
     \<lparr>l1Head = [5], l2PreRoot = replicate 32 1, l2PostRoot = [3], l2BlockNumber = 3, rollupConfigHash = [7]\<rparr>"

definition sample_range_zkvm :: zkvm_env where
  "sample_range_zkvm =
     \<lparr>hash_slow = (\<lambda>h. [word_of_int (number h)]), serialize_boot = (\<lambda>b. if b = sample_range_boot then [1] else [0]),
      sha256 = (\<lambda>b. b), verified = (\<lambda>vk d. d = [1])\<rparr>"

definition sample_single_batch :: aggregation_inputs where
  "sample_single_batch =
     \<lparr>boot_infos = [sample_range_boot], latest_l1_checkpoint_head = [5], multi_block_vkey = replicate 8 1,
      prover_address = [9]\<rparr>"

subsection \<open>Property\<close>

text \<open>C1. (safety) The two programs compose. If a verified range proof only exists for boot
  information that the range program commits for some witness, then an output of the aggregation
  program stands for derived blocks throughout: from the committed pre-root to the committed
  post-root there is a chain of one or more derived ranges, each starting at the root at which the
  last one ends, all with the committed rollup configuration, and all derived from an L1 head that
  is the committed L1 head or one of its ancestors.\<close>

theorem aggregated_range_is_derived:
  assumes "aggregate z inp headers = Ok out" and "cursor_law env" and "key_law oe"
    and "\<And>b. verified z (multi_block_vkey inp) (sha256 z (serialize_boot z b)) \<Longrightarrow>
      \<exists>w. run_range_program cfg_hash oe ke env w = Ok b"
  shows "(proved_step (range_claim cfg_hash oe ke env) (out_rollupConfigHash out)
      (\<lambda>h. (h, out_l1Head out) \<in> (parent_links z headers)\<^sup>*))\<^sup>+\<^sup>+ (out_l2PreRoot out) (out_l2PostRoot out)"
proof -
  have "range_claim cfg_hash oe ke env b" if "verified z (multi_block_vkey inp) (sha256 z (serialize_boot z b))" for b
    using assms(4) [OF that] run_range_program_claim assms(2,3) by blast
  then show ?thesis using aggregate_composes [OF assms(1), of "range_claim cfg_hash oe ke env"] by blast
qed

theorem aggregated_range_is_derived_witness:
  "\<exists>out. aggregate sample_range_zkvm sample_single_batch [sample_l2_header 5] = Ok out \<and>
     (proved_step (range_claim (\<lambda>_. [7]) sample_range_oracle (sample_kona_range 5 3) sample_driver_env)
       (out_rollupConfigHash out)
       (\<lambda>h. (h, out_l1Head out) \<in> (parent_links sample_range_zkvm [sample_l2_header 5])\<^sup>*))\<^sup>+\<^sup>+
     (out_l2PreRoot out) (out_l2PostRoot out)"
proof -
  have "\<exists>out. aggregate sample_range_zkvm sample_single_batch [sample_l2_header 5] = Ok out"
    unfolding aggregate_Ok_iff
    by (simp add: sample_single_batch_def sample_range_zkvm_def sequential_def sample_range_boot_def sample_l2_header_def)
  then obtain out where run: "aggregate sample_range_zkvm sample_single_batch [sample_l2_header 5] = Ok out" by blast
  have "\<exists>w. run_range_program (\<lambda>_. [7]) sample_range_oracle (sample_kona_range 5 3) sample_driver_env w = Ok b"
    if "verified sample_range_zkvm (multi_block_vkey sample_single_batch)
      (sha256 sample_range_zkvm (serialize_boot sample_range_zkvm b))" for b
  proof -
    have "b = sample_range_boot" using that by (simp add: sample_range_zkvm_def split: if_splits)
    then show ?thesis using sample_range_run unfolding sample_range_boot_def by blast
  qed
  from aggregated_range_is_derived [OF run sample_laws(1,2) this] run show ?thesis by blast
qed

end
