(* ===== verification/Stats.thy ===== *)
theory Stats
  imports Fetcher DbTypes "HOL-Library.Multiset"
begin

text \<open>
  The statistics of an execution, \<open>utils/host/src/stats.rs\<close>, and their aggregation over the split
  ranges in the cost estimator, \<open>scripts/utils/bin/cost_estimator.rs\<close>. The execution report of the
  zkVM is \<open>DbTypes.execution_report\<close>; sums wrap at their width, division by zero panics.
\<close>

subsection \<open>Statistics of a range\<close>

record range_execution_stats =
  st_l1_head :: int
  st_batch_start :: int
  st_batch_end :: int
  st_witness_generation_time_sec :: int
  st_total_execution_time_sec :: int
  st_total_instruction_count :: int
  st_oracle_verify_instruction_count :: int
  st_derivation_instruction_count :: int
  st_block_execution_instruction_count :: int
  st_blob_verification_instruction_count :: int
  st_total_sp1_gas :: int
  st_nb_blocks :: int
  st_nb_transactions :: int
  st_eth_gas_used :: int
  st_l1_fees :: int
  st_total_tx_fees :: int
  st_cycles_per_block :: int
  st_cycles_per_transaction :: int
  st_transactions_per_block :: int
  st_gas_used_per_block :: int
  st_gas_used_per_transaction :: int
  st_bn_pair_cycles :: int
  st_bn_add_cycles :: int
  st_bn_mul_cycles :: int
  st_kzg_eval_cycles :: int
  st_ec_recover_cycles :: int
  st_p256_verify_cycles :: int

definition sum_u64 :: "int list \<Rightarrow> int" where
  "sum_u64 xs = foldl (\<lambda>a x. wrap_u64 (a + x)) 0 xs"

definition sum_u128 :: "int list \<Rightarrow> int" where
  "sum_u128 xs = foldl (\<lambda>a x. wrap_u128 (a + x)) 0 xs"

definition div_u64 :: "int \<Rightarrow> int \<Rightarrow> int res" where
  "div_u64 a b = (if b = 0 then Inl (Panic ''attempt to divide by zero'') else Ok (a div b))"

definition stats_new ::
  "int \<Rightarrow> block_info list \<Rightarrow> execution_report \<Rightarrow> int \<Rightarrow> int \<Rightarrow> range_execution_stats res" where
  "stats_new l1_head_number data report witness_generation_time_sec total_execution_time_sec =
     (let block_data = sort_key block_number data;
          nb_blocks = wrap_u64 (int (length block_data));
          nb_transactions = sum_u64 (map transaction_count block_data);
          total_gas_used = sum_u64 (map bi_gas_used block_data);
          instructions = total_instruction_count report in
      if block_data = [] then Inl (Panic ''index out of bounds'')
      else
        res_bind (div_u64 instructions nb_blocks) (\<lambda>cycles_per_block.
        res_bind (div_u64 instructions nb_transactions) (\<lambda>cycles_per_transaction.
        res_bind (div_u64 nb_transactions nb_blocks) (\<lambda>transactions_per_block.
        res_bind (div_u64 total_gas_used nb_blocks) (\<lambda>gas_used_per_block.
        res_bind (div_u64 total_gas_used nb_transactions) (\<lambda>gas_used_per_transaction.
          Ok \<lparr>st_l1_head = l1_head_number,
              st_batch_start = wrap_u64 (block_number (block_data ! 0) - 1),
              st_batch_end = block_number (block_data ! (length block_data - 1)),
              st_witness_generation_time_sec = witness_generation_time_sec,
              st_total_execution_time_sec = total_execution_time_sec,
              st_total_instruction_count = instructions,
              st_oracle_verify_instruction_count = get_cycles report ''oracle-verify'',
              st_derivation_instruction_count = get_cycles report ''payload-derivation'',
              st_block_execution_instruction_count = get_cycles report ''block-execution'',
              st_blob_verification_instruction_count = get_cycles report ''blob-verification'',
              st_total_sp1_gas = (case gas report of None \<Rightarrow> 0 | Some g \<Rightarrow> g),
              st_nb_blocks = nb_blocks,
              st_nb_transactions = nb_transactions,
              st_eth_gas_used = sum_u64 (map bi_gas_used block_data),
              st_l1_fees = sum_u128 (map total_l1_fees block_data),
              st_total_tx_fees = sum_u128 (map total_tx_fees block_data),
              st_cycles_per_block = cycles_per_block,
              st_cycles_per_transaction = cycles_per_transaction,
              st_transactions_per_block = transactions_per_block,
              st_gas_used_per_block = gas_used_per_block,
              st_gas_used_per_transaction = gas_used_per_transaction,
              st_bn_pair_cycles = get_cycles report ''precompile-bn-pair'',
              st_bn_add_cycles = get_cycles report ''precompile-bn-add'',
              st_bn_mul_cycles = get_cycles report ''precompile-bn-mul'',
              st_kzg_eval_cycles = get_cycles report ''precompile-kzg-eval'',
              st_ec_recover_cycles = get_cycles report ''precompile-ec-recover'',
              st_p256_verify_cycles = get_cycles report ''precompile-p256-verify''\<rparr>))))))"

subsection \<open>Aggregation\<close>

definition default_stats :: range_execution_stats where
  "default_stats =
     \<lparr>st_l1_head = 0, st_batch_start = 0, st_batch_end = 0, st_witness_generation_time_sec = 0,
      st_total_execution_time_sec = 0, st_total_instruction_count = 0,
      st_oracle_verify_instruction_count = 0, st_derivation_instruction_count = 0,
      st_block_execution_instruction_count = 0, st_blob_verification_instruction_count = 0,
      st_total_sp1_gas = 0, st_nb_blocks = 0, st_nb_transactions = 0, st_eth_gas_used = 0,
      st_l1_fees = 0, st_total_tx_fees = 0, st_cycles_per_block = 0, st_cycles_per_transaction = 0,
      st_transactions_per_block = 0, st_gas_used_per_block = 0, st_gas_used_per_transaction = 0,
      st_bn_pair_cycles = 0, st_bn_add_cycles = 0, st_bn_mul_cycles = 0, st_kzg_eval_cycles = 0,
      st_ec_recover_cycles = 0, st_p256_verify_cycles = 0\<rparr>"

definition add_stats :: "range_execution_stats \<Rightarrow> range_execution_stats \<Rightarrow> range_execution_stats" where
  "add_stats stats a =
     a\<lparr>st_total_instruction_count := wrap_u64 (st_total_instruction_count a + st_total_instruction_count stats),
       st_oracle_verify_instruction_count :=
         wrap_u64 (st_oracle_verify_instruction_count a + st_oracle_verify_instruction_count stats),
       st_derivation_instruction_count :=
         wrap_u64 (st_derivation_instruction_count a + st_derivation_instruction_count stats),
       st_block_execution_instruction_count :=
         wrap_u64 (st_block_execution_instruction_count a + st_block_execution_instruction_count stats),
       st_blob_verification_instruction_count :=
         wrap_u64 (st_blob_verification_instruction_count a + st_blob_verification_instruction_count stats),
       st_total_sp1_gas := wrap_u64 (st_total_sp1_gas a + st_total_sp1_gas stats),
       st_nb_blocks := wrap_u64 (st_nb_blocks a + st_nb_blocks stats),
       st_nb_transactions := wrap_u64 (st_nb_transactions a + st_nb_transactions stats),
       st_eth_gas_used := wrap_u64 (st_eth_gas_used a + st_eth_gas_used stats),
       st_bn_pair_cycles := wrap_u64 (st_bn_pair_cycles a + st_bn_pair_cycles stats),
       st_bn_add_cycles := wrap_u64 (st_bn_add_cycles a + st_bn_add_cycles stats),
       st_bn_mul_cycles := wrap_u64 (st_bn_mul_cycles a + st_bn_mul_cycles stats),
       st_kzg_eval_cycles := wrap_u64 (st_kzg_eval_cycles a + st_kzg_eval_cycles stats),
       st_ec_recover_cycles := wrap_u64 (st_ec_recover_cycles a + st_ec_recover_cycles stats),
       st_p256_verify_cycles := wrap_u64 (st_p256_verify_cycles a + st_p256_verify_cycles stats)\<rparr>"

definition aggregate_execution_stats :: "range_execution_stats list \<Rightarrow> int \<Rightarrow> int \<Rightarrow> range_execution_stats res" where
  "aggregate_execution_stats stats total_execution_time_sec witness_generation_time_sec =
     (let (batch_start, batch_end, a) =
            fold (\<lambda>st (b, e, a). (min b (st_batch_start st), max e (st_batch_end st), add_stats st a)) stats
              (u64_max, 0, default_stats) in
      res_bind (div_u64 (st_total_instruction_count a) (st_nb_blocks a)) (\<lambda>cycles_per_block.
      res_bind (div_u64 (st_total_instruction_count a) (st_nb_transactions a)) (\<lambda>cycles_per_transaction.
      res_bind (div_u64 (st_nb_transactions a) (st_nb_blocks a)) (\<lambda>transactions_per_block.
      res_bind (div_u64 (st_eth_gas_used a) (st_nb_blocks a)) (\<lambda>gas_used_per_block.
      res_bind (div_u64 (st_eth_gas_used a) (st_nb_transactions a)) (\<lambda>gas_used_per_transaction.
        Ok (a\<lparr>st_cycles_per_block := cycles_per_block, st_cycles_per_transaction := cycles_per_transaction,
              st_transactions_per_block := transactions_per_block, st_gas_used_per_block := gas_used_per_block,
              st_gas_used_per_transaction := gas_used_per_transaction,
              st_batch_start := batch_start, st_batch_end := batch_end,
              st_total_execution_time_sec := total_execution_time_sec,
              st_witness_generation_time_sec := witness_generation_time_sec\<rparr>)))))))"

subsection \<open>Sums\<close>

lemma wrap_u64_add: "wrap_u64 (wrap_u64 a + b) = wrap_u64 (a + b)" "wrap_u64 (a + wrap_u64 b) = wrap_u64 (a + b)"
  by (simp_all add: wrap_u64_def mod_simps)

lemma wrap_u64_twice [simp]: "wrap_u64 (wrap_u64 a) = wrap_u64 a"
  by (simp add: wrap_u64_def)

lemma foldl_wrap: "foldl (\<lambda>a x. wrap_u64 (a + x)) (wrap_u64 a) xs = wrap_u64 (a + sum_list xs)"
  by (induction xs arbitrary: a) (simp_all add: wrap_u64_add add.assoc)

lemma sum_u64_eq: "sum_u64 xs = wrap_u64 (sum_list xs)"
  using foldl_wrap [of 0 xs] by (simp add: sum_u64_def)

lemma sum_list_sort_key: "sum_list (map f (sort_key k xs)) = sum_list (map (f :: _ \<Rightarrow> int) xs)"
  by (metis mset_map mset_sort sum_mset_sum_list)

lemma sum_u64_sort: "sum_u64 (map f (sort_key k xs)) = sum_u64 (map f xs)"
  by (simp add: sum_u64_eq sum_list_sort_key)

text \<open>Sums of sums: a total over the pieces is the total over everything.\<close>

lemma sum_of_sums: "wrap_u64 (sum_list (map (\<lambda>p. wrap_u64 (f p)) ps)) = wrap_u64 (sum_list (map f ps))"
proof (induction ps)
  case (Cons p ps)
  have "wrap_u64 (wrap_u64 (f p) + sum_list (map (\<lambda>p. wrap_u64 (f p)) ps))
      = wrap_u64 (f p + wrap_u64 (sum_list (map (\<lambda>p. wrap_u64 (f p)) ps)))"
    by (simp add: wrap_u64_add)
  then show ?case by (simp add: Cons.IH wrap_u64_add)
qed simp

text \<open>The record with its accumulated fields increased by the totals over \<open>sts\<close>.\<close>

definition with_totals :: "range_execution_stats list \<Rightarrow> range_execution_stats \<Rightarrow> range_execution_stats" where
  "with_totals sts a =
     a\<lparr>st_total_instruction_count := wrap_u64 (st_total_instruction_count a + sum_list (map st_total_instruction_count sts)),
       st_oracle_verify_instruction_count :=
         wrap_u64 (st_oracle_verify_instruction_count a + sum_list (map st_oracle_verify_instruction_count sts)),
       st_derivation_instruction_count :=
         wrap_u64 (st_derivation_instruction_count a + sum_list (map st_derivation_instruction_count sts)),
       st_block_execution_instruction_count :=
         wrap_u64 (st_block_execution_instruction_count a + sum_list (map st_block_execution_instruction_count sts)),
       st_blob_verification_instruction_count :=
         wrap_u64 (st_blob_verification_instruction_count a + sum_list (map st_blob_verification_instruction_count sts)),
       st_total_sp1_gas := wrap_u64 (st_total_sp1_gas a + sum_list (map st_total_sp1_gas sts)),
       st_nb_blocks := wrap_u64 (st_nb_blocks a + sum_list (map st_nb_blocks sts)),
       st_nb_transactions := wrap_u64 (st_nb_transactions a + sum_list (map st_nb_transactions sts)),
       st_eth_gas_used := wrap_u64 (st_eth_gas_used a + sum_list (map st_eth_gas_used sts)),
       st_bn_pair_cycles := wrap_u64 (st_bn_pair_cycles a + sum_list (map st_bn_pair_cycles sts)),
       st_bn_add_cycles := wrap_u64 (st_bn_add_cycles a + sum_list (map st_bn_add_cycles sts)),
       st_bn_mul_cycles := wrap_u64 (st_bn_mul_cycles a + sum_list (map st_bn_mul_cycles sts)),
       st_kzg_eval_cycles := wrap_u64 (st_kzg_eval_cycles a + sum_list (map st_kzg_eval_cycles sts)),
       st_ec_recover_cycles := wrap_u64 (st_ec_recover_cycles a + sum_list (map st_ec_recover_cycles sts)),
       st_p256_verify_cycles := wrap_u64 (st_p256_verify_cycles a + sum_list (map st_p256_verify_cycles sts))\<rparr>"

lemma with_totals_step: "with_totals sts (add_stats st (with_totals [] a)) = with_totals (st # sts) a"
  by (simp add: with_totals_def add_stats_def wrap_u64_add add.assoc)

lemma with_totals_add: "with_totals [] (add_stats st a) = add_stats st a"
  by (simp add: with_totals_def add_stats_def)

lemma fold_add_stats: "fold add_stats sts (with_totals [] a) = with_totals sts a"
proof (induction sts arbitrary: a)
  case (Cons st sts)
  have "fold add_stats (st # sts) (with_totals [] a) = fold add_stats sts (add_stats st (with_totals [] a))" by simp
  also have "\<dots> = fold add_stats sts (with_totals [] (add_stats st (with_totals [] a)))"
    by (simp only: with_totals_add)
  also have "\<dots> = with_totals (st # sts) a" by (subst Cons.IH) (rule with_totals_step)
  finally show ?case .
qed simp

lemma fold_triple:
  "fold (\<lambda>st (b, e, a). (min b (f st), max e (g st), h st a)) sts (b, e, a)
     = (fold (\<lambda>st b. min b (f st)) sts b, fold (\<lambda>st e. max e (g st)) sts e, fold h sts a)"
  by (induction sts arbitrary: b e a) simp_all

lemma default_totals: "with_totals [] default_stats = default_stats"
  by (simp add: with_totals_def default_stats_def)

subsection \<open>The pieces and the whole\<close>

definition gas_or_zero :: "execution_report \<Rightarrow> int" where
  "gas_or_zero report = (case gas report of None \<Rightarrow> 0 | Some g \<Rightarrow> g)"

text \<open>One report for the executions of all pieces.\<close>

definition sum_reports :: "execution_report list \<Rightarrow> execution_report" where
  "sum_reports reps =
     \<lparr>total_instruction_count = sum_u64 (map total_instruction_count reps),
      gas = Some (sum_u64 (map gas_or_zero reps)),
      cycle_tracker = (\<lambda>key. Some (sum_u64 (map (\<lambda>r. get_cycles r key) reps)))\<rparr>"

lemma sum_reports_simps:
  "get_cycles (sum_reports reps) key = sum_u64 (map (\<lambda>r. get_cycles r key) reps)"
  "total_instruction_count (sum_reports reps) = sum_u64 (map total_instruction_count reps)"
  "gas (sum_reports reps) = Some (sum_u64 (map gas_or_zero reps))"
  by (simp_all add: sum_reports_def get_cycles_def)

lemma stats_new_Ok:
  assumes "stats_new l1 data rep w t = Ok st"
  shows "data \<noteq> []"
    "st_batch_start st = wrap_u64 (block_number (sort_key block_number data ! 0) - 1)"
    "st_batch_end st = block_number (sort_key block_number data ! (length data - 1))"
    "st_total_instruction_count st = total_instruction_count rep"
    "st_oracle_verify_instruction_count st = get_cycles rep ''oracle-verify''"
    "st_derivation_instruction_count st = get_cycles rep ''payload-derivation''"
    "st_block_execution_instruction_count st = get_cycles rep ''block-execution''"
    "st_blob_verification_instruction_count st = get_cycles rep ''blob-verification''"
    "st_total_sp1_gas st = gas_or_zero rep"
    "st_nb_blocks st = wrap_u64 (int (length data))"
    "st_nb_transactions st = sum_u64 (map transaction_count data)"
    "st_eth_gas_used st = sum_u64 (map bi_gas_used data)"
    "st_bn_pair_cycles st = get_cycles rep ''precompile-bn-pair''"
    "st_bn_add_cycles st = get_cycles rep ''precompile-bn-add''"
    "st_bn_mul_cycles st = get_cycles rep ''precompile-bn-mul''"
    "st_kzg_eval_cycles st = get_cycles rep ''precompile-kzg-eval''"
    "st_ec_recover_cycles st = get_cycles rep ''precompile-ec-recover''"
    "st_p256_verify_cycles st = get_cycles rep ''precompile-p256-verify''"
  using assms unfolding stats_new_def Let_def
  by (auto simp: res_bind_Ok_iff gas_or_zero_def sum_u64_sort split: if_splits)

lemma pieces_map:
  assumes "map_res (\<lambda>(data, rep). stats_new l1 data rep w t) pieces = Ok sts"
    and "\<And>data rep st. stats_new l1 data rep w t = Ok st \<Longrightarrow> f st = g data rep"
  shows "map f sts = map (\<lambda>(data, rep). g data rep) pieces"
  using assms(1) by (induction pieces arbitrary: sts) (auto simp: res_bind_Ok_iff assms(2))

lemma totals_of_reports:
  assumes "map_res (\<lambda>(data, rep). stats_new l1 data rep w t) pieces = Ok sts"
    and "\<And>data rep st. stats_new l1 data rep w t = Ok st \<Longrightarrow> f st = g rep"
  shows "wrap_u64 (sum_list (map f sts)) = sum_u64 (map g (map snd pieces))"
  using pieces_map [OF assms(1), of f "\<lambda>data rep. g rep"] assms(2)
  by (simp add: sum_u64_eq comp_def case_prod_unfold)

lemma totals_of_blocks:
  assumes "map_res (\<lambda>(data, rep). stats_new l1 data rep w t) pieces = Ok sts"
    and "\<And>data rep st. stats_new l1 data rep w t = Ok st \<Longrightarrow> f st = wrap_u64 (sum_list (map g data))"
  shows "wrap_u64 (sum_list (map f sts)) = wrap_u64 (sum_list (map g (concat (map fst pieces))))"
proof -
  have "map f sts = map (\<lambda>p. wrap_u64 (sum_list (map g (fst p)))) pieces"
    using pieces_map [OF assms(1), of f "\<lambda>data rep. wrap_u64 (sum_list (map g data))"] assms(2)
    by (simp add: case_prod_unfold)
  then have "wrap_u64 (sum_list (map f sts)) = wrap_u64 (sum_list (map (\<lambda>p. sum_list (map g (fst p))) pieces))"
    by (simp only: sum_of_sums)
  also have "(\<Sum>p\<leftarrow>pieces. sum_list (map g (fst p))) = sum_list (map g (concat (map fst pieces)))"
    by (induction pieces) auto
  finally show ?thesis .
qed

lemma first_of_sorted:
  fixes k :: "'a \<Rightarrow> int"
  assumes "xs \<noteq> []"
  shows "k (sort_key k xs ! 0) = Min (k ` set xs)" "k (sort_key k xs ! (length xs - 1)) = Max (k ` set xs)"
proof -
  let ?ys = "map k (sort_key k xs)"
  have ys: "sorted ?ys" "set ?ys = k ` set xs" by simp_all
  have len: "length ?ys = length xs" "0 < length xs" using assms by simp_all
  have all: "?ys ! 0 \<le> y" "y \<le> ?ys ! (length xs - 1)" if "y \<in> set ?ys" for y
  proof -
    obtain i where "i < length ?ys" "y = ?ys ! i" using \<open>y \<in> set ?ys\<close> unfolding in_set_conv_nth by blast
    then show "?ys ! 0 \<le> y" "y \<le> ?ys ! (length xs - 1)" using len by (auto intro!: sorted_nth_mono [OF ys(1)] simp del: nth_map)
  qed
  have mem: "?ys ! 0 \<in> set ?ys" "?ys ! (length xs - 1) \<in> set ?ys" using len by (auto intro!: nth_mem simp del: nth_map set_map)
  have "Min (set ?ys) = ?ys ! 0" "Max (set ?ys) = ?ys ! (length xs - 1)"
    by (rule Min_eqI Max_eqI; use all mem in \<open>simp del: nth_map set_map\<close>)+
  then show "k (sort_key k xs ! 0) = Min (k ` set xs)" "k (sort_key k xs ! (length xs - 1)) = Max (k ` set xs)"
    using len by (simp_all add: ys(2))
qed

abbreviation all_blocks_of :: "(block_info list \<times> execution_report) list \<Rightarrow> block_info list" where
  "all_blocks_of pieces \<equiv> concat (map fst pieces)"

lemma pieces_nonempty:
  assumes "map_res (\<lambda>(data, rep). stats_new l1 data rep w t) pieces = Ok sts" and "pieces \<noteq> []"
  shows "all_blocks_of pieces \<noteq> []"
  using assms by (cases pieces) (auto simp: res_bind_Ok_iff dest: stats_new_Ok(1))

lemma pieces_batch:
  assumes "map_res (\<lambda>(data, rep). stats_new l1 data rep w t) pieces = Ok sts"
    and "\<forall>b \<in> set (all_blocks_of pieces). 1 \<le> block_number b \<and> block_number b \<le> u64_max"
  shows "fold (\<lambda>st b. min b (st_batch_start st)) sts b =
      (if pieces = [] then b else min b (Min (block_number ` set (all_blocks_of pieces)) - 1))"
    and "fold (\<lambda>st e. max e (st_batch_end st)) sts e =
      (if pieces = [] then e else max e (Max (block_number ` set (all_blocks_of pieces))))"
proof -
  have "fold (\<lambda>st b. min b (st_batch_start st)) sts b =
      (if pieces = [] then b else min b (Min (block_number ` set (all_blocks_of pieces)) - 1)) \<and>
    fold (\<lambda>st e. max e (st_batch_end st)) sts e =
      (if pieces = [] then e else max e (Max (block_number ` set (all_blocks_of pieces))))"
    using assms
  proof (induction pieces arbitrary: sts b e)
    case (Cons p pieces)
    obtain data rep where p: "p = (data, rep)" by fastforce
    obtain st rest where st: "stats_new l1 data rep w t = Ok st" and sts: "sts = st # rest"
      and rest: "map_res (\<lambda>(data, rep). stats_new l1 data rep w t) pieces = Ok rest"
      using Cons.prems(1) p by (auto simp: res_bind_Ok_iff)
    note fields = stats_new_Ok [OF st]
    let ?A = "block_number ` set data" and ?B = "block_number ` set (all_blocks_of pieces)"
    have ne: "?A \<noteq> {}" using fields(1) by simp
    have "Min ?A \<in> ?A" using ne by simp
    then obtain x where x: "x \<in> set data" "Min ?A = block_number x" by blast
    then have "1 \<le> block_number x \<and> block_number x \<le> u64_max" using Cons.prems(2) p by simp
    then have "is_u64 (Min ?A - 1)" using x(2) by (simp add: is_u64_def)
    then have start: "st_batch_start st = Min ?A - 1"
      using first_of_sorted(1) [OF fields(1), of block_number] fields(2) by simp
    have stop: "st_batch_end st = Max ?A"
      using first_of_sorted(2) [OF fields(1), of block_number] fields(3) by simp
    have IH: "fold (\<lambda>st b. min b (st_batch_start st)) rest b' = (if pieces = [] then b' else min b' (Min ?B - 1))"
      "fold (\<lambda>st e. max e (st_batch_end st)) rest e' = (if pieces = [] then e' else max e' (Max ?B))" for b' e'
      using Cons.IH [OF rest] Cons.prems(2) by auto
    show ?case
    proof (cases "pieces = []")
      case True
      then show ?thesis using IH start stop by (simp add: sts p)
    next
      case False
      then have "?B \<noteq> {}" using pieces_nonempty [OF rest] by simp
      then have "Min (?A \<union> ?B) = min (Min ?A) (Min ?B)" "Max (?A \<union> ?B) = max (Max ?A) (Max ?B)"
        using ne by (simp_all add: Min_Un Max_Un)
      then have joined: "Min (block_number ` set (all_blocks_of (p # pieces))) = min (Min ?A) (Min ?B)"
        "Max (block_number ` set (all_blocks_of (p # pieces))) = max (Max ?A) (Max ?B)"
        by (simp_all only: p list.map fst_conv concat.simps set_append image_Un)
      show ?thesis unfolding sts fold_simps IH start stop joined using False by (simp add: min_def max_def)
    qed
  qed simp
  then show "fold (\<lambda>st b. min b (st_batch_start st)) sts b =
      (if pieces = [] then b else min b (Min (block_number ` set (all_blocks_of pieces)) - 1))"
    and "fold (\<lambda>st e. max e (st_batch_end st)) sts e =
      (if pieces = [] then e else max e (Max (block_number ` set (all_blocks_of pieces))))" by blast+
qed

lemma aggregate_whole:
  assumes run: "map_res (\<lambda>(data, rep). stats_new 0 data rep w0 t0) pieces = Ok sts" and ne: "pieces \<noteq> []"
    and numbers: "\<forall>b \<in> set (all_blocks_of pieces). 1 \<le> block_number b \<and> block_number b \<le> u64_max"
  shows "aggregate_execution_stats sts t w =
    res_bind (stats_new 0 (all_blocks_of pieces) (sum_reports (map snd pieces)) w t)
      (\<lambda>st. Ok (st\<lparr>st_l1_fees := 0, st_total_tx_fees := 0\<rparr>))"
proof -
  let ?B = "all_blocks_of pieces" and ?R = "map snd pieces"
  let ?N = "block_number ` set ?B"
  have B: "?B \<noteq> []" by (rule pieces_nonempty [OF run ne])
  note reports = totals_of_reports [OF run]
  have cycles:
    "wrap_u64 (sum_list (map st_total_instruction_count sts)) = sum_u64 (map total_instruction_count ?R)"
    "wrap_u64 (sum_list (map st_oracle_verify_instruction_count sts)) = sum_u64 (map (\<lambda>r. get_cycles r ''oracle-verify'') ?R)"
    "wrap_u64 (sum_list (map st_derivation_instruction_count sts)) = sum_u64 (map (\<lambda>r. get_cycles r ''payload-derivation'') ?R)"
    "wrap_u64 (sum_list (map st_block_execution_instruction_count sts)) = sum_u64 (map (\<lambda>r. get_cycles r ''block-execution'') ?R)"
    "wrap_u64 (sum_list (map st_blob_verification_instruction_count sts)) = sum_u64 (map (\<lambda>r. get_cycles r ''blob-verification'') ?R)"
    "wrap_u64 (sum_list (map st_total_sp1_gas sts)) = sum_u64 (map gas_or_zero ?R)"
    "wrap_u64 (sum_list (map st_bn_pair_cycles sts)) = sum_u64 (map (\<lambda>r. get_cycles r ''precompile-bn-pair'') ?R)"
    "wrap_u64 (sum_list (map st_bn_add_cycles sts)) = sum_u64 (map (\<lambda>r. get_cycles r ''precompile-bn-add'') ?R)"
    "wrap_u64 (sum_list (map st_bn_mul_cycles sts)) = sum_u64 (map (\<lambda>r. get_cycles r ''precompile-bn-mul'') ?R)"
    "wrap_u64 (sum_list (map st_kzg_eval_cycles sts)) = sum_u64 (map (\<lambda>r. get_cycles r ''precompile-kzg-eval'') ?R)"
    "wrap_u64 (sum_list (map st_ec_recover_cycles sts)) = sum_u64 (map (\<lambda>r. get_cycles r ''precompile-ec-recover'') ?R)"
    "wrap_u64 (sum_list (map st_p256_verify_cycles sts)) = sum_u64 (map (\<lambda>r. get_cycles r ''precompile-p256-verify'') ?R)"
    by (rule reports, erule stats_new_Ok)+
  have one: "sum_list (map (\<lambda>_. 1) xs) = int (length xs)" for xs :: "block_info list" by (induction xs) simp_all
  have nb: "wrap_u64 (sum_list (map st_nb_blocks sts)) = wrap_u64 (int (length ?B))"
    using totals_of_blocks [OF run, of st_nb_blocks "\<lambda>_. 1"] stats_new_Ok(10) by (simp add: one)
  have tx: "wrap_u64 (sum_list (map st_nb_transactions sts)) = sum_u64 (map transaction_count ?B)"
    using totals_of_blocks [OF run, of st_nb_transactions transaction_count] stats_new_Ok(11) by (simp add: sum_u64_eq)
  have gas: "wrap_u64 (sum_list (map st_eth_gas_used sts)) = sum_u64 (map bi_gas_used ?B)"
    using totals_of_blocks [OF run, of st_eth_gas_used bi_gas_used] stats_new_Ok(12) by (simp add: sum_u64_eq)
  have "Min ?N \<in> ?N" "Max ?N \<in> ?N" using B by simp_all
  then have bounds: "1 \<le> Min ?N" "Min ?N \<le> u64_max" "1 \<le> Max ?N" using numbers by auto
  then have "is_u64 (Min ?N - 1)" by (simp add: is_u64_def)
  then have start: "wrap_u64 (block_number (sort_key block_number ?B ! 0) - 1) = min u64_max (Min ?N - 1)"
    and stop: "block_number (sort_key block_number ?B ! (length ?B - 1)) = max 0 (Max ?N)"
    using first_of_sorted [OF B, of block_number] bounds by simp_all
  have batch: "fold (\<lambda>st b. min b (st_batch_start st)) sts u64_max = min u64_max (Min ?N - 1)"
    "fold (\<lambda>st e. max e (st_batch_end st)) sts 0 = max 0 (Max ?N)"
    using pieces_batch [OF run numbers] ne by simp_all
  have unsorted: "sort_key block_number ?B \<noteq> []"
    using B by (metis length_sort length_0_conv)
  have totals: "fold add_stats sts default_stats = with_totals sts default_stats"
    using fold_add_stats [of sts default_stats] by (simp only: default_totals)
  show ?thesis
    unfolding aggregate_execution_stats_def fold_triple batch totals Let_def prod.case
    unfolding stats_new_def Let_def start length_sort stop sum_u64_sort
    by (simp add: unsorted with_totals_def default_stats_def sum_reports_simps cycles nb tx gas res_bind_def
        div_u64_def del: map_map split: sum.splits)
qed

subsection \<open>Property\<close>

definition sample_stats_block :: "int \<Rightarrow> int \<Rightarrow> block_info" where
  "sample_stats_block n txs =
     \<lparr>block_number = n, transaction_count = txs, bi_gas_used = 1000 * txs, total_l1_fees = 5, total_tx_fees = 7\<rparr>"

definition sample_report :: "int \<Rightarrow> execution_report" where
  "sample_report n = \<lparr>total_instruction_count = 10 * n, gas = Some n, cycle_tracker = [''oracle-verify'' \<mapsto> n]\<rparr>"

definition sample_pieces :: "(block_info list \<times> execution_report) list" where
  "sample_pieces =
     [([sample_stats_block 12 3, sample_stats_block 11 1], sample_report 6), ([sample_stats_block 13 4], sample_report 2)]"

text \<open>(equivalence) The statistics of split ranges add up. Aggregating the statistics of the pieces
  gives the same record as the statistics of one execution over all blocks of the pieces, with the
  cycle counts of their reports added: the same batch bounds, totals and averages, whatever the
  split, also where a total wraps at 64 bits, and the same panic for a range without transactions.
  The only difference are the L1 and transaction fees, which the aggregation leaves at zero.\<close>

theorem aggregated_stats_are_stats_of_whole:
  assumes "map_res (\<lambda>(data, rep). stats_new 0 data rep w0 t0) pieces = Ok sts" and "pieces \<noteq> []"
    and "\<forall>b \<in> set (concat (map fst pieces)). 1 \<le> block_number b \<and> block_number b \<le> u64_max"
  shows "aggregate_execution_stats sts t w =
    res_bind (stats_new 0 (concat (map fst pieces)) (sum_reports (map snd pieces)) w t)
      (\<lambda>st. Ok (st\<lparr>st_l1_fees := 0, st_total_tx_fees := 0\<rparr>))"
  by (rule aggregate_whole [OF assms])

theorem aggregated_stats_are_stats_of_whole_witness:
  "\<exists>sts st. map_res (\<lambda>(data, rep). stats_new 0 data rep 0 0) sample_pieces = Ok sts \<and>
     aggregate_execution_stats sts 0 0 = Ok st \<and>
     st_batch_start st = 10 \<and> st_batch_end st = 13 \<and> st_nb_transactions st = 8 \<and> st_cycles_per_transaction st = 10"
proof -
  note eval = stats_new_def sample_stats_block_def sample_report_def div_u64_def Let_def sum_u64_def wrap_u64_def
  have "\<exists>sts. map_res (\<lambda>(data, rep). stats_new 0 data rep 0 0) sample_pieces = Ok sts"
    by (simp add: eval sample_pieces_def)
  then obtain sts where run: "map_res (\<lambda>(data, rep). stats_new 0 data rep 0 0) sample_pieces = Ok sts" by blast
  have whole: "concat (map fst sample_pieces) = [sample_stats_block 12 3, sample_stats_block 11 1, sample_stats_block 13 4]"
    by (simp add: sample_pieces_def)
  have "aggregate_execution_stats sts 0 0 =
    res_bind (stats_new 0 (concat (map fst sample_pieces)) (sum_reports (map snd sample_pieces)) 0 0)
      (\<lambda>st. Ok (st\<lparr>st_l1_fees := 0, st_total_tx_fees := 0\<rparr>))"
    by (rule aggregated_stats_are_stats_of_whole [OF run])
      (simp add: sample_pieces_def, simp add: whole sample_stats_block_def u64_max_def)
  then have "\<exists>st. aggregate_execution_stats sts 0 0 = Ok st \<and> st_batch_start st = 10 \<and> st_batch_end st = 13 \<and>
      st_nb_transactions st = 8 \<and> st_cycles_per_transaction st = 10"
    unfolding whole by (simp add: eval sum_reports_simps sample_pieces_def gas_or_zero_def)
  then show ?thesis using run by blast
qed

end
