(* ===== verification/Settings.thy ===== *)
theory Settings
  imports ProofRequester FaultProposer
begin

text \<open>
  The settings of the services, read from the process environment: \<open>validity/src/env.rs\<close>,
  \<open>fault-proof/src/config.rs\<close>, \<open>get_rpcs\<close> of \<open>utils/host/src/fetcher.rs\<close> and \<open>Signer::from_env\<close> of
  \<open>utils/signer/src/lib.rs\<close>. The environment is a map from names to values.
  Parsing of URLs, addresses and private keys is third-party code, the record \<open>parsers\<close>; numbers
  and booleans are parsed as the standard library does.
\<close>

type_synonym environment = "string \<rightharpoonup> string"

type_synonym url = string

record parsers =
  ps_url :: "string \<Rightarrow> url option"
  ps_address :: "string \<Rightarrow> address option"
  ps_private_key :: "string \<Rightarrow> address option"
  ps_show_address :: "address \<Rightarrow> string"

subsection \<open>Parsing as the standard library does\<close>

definition digit :: "char \<Rightarrow> int option" where
  "digit c = (let n = of_char c in if 48 \<le> n \<and> n \<le> 57 then Some (n - 48) else None)"

fun digits :: "int \<Rightarrow> int \<Rightarrow> string \<Rightarrow> int option" where
  "digits limit acc [] = Some acc"
| "digits limit acc (c # cs) =
     (case digit c of
        None \<Rightarrow> None
      | Some d \<Rightarrow> if 10 * acc + d \<le> limit then digits limit (10 * acc + d) cs else None)"

text \<open>\<open>u64::from_str\<close> and its smaller kin: one optional plus sign, digits, no overflow.\<close>

definition parse_unsigned :: "int \<Rightarrow> string \<Rightarrow> int option" where
  "parse_unsigned limit s =
     (let t = (case s of [] \<Rightarrow> [] | c # cs \<Rightarrow> if c = CHR ''+'' then cs else s) in
      if t = [] then None else digits limit 0 t)"

definition parse_u64 :: "string \<Rightarrow> int option" where "parse_u64 = parse_unsigned u64_max"

definition parse_u32 :: "string \<Rightarrow> int option" where "parse_u32 = parse_unsigned u32_max"

definition parse_u16 :: "string \<Rightarrow> int option" where "parse_u16 = parse_unsigned (2 ^ 16 - 1)"

definition parse_bool :: "string \<Rightarrow> bool option" where
  "parse_bool s = (if s = ''true'' then Some True else if s = ''false'' then Some False else None)"

definition parse_string :: "string \<Rightarrow> string option" where "parse_string s = Some s"

definition char_to_lower :: "char \<Rightarrow> char" where
  "char_to_lower c = (let n = of_char c :: nat in if 65 \<le> n \<and> n \<le> 90 then char_of (n + 32) else c)"

definition to_lowercase :: "string \<Rightarrow> string" where "to_lowercase s = map char_to_lower s"

definition is_whitespace :: "char \<Rightarrow> bool" where
  "is_whitespace c = (let n = of_char c :: nat in n = 32 \<or> 9 \<le> n \<and> n \<le> 13)"

definition trim :: "string \<Rightarrow> string" where
  "trim s = rev (dropWhile is_whitespace (rev (dropWhile is_whitespace s)))"

fun split_on :: "char \<Rightarrow> string \<Rightarrow> string list" where
  "split_on sep [] = [[]]"
| "split_on sep (c # cs) =
     (if c = sep then [] # split_on sep cs
      else (case split_on sep cs of [] \<Rightarrow> [[c]] | w # ws \<Rightarrow> (c # w) # ws))"

subsection \<open>The signer\<close>

datatype signer = Web3Signer url address | LocalSigner address

fun signer_address :: "signer \<Rightarrow> address" where
  "signer_address (Web3Signer _ a) = a"
| "signer_address (LocalSigner a) = a"

definition signer_from_env :: "parsers \<Rightarrow> environment \<Rightarrow> signer res" where
  "signer_from_env ps env =
     (case (env ''SIGNER_URL'', env ''SIGNER_ADDRESS'') of
        (Some signer_url_str, Some signer_address_str) \<Rightarrow>
          (case ps_url ps signer_url_str of
             None \<Rightarrow> Err (Msg ''Failed to parse SIGNER_URL'')
           | Some signer_url \<Rightarrow>
               (case ps_address ps signer_address_str of
                  None \<Rightarrow> Err (Msg ''Failed to parse SIGNER_ADDRESS'')
                | Some a \<Rightarrow> Ok (Web3Signer signer_url a)))
      | _ \<Rightarrow>
          (case env ''PRIVATE_KEY'' of
             Some private_key_str \<Rightarrow>
               (case ps_private_key ps private_key_str of
                  None \<Rightarrow> Err (Msg ''Failed to parse PRIVATE_KEY'')
                | Some a \<Rightarrow> Ok (LocalSigner a))
           | None \<Rightarrow> Err (Msg ''Neither SIGNER_URL and SIGNER_ADDRESS nor PRIVATE_KEY are set'')))"

subsection \<open>The validity proposer\<close>

definition get_env_var :: "environment \<Rightarrow> (string \<Rightarrow> 'a option) \<Rightarrow> string \<Rightarrow> 'a option \<Rightarrow> 'a res" where
  "get_env_var env parse key dflt =
     (case env key of
        Some v \<Rightarrow> (case parse v of None \<Rightarrow> Err (Msg (''Failed to parse '' @ key)) | Some x \<Rightarrow> Ok x)
      | None \<Rightarrow> (case dflt of Some d \<Rightarrow> Ok d | None \<Rightarrow> Err (Msg (key @ '' is not set''))))"

record environment_config =
  ec_db_url :: string
  ec_metrics_port :: int
  ec_l1_rpc :: url
  ec_signer :: signer
  ec_prover_address :: address
  ec_loop_interval :: int
  ec_range_proof_strategy :: fulfillment_strategy
  ec_agg_proof_strategy :: fulfillment_strategy
  ec_agg_proof_mode :: proof_mode
  ec_l2oo_address :: address
  ec_dgf_address :: address
  ec_range_proof_interval :: int
  ec_max_concurrent_witness_gen :: int
  ec_max_concurrent_proof_requests :: int
  ec_submission_interval :: int
  ec_mock :: bool
  ec_safe_db_fallback :: bool
  ec_op_succinct_config_name :: string
  ec_use_local_proving :: bool

definition default_loop_interval :: int where "default_loop_interval = 60"

definition zero_address :: address where "zero_address = replicate 20 0"

definition strategy_of :: "string \<Rightarrow> fulfillment_strategy" where
  "strategy_of s = (if to_lowercase s = ''hosted'' then Hosted else Reserved)"

definition read_proposer_env :: "parsers \<Rightarrow> environment \<Rightarrow> environment_config res" where
  "read_proposer_env ps env =
     res_bind (signer_from_env ps env) (\<lambda>signer.
     res_bind (get_env_var env (ps_address ps) ''PROVER_ADDRESS'' (Some (signer_address signer))) (\<lambda>prover_address.
     res_bind (get_env_var env parse_string ''RANGE_PROOF_STRATEGY'' (Some ''reserved'')) (\<lambda>range_strategy.
     res_bind (get_env_var env parse_string ''AGG_PROOF_STRATEGY'' (Some ''reserved'')) (\<lambda>agg_strategy.
     res_bind (get_env_var env parse_string ''AGG_PROOF_MODE'' (Some ''groth16'')) (\<lambda>agg_mode.
     res_bind (get_env_var env parse_u64 ''LOOP_INTERVAL'' (Some default_loop_interval)) (\<lambda>loop_interval.
     res_bind (get_env_var env parse_u16 ''METRICS_PORT'' (Some 8080)) (\<lambda>metrics_port.
     res_bind (get_env_var env (ps_url ps) ''L1_RPC'' None) (\<lambda>l1_rpc_url.
     res_bind (get_env_var env parse_string ''DATABASE_URL'' None) (\<lambda>db_url.
     res_bind (get_env_var env (ps_address ps) ''L2OO_ADDRESS'' (Some zero_address)) (\<lambda>l2oo_address.
     res_bind (get_env_var env (ps_address ps) ''DGF_ADDRESS'' (Some zero_address)) (\<lambda>dgf_address.
     res_bind (get_env_var env parse_u64 ''RANGE_PROOF_INTERVAL'' (Some 1800)) (\<lambda>range_proof_interval.
     res_bind (get_env_var env parse_u64 ''MAX_CONCURRENT_WITNESS_GEN'' (Some 1)) (\<lambda>max_concurrent_witness_gen.
     res_bind (get_env_var env parse_u64 ''MAX_CONCURRENT_PROOF_REQUESTS'' (Some 1)) (\<lambda>max_concurrent_proof_requests.
     res_bind (get_env_var env parse_u64 ''SUBMISSION_INTERVAL'' (Some 1800)) (\<lambda>submission_interval.
     res_bind (get_env_var env parse_bool ''OP_SUCCINCT_MOCK'' (Some False)) (\<lambda>mock.
     res_bind (get_env_var env parse_bool ''SAFE_DB_FALLBACK'' (Some False)) (\<lambda>safe_db_fallback.
     res_bind (get_env_var env parse_string ''OP_SUCCINCT_CONFIG_NAME'' (Some ''opsuccinct_genesis'')) (\<lambda>config_name.
     res_bind (get_env_var env parse_bool ''USE_LOCAL_PROVING'' (Some False)) (\<lambda>use_local_proving.
       Ok \<lparr>ec_db_url = db_url, ec_metrics_port = metrics_port, ec_l1_rpc = l1_rpc_url, ec_signer = signer,
           ec_prover_address = prover_address, ec_loop_interval = loop_interval,
           ec_range_proof_strategy = strategy_of range_strategy,
           ec_agg_proof_strategy = strategy_of agg_strategy,
           ec_agg_proof_mode = (if to_lowercase agg_mode = ''plonk'' then PlonkMode else Groth16Mode),
           ec_l2oo_address = l2oo_address, ec_dgf_address = dgf_address,
           ec_range_proof_interval = range_proof_interval,
           ec_max_concurrent_witness_gen = max_concurrent_witness_gen,
           ec_max_concurrent_proof_requests = max_concurrent_proof_requests,
           ec_submission_interval = submission_interval, ec_mock = mock,
           ec_safe_db_fallback = safe_db_fallback, ec_op_succinct_config_name = config_name,
           ec_use_local_proving = use_local_proving\<rparr>)))))))))))))))))))"

subsection \<open>The fault proof proposer\<close>

record fault_proposer_settings = fault_proposer_config +
  fs_l1_rpc :: url
  fs_l2_rpc :: url
  fs_factory_address :: address
  fs_fetch_interval :: int
  fs_metrics_port :: int

text \<open>\<open>env::var(key)?.parse().expect(..)\<close>, \<open>env::var(key).unwrap_or(dflt).parse()?\<close>.\<close>

definition env_expect :: "environment \<Rightarrow> (string \<Rightarrow> 'a option) \<Rightarrow> string \<Rightarrow> 'a res" where
  "env_expect env parse key =
     (case env key of
        None \<Rightarrow> Err (Msg ''environment variable not found'')
      | Some v \<Rightarrow> unwrap (parse v) (key @ '' not set''))"

definition parse_or_err :: "(string \<Rightarrow> 'a option) \<Rightarrow> string \<Rightarrow> 'a res" where
  "parse_or_err parse v = (case parse v of None \<Rightarrow> Err (Msg ''ParseError'') | Some x \<Rightarrow> Ok x)"

definition env_parse :: "environment \<Rightarrow> (string \<Rightarrow> 'a option) \<Rightarrow> string \<Rightarrow> string \<Rightarrow> 'a res" where
  "env_parse env parse key dflt = parse_or_err parse (case env key of None \<Rightarrow> dflt | Some v \<Rightarrow> v)"

definition fault_proposer_from_env :: "parsers \<Rightarrow> environment \<Rightarrow> fault_proposer_settings res" where
  "fault_proposer_from_env ps env =
     res_bind (env_expect env (ps_url ps) ''L1_RPC'') (\<lambda>l1.
     res_bind (env_expect env (ps_url ps) ''L2_RPC'') (\<lambda>l2.
     res_bind (env_expect env (ps_address ps) ''FACTORY_ADDRESS'') (\<lambda>factory.
     res_bind (env_parse env parse_bool ''MOCK_MODE'' ''false'') (\<lambda>mock_mode.
     res_bind (env_parse env parse_bool ''FAST_FINALITY_MODE'' ''false'') (\<lambda>fast_finality_mode.
     res_bind (env_parse env parse_u64 ''PROPOSAL_INTERVAL_IN_BLOCKS'' ''1800'') (\<lambda>proposal_interval_in_blocks.
     res_bind (env_parse env parse_u64 ''FETCH_INTERVAL'' ''30'') (\<lambda>fetch_interval.
     res_bind (unwrap (env ''GAME_TYPE'') ''GAME_TYPE not set'') (\<lambda>game_type_str.
     res_bind (parse_or_err parse_u32 game_type_str) (\<lambda>game_type.
     res_bind (env_parse env parse_u64 ''MAX_GAMES_TO_CHECK_FOR_DEFENSE'' ''100'') (\<lambda>max_defense.
     res_bind (env_parse env parse_bool ''ENABLE_GAME_RESOLUTION'' ''true'') (\<lambda>enable_game_resolution.
     res_bind (env_parse env parse_u64 ''MAX_GAMES_TO_CHECK_FOR_RESOLUTION'' ''100'') (\<lambda>max_resolution.
     res_bind (env_parse env parse_u64 ''MAX_GAMES_TO_CHECK_FOR_BOND_CLAIMING'' ''100'') (\<lambda>max_bonds.
     res_bind (env_parse env parse_bool ''SAFE_DB_FALLBACK'' ''false'') (\<lambda>safe_db_fallback.
     res_bind (env_parse env parse_u16 ''PROPOSER_METRICS_PORT'' ''9000'') (\<lambda>metrics_port.
       Ok \<lparr>fc_mock_mode = mock_mode, fc_fast_finality_mode = fast_finality_mode,
           fc_proposal_interval_in_blocks = proposal_interval_in_blocks, fc_game_type = game_type,
           fc_max_games_to_check_for_defense = max_defense, fc_enable_game_resolution = enable_game_resolution,
           fc_max_games_to_check_for_resolution = max_resolution,
           fc_max_games_to_check_for_bond_claiming = max_bonds, fc_safe_db_fallback = safe_db_fallback,
           fs_l1_rpc = l1, fs_l2_rpc = l2, fs_factory_address = factory, fs_fetch_interval = fetch_interval,
           fs_metrics_port = metrics_port\<rparr>)))))))))))))))"

subsection \<open>The data fetcher\<close>

definition get_rpcs :: "parsers \<Rightarrow> environment \<Rightarrow> rpc_config res" where
  "get_rpcs ps env =
     res_bind (unwrap (env ''L1_RPC'') ''L1_RPC must be set'') (\<lambda>l1.
     res_bind (unwrap (env ''L1_BEACON_RPC'') ''L1_BEACON_RPC must be set'') (\<lambda>beacon.
     res_bind (unwrap (env ''L2_RPC'') ''L2_RPC must be set'') (\<lambda>l2.
     res_bind (unwrap (env ''L2_NODE_RPC'') ''L2_NODE_RPC must be set'') (\<lambda>node.
     res_bind (unwrap (ps_url ps l1) ''L1_RPC must be a valid URL'') (\<lambda>l1_url.
     res_bind (unwrap (ps_url ps beacon) ''L1_BEACON_RPC must be a valid URL'') (\<lambda>beacon_url.
     res_bind (unwrap (ps_url ps l2) ''L2_RPC must be a valid URL'') (\<lambda>l2_url.
     res_bind (unwrap (ps_url ps node) ''L2_NODE_RPC must be a valid URL'') (\<lambda>node_url.
       Ok \<lparr>l1_rpc = l1_url, l1_beacon_rpc = beacon_url, l2_rpc = l2_url, l2_node_rpc = node_url\<rparr>))))))))"

subsection \<open>What can be read\<close>

definition readable :: "environment \<Rightarrow> (string \<Rightarrow> 'a option) \<Rightarrow> string \<Rightarrow> bool" where
  "readable env parse key \<longleftrightarrow> (case env key of None \<Rightarrow> True | Some v \<Rightarrow> parse v \<noteq> None)"

definition setting :: "environment \<Rightarrow> (string \<Rightarrow> 'a option) \<Rightarrow> string \<Rightarrow> 'a \<Rightarrow> 'a" where
  "setting env parse key dflt = (case env key of None \<Rightarrow> dflt | Some v \<Rightarrow> the (parse v))"

lemma readable_string [simp]: "readable env parse_string key"
  by (simp add: readable_def parse_string_def split: option.splits)

lemma get_env_var_optional:
  "get_env_var env parse key (Some d) =
     (if readable env parse key then Ok (setting env parse key d) else Err (Msg (''Failed to parse '' @ key)))"
  by (auto simp: get_env_var_def readable_def setting_def split: option.splits)

lemma get_env_var_required:
  "get_env_var env parse key None =
     (case env key of None \<Rightarrow> Err (Msg (key @ '' is not set''))
      | Some v \<Rightarrow> case parse v of None \<Rightarrow> Err (Msg (''Failed to parse '' @ key)) | Some x \<Rightarrow> Ok x)"
  by (simp add: get_env_var_def split: option.splits)

lemma digits_range: "digits limit acc cs = Some n \<Longrightarrow> 0 \<le> acc \<Longrightarrow> acc \<le> limit \<Longrightarrow> 0 \<le> n \<and> n \<le> limit"
proof (induction cs arbitrary: acc)
  case (Cons c cs)
  then obtain d where "digit c = Some d" "10 * acc + d \<le> limit" "digits limit (10 * acc + d) cs = Some n"
    by (auto split: option.splits if_splits)
  moreover from this have "0 \<le> d" by (auto simp: digit_def Let_def split: if_splits)
  ultimately show ?case using Cons by simp
qed simp

lemma parse_unsigned_range: "0 \<le> limit \<Longrightarrow> parse_unsigned limit s = Some n \<Longrightarrow> 0 \<le> n \<and> n \<le> limit"
  by (auto simp: parse_unsigned_def Let_def dest!: digits_range split: if_splits)

lemma parse_u64_range: "parse_u64 s = Some n \<Longrightarrow> is_u64 n"
  using parse_unsigned_range [of u64_max s n] by (simp add: parse_u64_def is_u64_def u64_max_def)

lemma setting_u64: "readable env parse_u64 key \<Longrightarrow> is_u64 d \<Longrightarrow> is_u64 (setting env parse_u64 key d)"
  by (auto simp: readable_def setting_def intro: parse_u64_range split: option.splits)

definition required_settings :: "parsers \<Rightarrow> environment \<Rightarrow> bool" where
  "required_settings ps env \<longleftrightarrow>
     is_ok (signer_from_env ps env) \<and> env ''DATABASE_URL'' \<noteq> None \<and>
     (\<exists>v u. env ''L1_RPC'' = Some v \<and> ps_url ps v = Some u)"

definition optional_settings :: "parsers \<Rightarrow> environment \<Rightarrow> bool" where
  "optional_settings ps env \<longleftrightarrow>
     list_all (readable env (ps_address ps)) [''PROVER_ADDRESS'', ''L2OO_ADDRESS'', ''DGF_ADDRESS''] \<and>
     list_all (readable env parse_u64) [''LOOP_INTERVAL'', ''RANGE_PROOF_INTERVAL'', ''MAX_CONCURRENT_WITNESS_GEN'',
       ''MAX_CONCURRENT_PROOF_REQUESTS'', ''SUBMISSION_INTERVAL''] \<and>
     list_all (readable env parse_bool) [''OP_SUCCINCT_MOCK'', ''SAFE_DB_FALLBACK'', ''USE_LOCAL_PROVING''] \<and>
     readable env parse_u16 ''METRICS_PORT''"

lemma is_ok_bind: "is_ok (res_bind r f) \<longleftrightarrow> (\<exists>x. r = Ok x \<and> is_ok (f x))"
  by (cases r) auto

lemma is_ok_iff: "is_ok r \<longleftrightarrow> (\<exists>x. r = Ok x)"
  by (cases r) auto

lemma read_optional:
  "is_ok (res_bind (get_env_var env parse key (Some d)) f) \<longleftrightarrow>
     readable env parse key \<and> is_ok (f (setting env parse key d))"
  by (simp add: get_env_var_optional)

lemma read_required:
  "is_ok (res_bind (get_env_var env parse key None) f) \<longleftrightarrow>
     (\<exists>v x. env key = Some v \<and> parse v = Some x \<and> is_ok (f x))"
  by (auto simp: get_env_var_required split: option.splits)

lemma read_proposer_env_ok:
  "is_ok (read_proposer_env ps env) \<longleftrightarrow> required_settings ps env \<and> optional_settings ps env"
  unfolding read_proposer_env_def is_ok_bind [of "signer_from_env ps env"] read_optional read_required
    required_settings_def optional_settings_def is_ok_iff [of "signer_from_env ps env"]
  by (auto simp: parse_string_def)

lemma get_env_var_fault: "get_env_var env parse key d = Inl f \<Longrightarrow> \<exists>m. f = Failure (Msg m)"
  by (auto simp: get_env_var_def split: option.splits)

lemma signer_fault: "signer_from_env ps env = Inl f \<Longrightarrow> \<exists>m. f = Failure (Msg m)"
  by (auto simp: signer_from_env_def split: option.splits)

lemma res_bind_fault:
  "(\<And>f. r = Inl f \<Longrightarrow> P f) \<Longrightarrow> (\<And>x f. r = Ok x \<Longrightarrow> g x = Inl f \<Longrightarrow> P f) \<Longrightarrow> res_bind r g = Inl f \<Longrightarrow> P f"
  by (cases r) auto

lemma read_proposer_env_fault: "read_proposer_env ps env = Inl f \<Longrightarrow> \<exists>m. f = Failure (Msg m)"
  unfolding read_proposer_env_def
  by (erule res_bind_fault [rotated 2], erule signer_fault | erule res_bind_fault [rotated 2], erule get_env_var_fault | simp)+

lemma get_optional_Ok:
  "get_env_var env parse key (Some d) = Ok x \<longleftrightarrow> readable env parse key \<and> x = setting env parse key d"
  by (auto simp: get_env_var_optional)

lemma get_required_Ok:
  "get_env_var env parse key None = Ok x \<longleftrightarrow> (\<exists>v. env key = Some v \<and> parse v = Some x)"
  by (auto simp: get_env_var_required split: option.splits)

lemma read_proposer_env_values:
  assumes "read_proposer_env ps env = Ok c"
  shows "signer_from_env ps env = Ok (ec_signer c)"
    "ec_prover_address c = setting env (ps_address ps) ''PROVER_ADDRESS'' (signer_address (ec_signer c))"
    "Some (ec_db_url c) = env ''DATABASE_URL''" "\<exists>v. env ''L1_RPC'' = Some v \<and> ps_url ps v = Some (ec_l1_rpc c)"
    "ec_loop_interval c = setting env parse_u64 ''LOOP_INTERVAL'' 60"
    "ec_metrics_port c = setting env parse_u16 ''METRICS_PORT'' 8080"
    "ec_l2oo_address c = setting env (ps_address ps) ''L2OO_ADDRESS'' zero_address"
    "ec_dgf_address c = setting env (ps_address ps) ''DGF_ADDRESS'' zero_address"
    "ec_range_proof_interval c = setting env parse_u64 ''RANGE_PROOF_INTERVAL'' 1800"
    "ec_submission_interval c = setting env parse_u64 ''SUBMISSION_INTERVAL'' 1800"
    "ec_max_concurrent_witness_gen c = setting env parse_u64 ''MAX_CONCURRENT_WITNESS_GEN'' 1"
    "ec_max_concurrent_proof_requests c = setting env parse_u64 ''MAX_CONCURRENT_PROOF_REQUESTS'' 1"
    "ec_mock c = setting env parse_bool ''OP_SUCCINCT_MOCK'' False"
    "ec_safe_db_fallback c = setting env parse_bool ''SAFE_DB_FALLBACK'' False"
    "ec_use_local_proving c = setting env parse_bool ''USE_LOCAL_PROVING'' False"
  using assms unfolding read_proposer_env_def res_bind_Ok_iff get_optional_Ok get_required_Ok
  by (auto simp: parse_string_def default_loop_interval_def)

lemma parse_or_err_Ok: "parse_or_err parse v = Ok x \<longleftrightarrow> parse v = Some x"
  by (auto simp: parse_or_err_def split: option.splits)

lemma parse_u32_range: "parse_u32 s = Some n \<Longrightarrow> 0 \<le> n \<and> n \<le> u32_max"
  using parse_unsigned_range [of u32_max s n] by (simp add: parse_u32_def u32_max_def)

lemma parse_u16_range: "parse_u16 s = Some n \<Longrightarrow> 0 \<le> n \<and> n < 2 ^ 16"
  using parse_unsigned_range [of "2 ^ 16 - 1" s n] by (simp add: parse_u16_def)

lemma setting_u16:
  assumes "readable env parse_u16 key" and "0 \<le> d" and "d < 2 ^ 16"
  shows "0 \<le> setting env parse_u16 key d \<and> setting env parse_u16 key d < 2 ^ 16"
proof (cases "env key")
  case None
  then show ?thesis using assms by (simp add: setting_def)
next
  case (Some v)
  then obtain n where "parse_u16 v = Some n" using assms(1) by (auto simp: readable_def)
  then show ?thesis using Some parse_u16_range [of v n] by (simp add: setting_def)
qed

lemma fault_settings_parsed:
  assumes "fault_proposer_from_env ps env = Ok g"
  shows "\<exists>v. parse_u64 v = Some (fc_proposal_interval_in_blocks g)" "\<exists>v. parse_u64 v = Some (fs_fetch_interval g)"
    "\<exists>v. parse_u64 v = Some (fc_max_games_to_check_for_defense g)"
    "\<exists>v. parse_u64 v = Some (fc_max_games_to_check_for_resolution g)"
    "\<exists>v. parse_u64 v = Some (fc_max_games_to_check_for_bond_claiming g)"
    "\<exists>v. parse_u32 v = Some (fc_game_type g)" "\<exists>v. parse_u16 v = Some (fs_metrics_port g)"
  using assms unfolding fault_proposer_from_env_def res_bind_Ok_iff env_parse_def parse_or_err_Ok
  by auto

lemma fault_settings_range:
  assumes "fault_proposer_from_env ps env = Ok g"
  shows "is_u64 (fc_proposal_interval_in_blocks g) \<and> is_u64 (fs_fetch_interval g)
    \<and> is_u64 (fc_max_games_to_check_for_defense g) \<and> is_u64 (fc_max_games_to_check_for_resolution g)
    \<and> is_u64 (fc_max_games_to_check_for_bond_claiming g)
    \<and> (0 \<le> fc_game_type g \<and> fc_game_type g \<le> u32_max) \<and> (0 \<le> fs_metrics_port g \<and> fs_metrics_port g < 2 ^ 16)"
  using fault_settings_parsed [OF assms] parse_u64_range parse_u32_range parse_u16_range by metis

subsection \<open>Properties\<close>

definition sample_parsers :: parsers where
  "sample_parsers =
     \<lparr>ps_url = (\<lambda>s. if s = [] then None else Some s), ps_address = (\<lambda>s. Some (replicate 20 (of_nat (length s)))),
      ps_private_key = (\<lambda>s. Some (replicate 20 7)), ps_show_address = (\<lambda>a. ''0x'')\<rparr>"

definition sample_environment :: environment where
  "sample_environment =
     [''PRIVATE_KEY'' \<mapsto> ''key'', ''L1_RPC'' \<mapsto> ''http://l1'', ''DATABASE_URL'' \<mapsto> ''db'',
      ''LOOP_INTERVAL'' \<mapsto> ''+15'', ''OP_SUCCINCT_MOCK'' \<mapsto> ''true'']"

text \<open>(error) The proposer starts exactly if its settings can be read. \<open>read_proposer_env\<close> succeeds
  if and only if a signer, the L1 node and the database are given and every optional setting that
  is present can be parsed: a wrong value is never replaced by the default. It never panics, each
  failure is reported as an error, and the configuration holds the parsed values, with the default
  exactly for the settings that are absent.\<close>

theorem read_proposer_env_exact:
  "((\<exists>c. read_proposer_env ps env = Ok c) \<longleftrightarrow> required_settings ps env \<and> optional_settings ps env)
   \<and> (\<forall>f. read_proposer_env ps env = Inl f \<longrightarrow> (\<exists>m. f = Failure (Msg m)))
   \<and> (\<forall>c. read_proposer_env ps env = Ok c \<longrightarrow>
        signer_from_env ps env = Ok (ec_signer c)
        \<and> ec_prover_address c = setting env (ps_address ps) ''PROVER_ADDRESS'' (signer_address (ec_signer c))
        \<and> Some (ec_db_url c) = env ''DATABASE_URL''
        \<and> ec_loop_interval c = setting env parse_u64 ''LOOP_INTERVAL'' 60
        \<and> ec_range_proof_interval c = setting env parse_u64 ''RANGE_PROOF_INTERVAL'' 1800
        \<and> ec_submission_interval c = setting env parse_u64 ''SUBMISSION_INTERVAL'' 1800
        \<and> ec_max_concurrent_witness_gen c = setting env parse_u64 ''MAX_CONCURRENT_WITNESS_GEN'' 1
        \<and> ec_max_concurrent_proof_requests c = setting env parse_u64 ''MAX_CONCURRENT_PROOF_REQUESTS'' 1
        \<and> ec_l2oo_address c = setting env (ps_address ps) ''L2OO_ADDRESS'' zero_address
        \<and> ec_dgf_address c = setting env (ps_address ps) ''DGF_ADDRESS'' zero_address
        \<and> ec_mock c = setting env parse_bool ''OP_SUCCINCT_MOCK'' False
        \<and> ec_safe_db_fallback c = setting env parse_bool ''SAFE_DB_FALLBACK'' False
        \<and> ec_use_local_proving c = setting env parse_bool ''USE_LOCAL_PROVING'' False)"
proof (intro conjI allI impI)
  show "(\<exists>c. read_proposer_env ps env = Ok c) \<longleftrightarrow> required_settings ps env \<and> optional_settings ps env"
    unfolding read_proposer_env_ok [symmetric] is_ok_iff ..
  show "\<exists>m. f = Failure (Msg m)" if "read_proposer_env ps env = Inl f" for f
    using that by (rule read_proposer_env_fault)
qed (rule read_proposer_env_values, assumption)+

lemma sample_settings:
  "required_settings sample_parsers sample_environment" "optional_settings sample_parsers sample_environment"
  by (simp_all add: required_settings_def optional_settings_def signer_from_env_def sample_environment_def
      sample_parsers_def readable_def parse_u64_def parse_unsigned_def digit_def parse_bool_def u64_max_def Let_def)

theorem read_proposer_env_exact_witness:
  "\<exists>c. read_proposer_env sample_parsers sample_environment = Ok c \<and> ec_loop_interval c = 15 \<and> ec_mock c
     \<and> ec_submission_interval c = 1800 \<and> ec_prover_address c = replicate 20 7"
proof -
  note exact = read_proposer_env_exact [of sample_parsers sample_environment]
  obtain c where c: "read_proposer_env sample_parsers sample_environment = Ok c"
    using exact sample_settings by blast
  have "signer_from_env sample_parsers sample_environment = Ok (LocalSigner (replicate 20 7))"
    by (simp add: signer_from_env_def sample_environment_def sample_parsers_def)
  then have "ec_signer c = LocalSigner (replicate 20 7)" using read_proposer_env_values(1) [OF c] by simp
  then have "ec_prover_address c = replicate 20 7"
    using read_proposer_env_values(2) [OF c] by (simp add: setting_def sample_environment_def)
  then show ?thesis using exact c
    by (auto simp: setting_def sample_environment_def parse_u64_def parse_unsigned_def digit_def parse_bool_def
        u64_max_def Let_def)
qed

text \<open>(type) Every number that a service reads from its environment fits its machine type: the
  intervals and limits of the validity proposer and of the fault proof proposer are \<open>u64\<close> values,
  the game type is a \<open>u32\<close>, and the metrics ports are \<open>u16\<close> values; a number that does not fit is
  rejected and not truncated.\<close>

theorem settings_fit_their_types:
  assumes "read_proposer_env ps env = Ok c" and "fault_proposer_from_env ps env' = Ok g"
  shows "is_u64 (ec_loop_interval c) \<and> is_u64 (ec_range_proof_interval c) \<and> is_u64 (ec_submission_interval c)
    \<and> is_u64 (ec_max_concurrent_witness_gen c) \<and> is_u64 (ec_max_concurrent_proof_requests c)
    \<and> 0 \<le> ec_metrics_port c \<and> ec_metrics_port c < 2 ^ 16
    \<and> is_u64 (fc_proposal_interval_in_blocks g) \<and> is_u64 (fs_fetch_interval g)
    \<and> is_u64 (fc_max_games_to_check_for_defense g) \<and> is_u64 (fc_max_games_to_check_for_resolution g)
    \<and> is_u64 (fc_max_games_to_check_for_bond_claiming g)
    \<and> 0 \<le> fc_game_type g \<and> fc_game_type g \<le> u32_max
    \<and> 0 \<le> fs_metrics_port g \<and> fs_metrics_port g < 2 ^ 16"
proof -
  have opt: "optional_settings ps env" using assms(1) read_proposer_env_ok [of ps env] by simp
  have nums: "is_u64 60" "is_u64 1800" "is_u64 1" by (simp_all add: is_u64_def u64_max_def)
  have port: "0 \<le> setting env parse_u16 ''METRICS_PORT'' 8080 \<and> setting env parse_u16 ''METRICS_PORT'' 8080 < 2 ^ 16"
    using opt by (intro setting_u16) (simp_all add: optional_settings_def)
  have "is_u64 (fc_proposal_interval_in_blocks g) \<and> is_u64 (fs_fetch_interval g)
    \<and> is_u64 (fc_max_games_to_check_for_defense g) \<and> is_u64 (fc_max_games_to_check_for_resolution g)
    \<and> is_u64 (fc_max_games_to_check_for_bond_claiming g)
    \<and> (0 \<le> fc_game_type g \<and> fc_game_type g \<le> u32_max) \<and> (0 \<le> fs_metrics_port g \<and> fs_metrics_port g < 2 ^ 16)"
    by (rule fault_settings_range [OF assms(2)])
  moreover have "is_u64 (ec_loop_interval c) \<and> is_u64 (ec_range_proof_interval c) \<and> is_u64 (ec_submission_interval c)
    \<and> is_u64 (ec_max_concurrent_witness_gen c) \<and> is_u64 (ec_max_concurrent_proof_requests c)"
    unfolding read_proposer_env_values [OF assms(1)]
    using opt nums by (auto simp: optional_settings_def intro!: setting_u64)
  ultimately show ?thesis using port unfolding read_proposer_env_values(6) [OF assms(1)] by blast
qed

theorem settings_fit_their_types_witness:
  "\<exists>c g. read_proposer_env sample_parsers sample_environment = Ok c
     \<and> fault_proposer_from_env sample_parsers (sample_environment(''L2_RPC'' \<mapsto> ''http://l2'',
          ''FACTORY_ADDRESS'' \<mapsto> ''factory'', ''GAME_TYPE'' \<mapsto> ''42'')) = Ok g
     \<and> is_u64 (ec_loop_interval c) \<and> fc_game_type g = 42 \<and> fs_metrics_port g < 2 ^ 16"
proof -
  let ?env = "sample_environment(''L2_RPC'' \<mapsto> ''http://l2'', ''FACTORY_ADDRESS'' \<mapsto> ''factory'', ''GAME_TYPE'' \<mapsto> ''42'')"
  obtain c where c: "read_proposer_env sample_parsers sample_environment = Ok c"
    using read_proposer_env_ok [of sample_parsers sample_environment] sample_settings by (auto simp: is_ok_iff)
  have "\<exists>g. fault_proposer_from_env sample_parsers ?env = Ok g \<and> fc_game_type g = 42"
    by (simp add: unwrap_def fault_proposer_from_env_def env_expect_def env_parse_def parse_or_err_def sample_environment_def
        sample_parsers_def parse_u64_def parse_u32_def parse_u16_def parse_unsigned_def digit_def parse_bool_def
        u64_max_def u32_max_def Let_def)
  then obtain g where g: "fault_proposer_from_env sample_parsers ?env = Ok g" "fc_game_type g = 42" by blast
  show ?thesis using settings_fit_their_types [OF c g(1)] c g by blast
qed

end
