(* ===== verification/Precompiles.thy ===== *)
theory Precompiles
  imports Stats
begin

text \<open>
  The precompile provider of the EVM inside the zkVM, \<open>utils/client/src/precompiles/mod.rs\<close> and
  \<open>factory.rs\<close>. The precompiles themselves and the tables of each hardfork are functions of revm
  and op-revm: they are fields of \<open>precompile_lib\<close>. A call also returns the lines it prints; the
  prover counts cycles between the printed markers.
\<close>

subsection \<open>Precompiles of the library\<close>

datatype op_spec_id =
  BEDROCK | REGOLITH | CANYON | ECOTONE | FJORD | GRANITE | HOLOCENE | ISTHMUS | INTEROP | OSAKA

record precompile_output =
  po_gas_used :: int
  po_bytes :: bytes

text \<open>\<open>PrecompileError\<close>, as far as the code tells its values apart.\<close>

datatype precompile_error = OutOfGas | FatalError string | OtherError string

type_synonym precompile_result = "precompile_error + precompile_output"

text \<open>A precompile: input and gas limit to the result and the printed lines.\<close>

type_synonym precompile_fn = "bytes \<Rightarrow> int \<Rightarrow> precompile_result \<times> string list"
type_synonym precompile_with_address = "address \<times> precompile_fn"
type_synonym precompile_table = "address \<rightharpoonup> precompile_fn"

record precompile_lib =
  eth_precompiles :: "op_spec_id \<Rightarrow> precompile_table"
  fjord_precompiles :: precompile_table
  granite_precompiles :: precompile_table
  isthmus_precompiles :: precompile_table
  bn_add_istanbul :: precompile_with_address
  bn_mul_istanbul :: precompile_with_address
  bn_pair_istanbul :: precompile_with_address
  ecrecover :: precompile_with_address
  p256verify :: precompile_with_address
  target_os_zkvm :: bool

subsection \<open>Annotated precompiles\<close>

definition report_start :: "string \<Rightarrow> string" where
  "report_start name = ''cycle-tracker-report-start: precompile-'' @ name"

definition report_end :: "string \<Rightarrow> string" where
  "report_end name = ''cycle-tracker-report-end: precompile-'' @ name"

definition create_annotated_precompile ::
  "precompile_lib \<Rightarrow> precompile_with_address \<Rightarrow> string \<Rightarrow> precompile_with_address" where
  "create_annotated_precompile pl precompile name =
     (fst precompile, \<lambda>input gas_limit.
        let (result, printed) = snd precompile input gas_limit in
        (result, (if target_os_zkvm pl then [report_start name] else []) @ printed
                 @ (if target_os_zkvm pl then [report_end name] else [])))"

definition annotated_list :: "precompile_lib \<Rightarrow> (precompile_with_address \<times> precompile_with_address) list"
  where
  "annotated_list pl =
     [(bn_add_istanbul pl, create_annotated_precompile pl (bn_add_istanbul pl) ''bn-add''),
      (bn_mul_istanbul pl, create_annotated_precompile pl (bn_mul_istanbul pl) ''bn-mul''),
      (bn_pair_istanbul pl, create_annotated_precompile pl (bn_pair_istanbul pl) ''bn-pair''),
      (ecrecover pl, create_annotated_precompile pl (ecrecover pl) ''ec-recover''),
      (p256verify pl, create_annotated_precompile pl (p256verify pl) ''p256-verify'')]"

subsection \<open>The provider\<close>

record op_zkvm_precompiles =
  zp_inner :: precompile_table
  zp_spec :: op_spec_id

text \<open>\<open>Precompiles::extend\<close> inserts into the table, replacing entries at the same address.\<close>

definition extend_table :: "precompile_table \<Rightarrow> precompile_with_address list \<Rightarrow> precompile_table" where
  "extend_table t ps = foldl (\<lambda>t (a, f). t(a \<mapsto> f)) t ps"

fun spec_table :: "precompile_lib \<Rightarrow> op_spec_id \<Rightarrow> precompile_table" where
  "spec_table pl BEDROCK = eth_precompiles pl BEDROCK"
| "spec_table pl REGOLITH = eth_precompiles pl REGOLITH"
| "spec_table pl CANYON = eth_precompiles pl CANYON"
| "spec_table pl ECOTONE = eth_precompiles pl ECOTONE"
| "spec_table pl FJORD = fjord_precompiles pl"
| "spec_table pl GRANITE = granite_precompiles pl"
| "spec_table pl HOLOCENE = granite_precompiles pl"
| "spec_table pl ISTHMUS = isthmus_precompiles pl"
| "spec_table pl INTEROP = isthmus_precompiles pl"
| "spec_table pl OSAKA = isthmus_precompiles pl"

definition new_with_spec :: "precompile_lib \<Rightarrow> op_spec_id \<Rightarrow> op_zkvm_precompiles" where
  "new_with_spec pl spec =
     \<lparr>zp_inner = extend_table (spec_table pl spec) (take 1 (map snd (annotated_list pl))),
      zp_spec = spec\<rparr>"

definition set_spec ::
  "precompile_lib \<Rightarrow> op_spec_id \<Rightarrow> op_zkvm_precompiles \<Rightarrow> bool \<times> op_zkvm_precompiles" where
  "set_spec pl spec z = (if spec = zp_spec z then (False, z) else (True, new_with_spec pl spec))"

datatype instruction_result = Return | PrecompileOOG | PrecompileError

record evm_gas =
  gas_limit :: int
  gas_remaining :: int

record interpreter_result =
  ir_result :: instruction_result
  ir_gas :: evm_gas
  ir_output :: bytes

definition record_cost :: "int \<Rightarrow> evm_gas \<Rightarrow> bool \<times> evm_gas" where
  "record_cost cost g =
     (if cost \<le> gas_remaining g then (True, g\<lparr>gas_remaining := gas_remaining g - cost\<rparr>) else (False, g))"

definition run_output :: "int \<Rightarrow> precompile_result \<Rightarrow> interpreter_result option res" where
  "run_output gas_lim output =
     (let result = \<lparr>ir_result = Return, ir_gas = \<lparr>gas_limit = gas_lim, gas_remaining = gas_lim\<rparr>,
                    ir_output = []\<rparr> in
      case output of
        Inr out \<Rightarrow>
          (let (underflow, g) = record_cost (po_gas_used out) (ir_gas result) in
           if \<not> underflow then Inl (Panic ''Gas underflow is not possible'')
           else Ok (Some (result\<lparr>ir_gas := g, ir_result := Return, ir_output := po_bytes out\<rparr>)))
      | Inl (FatalError e) \<Rightarrow> Err (Msg e)
      | Inl e \<Rightarrow> Ok (Some (result\<lparr>ir_result := (if e = OutOfGas then PrecompileOOG else PrecompileError)\<rparr>)))"

definition run_precompile ::
  "op_zkvm_precompiles \<Rightarrow> address \<Rightarrow> bytes \<Rightarrow> int \<Rightarrow> interpreter_result option res \<times> string list" where
  "run_precompile z a input gas_lim =
     (case zp_inner z a of
        None \<Rightarrow> (Ok None, [])
      | Some precompile \<Rightarrow>
          (let (output, printed) = precompile input gas_lim in (run_output gas_lim output, printed)))"

definition warm_addresses :: "op_zkvm_precompiles \<Rightarrow> address set" where
  "warm_addresses z = dom (zp_inner z)"

definition contains_precompile :: "op_zkvm_precompiles \<Rightarrow> address \<Rightarrow> bool" where
  "contains_precompile z a = (zp_inner z a \<noteq> None)"

subsection \<open>The factory\<close>

text \<open>
  \<open>'db\<close>, \<open>'blk\<close>, \<open>'cfg\<close> and \<open>'insp\<close> are the database, block and configuration environments and
  the inspector of revm; \<open>spec_id\<close> reads the hardfork of the configuration.
\<close>

record ('cfg, 'blk) evm_env =
  ee_cfg_env :: 'cfg
  ee_block_env :: 'blk

record ('db, 'cfg, 'blk, 'insp) op_evm =
  evm_db :: 'db
  evm_block :: 'blk
  evm_cfg :: 'cfg
  evm_inspector :: "'insp option"
  evm_precompiles :: op_zkvm_precompiles
  evm_inspect :: bool

definition create_evm ::
  "precompile_lib \<Rightarrow> ('cfg \<Rightarrow> op_spec_id) \<Rightarrow> 'db \<Rightarrow> ('cfg, 'blk) evm_env \<Rightarrow> ('db, 'cfg, 'blk, 'insp) op_evm"
  where
  "create_evm pl spec_id db input =
     \<lparr>evm_db = db, evm_block = ee_block_env input, evm_cfg = ee_cfg_env input, evm_inspector = None,
      evm_precompiles = new_with_spec pl (spec_id (ee_cfg_env input)), evm_inspect = False\<rparr>"

definition create_evm_with_inspector ::
  "precompile_lib \<Rightarrow> ('cfg \<Rightarrow> op_spec_id) \<Rightarrow> 'db \<Rightarrow> ('cfg, 'blk) evm_env \<Rightarrow> 'insp
     \<Rightarrow> ('db, 'cfg, 'blk, 'insp) op_evm" where
  "create_evm_with_inspector pl spec_id db input inspector =
     \<lparr>evm_db = db, evm_block = ee_block_env input, evm_cfg = ee_cfg_env input,
      evm_inspector = Some inspector,
      evm_precompiles = new_with_spec pl (spec_id (ee_cfg_env input)), evm_inspect = True\<rparr>"

subsection \<open>Transparency\<close>

text \<open>
  The documented content of the tables: every hardfork of the OP stack has the Istanbul version of
  the bn128 addition at its address, and the precompiles of the library print nothing and never
  use more gas than they are given.
\<close>

definition has_bn_add :: "precompile_lib \<Rightarrow> bool" where
  "has_bn_add pl \<longleftrightarrow>
     (\<forall>spec. spec_table pl spec (fst (bn_add_istanbul pl)) = Some (snd (bn_add_istanbul pl)))"

definition silent :: "precompile_lib \<Rightarrow> bool" where
  "silent pl \<longleftrightarrow> (\<forall>spec a f input g. spec_table pl spec a = Some f \<longrightarrow> snd (f input g) = [])"

text \<open>The provider without annotations.\<close>

definition plain :: "precompile_lib \<Rightarrow> op_spec_id \<Rightarrow> op_zkvm_precompiles" where
  "plain pl spec = \<lparr>zp_inner = spec_table pl spec, zp_spec = spec\<rparr>"

lemma new_with_spec_inner:
  "zp_inner (new_with_spec pl spec) = (spec_table pl spec)(fst (bn_add_istanbul pl) \<mapsto>
     snd (create_annotated_precompile pl (bn_add_istanbul pl) ''bn-add''))"
  by (simp add: new_with_spec_def annotated_list_def extend_table_def create_annotated_precompile_def)

text \<open>Along changes of the hardfork the provider is always the one of its hardfork.\<close>

lemma set_spec_new: "set_spec pl spec (new_with_spec pl old) = (spec \<noteq> old, new_with_spec pl spec)"
  by (simp add: set_spec_def new_with_spec_def)

lemma created_evm_spec:
  "set_spec pl (spec_id (ee_cfg_env input)) (evm_precompiles (create_evm pl spec_id db input))
     = (False, evm_precompiles (create_evm pl spec_id db input))"
  "set_spec pl (spec_id (ee_cfg_env input))
       (evm_precompiles (create_evm_with_inspector pl spec_id db input insp))
     = (False, evm_precompiles (create_evm_with_inspector pl spec_id db input insp))"
  by (simp_all add: create_evm_def create_evm_with_inspector_def set_spec_def new_with_spec_def)

lemma annotated_run:
  assumes "has_bn_add pl" and "silent pl"
  shows "fst (run_precompile (new_with_spec pl spec) a input g) = fst (run_precompile (plain pl spec) a input g)
    \<and> contains_precompile (new_with_spec pl spec) a = contains_precompile (plain pl spec) a
    \<and> warm_addresses (new_with_spec pl spec) = warm_addresses (plain pl spec)
    \<and> snd (run_precompile (new_with_spec pl spec) a input g)
        = (if a = fst (bn_add_istanbul pl) \<and> target_os_zkvm pl
           then [report_start ''bn-add'', report_end ''bn-add''] else [])"
proof -
  let ?b = "fst (bn_add_istanbul pl)" and ?f = "snd (bn_add_istanbul pl)"
  have tab: "spec_table pl spec ?b = Some ?f" using assms(1) by (simp add: has_bn_add_def)
  have quiet: "\<And>a f. spec_table pl spec a = Some f \<Longrightarrow> snd (f input g) = []"
    using assms(2) by (simp add: silent_def)
  show ?thesis
  proof (cases "a = ?b")
    case True
    obtain r where "?f input g = (r, [])" using quiet [OF tab] by (cases "?f input g") simp
    then show ?thesis
      using True tab
      by (auto simp: run_precompile_def contains_precompile_def warm_addresses_def new_with_spec_inner
          plain_def create_annotated_precompile_def)
  next
    case False
    then show ?thesis
    proof (cases "spec_table pl spec a")
      case None
      then show ?thesis
        using False tab
        by (auto simp: run_precompile_def contains_precompile_def warm_addresses_def new_with_spec_inner plain_def)
    next
      case (Some f)
      then obtain r where "f input g = (r, [])" using quiet by (cases "f input g") force
      then show ?thesis
        using False tab Some
        by (auto simp: run_precompile_def contains_precompile_def warm_addresses_def new_with_spec_inner plain_def)
    qed
  qed
qed

lemma annotated_lines:
  assumes "has_bn_add pl" and "silent pl"
  shows "snd (run_precompile (new_with_spec pl spec) a input g)
        = (if a = fst (bn_add_istanbul pl) \<and> target_os_zkvm pl
           then [report_start ''bn-add'', report_end ''bn-add''] else [])"
  using annotated_run [OF assms] by blast

text \<open>
  C34. Annotating precompiles does not change what the EVM sees: for every hardfork, address, input
  and gas limit the provider returns what the plain table of the hardfork returns, knows the same
  addresses, and prints exactly one start and one end marker around a bn128 addition on the zkVM
  and nothing otherwise.
\<close>

theorem annotation_is_transparent:
  assumes "has_bn_add pl" and "silent pl"
  shows "fst (run_precompile (new_with_spec pl spec) a input g) = fst (run_precompile (plain pl spec) a input g)
    \<and> contains_precompile (new_with_spec pl spec) a = contains_precompile (plain pl spec) a
    \<and> warm_addresses (new_with_spec pl spec) = warm_addresses (plain pl spec)
    \<and> snd (run_precompile (new_with_spec pl spec) a input g)
        = (if a = fst (bn_add_istanbul pl) \<and> target_os_zkvm pl
           then [report_start ''bn-add'', report_end ''bn-add''] else [])"
  using annotated_run [OF assms] by blast

text \<open>
  A library with one precompile per address, for the witnesses: the addition is at address 6, and
  a second precompile at address 7 runs out of gas.
\<close>

definition sample_add :: precompile_fn where
  "sample_add input g = (Inr \<lparr>po_gas_used = min 150 g, po_bytes = input\<rparr>, [])"

definition sample_mul :: precompile_fn where
  "sample_mul input g = (Inl OutOfGas, [])"

definition sample_table :: precompile_table where
  "sample_table = [[6] \<mapsto> sample_add, [7] \<mapsto> sample_mul]"

definition sample_precompiles :: precompile_lib where
  "sample_precompiles =
     \<lparr>eth_precompiles = (\<lambda>_. sample_table), fjord_precompiles = sample_table,
      granite_precompiles = sample_table, isthmus_precompiles = sample_table,
      bn_add_istanbul = ([6], sample_add), bn_mul_istanbul = ([7], sample_mul),
      bn_pair_istanbul = ([7], sample_mul), ecrecover = ([7], sample_mul),
      p256verify = ([7], sample_mul), target_os_zkvm = True\<rparr>"

lemma sample_spec_table: "spec_table sample_precompiles spec = sample_table"
  by (cases spec) (simp_all add: sample_precompiles_def)

lemma sample_precompiles_addr:
  "fst (bn_add_istanbul sample_precompiles) = [6]" "target_os_zkvm sample_precompiles"
  by (simp_all add: sample_precompiles_def)

lemma sample_precompiles_ok: "has_bn_add sample_precompiles" "silent sample_precompiles"
  unfolding has_bn_add_def silent_def sample_spec_table
  by (auto simp: sample_precompiles_def sample_table_def sample_add_def sample_mul_def split: if_splits)

theorem annotation_is_transparent_witness:
  "run_precompile (new_with_spec sample_precompiles ISTHMUS) [6] [1, 2] 1000
     = (Inr (Some \<lparr>ir_result = Return, ir_gas = \<lparr>gas_limit = 1000, gas_remaining = 850\<rparr>, ir_output = [1, 2]\<rparr>),
        [report_start ''bn-add'', report_end ''bn-add''])"
proof -
  have "snd (run_precompile (new_with_spec sample_precompiles ISTHMUS) [6] [1, 2] 1000)
      = [report_start ''bn-add'', report_end ''bn-add'']"
    "fst (run_precompile (new_with_spec sample_precompiles ISTHMUS) [6] [1, 2] 1000)
      = fst (run_precompile (plain sample_precompiles ISTHMUS) [6] [1, 2] 1000)"
    using annotation_is_transparent [OF sample_precompiles_ok, of ISTHMUS "[6]" "[1, 2]" 1000]
    by (simp_all add: sample_precompiles_def)
  moreover have "fst (run_precompile (plain sample_precompiles ISTHMUS) [6] [1, 2] 1000)
      = Inr (Some \<lparr>ir_result = Return, ir_gas = \<lparr>gas_limit = 1000, gas_remaining = 850\<rparr>, ir_output = [1, 2]\<rparr>)"
    by (simp add: plain_def run_precompile_def run_output_def record_cost_def sample_precompiles_def
        sample_table_def sample_add_def)
  ultimately show ?thesis by (simp add: prod_eq_iff)
qed

subsection \<open>What the statistics see\<close>

text \<open>
  The calls of an execution, each under the hardfork of its block, and all they print. The
  execution report of SP1 has cycles only for names whose start marker was printed; the other
  markers of the range program are those of the oracle, of the blobs, of derivation and of block
  execution.
\<close>

definition calls_print ::
  "precompile_lib \<Rightarrow> (op_spec_id \<times> address \<times> bytes \<times> int) list \<Rightarrow> string list" where
  "calls_print pl calls =
     concat (map (\<lambda>(spec, a, input, g). snd (run_precompile (new_with_spec pl spec) a input g)) calls)"

definition other_names :: "string list" where
  "other_names = [''oracle-verify'', ''blob-verification'', ''payload-derivation'', ''block-execution'',
     ''block-execution-and-derivation'']"

definition reported :: "execution_report \<Rightarrow> string list \<Rightarrow> bool" where
  "reported report printed \<longleftrightarrow> (\<forall>name. cycle_tracker report name \<noteq> None \<longrightarrow>
     name \<in> set other_names \<or> ''cycle-tracker-report-start: '' @ name \<in> set printed)"

text \<open>
  Only the first of the annotated precompiles is put into the tables, so that the statistics
  of all other precompiles are always zero, whatever the program executed.
\<close>

theorem only_bn_add_is_tracked:
  assumes "has_bn_add pl" and "silent pl" and "reported report (calls_print pl calls)"
  shows "bn_mul_cycles (execution_stats_new report) = 0 \<and> bn_pair_cycles (execution_stats_new report) = 0
    \<and> ec_recover_cycles (execution_stats_new report) = 0
    \<and> p256_verify_cycles (execution_stats_new report) = 0
    \<and> kzg_eval_cycles (execution_stats_new report) = 0"
proof -
  have "set (calls_print pl calls) \<subseteq> {report_start ''bn-add'', report_end ''bn-add''}"
    using annotated_lines [OF assms(1,2)]
    by (auto simp: calls_print_def split: if_splits)
  then have "cycle_tracker report name = None"
    if "name \<notin> set other_names" "name \<noteq> ''precompile-bn-add''" for name
    using assms(3) that by (auto simp: reported_def report_start_def report_end_def)
  then show ?thesis by (simp add: execution_stats_new_def get_cycles_def other_names_def)
qed

theorem only_bn_add_is_tracked_witness:
  "calls_print sample_precompiles [(FJORD, [6], [], 500), (ISTHMUS, [7], [], 9)]
     = [report_start ''bn-add'', report_end ''bn-add'']
   \<and> bn_mul_cycles (execution_stats_new
       \<lparr>total_instruction_count = 90, gas = None, cycle_tracker = [''precompile-bn-add'' \<mapsto> 30]\<rparr>) = 0"
proof -
  have p: "calls_print sample_precompiles [(FJORD, [6], [], 500), (ISTHMUS, [7], [], 9)]
      = [report_start ''bn-add'', report_end ''bn-add'']"
    unfolding calls_print_def using annotated_lines [OF sample_precompiles_ok]
    by (simp add: sample_precompiles_addr)
  have "reported \<lparr>total_instruction_count = 90, gas = None, cycle_tracker = [''precompile-bn-add'' \<mapsto> 30]\<rparr>
      (calls_print sample_precompiles [(FJORD, [6], [], 500), (ISTHMUS, [7], [], 9)])"
    unfolding p by (simp add: reported_def report_start_def)
  from only_bn_add_is_tracked [OF sample_precompiles_ok this] p show ?thesis by simp
qed

end
