(* ===== verification/JsonRpc.thy ===== *)
theory JsonRpc
  imports Settings
begin

text \<open>
  JSON values, numbers as text, the JSON-RPC calls of \<open>utils/host/src/fetcher.rs\<close> and the
  construction of the data fetcher. A POST request is answered by a parameter, as are the decoding
  of a result and the printing of JSON; files written are part of the state.
\<close>

subsection \<open>JSON values\<close>

datatype json =
  JNull | JBool bool | JNum int | JStr string | JArr "json list" | JObj "(string \<times> json) list"

text \<open>\<open>Value::get\<close> on a key, and indexing, which gives null for anything else.\<close>

fun json_get :: "json \<Rightarrow> string \<Rightarrow> json option" where
  "json_get (JObj kvs) key = map_of kvs key"
| "json_get _ key = None"

definition json_index :: "json \<Rightarrow> string \<Rightarrow> json" where
  "json_index v key = (case json_get v key of None \<Rightarrow> JNull | Some x \<Rightarrow> x)"

fun as_str :: "json \<Rightarrow> string option" where
  "as_str (JStr s) = Some s"
| "as_str _ = None"

fun as_json_u64 :: "json \<Rightarrow> int option" where
  "as_json_u64 (JNum n) = (if is_u64 n then Some n else None)"
| "as_json_u64 _ = None"

subsection \<open>Numbers as text\<close>

definition digit_char :: "nat \<Rightarrow> char" where
  "digit_char d = char_of (if d < 10 then 48 + d else 87 + d)"

function radix :: "nat \<Rightarrow> nat \<Rightarrow> string" where
  "radix b n = (if n < b \<or> b < 2 then [digit_char n] else radix b (n div b) @ [digit_char (n mod b)])"
  by pat_completeness auto
termination
  by (relation "measure snd") (auto intro: div_less_dividend)

declare radix.simps [simp del]

text \<open>The formats \<open>{}\<close> and \<open>0x{:x}\<close> of an unsigned integer.\<close>

definition show_u64 :: "int \<Rightarrow> string" where "show_u64 n = radix 10 (nat n)"

definition hex_u64 :: "int \<Rightarrow> string" where "hex_u64 n = ''0x'' @ radix 16 (nat n)"

subsection \<open>JSON-RPC\<close>

definition rpc_request :: "string \<Rightarrow> json list \<Rightarrow> json" where
  "rpc_request method params =
     JObj [(''jsonrpc'', JStr ''2.0''), (''method'', JStr method), (''params'', JArr params), (''id'', JNum 1)]"

type_synonym http_post = "url \<Rightarrow> json \<Rightarrow> nat \<Rightarrow> error + json"

definition rpc_result :: "(json \<Rightarrow> 'a option) \<Rightarrow> string \<Rightarrow> json \<Rightarrow> 'a res" where
  "rpc_result decode method response =
     (case json_get response ''error'' of
        Some err \<Rightarrow>
          (let error_message = (case as_str (json_index err ''message'') of
                                  None \<Rightarrow> ''Unknown error'' | Some m \<Rightarrow> m) in
           Err (Msg (''Error calling '' @ method @ '': '' @ error_message)))
      | None \<Rightarrow>
          (case decode (json_index response ''result'') of None \<Rightarrow> Err RpcError | Some x \<Rightarrow> Ok x))"

definition fetch_rpc_data ::
  "http_post \<Rightarrow> (json \<Rightarrow> 'a option) \<Rightarrow> url \<Rightarrow> string \<Rightarrow> json list \<Rightarrow> ('z io_scheme, 'a) op" where
  "fetch_rpc_data post decode u method params =
     andThen (call (post u (rpc_request method params))) (\<lambda>response.
       lift (rpc_result decode method response))"

definition fetch_rpc_data_with_mode ::
  "http_post \<Rightarrow> (json \<Rightarrow> 'a option) \<Rightarrow> 'cfg data_fetcher \<Rightarrow> rpc_mode \<Rightarrow> string \<Rightarrow> json list
     \<Rightarrow> ('z io_scheme, 'a) op" where
  "fetch_rpc_data_with_mode post decode f mode method params =
     fetch_rpc_data post decode (get_rpc_url f mode) method params"

subsection \<open>Files\<close>

record disk = io +
  files :: "string \<rightharpoonup> string"

record fs_env =
  fs_create_dir_all :: "string \<Rightarrow> nat \<Rightarrow> error + unit"
  fs_write :: "string \<Rightarrow> nat \<Rightarrow> error + unit"

text \<open>\<open>Path::join\<close>: an absolute second path replaces the first.\<close>

definition path_join :: "string \<Rightarrow> string \<Rightarrow> string" where
  "path_join a b =
     (if b \<noteq> [] \<and> List.hd b = CHR ''/'' then b
      else if a = [] \<or> last a = CHR ''/'' then a @ b else a @ ''/'' @ b)"

definition write_file :: "fs_env \<Rightarrow> string \<Rightarrow> string \<Rightarrow> ('z disk_scheme, unit) op" where
  "write_file fs path content =
     andThen (call (fs_write fs path)) (\<lambda>_. update (\<lambda>s. s\<lparr>files := (files s)(path \<mapsto> content)\<rparr>))"

subsection \<open>The data fetcher\<close>

text \<open>What the code uses of \<open>RollupConfig\<close>: its JSON form in both directions and its chain.\<close>

record 'cfg rollup_lib =
  rl_decode :: "json \<Rightarrow> 'cfg option"
  rl_pretty :: "'cfg \<Rightarrow> string"
  rl_chain_id :: "'cfg \<Rightarrow> int"

definition fetcher_new :: "parsers \<Rightarrow> environment \<Rightarrow> 'cfg data_fetcher res" where
  "fetcher_new ps env =
     res_bind (get_rpcs ps env) (\<lambda>rpc_config.
       Ok \<lparr>df_rpc = rpc_config, df_rollup_config = None, df_rollup_config_path = None\<rparr>)"

definition fetch_and_save_rollup_config ::
  "http_post \<Rightarrow> fs_env \<Rightarrow> 'cfg rollup_lib \<Rightarrow> rpc_config \<Rightarrow> ('z disk_scheme, 'cfg \<times> string) op" where
  "fetch_and_save_rollup_config post fs rl rpc_config =
     andThen (fetch_rpc_data post (rl_decode rl) (l2_node_rpc rpc_config) ''optimism_rollupConfig'' [])
       (\<lambda>rollup_config.
     andThen (call (fs_create_dir_all fs ''configs'')) (\<lambda>_.
       let rollup_config_path = path_join ''configs'' (show_u64 (rl_chain_id rl rollup_config) @ ''.json'') in
     andThen (write_file fs rollup_config_path (rl_pretty rl rollup_config)) (\<lambda>_.
       ret (rollup_config, rollup_config_path))))"

definition new_with_rollup_config ::
  "parsers \<Rightarrow> environment \<Rightarrow> http_post \<Rightarrow> fs_env \<Rightarrow> 'cfg rollup_lib \<Rightarrow> ('z disk_scheme, 'cfg data_fetcher) op"
  where
  "new_with_rollup_config ps env post fs rl =
     andThen (lift (get_rpcs ps env)) (\<lambda>rpc_config.
     andThen (fetch_and_save_rollup_config post fs rl rpc_config) (\<lambda>(rollup_config, rollup_config_path).
       ret \<lparr>df_rpc = rpc_config, df_rollup_config = Some rollup_config,
            df_rollup_config_path = Some rollup_config_path\<rparr>))"

subsection \<open>L2 blocks\<close>

text \<open>The raw block of a node, and what op-alloy and kona make of it.\<close>

record ('cfg, 'blk, 'info) block_lib =
  raw_block :: "int \<Rightarrow> nat \<Rightarrow> error + bytes"
  decode_block :: "bytes \<Rightarrow> 'blk option"
  block_info_of :: "'blk \<Rightarrow> 'cfg \<Rightarrow> 'info option"

definition get_l2_op_block_by_number ::
  "('cfg, 'blk, 'info) block_lib \<Rightarrow> int \<Rightarrow> ('z io_scheme, 'blk) op" where
  "get_l2_op_block_by_number bl n =
     andThen (call (raw_block bl n)) (\<lambda>raw.
       case decode_block bl raw of None \<Rightarrow> throw (Failure (Msg ''rlp'')) | Some b \<Rightarrow> ret b)"

definition l2_block_info_by_number ::
  "('cfg, 'blk, 'info) block_lib \<Rightarrow> 'cfg data_fetcher \<Rightarrow> int \<Rightarrow> ('z io_scheme, 'info) op" where
  "l2_block_info_by_number bl f n =
     (case df_rollup_config f of
        None \<Rightarrow> throw (Failure (Msg ''Rollup config not loaded.''))
      | Some cfg \<Rightarrow>
          andThen (get_l2_op_block_by_number bl n) (\<lambda>block.
            case block_info_of bl block cfg of
              None \<Rightarrow> throw (Failure (Msg ''from_block_and_genesis'')) | Some i \<Rightarrow> ret i))"

subsection \<open>Printed numbers\<close>

definition char_value :: "char \<Rightarrow> nat" where
  "char_value c = (if of_char c < (58 :: nat) then of_char c - 48 else of_char c - 87)"

definition of_radix :: "nat \<Rightarrow> string \<Rightarrow> nat" where
  "of_radix b s = foldl (\<lambda>a c. a * b + char_value c) 0 s"

lemma digit_char_value: "d < 36 \<Longrightarrow> char_value (digit_char d) = d"
  by (simp add: char_value_def digit_char_def)

lemma of_radix_snoc: "of_radix b (s @ [c]) = of_radix b s * b + char_value c"
  by (simp add: of_radix_def)

lemma of_radix_radix: "2 \<le> b \<Longrightarrow> b \<le> 36 \<Longrightarrow> of_radix b (radix b n) = n"
proof (induction b n rule: radix.induct)
  case (1 b n)
  show ?case
  proof (cases "n < b")
    case True
    then show ?thesis
      using 1(3) by (subst radix.simps) (simp add: of_radix_def digit_char_value)
  next
    case False
    then have "of_radix b (radix b (n div b)) = n div b" using 1 by simp
    moreover have "char_value (digit_char (n mod b)) = n mod b"
      using 1(2,3) by (intro digit_char_value) (simp add: less_le_trans [OF mod_less_divisor])
    ultimately show ?thesis
      using False 1(2) by (subst radix.simps) (simp add: of_radix_snoc)
  qed
qed

lemma radix_nonempty: "radix b n \<noteq> []"
  by (subst radix.simps) simp

lemma digit_digit_char: "d < 10 \<Longrightarrow> digit (digit_char d) = Some (int d)"
proof -
  assume "d < 10"
  then have "d = 0 \<or> d = 1 \<or> d = 2 \<or> d = 3 \<or> d = 4 \<or> d = 5 \<or> d = 6 \<or> d = 7 \<or> d = 8 \<or> d = 9"
    by arith
  then show ?thesis by (elim disjE) (simp_all add: digit_def digit_char_def Let_def char_of_def bit_0)
qed

lemma digits_append:
  "digits limit acc (xs @ ys) =
     (case digits limit acc xs of None \<Rightarrow> None | Some a \<Rightarrow> digits limit a ys)"
  by (induction xs arbitrary: acc) (auto split: option.splits)

lemma digits_radix: "int n \<le> limit \<Longrightarrow> digits limit 0 (radix 10 n) = Some (int n)"
proof (induction "10 :: nat" n rule: radix.induct)
  case (1 n)
  show ?case
  proof (cases "n < 10")
    case True
    then show ?thesis using 1(2) by (subst radix.simps) (simp add: digit_digit_char)
  next
    case False
    then have "digits limit 0 (radix 10 (n div 10)) = Some (int (n div 10))"
      using 1 of_nat_mono [OF div_le_dividend [of n 10], where ?'a = int] by simp
    moreover have "10 * int (n div 10) + int (n mod 10) = int n"
      by (metis mult_div_mod_eq of_nat_add of_nat_mult of_nat_numeral)
    ultimately show ?thesis
      using False 1(2) by (subst radix.simps) (simp add: digits_append digit_digit_char)
  qed
qed

lemma hd_radix: "digit c = None \<Longrightarrow> List.hd (radix 10 m) \<noteq> c"
proof (induction "10 :: nat" m rule: radix.induct)
  case (1 m)
  show ?case
  proof (cases "m < 10")
    case True
    then have "digit (digit_char m) \<noteq> digit c" using 1(2) by (simp add: digit_digit_char)
    then show ?thesis using True by (subst radix.simps) auto
  next
    case False
    then show ?thesis using 1 radix_nonempty [of 10 "m div 10"] by (subst radix.simps) simp
  qed
qed

subsection \<open>Properties\<close>

text \<open>
  Numbers survive being printed: the decimal form of a \<open>u64\<close> is parsed back to it, and the
  hexadecimal form sent to the nodes is \<open>0x\<close> and digits that stand for it.
\<close>

theorem printed_u64_parses_back:
  assumes "is_u64 n"
  shows "parse_u64 (show_u64 n) = Some n \<and> take 2 (hex_u64 n) = ''0x''
    \<and> int (of_radix 16 (drop 2 (hex_u64 n))) = n"
proof -
  have n: "0 \<le> n" "n \<le> u64_max" using assms by (simp_all add: is_u64_def)
  have "digits u64_max 0 (radix 10 (nat n)) = Some n" using digits_radix [of "nat n" u64_max] n by simp
  moreover obtain c cs where "radix 10 (nat n) = c # cs" using radix_nonempty [of 10 "nat n"] by (cases "radix 10 (nat n)") auto
  moreover have "List.hd (radix 10 (nat n)) \<noteq> CHR ''+''" by (rule hd_radix) (simp add: digit_def Let_def)
  ultimately have "parse_u64 (show_u64 n) = Some n"
    by (simp add: parse_u64_def parse_unsigned_def show_u64_def Let_def)
  then show ?thesis using n(1) by (simp add: hex_u64_def of_radix_radix)
qed

theorem printed_u64_parses_back_witness:
  "show_u64 604800 = ''604800'' \<and> hex_u64 604800 = ''0x93a80'' \<and> parse_u64 (show_u64 604800) = Some 604800"
proof -
  have "show_u64 604800 = ''604800''" "hex_u64 604800 = ''0x93a80''"
    by (simp_all add: show_u64_def hex_u64_def radix.simps digit_char_def char_of_def bit_0)
  then show ?thesis using printed_u64_parses_back [of 604800] by (simp add: is_u64_def u64_max_def)
qed

text \<open>
  A JSON-RPC call makes one request. It returns a value exactly if the node answers without an
  error field and the result decodes to that value; an answer with an error field is an error that
  carries the node's message, and no answer makes the call panic.
\<close>

theorem fetch_rpc_data_outcome:
  assumes "fetch_rpc_data post decode u method params s = (r, s')"
  shows "s' = s\<lparr>tick := Suc (tick s)\<rparr>
    \<and> (\<forall>x. r = Ok x \<longleftrightarrow> (\<exists>v. post u (rpc_request method params) (tick s) = Inr v
          \<and> json_get v ''error'' = None \<and> decode (json_index v ''result'') = Some x))
    \<and> (\<forall>v m. post u (rpc_request method params) (tick s) = Inr v
          \<and> json_get v ''error'' = Some (JObj [(''message'', JStr m)]) \<longrightarrow>
        r = Err (Msg (''Error calling '' @ method @ '': '' @ m)))
    \<and> (\<exists>y. r = Ok y \<or> (\<exists>e. r = Err e))"
  using assms
  by (auto simp: fetch_rpc_data_def andThen_def call_def lift_def rpc_result_def json_index_def Let_def
      split: sum.splits option.splits)

theorem fetch_rpc_data_outcome_witness:
  "fst (fetch_rpc_data (\<lambda>u req k. if k = 0 then Inr (JObj [(''result'', JNum 7)])
       else Inr (JObj [(''error'', JObj [(''message'', JStr ''down'')])])) as_json_u64 ''http://n'' ''m'' []
       \<lparr>tick = 1\<rparr>) = Err (Msg ''Error calling m: down'')"
proof -
  let ?post = "\<lambda>(u :: url) (req :: json) (k :: nat). if k = 0 then Inr (JObj [(''result'', JNum 7)])
       else (Inr (JObj [(''error'', JObj [(''message'', JStr ''down'')])]) :: error + json)"
  obtain r s' where run: "fetch_rpc_data ?post as_json_u64 ''http://n'' ''m'' [] (\<lparr>tick = 1\<rparr> :: io) = (r, s')"
    by fastforce
  have "r = Err (Msg (''Error calling '' @ ''m'' @ '': '' @ ''down''))"
    using fetch_rpc_data_outcome [OF run] by simp
  then show ?thesis using run by simp
qed

text \<open>What the files hold after the fetcher was set up.\<close>

lemma write_file_Ok:
  "write_file fs path content s = (Inr u, s') \<Longrightarrow> files s' path = Some content"
  by (auto simp: write_file_def andThen_eq_Ok update_def)

lemma new_with_rollup_config_saved:
  assumes "new_with_rollup_config ps env post fs rl s = (Inr f, s')"
  shows "\<exists>cfg. df_rollup_config f = Some cfg
    \<and> df_rollup_config_path f = Some (''configs/'' @ show_u64 (rl_chain_id rl cfg) @ ''.json'')
    \<and> files s' (''configs/'' @ show_u64 (rl_chain_id rl cfg) @ ''.json'') = Some (rl_pretty rl cfg)
    \<and> get_rpcs ps env = Ok (df_rpc f)"
proof -
  have join: "path_join ''configs'' (show_u64 n @ ''.json'') = ''configs/'' @ show_u64 n @ ''.json''" for n
  proof -
    have "List.hd (radix 10 m) \<noteq> CHR ''/''" for m by (rule hd_radix) (simp add: digit_def Let_def)
    then show ?thesis by (simp add: path_join_def show_u64_def radix_nonempty)
  qed
  show ?thesis
    using assms
    by (auto simp: new_with_rollup_config_def fetch_and_save_rollup_config_def andThen_eq_Ok ret_def lift_def
        Let_def join dest: write_file_Ok)
qed

lemma fetch_rpc_data_Ok:
  "fetch_rpc_data post decode u method params s = (Inr x, s') \<Longrightarrow>
   \<exists>v. post u (rpc_request method params) (tick s) = Inr v \<and> json_get v ''error'' = None
     \<and> decode (json_index v ''result'') = Some x \<and> s' = s\<lparr>tick := Suc (tick s)\<rparr>"
  by (auto simp: fetch_rpc_data_def andThen_def call_def lift_def rpc_result_def Let_def
      split: sum.splits option.splits)

lemma new_with_rollup_config_fetched:
  assumes "new_with_rollup_config ps env post fs rl s = (Inr f, s')"
  shows "\<exists>u k v. post u (rpc_request ''optimism_rollupConfig'' []) k = Inr v
    \<and> rl_decode rl (json_index v ''result'') = df_rollup_config f \<and> df_rollup_config f \<noteq> None"
proof -
  obtain rc cfg path s1 where rc: "fetch_and_save_rollup_config post fs rl rc s = (Inr (cfg, path), s1)"
    and f: "df_rollup_config f = Some cfg"
    using assms unfolding new_with_rollup_config_def andThen_eq_Ok lift_def ret_def by force
  obtain s2 where "fetch_rpc_data post (rl_decode rl) (l2_node_rpc rc) ''optimism_rollupConfig'' [] s = (Inr cfg, s2)"
    using rc unfolding fetch_and_save_rollup_config_def andThen_eq_Ok Let_def ret_def by force
  from fetch_rpc_data_Ok [OF this(1)] f show ?thesis by auto
qed

subsection \<open>A concrete node\<close>

text \<open>A node whose rollup configuration is its chain identifier 8, with files that can be written.\<close>

definition sample_post :: http_post where
  "sample_post u req k = Inr (JObj [(''result'', JNum 8)])"

definition sample_fs :: fs_env where
  "sample_fs = \<lparr>fs_create_dir_all = (\<lambda>_ _. Inr ()), fs_write = (\<lambda>_ _. Inr ())\<rparr>"

definition sample_rollup_lib :: "int rollup_lib" where
  "sample_rollup_lib = \<lparr>rl_decode = as_json_u64, rl_pretty = show_u64, rl_chain_id = (\<lambda>c. c)\<rparr>"

definition sample_urls :: environment where
  "sample_urls = [''L1_RPC'' \<mapsto> ''l1'', ''L1_BEACON_RPC'' \<mapsto> ''b'', ''L2_RPC'' \<mapsto> ''l2'', ''L2_NODE_RPC'' \<mapsto> ''n'']"

text \<open>
  A printer for objects whose values are numbers and strings, with its reader: a value is a tag and
  its text, every character is announced by a \<open>1\<close>, and a \<open>0\<close> ends it. The reader is given the keys.
\<close>

definition unary :: "int \<Rightarrow> string" where
  "unary n = (if n < 0 then CHR ''-'' # replicate (nat (- n)) CHR ''1'' else replicate (nat n) CHR ''1'')"

definition unary_value :: "string \<Rightarrow> int" where
  "unary_value s = (case s of [] \<Rightarrow> 0 | c # cs \<Rightarrow> if c = CHR ''-'' then - int (length cs) else int (length s))"

lemma unary_value_unary [simp]: "unary_value (unary n) = n"
  by (cases "nat n") (auto simp: unary_value_def unary_def)

fun scalar_text :: "json \<Rightarrow> string" where
  "scalar_text (JNum n) = CHR ''n'' # unary n"
| "scalar_text (JStr t) = CHR ''s'' # t"
| "scalar_text _ = []"

fun scalar_of_text :: "string \<Rightarrow> json" where
  "scalar_of_text [] = JNull"
| "scalar_of_text (c # t) = (if c = CHR ''n'' then JNum (unary_value t) else JStr t)"

fun is_scalar :: "json \<Rightarrow> bool" where
  "is_scalar (JNum _) = True"
| "is_scalar (JStr _) = True"
| "is_scalar _ = False"

definition announced :: "string \<Rightarrow> string" where
  "announced t = concat (map (\<lambda>c. [CHR ''1'', c]) t) @ ''0''"

fun read_announced :: "string \<Rightarrow> string \<Rightarrow> string list" where
  "read_announced acc (m # r) =
     (if m = CHR ''1'' then (case r of [] \<Rightarrow> [] | c # r' \<Rightarrow> read_announced (acc @ [c]) r')
      else acc # read_announced [] r)"
| "read_announced acc [] = []"

definition print_scalars :: "json \<Rightarrow> string" where
  "print_scalars v = (case v of JObj kvs \<Rightarrow> concat (map (\<lambda>(_, x). announced (scalar_text x)) kvs) | _ \<Rightarrow> [])"

definition read_scalars :: "string list \<Rightarrow> string \<Rightarrow> json option" where
  "read_scalars keys t = Some (JObj (zip keys (map scalar_of_text (read_announced [] t))))"

lemma read_announced_append: "read_announced acc (announced t @ r) = (acc @ t) # read_announced [] r"
  by (induction t arbitrary: acc) (simp_all add: announced_def)

lemma read_announced_concat: "read_announced [] (concat (map announced ts)) = ts"
  by (induction ts) (simp_all add: read_announced_append)

lemma scalar_of_text_inverse: "is_scalar v \<Longrightarrow> scalar_of_text (scalar_text v) = v"
  by (cases v) simp_all

lemma read_print_scalars:
  assumes "\<forall>(k, v) \<in> set kvs. is_scalar v"
  shows "read_scalars (map fst kvs) (print_scalars (JObj kvs)) = Some (JObj kvs)"
proof -
  have "print_scalars (JObj kvs) = concat (map announced (map (scalar_text \<circ> snd) kvs))"
    by (auto simp: print_scalars_def intro!: arg_cong [where f = concat])
  then have "read_announced [] (print_scalars (JObj kvs)) = map (scalar_text \<circ> snd) kvs"
    by (simp only: read_announced_concat)
  moreover have "zip (map fst kvs) (map scalar_of_text (map (scalar_text \<circ> snd) kvs)) = kvs"
    using assms by (induction kvs) (auto simp: scalar_of_text_inverse)
  ultimately show ?thesis by (simp add: read_scalars_def)
qed

end
