(* ===== verification/Deployment.thy ===== *)
theory Deployment
  imports JsonRpc Proposer
begin

text \<open>
  The deployment scripts of \<open>scripts/utils\<close>: the settings that both contracts share, the
  configuration of the L2 output oracle and of the dispute game, and the JSON files they are
  written to for the Solidity deployment, and what the Solidity deployer makes of the first file:
  how it is read into the struct \<open>L2OOConfig\<close> and which configuration the contract stores. The keys
  of the programs, SHA-256, Keccak-256 and the printing and parsing of JSON are parameters.
\<close>

subsection \<open>Shared settings\<close>

definition two_weeks_in_seconds :: int where "two_weeks_in_seconds = 14 * 24 * 60 * 60"

definition get_address :: "parsers \<Rightarrow> environment \<Rightarrow> string \<Rightarrow> bool \<Rightarrow> string res" where
  "get_address ps env key private_key_by_default =
     (case env key of
        Some addr \<Rightarrow> Ok addr
      | None \<Rightarrow>
          (case (if private_key_by_default then env ''PRIVATE_KEY'' else None) of
             Some pk \<Rightarrow> res_bind (unwrap (ps_private_key ps pk) ''unwrap'') (\<lambda>a. Ok (ps_show_address ps a))
           | None \<Rightarrow> Ok (ps_show_address ps zero_address)))"

definition parse_addresses :: "environment \<Rightarrow> string \<Rightarrow> string list" where
  "parse_addresses env key =
     filter (\<lambda>t. t \<noteq> []) (map trim (split_on CHR '','' (case env key of None \<Rightarrow> [] | Some v \<Rightarrow> v)))"

text \<open>\<open>hex::encode\<close>: two lower-case digits for each byte.\<close>

definition hex_byte :: "8 word \<Rightarrow> string" where
  "hex_byte b = [digit_char (unat b div 16), digit_char (unat b mod 16)]"

definition hex_encode :: "bytes \<Rightarrow> string" where
  "hex_encode bs = concat (map hex_byte bs)"

definition as_bytes :: "string \<Rightarrow> bytes" where "as_bytes s = map of_char s"

definition hash_rollup_config :: "(bytes \<Rightarrow> b256) \<Rightarrow> 'cfg rollup_lib \<Rightarrow> 'cfg \<Rightarrow> b256" where
  "hash_rollup_config sha256 rl config = sha256 (as_bytes (rl_pretty rl config))"

text \<open>The keys that the prover sets up: \<open>agg_vkey.vk.bytes32()\<close> and \<open>range_vkey.vk.hash_u32()\<close>.\<close>

record prover_keys =
  pk_agg_bytes32 :: string
  pk_range_hash_u32 :: vkey

record shared_config_data =
  scd_rollup_config_hash :: string
  scd_aggregation_vkey :: string
  scd_range_vkey_commitment :: string
  scd_verifier_address :: string
  scd_use_sp1_mock_verifier :: bool

definition get_shared_config_data ::
  "parsers \<Rightarrow> environment \<Rightarrow> http_post \<Rightarrow> fs_env \<Rightarrow> 'cfg rollup_lib \<Rightarrow> (bytes \<Rightarrow> b256) \<Rightarrow> prover_keys
     \<Rightarrow> ('z disk_scheme, shared_config_data) op" where
  "get_shared_config_data ps env post fs rl sha256 pk =
     andThen (new_with_rollup_config ps env post fs rl) (\<lambda>data_fetcher.
     let use_sp1_mock_verifier =
           (case parse_bool (case env ''OP_SUCCINCT_MOCK'' of None \<Rightarrow> ''false'' | Some v \<Rightarrow> v) of
              None \<Rightarrow> False | Some b \<Rightarrow> b);
         verifier_address =
           (case env ''VERIFIER_ADDRESS'' of
              None \<Rightarrow> ''0x397A5f7f3dBd538f23DE225B51f532c34448dA9B'' | Some a \<Rightarrow> a) in
     andThen (lift (unwrap (df_rollup_config data_fetcher) ''unwrap'')) (\<lambda>rollup_config.
       ret \<lparr>scd_rollup_config_hash = ''0x'' @ hex_encode (hash_rollup_config sha256 rl rollup_config),
            scd_aggregation_vkey = pk_agg_bytes32 pk,
            scd_range_vkey_commitment = ''0x'' @ hex_encode (u32_to_u8 (pk_range_hash_u32 pk)),
            scd_verifier_address = verifier_address,
            scd_use_sp1_mock_verifier = use_sp1_mock_verifier\<rparr>))"

definition env_unwrap :: "environment \<Rightarrow> (string \<Rightarrow> 'a option) \<Rightarrow> string \<Rightarrow> 'a \<Rightarrow> 'a res" where
  "env_unwrap env parse key dflt = (case env key of None \<Rightarrow> Ok dflt | Some v \<Rightarrow> unwrap (parse v) ''unwrap'')"

text \<open>\<open>.unwrap()\<close> on the result of an operation.\<close>

definition unwrapping :: "('s, 'a) op \<Rightarrow> ('s, 'a) op" where
  "unwrapping m = onErr m ret (\<lambda>e. throw (Panic ''unwrap''))"

subsection \<open>Files and directories\<close>

text \<open>\<open>Path::parent\<close>, on paths without a trailing separator.\<close>

definition path_parent :: "string \<Rightarrow> string option" where
  "path_parent p =
     (if p = [] \<or> p = ''/'' then None
      else (case dropWhile (\<lambda>c. c \<noteq> CHR ''/'') (rev p) of
              [] \<Rightarrow> Some []
            | _ # r \<Rightarrow> Some (if r = [] then ''/'' else rev r)))"

definition write_config_file :: "fs_env \<Rightarrow> (json \<Rightarrow> string) \<Rightarrow> json \<Rightarrow> string \<Rightarrow> ('z disk_scheme, unit) op" where
  "write_config_file fs pretty config file_path =
     andThen (case path_parent file_path of
                Some parent \<Rightarrow> call (fs_create_dir_all fs parent) | None \<Rightarrow> ret ()) (\<lambda>_.
       write_file fs file_path (pretty config))"

text \<open>
  The search for the directory that holds \<open>.git\<close>. A path is its components, the last one first;
  \<open>pop\<close> fails on the root directory.
\<close>

fun find_root_loop :: "(string list \<Rightarrow> bool) \<Rightarrow> string list \<Rightarrow> string list option" where
  "find_root_loop has_git [] = (if has_git [] then Some [] else None)"
| "find_root_loop has_git (c # cs) =
     (if has_git (c # cs) then Some (c # cs) else find_root_loop has_git cs)"

definition find_project_root :: "(string list \<Rightarrow> bool) \<Rightarrow> string list option \<Rightarrow> string list option" where
  "find_project_root has_git current_dir =
     (case current_dir of None \<Rightarrow> None | Some path \<Rightarrow> find_root_loop has_git path)"

subsection \<open>JSON of a configuration\<close>

text \<open>The names of serde's \<open>rename_all = "camelCase"\<close>.\<close>

definition char_to_upper :: "char \<Rightarrow> char" where
  "char_to_upper c = (let n = of_char c :: nat in if 97 \<le> n \<and> n \<le> 122 then char_of (n - 32) else c)"

fun pascal_loop :: "bool \<Rightarrow> string \<Rightarrow> string" where
  "pascal_loop capitalize [] = []"
| "pascal_loop capitalize (c # cs) =
     (if c = CHR ''_'' then pascal_loop True cs
      else if capitalize then char_to_upper c # pascal_loop False cs
      else c # pascal_loop False cs)"

definition camel_case :: "string \<Rightarrow> string" where
  "camel_case field = (case pascal_loop True field of [] \<Rightarrow> [] | c # cs \<Rightarrow> char_to_lower c # cs)"

definition struct_json :: "(string \<times> json) list \<Rightarrow> json" where
  "struct_json kvs = JObj (map (\<lambda>(name, v). (camel_case name, v)) kvs)"

subsection \<open>The L2 output oracle\<close>

record l2oo_config =
  lo_aggregation_vkey :: string
  lo_challenger :: string
  lo_fallback_timeout_secs :: int
  lo_finalization_period :: int
  lo_l2_block_time :: int
  lo_op_succinct_l2_output_oracle_impl :: string
  lo_owner :: string
  lo_proposer :: string
  lo_proxy_admin :: string
  lo_range_vkey_commitment :: string
  lo_rollup_config_hash :: string
  lo_starting_block_number :: int
  lo_starting_output_root :: string
  lo_starting_timestamp :: int
  lo_submission_interval :: int
  lo_verifier :: string

definition l2oo_json :: "l2oo_config \<Rightarrow> json" where
  "l2oo_json c = struct_json
     [(''aggregation_vkey'', JStr (lo_aggregation_vkey c)),
      (''challenger'', JStr (lo_challenger c)),
      (''fallback_timeout_secs'', JNum (lo_fallback_timeout_secs c)),
      (''finalization_period'', JNum (lo_finalization_period c)),
      (''l2_block_time'', JNum (lo_l2_block_time c)),
      (''op_succinct_l2_output_oracle_impl'', JStr (lo_op_succinct_l2_output_oracle_impl c)),
      (''owner'', JStr (lo_owner c)),
      (''proposer'', JStr (lo_proposer c)),
      (''proxy_admin'', JStr (lo_proxy_admin c)),
      (''range_vkey_commitment'', JStr (lo_range_vkey_commitment c)),
      (''rollup_config_hash'', JStr (lo_rollup_config_hash c)),
      (''starting_block_number'', JNum (lo_starting_block_number c)),
      (''starting_output_root'', JStr (lo_starting_output_root c)),
      (''starting_timestamp'', JNum (lo_starting_timestamp c)),
      (''submission_interval'', JNum (lo_submission_interval c)),
      (''verifier'', JStr (lo_verifier c))]"

text \<open>The output of a block as the node answers it, and the root in it.\<close>

definition output_at_block_json ::
  "http_post \<Rightarrow> 'cfg data_fetcher \<Rightarrow> int \<Rightarrow> ('z io_scheme, json) op" where
  "output_at_block_json post f n =
     fetch_rpc_data_with_mode post Some f L2Node ''optimism_outputAtBlock'' [JStr (hex_u64 n)]"

definition starting_block ::
  "environment \<Rightarrow> rpc_env \<Rightarrow> ('z io_scheme, int) op" where
  "starting_block env node =
     (case env ''STARTING_BLOCK_NUMBER'' of
        Some n \<Rightarrow> lift (unwrap (parse_u64 n) ''unwrap'')
      | None \<Rightarrow> andThen (unwrapping (get_l2_header node Finalized)) (\<lambda>h. ret (number h)))"

text \<open>
  \<open>block_time\<close> reads the block time of a rollup configuration; \<open>workspace_root\<close> is the answer of
  \<open>cargo metadata\<close>.
\<close>

definition l2oo_config_of ::
  "parsers \<Rightarrow> environment \<Rightarrow> http_post \<Rightarrow> rpc_env \<Rightarrow> ('cfg \<Rightarrow> int) \<Rightarrow> 'cfg data_fetcher \<Rightarrow> shared_config_data
     \<Rightarrow> ('z io_scheme, l2oo_config) op" where
  "l2oo_config_of ps env post node block_time f shared_config =
     andThen (lift (unwrap (df_rollup_config f) ''unwrap'')) (\<lambda>rollup_config.
     andThen (lift (env_unwrap env parse_u64 ''SUBMISSION_INTERVAL'' 10)) (\<lambda>submission_interval.
     andThen (lift (env_unwrap env parse_u64 ''FINALIZATION_PERIOD_SECS'' (60 * 60))) (\<lambda>finalization_period.
     andThen (lift (get_address ps env ''PROPOSER'' True)) (\<lambda>proposer.
     andThen (lift (get_address ps env ''OWNER'' True)) (\<lambda>owner.
     andThen (lift (get_address ps env ''CHALLENGER'' True)) (\<lambda>challenger.
     andThen (lift (get_address ps env ''PROXY_ADMIN'' False)) (\<lambda>proxy_admin.
     andThen (lift (get_address ps env ''OP_SUCCINCT_L2_OUTPUT_ORACLE_IMPL'' False)) (\<lambda>impl.
     andThen (lift (env_unwrap env parse_u64 ''FALLBACK_TIMEOUT_SECS'' two_weeks_in_seconds)) (\<lambda>fallback_timeout.
     andThen (starting_block env node) (\<lambda>starting_block_number.
     andThen (output_at_block_json post f starting_block_number) (\<lambda>out.
     andThen (lift (unwrap (as_str (json_index out ''outputRoot'')) ''unwrap'')) (\<lambda>starting_output_root.
     andThen (lift (unwrap (as_json_u64 (json_index (json_index out ''blockRef'') ''timestamp'')) ''unwrap''))
       (\<lambda>starting_timestamp.
       ret \<lparr>lo_aggregation_vkey = scd_aggregation_vkey shared_config, lo_challenger = challenger,
            lo_fallback_timeout_secs = fallback_timeout, lo_finalization_period = finalization_period,
            lo_l2_block_time = block_time rollup_config, lo_op_succinct_l2_output_oracle_impl = impl,
            lo_owner = owner, lo_proposer = proposer, lo_proxy_admin = proxy_admin,
            lo_range_vkey_commitment = scd_range_vkey_commitment shared_config,
            lo_rollup_config_hash = scd_rollup_config_hash shared_config,
            lo_starting_block_number = starting_block_number,
            lo_starting_output_root = starting_output_root, lo_starting_timestamp = starting_timestamp,
            lo_submission_interval = submission_interval,
            lo_verifier = scd_verifier_address shared_config\<rparr>)))))))))))))"

definition update_l2oo_config ::
  "parsers \<Rightarrow> environment \<Rightarrow> http_post \<Rightarrow> rpc_env \<Rightarrow> fs_env \<Rightarrow> 'cfg rollup_lib \<Rightarrow> ('cfg \<Rightarrow> int)
     \<Rightarrow> (bytes \<Rightarrow> b256) \<Rightarrow> prover_keys \<Rightarrow> (nat \<Rightarrow> error + string) \<Rightarrow> (json \<Rightarrow> string)
     \<Rightarrow> ('z disk_scheme, unit) op" where
  "update_l2oo_config ps env post node fs rl block_time sha256 pk workspace_root pretty =
     andThen (new_with_rollup_config ps env post fs rl) (\<lambda>data_fetcher.
     andThen (get_shared_config_data ps env post fs rl sha256 pk) (\<lambda>shared_config.
     andThen (call workspace_root) (\<lambda>root.
     andThen (l2oo_config_of ps env post node block_time data_fetcher shared_config) (\<lambda>config.
       write_config_file fs pretty (l2oo_json config) (path_join root ''contracts/opsuccinctl2ooconfig.json'')))))"

subsection \<open>The dispute game\<close>

record fault_dispute_game_config =
  fd_aggregation_vkey :: string
  fd_challenger_addresses :: "string list"
  fd_challenger_bond_wei :: int
  fd_dispute_game_finality_delay_seconds :: int
  fd_fallback_timeout_fp_secs :: int
  fd_game_type :: int
  fd_initial_bond_wei :: int
  fd_max_challenge_duration :: int
  fd_max_prove_duration :: int
  fd_optimism_portal2_address :: string
  fd_permissionless_mode :: bool
  fd_proposer_addresses :: "string list"
  fd_range_vkey_commitment :: string
  fd_rollup_config_hash :: string
  fd_starting_l2_block_number :: int
  fd_starting_root :: string
  fd_use_sp1_mock_verifier :: bool
  fd_verifier_address :: string

definition fdg_json :: "fault_dispute_game_config \<Rightarrow> json" where
  "fdg_json c = struct_json
     [(''aggregation_vkey'', JStr (fd_aggregation_vkey c)),
      (''challenger_addresses'', JArr (map JStr (fd_challenger_addresses c))),
      (''challenger_bond_wei'', JNum (fd_challenger_bond_wei c)),
      (''dispute_game_finality_delay_seconds'', JNum (fd_dispute_game_finality_delay_seconds c)),
      (''fallback_timeout_fp_secs'', JNum (fd_fallback_timeout_fp_secs c)),
      (''game_type'', JNum (fd_game_type c)),
      (''initial_bond_wei'', JNum (fd_initial_bond_wei c)),
      (''max_challenge_duration'', JNum (fd_max_challenge_duration c)),
      (''max_prove_duration'', JNum (fd_max_prove_duration c)),
      (''optimism_portal2_address'', JStr (fd_optimism_portal2_address c)),
      (''permissionless_mode'', JBool (fd_permissionless_mode c)),
      (''proposer_addresses'', JArr (map JStr (fd_proposer_addresses c))),
      (''range_vkey_commitment'', JStr (fd_range_vkey_commitment c)),
      (''rollup_config_hash'', JStr (fd_rollup_config_hash c)),
      (''starting_l2_block_number'', JNum (fd_starting_l2_block_number c)),
      (''starting_root'', JStr (fd_starting_root c)),
      (''use_sp1_mock_verifier'', JBool (fd_use_sp1_mock_verifier c)),
      (''verifier_address'', JStr (fd_verifier_address c))]"

definition fdg_starting_block ::
  "environment \<Rightarrow> rpc_env \<Rightarrow> ('cfg \<Rightarrow> int) \<Rightarrow> 'cfg data_fetcher \<Rightarrow> int \<Rightarrow> ('z io_scheme, int) op" where
  "fdg_starting_block env node block_time f dispute_game_finality_delay_seconds =
     (case env ''STARTING_L2_BLOCK_NUMBER'' of
        Some n \<Rightarrow> lift (unwrap (parse_u64 n) ''unwrap'')
      | None \<Rightarrow>
          andThen (unwrapping (get_l2_header node Finalized)) (\<lambda>latest_finalized_header.
            case df_rollup_config f of
              None \<Rightarrow> throw (Failure (Msg ''Rollup config not found''))
            | Some cfg \<Rightarrow>
                (if block_time cfg = 0 then throw (Panic ''attempt to divide by zero'')
                 else ret (sat_sub (number latest_finalized_header)
                   (dispute_game_finality_delay_seconds div block_time cfg)))))"

definition fdg_config_of ::
  "environment \<Rightarrow> http_post \<Rightarrow> rpc_env \<Rightarrow> ('cfg \<Rightarrow> int) \<Rightarrow> 'cfg data_fetcher \<Rightarrow> shared_config_data
     \<Rightarrow> ('z io_scheme, fault_dispute_game_config) op" where
  "fdg_config_of env post node block_time f shared_config =
     andThen (lift (env_unwrap env parse_u32 ''GAME_TYPE'' 42)) (\<lambda>game_type.
     andThen (lift (env_unwrap env parse_u64 ''DISPUTE_GAME_FINALITY_DELAY_SECONDS'' 604800)) (\<lambda>delay.
     andThen (lift (env_unwrap env parse_u64 ''MAX_CHALLENGE_DURATION'' 604800)) (\<lambda>max_challenge_duration.
     andThen (lift (env_unwrap env parse_u64 ''MAX_PROVE_DURATION'' 86400)) (\<lambda>max_prove_duration.
     andThen (lift (env_unwrap env parse_u64 ''FALLBACK_TIMEOUT_FP_SECS'' two_weeks_in_seconds)) (\<lambda>fallback_timeout.
     andThen (lift (env_unwrap env parse_u64 ''INITIAL_BOND_WEI'' 1000000000000000)) (\<lambda>initial_bond_wei.
     andThen (lift (env_unwrap env parse_u64 ''CHALLENGER_BOND_WEI'' 1000000000000000)) (\<lambda>challenger_bond_wei.
     andThen (lift (env_unwrap env parse_bool ''PERMISSIONLESS_MODE'' False)) (\<lambda>permissionless_mode.
     let proposer_addresses = (if permissionless_mode then [] else parse_addresses env ''PROPOSER_ADDRESSES'');
         challenger_addresses = (if permissionless_mode then [] else parse_addresses env ''CHALLENGER_ADDRESSES'');
         optimism_portal2_address = (case env ''OPTIMISM_PORTAL2_ADDRESS'' of
           None \<Rightarrow> ''0x0000000000000000000000000000000000000000'' | Some a \<Rightarrow> a) in
     andThen (fdg_starting_block env node block_time f delay) (\<lambda>starting_l2_block_number.
     andThen (output_at_block_json post f starting_l2_block_number) (\<lambda>out.
     andThen (lift (unwrap (as_str (json_index out ''outputRoot'')) ''unwrap'')) (\<lambda>starting_output_root.
       ret \<lparr>fd_aggregation_vkey = scd_aggregation_vkey shared_config,
            fd_challenger_addresses = challenger_addresses,
            fd_challenger_bond_wei = challenger_bond_wei, fd_dispute_game_finality_delay_seconds = delay,
            fd_fallback_timeout_fp_secs = fallback_timeout, fd_game_type = game_type,
            fd_initial_bond_wei = initial_bond_wei, fd_max_challenge_duration = max_challenge_duration,
            fd_max_prove_duration = max_prove_duration,
            fd_optimism_portal2_address = optimism_portal2_address,
            fd_permissionless_mode = permissionless_mode,
            fd_proposer_addresses = proposer_addresses,
            fd_range_vkey_commitment = scd_range_vkey_commitment shared_config,
            fd_rollup_config_hash = scd_rollup_config_hash shared_config,
            fd_starting_l2_block_number = starting_l2_block_number,
            fd_starting_root = starting_output_root,
            fd_use_sp1_mock_verifier = scd_use_sp1_mock_verifier shared_config,
            fd_verifier_address = scd_verifier_address shared_config\<rparr>)))))))))))"

definition update_fdg_config ::
  "parsers \<Rightarrow> environment \<Rightarrow> http_post \<Rightarrow> rpc_env \<Rightarrow> fs_env \<Rightarrow> 'cfg rollup_lib \<Rightarrow> ('cfg \<Rightarrow> int)
     \<Rightarrow> (bytes \<Rightarrow> b256) \<Rightarrow> prover_keys \<Rightarrow> (nat \<Rightarrow> error + string) \<Rightarrow> (json \<Rightarrow> string)
     \<Rightarrow> ('z disk_scheme, unit) op" where
  "update_fdg_config ps env post node fs rl block_time sha256 pk workspace_root pretty =
     andThen (new_with_rollup_config ps env post fs rl) (\<lambda>data_fetcher.
     andThen (get_shared_config_data ps env post fs rl sha256 pk) (\<lambda>shared_config.
     andThen (call workspace_root) (\<lambda>root.
     andThen (fdg_config_of env post node block_time data_fetcher shared_config) (\<lambda>config.
       write_config_file fs pretty (fdg_json config) (path_join root ''contracts/opsuccinctfdgconfig.json'')))))"

text \<open>
  Both scripts first load the file of variables next to \<open>.git\<close>, if there is one;
  \<open>load_dotenv\<close> is \<open>dotenv::from_path(..).ok()\<close>.
\<close>

definition script_environment ::
  "(string list \<Rightarrow> string \<Rightarrow> environment \<Rightarrow> environment) \<Rightarrow> (string list \<Rightarrow> bool) \<Rightarrow> string list option
     \<Rightarrow> string \<Rightarrow> environment \<Rightarrow> environment" where
  "script_environment load_dotenv has_git current_dir env_file env =
     (case find_project_root has_git current_dir of
        Some root \<Rightarrow> load_dotenv root env_file env
      | None \<Rightarrow> env)"

definition l2oo_main ::
  "(string list \<Rightarrow> string \<Rightarrow> environment \<Rightarrow> environment) \<Rightarrow> (string list \<Rightarrow> bool) \<Rightarrow> string list option
     \<Rightarrow> string \<Rightarrow> parsers \<Rightarrow> environment \<Rightarrow> http_post \<Rightarrow> rpc_env \<Rightarrow> fs_env \<Rightarrow> 'cfg rollup_lib \<Rightarrow> ('cfg \<Rightarrow> int)
     \<Rightarrow> (bytes \<Rightarrow> b256) \<Rightarrow> prover_keys \<Rightarrow> (nat \<Rightarrow> error + string) \<Rightarrow> (json \<Rightarrow> string)
     \<Rightarrow> ('z disk_scheme, unit) op" where
  "l2oo_main load_dotenv has_git current_dir env_file ps env =
     update_l2oo_config ps (script_environment load_dotenv has_git current_dir env_file env)"

definition fdg_main ::
  "(string list \<Rightarrow> string \<Rightarrow> environment \<Rightarrow> environment) \<Rightarrow> (string list \<Rightarrow> bool) \<Rightarrow> string list option
     \<Rightarrow> string \<Rightarrow> parsers \<Rightarrow> environment \<Rightarrow> http_post \<Rightarrow> rpc_env \<Rightarrow> fs_env \<Rightarrow> 'cfg rollup_lib \<Rightarrow> ('cfg \<Rightarrow> int)
     \<Rightarrow> (bytes \<Rightarrow> b256) \<Rightarrow> prover_keys \<Rightarrow> (nat \<Rightarrow> error + string) \<Rightarrow> (json \<Rightarrow> string)
     \<Rightarrow> ('z disk_scheme, unit) op" where
  "fdg_main load_dotenv has_git current_dir env_file ps env =
     update_fdg_config ps (script_environment load_dotenv has_git current_dir env_file env)"

subsection \<open>What the files contain\<close>

text \<open>The project root is the nearest enclosing directory that holds \<open>.git\<close>.\<close>

lemma find_root_loop_nearest:
  "find_root_loop has_git p = Some q \<Longrightarrow>
     \<exists>k. q = drop k p \<and> has_git q \<and> (\<forall>j < k. \<not> has_git (drop j p))"
proof (induction p)
  case (Cons c cs)
  show ?case
  proof (cases "has_git (c # cs)")
    case True
    then have "q = drop 0 (c # cs) \<and> has_git q \<and> (\<forall>j < 0. \<not> has_git (drop j (c # cs)))"
      using Cons.prems by simp
    then show ?thesis by blast
  next
    case False
    then obtain k where k: "q = drop k cs" "has_git q" "\<forall>j < k. \<not> has_git (drop j cs)"
      using Cons by auto
    have "\<not> has_git (drop j (c # cs))" if "j < Suc k" for j
      using k(3) False that by (cases j) simp_all
    then show ?thesis using k(1,2) by (intro exI [of _ "Suc k"]) simp
  qed
qed (auto intro: exI [of _ 0] split: if_splits)

text \<open>Strings in the order of their characters.\<close>

fun string_less :: "string \<Rightarrow> string \<Rightarrow> bool" where
  "string_less _ [] = False"
| "string_less [] (_ # _) = True"
| "string_less (a # as) (b # bs) =
     ((of_char a :: nat) < of_char b \<or> a = b \<and> string_less as bs)"

fun json_keys :: "json \<Rightarrow> string list" where
  "json_keys (JObj kvs) = map fst kvs"
| "json_keys _ = []"

lemma json_keys_struct: "json_keys (struct_json kvs) = map camel_case (map fst kvs)"
  by (simp add: struct_json_def comp_def case_prod_beta)

lemma l2oo_keys:
  "map camel_case [''aggregation_vkey'', ''challenger'', ''fallback_timeout_secs'', ''finalization_period'',
     ''l2_block_time'', ''op_succinct_l2_output_oracle_impl'', ''owner'', ''proposer'',
     ''proxy_admin'', ''range_vkey_commitment'', ''rollup_config_hash'',
     ''starting_block_number'', ''starting_output_root'', ''starting_timestamp'',
     ''submission_interval'', ''verifier''] =
   [''aggregationVkey'', ''challenger'', ''fallbackTimeoutSecs'', ''finalizationPeriod'',
     ''l2BlockTime'', ''opSuccinctL2OutputOracleImpl'', ''owner'', ''proposer'',
     ''proxyAdmin'', ''rangeVkeyCommitment'', ''rollupConfigHash'', ''startingBlockNumber'',
     ''startingOutputRoot'', ''startingTimestamp'', ''submissionInterval'', ''verifier'']"
  by code_simp

lemma fdg_keys:
  "map camel_case [''aggregation_vkey'', ''challenger_addresses'', ''challenger_bond_wei'',
     ''dispute_game_finality_delay_seconds'', ''fallback_timeout_fp_secs'', ''game_type'',
     ''initial_bond_wei'', ''max_challenge_duration'', ''max_prove_duration'',
     ''optimism_portal2_address'', ''permissionless_mode'', ''proposer_addresses'',
     ''range_vkey_commitment'', ''rollup_config_hash'', ''starting_l2_block_number'',
     ''starting_root'', ''use_sp1_mock_verifier'', ''verifier_address''] =
   [''aggregationVkey'', ''challengerAddresses'', ''challengerBondWei'',
     ''disputeGameFinalityDelaySeconds'', ''fallbackTimeoutFpSecs'', ''gameType'',
     ''initialBondWei'', ''maxChallengeDuration'', ''maxProveDuration'',
     ''optimismPortal2Address'', ''permissionlessMode'', ''proposerAddresses'',
     ''rangeVkeyCommitment'', ''rollupConfigHash'', ''startingL2BlockNumber'',
     ''startingRoot'', ''useSp1MockVerifier'', ''verifierAddress'']"
  by code_simp

lemma keys_in_order:
  "sorted_wrt string_less (json_keys (l2oo_json c))" "sorted_wrt string_less (json_keys (fdg_json d))"
proof -
  have "sorted_wrt string_less [''aggregationVkey'', ''challenger'', ''fallbackTimeoutSecs'', ''finalizationPeriod'',
     ''l2BlockTime'', ''opSuccinctL2OutputOracleImpl'', ''owner'', ''proposer'',
     ''proxyAdmin'', ''rangeVkeyCommitment'', ''rollupConfigHash'', ''startingBlockNumber'',
     ''startingOutputRoot'', ''startingTimestamp'', ''submissionInterval'', ''verifier'']"
    by code_simp
  then show "sorted_wrt string_less (json_keys (l2oo_json c))"
    by (simp only: l2oo_json_def json_keys_struct list.map fst_conv l2oo_keys [unfolded list.map])
  have "sorted_wrt string_less [''aggregationVkey'', ''challengerAddresses'', ''challengerBondWei'',
     ''disputeGameFinalityDelaySeconds'', ''fallbackTimeoutFpSecs'', ''gameType'',
     ''initialBondWei'', ''maxChallengeDuration'', ''maxProveDuration'',
     ''optimismPortal2Address'', ''permissionlessMode'', ''proposerAddresses'',
     ''rangeVkeyCommitment'', ''rollupConfigHash'', ''startingL2BlockNumber'',
     ''startingRoot'', ''useSp1MockVerifier'', ''verifierAddress'']"
    by code_simp
  then show "sorted_wrt string_less (json_keys (fdg_json d))"
    by (simp only: fdg_json_def json_keys_struct list.map fst_conv fdg_keys [unfolded list.map])
qed

subsection \<open>Properties\<close>

text \<open>
  The fields of both deployment files are in strictly alphabetical order under the names they
  are written with, as the Solidity scripts that read them need.
\<close>

theorem config_files_are_alphabetical:
  "sorted_wrt string_less (json_keys (l2oo_json c)) \<and> length (json_keys (l2oo_json c)) = 16
   \<and> sorted_wrt string_less (json_keys (fdg_json d)) \<and> length (json_keys (fdg_json d)) = 18"
  using keys_in_order by (simp add: l2oo_json_def fdg_json_def struct_json_def)

subsection \<open>The contract that is deployed\<close>

text \<open>
  The Solidity side, as far as the configuration goes. \<open>parseJson\<close> of forge lays the values of an
  object out in the order of their keys, and \<open>abi.decode\<close> reads them into the struct by position,
  whatever their names. A value that does not have the form of its field gives no configuration here.
\<close>

fun hex_pairs :: "string \<Rightarrow> bytes" where
  "hex_pairs (a # b # cs) = word_of_nat (16 * char_value a + char_value b) # hex_pairs cs"
| "hex_pairs _ = []"

definition of_hex :: "string \<Rightarrow> bytes" where "of_hex s = hex_pairs (drop 2 s)"

lemma hex_pairs_encode: "hex_pairs (hex_encode bs) = bs"
proof (induction bs)
  case (Cons b bs)
  have "unat b < 256" using unsigned_less [of b, where ?'a = nat] by simp
  then have "unat b div 16 < 36" "unat b mod 16 < 36" by (simp_all add: less_mult_imp_div_less)
  moreover have "16 * (unat b div 16) + unat b mod 16 = unat b" by simp
  ultimately show ?case
    using Cons by (simp add: hex_encode_def hex_byte_def digit_char_value)
qed (simp add: hex_encode_def)

lemma of_hex_encode: "of_hex (''0x'' @ hex_encode bs) = bs"
  by (simp add: of_hex_def hex_pairs_encode)

fun insert_field :: "string \<times> json \<Rightarrow> (string \<times> json) list \<Rightarrow> (string \<times> json) list" where
  "insert_field kv [] = [kv]"
| "insert_field kv (kw # kws) =
     (if string_less (fst kw) (fst kv) then kw # insert_field kv kws else kv # kw # kws)"

fun parse_json_values :: "json \<Rightarrow> json list" where
  "parse_json_values (JObj kvs) = map snd (foldr insert_field kvs [])"
| "parse_json_values _ = []"

definition abi_fixed_bytes :: "nat \<Rightarrow> json \<Rightarrow> bytes option" where
  "abi_fixed_bytes n v =
     (case v of
        JStr s \<Rightarrow> if take 2 s = ''0x'' \<and> length s = 2 + 2 * n then Some (of_hex s) else None
      | _ \<Rightarrow> None)"

definition abi_uint256 :: "json \<Rightarrow> int option" where
  "abi_uint256 v = (case v of JNum n \<Rightarrow> if 0 \<le> n \<and> n < 2 ^ 256 then Some n else None | _ \<Rightarrow> None)"

record sol_l2oo_config =
  so_aggregation_vkey :: b256
  so_challenger :: address
  so_fallback_proposal_timeout :: int
  so_finalization_period :: int
  so_l2_block_time :: int
  so_op_succinct_l2_output_oracle_impl :: address
  so_owner :: address
  so_proposer :: address
  so_proxy_admin :: address
  so_range_vkey_commitment :: b256
  so_rollup_config_hash :: b256
  so_starting_block_number :: int
  so_starting_output_root :: b256
  so_starting_timestamp :: int
  so_submission_interval :: int
  so_verifier :: address

definition abi_decode_l2oo :: "json list \<Rightarrow> sol_l2oo_config option" where
  "abi_decode_l2oo vs =
     (if length vs < 16 then None else
     Option.bind (abi_fixed_bytes 32 (vs ! 0)) (\<lambda>aggregation_vkey.
     Option.bind (abi_fixed_bytes 20 (vs ! 1)) (\<lambda>challenger.
     Option.bind (abi_uint256 (vs ! 2)) (\<lambda>fallback_proposal_timeout.
     Option.bind (abi_uint256 (vs ! 3)) (\<lambda>finalization_period.
     Option.bind (abi_uint256 (vs ! 4)) (\<lambda>l2_block_time.
     Option.bind (abi_fixed_bytes 20 (vs ! 5)) (\<lambda>impl.
     Option.bind (abi_fixed_bytes 20 (vs ! 6)) (\<lambda>owner.
     Option.bind (abi_fixed_bytes 20 (vs ! 7)) (\<lambda>proposer.
     Option.bind (abi_fixed_bytes 20 (vs ! 8)) (\<lambda>proxy_admin.
     Option.bind (abi_fixed_bytes 32 (vs ! 9)) (\<lambda>range_vkey_commitment.
     Option.bind (abi_fixed_bytes 32 (vs ! 10)) (\<lambda>rollup_config_hash.
     Option.bind (abi_uint256 (vs ! 11)) (\<lambda>starting_block_number.
     Option.bind (abi_fixed_bytes 32 (vs ! 12)) (\<lambda>starting_output_root.
     Option.bind (abi_uint256 (vs ! 13)) (\<lambda>starting_timestamp.
     Option.bind (abi_uint256 (vs ! 14)) (\<lambda>submission_interval.
     Option.bind (abi_fixed_bytes 20 (vs ! 15)) (\<lambda>verifier.
       Some \<lparr>so_aggregation_vkey = aggregation_vkey, so_challenger = challenger,
         so_fallback_proposal_timeout = fallback_proposal_timeout,
         so_finalization_period = finalization_period, so_l2_block_time = l2_block_time,
         so_op_succinct_l2_output_oracle_impl = impl, so_owner = owner, so_proposer = proposer,
         so_proxy_admin = proxy_admin, so_range_vkey_commitment = range_vkey_commitment,
         so_rollup_config_hash = rollup_config_hash, so_starting_block_number = starting_block_number,
         so_starting_output_root = starting_output_root, so_starting_timestamp = starting_timestamp,
         so_submission_interval = submission_interval, so_verifier = verifier\<rparr>)))))))))))))))))"

text \<open>\<open>parse\<close> is the JSON reader of forge, \<open>project_root\<close> the directory of its project.\<close>

definition read_l2oo_json ::
  "(string \<Rightarrow> json option) \<Rightarrow> (string \<rightharpoonup> string) \<Rightarrow> string \<Rightarrow> string \<Rightarrow> sol_l2oo_config option" where
  "read_l2oo_json parse fs project_root filepath =
     Option.bind (fs (project_root @ ''/'' @ filepath)) (\<lambda>text.
     Option.bind (parse text) (\<lambda>v. abi_decode_l2oo (parse_json_values v)))"

text \<open>The assignments of \<open>initialize\<close> to the configurations of the contract.\<close>

definition initialize_configs ::
  "(bytes \<Rightarrow> b256) \<Rightarrow> sol_l2oo_config \<Rightarrow> (b256 \<Rightarrow> succinct_config) \<Rightarrow> b256 \<Rightarrow> succinct_config" where
  "initialize_configs keccak d configs =
     configs(keccak (as_bytes ''opsuccinct_genesis'') :=
       \<lparr>sc_aggregation_vkey = so_aggregation_vkey d,
        sc_range_vkey_commitment = so_range_vkey_commitment d,
        sc_rollup_config_hash = so_rollup_config_hash d\<rparr>)"

subsection \<open>What a finished script leaves\<close>

lemma write_config_file_Ok:
  assumes "write_config_file fs pretty v path s = (Inr u, s')"
  shows "files s' path = Some (pretty v)"
  using assms unfolding write_config_file_def andThen_eq_Ok by (auto dest: write_file_Ok)

lemma get_shared_config_data_Ok:
  assumes "get_shared_config_data ps env post fs rl sha256 pk s = (Inr sc, s')"
  shows "\<exists>c u k v. post u (rpc_request ''optimism_rollupConfig'' []) k = Inr v
    \<and> rl_decode rl (json_index v ''result'') = Some c
    \<and> scd_rollup_config_hash sc = ''0x'' @ hex_encode (hash_rollup_config sha256 rl c)
    \<and> scd_aggregation_vkey sc = pk_agg_bytes32 pk
    \<and> scd_range_vkey_commitment sc = ''0x'' @ hex_encode (u32_to_u8 (pk_range_hash_u32 pk))"
proof -
  obtain f s1 where f: "new_with_rollup_config ps env post fs rl s = (Inr f, s1)"
    and rest: "\<exists>c. df_rollup_config f = Some c
      \<and> scd_rollup_config_hash sc = ''0x'' @ hex_encode (hash_rollup_config sha256 rl c)
      \<and> scd_aggregation_vkey sc = pk_agg_bytes32 pk
      \<and> scd_range_vkey_commitment sc = ''0x'' @ hex_encode (u32_to_u8 (pk_range_hash_u32 pk))"
    using assms unfolding get_shared_config_data_def andThen_eq_Ok Let_def lift_def ret_def by force
  from new_with_rollup_config_fetched [OF f] rest show ?thesis by metis
qed

lemma l2oo_config_of_shared:
  assumes "l2oo_config_of ps env post node block_time f shared s = (Inr c, s')"
  shows "lo_aggregation_vkey c = scd_aggregation_vkey shared
    \<and> lo_range_vkey_commitment c = scd_range_vkey_commitment shared
    \<and> lo_rollup_config_hash c = scd_rollup_config_hash shared"
  using assms unfolding l2oo_config_of_def andThen_eq_Ok lift_def ret_def by clarsimp

text \<open>
  The file that \<open>fetch_l2oo_config\<close> leaves: the keys of the programs and the hash of the rollup
  configuration that the node answered stand under their own names.
\<close>

lemma update_l2oo_config_written:
  fixes s s' :: "'z disk_scheme"
  assumes "update_l2oo_config ps env post node fs rl block_time sha256 pk workspace_root pretty s = (Inr u, s')"
    and "\<And>k. workspace_root k = Inr root"
  shows "\<exists>config c w k v.
    files s' (path_join root ''contracts/opsuccinctl2ooconfig.json'') = Some (pretty (l2oo_json config))
    \<and> post w (rpc_request ''optimism_rollupConfig'' []) k = Inr v
    \<and> rl_decode rl (json_index v ''result'') = Some c
    \<and> lo_rollup_config_hash config = ''0x'' @ hex_encode (hash_rollup_config sha256 rl c)
    \<and> lo_aggregation_vkey config = pk_agg_bytes32 pk
    \<and> lo_range_vkey_commitment config = ''0x'' @ hex_encode (u32_to_u8 (pk_range_hash_u32 pk))"
proof -
  obtain f shared config and s1 s2 s3 s4 :: "'z disk_scheme" where
    shared: "get_shared_config_data ps env post fs rl sha256 pk s1 = (Inr shared, s2)"
    and config: "l2oo_config_of ps env post node block_time f shared s3 = (Inr config, s4)"
    and written: "write_config_file fs pretty (l2oo_json config)
      (path_join root ''contracts/opsuccinctl2ooconfig.json'') s4 = (Inr u, s')"
    using assms unfolding update_l2oo_config_def andThen_eq_Ok
    by (auto simp: call_def)
  from get_shared_config_data_Ok [OF shared] l2oo_config_of_shared [OF config] write_config_file_Ok [OF written]
  show ?thesis by metis
qed

lemma update_fdg_config_written:
  assumes "update_fdg_config ps env post node fs rl block_time sha256 pk workspace_root pretty s = (Inr u, s')"
  shows "\<exists>root config. files s' (path_join root ''contracts/opsuccinctfdgconfig.json'')
    = Some (pretty (fdg_json config))"
  using assms unfolding update_fdg_config_def andThen_eq_Ok by (blast dest: write_config_file_Ok)

text \<open>
  The oracle starts at the block whose output the node was asked for, with the root and the
  timestamp of that answer.
\<close>

lemma l2oo_config_starts_at_output:
  fixes s s' :: "'z io_scheme"
  assumes "l2oo_config_of ps env post node block_time f shared s = (Inr c, s')"
  shows "\<exists>out (s1 :: 'z io_scheme) s2. output_at_block_json post f (lo_starting_block_number c) s1 = (Inr out, s2)
    \<and> as_str (json_index out ''outputRoot'') = Some (lo_starting_output_root c)
    \<and> as_json_u64 (json_index (json_index out ''blockRef'') ''timestamp'') = Some (lo_starting_timestamp c)"
  using assms unfolding l2oo_config_of_def andThen_eq_Ok lift_def ret_def by clarsimp blast

subsection \<open>The deployed contract and the proposer\<close>

lemma string_less_asym: "string_less a b \<Longrightarrow> \<not> string_less b a"
  by (induction a b rule: string_less.induct) auto

lemma in_key_order:
  "sorted_wrt string_less (map fst kvs) \<Longrightarrow> foldr insert_field kvs [] = kvs"
proof (induction kvs)
  case (Cons kv kvs)
  then show ?case by (cases kvs) (auto simp: string_less_asym)
qed simp

lemma parse_l2oo_values:
  "parse_json_values (l2oo_json c) =
     [JStr (lo_aggregation_vkey c), JStr (lo_challenger c), JNum (lo_fallback_timeout_secs c),
      JNum (lo_finalization_period c), JNum (lo_l2_block_time c),
      JStr (lo_op_succinct_l2_output_oracle_impl c), JStr (lo_owner c), JStr (lo_proposer c),
      JStr (lo_proxy_admin c), JStr (lo_range_vkey_commitment c), JStr (lo_rollup_config_hash c),
      JNum (lo_starting_block_number c), JStr (lo_starting_output_root c),
      JNum (lo_starting_timestamp c), JNum (lo_submission_interval c), JStr (lo_verifier c)]"
proof -
  obtain kvs where kvs: "l2oo_json c = JObj kvs" by (simp add: l2oo_json_def struct_json_def)
  then have "sorted_wrt string_less (map fst kvs)" using keys_in_order(1) [of c] by simp
  then have "parse_json_values (l2oo_json c) = map snd kvs" by (simp add: kvs in_key_order)
  then show ?thesis using kvs by (auto simp: l2oo_json_def struct_json_def)
qed

lemma abi_decode_l2oo_configs:
  assumes "abi_decode_l2oo (parse_json_values (l2oo_json c)) = Some d"
  shows "so_aggregation_vkey d = of_hex (lo_aggregation_vkey c)
    \<and> so_range_vkey_commitment d = of_hex (lo_range_vkey_commitment c)
    \<and> so_rollup_config_hash d = of_hex (lo_rollup_config_hash c)"
  using assms unfolding abi_decode_l2oo_def parse_l2oo_values
  by (auto simp: bind_eq_Some_conv abi_fixed_bytes_def split: if_splits)

lemma path_join_contracts:
  "path_join root ''contracts'' @ ''/'' @ ''opsuccinctl2ooconfig.json''
     = path_join root ''contracts/opsuccinctl2ooconfig.json''"
  by (simp add: path_join_def)

text \<open>
  C35. What the scripts deploy is what the proposer of the same programs accepts, and only that.
  Suppose that \<open>fetch_l2oo_config\<close> finished, that the deployer read the file it wrote, and that the
  contract was initialised with what it read. Then a proposer that uses the configuration name
  \<open>opsuccinct_genesis\<close> passes the check of the contract's configuration exactly if its commitments
  are those that \<open>proposer_new\<close> computes from the keys the script used and from the rollup
  configuration of the node. Hypotheses: the node always answers the same rollup configuration, and
  the JSON reader of forge gives back the object that was printed.
\<close>

theorem deployed_config_is_accepted:
  assumes script: "update_l2oo_config ps env post node fs rl block_time sha256 pk workspace_root pretty s
      = (Inr u, s')"
    and root: "\<And>k. workspace_root k = Inr root"
    and json: "\<And>c. parse (pretty (l2oo_json c)) = Some (l2oo_json c)"
    and deployer: "read_l2oo_json parse (files s') (path_join root ''contracts'') ''opsuccinctl2ooconfig.json''
      = Some d"
    and stable: "\<And>w k v c. post w (rpc_request ''optimism_rollupConfig'' []) k = Inr v \<Longrightarrow>
      rl_decode rl (json_index v ''result'') = Some c \<Longrightarrow> c = cfg"
    and started: "proposer_new dbenv rc loop_interval (pk_range_hash_u32 pk) (of_hex (pk_agg_bytes32 pk))
      (Some (hash_rollup_config sha256 rl cfg)) w = (Inr pc, w')"
    and name: "rc_config_name_hash (p_config p) = keccak (as_bytes ''opsuccinct_genesis'')"
    and contract: "op_succinct_configs (p_contracts p) (rc_config_name_hash (p_config p)) (tick t)
      = Inr (initialize_configs keccak d configs (rc_config_name_hash (p_config p)))"
  shows "fst (validate_contract_config p t) = Inr () \<longleftrightarrow> p_commitments p = commitments pc"
proof -
  obtain config where written: "files s' (path_join root ''contracts/opsuccinctl2ooconfig.json'')
      = Some (pretty (l2oo_json config))"
    and config: "lo_rollup_config_hash config = ''0x'' @ hex_encode (hash_rollup_config sha256 rl cfg)"
      "lo_aggregation_vkey config = pk_agg_bytes32 pk"
      "lo_range_vkey_commitment config = ''0x'' @ hex_encode (u32_to_u8 (pk_range_hash_u32 pk))"
    using update_l2oo_config_written [OF script root] stable by metis
  have "abi_decode_l2oo (parse_json_values (l2oo_json config)) = Some d"
    using deployer unfolding read_l2oo_json_def path_join_contracts written by (simp add: json)
  from abi_decode_l2oo_configs [OF this] have "initialize_configs keccak d configs (rc_config_name_hash (p_config p))
      = \<lparr>sc_aggregation_vkey = of_hex (pk_agg_bytes32 pk),
         sc_range_vkey_commitment = u32_to_u8 (pk_range_hash_u32 pk),
         sc_rollup_config_hash = hash_rollup_config sha256 rl cfg\<rparr>"
    by (simp only: initialize_configs_def name fun_upd_same config of_hex_encode)
  moreover have "commitments pc = \<lparr>cc_range_vkey_commitment = u32_to_u8 (pk_range_hash_u32 pk),
      cc_agg_vkey_hash = of_hex (pk_agg_bytes32 pk), cc_rollup_config_hash = hash_rollup_config sha256 rl cfg\<rparr>"
    using started by (auto simp: proposer_new_def andThen_eq_Ok lift_def ret_def unwrap_def)
  ultimately show ?thesis
    using contract
    by (cases "p_commitments p") (auto simp: validate_contract_config_def andThen_def call_def ret_def throw_def)
qed

text \<open>
  A deployment for the witness: a node with rollup configuration 8 and one output, all addresses in
  the environment, keys of the programs, a hash that is constant, and the printer of JsonRpc.
\<close>

definition sample_keys :: prover_keys where
  "sample_keys = \<lparr>pk_agg_bytes32 = ''0x'' @ hex_encode (replicate 32 10), pk_range_hash_u32 = [1, 2, 3, 4, 5, 6, 7, 8]\<rparr>"

definition deploy_address :: string where "deploy_address = ''0x'' @ hex_encode (replicate 20 1)"

definition deploy_environment :: environment where
  "deploy_environment = sample_urls(''STARTING_BLOCK_NUMBER'' \<mapsto> ''5'', ''PROPOSER'' \<mapsto> deploy_address,
     ''OWNER'' \<mapsto> deploy_address, ''CHALLENGER'' \<mapsto> deploy_address, ''PROXY_ADMIN'' \<mapsto> deploy_address,
     ''OP_SUCCINCT_L2_OUTPUT_ORACLE_IMPL'' \<mapsto> deploy_address)"

definition deploy_root :: string where "deploy_root = ''0x'' @ hex_encode (replicate 32 5)"

definition deploy_post :: http_post where
  "deploy_post w req k = Inr (JObj [(''result'',
     if req = rpc_request ''optimism_rollupConfig'' [] then JNum 8
     else JObj [(''outputRoot'', JStr deploy_root), (''blockRef'', JObj [(''timestamp'', JNum 7)])])])"

definition deploy_l2oo :: l2oo_config where
  "deploy_l2oo =
     \<lparr>lo_aggregation_vkey = pk_agg_bytes32 sample_keys, lo_challenger = deploy_address,
      lo_fallback_timeout_secs = two_weeks_in_seconds, lo_finalization_period = 60 * 60, lo_l2_block_time = 2,
      lo_op_succinct_l2_output_oracle_impl = deploy_address, lo_owner = deploy_address,
      lo_proposer = deploy_address, lo_proxy_admin = deploy_address,
      lo_range_vkey_commitment = ''0x'' @ hex_encode (u32_to_u8 (pk_range_hash_u32 sample_keys)),
      lo_rollup_config_hash = ''0x'' @ hex_encode (replicate 32 9), lo_starting_block_number = 5,
      lo_starting_output_root = deploy_root, lo_starting_timestamp = 7, lo_submission_interval = 10,
      lo_verifier = ''0x397A5f7f3dBd538f23DE225B51f532c34448dA9B''\<rparr>"

definition deploy_keys :: "string list" where "deploy_keys = json_keys (l2oo_json deploy_l2oo)"

lemma length_hex_encode [simp]: "length (hex_encode bs) = 2 * length bs"
  by (induction bs) (simp_all add: hex_encode_def hex_byte_def)

lemma deploy_json: "read_scalars deploy_keys (print_scalars (l2oo_json c)) = Some (l2oo_json c)"
proof -
  obtain kvs where kvs: "l2oo_json c = JObj kvs" "map fst kvs = deploy_keys" "\<forall>(k, v) \<in> set kvs. is_scalar v"
    by (simp add: l2oo_json_def struct_json_def deploy_keys_def)
  show ?thesis using read_print_scalars [OF kvs(3)] by (simp add: kvs(1,2))
qed

definition deploy_shared_config :: shared_config_data where
  "deploy_shared_config =
     \<lparr>scd_rollup_config_hash = ''0x'' @ hex_encode (replicate 32 9),
      scd_aggregation_vkey = pk_agg_bytes32 sample_keys,
      scd_range_vkey_commitment = ''0x'' @ hex_encode (u32_to_u8 (pk_range_hash_u32 sample_keys)),
      scd_verifier_address = ''0x397A5f7f3dBd538f23DE225B51f532c34448dA9B'',
      scd_use_sp1_mock_verifier = False\<rparr>"

lemma deploy_fetcher:
  "\<exists>f s1. new_with_rollup_config sample_parsers deploy_environment deploy_post sample_fs sample_rollup_lib
     (s :: 'z disk_scheme) = (Inr f, s1) \<and> df_rollup_config f = Some 8"
  by (simp add: new_with_rollup_config_def fetch_and_save_rollup_config_def
      fetch_rpc_data_def rpc_result_def andThen_def lift_def ret_def call_def Let_def get_rpcs_def
      deploy_environment_def sample_urls_def deploy_post_def sample_fs_def sample_rollup_lib_def sample_parsers_def
      json_index_def write_file_def update_def is_u64_def u64_max_def unwrap_def)

lemma deploy_shared:
  "\<exists>s1. get_shared_config_data sample_parsers deploy_environment deploy_post sample_fs sample_rollup_lib
     (\<lambda>_. replicate 32 9) sample_keys (s :: 'z disk_scheme) = (Inr deploy_shared_config, s1)"
proof -
  obtain f s1 where "new_with_rollup_config sample_parsers deploy_environment deploy_post sample_fs
      sample_rollup_lib s = (Inr f, s1)" "df_rollup_config f = Some 8"
    using deploy_fetcher by blast
  moreover have "parse_bool ''false'' = Some False" by code_simp
  ultimately show ?thesis
    by (simp add: get_shared_config_data_def deploy_shared_config_def hash_rollup_config_def andThen_def lift_def
        ret_def Let_def unwrap_def deploy_environment_def sample_urls_def)
qed

lemma deploy_config:
  assumes "df_rollup_config f = Some 8"
  shows "\<exists>s1. l2oo_config_of sample_parsers deploy_environment deploy_post node (\<lambda>_. 2) f
    deploy_shared_config (s :: 'z disk_scheme) = (Inr deploy_l2oo, s1)"
proof -
  have "parse_u64 ''5'' = Some 5" by code_simp
  then show ?thesis
    using assms
    by (simp add: l2oo_config_of_def env_unwrap_def get_address_def starting_block_def output_at_block_json_def
      fetch_rpc_data_with_mode_def fetch_rpc_data_def rpc_result_def andThen_def lift_def ret_def call_def
      deploy_environment_def sample_urls_def deploy_post_def rpc_request_def deploy_l2oo_def deploy_shared_config_def unwrap_def
      json_index_def is_u64_def u64_max_def)
qed

lemma deploy_run:
  fixes s :: "'z disk_scheme"
  shows "\<exists>s'. update_l2oo_config sample_parsers deploy_environment deploy_post node sample_fs sample_rollup_lib (\<lambda>_. 2)
      (\<lambda>_. replicate 32 9) sample_keys (\<lambda>_. Inr ''/w'') print_scalars s = (Inr (), s')
    \<and> files s' (path_join ''/w'' ''contracts/opsuccinctl2ooconfig.json'') = Some (print_scalars (l2oo_json deploy_l2oo))"
proof -
  obtain f and s1 :: "'z disk_scheme" where 1: "new_with_rollup_config sample_parsers deploy_environment deploy_post
      sample_fs sample_rollup_lib s = (Inr f, s1)" "df_rollup_config f = Some 8"
    using deploy_fetcher by blast
  obtain s2 :: "'z disk_scheme" where 2: "get_shared_config_data sample_parsers deploy_environment deploy_post
      sample_fs sample_rollup_lib (\<lambda>_. replicate 32 9) sample_keys s1 = (Inr deploy_shared_config, s2)"
    using deploy_shared by blast
  obtain s3 :: "'z disk_scheme" where 3: "l2oo_config_of sample_parsers deploy_environment deploy_post node
      (\<lambda>_. 2) f deploy_shared_config (s2\<lparr>tick := Suc (tick s2)\<rparr>) = (Inr deploy_l2oo, s3)"
    using deploy_config [OF 1(2)] by blast
  have "path_parent (path_join ''/w'' ''contracts/opsuccinctl2ooconfig.json'') = Some ''/w/contracts''"
    by code_simp
  then have "\<exists>s'. write_config_file sample_fs print_scalars (l2oo_json deploy_l2oo)
      (path_join ''/w'' ''contracts/opsuccinctl2ooconfig.json'') s3 = (Inr (), s')"
    by (simp add: write_config_file_def write_file_def sample_fs_def andThen_def call_def ret_def update_def)
  then obtain s' where 4: "write_config_file sample_fs print_scalars (l2oo_json deploy_l2oo)
      (path_join ''/w'' ''contracts/opsuccinctl2ooconfig.json'') s3 = (Inr (), s')"
    by blast
  show ?thesis
    using 1(1) 2 3 4 write_config_file_Ok [OF 4] by (simp add: update_l2oo_config_def andThen_def call_def)
qed

lemma deploy_decoded:
  "\<exists>d. abi_decode_l2oo (parse_json_values (l2oo_json deploy_l2oo)) = Some d"
  unfolding abi_decode_l2oo_def parse_l2oo_values
  by (simp add: deploy_l2oo_def abi_fixed_bytes_def abi_uint256_def deploy_address_def deploy_root_def
      sample_keys_def two_weeks_in_seconds_def)

lemma sample_start:
  "\<exists>pc w'. proposer_new sample_db sample_config 60 (pk_range_hash_u32 sample_keys)
      (of_hex (pk_agg_bytes32 sample_keys))
      (Some (hash_rollup_config (\<lambda>_. replicate 32 9) sample_rollup_lib 8)) empty_world = (Inr pc, w')
    \<and> cc_agg_vkey_hash (commitments pc) = replicate 32 10"
  by (simp add: proposer_new_def acquire_chain_lock_def is_chain_locked_def add_chain_lock_def andThen_def
      lift_def pg_interval_def db_read_def db_exec_def ret_def empty_world_def unwrap_def i64_max_def
      sample_keys_def of_hex_def hex_pairs_encode)

theorem deployed_config_is_accepted_witness:
  "\<exists>(p :: (single_chain_host, unit, unit) proposer) (q :: (single_chain_host, unit, unit) proposer).
     cc_agg_vkey_hash (p_commitments p) = replicate 32 10
     \<and> fst (validate_contract_config p (sample_state [])) = Inr ()
     \<and> p_contracts q = p_contracts p \<and> cc_agg_vkey_hash (p_commitments q) = []
     \<and> fst (validate_contract_config q (sample_state [])) \<noteq> Inr ()"
proof -
  obtain s' where run: "update_l2oo_config sample_parsers deploy_environment deploy_post sample_env sample_fs
      sample_rollup_lib (\<lambda>_. 2) (\<lambda>_. replicate 32 9) sample_keys (\<lambda>_. Inr ''/w'') print_scalars
      (\<lparr>tick = 0, files = Map.empty\<rparr> :: disk) = (Inr (), s')"
    and written: "files s' (path_join ''/w'' ''contracts/opsuccinctl2ooconfig.json'')
      = Some (print_scalars (l2oo_json deploy_l2oo))"
    using deploy_run by blast
  obtain d where "abi_decode_l2oo (parse_json_values (l2oo_json deploy_l2oo)) = Some d"
    using deploy_decoded by blast
  then have read: "read_l2oo_json (read_scalars deploy_keys) (files s') (path_join ''/w'' ''contracts'')
      ''opsuccinctl2ooconfig.json'' = Some d"
    unfolding read_l2oo_json_def path_join_contracts written by (simp add: deploy_json)
  obtain pc w' where start: "proposer_new sample_db sample_config 60 (pk_range_hash_u32 sample_keys)
      (of_hex (pk_agg_bytes32 sample_keys))
      (Some (hash_rollup_config (\<lambda>_. replicate 32 9) sample_rollup_lib 8)) empty_world = (Inr pc, w')"
    and agg: "cc_agg_vkey_hash (commitments pc) = replicate 32 10"
    using sample_start by blast
  have stable: "deploy_post w (rpc_request ''optimism_rollupConfig'' []) k = Inr v \<Longrightarrow>
      rl_decode sample_rollup_lib (json_index v ''result'') = Some c \<Longrightarrow> c = 8" for w k v c
    by (auto simp: deploy_post_def sample_rollup_lib_def json_index_def split: if_splits)
  let ?configs = "initialize_configs (\<lambda>_. rc_config_name_hash (p_config sample_proposer)) d
    (\<lambda>_. \<lparr>sc_aggregation_vkey = [], sc_range_vkey_commitment = [], sc_rollup_config_hash = []\<rparr>)"
  let ?p = "\<lambda>c. sample_proposer\<lparr>p_requester := (p_requester sample_proposer)\<lparr>pr_program_config := c\<rparr>,
      p_contracts := sample_contracts\<lparr>op_succinct_configs := \<lambda>name _. Inr (?configs name)\<rparr>\<rparr>"
  let ?other = "pc\<lparr>commitments := (commitments pc)\<lparr>cc_agg_vkey_hash := []\<rparr>\<rparr>"
  note accepted = deployed_config_is_accepted [OF run refl deploy_json read stable start, where t = "sample_state []"]
  have "fst (validate_contract_config (?p pc) (sample_state [])) = Inr ()"
    by (subst accepted [where keccak = "\<lambda>_. rc_config_name_hash (p_config sample_proposer)"]) simp_all
  moreover have "fst (validate_contract_config (?p ?other) (sample_state [])) \<noteq> Inr ()"
    using agg by (subst accepted [where keccak = "\<lambda>_. rc_config_name_hash (p_config sample_proposer)"])
      (auto simp: fun_eq_iff dest: arg_cong [where f = cc_agg_vkey_hash])
  moreover have "cc_agg_vkey_hash (p_commitments (?p pc)) = replicate 32 10"
      "p_contracts (?p ?other) = p_contracts (?p pc)" "cc_agg_vkey_hash (p_commitments (?p ?other)) = []"
    using agg by simp_all
  ultimately show ?thesis by blast
qed

end
