(* ===== verification/CostEstimator.thy ===== *)
theory CostEstimator
  imports Stats BlockRange Host JsonRpc
begin

text \<open>
  The cost estimator, \<open>scripts/utils/bin/cost_estimator.rs\<close>, with its arguments of
  \<open>scripts/utils/src/lib.rs\<close>: it splits a range, executes the pieces in parallel, lets every worker
  append a row to one report file, reads the report back and aggregates it. A worker reads the length
  of the file and writes to it in two steps; a schedule says in which order the workers take theirs.
  A report is a list of lines: what the csv crate writes for a record is \<open>Row\<close>, and its flush appends
  header and row in one write.
\<close>

subsection \<open>The report file\<close>

datatype report_line = Header_Line | Row range_execution_stats

fun parse_rows :: "report_line list \<Rightarrow> range_execution_stats list res" where
  "parse_rows [] = Ok []"
| "parse_rows (Header_Line # ls) = Err (Msg ''CSV deserialize error'')"
| "parse_rows (Row st # ls) = res_bind (parse_rows ls) (\<lambda>sts. Ok (st # sts))"

text \<open>The reader takes the first line for the header, which names the fields of the others.\<close>

fun read_report :: "report_line list \<Rightarrow> range_execution_stats list res" where
  "read_report [] = Ok []"
| "read_report (Header_Line # ls) = parse_rows ls"
| "read_report [Row _] = Ok []"
| "read_report (Row _ # _ # _) = Err (Msg ''CSV deserialize error'')"

subsection \<open>The workers\<close>

type_synonym 'stdin execution_input = "'stdin \<times> range \<times> block_info list"

datatype worker = Waiting | Writing bool range_execution_stats | Ended | Broken fault

record report_run =
  report :: "report_line list"
  workers :: "worker list"

definition execute_range ::
  "(nat \<Rightarrow> 'stdin \<Rightarrow> error + execution_report) \<Rightarrow> nat \<Rightarrow> 'stdin execution_input \<Rightarrow> bool \<Rightarrow> worker" where
  "execute_range exec i inp file_empty =
     (case exec i (fst inp) of
        Inl err \<Rightarrow> Ended
      | Inr rep \<Rightarrow>
          (case stats_new 0 (snd (snd inp)) rep 0 0 of
             Inl f \<Rightarrow> Broken f
           | Inr execution_stats \<Rightarrow> Writing file_empty execution_stats))"

definition worker_step ::
  "(nat \<Rightarrow> 'stdin \<Rightarrow> error + execution_report) \<Rightarrow> 'stdin execution_input list \<Rightarrow> report_run \<Rightarrow> nat \<Rightarrow> report_run" where
  "worker_step exec inputs r i =
     (if i < length inputs then
        (case workers r ! i of
           Waiting \<Rightarrow> r\<lparr>workers := (workers r)[i := execute_range exec i (inputs ! i) (report r = [])]\<rparr>
         | Writing needs_header st \<Rightarrow>
             r\<lparr>report := report r @ (if needs_header then [Header_Line] else []) @ [Row st],
               workers := (workers r)[i := Ended]\<rparr>
         | _ \<Rightarrow> r)
      else r)"

text \<open>\<open>par_iter().for_each\<close>: the steps of a schedule, and then whatever steps are left.\<close>

definition run_workers ::
  "(nat \<Rightarrow> 'stdin \<Rightarrow> error + execution_report) \<Rightarrow> 'stdin execution_input list \<Rightarrow> nat list \<Rightarrow> report_run" where
  "run_workers exec inputs schedule =
     foldl (worker_step exec inputs) \<lparr>report = [], workers = replicate (length inputs) Waiting\<rparr>
       (schedule @ [0..<length inputs] @ [0..<length inputs])"

definition broken_workers :: "report_run \<Rightarrow> fault list" where
  "broken_workers r = concat (map (\<lambda>w. case w of Broken f \<Rightarrow> [f] | _ \<Rightarrow> []) (workers r))"

definition written_report ::
  "(nat \<Rightarrow> 'stdin \<Rightarrow> error + execution_report) \<Rightarrow> 'stdin execution_input list \<Rightarrow> nat list \<Rightarrow> report_line list res" where
  "written_report exec inputs schedule =
     (let r = run_workers exec inputs schedule in
      case broken_workers r of f # _ \<Rightarrow> Inl f | [] \<Rightarrow> Ok (report r))"

definition reported_stats ::
  "(nat \<Rightarrow> 'stdin \<Rightarrow> error + execution_report) \<Rightarrow> 'stdin execution_input list \<Rightarrow> nat list \<Rightarrow> range_execution_stats res" where
  "reported_stats exec inputs schedule =
     res_bind (written_report exec inputs schedule) (\<lambda>lines.
     res_bind (read_report lines) (\<lambda>final_execution_stats.
       aggregate_execution_stats final_execution_stats 0 0))"

subsection \<open>The command\<close>

record host_executor_args =
  ha_start :: "int option"
  ha_end :: "int option"
  ha_batch_size :: int
  ha_use_cache :: bool
  ha_rolling :: bool
  ha_default_range :: int
  ha_env_file :: string
  ha_prove :: bool
  ha_safe_db_fallback :: bool

text \<open>
  What the command line tools run in: environment variables, file system, nodes, the host that the
  build features select, the zkVM executor (by worker), and the directory of the workspace.
\<close>

record ('cfg, 's, 'args, 'wit, 'stdin) tool_env =
  tl_parsers :: parsers
  tl_environ :: environment
  tl_post :: http_post
  tl_fs :: fs_env
  tl_exists :: "string \<Rightarrow> nat \<Rightarrow> bool"
  tl_root :: string
  tl_open_csv :: "string \<Rightarrow> nat \<Rightarrow> error + unit"
  tl_lib :: "'cfg rollup_lib"
  tl_rpc :: rpc_env
  tl_host :: "'cfg data_fetcher \<Rightarrow> ('s, 'args, 'wit, 'stdin) succinct_host"
  tl_execute :: "nat \<Rightarrow> 'stdin \<Rightarrow> error + execution_report"

definition open_fetcher ::
  "('cfg, 'z disk_scheme, 'args, 'wit, 'stdin) tool_env \<Rightarrow> ('z disk_scheme, 'cfg data_fetcher) op" where
  "open_fetcher t = new_with_rollup_config (tl_parsers t) (tl_environ t) (tl_post t) (tl_fs t) (tl_lib t)"

definition expect_op :: "string \<Rightarrow> ('s, 'a) op \<Rightarrow> ('s, 'a) op" where
  "expect_op msg m = onErr m ret (\<lambda>_. throw (Panic msg))"

definition witness_stdin ::
  "('s, 'args, 'wit, 'stdin) succinct_host \<Rightarrow> 'args \<Rightarrow> ('s, 'stdin) op" where
  "witness_stdin h host_args =
     andThen (expect_op ''unwrap'' (host_run h host_args)) (\<lambda>witness_data.
       case host_sp1_stdin h witness_data of
         Inl e \<Rightarrow> throw (Panic ''unwrap'')
       | Inr stdin \<Rightarrow> ret stdin)"

definition report_dir :: "('cfg, 's, 'args, 'wit, 'stdin) tool_env \<Rightarrow> int \<Rightarrow> string" where
  "report_dir t chain = path_join (tl_root t) (''execution-reports/'' @ show_u64 chain)"

definition report_path :: "('cfg, 's, 'args, 'wit, 'stdin) tool_env \<Rightarrow> int \<Rightarrow> int \<Rightarrow> int \<Rightarrow> string" where
  "report_path t chain start end =
     report_dir t chain @ ''/'' @ show_u64 start @ ''-'' @ show_u64 end @ ''-report.csv''"

text \<open>The report as the workers leave it is returned, since \<open>main\<close> opens the same path again.\<close>

definition execute_blocks_and_write_stats_csv ::
  "('cfg, 'z disk_scheme, 'args, 'wit, 'stdin) tool_env \<Rightarrow> ('z disk_scheme, 'args, 'wit, 'stdin) succinct_host
     \<Rightarrow> nat list \<Rightarrow> 'args list \<Rightarrow> range list \<Rightarrow> int \<Rightarrow> int \<Rightarrow> int \<Rightarrow> ('z disk_scheme, report_line list) op" where
  "execute_blocks_and_write_stats_csv t h schedule host_args ranges chain start end =
     andThen (open_fetcher t) (\<lambda>_.
     andThen (traverse (\<lambda>r.
         andThen (expect_op ''Failed to fetch block data range.''
             (get_l2_block_data_range (tl_rpc t) (fst r) (snd r))) (\<lambda>block_data. ret (r, block_data))) ranges)
       (\<lambda>block_data.
     andThen (call (\<lambda>k. Inr (tl_exists t (report_dir t chain) k))) (\<lambda>parent_exists.
     andThen (if parent_exists then ret ()
         else expect_op ''unwrap'' (call (fs_create_dir_all (tl_fs t) (report_dir t chain)))) (\<lambda>_.
     andThen (expect_op ''unwrap'' (write_file (tl_fs t) (report_path t chain start end) [])) (\<lambda>_.
     andThen (traverse (witness_stdin h) host_args) (\<lambda>stdins.
       lift (written_report (tl_execute t) (zip stdins block_data) schedule)))))))"

definition cost_estimator_main ::
  "('cfg, 'z disk_scheme, 'args, 'wit, 'stdin) tool_env \<Rightarrow> nat list \<Rightarrow> host_executor_args
     \<Rightarrow> ('z disk_scheme, range_execution_stats) op" where
  "cost_estimator_main t schedule args =
     andThen (open_fetcher t) (\<lambda>data_fetcher.
     andThen (get_l2_chain_id (tl_rpc t)) (\<lambda>chain.
     andThen (if ha_rolling args
         then get_rolling_block_range (tl_rpc t) (60 * 60 * 24 * 7) (ha_default_range args)
         else get_validated_block_range (tl_rpc t) (ha_start args) (ha_end args) (ha_default_range args))
       (\<lambda>(l2_start_block, l2_end_block).
     andThen (is_safe_db_activated (tl_rpc t)) (\<lambda>safe_db_activated.
     andThen (if safe_db_activated
         then split_range_based_on_safe_heads (tl_rpc t) l2_start_block l2_end_block (ha_batch_size args)
         else case split_range_basic l2_start_block l2_end_block (ha_batch_size args) of
                None \<Rightarrow> throw Diverged | Some ranges \<Rightarrow> ret ranges) (\<lambda>split_ranges.
     andThen (traverse (\<lambda>r. expect_op ''Failed to get host CLI args''
         (host_fetch (tl_host t data_fetcher) (fst r) (snd r) None (ha_safe_db_fallback args))) split_ranges)
       (\<lambda>host_args.
     andThen (execute_blocks_and_write_stats_csv t (tl_host t data_fetcher) schedule host_args split_ranges
         chain l2_start_block l2_end_block) (\<lambda>lines.
     andThen (call (tl_open_csv t (report_path t chain l2_start_block l2_end_block))) (\<lambda>_.
     andThen (lift (read_report lines)) (\<lambda>final_execution_stats.
       lift (aggregate_execution_stats final_execution_stats 0 0))))))))))"

subsection \<open>What every schedule writes\<close>

fun row_of :: "report_line \<Rightarrow> range_execution_stats list" where
  "row_of Header_Line = []"
| "row_of (Row st) = [st]"

definition rows :: "report_line list \<Rightarrow> range_execution_stats list" where
  "rows ls = concat (map row_of ls)"

lemma rows_simps [simp]: "rows [] = []" "rows (l # ls) = row_of l @ rows ls" "rows (xs @ ys) = rows xs @ rows ys"
  by (simp_all add: rows_def)

lemma parse_rows_eq:
  "parse_rows ls = (if Header_Line \<in> set ls then Err (Msg ''CSV deserialize error'') else Ok (rows ls))"
  by (induction ls rule: parse_rows.induct) auto

text \<open>The row that worker \<open>i\<close> has to write, if its execution succeeds.\<close>

definition outcome ::
  "(nat \<Rightarrow> 'stdin \<Rightarrow> error + execution_report) \<Rightarrow> 'stdin execution_input list \<Rightarrow> nat \<Rightarrow> range_execution_stats option" where
  "outcome exec inputs i =
     (case exec i (fst (inputs ! i)) of
        Inl _ \<Rightarrow> None
      | Inr rep \<Rightarrow> (case stats_new 0 (snd (snd (inputs ! i))) rep 0 0 of Inl _ \<Rightarrow> None | Inr st \<Rightarrow> Some st))"

definition report_inv ::
  "(nat \<Rightarrow> 'stdin \<Rightarrow> error + execution_report) \<Rightarrow> 'stdin execution_input list \<Rightarrow> report_run \<Rightarrow> bool" where
  "report_inv exec inputs r \<longleftrightarrow>
     length (workers r) = length inputs
     \<and> (\<forall>i < length inputs. \<forall>h st. workers r ! i = Writing h st \<longrightarrow>
           outcome exec inputs i = Some st \<and> (\<not> h \<longrightarrow> report r \<noteq> []))
     \<and> (\<forall>i < length inputs. workers r ! i = Ended \<longrightarrow>
           outcome exec inputs i = None \<longrightarrow> (\<exists>e. exec i (fst (inputs ! i)) = Inl e))
     \<and> (report r \<noteq> [] \<longrightarrow> List.hd (report r) = Header_Line)
     \<and> (\<exists>order. distinct order
          \<and> set order = {i. i < length inputs \<and> workers r ! i = Ended \<and> outcome exec inputs i \<noteq> None}
          \<and> rows (report r) = map (\<lambda>i. the (outcome exec inputs i)) order)"

lemma execute_range_cases:
  "execute_range exec i (inputs ! i) file_empty =
     (case outcome exec inputs i of
        Some st \<Rightarrow> Writing file_empty st
      | None \<Rightarrow> (if \<exists>rep f. exec i (fst (inputs ! i)) = Inr rep \<and> stats_new 0 (snd (snd (inputs ! i))) rep 0 0 = Inl f
                 then Broken (projl (stats_new 0 (snd (snd (inputs ! i))) (projr (exec i (fst (inputs ! i)))) 0 0))
                 else Ended))"
  by (auto simp: execute_range_def outcome_def split: sum.splits)
lemma report_inv_start:
  "report_inv exec inputs \<lparr>report = [], workers = replicate (length inputs) Waiting\<rparr>"
  by (auto simp: report_inv_def intro: exI [of _ "[]"])

lemma report_inv_step:
  assumes "report_inv exec inputs r"
  shows "report_inv exec inputs (worker_step exec inputs r i)"
proof (cases "i < length inputs")
  case True
  note i = \<open>i < length inputs\<close>
  obtain order where order: "distinct order"
    "set order = {i. i < length inputs \<and> workers r ! i = Ended \<and> outcome exec inputs i \<noteq> None}"
    "rows (report r) = map (\<lambda>i. the (outcome exec inputs i)) order"
    using assms by (auto simp: report_inv_def)
  have len: "length (workers r) = length inputs"
    and writing: "\<And>j h st. j < length inputs \<Longrightarrow> workers r ! j = Writing h st \<Longrightarrow>
      outcome exec inputs j = Some st \<and> (\<not> h \<longrightarrow> report r \<noteq> [])"
    and failed: "\<And>j. j < length inputs \<Longrightarrow> workers r ! j = Ended \<Longrightarrow> outcome exec inputs j = None \<Longrightarrow>
      \<exists>e. exec j (fst (inputs ! j)) = Inl e"
    and head: "report r \<noteq> [] \<longrightarrow> List.hd (report r) = Header_Line"
    using assms by (auto simp: report_inv_def)
  show ?thesis
  proof (cases "workers r ! i")
    case Waiting
    let ?w = "execute_range exec i (inputs ! i) (report r = [])"
    have w: "?w = Ended \<Longrightarrow> outcome exec inputs i = None \<and> (\<exists>e. exec i (fst (inputs ! i)) = Inl e)"
      "\<And>h st. ?w = Writing h st \<Longrightarrow> outcome exec inputs i = Some st \<and> (\<not> h \<longrightarrow> report r \<noteq> [])"
      by (auto simp: execute_range_def outcome_def split: sum.splits)
    have same: "{j. j < length inputs \<and> (workers r)[i := ?w] ! j = Ended \<and> outcome exec inputs j \<noteq> None} = set order"
      using w(1) Waiting len i by (auto simp: order(2) nth_list_update)
    show ?thesis
      unfolding report_inv_def worker_step_def using i Waiting len head w writing failed order(1,3) same
      by (auto simp: nth_list_update)
  next
    case (Writing h st)
    have st: "outcome exec inputs i = Some st" "\<not> h \<longrightarrow> report r \<noteq> []" using writing [OF i Writing] by simp_all
    let ?o = "order @ [i]"
    have "i \<notin> set order" using Writing by (simp add: order(2))
    then have "distinct ?o" using order(1) by simp
    moreover have "set ?o =
        {j. j < length inputs \<and> (workers r)[i := Ended] ! j = Ended \<and> outcome exec inputs j \<noteq> None}"
      using i len st(1) by (auto simp: order(2) nth_list_update)
    moreover have "rows (report r @ (if h then [Header_Line] else []) @ [Row st]) =
        map (\<lambda>i. the (outcome exec inputs i)) ?o"
      using st(1) by (simp add: order(3))
    ultimately show ?thesis
      unfolding report_inv_def worker_step_def using i Writing len head writing failed st
      by (auto simp: nth_list_update hd_append intro!: exI [of _ ?o])
  qed (use assms in \<open>simp_all add: worker_step_def\<close>)
qed (use assms in \<open>simp add: worker_step_def\<close>)

lemma report_inv_run: "report_inv exec inputs r \<Longrightarrow> report_inv exec inputs (foldl (worker_step exec inputs) r is)"
  by (induction "is" arbitrary: r) (simp_all add: report_inv_step)

text \<open>A worker takes at most two steps, and never goes back.\<close>

fun steps_left :: "worker \<Rightarrow> nat" where
  "steps_left Waiting = 2"
| "steps_left (Writing _ _) = 1"
| "steps_left _ = 0"

lemma execute_range_steps: "steps_left (execute_range exec i inp file_empty) \<le> 1"
  by (auto simp: execute_range_def split: sum.splits)

lemma worker_step_left:
  assumes "length (workers r) = length inputs"
  shows "length (workers (worker_step exec inputs r i)) = length inputs
    \<and> (j < length inputs \<longrightarrow>
        steps_left (workers (worker_step exec inputs r i) ! j) \<le> steps_left (workers r ! j) - (if i = j then 1 else 0))"
  using assms execute_range_steps [of exec i "inputs ! i"]
  by (auto simp: worker_step_def nth_list_update split: worker.splits)

lemma run_left:
  assumes "length (workers r) = length inputs"
  shows "length (workers (foldl (worker_step exec inputs) r is)) = length inputs
    \<and> (j < length inputs \<longrightarrow>
        steps_left (workers (foldl (worker_step exec inputs) r is) ! j)
          \<le> steps_left (workers r ! j) - (if j \<in> set is then 1 else 0))"
  using assms
proof (induction "is" arbitrary: r)
  case (Cons i "is")
  let ?r = "worker_step exec inputs r i"
  have step: "length (workers ?r) = length inputs"
    "j < length inputs \<longrightarrow> steps_left (workers ?r ! j) \<le> steps_left (workers r ! j) - (if i = j then 1 else 0)"
    using worker_step_left [OF Cons.prems] by blast+
  show ?case using Cons.IH [OF step(1)] step(2) by (auto split: if_splits)
qed simp

lemma run_workers_done:
  assumes "j < length inputs"
  shows "length (workers (run_workers exec inputs schedule)) = length inputs
    \<and> steps_left (workers (run_workers exec inputs schedule) ! j) = 0"
proof -
  let ?r0 = "\<lparr>report = [], workers = replicate (length inputs) Waiting\<rparr>"
  let ?f = "foldl (worker_step exec inputs)" and ?all = "[0..<length inputs]"
  let ?r1 = "?f ?r0 schedule" and ?r2 = "?f (?f ?r0 schedule) ?all"
  have r1: "length (workers ?r1) = length inputs" "steps_left (workers ?r1 ! j) \<le> 2"
    using run_left [of ?r0 inputs exec schedule j] assms by (auto split: if_splits)
  have r2: "length (workers ?r2) = length inputs" "steps_left (workers ?r2 ! j) \<le> 1"
    using run_left [OF r1(1), of exec ?all j] r1(2) assms by auto
  have "length (workers (?f ?r2 ?all)) = length inputs" "steps_left (workers (?f ?r2 ?all) ! j) \<le> 0"
    using run_left [OF r2(1), of exec ?all j] r2(2) assms by auto
  then show ?thesis by (simp add: run_workers_def)
qed

lemma report_inv_workers: "report_inv exec inputs (run_workers exec inputs schedule)"
  unfolding run_workers_def by (intro report_inv_run report_inv_start)

lemma run_workers_ended:
  assumes "broken_workers (run_workers exec inputs schedule) = []" and "j < length inputs"
  shows "workers (run_workers exec inputs schedule) ! j = Ended"
proof -
  let ?r = "run_workers exec inputs schedule"
  have "length (workers ?r) = length inputs" "steps_left (workers ?r ! j) = 0"
    using run_workers_done [OF assms(2)] by blast+
  moreover from this(1) have "workers ?r ! j \<in> set (workers ?r)" using assms(2) by simp
  ultimately show ?thesis using assms(1) by (cases "workers ?r ! j") (auto simp: broken_workers_def)
qed

lemma run_workers_rows:
  assumes "broken_workers (run_workers exec inputs schedule) = []"
  shows "mset (rows (report (run_workers exec inputs schedule))) =
      mset (map (\<lambda>i. the (outcome exec inputs i)) (filter (\<lambda>i. outcome exec inputs i \<noteq> None) [0..<length inputs]))"
    and "report (run_workers exec inputs schedule) \<noteq> [] \<longrightarrow>
      List.hd (report (run_workers exec inputs schedule)) = Header_Line"
proof -
  let ?r = "run_workers exec inputs schedule"
  note inv = report_inv_workers [of exec inputs schedule]
  then show "report ?r \<noteq> [] \<longrightarrow> List.hd (report ?r) = Header_Line" by (simp add: report_inv_def)
  note ended = run_workers_ended [OF assms]
  obtain order where order: "distinct order"
    "set order = {i. i < length inputs \<and> workers ?r ! i = Ended \<and> outcome exec inputs i \<noteq> None}"
    "rows (report ?r) = map (\<lambda>i. the (outcome exec inputs i)) order"
    using inv by (auto simp: report_inv_def)
  let ?all = "filter (\<lambda>i. outcome exec inputs i \<noteq> None) [0..<length inputs]"
  have "set order = set ?all" using ended by (auto simp: order(2))
  then have "mset order = mset ?all" using order(1) set_eq_iff_mset_eq_distinct [of order ?all] by simp
  then show "mset (rows (report ?r)) = mset (map (\<lambda>i. the (outcome exec inputs i)) ?all)"
    unfolding order(3) mset_map by simp
qed

text \<open>One header: no worker is about to write another.\<close>

definition one_header :: "'stdin execution_input list \<Rightarrow> report_run \<Rightarrow> bool" where
  "one_header inputs r \<longleftrightarrow>
     length (workers r) = length inputs \<and> report r \<noteq> [] \<and> Header_Line \<notin> set (List.tl (report r))
     \<and> (\<forall>i < length inputs. \<forall>st. workers r ! i \<noteq> Writing True st)"

lemma one_header_step: "one_header inputs r \<Longrightarrow> one_header inputs (worker_step exec inputs r i)"
  unfolding one_header_def worker_step_def
  by (auto simp: nth_list_update execute_range_def split: worker.splits sum.splits)

lemma one_header_run: "one_header inputs r \<Longrightarrow> one_header inputs (foldl (worker_step exec inputs) r is)"
  by (induction "is" arbitrary: r) (simp_all add: one_header_step)

lemma run_workers_alone:
  assumes "i < length inputs" and "outcome exec inputs i = Some st"
  shows "one_header inputs (run_workers exec inputs (i # i # schedule))"
proof -
  let ?r0 = "\<lparr>report = [], workers = replicate (length inputs) Waiting\<rparr>"
  have "execute_range exec i (inputs ! i) True = Writing True st"
    using assms(2) by (simp add: execute_range_cases)
  then have r: "worker_step exec inputs (worker_step exec inputs ?r0 i) i =
      \<lparr>report = [Header_Line, Row st], workers = (replicate (length inputs) Waiting)[i := Ended]\<rparr>"
    using assms(1) by (simp add: worker_step_def)
  have "one_header inputs (worker_step exec inputs (worker_step exec inputs ?r0 i) i)"
    unfolding r using assms(1) by (auto simp: one_header_def nth_list_update)
  then show ?thesis unfolding run_workers_def by (simp add: one_header_run)
qed

subsection \<open>The order of the rows does not matter\<close>

lemma add_stats_commute: "add_stats x (add_stats y a) = add_stats y (add_stats x a)"
  by (simp add: add_stats_def wrap_u64_add ac_simps)

lemma aggregate_permuted:
  assumes "mset xs = mset ys"
  shows "aggregate_execution_stats xs t w = aggregate_execution_stats ys t w"
proof -
  have fold: "fold f xs a = fold f ys a" if "\<And>x y. f x \<circ> f y = f y \<circ> f x" for f and a :: 'b
    using fold_multiset_equiv [of xs f ys] that assms by simp
  have "fold (\<lambda>st (b, e, a). (min b (st_batch_start st), max e (st_batch_end st), add_stats st a)) xs z =
      fold (\<lambda>st (b, e, a). (min b (st_batch_start st), max e (st_batch_end st), add_stats st a)) ys z" for z
    by (rule fold) (auto simp: fun_eq_iff add_stats_commute ac_simps)
  then show ?thesis unfolding aggregate_execution_stats_def by (simp only:)
qed

subsection \<open>The reported statistics\<close>

lemma all_outcomes:
  assumes "length reps = length inputs" and "\<forall>i < length inputs. exec i (fst (inputs ! i)) = Inr (reps ! i)"
    and "map_res (\<lambda>(data, rep). stats_new 0 data rep 0 0) (zip (map (snd \<circ> snd) inputs) reps) = Ok sts"
  shows "length sts = length inputs" and "i < length inputs \<Longrightarrow> outcome exec inputs i = Some (sts ! i)"
proof -
  have all: "list_all2 (\<lambda>x st. (case x of (data, rep) \<Rightarrow> stats_new 0 data rep 0 0) = Ok st)
      (zip (map (snd \<circ> snd) inputs) reps) sts"
    using assms(3) by (simp only: map_res_Ok_iff)
  then show len: "length sts = length inputs" using assms(1) by (simp add: list_all2_lengthD [symmetric])
  show "outcome exec inputs i = Some (sts ! i)" if "i < length inputs"
    using list_all2_nthD2 [OF all, of i] that len assms(1,2) by (simp add: outcome_def)
qed

lemma outcomes_not_broken:
  assumes "\<And>i. i < length inputs \<Longrightarrow> outcome exec inputs i \<noteq> None"
  shows "broken_workers (run_workers exec inputs schedule) = []"
proof -
  have step: "\<forall>w \<in> set (workers (worker_step exec inputs r i)). \<forall>f. w \<noteq> Broken f"
    if "\<forall>w \<in> set (workers r). \<forall>f. w \<noteq> Broken f" for r i
    using that assms [of i]
    by (auto simp: worker_step_def execute_range_cases dest!: set_update_subset_insert [THEN subsetD]
        split: worker.splits option.splits)
  have run: "\<forall>w \<in> set (workers (foldl (worker_step exec inputs) r is)). \<forall>f. w \<noteq> Broken f"
    if "\<forall>w \<in> set (workers r). \<forall>f. w \<noteq> Broken f" for r "is"
    using that
  proof (induction "is" arbitrary: r)
    case (Cons i "is")
    then show ?case using Cons.IH [OF step [OF Cons.prems]] by simp
  qed simp
  have "\<forall>w \<in> set (workers (run_workers exec inputs schedule)). \<forall>f. w \<noteq> Broken f"
    unfolding run_workers_def by (rule run) simp
  then show ?thesis by (auto simp: broken_workers_def split: worker.splits)
qed

lemma reported_stats_cases:
  fixes schedule :: "nat list"
  assumes "length reps = length inputs" and "\<forall>i < length inputs. exec i (fst (inputs ! i)) = Inr (reps ! i)"
    and "map_res (\<lambda>(data, rep). stats_new 0 data rep 0 0) (zip (map (snd \<circ> snd) inputs) reps) = Ok sts"
    and "inputs \<noteq> []"
  defines "lines \<equiv> report (run_workers exec inputs schedule)"
  shows "lines \<noteq> []"
    and "reported_stats exec inputs schedule =
      (if Header_Line \<in> set (List.tl lines) then Err (Msg ''CSV deserialize error'')
       else aggregate_execution_stats sts 0 0)"
proof -
  note out = all_outcomes [of reps inputs exec sts, OF assms(1-3)]
  have unbroken: "broken_workers (run_workers exec inputs schedule) = []"
    using out(2) by (intro outcomes_not_broken) simp
  have all: "filter (\<lambda>i. outcome exec inputs i \<noteq> None) [0..<length inputs] = [0..<length inputs]"
    using out(2) by (auto simp: filter_id_conv)
  have "map (\<lambda>i. the (outcome exec inputs i)) [0..<length inputs] = sts"
    using out by (auto intro!: nth_equalityI)
  then have rows: "mset (rows lines) = mset sts"
    using run_workers_rows(1) [OF unbroken] unfolding lines_def all by simp
  have "sts \<noteq> []" using out(1) assms(4) by auto
  then show ne: "lines \<noteq> []" using rows by auto
  then have lines: "lines = Header_Line # List.tl lines"
    using run_workers_rows(2) [OF unbroken] unfolding lines_def by (metis list.collapse)
  have "rows (List.tl lines) = rows lines" by (subst (2) lines) simp
  then have agg: "aggregate_execution_stats (rows (List.tl lines)) 0 0 = aggregate_execution_stats sts 0 0"
    using rows by (intro aggregate_permuted) simp
  have "read_report lines = parse_rows (List.tl lines)" by (subst lines) simp
  then show "reported_stats exec inputs schedule =
      (if Header_Line \<in> set (List.tl lines) then Err (Msg ''CSV deserialize error'')
       else aggregate_execution_stats sts 0 0)"
    using agg unbroken
    by (simp add: reported_stats_def written_report_def lines_def [symmetric] parse_rows_eq)
qed

lemma second_header_stays:
  assumes "report r \<noteq> []" and "Header_Line \<in> set (List.tl (report r))"
  shows "report (worker_step exec inputs r i) \<noteq> []
    \<and> Header_Line \<in> set (List.tl (report (worker_step exec inputs r i)))"
  using assms by (auto simp: worker_step_def split: worker.splits)

lemma second_header_run:
  assumes "report r \<noteq> []" and "Header_Line \<in> set (List.tl (report r))"
  shows "Header_Line \<in> set (List.tl (report (foldl (worker_step exec inputs) r is)))"
  using assms
proof (induction "is" arbitrary: r)
  case (Cons i "is")
  note r = second_header_stays [of r exec inputs i, OF Cons.prems]
  show ?case using Cons.IH [of "worker_step exec inputs r i"] r by simp
qed simp

lemma run_workers_clash:
  assumes "1 < length inputs" and "outcome exec inputs 0 = Some a" and "outcome exec inputs 1 = Some b"
  shows "Header_Line \<in> set (List.tl (report (run_workers exec inputs (0 # 1 # 0 # 1 # schedule))))"
proof -
  let ?r0 = "\<lparr>report = [], workers = replicate (length inputs) Waiting\<rparr>"
  have w: "execute_range exec 0 (inputs ! 0) True = Writing True a"
    "execute_range exec 1 (inputs ! 1) True = Writing True b"
    using assms(2,3) by (simp_all add: execute_range_cases)
  have "0 < length inputs" "inputs \<noteq> []" using assms(1) by auto
  then have "report (foldl (worker_step exec inputs) ?r0 [0, 1, 0, 1]) = [Header_Line, Row a, Header_Line, Row b]"
    using assms(1) w by (simp add: worker_step_def nth_list_update)
  then have "Header_Line \<in> set (List.tl (report (foldl (worker_step exec inputs)
      (foldl (worker_step exec inputs) ?r0 [0, 1, 0, 1]) (schedule @ [0..<length inputs] @ [0..<length inputs]))))"
    by - (rule second_header_run, simp_all only:, simp_all)
  then show ?thesis by (simp add: run_workers_def)
qed

definition whole_stats :: "'stdin execution_input list \<Rightarrow> execution_report list \<Rightarrow> range_execution_stats res" where
  "whole_stats inputs reps =
     res_bind (stats_new 0 (concat (map (snd \<circ> snd) inputs)) (sum_reports reps) 0 0)
       (\<lambda>st. Ok (st\<lparr>st_l1_fees := 0, st_total_tx_fees := 0\<rparr>))"

lemma reported_stats_outcome:
  fixes schedule :: "nat list"
  assumes "length reps = length inputs" and "\<forall>i < length inputs. exec i (fst (inputs ! i)) = Inr (reps ! i)"
    and "map_res (\<lambda>(data, rep). stats_new 0 data rep 0 0) (zip (map (snd \<circ> snd) inputs) reps) = Ok sts"
    and "inputs \<noteq> []"
    and "\<forall>b \<in> set (concat (map (snd \<circ> snd) inputs)). 1 \<le> block_number b \<and> block_number b \<le> u64_max"
  shows "reported_stats exec inputs schedule =
      (if Header_Line \<in> set (List.tl (report (run_workers exec inputs schedule)))
       then Err (Msg ''CSV deserialize error'') else whole_stats inputs reps)"
proof -
  let ?pieces = "zip (map (snd \<circ> snd) inputs) reps"
  have pieces: "?pieces \<noteq> []" "map fst ?pieces = map (snd \<circ> snd) inputs" "map snd ?pieces = reps"
    using assms(1,4) by (cases inputs; cases reps; simp)+
  have "aggregate_execution_stats sts 0 0 = whole_stats inputs reps"
    using aggregate_whole [OF assms(3) pieces(1)] assms(5) unfolding pieces(2,3) whole_stats_def by simp
  then show ?thesis
    using reported_stats_cases(2) [of reps inputs exec sts schedule, OF assms(1-4)] by simp
qed

text \<open>A report that is written without a panic holds a row for every range.\<close>

lemma written_report_outcomes:
  assumes "written_report exec inputs schedule = Ok lines" and "\<And>i x. \<exists>rep. exec i x = Inr rep"
  obtains reps sts where "length reps = length inputs"
    "\<forall>i < length inputs. exec i (fst (inputs ! i)) = Inr (reps ! i)"
    "map_res (\<lambda>(data, rep). stats_new 0 data rep 0 0) (zip (map (snd \<circ> snd) inputs) reps) = Ok sts"
proof -
  have unbroken: "broken_workers (run_workers exec inputs schedule) = []"
    using assms(1) by (auto simp: written_report_def Let_def split: list.splits)
  have some: "outcome exec inputs i \<noteq> None" if "i < length inputs" for i
    using report_inv_workers [of exec inputs schedule] run_workers_ended [OF unbroken that] that
      assms(2) [of i "fst (inputs ! i)"] by (auto simp: report_inv_def)
  define reps where "reps = map (\<lambda>i. projr (exec i (fst (inputs ! i)))) [0..<length inputs]"
  have exec: "exec i (fst (inputs ! i)) = Inr (reps ! i)" if "i < length inputs" for i
    using assms(2) [of i "fst (inputs ! i)"] that by (auto simp: reps_def)
  define sts where "sts = map (\<lambda>i. the (outcome exec inputs i)) [0..<length inputs]"
  have "stats_new 0 (snd (snd (inputs ! i))) (reps ! i) 0 0 = Ok (sts ! i)" if i: "i < length inputs" for i
  proof -
    obtain st where st: "outcome exec inputs i = Some st" using some [OF i] by blast
    have "outcome exec inputs i =
        (case stats_new 0 (snd (snd (inputs ! i))) (reps ! i) 0 0 of Inl _ \<Rightarrow> None | Inr st \<Rightarrow> Some st)"
      using exec [OF i] by (simp add: outcome_def)
    then have "stats_new 0 (snd (snd (inputs ! i))) (reps ! i) 0 0 = Ok st"
      using st by (simp split: sum.splits)
    then show ?thesis using st i by (simp add: sts_def)
  qed
  moreover have len: "length reps = length inputs" "length sts = length inputs" by (simp_all add: reps_def sts_def)
  ultimately have "map_res (\<lambda>(data, rep). stats_new 0 data rep 0 0) (zip (map (snd \<circ> snd) inputs) reps) = Ok sts"
    unfolding map_res_Ok_iff by (simp add: list_all2_conv_all_nth)
  moreover have "\<forall>i < length inputs. exec i (fst (inputs ! i)) = Inr (reps ! i)" using exec by blast
  ultimately show ?thesis using len(1) by (intro that)
qed

subsection \<open>The blocks of the pieces\<close>

lemma traverse_Ok:
  assumes "traverse f xs s = (Inr ys, s')" and "\<And>x y t t'. x \<in> set xs \<Longrightarrow> f x t = (Inr y, t') \<Longrightarrow> P x y"
  shows "list_all2 P xs ys"
  using assms by (induction xs arbitrary: s ys) (auto simp: andThen_eq_Ok ret_def)

lemma expect_op_Ok [simp]: "expect_op msg m s = (Inr x, s') \<longleftrightarrow> m s = (Inr x, s')"
  by (auto simp: expect_op_def onErr_def ret_def throw_def split: prod.splits sum.splits fault.splits)

lemma collect_results_Ok: "collect_results rs = Inr xs \<longleftrightarrow> rs = map Inr xs"
  by (induction rs arbitrary: xs rule: collect_results.induct) (auto simp: res_bind_Ok_iff)

lemma block_data_range_numbers:
  assumes "get_l2_block_data_range env a e s = (Inr infos, s')"
  shows "map block_number infos = [wrap_u64 (a + 1)..e]"
proof -
  obtain t where rs: "traverse (\<lambda>n. attempt (fetch_block_info env n)) [wrap_u64 (a + 1)..e] s = (Inr (map Inr infos), t)"
    using assms by (auto simp: get_l2_block_data_range_def andThen_eq_Ok lift_def collect_results_Ok)
  have "block_number b = n" if "attempt (fetch_block_info env n) t = (Inr (Inr b), t')" for n b t t'
    using that by (auto simp: attempt_def onErr_def ret_def fetch_block_info_def andThen_eq_Ok
        split: prod.splits sum.splits fault.splits)
  then have "list_all2 (\<lambda>n (r :: error + block_info). \<forall>b. r = Inr b \<longrightarrow> block_number b = n) [wrap_u64 (a + 1)..e] (map Inr infos)"
    by - (rule traverse_Ok [OF rs], auto)
  then have "list_all2 (\<lambda>n b. block_number b = n) [wrap_u64 (a + 1)..e] infos"
    by (simp add: list_all2_map2)
  then show ?thesis by (induction rule: list_all2_induct) auto
qed

lemma tiles_numbers:
  assumes "tiles a rs b" and "list_all2 (\<lambda>r p. fst p = r \<and> map block_number (snd p) = [fst r + 1..snd r]) rs ps"
  shows "map block_number (concat (map snd ps)) = [a + 1..b]"
  using assms(2,1)
proof (induction arbitrary: a rule: list_all2_induct)
  case (Cons r rs p ps)
  then have r: "fst r = a" "a < snd r" "tiles (snd r) rs b" by auto
  moreover have "[a + 1..b] = [a + 1..snd r] @ [snd r + 1..b]"
    using tiles_le [OF r(3)] r(2) by (intro upto_split2) auto
  ultimately show ?case using Cons.IH [OF r(3)] Cons.hyps(1) by simp
qed simp

lemma stats_cover:
  assumes st: "stats_new l1 data rep w t = Ok st"
    and blocks: "map block_number data = [a + 1..b]" and "0 \<le> a" "a < b" "b \<le> u64_max"
  shows "st_batch_start st = a \<and> st_batch_end st = b \<and> st_nb_blocks st = b - a"
proof -
  note fields = stats_new_Ok [OF st]
  have "length (map block_number data) = length [a + 1..b]" by (simp only: blocks)
  then have "int (length data) = b - a" using assms(4) by simp
  moreover have "block_number ` set data = {a + 1..b}" using blocks by (metis list.set_map set_upto)
  then have "Min (block_number ` set data) = a + 1" "Max (block_number ` set data) = b"
    using assms(4) by (auto intro!: Min_eqI Max_eqI)
  ultimately show ?thesis
    using fields(2,3,10) first_of_sorted [OF fields(1), of block_number] assms(3-5) by (simp add: is_u64_def)
qed

lemma whole_stats_covers:
  assumes "whole_stats inputs reps = Ok st"
    and "map block_number (concat (map (snd \<circ> snd) inputs)) = [a + 1..b]" and "0 \<le> a" "a < b" "b \<le> u64_max"
  shows "st_batch_start st = a \<and> st_batch_end st = b \<and> st_nb_blocks st = b - a"
proof -
  obtain st0 where st0: "stats_new 0 (concat (map (snd \<circ> snd) inputs)) (sum_reports reps) 0 0 = Ok st0"
    and st: "st = st0\<lparr>st_l1_fees := 0, st_total_tx_fees := 0\<rparr>"
    using assms(1) by (auto simp: whole_stats_def res_bind_Ok_iff)
  show ?thesis using stats_cover [OF st0 assms(2-5)] by (simp add: st)
qed

lemma safe_db_off:
  assumes "\<And>n k. \<exists>e. safe_head_at_l1 env n k = Inl e" and "is_safe_db_activated env s = (Inr x, s')"
  shows "\<not> x"
  using assms(2)
  by (auto simp: is_safe_db_activated_def andThen_eq_Ok attempt_def onErr_def call_def ret_def
      split: prod.splits sum.splits fault.splits) (metis assms(1) sum.distinct(1))

lemma validated_range:
  assumes "get_validated_block_range env (Some a) (Some b) d s = (Inr r, s')"
  shows "r = (a, b) \<and> a < b"
  using assms by (auto simp: get_validated_block_range_def andThen_eq_Ok ret_def throw_def split: if_splits)

text \<open>The standard input that the host makes for a range, and a piece of work: that input, the range, and the data of its blocks.\<close>

definition host_input ::
  "('cfg, 'z disk_scheme, 'args, 'wit, 'stdin) tool_env \<Rightarrow> bool \<Rightarrow> range \<Rightarrow> 'stdin \<Rightarrow> bool" where
  "host_input t fallback r x \<longleftrightarrow>
     (\<exists>f args u u' v v'. host_fetch (tl_host t f) (fst r) (snd r) None fallback u = (Inr args, u')
        \<and> witness_stdin (tl_host t f) args v = (Inr x, v'))"

definition work_on_range ::
  "('cfg, 'z disk_scheme, 'args, 'wit, 'stdin) tool_env \<Rightarrow> bool \<Rightarrow> 'stdin execution_input \<Rightarrow> bool" where
  "work_on_range t fallback inp \<longleftrightarrow>
     host_input t fallback (fst (snd inp)) (fst inp)
     \<and> map block_number (snd (snd inp)) = [fst (fst (snd inp)) + 1..snd (fst (snd inp))]"

text \<open>One fetched and executed batch of ranges.\<close>

lemma executed_ranges:
  fixes t :: "('cfg, 'z disk_scheme, 'args, 'wit, 'stdin) tool_env"
  assumes run: "execute_blocks_and_write_stats_csv t h schedule host_args ranges chain a b s = (Inr lines, s')"
    and args: "list_all2 (\<lambda>r g. \<forall>v v' x. witness_stdin h g v = (Inr x, v') \<longrightarrow> host_input t fb r x) ranges host_args"
    and "tiles a ranges b" "0 \<le> a" "a < b" "b \<le> u64_max"
    and exec: "\<And>i x. \<exists>rep. tl_execute t i x = Inr rep"
    and agg: "res_bind (read_report lines) (\<lambda>sts. aggregate_execution_stats sts 0 0) = Ok st"
  shows "\<exists>inputs reps. map (fst \<circ> snd) inputs = ranges \<and> (\<forall>inp\<in>set inputs. work_on_range t fb inp)
    \<and> map block_number (concat (map (snd \<circ> snd) inputs)) = [a + 1..b]
    \<and> length reps = length inputs \<and> (\<forall>i < length inputs. tl_execute t i (fst (inputs ! i)) = Inr (reps ! i))
    \<and> whole_stats inputs reps = Ok st
    \<and> st_batch_start st = a \<and> st_batch_end st = b \<and> st_nb_blocks st = b - a"
proof -
  obtain data stdins and u u' v v' :: "'z disk_scheme" where data: "traverse (\<lambda>r.
        andThen (expect_op ''Failed to fetch block data range.'' (get_l2_block_data_range (tl_rpc t) (fst r) (snd r)))
          (\<lambda>block_data. ret (r, block_data))) ranges u = (Inr data, u')"
    and stdins: "traverse (witness_stdin h) host_args v = (Inr stdins, v')"
    and written: "written_report (tl_execute t) (zip stdins data) schedule = Ok lines"
    using run unfolding execute_blocks_and_write_stats_csv_def by (clarsimp simp: andThen_eq_Ok lift_def)
  let ?inputs = "zip stdins data"
  have mem: "0 \<le> fst r" "fst r < snd r" "snd r \<le> u64_max" if "r \<in> set ranges" for r
    using tiles_mem [OF assms(3) that] assms(4,6) by simp_all
  have pieces: "list_all2 (\<lambda>r p. fst p = r \<and> map block_number (snd p) = [fst r + 1..snd r]) ranges data"
  proof (rule traverse_Ok [OF data])
    fix r p w w' assume r: "r \<in> set ranges"
      and p: "andThen (expect_op ''Failed to fetch block data range.'' (get_l2_block_data_range (tl_rpc t) (fst r) (snd r)))
          (\<lambda>block_data. ret (r, block_data)) w = (Inr p, w')"
    have "wrap_u64 (fst r + 1) = fst r + 1" using mem [OF r] by (simp add: is_u64_def)
    then show "fst p = r \<and> map block_number (snd p) = [fst r + 1..snd r]"
      using p by (auto simp: andThen_eq_Ok ret_def dest: block_data_range_numbers)
  qed
  have made: "list_all2 (\<lambda>g x. \<exists>v v'. witness_stdin h g v = (Inr x, v')) host_args stdins"
    by (rule traverse_Ok [OF stdins]) blast
  have served: "list_all2 (host_input t fb) ranges stdins"
    by (rule list_all2_trans [OF _ args made]) blast
  have len: "length stdins = length data" using served pieces by (simp add: list_all2_lengthD [symmetric])
  then have inputs: "map snd ?inputs = data" by simp
  then have snds: "map (snd \<circ> snd) ?inputs = map snd data" "map (fst \<circ> snd) ?inputs = map fst data" by (metis map_map)+
  have "map fst data = ranges" using pieces by (induction rule: list_all2_induct) auto
  then have ranges: "map (fst \<circ> snd) ?inputs = ranges" by (simp only: snds(2))
  have works: "\<forall>inp\<in>set ?inputs. work_on_range t fb inp"
  proof
    fix inp assume "inp \<in> set ?inputs"
    then obtain i where i: "i < length data" "inp = (stdins ! i, data ! i)" using len by (auto simp: set_zip)
    then show "work_on_range t fb inp"
      using served pieces len by (simp add: work_on_range_def list_all2_conv_all_nth)
  qed
  have numbers: "map block_number (concat (map (snd \<circ> snd) ?inputs)) = [a + 1..b]"
    unfolding snds(1) by (rule tiles_numbers [OF assms(3) pieces])
  have "ranges \<noteq> []" using assms(3,5) by auto
  then have ne: "?inputs \<noteq> []" using len pieces by (cases data; cases stdins) auto
  have bounds: "\<forall>x \<in> set (concat (map (snd \<circ> snd) ?inputs)). 1 \<le> block_number x \<and> block_number x \<le> u64_max"
  proof
    fix x assume "x \<in> set (concat (map (snd \<circ> snd) ?inputs))"
    then have "block_number x \<in> set [a + 1..b]" unfolding numbers [symmetric] set_map by (rule imageI)
    then show "1 \<le> block_number x \<and> block_number x \<le> u64_max" using assms(4,6) by simp
  qed
  obtain reps sts where reps: "length reps = length ?inputs"
    "\<forall>i < length ?inputs. tl_execute t i (fst (?inputs ! i)) = Inr (reps ! i)"
    "map_res (\<lambda>(data, rep). stats_new 0 data rep 0 0) (zip (map (snd \<circ> snd) ?inputs) reps) = Ok sts"
    using written_report_outcomes [OF written exec] by blast
  have "reported_stats (tl_execute t) ?inputs schedule = Ok st"
    using written agg by (simp add: reported_stats_def)
  then have "whole_stats ?inputs reps = Ok st"
    using reported_stats_outcome [of reps ?inputs "tl_execute t" sts schedule, OF reps ne bounds]
    by (simp split: if_splits)
  with whole_stats_covers [OF this numbers assms(4-6)] ranges works numbers reps(1,2) show ?thesis
    by (intro exI [of _ ?inputs] exI [of _ reps] conjI) simp_all
qed

subsection \<open>Properties\<close>

definition sample_inputs :: "unit execution_input list" where
  "sample_inputs =
     [((), (10, 12), [sample_stats_block 11 1, sample_stats_block 12 3]), ((), (12, 13), [sample_stats_block 13 4])]"

text \<open>C36. (error) What the cost estimator reports when every execution succeeds. Whatever the order in
  which the parallel workers take their steps, the aggregated report is either that of one execution
  over all blocks of the ranges, or the command fails on a malformed report. It is for example the former when a
  worker looks at the report and writes to it before another looks, and the latter
  when the first two workers both find the report empty: both write a header, and the second header is read as a row.\<close>

theorem parallel_reports_may_clash:
  fixes schedule :: "nat list"
  assumes "length reps = length inputs" and "\<forall>i < length inputs. exec i (fst (inputs ! i)) = Inr (reps ! i)"
    and "map_res (\<lambda>(data, rep). stats_new 0 data rep 0 0) (zip (map (snd \<circ> snd) inputs) reps) = Ok sts"
    and "1 < length inputs"
    and "\<forall>b \<in> set (concat (map (snd \<circ> snd) inputs)). 1 \<le> block_number b \<and> block_number b \<le> u64_max"
  shows "reported_stats exec inputs schedule \<in> {whole_stats inputs reps, Err (Msg ''CSV deserialize error'')}
    \<and> (\<forall>i < length inputs. reported_stats exec inputs (i # i # schedule) = whole_stats inputs reps)
    \<and> reported_stats exec inputs (0 # 1 # 0 # 1 # schedule) = Err (Msg ''CSV deserialize error'')"
proof -
  have "inputs \<noteq> []" "0 < length inputs" using assms(4) by auto
  note outcome = reported_stats_outcome [of reps inputs exec sts, OF assms(1-3) this(1) assms(5)]
  note some = all_outcomes(2) [of reps inputs exec sts, OF assms(1-3)]
  have "reported_stats exec inputs (i # i # schedule) = whole_stats inputs reps" if "i < length inputs" for i
    using run_workers_alone [OF that some [OF that], of schedule] outcome by (simp add: one_header_def)
  moreover have "reported_stats exec inputs (0 # 1 # 0 # 1 # schedule) = Err (Msg ''CSV deserialize error'')"
    using run_workers_clash [OF assms(4) some [OF \<open>0 < length inputs\<close>] some [OF assms(4)], of schedule] outcome by simp
  ultimately show ?thesis using outcome by simp
qed

theorem parallel_reports_may_clash_witness:
  "\<exists>st. reported_stats (\<lambda>i _. Inr (sample_report 6)) sample_inputs [1, 1] = Ok st \<and> st_batch_start st = 10
     \<and> st_batch_end st = 13
     \<and> reported_stats (\<lambda>i _. Inr (sample_report 6)) sample_inputs [0, 1, 0, 1] = Err (Msg ''CSV deserialize error'')"
proof -
  note eval = stats_new_def sample_stats_block_def sample_report_def div_u64_def Let_def sum_u64_def sum_u128_def
    wrap_u64_def wrap_u128_def
  let ?exec = "\<lambda>(i :: nat) (u :: unit). Inr (sample_report 6) :: error + execution_report"
  let ?reps = "[sample_report 6, sample_report 6]"
  have exec: "\<forall>i < length sample_inputs. ?exec i (fst (sample_inputs ! i)) = Inr (?reps ! i)"
    by (auto simp: sample_inputs_def less_Suc_eq)
  have len: "length ?reps = length sample_inputs" "1 < length sample_inputs" by (simp_all add: sample_inputs_def)
  have bounds: "\<forall>b \<in> set (concat (map (snd \<circ> snd) sample_inputs)). 1 \<le> block_number b \<and> block_number b \<le> u64_max"
    by (simp add: sample_inputs_def sample_stats_block_def u64_max_def)
  have "\<exists>sts. map_res (\<lambda>(data, rep). stats_new 0 data rep 0 0) (zip (map (snd \<circ> snd) sample_inputs) ?reps) = Ok sts"
    by (simp add: eval sample_inputs_def)
  then obtain sts where sts:
    "map_res (\<lambda>(data, rep). stats_new 0 data rep 0 0) (zip (map (snd \<circ> snd) sample_inputs) ?reps) = Ok sts" by blast
  have "\<exists>st. whole_stats sample_inputs ?reps = Ok st"
    by (simp add: whole_stats_def sum_reports_def sample_inputs_def eval)
  then obtain st where st: "whole_stats sample_inputs ?reps = Ok st" by blast
  have "st_batch_start st = 10 \<and> st_batch_end st = 13 \<and> st_nb_blocks st = 13 - 10"
    by (rule whole_stats_covers [OF st]) (simp_all add: sample_inputs_def sample_stats_block_def u64_max_def upto_rec1)
  then show ?thesis
    using parallel_reports_may_clash [of ?reps sample_inputs ?exec sts "[]", OF len(1) exec sts len(2) bounds] st len(2)
    by auto
qed

lemma estimated_range:
  fixes t :: "('cfg, 'z disk_scheme, 'args, 'wit, 'stdin) tool_env"
  assumes run: "cost_estimator_main t schedule args s = (Inr st, s')"
    and requested: "\<not> ha_rolling args" "ha_start args = Some a" "ha_end args = Some b"
    and bounds: "0 \<le> a" "0 < ha_batch_size args" "b + ha_batch_size args \<le> u64_max"
    and safe_db: "\<And>n k. \<exists>e. safe_head_at_l1 (tl_rpc t) n k = Inl e"
    and exec: "\<And>i x. \<exists>rep. tl_execute t i x = Inr rep"
  shows "\<exists>inputs reps. tiles a (map (fst \<circ> snd) inputs) b
    \<and> (\<forall>inp\<in>set inputs. work_on_range t (ha_safe_db_fallback args) inp)
    \<and> map block_number (concat (map (snd \<circ> snd) inputs)) = [a + 1..b]
    \<and> length reps = length inputs \<and> (\<forall>i < length inputs. tl_execute t i (fst (inputs ! i)) = Inr (reps ! i))
    \<and> whole_stats inputs reps = Ok st
    \<and> st_batch_start st = a \<and> st_batch_end st = b \<and> st_nb_blocks st = b - a"
proof -
  obtain f r active ranges host_args lines chain and u1 u1' u2 u2' u3 u3' u4 u4' :: "'z disk_scheme" where
    r: "get_validated_block_range (tl_rpc t) (Some a) (Some b) (ha_default_range args) u1 = (Inr r, u1')"
    and active: "is_safe_db_activated (tl_rpc t) u2 = (Inr active, u2')"
    and ranges: "(if active
         then split_range_based_on_safe_heads (tl_rpc t) (fst r) (snd r) (ha_batch_size args)
         else case split_range_basic (fst r) (snd r) (ha_batch_size args) of
                None \<Rightarrow> throw Diverged | Some ranges \<Rightarrow> ret ranges) u2' = (Inr ranges, u3)"
    and args: "traverse (\<lambda>r. expect_op ''Failed to get host CLI args''
         (host_fetch (tl_host t f) (fst r) (snd r) None (ha_safe_db_fallback args))) ranges u3 = (Inr host_args, u3')"
    and exe: "execute_blocks_and_write_stats_csv t (tl_host t f) schedule host_args ranges chain (fst r) (snd r) u4
        = (Inr lines, u4')"
    and agg: "res_bind (read_report lines) (\<lambda>sts. aggregate_execution_stats sts 0 0) = Ok st"
    using run requested unfolding cost_estimator_main_def
    by (clarsimp simp: andThen_eq_Ok lift_def res_bind_Ok_iff split_beta)
  have r: "r = (a, b)" "a < b" using validated_range [OF r] by simp_all
  have "\<not> active" by (rule safe_db_off [OF safe_db active])
  then have split: "split_range_basic a b (ha_batch_size args) = Some ranges"
    using ranges r by (auto simp: ret_def throw_def split: option.splits)
  have fits: "block_fits a b (ha_batch_size args)" using bounds by (simp add: block_fits_def)
  have tiles: "tiles a ranges b" using basic.split_tiles [OF fits bounds(2) _ split] r(2) by simp
  have served: "list_all2 (\<lambda>r g. \<forall>v v' x. witness_stdin (tl_host t f) g v = (Inr x, v') \<longrightarrow>
      host_input t (ha_safe_db_fallback args) r x) ranges host_args"
    by (rule traverse_Ok [OF args]) (auto simp: host_input_def)
  have u64: "b \<le> u64_max" using bounds(2,3) by simp
  have "execute_blocks_and_write_stats_csv t (tl_host t f) schedule host_args ranges chain a b u4 = (Inr lines, u4')"
    using exe r by simp
  from executed_ranges [OF this served tiles bounds(1) r(2) u64 exec agg] tiles show ?thesis by metis
qed

definition one_tx_block :: "block_id \<Rightarrow> nat \<Rightarrow> error + rpc_block option" where
  "one_tx_block b k = map_sum id (map_option (blk_tx_count_update (\<lambda>_. 1))) (sample_block b k)"

definition sample_tool :: "(int, disk, unit, unit, unit) tool_env" where
  "sample_tool =
     \<lparr>tl_parsers = sample_parsers,
      tl_environ = sample_urls, tl_post = sample_post, tl_fs = sample_fs,
      tl_exists = (\<lambda>_ _. True), tl_root = ''/w'', tl_open_csv = (\<lambda>_ _. Inr ()),
      tl_lib = sample_rollup_lib,
      tl_rpc = sample_env_no_safe_db\<lparr>l2_block := one_tx_block\<rparr>,
      tl_host = (\<lambda>_. \<lparr>host_fetch = (\<lambda>_ _ _ _. ret ()), host_run = ret, host_sp1_stdin = Inr,
        host_l1_head_hash = (\<lambda>_. None), host_finalized_l2_block = (\<lambda>_. ret None), host_safe_l1_head = (\<lambda>_ _. ret [])\<rparr>),
      tl_execute = (\<lambda>_ _. Inr (sample_report 6))\<rparr>"

definition sample_args :: host_executor_args where
  "sample_args =
     \<lparr>ha_start = Some 4, ha_end = Some 6, ha_batch_size = 1, ha_use_cache = False, ha_rolling = False,
      ha_default_range = 5, ha_env_file = ''.env'', ha_prove = False, ha_safe_db_fallback = False\<rparr>"

text \<open>C37. (functional) What the cost estimator reports on. Let the command run to its
  end without a failed execution, for a start and an end that are given (no rolling range), with the safe head
  database off and a range and batch size that fit into 64 bits. Then there are pieces of work that tile the requested
  range: each has the witness that the host made for its range and the data of exactly the blocks of its range, so
  that the blocks of all pieces in order are the blocks after the start up to the end, each once; each was executed
  once; and the statistics that are printed are those of one execution over all of these
  blocks with the sum of these reports. In particular they start at the requested start block, end at the
  requested end block and count the blocks between. This is so for all batch sizes, all answers
  of the nodes, and all orders of the parallel workers.\<close>

theorem estimator_covers_requested_range:
  fixes t :: "('cfg, 'z disk_scheme, 'args, 'wit, 'stdin) tool_env"
  assumes "cost_estimator_main t schedule args s = (Inr st, s')"
    and "\<not> ha_rolling args" "ha_start args = Some a" "ha_end args = Some b"
    and "0 \<le> a" "0 < ha_batch_size args" "b + ha_batch_size args \<le> u64_max"
    and "\<And>n k. \<exists>e. safe_head_at_l1 (tl_rpc t) n k = Inl e"
    and "\<And>i x. \<exists>rep. tl_execute t i x = Inr rep"
  shows "\<exists>inputs reps. tiles a (map (fst \<circ> snd) inputs) b
    \<and> (\<forall>inp\<in>set inputs. work_on_range t (ha_safe_db_fallback args) inp)
    \<and> map block_number (concat (map (snd \<circ> snd) inputs)) = [a + 1..b]
    \<and> length reps = length inputs \<and> (\<forall>i < length inputs. tl_execute t i (fst (inputs ! i)) = Inr (reps ! i))
    \<and> whole_stats inputs reps = Ok st
    \<and> st_batch_start st = a \<and> st_batch_end st = b \<and> st_nb_blocks st = b - a"
  by (rule estimated_range [OF assms])

lemma sample_open:
  "\<exists>f. \<forall>s. open_fetcher sample_tool s =
     (Inr f, s\<lparr>tick := Suc (Suc (Suc (tick s))), files := (files s)(path_join ''configs'' (show_u64 8 @ ''.json'') \<mapsto> show_u64 8)\<rparr>)"
  by (simp add: open_fetcher_def sample_tool_def new_with_rollup_config_def fetch_and_save_rollup_config_def
      fetch_rpc_data_def rpc_result_def andThen_def lift_def ret_def call_def Let_def get_rpcs_def
      sample_urls_def sample_post_def sample_fs_def sample_rollup_lib_def sample_parsers_def json_index_def
      write_file_def update_def is_u64_def u64_max_def unwrap_def)

lemma sample_split: "split_range_basic 4 6 1 = Some [(4, 5), (5, 6)]"
proof -
  have fits: "block_fits 4 6 1" "block_fits 5 6 1" by (simp_all add: block_fits_def u64_max_def)
  show ?thesis using basic.split_step [OF fits(1)] basic.split_step [OF fits(2)] basic.split_done [of 6 6 1] by simp
qed

definition sample_block_info :: "int \<Rightarrow> block_info" where
  "sample_block_info n =
     \<lparr>block_number = n, transaction_count = 1, bi_gas_used = 0, total_l1_fees = 0, total_tx_fees = 0\<rparr>"

lemma sample_block_data:
  "0 \<le> n \<Longrightarrow> n < 10 \<Longrightarrow> get_l2_block_data_range (tl_rpc sample_tool) n (n + 1) s =
     (Inr [sample_block_info (n + 1)], s\<lparr>tick := Suc (Suc (tick s))\<rparr>)"
  by (simp add: get_l2_block_data_range_def fetch_block_info_def sample_tool_def sample_env_no_safe_db_def
      one_tx_block_def sample_block_def sample_chain_def attempt_def onErr_def andThen_def call_def lift_def ret_def
      unwrap_def wrap_u64_def wrap_u128_def sample_env_def sample_block_info_def)

lemma sample_written:
  "\<exists>lines sts st. written_report (tl_execute sample_tool)
      [((), (4, 5), [sample_block_info 5]), ((), (5, 6), [sample_block_info 6])] [0, 0] = Ok lines
    \<and> read_report lines = Ok sts \<and> aggregate_execution_stats sts 0 0 = Ok st"
  by (simp add: written_report_def run_workers_def worker_step_def execute_range_def sample_tool_def
      sample_report_def stats_new_def sample_block_info_def div_u64_def Let_def sum_u64_def sum_u128_def
      wrap_u64_def wrap_u128_def broken_workers_def aggregate_execution_stats_def add_stats_def default_stats_def)

lemma sample_main: "\<exists>st s'. cost_estimator_main sample_tool [0, 0] sample_args \<lparr>tick = 0, files = Map.empty\<rparr> = (Inr st, s')"
proof -
  obtain f where f: "\<And>s. open_fetcher sample_tool s = (Inr f, s\<lparr>tick := Suc (Suc (Suc (tick s))),
      files := (files s)(path_join ''configs'' (show_u64 8 @ ''.json'') \<mapsto> show_u64 8)\<rparr>)"
    using sample_open by blast
  have range: "get_validated_block_range (tl_rpc sample_tool) (Some 4) (Some 6) 5 s = (Inr (4, 6), s\<lparr>tick := Suc (tick s)\<rparr>)"
    "get_l2_chain_id (tl_rpc sample_tool) s = (Inr 2, s\<lparr>tick := Suc (tick s)\<rparr>)"
    "is_safe_db_activated (tl_rpc sample_tool) s = (Inr False, s\<lparr>tick := Suc (Suc (tick s))\<rparr>)" for s :: disk
    by (simp_all add: get_validated_block_range_def is_safe_db_activated_def sample_tool_def get_l2_header_def
        get_l1_header_def get_header_def get_l2_chain_id_def
        sample_env_no_safe_db_def one_tx_block_def sample_block_def sample_number attempt_def onErr_def andThen_def
        call_def ret_def sample_env_def)
  have tools: "host_fetch (tl_host sample_tool g) a b h fb = ret ()" "host_run (tl_host sample_tool g) () = ret ()"
    "host_sp1_stdin (tl_host sample_tool g) () = Inr ()" "tl_exists sample_tool d k" "tl_open_csv sample_tool w k = Inr ()" "fs_write (tl_fs sample_tool) w k = Inr ()"
    for g a b h fb d k w
    by (simp_all add: sample_tool_def sample_fs_def)
  note data = sample_block_data [of 4, simplified] sample_block_data [of 5, simplified]
  show ?thesis
    using sample_written
    by (auto simp: cost_estimator_main_def execute_blocks_and_write_stats_csv_def witness_stdin_def write_file_def
        andThen_def f sample_args_def range sample_split tools data expect_op_def onErr_def ret_def call_def lift_def update_def)
qed

theorem estimator_covers_requested_range_witness:
  "\<exists>st s' (inputs :: unit execution_input list). cost_estimator_main sample_tool [0, 0] sample_args \<lparr>tick = 0, files = Map.empty\<rparr> = (Inr st, s')
     \<and> tiles 4 (map (fst \<circ> snd) inputs) 6 \<and> map block_number (concat (map (snd \<circ> snd) inputs)) = [5, 6]
     \<and> st_batch_start st = 4 \<and> st_batch_end st = 6 \<and> st_nb_blocks st = 2"
proof -
  obtain st s' where run: "cost_estimator_main sample_tool [0, 0] sample_args \<lparr>tick = 0, files = Map.empty\<rparr> = (Inr st, s')"
    using sample_main by blast
  have conds: "\<not> ha_rolling sample_args" "ha_start sample_args = Some 4" "ha_end sample_args = Some 6" "(0 :: int) \<le> 4"
    "0 < ha_batch_size sample_args" "6 + ha_batch_size sample_args \<le> u64_max"
    by (simp_all add: sample_args_def u64_max_def)
  have "\<exists>e. safe_head_at_l1 (tl_rpc sample_tool) n k = Inl e" "\<exists>rep. tl_execute sample_tool i x = Inr rep" for n k i x
    by (simp_all add: sample_tool_def sample_env_no_safe_db_def)
  from estimator_covers_requested_range [OF run conds this] obtain inputs :: "unit execution_input list" where
    "tiles 4 (map (fst \<circ> snd) inputs) 6" "map block_number (concat (map (snd \<circ> snd) inputs)) = [4 + 1..6]"
    "st_batch_start st = 4" "st_batch_end st = 6" "st_nb_blocks st = 6 - 4"
    by blast
  moreover have "[4 + 1..6] = [5, 6 :: int]" "6 - 4 = (2 :: int)" by (simp_all add: upto_rec1)
  ultimately show ?thesis using run by metis
qed

end
