(* ===== verification/BlockData.thy ===== *)
theory BlockData
  imports Complex_Main CostEstimator
begin

text \<open>
  The block data script, \<open>scripts/utils/bin/block_data.rs\<close>: it fetches the blocks of a range in
  chunks, writes a row of a CSV file for each, and adds them up. Real numbers stand for \<open>f64\<close>, \<open>None\<close> for
  its NaN, and the formats of \<open>f64\<close> with a number of places are a parameter.
\<close>

subsection \<open>The script\<close>

record block_data_args =
  bd_start :: int
  bd_end :: int
  bd_env_file :: string

record aggregated_block_data =
  ab_transaction_count :: int
  ab_gas_used :: int
  ab_total_l1_fees :: int
  ab_total_tx_fees :: int
  ab_nb_blocks :: int
  ab_avg_txns_per_block :: "real option"
  ab_avg_gas_per_block :: "real option"
  ab_avg_l1_fees_per_block :: "real option"
  ab_avg_tx_fees_per_block :: "real option"

text \<open>The quotient of unsigned numbers as \<open>f64\<close>. The code only divides zero by zero.\<close>

definition average :: "int \<Rightarrow> int \<Rightarrow> real option" where
  "average amount n = (if n = 0 then None else Some (real_of_int amount / real_of_int n))"

definition aggregated_block_data_new :: "block_info list \<Rightarrow> aggregated_block_data" where
  "aggregated_block_data_new block_data =
     (let total_txns = sum_u64 (map transaction_count block_data);
          total_gas = sum_u64 (map bi_gas_used block_data);
          l1_fees = sum_u128 (map total_l1_fees block_data);
          tx_fees = sum_u128 (map total_tx_fees block_data);
          num_blocks = wrap_u64 (int (length block_data)) in
     \<lparr>ab_transaction_count = total_txns,
      ab_gas_used = total_gas,
      ab_total_l1_fees = l1_fees,
      ab_total_tx_fees = tx_fees,
      ab_nb_blocks = num_blocks,
      ab_avg_txns_per_block = average (wrap_u64 (total_txns - num_blocks)) num_blocks,
      ab_avg_gas_per_block = average total_gas num_blocks,
      ab_avg_l1_fees_per_block = average l1_fees num_blocks,
      ab_avg_tx_fees_per_block = average tx_fees num_blocks\<rparr>)"

definition ether :: "real option \<Rightarrow> real option" where
  "ether = map_option (\<lambda>x. x / 10 ^ 18)"

definition display_aggregated :: "(nat \<Rightarrow> real option \<Rightarrow> string) \<Rightarrow> aggregated_block_data \<Rightarrow> string list" where
  "display_aggregated show_f64 a =
     [[], ''Aggregate Block Data:'',
      ''Total Blocks: '' @ show_u64 (ab_nb_blocks a),
      ''Total Transactions (excluding system txns): '' @ show_u64 (wrap_u64 (ab_transaction_count a - ab_nb_blocks a)),
      ''Total Gas Used: '' @ show_u64 (ab_gas_used a),
      ''Total L1 Fees: '' @ show_f64 6 (ether (Some (real_of_int (ab_total_l1_fees a)))) @ '' ETH'',
      ''Total TX Fees: '' @ show_f64 6 (ether (Some (real_of_int (ab_total_tx_fees a)))) @ '' ETH'',
      ''Avg Txns/Block (excluding system txns): '' @ show_f64 5 (ab_avg_txns_per_block a),
      ''Avg Gas/Block: '' @ show_f64 2 (ab_avg_gas_per_block a),
      ''Avg L1 Fees/Block: '' @ show_f64 6 (ether (ab_avg_l1_fees_per_block a)) @ '' ETH'',
      ''Avg TX Fees/Block: '' @ show_f64 6 (ether (ab_avg_tx_fees_per_block a)) @ '' ETH'']"

text \<open>The flushed rows of the CSV file, which the writer truncates when it opens it.\<close>

record csv_file = io +
  csv_rows :: "block_info list"

record csv_env =
  csv_from_path :: "string \<Rightarrow> nat \<Rightarrow> error + unit"
  csv_flush :: "nat \<Rightarrow> error + unit"

definition chunk_size :: int where "chunk_size = 1000"

definition fetch_chunk :: "rpc_env \<Rightarrow> csv_env \<Rightarrow> int \<Rightarrow> int \<Rightarrow> ('z io_scheme, block_info list) op" where
  "fetch_chunk env csv current_start chunk_end =
     andThen (get_l2_block_data_range env current_start chunk_end) (\<lambda>chunk_data.
     andThen (call (csv_flush csv)) (\<lambda>_. ret chunk_data))"

partial_function (option) write_chunks ::
  "rpc_env \<Rightarrow> csv_env \<Rightarrow> int \<Rightarrow> int \<Rightarrow> block_info list \<Rightarrow> 'z csv_file_scheme
     \<Rightarrow> (block_info list res \<times> 'z csv_file_scheme) option" where
  "write_chunks env csv end current_start all_data s =
     (if current_start \<le> end
      then
        let chunk_end = min (wrap_u64 (current_start + chunk_size - 1)) end in
        (case fetch_chunk env csv current_start chunk_end s of
           (Inl e, s') \<Rightarrow> Some (Inl e, s')
         | (Inr chunk_data, s') \<Rightarrow>
             write_chunks env csv end (wrap_u64 (chunk_end + 1)) (all_data @ chunk_data)
               (s'\<lparr>csv_rows := csv_rows s' @ chunk_data\<rparr>))
      else Some (Inr all_data, s))"

definition write_block_data_to_csv ::
  "rpc_env \<Rightarrow> csv_env \<Rightarrow> block_data_args \<Rightarrow> string
     \<Rightarrow> ('z csv_file_scheme, block_info list) op" where
  "write_block_data_to_csv env csv args path =
     andThen (call (csv_from_path csv path)) (\<lambda>_.
     andThen (update (\<lambda>s. s\<lparr>csv_rows := []\<rparr>)) (\<lambda>_.
       run_loop (write_chunks env csv (bd_end args) (bd_start args) [])))"

text \<open>\<open>main\<close>: both ends of the range must exist.\<close>

definition block_data_path :: "int \<Rightarrow> block_data_args \<Rightarrow> string" where
  "block_data_path chain args =
     ''block-data/'' @ show_u64 chain @ ''/'' @ show_u64 (bd_start args) @ ''-'' @ show_u64 (bd_end args)
       @ ''-block-data.csv''"

definition block_data_main ::
  "parsers \<Rightarrow> environment \<Rightarrow> rpc_env \<Rightarrow> ('cfg, 'blk, 'info) block_lib \<Rightarrow> fs_env \<Rightarrow> csv_env
     \<Rightarrow> block_data_args \<Rightarrow> ('z csv_file_scheme, aggregated_block_data) op" where
  "block_data_main ps environ env bl fs csv args =
     andThen (lift (fetcher_new ps environ :: 'cfg data_fetcher res)) (\<lambda>_.
     andThen (get_l2_chain_id env) (\<lambda>chain.
     andThen (get_l2_op_block_by_number bl (bd_start args)) (\<lambda>_.
     andThen (get_l2_op_block_by_number bl (bd_end args)) (\<lambda>_.
     andThen (call (fs_create_dir_all fs (''block-data/'' @ show_u64 chain))) (\<lambda>_.
     andThen (write_block_data_to_csv env csv args (block_data_path chain args)) (\<lambda>l2_block_data.
       ret (aggregated_block_data_new l2_block_data)))))))"

subsection \<open>The rows of a range\<close>

text \<open>
  A chunk from \<open>c\<close> is fetched as the range after \<open>c\<close>, so that \<open>c\<close> itself, and with it the first
  block of every chunk, is not.
\<close>

definition chunk_blocks :: "int \<Rightarrow> int \<Rightarrow> int list" where
  "chunk_blocks start end = filter (\<lambda>n. (n - start) mod chunk_size \<noteq> 0) [start + 1..end]"

lemma chunk_blocks_step:
  assumes "start \<le> end"
  shows "chunk_blocks start end =
    [start + 1..min (start + chunk_size - 1) end] @ chunk_blocks (start + chunk_size) end"
proof -
  let ?k = "min (start + chunk_size - 1) end"
  have split: "[start + 1..end] = [start + 1..?k] @ [?k + 1..end]"
    using assms by (cases "start = end") (auto simp: chunk_size_def intro: upto_split2)
  have first: "filter (\<lambda>n. (n - start) mod chunk_size \<noteq> 0) [start + 1..?k] = [start + 1..?k]"
    by (auto simp: filter_id_conv chunk_size_def)
  have rest: "filter (\<lambda>n. (n - start) mod chunk_size \<noteq> 0) [?k + 1..end] = chunk_blocks (start + chunk_size) end"
  proof (cases "start + chunk_size \<le> end")
    case True
    have "(n - start) mod chunk_size = (n - (start + chunk_size)) mod chunk_size" for n
      by (simp add: chunk_size_def algebra_simps) (metis add_diff_cancel_left' diff_add_cancel minus_mod_self2 diff_diff_eq)
    then show ?thesis using True by (simp add: chunk_blocks_def chunk_size_def upto_rec1)
  next
    case False
    then show ?thesis using assms by (simp add: chunk_blocks_def)
  qed
  show ?thesis unfolding chunk_blocks_def [of start] split filter_append first rest ..
qed
lemma chunk_blocks_done: "end < start \<Longrightarrow> chunk_blocks start end = []"
  by (simp add: chunk_blocks_def)

text \<open>Fetching never loops: an answer, an error or a failed \<open>unwrap\<close>.\<close>

definition returns :: "('s, 'a) op \<Rightarrow> bool" where
  "returns m \<longleftrightarrow> (\<forall>s. fst (m s) \<noteq> Inl Diverged)"

lemma returns_basic: "returns (ret x)" "r \<noteq> Inl Diverged \<Longrightarrow> returns (lift r)" "returns (call f)" "returns (update g)"
  by (simp_all add: returns_def ret_def lift_def call_def update_def split: sum.splits)

lemma returns_andThen: "returns m \<Longrightarrow> (\<And>x. returns (f x)) \<Longrightarrow> returns (andThen m f)"
  by (auto simp: returns_def andThen_def split: prod.splits sum.splits) (metis fst_conv)+

lemma returns_attempt: "returns m \<Longrightarrow> returns (attempt m)"
  by (auto simp: returns_def attempt_def onErr_def ret_def split: prod.splits sum.splits fault.splits) (metis fst_conv)

lemma returns_traverse: "(\<And>x. returns (f x)) \<Longrightarrow> returns (traverse f xs)"
  by (induction xs) (auto intro!: returns_basic returns_andThen)

lemma collect_results_returns: "collect_results rs \<noteq> Inl Diverged"
  by (induction rs rule: collect_results.induct) (auto simp: res_bind_def split: sum.splits)

lemma block_data_range_returns: "returns (get_l2_block_data_range env a e)"
  unfolding get_l2_block_data_range_def fetch_block_info_def
  by (intro returns_andThen returns_traverse returns_attempt returns_basic collect_results_returns)
    (simp_all add: unwrap_def split: option.splits)

lemma fetch_chunk_returns: "returns (fetch_chunk env csv a e)"
  unfolding fetch_chunk_def by (intro returns_andThen returns_basic block_data_range_returns)

lemma fetch_chunk_reads: "tick_only (fetch_chunk env csv a e)"
  unfolding fetch_chunk_def by (intro tick_intros)

lemma fetch_chunk_numbers:
  "fetch_chunk env csv a e s = (Inr infos, s') \<Longrightarrow> map block_number infos = [wrap_u64 (a + 1)..e]"
  by (auto simp: fetch_chunk_def andThen_eq_Ok ret_def dest: block_data_range_numbers)

lemma write_chunks_ends:
  fixes s :: "'z csv_file_scheme"
  assumes "0 \<le> c" and "end + chunk_size \<le> u64_max"
  shows "\<exists>r s'. write_chunks env csv end c all s = Some (r, s') \<and> r \<noteq> Inl Diverged
    \<and> (\<forall>infos. r = Inr infos \<longrightarrow> (\<exists>new. infos = all @ new \<and> map block_number new = chunk_blocks c end
          \<and> csv_rows s' = csv_rows s @ new))"
  using assms(1)
proof (induction "nat (end + chunk_size - c)" arbitrary: c all s rule: less_induct)
  case less
  show ?case
  proof (cases "c \<le> end")
    case False
    then show ?thesis by (simp add: write_chunks.simps chunk_blocks_done)
  next
    case True
    let ?k = "min (c + chunk_size - 1) end"
    have k: "min (wrap_u64 (c + chunk_size - 1)) end = ?k" "wrap_u64 (?k + 1) = ?k + 1" "wrap_u64 (c + 1) = c + 1"
      using True less.prems assms(2) by (simp_all add: is_u64_def chunk_size_def)
    obtain a t where fetch: "fetch_chunk env csv c ?k s = (a, t)" by fastforce
    obtain n where t: "t = s\<lparr>tick := n\<rparr>"
      using tick_onlyD [OF fetch_chunk_reads fetch] by blast
    show ?thesis
    proof (cases a)
      case (Inl e)
      have "fst (fetch_chunk env csv c ?k s) \<noteq> Inl Diverged"
        using fetch_chunk_returns unfolding returns_def by blast
      then have "a \<noteq> Inl Diverged" by (simp add: fetch)
      then show ?thesis using True Inl fetch k(1) by (simp add: write_chunks.simps)
    next
      case (Inr chunk)
      have numbers: "map block_number chunk = [c + 1..?k]"
        using fetch_chunk_numbers [of env csv c ?k s chunk t] fetch Inr k(3) by simp
      let ?s = "t\<lparr>csv_rows := csv_rows t @ chunk\<rparr>"
      have step: "write_chunks env csv end c all s = write_chunks env csv end (?k + 1) (all @ chunk) ?s"
        using True fetch Inr k by (subst write_chunks.simps) simp
      have "nat (end + chunk_size - (?k + 1)) < nat (end + chunk_size - c)" "0 \<le> ?k + 1"
        using True less.prems by (auto simp: chunk_size_def)
      from less.hyps [OF this, of "all @ chunk" ?s] obtain r s' where
        run: "write_chunks env csv end (?k + 1) (all @ chunk) ?s = Some (r, s')" "r \<noteq> Inl Diverged"
        and ok: "\<And>infos. r = Inr infos \<Longrightarrow> \<exists>new. infos = (all @ chunk) @ new
          \<and> map block_number new = chunk_blocks (?k + 1) end \<and> csv_rows s' = csv_rows ?s @ new"
        by blast
      have blocks: "[c + 1..?k] @ chunk_blocks (?k + 1) end = chunk_blocks c end"
        unfolding chunk_blocks_step [OF True]
        by (cases "c + chunk_size - 1 \<le> end") (simp_all add: chunk_blocks_done min_def)
      have "\<exists>new. infos = all @ new \<and> map block_number new = chunk_blocks c end \<and> csv_rows s' = csv_rows s @ new"
        if r: "r = Inr infos" for infos
      proof -
        obtain new where "infos = (all @ chunk) @ new" "map block_number new = chunk_blocks (?k + 1) end"
          "csv_rows s' = csv_rows ?s @ new" using ok [OF r] by blast
        then show ?thesis using numbers blocks t by (intro exI [of _ "chunk @ new"]) simp
      qed
      then show ?thesis using step run by auto
    qed
  qed
qed

subsection \<open>Property\<close>

lemma write_block_data_rows:
  fixes s :: "'z csv_file_scheme"
  assumes "0 \<le> bd_start args" and "bd_end args + chunk_size \<le> u64_max"
    and "write_block_data_to_csv env csv args path s = (r, s')"
  shows "r \<noteq> Inl Diverged \<and> (\<forall>infos. r = Ok infos \<longrightarrow>
    map block_number infos = chunk_blocks (bd_start args) (bd_end args) \<and> csv_rows s' = infos)"
proof -
  let ?s = "\<lambda>n. s\<lparr>tick := n, csv_rows := []\<rparr>"
  show ?thesis
  proof (cases "csv_from_path csv path (tick s)")
    case (Inl e)
    then show ?thesis using assms(3) by (auto simp: write_block_data_to_csv_def andThen_def call_def)
  next
    case (Inr u)
    obtain q t where "write_chunks env csv (bd_end args) (bd_start args) [] (?s (Suc (tick s))) = Some (q, t)"
      and "q \<noteq> Inl Diverged" "\<And>infos. q = Inr infos \<Longrightarrow> \<exists>new. infos = [] @ new
        \<and> map block_number new = chunk_blocks (bd_start args) (bd_end args)
        \<and> csv_rows t = csv_rows (?s (Suc (tick s))) @ new"
      using write_chunks_ends [OF assms(1,2), of env csv "[]" "?s (Suc (tick s))"] by blast
    then show ?thesis
      using assms(3) Inr by (fastforce simp: write_block_data_to_csv_def andThen_def call_def update_def run_loop_def)
  qed
qed

text \<open>(functional) Which blocks the block data script covers. It ends for every range that leaves room for a chunk
  below the maximal block number. If nothing fails, the rows of the CSV file, and the blocks that the
  summary adds up, are the blocks after the start of the range in their order, without every
  thousandth: a chunk is fetched as the range after its first block, which the chunk
  before does not reach. The start block itself is missing as well.\<close>

theorem block_data_skips_chunk_starts:
  fixes s :: "'z csv_file_scheme"
  assumes "0 \<le> bd_start args" and "bd_end args + 1000 \<le> u64_max"
    and "write_block_data_to_csv env csv args path s = (r, s')"
  shows "r \<noteq> Inl Diverged \<and> (\<forall>infos. r = Ok infos \<longrightarrow>
    map block_number infos = filter (\<lambda>n. (n - bd_start args) mod 1000 \<noteq> 0) [bd_start args + 1..bd_end args]
    \<and> csv_rows s' = infos)"
  using write_block_data_rows [of args env csv path s r s'] assms by (simp add: chunk_blocks_def chunk_size_def)

definition sample_csv :: csv_env where
  "sample_csv = \<lparr>csv_from_path = (\<lambda>_ _. Inr ()), csv_flush = (\<lambda>_. Inr ())\<rparr>"

theorem block_data_skips_chunk_starts_witness:
  "\<exists>infos s'. write_block_data_to_csv (tl_rpc sample_tool) sample_csv
      \<lparr>bd_start = 4, bd_end = 5, bd_env_file = ''.env''\<rparr> ''d.csv'' \<lparr>tick = 0, csv_rows = []\<rparr> = (Ok infos, s')
    \<and> map block_number infos = [5] \<and> csv_rows s' = infos"
proof -
  let ?args = "\<lparr>bd_start = 4, bd_end = 5, bd_env_file = ''.env''\<rparr>"
  have "\<exists>infos s'. write_block_data_to_csv (tl_rpc sample_tool) sample_csv ?args ''d.csv'' \<lparr>tick = 0, csv_rows = []\<rparr> = (Ok infos, s')"
    by (simp add: sample_block_data [of 4, simplified] sample_csv_def fetch_chunk_def ret_def write_block_data_to_csv_def andThen_def call_def update_def run_loop_def write_chunks.simps
        chunk_size_def wrap_u64_def)
  then obtain infos s' where run: "write_block_data_to_csv (tl_rpc sample_tool) sample_csv ?args ''d.csv''
      \<lparr>tick = 0, csv_rows = []\<rparr> = (Ok infos, s')" by blast
  show ?thesis
    using block_data_skips_chunk_starts [OF _ _ run] run by (simp add: u64_max_def upto_rec1)
qed

subsection \<open>The summary\<close>

text \<open>
  Blocks that each hold their system transaction give averages that are no larger than their totals;
  without any block every average is NaN. A block without a transaction makes the difference wrap.
\<close>

lemma averages:
  assumes "aggregated_block_data_new bs = a" "bs \<noteq> []" "int (length bs) \<le> u64_max"
  shows "ab_avg_gas_per_block a = Some (real_of_int (ab_gas_used a) / real (length bs))"
    and "\<exists>x. ab_avg_txns_per_block a = Some x \<and>
      x * real (length bs) = real_of_int (wrap_u64 (ab_transaction_count a - ab_nb_blocks a))"
proof -
  have n: "wrap_u64 (int (length bs)) = int (length bs)" using assms(3) by (simp add: is_u64_def)
  show "ab_avg_gas_per_block a = Some (real_of_int (ab_gas_used a) / real (length bs))"
    and "\<exists>x. ab_avg_txns_per_block a = Some x \<and>
      x * real (length bs) = real_of_int (wrap_u64 (ab_transaction_count a - ab_nb_blocks a))"
    using assms(1,2) by (auto simp: aggregated_block_data_new_def average_def Let_def n)
qed

lemma no_blocks_no_averages: "ab_avg_gas_per_block (aggregated_block_data_new []) = None"
  by (simp add: aggregated_block_data_new_def average_def wrap_u64_def)

end
