(* ===== verification/Scripts.thy ===== *)
theory Scripts
  imports CostEstimator Aggregation Deployment
begin

text \<open>
  The proving commands: \<open>scripts/prove/bin/multi.rs\<close> with \<open>execute_multi\<close> of \<open>scripts/prove/src/lib.rs\<close>
  proves or executes one range, \<open>scripts/utils/bin/gen_sp1_test_artifacts.rs\<close> writes the inputs of a
  split range, \<open>scripts/utils/bin/fetch_and_save_proof.rs\<close> saves a range proof of the network,
  \<open>scripts/prove/bin/agg.rs\<close> aggregates saved proofs, and \<open>scripts/utils/bin/config.rs\<close> prints the
  hashes of a configuration. Files are written and read by the calls of the SDK and the standard
  library; what a command prints is its result.
\<close>

subsection \<open>multi\<close>

record 'stdin prove_env =
  pe_prove :: "'stdin \<Rightarrow> nat \<Rightarrow> error + sp1_proof_pv"
  pe_save :: "sp1_proof_pv \<Rightarrow> string \<Rightarrow> nat \<Rightarrow> error + unit"
  pe_elapsed_secs :: "nat \<Rightarrow> int"

datatype multi_outcome = Saved_Proof string sp1_proof_pv | Saved_Stats string range_execution_stats

definition elapsed :: "'stdin prove_env \<Rightarrow> ('z io_scheme, int) op" where
  "elapsed pe = call (\<lambda>k. Inr (pe_elapsed_secs pe k))"

definition execute_multi ::
  "('cfg, 'z disk_scheme, 'args, 'wit, 'stdin) tool_env \<Rightarrow> 'stdin prove_env \<Rightarrow> 'stdin \<Rightarrow> int \<Rightarrow> int
     \<Rightarrow> ('z disk_scheme, block_info list \<times> execution_report \<times> int) op" where
  "execute_multi t pe sp1_stdin l2_start_block l2_end_block =
     andThen (expect_op ''unwrap'' (call (\<lambda>k. tl_execute t k sp1_stdin))) (\<lambda>rep.
     andThen (elapsed pe) (\<lambda>execution_duration.
     andThen (get_l2_block_data_range (tl_rpc t) l2_start_block l2_end_block) (\<lambda>block_data.
       ret (block_data, rep, execution_duration))))"

definition create_missing_dir ::
  "('cfg, 'z disk_scheme, 'args, 'wit, 'stdin) tool_env \<Rightarrow> string \<Rightarrow> ('z disk_scheme, unit) op" where
  "create_missing_dir t d =
     andThen (call (\<lambda>k. Inr (tl_exists t d k))) (\<lambda>there.
       if there then ret () else call (fs_create_dir_all (tl_fs t) d))"

definition default_range :: int where "default_range = 5"

definition multi_main ::
  "('cfg, 'z disk_scheme, 'args, 'wit, 'stdin) tool_env \<Rightarrow> 'stdin prove_env \<Rightarrow> (string \<Rightarrow> nat \<Rightarrow> error + unit)
     \<Rightarrow> host_executor_args \<Rightarrow> ('z disk_scheme, multi_outcome) op" where
  "multi_main t pe load_env args =
     andThen (call (load_env (ha_env_file args))) (\<lambda>_.
     andThen (open_fetcher t) (\<lambda>data_fetcher.
     andThen (get_validated_block_range (tl_rpc t) (ha_start args) (ha_end args) default_range)
       (\<lambda>(l2_start_block, l2_end_block).
     let h = tl_host t data_fetcher; name = show_u64 l2_start_block @ ''-'' @ show_u64 l2_end_block in
     andThen (host_fetch h l2_start_block l2_end_block None (ha_safe_db_fallback args)) (\<lambda>host_args.
     andThen (host_run h host_args) (\<lambda>witness_data.
     andThen (elapsed pe) (\<lambda>witness_generation_duration.
     andThen (lift (case host_sp1_stdin h witness_data of Inl e \<Rightarrow> Err e | Inr x \<Rightarrow> Ok x)) (\<lambda>sp1_stdin.
       if ha_prove args
       then
         andThen (expect_op ''unwrap'' (call (pe_prove pe sp1_stdin))) (\<lambda>proof.
         andThen (expect_op ''unwrap'' (get_l2_chain_id (tl_rpc t))) (\<lambda>chain.
         let proof_dir = ''data/'' @ show_u64 chain @ ''/proofs'';
             path = proof_dir @ ''/'' @ name @ ''.bin'' in
         andThen (expect_op ''unwrap'' (create_missing_dir t proof_dir)) (\<lambda>_.
         andThen (expect_op ''saving proof failed'' (call (pe_save pe proof path))) (\<lambda>_.
           ret (Saved_Proof path proof)))))
       else
         andThen (get_l2_chain_id (tl_rpc t)) (\<lambda>chain.
         andThen (execute_multi t pe sp1_stdin l2_start_block l2_end_block)
           (\<lambda>(block_data, rep, execution_duration).
         andThen (lift (stats_new 0 block_data rep witness_generation_duration execution_duration)) (\<lambda>stats.
         let dir = ''execution-reports/multi/'' @ show_u64 chain; path = dir @ ''/'' @ name @ ''.csv'' in
         andThen (create_missing_dir t dir) (\<lambda>_.
         andThen (call (fs_write (tl_fs t) path)) (\<lambda>_.
           ret (Saved_Stats path stats)))))))))))))"

subsection \<open>gen\_sp1\_test\_artifacts\<close>

text \<open>The written directories with their input; \<open>program.bin\<close> is the same in each.\<close>

definition artifacts_main ::
  "('cfg, 'z disk_scheme, 'args, 'wit, 'stdin) tool_env \<Rightarrow> (string \<Rightarrow> 'stdin \<Rightarrow> nat \<Rightarrow> error + unit)
     \<Rightarrow> host_executor_args \<Rightarrow> ('z disk_scheme, (string \<times> 'stdin) list) op" where
  "artifacts_main t write_program_dir args =
     andThen (open_fetcher t) (\<lambda>data_fetcher.
     andThen (get_l2_chain_id (tl_rpc t)) (\<lambda>chain.
     andThen (get_validated_block_range (tl_rpc t) (ha_start args) (ha_end args) (ha_default_range args))
       (\<lambda>(l2_start_block, l2_end_block).
     andThen (case split_range_basic l2_start_block l2_end_block (ha_batch_size args) of
                None \<Rightarrow> throw Diverged | Some ranges \<Rightarrow> ret ranges) (\<lambda>split_ranges.
     let h = tl_host t data_fetcher in
     andThen (traverse (\<lambda>r. expect_op ''Failed to get host CLI args''
         (host_fetch h (fst r) (snd r) None (ha_safe_db_fallback args))) split_ranges) (\<lambda>host_args.
     andThen (traverse (\<lambda>(r, host_args).
         andThen (host_run h host_args) (\<lambda>witness_data.
         andThen (lift (case host_sp1_stdin h witness_data of Inl e \<Rightarrow> Err e | Inr x \<Rightarrow> Ok x)) (\<lambda>sp1_stdin.
           ret (sp1_stdin, r)))) (zip split_ranges host_args)) (\<lambda>successful_ranges.
     let dir_name = path_join (path_join (tl_root t) ''sp1-testing-suite-artifacts'')
           (''op-succinct-chain-'' @ show_u64 chain) in
       traverse (\<lambda>(sp1_stdin, r).
         let program_dir = dir_name @ ''-'' @ show_u64 (fst r) @ ''-'' @ show_u64 (snd r) in
         andThen (call (write_program_dir program_dir sp1_stdin)) (\<lambda>_. ret (program_dir, sp1_stdin)))
         successful_ranges))))))"

subsection \<open>fetch\_and\_save\_proof\<close>

record fetch_proof_args =
  fp_request_id :: string
  fp_agg_proof :: bool
  fp_start :: "int option"
  fp_end :: "int option"

datatype fetch_outcome = Still_Pending | Printed_Aggregation boot_info | Fetched_Proof string sp1_proof_pv

text \<open>\<open>hex::decode\<close> and \<open>B256::from_slice\<close>, whose length must be right.\<close>

definition proof_file_name :: "fetch_proof_args \<Rightarrow> string" where
  "proof_file_name args =
     (case (fp_start args, fp_end args) of
        (Some start, Some end) \<Rightarrow> show_u64 start @ ''_'' @ show_u64 end @ ''.bin''
      | _ \<Rightarrow> fp_request_id args @ ''.bin'')"

definition fetch_and_save_main ::
  "(string \<Rightarrow> bytes option) \<Rightarrow> 'stdin sp1_env \<Rightarrow> (bytes \<Rightarrow> boot_info option) \<Rightarrow> fs_env
     \<Rightarrow> (sp1_proof_pv \<Rightarrow> string \<Rightarrow> nat \<Rightarrow> error + unit) \<Rightarrow> fetch_proof_args \<Rightarrow> ('z io_scheme, fetch_outcome) op" where
  "fetch_and_save_main hex_decode sp decode_boot fs save args =
     (case hex_decode (fp_request_id args) of
        None \<Rightarrow> throw (Failure (Msg ''hex''))
      | Some request_id \<Rightarrow>
          if length request_id \<noteq> 32 then throw (Panic ''from_slice'')
          else
            andThen (call (get_proof_status sp request_id)) (\<lambda>(status, proof).
              if fulfillment status \<noteq> Fulfilled then ret Still_Pending
              else
                andThen (lift (unwrap proof ''unwrap'')) (\<lambda>proof.
                  if fp_agg_proof args
                  then
                    if length (public_values proof) < aggregation_outputs_size then throw (Panic ''read_slice'')
                    else
                      andThen (lift (unwrap (decode_boot (take aggregation_outputs_size (public_values proof))) ''unwrap''))
                        (\<lambda>boot_info.
                      andThen (lift (unwrap (onchain_bytes sp proof) ''bytes'')) (\<lambda>_.
                        ret (Printed_Aggregation boot_info)))
                  else
                    andThen (lift (unwrap (read_boot sp (public_values proof)) ''read'')) (\<lambda>_.
                    andThen (call (fs_create_dir_all fs ''data/fetched_proofs'')) (\<lambda>_.
                    let file_path = path_join ''data/fetched_proofs'' (proof_file_name args) in
                    andThen (expect_op ''Failed to save proof'' (call (save proof file_path))) (\<lambda>_.
                      ret (Fetched_Proof file_path proof)))))))"

subsection \<open>agg\<close>

record agg_args =
  aa_proofs :: "string list"
  aa_prove :: bool
  aa_prover :: address

record agg_env =
  ae_exists :: "string \<Rightarrow> nat \<Rightarrow> bool"
  ae_load :: "string \<Rightarrow> nat \<Rightarrow> error + sp1_proof_pv"
  ae_verify :: "sp1_proof_pv \<Rightarrow> vkey \<Rightarrow> nat \<Rightarrow> error + unit"
  ae_read_boot :: "bytes \<Rightarrow> boot_info option"
  ae_hash_slow :: "header \<Rightarrow> b256"
  ae_range_vkey :: vkey
  ae_prove :: "agg_stdin \<Rightarrow> nat \<Rightarrow> error + sp1_proof_pv"
  ae_execute :: "agg_stdin \<Rightarrow> nat \<Rightarrow> error + execution_report"

definition fetched_proof_path :: "string \<Rightarrow> string \<Rightarrow> string" where
  "fetched_proof_path workspace_root proof_name =
     (workspace_root @ ''/data/fetched_proofs'') @ ''/'' @ proof_name @ ''.bin''"

definition load_proof :: "agg_env \<Rightarrow> string \<Rightarrow> string \<Rightarrow> ('z io_scheme, sp1_proof \<times> boot_info) op" where
  "load_proof ae root proof_name =
     (let path = fetched_proof_path root proof_name in
      andThen (call (\<lambda>k. Inr (ae_exists ae path k))) (\<lambda>there.
        if \<not> there then throw (Panic ''Proof file not found'')
        else
          andThen (expect_op ''loading proof failed'' (call (ae_load ae path))) (\<lambda>deserialized_proof.
          andThen (expect_op ''proof verification failed'' (call (ae_verify ae deserialized_proof (ae_range_vkey ae)))) (\<lambda>_.
          andThen (lift (unwrap (ae_read_boot ae (public_values deserialized_proof)) ''read'')) (\<lambda>boot_info.
            ret (pv_proof deserialized_proof, boot_info))))))"

definition load_aggregation_proof_data ::
  "agg_env \<Rightarrow> string \<Rightarrow> string list \<Rightarrow> ('z io_scheme, sp1_proof list \<times> boot_info list) op" where
  "load_aggregation_proof_data ae root proof_names =
     andThen (traverse (load_proof ae root) proof_names) (\<lambda>ps. ret (map fst ps, map snd ps))"

text \<open>\<open>main\<close> up to the input of the prover, and the rest.\<close>

definition agg_inputs ::
  "('cfg, 'z disk_scheme, 'args, 'wit, 'stdin) tool_env \<Rightarrow> agg_env \<Rightarrow> agg_args \<Rightarrow> ('z disk_scheme, agg_stdin) op" where
  "agg_inputs t ae args =
     andThen (open_fetcher t) (\<lambda>_.
     andThen (load_aggregation_proof_data ae (tl_root t) (aa_proofs args)) (\<lambda>(proofs, boot_infos).
     andThen (get_latest_l1_head_in_batch (tl_rpc t) boot_infos) (\<lambda>hdr.
     andThen (get_header_preimages (tl_rpc t) boot_infos (ae_hash_slow ae hdr)) (\<lambda>headers.
       expect_op ''Failed to get agg proof stdin''
         (lift (get_agg_proof_stdin proofs boot_infos headers (ae_range_vkey ae) (ae_hash_slow ae hdr)
            (aa_prover args)))))))"

definition agg_main ::
  "('cfg, 'z disk_scheme, 'args, 'wit, 'stdin) tool_env \<Rightarrow> agg_env \<Rightarrow> agg_args \<Rightarrow> ('z disk_scheme, unit) op" where
  "agg_main t ae args =
     andThen (agg_inputs t ae args) (\<lambda>stdin.
       if aa_prove args then andThen (expect_op ''proving failed'' (call (ae_prove ae stdin))) (\<lambda>_. ret ())
       else andThen (expect_op ''unwrap'' (call (ae_execute ae stdin))) (\<lambda>_. ret ()))"

subsection \<open>config\<close>

definition config_main ::
  "('cfg, 'z disk_scheme, 'args, 'wit, 'stdin) tool_env \<Rightarrow> (bytes \<Rightarrow> b256) \<Rightarrow> prover_keys \<Rightarrow> string option
     \<Rightarrow> ('z disk_scheme, b256 \<times> string \<times> b256 option) op" where
  "config_main t sha pk env_file =
     (let range_vk_hash = u32_to_u8 (pk_range_hash_u32 pk) in
      case env_file of
        None \<Rightarrow> ret (range_vk_hash, pk_agg_bytes32 pk, None)
      | Some _ \<Rightarrow>
          andThen (open_fetcher t) (\<lambda>data_fetcher.
          andThen (lift (unwrap (df_rollup_config data_fetcher) ''unwrap'')) (\<lambda>rollup_config.
            ret (range_vk_hash, pk_agg_bytes32 pk, Some (hash_rollup_config sha (tl_lib t) rollup_config)))))"
subsection \<open>The inputs of the aggregation\<close>

text \<open>The last header found is that of the highest L1 head of the batch.\<close>

lemma latest_loop_stable:
  fixes s :: "'z io_scheme"
  assumes st: "stable_headers env chain tip hs at" and "l1Head ` set bs \<subseteq> hs"
    and "latest_loop env bs n h s = (Inr r, s')" and "n = (case h of None \<Rightarrow> 0 | Some x \<Rightarrow> number x)"
    and "\<And>x. h = Some x \<Longrightarrow> \<exists>c \<in> hs. x = blk_header (chain (at c))" and "r = Some y"
  shows "(\<exists>c \<in> hs. y = blk_header (chain (at c))) \<and> n \<le> number y \<and> (\<forall>b \<in> set bs. at (l1Head b) \<le> number y)"
  using assms(2-6)
proof (induction bs arbitrary: n h s)
  case Nil
  then show ?case by (auto simp: ret_def)
next
  case (Cons b bs)
  have b: "l1Head b \<in> hs" using Cons.prems(1) by simp
  note hdr = get_header_hash(1,2) [OF st b]
  show ?case
  proof (cases "n < at (l1Head b)")
    case True
    have "latest_loop env bs (at (l1Head b)) (Some (blk_header (chain (at (l1Head b))))) (s\<lparr>tick := Suc (tick s)\<rparr>) = (Inr r, s')"
      using Cons.prems(2) True by (simp add: andThen_def hdr)
    from Cons.IH [OF _ this] Cons.prems(1,5) b hdr(2) True show ?thesis by fastforce
  next
    case False
    have "latest_loop env bs n h (s\<lparr>tick := Suc (tick s)\<rparr>) = (Inr r, s')"
      using Cons.prems(2) False by (simp add: andThen_def hdr)
    from Cons.IH [OF _ this Cons.prems(3,4)] Cons.prems(1,5) False show ?thesis by fastforce
  qed
qed

lemma latest_l1_head_stable:
  fixes s :: "'z io_scheme"
  assumes st: "stable_headers env chain tip hs at" and "l1Head ` set bs \<subseteq> hs"
    and "get_latest_l1_head_in_batch env bs s = (Inr y, s')"
  shows "\<exists>c \<in> hs. y = blk_header (chain (at c)) \<and> (\<forall>b \<in> set bs. at (l1Head b) \<le> at c)"
proof -
  obtain r t where "latest_loop env bs 0 None s = (Inr r, t)" "r = Some y"
    using assms(3) by (auto simp: get_latest_l1_head_in_batch_def andThen_eq_Ok ret_def throw_def split: option.splits)
  from latest_loop_stable [OF st assms(2) this(1) _ _ this(2)] show ?thesis
    using get_header_hash(2) [OF st] by fastforce
qed

lemma load_proof_Ok:
  "load_proof ae root name s = (Inr (p, b), s') \<Longrightarrow>
   \<exists>pv k. p = pv_proof pv \<and> ae_read_boot ae (public_values pv) = Some b \<and> ae_verify ae pv (ae_range_vkey ae) k = Inr ()"
  by (auto simp: load_proof_def Let_def andThen_eq_Ok ret_def lift_def throw_def call_def split: if_splits sum.splits)

lemma agg_inputs_accepted:
  fixes s :: "'z disk_scheme"
  assumes run: "agg_inputs t ae args s = (Inr stdin, s')"
    and st: "stable_headers (tl_rpc t) chain tip hs at"
    and links: "\<And>n. 0 < n \<Longrightarrow> n \<le> tip \<Longrightarrow>
      parent_hash (blk_header (chain n)) = hash_slow z (blk_header (chain (n - 1)))"
    and hashes: "\<And>h. h \<in> hs \<Longrightarrow> hash_slow z (blk_header (chain (at h))) = h" and same: "ae_hash_slow ae = hash_slow z"
    and verifies: "\<And>pv b k. ae_verify ae pv (ae_range_vkey ae) k = Inr () \<Longrightarrow> ae_read_boot ae (public_values pv) = Some b \<Longrightarrow>
      verified z (ae_range_vkey ae) (sha256 z (serialize_boot z b))"
    and seq: "sequential (boot_infos (as_inputs stdin))" and heads: "l1Head ` set (boot_infos (as_inputs stdin)) \<subseteq> hs"
  shows "\<exists>out. aggregate z (as_inputs stdin) (as_headers stdin) = Ok out
    \<and> out_l2PreRoot out = l2PreRoot (List.hd (boot_infos (as_inputs stdin)))
    \<and> out_l2PostRoot out = l2PostRoot (last (boot_infos (as_inputs stdin)))"
proof -
  obtain ps hdr headers and u u' v v' w w' :: "'z disk_scheme" where
    loaded: "traverse (load_proof ae (tl_root t)) (aa_proofs args) u = (Inr ps, u')"
    and latest: "get_latest_l1_head_in_batch (tl_rpc t) (map snd ps) v = (Inr hdr, v')"
    and pre: "get_header_preimages (tl_rpc t) (map snd ps) (ae_hash_slow ae hdr) w = (Inr headers, w')"
    and stdin: "get_agg_proof_stdin (map fst ps) (map snd ps) headers (ae_range_vkey ae) (ae_hash_slow ae hdr)
      (aa_prover args) = Ok stdin"
    using run unfolding agg_inputs_def load_aggregation_proof_data_def
    by (clarsimp simp: andThen_eq_Ok lift_def ret_def)
  have inputs: "as_inputs stdin = \<lparr>boot_infos = map snd ps, latest_l1_checkpoint_head = ae_hash_slow ae hdr,
      multi_block_vkey = ae_range_vkey ae, prover_address = aa_prover args\<rparr>" "as_headers stdin = headers"
    using stdin by (auto simp: get_agg_proof_stdin_def res_bind_Ok_iff)
  have bs: "l1Head ` set (map snd ps) \<subseteq> hs" "sequential (map snd ps)" using heads seq by (simp_all add: inputs)
  have ne: "map snd ps \<noteq> []"
    using latest by (auto simp: get_latest_l1_head_in_batch_def andThen_eq_Ok ret_def throw_def)
  have "list_all2 (\<lambda>name p. verified z (ae_range_vkey ae) (sha256 z (serialize_boot z (snd p)))) (aa_proofs args) ps"
  proof (rule traverse_Ok [OF loaded])
    fix name p x x' assume "load_proof ae (tl_root t) name x = (Inr p, x')"
    then show "verified z (ae_range_vkey ae) (sha256 z (serialize_boot z (snd p)))"
      using load_proof_Ok [of ae _ name x "fst p" "snd p"] verifies by fastforce
  qed
  then have proved: "verified z (ae_range_vkey ae) (sha256 z (serialize_boot z b))" if "b \<in> set (map snd ps)" for b
    using that by (force simp: list_all2_conv_all_nth in_set_conv_nth)
  obtain c where c: "c \<in> hs" "hdr = blk_header (chain (at c))" "\<forall>b \<in> set (map snd ps). at (l1Head b) \<le> at c"
    using latest_l1_head_stable [OF st bs(1) latest] by blast
  have checkpoint: "ae_hash_slow ae hdr = c" using hashes [OF c(1)] same c(2) by simp
  obtain hs' out where "fst (get_header_preimages (tl_rpc t) (map snd ps) c w) = Ok hs'"
    and out: "aggregate z \<lparr>boot_infos = map snd ps, latest_l1_checkpoint_head = c, multi_block_vkey = ae_range_vkey ae,
        prover_address = aa_prover args\<rparr> hs' = Ok out"
      "out_l2PreRoot out = l2PreRoot (List.hd (map snd ps))" "out_l2PostRoot out = l2PostRoot (last (map snd ps))"
    using aggregation_accepts_host_inputs [OF st ne bs(1) c(1) links hashes _ bs(2) proved] c(3) by blast
  then have "hs' = headers" using pre checkpoint by simp
  then show ?thesis using out unfolding inputs checkpoint by auto
qed

text \<open>A range proof that was saved in the directory of the workspace is the one the aggregation loads.\<close>

lemma saved_proof_is_loaded:
  assumes "fp_start args = Some a" "fp_end args = Some b" and "root \<noteq> []" "last root \<noteq> CHR ''/''"
  shows "path_join root (path_join ''data/fetched_proofs'' (proof_file_name args)) =
    fetched_proof_path root (show_u64 a @ ''_'' @ show_u64 b)"
proof -
  have "show_u64 a \<noteq> []" "List.hd (show_u64 a) \<noteq> CHR ''/''"
    using hd_radix [of "CHR ''/''" "nat a"] radix_nonempty [of 10 "nat a"] by (simp_all add: show_u64_def digit_def)
  then show ?thesis
    using assms by (simp add: path_join_def proof_file_name_def fetched_proof_path_def)
qed

text \<open>The statistics of \<open>multi\<close> are those of the validated range.\<close>

lemma multi_covers:
  fixes s :: "'z disk_scheme"
  assumes run: "multi_main t pe load_env args s = (Inr (Saved_Stats path st), s')"
    and "ha_start args = Some a" "ha_end args = Some b" and "0 \<le> a" "b \<le> u64_max"
  shows "st_batch_start st = a \<and> st_batch_end st = b \<and> st_nb_blocks st = b - a"
proof -
  obtain r data rep w d and u u' v v' :: "'z disk_scheme" where
    r: "get_validated_block_range (tl_rpc t) (Some a) (Some b) default_range u = (Inr r, u')"
    and data: "get_l2_block_data_range (tl_rpc t) (fst r) (snd r) v = (Inr data, v')"
    and stats: "stats_new 0 data rep w d = Ok st"
    using run assms(2,3) unfolding multi_main_def execute_multi_def
    by (auto simp: andThen_eq_Ok lift_def ret_def Let_def split_beta split: if_splits)
  have r: "r = (a, b)" "a < b" using validated_range [OF r] by simp_all
  have "wrap_u64 (a + 1) = a + 1" using r(2) assms(4,5) by (simp add: is_u64_def)
  then have "map block_number data = [a + 1..b]" using block_data_range_numbers [OF data] r(1) by simp
  then show ?thesis using stats_cover [OF stats _ assms(4) r(2) assms(5)] by blast
qed

subsection \<open>Property\<close>

text \<open>C38. What the aggregation script hands to the prover is accepted. On an L1 chain with linked headers, if
  the script gets as far as the input of the prover, then the aggregation program, run on this input, commits
  an output from the first pre-root to the last post-root of the loaded proofs, provided that the proofs
  were given in the order of their ranges and on L1 heads of the chain: the script
  has verified every proof, has chosen the latest L1 head as the checkpoint and has fetched all headers
  down to the earliest.\<close>

theorem agg_script_inputs_accepted:
  fixes s :: "'z disk_scheme"
  assumes "agg_inputs t ae args s = (Inr stdin, s')"
    and "stable_headers (tl_rpc t) chain tip hs at"
    and "\<And>n. 0 < n \<Longrightarrow> n \<le> tip \<Longrightarrow> parent_hash (blk_header (chain n)) = hash_slow z (blk_header (chain (n - 1)))"
    and "\<And>h. h \<in> hs \<Longrightarrow> hash_slow z (blk_header (chain (at h))) = h" and "ae_hash_slow ae = hash_slow z"
    and "\<And>pv b k. ae_verify ae pv (ae_range_vkey ae) k = Inr () \<Longrightarrow> ae_read_boot ae (public_values pv) = Some b \<Longrightarrow>
      verified z (ae_range_vkey ae) (sha256 z (serialize_boot z b))"
    and "sequential (boot_infos (as_inputs stdin))" and "l1Head ` set (boot_infos (as_inputs stdin)) \<subseteq> hs"
  shows "\<exists>out. aggregate z (as_inputs stdin) (as_headers stdin) = Ok out
    \<and> out_l2PreRoot out = l2PreRoot (List.hd (boot_infos (as_inputs stdin)))
    \<and> out_l2PostRoot out = l2PostRoot (last (boot_infos (as_inputs stdin)))"
  by (rule agg_inputs_accepted [OF assms])

definition sample_agg_tool :: "(int, disk, unit, unit, unit) tool_env" where
  "sample_agg_tool = sample_tool\<lparr>tl_rpc := sample_env\<lparr>l1_block := linked_l1\<rparr>\<rparr>"

definition sample_agg_env :: agg_env where
  "sample_agg_env =
     \<lparr>ae_exists = (\<lambda>_ _. True),
      ae_load = (\<lambda>path _. Inr \<lparr>pv_proof = Compressed [3], public_values = (if path = ''/w/data/fetched_proofs/6.bin'' then [1] else [2])\<rparr>),
      ae_verify = (\<lambda>_ _ _. Inr ()),
      ae_read_boot = (\<lambda>bs. Some (if bs = [1] then sample_boot 5 1 2 6 else sample_boot 4 2 3 9)),
      ae_hash_slow = hash_slow sample_zkvm, ae_range_vkey = replicate 8 1,
      ae_prove = (\<lambda>_ _. Inl RpcError), ae_execute = (\<lambda>_ _. Inr (sample_report 1))\<rparr>"

lemma sample_agg_headers: "stable_headers (tl_rpc sample_agg_tool) linked_block 10 {[4], [5], [6]} (\<lambda>h. uint (List.hd h))"
  by (simp add: stable_headers_def stable_chain_def linked_l1_def linked_block_def sample_agg_tool_def)

lemma sample_agg_loaded:
  fixes s :: disk
  shows "load_aggregation_proof_data sample_agg_env ''/w'' [''6'', ''9''] s =
    (Inr ([Compressed [3], Compressed [3]], [sample_boot 5 1 2 6, sample_boot 4 2 3 9]), s\<lparr>tick := tick s + 6\<rparr>)"
  by (simp add: load_aggregation_proof_data_def load_proof_def sample_agg_env_def fetched_proof_path_def Let_def
      andThen_def call_def ret_def lift_def expect_op_def onErr_def unwrap_def)

lemma sample_agg_inputs:
  "\<exists>stdin s'. agg_inputs sample_agg_tool sample_agg_env \<lparr>aa_proofs = [''6'', ''9''], aa_prove = False, aa_prover = [9]\<rparr>
     \<lparr>tick = 0, files = Map.empty\<rparr> = (Inr stdin, s')
     \<and> boot_infos (as_inputs stdin) = [sample_boot 5 1 2 6, sample_boot 4 2 3 9]"
proof -
  let ?bs = "[sample_boot 5 1 2 6, sample_boot 4 2 3 9]"
  have "open_fetcher sample_agg_tool = open_fetcher sample_tool"
    by (rule ext) (simp add: open_fetcher_def sample_agg_tool_def)
  then obtain f where f: "\<And>s :: disk. \<exists>s'. open_fetcher sample_agg_tool s = (Inr f, s')"
    using sample_open by metis
  have latest: "\<exists>s'. get_latest_l1_head_in_batch (tl_rpc sample_agg_tool) ?bs s = (Inr (blk_header (linked_block 5)), s')"
    for s :: disk
    by (simp add: get_latest_l1_head_in_batch_def sample_agg_tool_def get_l1_header_def get_header_def andThen_def
        call_def linked_l1_def sample_boot_def linked_block_def ret_def)
  have hash: "ae_hash_slow sample_agg_env (blk_header (linked_block 5)) = [5]"
    by (simp add: sample_agg_env_def sample_zkvm_def linked_block_def)
  have "\<exists>hs. fst (get_header_preimages (tl_rpc sample_agg_tool) ?bs [5] s) = Inr hs" for s :: disk
    using header_preimages_stable [OF sample_agg_headers, of ?bs "[5]" s] by (simp add: sample_boot_def)
  then have headers: "\<exists>hs s'. get_header_preimages (tl_rpc sample_agg_tool) ?bs [5] s = (Inr hs, s')" for s :: disk
    by (metis prod.collapse)
  have root: "tl_root sample_agg_tool = ''/w''" by (simp add: sample_agg_tool_def sample_tool_def)
  obtain s1 where s1: "open_fetcher sample_agg_tool \<lparr>tick = 0, files = Map.empty\<rparr> = (Inr f, s1)" using f by blast
  obtain s2 where s2: "get_latest_l1_head_in_batch (tl_rpc sample_agg_tool) ?bs (s1\<lparr>tick := tick s1 + 6\<rparr>)
      = (Inr (blk_header (linked_block 5)), s2)" using latest by blast
  obtain hs s3 where s3: "get_header_preimages (tl_rpc sample_agg_tool) ?bs [5] s2 = (Inr hs, s3)" using headers by blast
  show ?thesis
    by (simp add: agg_inputs_def andThen_def s1 root sample_agg_loaded s2 hash s3 get_agg_proof_stdin_def lift_def
        expect_op_def onErr_def ret_def)
qed

theorem agg_script_inputs_accepted_witness:
  "\<exists>stdin s' out. agg_inputs sample_agg_tool sample_agg_env
       \<lparr>aa_proofs = [''6'', ''9''], aa_prove = False, aa_prover = [9]\<rparr> \<lparr>tick = 0, files = Map.empty\<rparr> = (Inr stdin, s')
     \<and> aggregate sample_zkvm (as_inputs stdin) (as_headers stdin) = Ok out
     \<and> out_l2PreRoot out = [1] \<and> out_l2PostRoot out = [3]"
proof -
  obtain stdin s' where run: "agg_inputs sample_agg_tool sample_agg_env
       \<lparr>aa_proofs = [''6'', ''9''], aa_prove = False, aa_prover = [9]\<rparr> \<lparr>tick = 0, files = Map.empty\<rparr> = (Inr stdin, s')"
    and bs: "boot_infos (as_inputs stdin) = [sample_boot 5 1 2 6, sample_boot 4 2 3 9]"
    using sample_agg_inputs by blast
  have links: "parent_hash (blk_header (linked_block n)) = hash_slow sample_zkvm (blk_header (linked_block (n - 1)))" for n
    by (simp add: linked_block_def sample_zkvm_def)
  have hashes: "hash_slow sample_zkvm (blk_header (linked_block (uint (List.hd h)))) = h" if "h \<in> {[4], [5], [6]}" for h
    using that by (auto simp: linked_block_def sample_zkvm_def)
  have verifies: "verified sample_zkvm (ae_range_vkey sample_agg_env) (sha256 sample_zkvm (serialize_boot sample_zkvm b))"
    if "ae_read_boot sample_agg_env (public_values pv) = Some b" for pv :: sp1_proof_pv and b
    using that by (auto simp: sample_agg_env_def sample_zkvm_def sample_boot_def split: if_splits)
  have seq: "sequential (boot_infos (as_inputs stdin))" and heads: "l1Head ` set (boot_infos (as_inputs stdin)) \<subseteq> {[4], [5], [6]}"
    using sample_batch_sequential by (simp_all add: bs sample_batch_def) (simp add: sample_boot_def)
  have hash: "ae_hash_slow sample_agg_env = hash_slow sample_zkvm" by (simp add: sample_agg_env_def)
  have "\<exists>out. aggregate sample_zkvm (as_inputs stdin) (as_headers stdin) = Ok out
    \<and> out_l2PreRoot out = l2PreRoot (List.hd (boot_infos (as_inputs stdin)))
    \<and> out_l2PostRoot out = l2PostRoot (last (boot_infos (as_inputs stdin)))"
    by (rule agg_script_inputs_accepted [OF run sample_agg_headers _ _ hash _ seq heads])
      (use links hashes verifies in blast)+
  then show ?thesis using run by (auto simp: bs sample_boot_def)
qed

end
