(* ===== verification/OracleCode.thy ===== *)
theory OracleCode
  imports Derivation
begin

text \<open>
  Derivation and execution as the host runs them. The functions of \<open>utils/client/src/client.rs\<close> and
  \<open>utils/client/src/witness/executor.rs\<close> are generic in the oracle and the blob provider. On the host
  these are the recording ones, one pair that all parts share, so that a run is a sequence of questions: a
  program here is a tree of questions and continuations. The pieces that the kona crates contribute are
  the fields of \<open>kona_code\<close>, programs of the same kind; the pipeline keeps its state \<open>'pipe\<close>, the
  block executor its state \<open>'exec\<close>.
\<close>

subsection \<open>Programs over an oracle\<close>

datatype ('key, 'blob, 'r) prog =
  Done 'r
| Ask "'key question" "'blob reply \<Rightarrow> ('key, 'blob, 'r) prog"

primrec pbind :: "('key, 'blob, 'a) prog \<Rightarrow> ('a \<Rightarrow> ('key, 'blob, 'b) prog) \<Rightarrow> ('key, 'blob, 'b) prog" where
  "pbind (Done x) f = f x"
| "pbind (Ask q k) f = Ask q (\<lambda>a. pbind (k a) f)"

text \<open>The recording run: every question goes to the collector, the \<open>t\<close>-th one at time \<open>t\<close>.\<close>

primrec collect ::
  "('key, 'blob) oracle_env \<Rightarrow> ('key, 'blob) source_env \<Rightarrow> ('key, 'blob, 'r) prog \<Rightarrow> nat
     \<Rightarrow> ('key, 'blob) witness_data \<Rightarrow> ('r \<times> ('key, 'blob) witness_data) res" where
  "collect oe se (Done r) = (\<lambda>t w. Ok (r, w))"
| "collect oe se (Ask q k) = (\<lambda>t w.
     res_bind (collect_question oe se t q w) (\<lambda>(a, w'). collect oe se (k a) (Suc t) w'))"

text \<open>The same program run on a checked witness.\<close>

primrec replay ::
  "('key, 'blob, 'r) prog \<Rightarrow> 'key preimage_store \<times> 'blob blob_store
     \<Rightarrow> ('r \<times> 'key preimage_store \<times> 'blob blob_store) res" where
  "replay (Done r) = (\<lambda>s. Ok (r, s))"
| "replay (Ask q k) = (\<lambda>s. res_bind (replay_question q s) (\<lambda>(a, s'). replay (k a) s'))"

subsection \<open>The code of the client\<close>

text \<open>A step of the driver: it asks questions, changes the driver, and returns or fails.\<close>

type_synonym ('key, 'blob, 's, 'a) step = "'s \<Rightarrow> ('key, 'blob, 'a res \<times> 's) prog"

definition then_step ::
  "('key, 'blob, 's, 'a) step \<Rightarrow> ('a \<Rightarrow> ('key, 'blob, 's, 'b) step) \<Rightarrow> ('key, 'blob, 's, 'b) step" where
  "then_step m f = (\<lambda>s. pbind (m s) (\<lambda>(r, s'). case r of Inl e \<Rightarrow> Done (Inl e, s') | Inr x \<Rightarrow> f x s'))"

text \<open>A step that asks nothing.\<close>

definition silent :: "('s, 'a) op \<Rightarrow> ('key, 'blob, 's, 'a) step" where
  "silent m = (\<lambda>s. Done (m s))"

definition ask_pipeline :: "('pipe \<Rightarrow> ('key, 'blob, 'a \<times> 'pipe) prog)
    \<Rightarrow> ('key, 'blob, ('pipe, 'exec, 'cur) driver, 'a) step" where
  "ask_pipeline f = (\<lambda>d. pbind (f (d_pipeline d)) (\<lambda>(x, p). Done (Ok x, d\<lparr>d_pipeline := p\<rparr>)))"

definition ask_executor :: "('exec \<Rightarrow> ('key, 'blob, 'a \<times> 'exec) prog)
    \<Rightarrow> ('key, 'blob, ('pipe, 'exec, 'cur) driver, 'a) step" where
  "ask_executor f = (\<lambda>d. pbind (f (d_executor d)) (\<lambda>(x, e). Done (Ok x, d\<lparr>d_executor := e\<rparr>)))"

text \<open>The kona functions. A provider holds a handle of the shared oracle, here \<open>()\<close>.\<close>

record ('key, 'blob, 'cfg, 'pipe, 'exec, 'cur, 'x, 'tx) kona_code =
  kc_load_boot :: "('key, 'blob, error + 'cfg kona_boot) prog"
  kc_header_by_hash :: "(unit, 'cfg, 'cur) l2_provider \<Rightarrow> b256 \<Rightarrow> ('key, 'blob, error + header) prog"
  kc_new_cursor :: "'cfg \<Rightarrow> header \<times> b256 \<Rightarrow> unit l1_provider \<Rightarrow> (unit, 'cfg, 'cur) l2_provider
    \<Rightarrow> ('key, 'blob, error + 'cur) prog"
  kc_create_pipeline :: "'cfg \<Rightarrow> 'cur \<Rightarrow> unit l1_provider \<Rightarrow> (unit, 'cfg, 'cur) l2_provider
    \<Rightarrow> ('key, 'blob, error + 'pipe) prog"
  kc_new_executor :: "'cfg \<Rightarrow> (unit, 'cfg, 'cur) l2_provider \<Rightarrow> 'exec"
  kc_produce_payload :: "'pipe \<Rightarrow> l2_block_info \<Rightarrow> ('key, 'blob, 'x payload_result \<times> 'pipe) prog"
  kc_signal_flush_channel :: "'pipe \<Rightarrow> ('key, 'blob, (error + unit) \<times> 'pipe) prog"
  kc_pipeline_origin :: "'pipe \<Rightarrow> block_ref option"
  kc_update_safe_head :: "header \<Rightarrow> 'exec \<Rightarrow> 'exec"
  kc_execute_payload :: "'x attributes \<Rightarrow> 'exec \<Rightarrow> ('key, 'blob, (error + header) \<times> 'exec) prog"
  kc_compute_output_root :: "'exec \<Rightarrow> ('key, 'blob, (error + b256) \<times> 'exec) prog"
  kc_decode_tx :: "bytes \<Rightarrow> error + 'tx"
  kc_from_block_and_genesis :: "header \<Rightarrow> 'tx list \<Rightarrow> 'pipe \<Rightarrow> error + l2_block_info"
  kc_cursor_tip :: "'cur \<Rightarrow> tip_cursor"
  kc_cursor_advance :: "block_ref \<Rightarrow> tip_cursor \<Rightarrow> 'cur \<Rightarrow> 'cur"
  kc_is_interop_active :: "'cfg \<Rightarrow> int \<Rightarrow> bool"
  kc_is_holocene_active :: "'cfg \<Rightarrow> int \<Rightarrow> bool"

definition fetch_safe_head_hash_code ::
  "('key, 'blob) oracle_env \<Rightarrow> b256 \<Rightarrow> ('key, 'blob, b256 res) prog" where
  "fetch_safe_head_hash_code oe agreed_root =
     Ask (WriteHint ''starting-l2-output'') (\<lambda>_.
     Ask (GetPreimageExact (oe_new_key oe agreed_root Keccak256Key) 128) (\<lambda>a.
       case a of
         Bytes output_preimage \<Rightarrow> Done (Ok (take 32 (drop 96 output_preimage)))
       | _ \<Rightarrow> Done (Inl (Panic ''unreachable''))))"

definition get_inputs_code ::
  "('key, 'blob) oracle_env \<Rightarrow> ('key, 'blob, 'cfg, 'pipe, 'exec, 'cur, 'x, 'tx) kona_code
     \<Rightarrow> ('key, 'blob, ('cfg kona_boot \<times> ('cur \<times> unit l1_provider \<times> (unit, 'cfg, 'cur) l2_provider) option) res) prog" where
  "get_inputs_code oe kc =
     pbind (kc_load_boot kc) (\<lambda>loaded.
       case loaded of
         Inl e \<Rightarrow> Done (Err (Msg ''Failed to load boot info''))
       | Inr boot \<Rightarrow>
           pbind (fetch_safe_head_hash_code oe (agreed_l2_output_root boot)) (\<lambda>hashed.
             case hashed of
               Inl e \<Rightarrow> Done (Inl e)
             | Inr safe_head_hash \<Rightarrow>
                 (let l1 = \<lparr>l1p_head = l1_head boot, l1p_oracle = ()\<rparr>;
                      l2 = \<lparr>l2p_head = safe_head_hash, l2p_config = rollup_config boot, l2p_oracle = (),
                            l2p_cursor = None\<rparr> in
                  pbind (kc_header_by_hash kc l2 safe_head_hash) (\<lambda>found.
                    case found of
                      Inl e \<Rightarrow> Done (Err e)
                    | Inr safe_head \<Rightarrow>
                        (if claimed_l2_block_number boot < number safe_head
                         then Done (Err (Msg ''Claimed L2 block number is less than the safe head''))
                         else pbind (kc_new_cursor kc (rollup_config boot) (safe_head, safe_head_hash) l1 l2) (\<lambda>created.
                           case created of
                             Inl e \<Rightarrow> Done (Err e)
                           | Inr cur \<Rightarrow> Done (Ok (boot, Some (cur, l1, l2\<lparr>l2p_cursor := Some cur\<rparr>)))))))))"

definition execute_or_retry_code ::
  "('key, 'blob, 'cfg, 'pipe, 'exec, 'cur, 'x, 'tx) kona_code \<Rightarrow> 'cfg \<Rightarrow> tip_cursor \<Rightarrow> 'x attributes
     \<Rightarrow> ('key, 'blob, ('pipe, 'exec, 'cur) driver, (header \<times> 'x attributes) option) step" where
  "execute_or_retry_code kc cfg tip attrs =
     then_step (silent (on_executor (\<lambda>e. ((), kc_update_safe_head kc (tc_l2_safe_head_header tip) e)))) (\<lambda>_.
     then_step (ask_executor (kc_execute_payload kc attrs)) (\<lambda>r.
       case r of
         Inr h \<Rightarrow> silent (ret (Some (h, attrs)))
       | Inl _ \<Rightarrow>
           (if kc_is_holocene_active kc cfg (at_timestamp attrs)
            then then_step (ask_pipeline (kc_signal_flush_channel kc)) (\<lambda>f.
              case f of
                Inl e \<Rightarrow> silent (throw (Failure e))
              | Inr _ \<Rightarrow>
                  then_step (silent (on_executor (\<lambda>e. ((), kc_update_safe_head kc (tc_l2_safe_head_header tip) e)))) (\<lambda>_.
                  then_step (ask_executor (kc_execute_payload kc (deposits_only attrs))) (\<lambda>r2.
                    case r2 of
                      Inr h \<Rightarrow> silent (ret (Some (h, deposits_only attrs)))
                    | Inl e \<Rightarrow> silent (throw (Failure e)))))
            else silent (ret None))))"

definition adopt_block_code ::
  "('key, 'blob, 'cfg, 'pipe, 'exec, 'cur, 'x, 'tx) kona_code \<Rightarrow> header \<Rightarrow> 'x attributes
     \<Rightarrow> ('key, 'blob, ('pipe, 'exec, 'cur) driver, unit) step" where
  "adopt_block_code kc h attrs =
     then_step (silent (lift (decode_all (kc_decode_tx kc)
                  (case at_transactions attrs of None \<Rightarrow> [] | Some txs \<Rightarrow> txs)))) (\<lambda>txs.
     then_step (silent (asks (\<lambda>d. kc_pipeline_origin kc (d_pipeline d)))) (\<lambda>o1.
       case o1 of
         None \<Rightarrow> silent (throw (Failure (Msg ''MissingOrigin'')))
       | Some l1_origin \<Rightarrow>
           then_step (silent (asks (\<lambda>d. kc_from_block_and_genesis kc h txs (d_pipeline d)))) (\<lambda>i.
             case i of
               Inl e \<Rightarrow> silent (throw (Failure e))
             | Inr l2_info \<Rightarrow>
                 then_step (ask_executor (kc_compute_output_root kc)) (\<lambda>r.
                   case r of
                     Inl e \<Rightarrow> silent (throw (Failure e))
                   | Inr root \<Rightarrow>
                       silent (update (\<lambda>d. d\<lparr>d_cursor := kc_cursor_advance kc l1_origin
                         \<lparr>tc_l2_safe_head = l2_info, tc_l2_safe_head_header = h,
                          tc_l2_safe_head_output_root = root\<rparr> (d_cursor d)\<rparr>))))))"

definition advance_step_code ::
  "('key, 'blob, 'cfg, 'pipe, 'exec, 'cur, 'x, 'tx) kona_code \<Rightarrow> 'cfg \<Rightarrow> int option
     \<Rightarrow> ('key, 'blob, ('pipe, 'exec, 'cur) driver, int option + l2_block_info \<times> b256) step" where
  "advance_step_code kc cfg target =
     then_step (silent (asks (\<lambda>d. kc_cursor_tip kc (d_cursor d)))) (\<lambda>tip.
       if (case target of None \<Rightarrow> False | Some tb \<Rightarrow> tb \<le> safe_number tip)
       then silent (ret (Inr (tc_l2_safe_head tip, tc_l2_safe_head_output_root tip)))
       else
         then_step (ask_pipeline (\<lambda>p. kc_produce_payload kc p (tc_l2_safe_head tip))) (\<lambda>r.
           case r of
             PipelineFailure e \<Rightarrow> silent (throw (Failure e))
           | EndOfSource \<Rightarrow>
               (if kc_is_interop_active kc cfg (safe_number tip)
                then silent (throw (Failure (Msg ''EndOfSource'')))
                else silent (ret (Inl (if target \<noteq> None then Some (safe_number tip) else None))))
           | Payload attrs \<Rightarrow>
               then_step (execute_or_retry_code kc cfg tip attrs) (\<lambda>x.
                 case x of
                   None \<Rightarrow> silent (ret (Inl target))
                 | Some (h, executed) \<Rightarrow> then_step (adopt_block_code kc h executed) (\<lambda>_. silent (ret (Inl target))))))"

text \<open>The loop, for at most \<open>fuel\<close> iterations.\<close>

primrec advance_code ::
  "nat \<Rightarrow> ('key, 'blob, 'cfg, 'pipe, 'exec, 'cur, 'x, 'tx) kona_code \<Rightarrow> 'cfg \<Rightarrow> int option
     \<Rightarrow> ('key, 'blob, ('pipe, 'exec, 'cur) driver, l2_block_info \<times> b256) step" where
  "advance_code 0 kc cfg target = silent (throw Diverged)"
| "advance_code (Suc fuel) kc cfg target =
     then_step (advance_step_code kc cfg target) (\<lambda>x.
       case x of Inr r \<Rightarrow> silent (ret r) | Inl t \<Rightarrow> advance_code fuel kc cfg t)"

definition executor_run_code ::
  "nat \<Rightarrow> ('key, 'blob, 'cfg, 'pipe, 'exec, 'cur, 'x, 'tx) kona_code \<Rightarrow> 'cfg kona_boot \<Rightarrow> 'pipe \<Rightarrow> 'cur
     \<Rightarrow> (unit, 'cfg, 'cur) l2_provider \<Rightarrow> ('key, 'blob, 'cfg kona_boot res) prog" where
  "executor_run_code fuel kc boot pipeline cur l2 =
     (let d = \<lparr>d_cursor = cur, d_executor = kc_new_executor kc (rollup_config boot) l2, d_pipeline = pipeline\<rparr> in
      pbind (advance_code fuel kc (rollup_config boot) (Some (claimed_l2_block_number boot)) d) (\<lambda>(r, d').
        Done (res_bind r (\<lambda>(safe_head, output_root).
          if output_root \<noteq> claimed_l2_output_root boot
          then Err (Msg ''Failed to validate L2 block with claimed output root'')
          else Ok boot))))"

text \<open>The body of \<open>WitnessGenerator::run\<close>, up to the boot information it ends with.\<close>

definition range_code ::
  "nat \<Rightarrow> ('key, 'blob) oracle_env \<Rightarrow> ('key, 'blob, 'cfg, 'pipe, 'exec, 'cur, 'x, 'tx) kona_code
     \<Rightarrow> ('key, 'blob, 'cfg kona_boot res) prog" where
  "range_code fuel oe kc =
     pbind (get_inputs_code oe kc) (\<lambda>inputs.
       case expect inputs ''unwrap'' of
         Inl e \<Rightarrow> Done (Inl e)
       | Inr (boot, input) \<Rightarrow>
           (case input of
              None \<Rightarrow> Done (Ok boot)
            | Some (cur, l1, l2) \<Rightarrow>
                pbind (kc_create_pipeline kc (rollup_config boot) cur l1 l2) (\<lambda>created.
                  case expect (lift_answer created) ''unwrap'' of
                    Inl e \<Rightarrow> Done (Inl e)
                  | Inr pipeline \<Rightarrow>
                      pbind (executor_run_code fuel kc boot pipeline cur l2) (\<lambda>r. Done (expect r ''unwrap'')))))"

end
