(* ===== verification/WitnessGeneration.thy ===== *)
theory WitnessGeneration
  imports OracleCode
begin

text \<open>
  Both ends of a witness. \<open>WitnessGenerator::run\<close> of \<open>utils/host/src/witness_generation/traits.rs\<close> runs
  derivation and execution on the collecting oracle and keeps what was read; the range program runs
  the same functions on what was kept. Also here: how the executors of \<open>utils/ethereum/client\<close> and
  \<open>utils/celestia/client\<close> put the pipeline together, and how the witness becomes the standard input
  (\<open>utils/ethereum/host\<close> and \<open>utils/celestia/host\<close>, \<open>witness_generator.rs\<close>). Data sources and pipelines
  are the kona and hana crates, serialization is rkyv.
\<close>

subsection \<open>Executors\<close>

record ('key, 'blob, 'cfg, 'pipe, 'cur, 'eth, 'cel, 'da) source_lib =
  ethereum_source :: "'key preimage_store l1_provider \<Rightarrow> 'blob blob_store \<Rightarrow> 'cfg \<Rightarrow> 'eth"
  ethereum_da :: "'eth \<Rightarrow> 'da"
  celestia_source :: "'key preimage_store \<Rightarrow> 'cel"
  celestia_da :: "'eth \<Rightarrow> 'cel \<Rightarrow> 'da"
  oracle_pipeline :: "'cfg \<Rightarrow> 'cur \<Rightarrow> 'key preimage_store \<Rightarrow> 'da \<Rightarrow> 'key preimage_store l1_provider
    \<Rightarrow> ('key preimage_store, 'cfg, 'cur) l2_provider \<Rightarrow> error + 'pipe"

definition eth_create_pipeline ::
  "('key, 'blob, 'cfg, 'pipe, 'cur, 'eth, 'cel, 'da) source_lib \<Rightarrow> 'cfg \<Rightarrow> 'cur \<Rightarrow> 'key preimage_store
     \<Rightarrow> 'blob blob_store \<Rightarrow> 'key preimage_store l1_provider \<Rightarrow> ('key preimage_store, 'cfg, 'cur) l2_provider \<Rightarrow> error + 'pipe" where
  "eth_create_pipeline sl cfg cur oracle beacon l1 l2 =
     (let da_provider = ethereum_da sl (ethereum_source sl l1 beacon cfg) in
      oracle_pipeline sl cfg cur oracle da_provider l1 l2)"

definition celestia_create_pipeline ::
  "('key, 'blob, 'cfg, 'pipe, 'cur, 'eth, 'cel, 'da) source_lib \<Rightarrow> 'cfg \<Rightarrow> 'cur \<Rightarrow> 'key preimage_store
     \<Rightarrow> 'blob blob_store \<Rightarrow> 'key preimage_store l1_provider \<Rightarrow> ('key preimage_store, 'cfg, 'cur) l2_provider \<Rightarrow> error + 'pipe" where
  "celestia_create_pipeline sl cfg cur oracle beacon l1 l2 =
     (let ethereum_data_source = ethereum_source sl l1 beacon cfg;
          celestia_data_source = celestia_source sl oracle;
          da_provider = celestia_da sl ethereum_data_source celestia_data_source in
      oracle_pipeline sl cfg cur oracle da_provider l1 l2)"

definition eth_range_main where
  "eth_range_main from_bytes cfg_hash oe ke sl env stdin =
     range_main from_bytes cfg_hash oe (ke\<lparr>create_pipeline := eth_create_pipeline sl\<rparr>) env stdin"

definition celestia_range_main where
  "celestia_range_main from_bytes cfg_hash oe ke sl env stdin =
     range_main from_bytes cfg_hash oe (ke\<lparr>create_pipeline := celestia_create_pipeline sl\<rparr>) env stdin"

subsection \<open>The common part\<close>

text \<open>What host and program both run, once they have an oracle and a blob provider.\<close>

definition range_body ::
  "('key, 'blob) oracle_env \<Rightarrow> ('key, 'blob, 'cfg, 'pipe, 'exec, 'cur) kona_range_env
     \<Rightarrow> ('cfg, 'pipe, 'exec, 'cur, 'x, 'tx) driver_env \<Rightarrow> 'key preimage_store \<Rightarrow> 'blob blob_store
     \<Rightarrow> 'cfg kona_boot res" where
  "range_body oe ke env oracle beacon =
     res_bind (expect (get_inputs_for_pipeline oe ke oracle) ''unwrap'') (\<lambda>(boot, input).
       case input of
         Some (cur, l1, l2) \<Rightarrow>
           res_bind (expect (lift_answer (create_pipeline ke (rollup_config boot) cur oracle beacon l1 l2)) ''unwrap'')
             (\<lambda>pipeline. expect (executor_run ke env boot pipeline cur l2) ''unwrap'')
       | None \<Rightarrow> Ok boot)"

lemma run_range_program_body:
  "run_range_program cfg_hash oe ke env w =
     res_bind (expect (get_oracle_and_blob_provider oe w) ''unwrap'') (\<lambda>(oracle, beacon).
     res_bind (range_body oe ke env oracle beacon) (\<lambda>b. Ok (boot_info_from cfg_hash b)))"
  unfolding run_range_program_def range_body_def
  by (rule arg_cong [where f = "res_bind _"]) (auto simp: fun_eq_iff res_bind_def expect_def split: sum.splits option.splits fault.splits)

subsection \<open>The witness generator\<close>

definition generate_witness ::
  "nat \<Rightarrow> ('key, 'blob) oracle_env \<Rightarrow> ('key, 'blob) source_env
     \<Rightarrow> ('key, 'blob, 'cfg, 'pipe, 'exec, 'cur, 'x, 'tx) kona_code \<Rightarrow> ('key, 'blob) witness_data res" where
  "generate_witness fuel oe se kc =
     res_bind (collect oe se (range_code fuel oe kc) 0 \<lparr>wd_preimages = [], wd_blobs = empty_blob_data\<rparr>) (\<lambda>(r, w).
     res_bind r (\<lambda>_. Ok \<lparr>wd_preimages = wd_preimages w, wd_blobs = wd_blobs w\<rparr>))"

definition get_sp1_stdin :: "(('key, 'blob) witness_data \<Rightarrow> error + bytes) \<Rightarrow> ('key, 'blob) witness_data \<Rightarrow> bytes res" where
  "get_sp1_stdin to_bytes w = lift_answer (to_bytes w)"

subsection \<open>The same kona code in the program\<close>

text \<open>
  In the program the pieces of \<open>kona_code\<close> are compiled for the checked preimage store and blob store: the
  executor holds the store, the pipeline the store and the blobs that are left. Compiled in this way they
  are the environments of the range program of theory Derivation. A question that the witness does not answer is an
  error of the piece that asked it.
\<close>

abbreviation oracle_failed :: error where "oracle_failed \<equiv> Msg ''oracle''"

definition in_store :: "('key, 'blob, error + 'r) prog \<Rightarrow> 'key preimage_store \<Rightarrow> error + 'r" where
  "in_store p store = (case replay p (store, []) of Inr (r, s) \<Rightarrow> r | Inl f \<Rightarrow> Inl oracle_failed)"

definition on_store ::
  "('exec \<Rightarrow> ('key, 'blob, (error + 'r) \<times> 'exec) prog) \<Rightarrow> 'exec \<times> 'key preimage_store
     \<Rightarrow> (error + 'r) \<times> ('exec \<times> 'key preimage_store)" where
  "on_store f es =
     (case replay (f (fst es)) (snd es, []) of
        Inr ((r, e'), s) \<Rightarrow> (r, (e', snd es))
      | Inl err \<Rightarrow> (Inl oracle_failed, es))"

definition on_stores ::
  "'r \<Rightarrow> ('pipe \<Rightarrow> ('key, 'blob, 'r \<times> 'pipe) prog) \<Rightarrow> 'pipe \<times> 'key preimage_store \<times> 'blob blob_store
     \<Rightarrow> 'r \<times> ('pipe \<times> 'key preimage_store \<times> 'blob blob_store)" where
  "on_stores failed f ps =
     (case replay (f (fst ps)) (snd ps) of
        Inr ((r, p'), s) \<Rightarrow> (r, (p', s))
      | Inl err \<Rightarrow> (failed, ps))"

definition l1_handle :: "'key preimage_store l1_provider \<Rightarrow> unit l1_provider" where
  "l1_handle l1 = \<lparr>l1p_head = l1p_head l1, l1p_oracle = ()\<rparr>"

definition l2_handle :: "('key preimage_store, 'cfg, 'cur) l2_provider \<Rightarrow> (unit, 'cfg, 'cur) l2_provider" where
  "l2_handle l2 = \<lparr>l2p_head = l2p_head l2, l2p_config = l2p_config l2, l2p_oracle = (), l2p_cursor = l2p_cursor l2\<rparr>"

definition program_range_env ::
  "('key, 'blob, 'cfg, 'pipe, 'exec, 'cur, 'x, 'tx) kona_code
     \<Rightarrow> ('key, 'blob, 'cfg, 'pipe \<times> 'key preimage_store \<times> 'blob blob_store, 'exec \<times> 'key preimage_store, 'cur) kona_range_env" where
  "program_range_env kc =
     \<lparr>load_boot = in_store (kc_load_boot kc),
      header_by_hash = (\<lambda>l2 h. in_store (kc_header_by_hash kc (l2_handle l2) h) (l2p_oracle l2)),
      new_oracle_pipeline_cursor = (\<lambda>cfg h l1 l2.
        in_store (kc_new_cursor kc cfg h (l1_handle l1) (l2_handle l2)) (l2p_oracle l2)),
      create_pipeline = (\<lambda>cfg cur store beacon l1 l2.
        case replay (kc_create_pipeline kc cfg cur (l1_handle l1) (l2_handle l2)) (store, beacon) of
          Inr (Inr p, s) \<Rightarrow> Inr (p, s)
        | Inr (Inl e, s) \<Rightarrow> Inl e
        | Inl err \<Rightarrow> Inl oracle_failed),
      new_executor = (\<lambda>cfg l2. (kc_new_executor kc cfg (l2_handle l2), l2p_oracle l2))\<rparr>"

definition program_driver_env ::
  "('key, 'blob, 'cfg, 'pipe, 'exec, 'cur, 'x, 'tx) kona_code
     \<Rightarrow> ('cfg, 'pipe \<times> 'key preimage_store \<times> 'blob blob_store, 'exec \<times> 'key preimage_store, 'cur, 'x, 'tx) driver_env" where
  "program_driver_env kc =
     \<lparr>produce_payload = (\<lambda>ps i. on_stores (PipelineFailure oracle_failed) (\<lambda>p. kc_produce_payload kc p i) ps),
      signal_flush_channel = on_stores (Inl oracle_failed) (kc_signal_flush_channel kc),
      pipeline_origin = (\<lambda>ps. kc_pipeline_origin kc (fst ps)),
      update_safe_head = (\<lambda>h es. (kc_update_safe_head kc h (fst es), snd es)),
      execute_payload = (\<lambda>a. on_store (kc_execute_payload kc a)),
      compute_output_root = on_store (kc_compute_output_root kc),
      decode_tx = kc_decode_tx kc,
      from_block_and_genesis = (\<lambda>h txs ps. kc_from_block_and_genesis kc h txs (fst ps)),
      cursor_tip = kc_cursor_tip kc, cursor_advance = kc_cursor_advance kc,
      is_interop_active = kc_is_interop_active kc, is_holocene_active = kc_is_holocene_active kc\<rparr>"

text \<open>Only the pipeline holds the blob provider: everything else asks for no blobs.\<close>

primrec asks_no_blobs :: "('key, 'blob, 'r) prog \<Rightarrow> bool" where
  "asks_no_blobs (Done r) \<longleftrightarrow> True"
| "asks_no_blobs (Ask q k) \<longleftrightarrow> (\<forall>hs. q \<noteq> GetBlobs hs) \<and> (\<forall>a. asks_no_blobs (k a))"

definition blobs_in_pipeline_only :: "('key, 'blob, 'cfg, 'pipe, 'exec, 'cur, 'x, 'tx) kona_code \<Rightarrow> bool" where
  "blobs_in_pipeline_only kc \<longleftrightarrow>
     asks_no_blobs (kc_load_boot kc) \<and> (\<forall>l2 h. asks_no_blobs (kc_header_by_hash kc l2 h)) \<and>
     (\<forall>cfg h l1 l2. asks_no_blobs (kc_new_cursor kc cfg h l1 l2)) \<and>
     (\<forall>a e. asks_no_blobs (kc_execute_payload kc a e)) \<and> (\<forall>e. asks_no_blobs (kc_compute_output_root kc e))"

subsection \<open>Questions in sequence\<close>

lemma replay_pbind: "replay (pbind p f) s = res_bind (replay p s) (\<lambda>(x, s'). replay (f x) s')"
  by (induction p arbitrary: s) (auto simp: res_bind_def fun_eq_iff split: sum.splits)

lemma replay_question_store:
  "replay_question q (store, beacon) = Ok (a, s) \<Longrightarrow> fst s = store"
  "replay_question q (store, beacon) = Ok (a, s) \<Longrightarrow> \<forall>hs. q \<noteq> GetBlobs hs \<Longrightarrow>
     s = (store, beacon) \<and> replay_question q (store, b) = Ok (a, store, b)"
  by (cases q; auto simp: replay_question_def res_bind_Ok_iff)+

lemma replay_store: "replay p (store, beacon) = Ok (r, s) \<Longrightarrow> fst s = store"
proof (induction p arbitrary: store beacon)
  case (Ask q k)
  then obtain a s1 where q: "replay_question q (store, beacon) = Ok (a, s1)" and rest: "replay (k a) s1 = Ok (r, s)"
    by (auto simp: res_bind_Ok_iff)
  have "s1 = (store, snd s1)" using replay_question_store(1) [OF q] by (cases s1) simp
  with Ask.IH [OF rangeI [of k a], of store "snd s1"] rest show ?case by simp
qed auto

lemma replay_no_blobs:
  "asks_no_blobs p \<Longrightarrow> replay p (store, beacon) = Ok (r, s) \<Longrightarrow>
     s = (store, beacon) \<and> replay p (store, b) = Ok (r, store, b)"
proof (induction p)
  case (Ask q k)
  then obtain a s1 where q: "replay_question q (store, beacon) = Ok (a, s1)" and rest: "replay (k a) s1 = Ok (r, s)"
    by (auto simp: res_bind_Ok_iff)
  have "s1 = (store, beacon)" "replay_question q (store, b) = Ok (a, store, b)"
    using replay_question_store(2) [OF q, of b] Ask.prems(1) by simp_all
  with Ask.IH [OF rangeI [of k a]] rest Ask.prems(1) show ?case by simp
qed simp

lemma in_store_eq:
  assumes "replay p (store, beacon) = Ok (r, s)" and "asks_no_blobs p"
  shows "in_store p store = r" "s = (store, beacon)"
  using replay_no_blobs [OF assms(2,1), of "[]"] by (simp_all add: in_store_def)

subsection \<open>The program simulates the host\<close>

definition at_stores ::
  "'key preimage_store \<Rightarrow> 'blob blob_store \<Rightarrow> ('pipe, 'exec, 'cur) driver
     \<Rightarrow> ('pipe \<times> 'key preimage_store \<times> 'blob blob_store, 'exec \<times> 'key preimage_store, 'cur) driver" where
  "at_stores store beacon d =
     \<lparr>d_cursor = d_cursor d, d_executor = (d_executor d, store), d_pipeline = (d_pipeline d, store, beacon)\<rparr>"

lemma at_stores_simps [simp]:
  "d_cursor (at_stores store beacon d) = d_cursor d"
  "d_executor (at_stores store beacon d) = (d_executor d, store)"
  "d_pipeline (at_stores store beacon d) = (d_pipeline d, store, beacon)"
  "(at_stores store beacon d)\<lparr>d_cursor := c\<rparr> = at_stores store beacon (d\<lparr>d_cursor := c\<rparr>)"
  "(at_stores store beacon d)\<lparr>d_executor := (e, store)\<rparr> = at_stores store beacon (d\<lparr>d_executor := e\<rparr>)"
  "(at_stores store beacon d)\<lparr>d_pipeline := (p, store, b)\<rparr> = at_stores store b (d\<lparr>d_pipeline := p\<rparr>)"
  by (simp_all add: at_stores_def)

text \<open>Whenever the replay of a step ends, the operation of the program does the same.\<close>

definition simulates ::
  "('key, 'blob, ('pipe, 'exec, 'cur) driver, 'a) step
     \<Rightarrow> (('pipe \<times> 'key preimage_store \<times> 'blob blob_store, 'exec \<times> 'key preimage_store, 'cur) driver, 'a) op \<Rightarrow> bool" where
  "simulates m f \<longleftrightarrow>
     (\<forall>d store beacon r d' s. replay (m d) (store, beacon) = Ok ((r, d'), s) \<longrightarrow>
        fst s = store \<and> f (at_stores store beacon d) = (r, at_stores store (snd s) d'))"

named_theorems sim_intros

lemma sim_then [sim_intros]:
  assumes m: "simulates m f" and k: "\<And>x. simulates (k x) (g x)"
  shows "simulates (then_step m k) (andThen f g)"
  unfolding simulates_def
proof (intro allI impI)
  fix d store beacon r d' s
  assume "replay (then_step m k d) (store, beacon) = Ok ((r, d'), s)"
  then obtain r1 d1 s1 where first: "replay (m d) (store, beacon) = Ok ((r1, d1), s1)"
    and rest: "replay (case r1 of Inl e \<Rightarrow> Done (Inl e, d1) | Inr x \<Rightarrow> k x d1) s1 = Ok ((r, d'), s)"
    by (auto simp: then_step_def replay_pbind res_bind_Ok_iff)
  have one: "fst s1 = store" "f (at_stores store beacon d) = (r1, at_stores store (snd s1) d1)"
    using m first unfolding simulates_def by blast+
  show "fst s = store \<and> andThen f g (at_stores store beacon d) = (r, at_stores store (snd s) d')"
  proof (cases r1)
    case (Inl e)
    then show ?thesis using rest one by (auto simp: andThen_def)
  next
    case (Inr x)
    have "replay (k x d1) (store, snd s1) = Ok ((r, d'), s)"
      using rest one(1) by (simp add: Inr flip: one(1))
    with k [of x] have "fst s = store \<and> g x (at_stores store (snd s1) d1) = (r, at_stores store (snd s) d')"
      unfolding simulates_def by blast
    then show ?thesis using one(2) by (simp add: andThen_def Inr)
  qed
qed

lemma sim_silent:
  assumes "\<And>d store beacon. f (at_stores store beacon d) = (fst (m d), at_stores store beacon (snd (m d)))"
  shows "simulates (silent m) f"
  unfolding simulates_def silent_def using assms by (auto simp: prod_eq_iff)

lemma sim_basic [sim_intros]:
  "simulates (silent (ret x)) (ret x)" "simulates (silent (throw e)) (throw e)" "simulates (silent (lift r)) (lift r)"
  by (rule sim_silent, simp add: op_defs)+

lemma sim_pipeline [sim_intros]: "simulates (ask_pipeline f) (on_pipeline (on_stores failed f))"
  unfolding simulates_def
proof (intro allI impI)
  fix d store beacon r d' s
  assume "replay (ask_pipeline f d) (store, beacon) = Ok ((r, d'), s)"
  then obtain x p where q: "replay (f (d_pipeline d)) (store, beacon) = Ok ((x, p), s)" "r = Ok x" "d' = d\<lparr>d_pipeline := p\<rparr>"
    by (auto simp: ask_pipeline_def replay_pbind res_bind_Ok_iff)
  from replay_store [OF q(1)] have "s = (store, snd s)" by (cases s) simp
  with q show "fst s = store \<and> on_pipeline (on_stores failed f) (at_stores store beacon d) = (r, at_stores store (snd s) d')"
    by (cases s) (simp add: on_pipeline_def on_stores_def)
qed

lemma sim_executor:
  assumes "\<And>e. asks_no_blobs (f e)"
  shows "simulates (ask_executor f) (on_executor (on_store f))"
  unfolding simulates_def
proof (intro allI impI)
  fix d store beacon r d' s
  assume "replay (ask_executor f d) (store, beacon) = Ok ((r, d'), s)"
  then obtain x e where q: "replay (f (d_executor d)) (store, beacon) = Ok ((x, e), s)" "r = Ok x" "d' = d\<lparr>d_executor := e\<rparr>"
    by (auto simp: ask_executor_def replay_pbind res_bind_Ok_iff)
  from replay_no_blobs [OF assms q(1), of "[]"] q
  show "fst s = store \<and> on_executor (on_store f) (at_stores store beacon d) = (r, at_stores store (snd s) d')"
    by (simp add: on_executor_def on_store_def)
qed

lemma sim_update_safe_head [sim_intros]:
  "simulates (silent (on_executor (\<lambda>e. ((), kc_update_safe_head kc h e))))
     (on_executor (\<lambda>e. ((), update_safe_head (program_driver_env kc) h e)))"
  by (rule sim_silent) (simp add: on_executor_def program_driver_env_def)

lemma program_driver_env_simps:
  "produce_payload (program_driver_env kc) ps i =
     on_stores (PipelineFailure oracle_failed) (\<lambda>p. kc_produce_payload kc p i) ps"
  "signal_flush_channel (program_driver_env kc) = on_stores (Inl oracle_failed) (kc_signal_flush_channel kc)"
  "execute_payload (program_driver_env kc) a = on_store (kc_execute_payload kc a)"
  "compute_output_root (program_driver_env kc) = on_store (kc_compute_output_root kc)"
  "decode_tx (program_driver_env kc) = kc_decode_tx kc" "cursor_tip (program_driver_env kc) = kc_cursor_tip kc"
  "cursor_advance (program_driver_env kc) = kc_cursor_advance kc"
  "is_interop_active (program_driver_env kc) = kc_is_interop_active kc"
  "is_holocene_active (program_driver_env kc) = kc_is_holocene_active kc"
  by (simp_all add: program_driver_env_def)

lemma sim_execute_or_retry:
  assumes "blobs_in_pipeline_only kc"
  shows "simulates (execute_or_retry_code kc cfg tip attrs) (execute_or_retry (program_driver_env kc) cfg tip attrs)"
proof -
  have exec: "simulates (ask_executor (kc_execute_payload kc a)) (on_executor (on_store (kc_execute_payload kc a)))" for a
    by (rule sim_executor) (use assms in \<open>simp add: blobs_in_pipeline_only_def\<close>)
  show ?thesis
    unfolding execute_or_retry_code_def execute_or_retry_def
    by (auto simp: program_driver_env_simps intro!: sim_intros exec split: sum.splits)
qed

lemma sim_adopt_block:
  assumes "blobs_in_pipeline_only kc"
  shows "simulates (adopt_block_code kc h attrs) (adopt_block (program_driver_env kc) h attrs)"
proof -
  have root: "simulates (ask_executor (kc_compute_output_root kc)) (on_executor (on_store (kc_compute_output_root kc)))"
    by (rule sim_executor) (use assms in \<open>simp add: blobs_in_pipeline_only_def\<close>)
  have origin: "simulates (silent (asks (\<lambda>d. kc_pipeline_origin kc (d_pipeline d))))
      (asks (\<lambda>d. pipeline_origin (program_driver_env kc) (d_pipeline d)))"
    by (rule sim_silent) (simp add: asks_def program_driver_env_def)
  have info: "simulates (silent (asks (\<lambda>d. kc_from_block_and_genesis kc h txs (d_pipeline d))))
      (asks (\<lambda>d. from_block_and_genesis (program_driver_env kc) h txs (d_pipeline d)))" for txs
    by (rule sim_silent) (simp add: asks_def program_driver_env_def)
  have adv: "simulates (silent (update (\<lambda>d. d\<lparr>d_cursor := g (d_cursor d)\<rparr>))) (update (\<lambda>d. d\<lparr>d_cursor := g (d_cursor d)\<rparr>))" for g
    by (rule sim_silent) (simp add: update_def)
  show ?thesis
    unfolding adopt_block_code_def adopt_block_def
    by (auto simp: program_driver_env_simps intro!: sim_intros root origin info adv split: sum.splits option.splits)
qed

lemma sim_advance_step:
  assumes "blobs_in_pipeline_only kc"
  shows "simulates (advance_step_code kc cfg target) (advance_step (program_driver_env kc) cfg target)"
proof -
  have tip: "simulates (silent (asks (\<lambda>d. kc_cursor_tip kc (d_cursor d)))) (asks (\<lambda>d. kc_cursor_tip kc (d_cursor d)))"
    by (rule sim_silent) (simp add: asks_def)
  have payload: "simulates (ask_pipeline (\<lambda>p. kc_produce_payload kc p i))
      (on_pipeline (\<lambda>p. on_stores (PipelineFailure oracle_failed) (\<lambda>p. kc_produce_payload kc p i) p))" for i
    using sim_pipeline [of "\<lambda>p. kc_produce_payload kc p i" "PipelineFailure oracle_failed"] by simp
  show ?thesis
    unfolding advance_step_code_def advance_step_def
    by (auto simp: program_driver_env_simps intro!: sim_intros tip payload sim_execute_or_retry sim_adopt_block assms
        split: payload_result.splits option.splits)
qed

text \<open>The loop of the program goes on until it returns, the one of the host for a number of iterations.\<close>

lemma sim_advance:
  assumes kc: "blobs_in_pipeline_only kc"
  shows "replay (advance_code fuel kc cfg target d) (store, beacon) = Ok ((Ok x, d'), s) \<Longrightarrow>
    \<exists>b. advance_loop (program_driver_env kc) cfg target (at_stores store beacon d) = Some (Ok x, at_stores store b d')"
proof (induction fuel arbitrary: target d beacon)
  case 0
  then show ?case by (simp add: silent_def throw_def)
next
  case (Suc fuel)
  then obtain r1 d1 s1 where first: "replay (advance_step_code kc cfg target d) (store, beacon) = Ok ((r1, d1), s1)"
    and rest: "replay (case r1 of Inl e \<Rightarrow> Done (Inl e, d1)
        | Inr y \<Rightarrow> (case y of Inr r \<Rightarrow> silent (ret r) | Inl t \<Rightarrow> advance_code fuel kc cfg t) d1) s1 = Ok ((Ok x, d'), s)"
    by (auto simp: then_step_def replay_pbind res_bind_Ok_iff)
  have "fst s1 = store" and step: "advance_step (program_driver_env kc) cfg target (at_stores store beacon d) =
      (r1, at_stores store (snd s1) d1)"
    using sim_advance_step [OF kc] first unfolding simulates_def by blast+
  then have s1: "s1 = (store, snd s1)" by auto
  obtain y where r1: "r1 = Inr y" using rest by (cases r1) auto
  show ?case
  proof (cases y)
    case (Inr r)
    then have "r = x" "d1 = d'" using rest r1 by (simp_all add: silent_def ret_def)
    then show ?thesis using step r1 Inr by (subst advance_loop.simps) auto
  next
    case (Inl t)
    have "replay (advance_code fuel kc cfg t d1) (store, snd s1) = Ok ((Ok x, d'), s)"
      using rest s1 by (simp add: r1 Inl)
    from Suc.IH [OF this] show ?thesis
      by (subst advance_loop.simps) (simp add: step r1 Inl)
  qed
qed

lemma sim_executor_run:
  assumes kc: "blobs_in_pipeline_only kc"
    and run: "replay (executor_run_code fuel kc boot p cur (l2_handle l2)) (l2p_oracle l2, beacon) = Ok (Ok b, s)"
  shows "executor_run (program_range_env kc) (program_driver_env kc) boot (p, l2p_oracle l2, beacon) cur l2 = Ok b"
proof -
  let ?d = "\<lparr>d_cursor = cur, d_executor = kc_new_executor kc (rollup_config boot) (l2_handle l2), d_pipeline = p\<rparr>"
  let ?cfg = "rollup_config boot"
  obtain info root d' s1 where loop: "replay (advance_code fuel kc ?cfg (Some (claimed_l2_block_number boot)) ?d) (l2p_oracle l2, beacon)
        = Ok ((Ok (info, root), d'), s1)"
    and b: "root = claimed_l2_output_root boot" "b = boot"
  proof (cases "replay (advance_code fuel kc ?cfg (Some (claimed_l2_block_number boot)) ?d) (l2p_oracle l2, beacon)")
    case (Inl e)
    then show ?thesis using run by (simp add: executor_run_code_def Let_def replay_pbind)
  next
    case (Inr out)
    obtain r d' s1 where out: "out = ((r, d'), s1)" by (metis prod.collapse)
    have "res_bind r (\<lambda>(safe_head, output_root). if output_root \<noteq> claimed_l2_output_root boot
        then Err (Msg ''Failed to validate L2 block with claimed output root'') else Ok boot) = Ok b"
      using run Inr out by (simp add: executor_run_code_def Let_def replay_pbind)
    then obtain info where "r = Ok (info, claimed_l2_output_root boot)" "b = boot"
      by (cases r) (auto split: if_splits)
    then show ?thesis using that Inr out by blast
  qed
  have start: "at_stores (l2p_oracle l2) beacon ?d =
      \<lparr>d_cursor = cur, d_executor = new_executor (program_range_env kc) ?cfg l2, d_pipeline = (p, l2p_oracle l2, beacon)\<rparr>"
    by (simp add: at_stores_def program_range_env_def)
  from sim_advance [OF kc loop] show ?thesis
    unfolding start by (auto simp: executor_run_def advance_to_target_def run_loop_def Let_def b)
qed

lemma sim_fetch_safe_head_hash:
  "replay (fetch_safe_head_hash_code oe root) (store, beacon) = Ok (r, s) \<Longrightarrow>
     s = (store, beacon) \<and> fetch_safe_head_hash oe store root = r"
  by (auto simp: fetch_safe_head_hash_code_def fetch_safe_head_hash_def replay_question_def res_bind_Ok_iff)

text \<open>The providers of the host, as the program has them.\<close>

definition program_inputs ::
  "'key preimage_store \<Rightarrow> ('cur \<times> unit l1_provider \<times> (unit, 'cfg, 'cur) l2_provider)
     \<Rightarrow> 'cur \<times> 'key preimage_store l1_provider \<times> ('key preimage_store, 'cfg, 'cur) l2_provider" where
  "program_inputs store i =
     (case i of (cur, l1, l2) \<Rightarrow>
       (cur, \<lparr>l1p_head = l1p_head l1, l1p_oracle = store\<rparr>,
        \<lparr>l2p_head = l2p_head l2, l2p_config = l2p_config l2, l2p_oracle = store, l2p_cursor = l2p_cursor l2\<rparr>))"

text \<open>A part whose failure ends the whole.\<close>

lemma replay_match:
  "replay (pbind p (\<lambda>x. case x of Inl e \<Rightarrow> Done (Inl (f e)) | Inr y \<Rightarrow> g y)) s = Ok (Inr z, s') \<longleftrightarrow>
     (\<exists>y s1. replay p s = Ok (Inr y, s1) \<and> replay (g y) s1 = Ok (Inr z, s'))"
proof (cases "replay p s")
  case (Inr r)
  then show ?thesis by (cases r; cases "fst r") (simp_all add: replay_pbind)
qed (simp add: replay_pbind)

lemma replay_guard:
  "replay (if c then Done (Inl e) else p) s = Ok (Inr z, s') \<longleftrightarrow> \<not> c \<and> replay p s = Ok (Inr z, s')"
  by simp

lemma sim_get_inputs:
  assumes kc: "blobs_in_pipeline_only kc"
    and run: "replay (get_inputs_code oe kc) (store, beacon) = Ok (Ok (boot, input), s)"
  shows "s = (store, beacon)"
    "get_inputs_for_pipeline oe (program_range_env kc) store = Ok (boot, map_option (program_inputs store) input)"
proof -
  note no_blobs = kc [unfolded blobs_in_pipeline_only_def]
  obtain boot1 s1 hash s2 hdr s3 cur s4 where load: "replay (kc_load_boot kc) (store, beacon) = Ok (Inr boot1, s1)"
    and hash: "replay (fetch_safe_head_hash_code oe (agreed_l2_output_root boot1)) s1 = Ok (Ok hash, s2)"
    and hdr: "replay (kc_header_by_hash kc \<lparr>l2p_head = hash, l2p_config = rollup_config boot1, l2p_oracle = (),
        l2p_cursor = None\<rparr> hash) s2 = Ok (Inr hdr, s3)"
    and claim: "\<not> claimed_l2_block_number boot1 < number hdr"
    and cur: "replay (kc_new_cursor kc (rollup_config boot1) (hdr, hash) \<lparr>l1p_head = l1_head boot1, l1p_oracle = ()\<rparr>
        \<lparr>l2p_head = hash, l2p_config = rollup_config boot1, l2p_oracle = (), l2p_cursor = None\<rparr>) s3 = Ok (Inr cur, s4)"
    and out: "boot = boot1" "s = s4" "input = Some (cur, \<lparr>l1p_head = l1_head boot1, l1p_oracle = ()\<rparr>,
        \<lparr>l2p_head = hash, l2p_config = rollup_config boot1, l2p_oracle = (), l2p_cursor = Some cur\<rparr>)"
    using run unfolding get_inputs_code_def Let_def replay_match replay_guard l2_provider.simps
    by (simp only: replay.simps sum.inject prod.inject) (elim exE conjE, rule that, (assumption | erule sym)+)
  note load' = in_store_eq [OF load conjunct1 [OF no_blobs]]
  note hash' = sim_fetch_safe_head_hash [OF hash [unfolded load'(2)]]
  have "asks_no_blobs (kc_header_by_hash kc l2 h)" "asks_no_blobs (kc_new_cursor kc cfg p l1 l2)" for l1 l2 h p cfg
    using no_blobs by blast+
  note hdr' = in_store_eq [OF hdr [unfolded conjunct1 [OF hash']] this(1)]
    and cur' = in_store_eq [OF cur [unfolded in_store_eq(2) [OF hdr [unfolded conjunct1 [OF hash']] this(1)]] this(2)]
  show "s = (store, beacon)" using out(2) cur'(2) by simp
  show "get_inputs_for_pipeline oe (program_range_env kc) store = Ok (boot, map_option (program_inputs store) input)"
    using load'(1) hash' hdr'(1) claim cur'(1) out
    by (simp add: get_inputs_for_pipeline_def program_range_env_def lift_answer_def Let_def program_inputs_def
        l1_handle_def l2_handle_def)
qed

lemma sim_range_code:
  assumes kc: "blobs_in_pipeline_only kc"
    and run: "replay (range_code fuel oe kc) (store, beacon) = Ok (Ok b, s)"
  shows "range_body oe (program_range_env kc) (program_driver_env kc) store beacon = Ok b"
proof -
  obtain boot input s1 where inputs: "replay (get_inputs_code oe kc) (store, beacon) = Ok (Ok (boot, input), s1)"
    using run by (auto simp: range_code_def replay_pbind res_bind_Ok_iff expect_def split: sum.splits fault.splits)
  note get = sim_get_inputs [OF kc inputs]
  show ?thesis
  proof (cases input)
    case None
    then show ?thesis using run inputs get
      by (auto simp: range_code_def replay_pbind range_body_def expect_def)
  next
    case (Some i)
    obtain cur l1 l2 where i: "i = (cur, l1, l2)" by (cases i) auto
    let ?cfg = "rollup_config boot"
    obtain p s2 where pipe: "replay (kc_create_pipeline kc ?cfg cur l1 l2) (store, beacon) = Ok (Inr p, s2)"
      and exec: "replay (executor_run_code fuel kc boot p cur l2) s2 = Ok (Ok b, s)"
      using run inputs get(1) Some i
      by (auto simp: range_code_def replay_pbind res_bind_Ok_iff expect_def lift_answer_def split: sum.splits fault.splits)
    obtain l1' l2' where prov: "program_inputs store (cur, l1, l2) = (cur, l1', l2')" "l1_handle l1' = l1"
        "l2_handle l2' = l2" "l2p_oracle l2' = store"
      by (simp add: program_inputs_def l1_handle_def l2_handle_def)
    have s2: "s2 = (l2p_oracle l2', snd s2)" using replay_store [OF pipe] prov(4) by (cases s2) simp
    have "executor_run (program_range_env kc) (program_driver_env kc) boot (p, l2p_oracle l2', snd s2) cur l2' = Ok b"
      by (rule sim_executor_run [OF kc, where s = s]) (use exec s2 prov(3) in simp)
    moreover have "create_pipeline (program_range_env kc) ?cfg cur store beacon l1' l2' = Inr (p, s2)"
      using pipe prov(2,3) by (simp add: program_range_env_def)
    ultimately show ?thesis
      using get(2) Some i prov(1) s2 by (simp add: range_body_def expect_def lift_answer_def)
  qed
qed

subsection \<open>Recording and replaying\<close>

text \<open>A program is a client: its next question is where the answers so far lead in its tree.\<close>

primrec client_of :: "('key, 'blob, 'r) prog \<Rightarrow> ('key, 'blob, 'r) client" where
  "client_of (Done r) = (\<lambda>as. Inr r)"
| "client_of (Ask q k) = (\<lambda>as. case as of [] \<Rightarrow> Inl q | a # rest \<Rightarrow> client_of (k a) rest)"

lemma collect_client:
  "(\<And>bs. c (as @ bs) = client_of p bs) \<Longrightarrow> collect oe se p (length as) w = Ok (r, we) \<Longrightarrow>
     \<exists>fuel. run_collecting fuel oe se c as w = Ok (r, we)"
proof (induction p arbitrary: as w)
  case (Done x)
  from Done.prems(1) [of "[]"] have "c as = Inr x" by simp
  then have "run_collecting 1 oe se c as w = Ok (r, we)" using Done.prems(2) by simp
  then show ?case by blast
next
  case (Ask q k)
  obtain a w1 where q: "collect_question oe se (length as) q w = Ok (a, w1)"
    and rest: "collect oe se (k a) (length (as @ [a])) w1 = Ok (r, we)"
    using Ask.prems(2) by (auto simp: res_bind_Ok_iff)
  have "c ((as @ [a]) @ bs) = client_of (k a) bs" for bs using Ask.prems(1) [of "a # bs"] by simp
  from Ask.IH [OF rangeI this rest] obtain fuel where "run_collecting fuel oe se c (as @ [a]) w1 = Ok (r, we)" by blast
  then have "run_collecting (Suc fuel) oe se c as w = Ok (r, we)"
    using q Ask.prems(1) [of "[]"] by simp
  then show ?case by blast
qed

lemma replay_client:
  "(\<And>bs. c (as @ bs) = client_of p bs) \<Longrightarrow> run_replaying fuel c as s = Ok out \<Longrightarrow> replay p s = Ok out"
proof (induction p arbitrary: as s fuel)
  case (Done x)
  from Done.prems(1) [of "[]"] have "c as = Inr x" by simp
  with Done.prems(2) show ?case by (cases fuel) auto
next
  case (Ask q k)
  have c: "c as = Inl q" using Ask.prems(1) [of "[]"] by simp
  then obtain f a s1 where q: "replay_question q s = Ok (a, s1)" and rest: "run_replaying f c (as @ [a]) s1 = Ok out"
    using Ask.prems(2) by (cases fuel) (auto simp: res_bind_Ok_iff)
  have "c ((as @ [a]) @ bs) = client_of (k a) bs" for bs using Ask.prems(1) [of "a # bs"] by simp
  from Ask.IH [OF rangeI this rest] q show ?case by simp
qed

lemma collected_program_replays:
  assumes "honest_source oe se" and "kzg_complete oe"
    and run: "collect oe se p 0 \<lparr>wd_preimages = [], wd_blobs = empty_blob_data\<rparr> = Ok (r, w)"
  shows "\<exists>s store. get_oracle_and_blob_provider oe w = Ok s \<and> replay p s = Ok (r, store, [])"
proof -
  have c: "client_of p ([] @ bs) = client_of p bs" for bs by simp
  have "\<exists>fuel. run_collecting fuel oe se (client_of p) [] \<lparr>wd_preimages = [], wd_blobs = empty_blob_data\<rparr> = Ok (r, w)"
    by (rule collect_client [OF c]) (use run in simp)
  then obtain fuel where "run_collecting fuel oe se (client_of p) [] \<lparr>wd_preimages = [], wd_blobs = empty_blob_data\<rparr> = Ok (r, w)"
    by blast
  from recorded_run_replays [OF assms(1,2) this] show ?thesis using replay_client [OF c] by blast
qed

lemma generated_witness_accepted:
  assumes h: "honest_source oe se" and kzg: "kzg_complete oe" and kc: "blobs_in_pipeline_only kc"
    and gen: "generate_witness fuel oe se kc = Ok w"
  shows "\<exists>boot. collect oe se (range_code fuel oe kc) 0 \<lparr>wd_preimages = [], wd_blobs = empty_blob_data\<rparr> = Ok (Ok boot, w)
    \<and> run_range_program cfg_hash oe (program_range_env kc) (program_driver_env kc) w = Ok (boot_info_from cfg_hash boot)"
proof -
  obtain boot where run: "collect oe se (range_code fuel oe kc) 0 \<lparr>wd_preimages = [], wd_blobs = empty_blob_data\<rparr> = Ok (Ok boot, w)"
    using gen by (auto simp: generate_witness_def res_bind_Ok_iff)
  obtain orc beacon store where ok: "get_oracle_and_blob_provider oe w = Ok (orc, beacon)"
    and replay: "replay (range_code fuel oe kc) (orc, beacon) = Ok (Ok boot, store, [])"
    using collected_program_replays [OF h kzg run] by (metis prod.collapse)
  from sim_range_code [OF kc replay] show ?thesis using run ok by (simp add: run_range_program_body expect_def)
qed

subsection \<open>A concrete generation\<close>

text \<open>
  Two blocks: each payload is derived from a blob, each execution reads a preimage. The transactions of the second
  block fail, so that it is executed again with its deposits only.
\<close>

definition sample_host_source :: "(key_type \<times> bytes, bytes) source_env" where
  "sample_host_source =
     \<lparr>se_get = (\<lambda>k t. Inr (rev (snd k))),
      se_get_exact = (\<lambda>k n t. if n = 128 then Inr (replicate 128 0) else Inl RpcError),
      se_blobs = (\<lambda>hs t. if list_all (\<lambda>h. 1 # take 2 (tl h) = h) hs then Inr (map tl hs) else Inl RpcError),
      se_write = (\<lambda>_ _. Inr ())\<rparr>"

definition sample_host_boot :: "unit kona_boot" where
  "sample_host_boot =
     \<lparr>l1_head = [5], agreed_l2_output_root = replicate 128 0, claimed_l2_output_root = [2],
      claimed_l2_block_number = 2, rollup_config = ()\<rparr>"

definition sample_kona_code :: "(key_type \<times> bytes, bytes, unit, nat, int, tip_cursor, unit, bytes) kona_code" where
  "sample_kona_code =
     \<lparr>kc_load_boot = Ask (GetPreimage (LocalKey, [1])) (\<lambda>_. Done (Inr sample_host_boot)),
      kc_header_by_hash = (\<lambda>l2 h. Ask (GetPreimage (Keccak256Key, h)) (\<lambda>_. Done (Inr (sample_l2_header 0)))),
      kc_new_cursor = (\<lambda>cfg h l1 l2. Done (Inr (sample_tip (number (fst h))))),
      kc_create_pipeline = (\<lambda>cfg cur l1 l2. Done (Inr 3)), kc_new_executor = (\<lambda>cfg l2. 0),
      kc_produce_payload = (\<lambda>p i. case p of
          0 \<Rightarrow> Done (EndOfSource, 0)
        | Suc q \<Rightarrow> Ask (GetBlobs [[1, 7, word_of_nat q]])
            (\<lambda>a. Done (case a of Blobs [b] \<Rightarrow> Payload (sample_payload (br_number (li_block_info i) + 1))
              | _ \<Rightarrow> PipelineFailure RpcError, q))),
      kc_signal_flush_channel = (\<lambda>p. Done (Inr (), p)),
      kc_pipeline_origin = pipeline_origin sample_driver_env,
      kc_update_safe_head = (\<lambda>h e. number h),
      kc_execute_payload = (\<lambda>a e. Ask (GetPreimage (Keccak256Key, [8, word_of_int e]))
        (\<lambda>_. Done (execute_payload sample_driver_env a e))),
      kc_compute_output_root = (\<lambda>e. Done (Inr [word_of_int e], e)),
      kc_decode_tx = (\<lambda>tx. Inr tx), kc_from_block_and_genesis = from_block_and_genesis sample_driver_env,
      kc_cursor_tip = (\<lambda>c. c), kc_cursor_advance = (\<lambda>o1 t c. t),
      kc_is_interop_active = (\<lambda>_ _. False), kc_is_holocene_active = (\<lambda>_ _. True)\<rparr>"

lemma sample_host_source_honest: "honest_source sample_oracle sample_host_source"
  by (auto simp: honest_source_def sample_oracle_def sample_host_source_def list_all_iff map_idI split: if_splits)

lemma sample_kona_code_blobs: "blobs_in_pipeline_only sample_kona_code"
  by (simp add: blobs_in_pipeline_only_def sample_kona_code_def)

lemma replicate_neq_pair:
  "replicate 32 x \<noteq> [a, b]" "[a, b] \<noteq> replicate 32 x" "replicate 128 x \<noteq> [a, b]" "[a, b] \<noteq> replicate 128 x"
  by (auto dest: arg_cong [where f = length])

lemmas step_code_defs = then_step_def silent_def ask_executor_def ask_pipeline_def advance_step_code_def
  execute_or_retry_code_def adopt_block_code_def op_defs on_executor_def

lemmas recording_defs = collector_defs push_blob_def get_blob_data_def lift_answer_def save_preimage_def
  check_preimage_def expected_hash_def expect_def

lemma sample_recorded:
  "\<exists>w. collect sample_oracle sample_host_source (range_code 3 sample_oracle sample_kona_code) 0
      \<lparr>wd_preimages = [], wd_blobs = empty_blob_data\<rparr> = Ok (Ok sample_host_boot, w)
     \<and> bd_blobs (wd_blobs w) = [[7, 2], [7, 1]]"
  by (simp add: numeral_3_eq_3 range_code_def get_inputs_code_def fetch_safe_head_hash_code_def
      sample_kona_code_def Let_def,
    simp add: recording_defs sample_host_source_def sample_oracle_def sample_host_boot_def sample_l2_header_def
      sample_driver_env_def sample_payload_def sample_tip_def,
    simp add: executor_run_code_def Let_def step_code_defs recording_defs replicate_neq_pair sample_l2_header_def
      sample_payload_def sample_tip_def deposits_only_def deposit_type_def empty_blob_data_def)

subsection \<open>Property\<close>

text \<open>C7. (refinement) What the host generates, the program accepts. If the witness generator returns a
  witness, then its own run of boot, derivation and execution on the recording oracle has ended with some boot
  information, and the range program, given the serialized witness on its standard input, passes all checks
  of preimages and blobs, runs its derivation loop to the end and commits exactly this boot information. Host and program
  are the code of the client, once over one shared recording oracle and blob provider, once over the checked stores;
  the kona pieces that both use are the same programs, of which only the pipeline asks for blobs.
  The real oracle must serve the lengths and blobs that were asked for, and the
  commitments it computes must verify.\<close>

theorem generated_witness_is_committed:
  assumes "honest_source oe se" and "kzg_complete oe" and "blobs_in_pipeline_only kc"
    and "generate_witness fuel oe se kc = Ok w"
    and "get_sp1_stdin to_bytes w = Ok stdin" and "from_bytes stdin = Inr w"
  shows "\<exists>boot. collect oe se (range_code fuel oe kc) 0 \<lparr>wd_preimages = [], wd_blobs = empty_blob_data\<rparr> = Ok (Ok boot, w)
    \<and> range_main from_bytes cfg_hash oe (program_range_env kc) (program_driver_env kc) stdin
        = Ok (boot_info_from cfg_hash boot)"
  using generated_witness_accepted [OF assms(1-4)] assms(6)
  by (simp add: range_main_def lift_answer_def expect_def)

theorem generated_witness_is_committed_witness:
  "\<exists>w. generate_witness 3 sample_oracle sample_host_source sample_kona_code = Ok w
     \<and> bd_blobs (wd_blobs w) = [[7, 2], [7, 1]]
     \<and> range_main (\<lambda>_. Inr w) (\<lambda>_. [7]) sample_oracle (program_range_env sample_kona_code)
        (program_driver_env sample_kona_code) [1] = Ok (boot_info_from (\<lambda>_. [7]) sample_host_boot)"
proof -
  obtain w where run: "collect sample_oracle sample_host_source (range_code 3 sample_oracle sample_kona_code) 0
      \<lparr>wd_preimages = [], wd_blobs = empty_blob_data\<rparr> = Ok (Ok sample_host_boot, w)"
    and blobs: "bd_blobs (wd_blobs w) = [[7, 2], [7, 1]]"
    using sample_recorded by blast
  have w: "generate_witness 3 sample_oracle sample_host_source sample_kona_code = Ok w"
    by (simp add: generate_witness_def run)
  have "get_sp1_stdin (\<lambda>_. Inr [1]) w = Ok [1]" by (simp add: get_sp1_stdin_def lift_answer_def)
  from generated_witness_is_committed [OF sample_host_source_honest sample_kzg sample_kona_code_blobs w this,
      where from_bytes = "\<lambda>_. Inr w" and cfg_hash = "\<lambda>_. [7]", OF refl] w run blobs
  show ?thesis by auto
qed

end
