(* ===== verification/Startup.thy ===== *)
theory Startup
  imports Deployment ProposerSafety Challenger FaultProposer Celestia
begin

text \<open>
  The start of the services (\<open>validity/bin/validity.rs\<close>, \<open>fault-proof/bin/proposer.rs\<close>, the \<open>main\<close> of
  \<open>fault-proof/bin/challenger.rs\<close>): from the process environment to the record of the running
  service. A start reads the settings, loads the rollup configuration into a file, connects, and
  builds the proposer. The last part follows the validity service through many starts with
  changing settings on one database.
\<close>

subsection \<open>A process with a disk\<close>

record process = proposer_state +
  process_files :: "string \<rightharpoonup> string"

definition on_disk :: "(disk, 'a) op \<Rightarrow> ('z process_scheme, 'a) op" where
  "on_disk m s =
     (case m \<lparr>tick = tick s, files = process_files s\<rparr> of
        (r, d) \<Rightarrow> (r, s\<lparr>tick := tick d, process_files := files d\<rparr>))"

text \<open>\<open>env::var(key).unwrap().parse().unwrap()\<close>.\<close>

definition env_must :: "environment \<Rightarrow> (string \<Rightarrow> 'a option) \<Rightarrow> string \<Rightarrow> 'a res" where
  "env_must env parse key =
     res_bind (unwrap (env key) (key @ '' must be set'')) (\<lambda>v. unwrap (parse v) ''unwrap'')"

definition network_private_key :: "environment \<Rightarrow> string" where
  "network_private_key env =
     (case env ''NETWORK_PRIVATE_KEY'' of
        None \<Rightarrow> ''0x0000000000000000000000000000000000000000000000000000000000000001''
      | Some k \<Rightarrow> k)"

subsection \<open>The validity service\<close>

text \<open>
  What the service gets from outside the repository: the parsers, the HTTP client, the file system,
  hash functions, the database at a URL (\<open>connect\<close> with its migrations) with the nodes of a
  configuration, the contracts seen with a signer, the SP1 SDK with a private key, and the host that
  the build selects.
\<close>

record ('args, 'wit, 'stdin, 'cfg) service =
  sv_parsers :: parsers
  sv_post :: http_post
  sv_fs :: fs_env
  sv_rollup :: "'cfg rollup_lib"
  sv_keccak :: "bytes \<Rightarrow> b256"
  sv_sha256 :: "bytes \<Rightarrow> b256"
  sv_hash_slow :: "header \<Rightarrow> b256"
  sv_keys :: prover_keys
  sv_connect :: "string \<Rightarrow> nat \<Rightarrow> error + unit"
  sv_db :: "string \<Rightarrow> rpc_config \<Rightarrow> db_env"
  sv_sp1 :: "string \<Rightarrow> 'stdin sp1_env"
  sv_contracts :: "signer \<Rightarrow> url \<Rightarrow> address \<Rightarrow> address \<Rightarrow> contract_env"
  sv_host :: "'cfg data_fetcher \<Rightarrow> (proposer_state, 'args, 'wit, 'stdin) succinct_host"
  sv_task_order :: "nat \<Rightarrow> nat list"

definition requester_config_of :: "environment_config \<Rightarrow> b256 \<Rightarrow> int \<Rightarrow> int \<Rightarrow> requester_config" where
  "requester_config_of c config_name_hash l1 l2 =
     \<lparr>rc_l1_chain_id = as_i64 l1, rc_l2_chain_id = as_i64 l2,
      rc_prover_address = ec_prover_address c, rc_l2oo_address = ec_l2oo_address c,
      rc_dgf_address = ec_dgf_address c, rc_range_proof_interval = ec_range_proof_interval c,
      rc_submission_interval = ec_submission_interval c,
      rc_max_concurrent_witness_gen = ec_max_concurrent_witness_gen c,
      rc_max_concurrent_proof_requests = ec_max_concurrent_proof_requests c,
      rc_config_name_hash = config_name_hash, rc_mock = ec_mock c,
      rc_use_local_proving = ec_use_local_proving c\<rparr>"

text \<open>The end of \<open>Proposer::new\<close>: the requester and the proposer for the keys and commitments.\<close>

definition requester_of ::
  "('args, 'wit, 'stdin, 'cfg) service \<Rightarrow> environment \<Rightarrow> environment_config \<Rightarrow> 'cfg data_fetcher
     \<Rightarrow> program_config \<Rightarrow> (proposer_state, 'args, 'wit, 'stdin) requester" where
  "requester_of sv env c fetcher pc =
     \<lparr>pr_host = sv_host sv fetcher, pr_env = sv_db sv (ec_db_url c) (df_rpc fetcher),
      pr_sp1 = sv_sp1 sv (network_private_key env),
      pr_network_prover = \<not> ec_use_local_proving c, pr_local_prover = ec_use_local_proving c,
      pr_program_config = pc, pr_mock = ec_mock c,
      pr_range_strategy = ec_range_proof_strategy c, pr_agg_strategy = ec_agg_proof_strategy c,
      pr_agg_mode = ec_agg_proof_mode c, pr_safe_db_fallback = ec_safe_db_fallback c,
      pr_use_local_proving = ec_use_local_proving c\<rparr>"

definition proposer_of ::
  "('args, 'wit, 'stdin, 'cfg) service \<Rightarrow> environment \<Rightarrow> environment_config \<Rightarrow> 'cfg data_fetcher
     \<Rightarrow> requester_config \<Rightarrow> program_config \<Rightarrow> ('args, 'wit, 'stdin) proposer" where
  "proposer_of sv env c fetcher rc pc =
     \<lparr>p_config = rc, p_requester = requester_of sv env c fetcher pc,
      p_contracts = sv_contracts sv (ec_signer c) (ec_l1_rpc c) (rc_l2oo_address rc) (rc_dgf_address rc),
      p_hash_slow = sv_hash_slow sv, p_task_order = sv_task_order sv,
      p_loop_interval = ec_loop_interval c\<rparr>"

definition validity_main ::
  "('args, 'wit, 'stdin, 'cfg) service \<Rightarrow> environment
     \<Rightarrow> (process, ('args, 'wit, 'stdin) proposer) op" where
  "validity_main sv env =
     andThen (on_disk (new_with_rollup_config (sv_parsers sv) env (sv_post sv) (sv_fs sv) (sv_rollup sv)))
       (\<lambda>fetcher.
     andThen (lift (read_proposer_env (sv_parsers sv) env)) (\<lambda>c.
     andThen (call (sv_connect sv (ec_db_url c))) (\<lambda>_.
     let db = sv_db sv (ec_db_url c) (df_rpc fetcher);
         config_name_hash = sv_keccak sv (as_bytes (ec_op_succinct_config_name c)) in
     andThen (call (l1_chain_id_rpc (rpc db))) (\<lambda>l1.
     andThen (call (l2_chain_id_rpc (rpc db))) (\<lambda>l2.
     let rc = requester_config_of c config_name_hash l1 l2 in
     andThen (proposer_new db rc (ec_loop_interval c) (pk_range_hash_u32 (sv_keys sv))
                (of_hex (pk_agg_bytes32 (sv_keys sv)))
                (map_option (hash_rollup_config (sv_sha256 sv) (sv_rollup sv)) (df_rollup_config fetcher)))
       (\<lambda>pc.
     andThen (update (\<lambda>s. s\<lparr>tasks := [], detached := []\<rparr>)) (\<lambda>_.
       ret (proposer_of sv env c fetcher rc pc))))))))"

subsection \<open>The fault proof proposer\<close>

record fault_process = fault_state +
  fault_files :: "string \<rightharpoonup> string"

definition on_fault_disk :: "(disk, 'a) op \<Rightarrow> (fault_process, 'a) op" where
  "on_fault_disk m s =
     (case m \<lparr>tick = tick s, files = fault_files s\<rparr> of
        (r, d) \<Rightarrow> (r, s\<lparr>tick := tick d, fault_files := files d\<rparr>))"

text \<open>An operation of the running proposer as a step of its process.\<close>

definition in_process :: "(fault_state, 'a) op \<Rightarrow> (fault_process, 'a) op" where
  "in_process m s =
     (case m (fault_state.truncate s) of
        (r, t) \<Rightarrow> (r, fault_state.extend t (fault_process.fields (fault_files s))))"

text \<open>
  \<open>fv_games\<close>: the contracts and nodes seen with a signer, the two endpoints and the factory.
\<close>

record ('args, 'wit, 'stdin, 'cfg) fault_service =
  fv_parsers :: parsers
  fv_post :: http_post
  fv_fs :: fs_env
  fv_rollup :: "'cfg rollup_lib"
  fv_games :: "signer \<Rightarrow> url \<Rightarrow> url \<Rightarrow> address \<Rightarrow> game_env"
  fv_host :: "'cfg data_fetcher \<Rightarrow> (fault_state, 'args, 'wit, 'stdin) succinct_host"
  fv_sp1 :: "string \<Rightarrow> 'stdin sp1_env"
  fv_prove :: "string \<Rightarrow> 'stdin fault_job \<Rightarrow> nat \<Rightarrow> error + sp1_proof_pv"
  fv_new_fetcher :: "nat \<Rightarrow> error + unit"
  fv_range_vk :: vkey

definition prover_address_from_env :: "parsers \<Rightarrow> environment \<Rightarrow> signer \<Rightarrow> address" where
  "prover_address_from_env ps env sg =
     (case Option.bind (env ''PROVER_ADDRESS'') (ps_address ps) of
        None \<Rightarrow> signer_address sg
      | Some a \<Rightarrow> a)"

definition fault_proposer_of ::
  "('args, 'wit, 'stdin, 'cfg) fault_service \<Rightarrow> environment \<Rightarrow> signer \<Rightarrow> address \<Rightarrow> address
     \<Rightarrow> 'cfg data_fetcher \<Rightarrow> (fault_state, ('args, 'wit, 'stdin) fault_proposer) op" where
  "fault_proposer_of fv env sg prover factory fetcher =
     andThen (lift (fault_proposer_from_env (fv_parsers fv) env)) (\<lambda>c.
       fault_proposer_new
         \<lparr>fp_config = fault_proposer_config.truncate c,
          fp_env = fv_games fv sg (fs_l1_rpc c) (fs_l2_rpc c) factory,
          fp_host = fv_host fv fetcher, fp_sp1 = fv_sp1 fv (network_private_key env),
          fp_prove = fv_prove fv (network_private_key env), fp_new_fetcher = fv_new_fetcher fv,
          fp_range_vk = fv_range_vk fv, fp_prover_address = prover, fp_init_bond = 0\<rparr>)"

definition fault_proposer_main ::
  "('args, 'wit, 'stdin, 'cfg) fault_service \<Rightarrow> environment
     \<Rightarrow> (fault_process, ('args, 'wit, 'stdin) fault_proposer) op" where
  "fault_proposer_main fv env =
     andThen (lift (signer_from_env (fv_parsers fv) env)) (\<lambda>sg.
     andThen (lift (env_must env (ps_url (fv_parsers fv)) ''L1_RPC'')) (\<lambda>_.
     andThen (lift (env_must env (ps_address (fv_parsers fv)) ''FACTORY_ADDRESS'')) (\<lambda>factory.
     let prover = prover_address_from_env (fv_parsers fv) env sg in
     andThen (on_fault_disk
       (new_with_rollup_config (fv_parsers fv) env (fv_post fv) (fv_fs fv) (fv_rollup fv))) (\<lambda>fetcher.
       unwrapping (in_process (fault_proposer_of fv env sg prover factory fetcher))))))"

subsection \<open>The challenger\<close>

record challenger_settings = challenger_config +
  cs_l1_rpc :: url
  cs_l2_rpc :: url
  cs_factory_address :: address
  cs_fetch_interval :: int
  cs_metrics_port :: int

text \<open>\<open>parse_f64\<close> reads the percentage; reals stand for \<open>f64\<close>.\<close>

definition challenger_from_env ::
  "parsers \<Rightarrow> (string \<Rightarrow> real option) \<Rightarrow> environment \<Rightarrow> challenger_settings res" where
  "challenger_from_env ps parse_f64 env =
     res_bind (env_expect env (ps_url ps) ''L1_RPC'') (\<lambda>l1.
     res_bind (env_expect env (ps_url ps) ''L2_RPC'') (\<lambda>l2.
     res_bind (env_expect env (ps_address ps) ''FACTORY_ADDRESS'') (\<lambda>factory.
     res_bind (unwrap (env ''GAME_TYPE'') ''GAME_TYPE not set'') (\<lambda>game_type_str.
     res_bind (parse_or_err parse_u32 game_type_str) (\<lambda>game_type.
     res_bind (env_parse env parse_u64 ''FETCH_INTERVAL'' ''30'') (\<lambda>fetch_interval.
     res_bind (env_parse env parse_u64 ''MAX_GAMES_TO_CHECK_FOR_CHALLENGE'' ''100'') (\<lambda>max_challenge.
     res_bind (env_parse env parse_bool ''ENABLE_GAME_RESOLUTION'' ''true'') (\<lambda>enable_game_resolution.
     res_bind (env_parse env parse_u64 ''MAX_GAMES_TO_CHECK_FOR_RESOLUTION'' ''100'') (\<lambda>max_resolution.
     res_bind (env_parse env parse_u64 ''MAX_GAMES_TO_CHECK_FOR_BOND_CLAIMING'' ''100'') (\<lambda>max_bonds.
     res_bind (env_parse env parse_u16 ''CHALLENGER_METRICS_PORT'' ''9001'') (\<lambda>metrics_port.
     res_bind (env_parse env parse_f64 ''MALICIOUS_CHALLENGE_PERCENTAGE'' ''0.0'') (\<lambda>percentage.
       Ok \<lparr>cc_game_type = game_type, cc_max_games_to_check_for_challenge = max_challenge,
           cc_enable_game_resolution = enable_game_resolution,
           cc_max_games_to_check_for_resolution = max_resolution,
           cc_max_games_to_check_for_bond_claiming = max_bonds,
           cc_malicious_challenge_percentage = percentage, cs_l1_rpc = l1, cs_l2_rpc = l2,
           cs_factory_address = factory, cs_fetch_interval = fetch_interval,
           cs_metrics_port = metrics_port\<rparr>))))))))))))"

definition challenger_of ::
  "(signer \<Rightarrow> url \<Rightarrow> url \<Rightarrow> address \<Rightarrow> game_env) \<Rightarrow> (nat \<Rightarrow> real) \<Rightarrow> signer \<Rightarrow> address
     \<Rightarrow> challenger_settings \<Rightarrow> challenger" where
  "challenger_of games rnd sg factory c =
     \<lparr>ch_config = challenger_config.truncate c,
      ch_env = games sg (cs_l1_rpc c) (cs_l2_rpc c) factory,
      ch_address = signer_address sg, ch_bond = 0, ch_random = rnd\<rparr>"

definition challenger_main ::
  "parsers \<Rightarrow> (string \<Rightarrow> real option) \<Rightarrow> (signer \<Rightarrow> url \<Rightarrow> url \<Rightarrow> address \<Rightarrow> game_env)
     \<Rightarrow> (nat \<Rightarrow> real) \<Rightarrow> environment \<Rightarrow> ('z io_scheme, challenger) op" where
  "challenger_main ps parse_f64 games rnd env =
     andThen (lift (signer_from_env ps env)) (\<lambda>sg.
     andThen (lift (env_must env (ps_url ps) ''L1_RPC'')) (\<lambda>_.
     andThen (lift (env_must env (ps_address ps) ''FACTORY_ADDRESS'')) (\<lambda>factory.
       unwrapping (andThen (lift (challenger_from_env ps parse_f64 env)) (\<lambda>c.
         challenger_new (challenger_of games rnd sg factory c))))))"

subsection \<open>What a start leaves\<close>

lemma on_disk_table:
  "on_disk m s = (r, s') \<Longrightarrow>
     requests s' = requests s \<and> next_id s' = next_id s \<and> chain_locks s' = chain_locks s"
  by (auto simp: on_disk_def split: prod.splits)

lemma call_table:
  fixes s :: "'z world_scheme"
  shows "call f s = (r, s') \<Longrightarrow>
     requests s' = requests s \<and> next_id s' = next_id s \<and> chain_locks s' = chain_locks s"
  by (auto simp: call_def)

text \<open>The two columns of a table that \<open>db_ok\<close> and the queries read.\<close>

definition same_table :: "'y world_scheme \<Rightarrow> 'z world_scheme \<Rightarrow> bool" where
  "same_table s t \<longleftrightarrow> requests t = requests s \<and> next_id t = next_id s"

lemma same_table_refl [simp]: "same_table s s"
  by (simp add: same_table_def)

lemma keeps_same_table:
  fixes m :: "('z world_scheme, 'a) op"
  assumes "keeps (same_table s) m" "m s = (r, s')"
  shows "same_table s s'"
  using assms unfolding keeps_def by (metis same_table_refl snd_conv)

lemma keeps_table_disk [keeps_intros]: "keeps (same_table s) (on_disk m)"
  by (auto simp: keeps_def same_table_def on_disk_def split: prod.splits)

lemma keeps_table_lock [keeps_intros]: "keeps (same_table s) (acquire_chain_lock env l1 l2 iv)"
  unfolding acquire_chain_lock_def is_chain_locked_def add_chain_lock_def
  by (auto simp: keeps_def same_table_def andThen_def lift_def throw_def db_read_def db_exec_def pg_interval_def
      Let_def split: sum.splits db_fate.splits if_splits)

lemma keeps_table_new [keeps_intros]: "keeps (same_table s) (proposer_new env rc iv rv av h)"
  unfolding proposer_new_def by (intro keeps_intros)

lemma start_keeps_table:
  assumes "validity_main sv env s = (r, s')"
  shows "same_table s s'"
proof -
  have "keeps (same_table s) (validity_main sv env)"
    unfolding validity_main_def Let_def
    by (intro keeps_intros keeps_call keeps_update) (simp_all add: same_table_def)
  then show ?thesis using assms by (rule keeps_same_table)
qed

lemma validity_main_Ok:
  assumes "validity_main sv env s = (Ok p, s')"
  shows "tasks s' = []" "detached s' = []"
    and "\<exists>fetcher c h l1 l2 pc. read_proposer_env (sv_parsers sv) env = Ok c
      \<and> p = proposer_of sv env c fetcher (requester_config_of c h l1 l2) pc"
  using assms
  by (auto simp: validity_main_def Let_def andThen_eq_Ok lift_def ret_def update_def) blast

lemma started_settings:
  assumes "validity_main sv env s = (Ok p, s')"
  shows "rc_range_proof_interval (p_config p) = setting env parse_u64 ''RANGE_PROOF_INTERVAL'' 1800"
    and "\<exists>fetcher. pr_host (p_requester p) = sv_host sv fetcher"
    and "\<exists>sg u a b. p_contracts p = sv_contracts sv sg u a b"
proof -
  obtain fetcher c h l1 l2 pc where c: "read_proposer_env (sv_parsers sv) env = Ok c"
    and p: "p = proposer_of sv env c fetcher (requester_config_of c h l1 l2) pc"
    using validity_main_Ok(3) [OF assms] by blast
  have "ec_range_proof_interval c = setting env parse_u64 ''RANGE_PROOF_INTERVAL'' 1800"
    by (rule read_proposer_env_values [OF c])
  then show "rc_range_proof_interval (p_config p) = setting env parse_u64 ''RANGE_PROOF_INTERVAL'' 1800"
    by (simp add: p proposer_of_def requester_config_of_def)
  show "\<exists>fetcher. pr_host (p_requester p) = sv_host sv fetcher"
    by (auto simp: p proposer_of_def requester_of_def)
  show "\<exists>sg u a b. p_contracts p = sv_contracts sv sg u a b"
    by (auto simp: p proposer_of_def)
qed

text \<open>
  A start succeeds only if no other proposer has refreshed the lock of the chains within the loop
  interval, and it leaves the lock taken.
\<close>

lemma acquire_chain_lock_Ok:
  assumes "acquire_chain_lock env l1 l2 iv s = (Ok u, s')"
  shows "\<exists>t. chain_locks s' = (chain_locks s)((l1, l2) \<mapsto> t)"
    and "chain_locks s (l1, l2) = Some t0 \<Longrightarrow> t0 \<le> db_now env (tick s) - iv"
  using assms
  by (cases "db_fate_at env (tick s)"; auto simp: acquire_chain_lock_def is_chain_locked_def add_chain_lock_def
      andThen_eq_Ok lift_def throw_def db_read_def db_exec_def pg_interval_def Let_def
      split: db_fate.splits if_splits)+

lemma start_takes_lock:
  assumes "validity_main sv env s = (Ok p, s')"
  shows "\<exists>t. chain_locks s' = (chain_locks s)((p_l1 p, p_l2 p) \<mapsto> t)"
    and "chain_locks s (p_l1 p, p_l2 p) = Some t0 \<Longrightarrow>
      \<exists>k. t0 \<le> db_now (p_env p) k - p_loop_interval p"
proof -
  obtain fetcher c h l1 l2 pc and s1 s2 :: process where new: "proposer_new (sv_db sv (ec_db_url c) (df_rpc fetcher))
        (requester_config_of c h l1 l2) (ec_loop_interval c) (pk_range_hash_u32 (sv_keys sv))
        (of_hex (pk_agg_bytes32 (sv_keys sv)))
        (map_option (hash_rollup_config (sv_sha256 sv) (sv_rollup sv)) (df_rollup_config fetcher)) s1 = (Ok pc, s2)"
    and p: "p = proposer_of sv env c fetcher (requester_config_of c h l1 l2) pc"
    and locks: "chain_locks s1 = chain_locks s" "chain_locks s' = chain_locks s2"
    using assms
    by (auto simp: validity_main_def Let_def andThen_eq_Ok lift_def ret_def update_def
        dest!: on_disk_table call_table)
  obtain u and s3 :: process where "acquire_chain_lock (p_env p) (p_l1 p) (p_l2 p) (p_loop_interval p) s1 = (Ok u, s3)"
    and "chain_locks s2 = chain_locks s3"
    using new by (auto simp: proposer_new_def andThen_eq_Ok lift_def ret_def p proposer_of_def requester_of_def)
  note lock = acquire_chain_lock_Ok [OF this(1)] this(2)
  show "\<exists>t. chain_locks s' = (chain_locks s)((p_l1 p, p_l2 p) \<mapsto> t)"
    using lock(1,3) locks by simp
  show "\<exists>k. t0 \<le> db_now (p_env p) k - p_loop_interval p"
    if "chain_locks s (p_l1 p, p_l2 p) = Some t0"
    using lock(2) that locks(1) by auto
qed

text \<open>
  The fault proof proposer starts without tasks, where its invariant holds. A \<open>PROVER_ADDRESS\<close> that
  is no address is an error of the validity service, but the fault proof service goes on under the
  address of the signer.
\<close>

lemma unwrapping_Ok: "unwrapping m s = (Ok x, s') \<longleftrightarrow> m s = (Ok x, s')"
  by (auto simp: unwrapping_def onErr_def throw_def ret_def split: sum.splits prod.splits fault.splits)

lemma in_process_Ok:
  "in_process m s = (Ok x, s') \<Longrightarrow> \<exists>t. m (fault_state.truncate s) = (Ok x, t)
     \<and> fault_tasks s' = fault_tasks t \<and> next_task_id s' = next_task_id t"
  by (auto simp: in_process_def fault_state.defs fault_process.defs split: prod.splits)

lemma fault_proposer_new_Ok:
  "fault_proposer_new p s = (Ok q, s') \<Longrightarrow> fault_tasks s' = [] \<and> next_task_id s' = 1"
  by (auto simp: fault_proposer_new_def andThen_eq_Ok update_def ret_def)

lemma fault_started_idle:
  assumes "fault_proposer_main fv env s = (Ok p, s')"
  shows "fault_tasks s' = []" "next_task_id s' = 1"
  using assms
  by (auto simp: fault_proposer_main_def fault_proposer_of_def Let_def andThen_eq_Ok unwrapping_Ok lift_def
      dest!: in_process_Ok fault_proposer_new_Ok)

lemma bad_prover_address:
  assumes "env ''PROVER_ADDRESS'' = Some v" "ps_address ps v = None"
  shows "prover_address_from_env ps env sg = signer_address sg"
    and "\<exists>m. read_proposer_env ps env = Inl (Failure (Msg m))"
proof -
  show "prover_address_from_env ps env sg = signer_address sg"
    using assms by (simp add: prover_address_from_env_def)
  have "\<not> optional_settings ps env" using assms by (simp add: optional_settings_def readable_def)
  then have "\<not> is_ok (read_proposer_env ps env)" by (simp add: read_proposer_env_ok)
  then obtain f where "read_proposer_env ps env = Inl f" by (cases "read_proposer_env ps env") auto
  then show "\<exists>m. read_proposer_env ps env = Inl (Failure (Msg m))"
    using read_proposer_env_fault by blast
qed

subsection \<open>Many starts on one database\<close>

text \<open>
  The identity under which a proposer works: its range program, the rollup configuration and the two
  chains. The active range requests of an identity are what its proposers have reserved.
\<close>

record identity =
  id_range_vkey :: b256
  id_rollup_config :: b256
  id_l1_chain :: int
  id_l2_chain :: int

definition identity_of :: "('args, 'wit, 'stdin) proposer \<Rightarrow> identity" where
  "identity_of p =
     \<lparr>id_range_vkey = cc_range_vkey_commitment (p_commitments p),
      id_rollup_config = cc_rollup_config_hash (p_commitments p),
      id_l1_chain = p_l1 p, id_l2_chain = p_l2 p\<rparr>"

definition active_for :: "identity \<Rightarrow> request \<Rightarrow> bool" where
  "active_for x r \<longleftrightarrow> range_vkey_commitment r = id_range_vkey x
     \<and> rollup_config_hash r = id_rollup_config x
     \<and> l1_chain_id r = id_l1_chain x \<and> l2_chain_id r = id_l2_chain x
     \<and> req_type r = Range \<and> req_status r \<in> set active_statuses"

lemma live_active: "live p r \<longleftrightarrow> active_for (identity_of p) r"
  by (auto simp: live_def ours_def same_program_def on_chains_def active_for_def identity_of_def)

definition table_ok :: "identity \<Rightarrow> 'z world_scheme \<Rightarrow> bool" where
  "table_ok x s \<longleftrightarrow> db_ok s \<and> sorted_wrt apart (filter (active_for x) (requests s))
     \<and> (\<forall>r \<in> set (requests s). active_for x r \<longrightarrow> good_blocks r)"

lemma live_rows_active:
  "live_rows p rs \<longleftrightarrow> sorted_wrt apart (filter (active_for (identity_of p)) rs)
     \<and> (\<forall>r \<in> set rs. active_for (identity_of p) r \<longrightarrow> good_blocks r)"
  by (simp add: live_rows_def live_active cong: filter_cong)

lemma stopped_table:
  "stopped p s \<longleftrightarrow> table_ok (identity_of p) s \<and> tasks s = [] \<and> detached s = []"
  by (auto simp: stopped_def live_rows_active table_ok_def)

lemma same_table_ok: "same_table s t \<Longrightarrow> table_ok x t = table_ok x s"
  by (simp add: same_table_def table_ok_def db_ok_def)

text \<open>What the service trusts the outside world with.\<close>

definition trusted :: "('args, 'wit, 'stdin, 'cfg) service \<Rightarrow> bool" where
  "trusted sv \<longleftrightarrow> (\<forall>f. op_succinct_host (sv_host sv f))
     \<and> (\<forall>sg u a b t n. latest_block_number (sv_contracts sv sg u a b) t = Inr n \<longrightarrow> 0 \<le> n \<and> n < 2 ^ 62)
     \<and> (\<forall>f n s b s'. host_finalized_l2_block (sv_host sv f) n s = (Inr (Some b), s') \<longrightarrow> 0 \<le> b \<and> b < 2 ^ 62)"

definition interval_ok :: "environment \<Rightarrow> bool" where
  "interval_ok env \<longleftrightarrow> 0 < setting env parse_u64 ''RANGE_PROOF_INTERVAL'' 1800
     \<and> setting env parse_u64 ''RANGE_PROOF_INTERVAL'' 1800 < 2 ^ 62"

lemma started_sane:
  assumes "trusted sv" "interval_ok env" "validity_main sv env s = (Ok p, s')"
  shows "sane p"
proof -
  obtain fetcher where f: "pr_host (p_requester p) = sv_host sv fetcher"
    using started_settings(2) [OF assms(3)] ..
  obtain sg u a b where c: "p_contracts p = sv_contracts sv sg u a b"
    using started_settings(3) [OF assms(3)] by blast
  show ?thesis
    using assms(1,2) unfolding sane_def f c started_settings(1) [OF assms(3)] trusted_def interval_ok_def
    by blast
qed

text \<open>
  The host that the build selects, \<open>initialize_host\<close> of \<open>utils/proof/src/lib.rs\<close>. With Ethereum data
  availability the trust comes down to the numbers that the L2 node and the contract report.
\<close>

definition initialize_eth_host ::
  "(header \<Rightarrow> b256) \<Rightarrow> (b256 \<Rightarrow> b256 \<Rightarrow> b256 \<Rightarrow> b256) \<Rightarrow> rpc_env \<Rightarrow> (single_chain_host, 'wit) kona_env
     \<Rightarrow> ('wit \<Rightarrow> error + 'stdin) \<Rightarrow> 'cfg data_fetcher \<Rightarrow> ('z io_scheme, single_chain_host, 'wit, 'stdin) succinct_host"
  where
  "initialize_eth_host hh output_hash env kona to_stdin fetcher = eth_host hh output_hash env fetcher kona to_stdin"

definition initialize_celestia_host ::
  "(header \<Rightarrow> b256) \<Rightarrow> (b256 \<Rightarrow> b256 \<Rightarrow> b256 \<Rightarrow> b256) \<Rightarrow> celestia_env \<Rightarrow> ('cfg \<Rightarrow> int) \<Rightarrow> celestia_cfg
     \<Rightarrow> (celestia_chain_host, 'wit) kona_env \<Rightarrow> ('wit \<Rightarrow> error + 'stdin) \<Rightarrow> 'cfg data_fetcher
     \<Rightarrow> ('z io_scheme, celestia_chain_host, 'wit, 'stdin) succinct_host" where
  "initialize_celestia_host hh output_hash ce l1_chain_id_of vars kona to_stdin fetcher =
     celestia_host hh output_hash ce l1_chain_id_of fetcher vars kona to_stdin"

lemma initialized_hosts:
  "op_succinct_host (initialize_eth_host hh output_hash env kona to_stdin fetcher)"
  "op_succinct_host (initialize_celestia_host hh output_hash ce l1_chain_id_of vars kona' to_stdin' fetcher)"
  unfolding initialize_eth_host_def initialize_celestia_host_def
  by (rule eth.op_succinct_host_axioms, rule celestia.op_succinct_host_axioms)

lemma eth_service_trusted:
  assumes host: "\<And>f. sv_host sv f = initialize_eth_host hh output_hash env kona to_stdin f"
    and contract: "\<And>sg u a b t n. latest_block_number (sv_contracts sv sg u a b) t = Inr n \<Longrightarrow> 0 \<le> n \<and> n < 2 ^ 62"
    and node: "\<And>t b. l2_block env Finalized t = Inr (Some b) \<Longrightarrow>
      0 \<le> number (blk_header b) \<and> number (blk_header b) < 2 ^ 62"
  shows "trusted sv"
  unfolding trusted_def host
proof (intro conjI allI impI initialized_hosts)
  fix f n s b and s' :: proposer_state
  assume "host_finalized_l2_block (initialize_eth_host hh output_hash env kona to_stdin f) n s = (Inr (Some b), s')"
  then obtain blk where "l2_block env Finalized (tick s) = Inr (Some blk)" "b = number (blk_header blk)"
    by (auto simp: initialize_eth_host_def eth_host_def eth_finalized_l2_block_def get_l2_header_def get_header_def
        andThen_eq_Ok call_def ret_def lift_def throw_def split: option.splits sum.splits)
  then show "0 \<le> b" "b < 2 ^ 62" using node by simp_all
qed (use contract in auto)

text \<open>
  The life of the service: it starts with the settings of the moment, runs promptly for a while,
  stops at any point, and starts again; a start may also fail. The settings may change from start to
  start, the identity stays.
\<close>

definition back_on_disk :: "process \<Rightarrow> proposer_state \<Rightarrow> process" where
  "back_on_disk s t = proposer_state.extend t (process.fields (process_files s))"

inductive service_life ::
  "('args, 'wit, 'stdin, 'cfg) service \<Rightarrow> identity \<Rightarrow> process \<Rightarrow> process \<Rightarrow> bool"
  for sv :: "('args, 'wit, 'stdin, 'cfg) service" and x :: identity and s0 :: process where
  first: "service_life sv x s0 s0"
| failed: "service_life sv x s0 s \<Longrightarrow> validity_main sv env s = (Inl e, s') \<Longrightarrow> service_life sv x s0 s'"
| served: "service_life sv x s0 s \<Longrightarrow> validity_main sv env s = (Ok p, s') \<Longrightarrow> identity_of p = x \<Longrightarrow>
    interval_ok env \<Longrightarrow> prompt_run p (proposer_state.truncate s') t \<Longrightarrow>
    service_life sv x s0 (back_on_disk s' t)"

lemma same_table_process:
  "same_table s (proposer_state.truncate s)" "same_table t (back_on_disk s t)"
  by (simp_all add: same_table_def proposer_state.defs process.defs back_on_disk_def)

lemma served_table:
  assumes "trusted sv" and start: "validity_main sv env s = (Ok p, s')" and "interval_ok env"
    and table: "table_ok (identity_of p) s" and run: "prompt_run p (proposer_state.truncate s') t"
  shows "table_ok (identity_of p) t"
proof -
  have "same_table s (proposer_state.truncate s')"
    using start_keeps_table [OF start] same_table_process(1) [of s'] by (simp add: same_table_def)
  then have "table_ok (identity_of p) (proposer_state.truncate s')"
    using table by (simp add: same_table_ok)
  moreover have "tasks (proposer_state.truncate s') = []" "detached (proposer_state.truncate s') = []"
    using validity_main_Ok(1,2) [OF start] by (simp_all add: proposer_state.defs)
  ultimately have "stopped p (proposer_state.truncate s')" by (simp add: stopped_table)
  then have "inv (book_of p (proposer_state.truncate s')) p t"
    using prompt_run_inv [OF run started_sane [OF assms(1,3) start]] by blast
  then show ?thesis by (simp add: inv_def table_ok_def live_rows_active)
qed

lemma service_life_table:
  assumes "service_life sv x s0 s" "trusted sv" "table_ok x s0"
  shows "table_ok x s"
  using assms
proof induction
  case (failed s env e s')
  then show ?case using start_keeps_table same_table_ok by blast
next
  case (served s env p s' t)
  then have "table_ok x t" using served_table by blast
  then show ?case using same_table_ok [OF same_table_process(2)] by blast
qed

subsection \<open>Properties\<close>

text \<open>
  C5. However often the validity service is started, with whatever settings, and whatever stops it,
  the active range requests of its identity never overlap. On a database whose table is consistent,
  every life of the service that keeps its programs, its rollup configuration and its chains, that
  runs promptly and never with a range interval of 0, leaves two different active range requests
  that share no block. Starts that fail, changed intervals and limits, and stops at any point are
  part of the life.
\<close>

theorem restarts_never_overlap:
  assumes "trusted sv" and "table_ok x s0" and "service_life sv x s0 s"
    and "r \<in> set (requests s)" "q \<in> set (requests s)" "req_id r \<noteq> req_id q"
    and "active_for x r" "active_for x q"
  shows "blocks (start_block r, end_block r) \<inter> blocks (start_block q, end_block q) = {}"
proof -
  have "table_ok x s" by (rule service_life_table [OF assms(3,1,2)])
  then have "apart r q"
    using sorted_apart_distinct assms(4-8) unfolding table_ok_def by blast
  then show ?thesis by (auto simp: apart_def)
qed

definition sample_service :: "(single_chain_host, unit, unit, int) service" where
  "sample_service =
     \<lparr>sv_parsers = sample_parsers, sv_post = sample_post, sv_fs = sample_fs, sv_rollup = sample_rollup_lib,
      sv_keccak = (\<lambda>_. [4]), sv_sha256 = (\<lambda>_. [3]), sv_hash_slow = (\<lambda>h. [word_of_int (number h)]),
      sv_keys = sample_keys, sv_connect = (\<lambda>_ _. Inr ()), sv_db = (\<lambda>_ _. sample_db),
      sv_sp1 = (\<lambda>_. sample_sp1), sv_contracts = (\<lambda>_ _ _ _. sample_contracts),
      sv_host = (\<lambda>_. sample_host), sv_task_order = (\<lambda>_. [])\<rparr>"

definition sample_start_env :: environment where
  "sample_start_env = sample_urls ++ sample_environment"

definition sample_row :: "int \<Rightarrow> request_status \<Rightarrow> int \<Rightarrow> int \<Rightarrow> request" where
  "sample_row i st b e = (sample_range i st b e)
     \<lparr>range_vkey_commitment := u32_to_u8 (pk_range_hash_u32 sample_keys), rollup_config_hash := [3],
      l1_chain_id := as_i64 1, l2_chain_id := as_i64 2\<rparr>"

abbreviation sample_table :: process where
  "sample_table \<equiv> proposer_state.extend (sample_state [sample_row 1 Complete 5 9, sample_row 2 Prove 9 12])
     (process.fields Map.empty)"

lemma sample_fetcher_start:
  "\<exists>fetcher d. new_with_rollup_config sample_parsers sample_start_env sample_post sample_fs sample_rollup_lib
     (\<lparr>tick = 0, files = Map.empty\<rparr> :: disk) = (Ok fetcher, d) \<and> df_rollup_config fetcher = Some 8"
  by (simp add: new_with_rollup_config_def fetch_and_save_rollup_config_def fetch_rpc_data_def rpc_result_def
      andThen_def lift_def ret_def call_def Let_def get_rpcs_def sample_start_env_def sample_environment_def
      sample_urls_def sample_post_def sample_fs_def sample_rollup_lib_def sample_parsers_def json_index_def
      write_file_def update_def is_u64_def u64_max_def unwrap_def)

lemma sample_start_settings:
  "required_settings sample_parsers sample_start_env" "optional_settings sample_parsers sample_start_env"
  by (simp_all add: required_settings_def optional_settings_def signer_from_env_def sample_start_env_def
      sample_urls_def sample_environment_def sample_parsers_def readable_def parse_u64_def parse_unsigned_def
      digit_def parse_bool_def u64_max_def Let_def)

abbreviation sample_identity :: identity where
  "sample_identity \<equiv> \<lparr>id_range_vkey = u32_to_u8 (pk_range_hash_u32 sample_keys), id_rollup_config = [3],
     id_l1_chain = as_i64 1, id_l2_chain = as_i64 2\<rparr>"

lemma sample_validity_start:
  "\<exists>p s'. validity_main sample_service sample_start_env sample_table = (Ok p, s')
     \<and> identity_of p = sample_identity"
proof -
  obtain c where c: "read_proposer_env sample_parsers sample_start_env = Ok c"
    using read_proposer_env_ok sample_start_settings is_ok_iff by metis
  have "ec_loop_interval c = setting sample_start_env parse_u64 ''LOOP_INTERVAL'' 60"
    by (rule read_proposer_env_values [OF c])
  then have iv: "ec_loop_interval c = 15"
    by (simp add: setting_def sample_start_env_def sample_urls_def sample_environment_def parse_u64_def
        parse_unsigned_def digit_def u64_max_def Let_def)
  obtain fetcher and d :: disk where d: "new_with_rollup_config sample_parsers sample_start_env sample_post
      sample_fs sample_rollup_lib \<lparr>tick = 0, files = Map.empty\<rparr> = (Ok fetcher, d)"
    and cfg: "df_rollup_config fetcher = Some 8"
    using sample_fetcher_start by blast
  have table: "tick sample_table = 0" "process_files sample_table = Map.empty" "chain_locks sample_table = (\<lambda>_. None)"
    by (simp_all add: proposer_state.defs process.defs)
  show ?thesis
    by (simp add: validity_main_def sample_service_def on_disk_def d c cfg iv table andThen_def lift_def ret_def
        call_def update_def Let_def sample_db_def sample_env_def proposer_new_def acquire_chain_lock_def
        is_chain_locked_def add_chain_lock_def pg_interval_def db_read_def db_exec_def unwrap_def i64_max_def
        identity_of_def proposer_of_def requester_of_def requester_config_of_def hash_rollup_config_def)
qed

lemma sample_trusted: "trusted sample_service"
proof -
  have host: "sv_host sample_service f = pr_host (p_requester sample_proposer)" for f
    by (simp add: sample_service_def sample_requester_def)
  have "sv_contracts sample_service sg u a b = p_contracts sample_proposer" for sg u a b
    by (simp add: sample_service_def)
  then show ?thesis using sample_sane unfolding trusted_def sane_def host by metis
qed

lemma sample_table_ok: "table_ok sample_identity sample_table"
  by (simp add: table_ok_def db_ok_def proposer_state.defs process.defs sample_row_def active_for_def
      active_statuses_def apart_def good_blocks_def)

lemma sample_interval: "interval_ok sample_start_env"
  by (simp add: interval_ok_def setting_def sample_start_env_def sample_urls_def sample_environment_def)

theorem restarts_never_overlap_witness:
  "\<exists>s. service_life sample_service sample_identity sample_table s
     \<and> requests s = [sample_row 1 Complete 5 9, sample_row 2 Prove 9 12]
     \<and> blocks (5, 9) \<inter> blocks (9, 12) = {}"
proof -
  obtain p s' where p: "validity_main sample_service sample_start_env sample_table = (Ok p, s')"
      "identity_of p = sample_identity"
    using sample_validity_start by blast
  let ?s = "back_on_disk s' (proposer_state.truncate s')"
  have life: "service_life sample_service sample_identity sample_table ?s"
    by (rule service_life.served [OF service_life.first p sample_interval prompt_run.start])
  have rows: "requests ?s = [sample_row 1 Complete 5 9, sample_row 2 Prove 9 12]"
    using start_keeps_table [OF p(1)]
    by (simp add: same_table_def back_on_disk_def proposer_state.defs process.defs)
  have "blocks (start_block (sample_row 1 Complete 5 9), end_block (sample_row 1 Complete 5 9))
      \<inter> blocks (start_block (sample_row 2 Prove 9 12), end_block (sample_row 2 Prove 9 12)) = {}"
    by (rule restarts_never_overlap [OF sample_trusted sample_table_ok life])
      (simp_all add: rows active_for_def sample_row_def active_statuses_def)
  then show ?thesis using life rows by (auto simp: sample_row_def)
qed

end
