(* ===== verification/Report.thy ===== *)
theory Report
  imports JsonRpc Stats
begin

text \<open>
  The printed statistics of \<open>utils/host/src/stats.rs\<close>: the two \<open>Display\<close> implementations as the text
  they write, with the padding of \<open>format!\<close>. The grouping of digits is that of the crate \<open>num_format\<close>
  (\<open>to_formatted_string(&Locale::en)\<close>), an argument \<open>fmt\<close> of the definitions.
\<close>

subsection \<open>Formats\<close>

abbreviation newline :: char where "newline \<equiv> CHR 0x0A"

text \<open>\<open>{:<w}\<close> and \<open>{:>w}\<close> fill with spaces and never cut.\<close>

definition pad_right :: "nat \<Rightarrow> string \<Rightarrow> string" where
  "pad_right w s = s @ replicate (w - length s) CHR '' ''"

definition pad_left :: "nat \<Rightarrow> string \<Rightarrow> string" where
  "pad_left w s = replicate (w - length s) CHR '' '' @ s"

definition write_stat :: "(int \<Rightarrow> string) \<Rightarrow> string \<Rightarrow> int \<Rightarrow> string" where
  "write_stat fmt label n =
     ''| '' @ pad_right 30 label @ '' | '' @ pad_left 25 (fmt n) @ '' |'' @ [newline]"

subsection \<open>The tables\<close>

text \<open>The order of the calls of \<open>write_stat\<close>, the same in both tables.\<close>

definition listed_stats :: "range_execution_stats \<Rightarrow> (string \<times> int) list" where
  "listed_stats st =
     [(''Batch Start'', st_batch_start st),
      (''Batch End'', st_batch_end st),
      (''Witness Generation (seconds)'', st_witness_generation_time_sec st),
      (''Execution Duration (seconds)'', st_total_execution_time_sec st),
      (''Total Instruction Count'', st_total_instruction_count st),
      (''Oracle Verify Cycles'', st_oracle_verify_instruction_count st),
      (''Derivation Cycles'', st_derivation_instruction_count st),
      (''Block Execution Cycles'', st_block_execution_instruction_count st),
      (''Blob Verification Cycles'', st_blob_verification_instruction_count st),
      (''Total SP1 Gas'', st_total_sp1_gas st),
      (''Number of Blocks'', st_nb_blocks st),
      (''Number of Transactions'', st_nb_transactions st),
      (''Ethereum Gas Used'', st_eth_gas_used st),
      (''Cycles per Block'', st_cycles_per_block st),
      (''Cycles per Transaction'', st_cycles_per_transaction st),
      (''Transactions per Block'', st_transactions_per_block st),
      (''Gas Used per Block'', st_gas_used_per_block st),
      (''Gas Used per Transaction'', st_gas_used_per_transaction st),
      (''BN Pair Cycles'', st_bn_pair_cycles st),
      (''BN Add Cycles'', st_bn_add_cycles st),
      (''BN Mul Cycles'', st_bn_mul_cycles st),
      (''KZG Eval Cycles'', st_kzg_eval_cycles st),
      (''EC Recover Cycles'', st_ec_recover_cycles st),
      (''P256 Verify Cycles'', st_p256_verify_cycles st)]"

definition stat_lines :: "(int \<Rightarrow> string) \<Rightarrow> range_execution_stats \<Rightarrow> string" where
  "stat_lines fmt st = concat (map (\<lambda>(label, n). write_stat fmt label n) (listed_stats st))"

definition header_line :: string where
  "header_line = ''| '' @ pad_right 30 ''Metric'' @ '' | '' @ pad_right 25 ''Value'' @ '' |'' @ [newline]"

definition border :: string where
  "border = ''+'' @ replicate 32 CHR ''-'' @ ''+'' @ replicate 27 CHR ''-'' @ ''+'' @ [newline]"

definition display_stats :: "(int \<Rightarrow> string) \<Rightarrow> range_execution_stats \<Rightarrow> string" where
  "display_stats fmt st = border @ header_line @ border @ stat_lines fmt st @ border"

definition markdown_stats :: "(int \<Rightarrow> string) \<Rightarrow> range_execution_stats \<Rightarrow> string" where
  "markdown_stats fmt st =
     header_line @ ''|'' @ replicate 32 CHR ''-'' @ ''|'' @ replicate 27 CHR ''-'' @ ''|'' @ [newline] @ stat_lines fmt st"

end
