(* ===== verification/CycleDiff.thy ===== *)
theory CycleDiff
  imports Complex_Main Scripts Report
begin

text \<open>
  The comparison of cycle counts in continuous integration, \<open>scripts/prove/tests\<close>: one run on the new
  branch writes the statistics of a recent range, one run on the old branch those of the same range,
  and a third step compares the two files and posts the report to the pull request
  (\<open>cycle_count_diff.rs\<close>, \<open>multi.rs\<close>, \<open>common/mod.rs\<close>). \<open>serde_json\<close>, the GitHub API and the format of
  \<open>f64\<close> are parameters; percentages are real numbers.
\<close>

subsection \<open>Statistics in JSON\<close>

record json_lib =
  js_pretty :: "json \<Rightarrow> string"
  js_parse :: "string \<Rightarrow> json option"

definition stats_u64_fields :: "range_execution_stats \<Rightarrow> (string \<times> int) list" where
  "stats_u64_fields st =
     [(''l1_head'', st_l1_head st), (''batch_start'', st_batch_start st), (''batch_end'', st_batch_end st),
      (''witness_generation_time_sec'', st_witness_generation_time_sec st),
      (''total_execution_time_sec'', st_total_execution_time_sec st),
      (''total_instruction_count'', st_total_instruction_count st),
      (''oracle_verify_instruction_count'', st_oracle_verify_instruction_count st),
      (''derivation_instruction_count'', st_derivation_instruction_count st),
      (''block_execution_instruction_count'', st_block_execution_instruction_count st),
      (''blob_verification_instruction_count'', st_blob_verification_instruction_count st),
      (''total_sp1_gas'', st_total_sp1_gas st), (''nb_blocks'', st_nb_blocks st),
      (''nb_transactions'', st_nb_transactions st), (''eth_gas_used'', st_eth_gas_used st),
      (''cycles_per_block'', st_cycles_per_block st),
      (''cycles_per_transaction'', st_cycles_per_transaction st),
      (''transactions_per_block'', st_transactions_per_block st),
      (''gas_used_per_block'', st_gas_used_per_block st),
      (''gas_used_per_transaction'', st_gas_used_per_transaction st),
      (''bn_pair_cycles'', st_bn_pair_cycles st), (''bn_add_cycles'', st_bn_add_cycles st),
      (''bn_mul_cycles'', st_bn_mul_cycles st), (''kzg_eval_cycles'', st_kzg_eval_cycles st),
      (''ec_recover_cycles'', st_ec_recover_cycles st),
      (''p256_verify_cycles'', st_p256_verify_cycles st)]"

definition stats_u128_fields :: "range_execution_stats \<Rightarrow> (string \<times> int) list" where
  "stats_u128_fields st = [(''l1_fees'', st_l1_fees st), (''total_tx_fees'', st_total_tx_fees st)]"

text \<open>The order of the fields, fees after the gas, is that of the struct.\<close>

definition stats_json :: "range_execution_stats \<Rightarrow> json" where
  "stats_json st =
     JObj (map (\<lambda>(k, n). (k, JNum n))
       (take 14 (stats_u64_fields st) @ stats_u128_fields st @ drop 14 (stats_u64_fields st)))"

definition json_int :: "json \<Rightarrow> string \<Rightarrow> int" where
  "json_int v k = (case json_get v k of Some (JNum n) \<Rightarrow> n | _ \<Rightarrow> 0)"

definition has_int :: "int \<Rightarrow> json \<Rightarrow> string \<Rightarrow> bool" where
  "has_int limit v k = (case json_get v k of Some (JNum n) \<Rightarrow> 0 \<le> n \<and> n \<le> limit | _ \<Rightarrow> False)"

definition stats_of_json :: "json \<Rightarrow> range_execution_stats option" where
  "stats_of_json v =
     (if list_all (has_int u64_max v) (map fst (stats_u64_fields default_stats))
         \<and> list_all (has_int (2 ^ 128 - 1) v) (map fst (stats_u128_fields default_stats))
      then Some
        \<lparr>st_l1_head = json_int v ''l1_head'', st_batch_start = json_int v ''batch_start'',
         st_batch_end = json_int v ''batch_end'',
         st_witness_generation_time_sec = json_int v ''witness_generation_time_sec'',
         st_total_execution_time_sec = json_int v ''total_execution_time_sec'',
         st_total_instruction_count = json_int v ''total_instruction_count'',
         st_oracle_verify_instruction_count = json_int v ''oracle_verify_instruction_count'',
         st_derivation_instruction_count = json_int v ''derivation_instruction_count'',
         st_block_execution_instruction_count = json_int v ''block_execution_instruction_count'',
         st_blob_verification_instruction_count = json_int v ''blob_verification_instruction_count'',
         st_total_sp1_gas = json_int v ''total_sp1_gas'', st_nb_blocks = json_int v ''nb_blocks'',
         st_nb_transactions = json_int v ''nb_transactions'', st_eth_gas_used = json_int v ''eth_gas_used'',
         st_l1_fees = json_int v ''l1_fees'', st_total_tx_fees = json_int v ''total_tx_fees'',
         st_cycles_per_block = json_int v ''cycles_per_block'',
         st_cycles_per_transaction = json_int v ''cycles_per_transaction'',
         st_transactions_per_block = json_int v ''transactions_per_block'',
         st_gas_used_per_block = json_int v ''gas_used_per_block'',
         st_gas_used_per_transaction = json_int v ''gas_used_per_transaction'',
         st_bn_pair_cycles = json_int v ''bn_pair_cycles'', st_bn_add_cycles = json_int v ''bn_add_cycles'',
         st_bn_mul_cycles = json_int v ''bn_mul_cycles'', st_kzg_eval_cycles = json_int v ''kzg_eval_cycles'',
         st_ec_recover_cycles = json_int v ''ec_recover_cycles'',
         st_p256_verify_cycles = json_int v ''p256_verify_cycles''\<rparr>
      else None)"

subsection \<open>Files of statistics\<close>

text \<open>\<open>from_reader(File::open(..)?)?\<close>, and \<open>to_writer_pretty\<close> on a file that \<open>File::create\<close> has emptied.\<close>

definition read_stats ::
  "json_lib \<Rightarrow> (string \<Rightarrow> nat \<Rightarrow> error + unit) \<Rightarrow> string \<Rightarrow> ('z disk_scheme, range_execution_stats) op" where
  "read_stats js open_file path =
     andThen (call (open_file path)) (\<lambda>_ s.
       (case Option.bind (Option.bind (files s path) (js_parse js)) stats_of_json of
          None \<Rightarrow> Err (Msg ''serde_json'')
        | Some st \<Rightarrow> Ok st, s))"

definition write_stats ::
  "json_lib \<Rightarrow> fs_env \<Rightarrow> string \<Rightarrow> range_execution_stats \<Rightarrow> ('z disk_scheme, unit) op" where
  "write_stats js fs path st =
     andThen (write_file fs path []) (\<lambda>_. write_file fs path (js_pretty js (stats_json st)))"

subsection \<open>The runs\<close>

definition one_hour :: int where "one_hour = 60 * 60"

text \<open>\<open>parse::<bool>().unwrap_or_default()\<close>.\<close>

definition flag :: "string \<Rightarrow> bool" where
  "flag v = (case parse_bool v of Some b \<Rightarrow> b | None \<Rightarrow> False)"

definition new_branch :: "environment \<Rightarrow> bool res" where
  "new_branch env = res_bind (unwrap (env ''NEW_BRANCH'') ''NEW_BRANCH must be set'') (\<lambda>v. Ok (flag v))"

definition executed_stats ::
  "('cfg, 'z disk_scheme, 'args, 'wit, 'stdin) tool_env \<Rightarrow> 'stdin prove_env \<Rightarrow> 'cfg data_fetcher \<Rightarrow> range
     \<Rightarrow> ('z disk_scheme, range_execution_stats) op" where
  "executed_stats t pe data_fetcher r =
     (let h = tl_host t data_fetcher in
     andThen (host_fetch h (fst r) (snd r) None False) (\<lambda>host_args.
     andThen (host_run h host_args) (\<lambda>witness_data.
     andThen (lift (case host_sp1_stdin h witness_data of Inl e \<Rightarrow> Err e | Inr x \<Rightarrow> Ok x)) (\<lambda>sp1_stdin.
     andThen (execute_multi t pe sp1_stdin (fst r) (snd r)) (\<lambda>(block_data, rep, execution_duration).
       lift (stats_new 0 block_data rep 0 execution_duration))))))"

definition test_cycle_count_diff ::
  "('cfg, 'z disk_scheme, 'args, 'wit, 'stdin) tool_env \<Rightarrow> 'stdin prove_env \<Rightarrow> (nat \<Rightarrow> error + unit)
     \<Rightarrow> json_lib \<Rightarrow> (string \<Rightarrow> nat \<Rightarrow> error + unit) \<Rightarrow> ('z disk_scheme, unit) op" where
  "test_cycle_count_diff t pe load_env js open_file =
     andThen (call load_env) (\<lambda>_.
     andThen (open_fetcher t) (\<lambda>data_fetcher.
     andThen (lift (new_branch (tl_environ t))) (\<lambda>fresh.
     andThen (if fresh then get_rolling_block_range (tl_rpc t) one_hour default_range
              else andThen (read_stats js open_file ''new_cycle_stats.json'') (\<lambda>base_stats.
                     ret (st_batch_start base_stats, st_batch_end base_stats))) (\<lambda>r.
     andThen (executed_stats t pe data_fetcher r) (\<lambda>new_stats.
       write_stats js (tl_fs t)
         (if fresh then ''new_cycle_stats.json'' else ''old_cycle_stats.json'') new_stats)))))"

subsection \<open>The report\<close>

definition diff_percentage :: "int \<Rightarrow> int \<Rightarrow> real" where
  "diff_percentage base cur =
     (if base = 0 then 0 else (real_of_int cur - real_of_int base) / real_of_int base * 100)"

text \<open>\<open>show_f64\<close> is the format \<open>{:.2}\<close>.\<close>

definition write_metric :: "(real \<Rightarrow> string) \<Rightarrow> string \<Rightarrow> int \<Rightarrow> int \<Rightarrow> string" where
  "write_metric show_f64 name base_val current_val =
     ''| '' @ pad_right 30 name @ '' | '' @ pad_right 25 (show_u64 base_val) @ '' | '' @
     pad_right 25 (show_u64 current_val) @ '' | '' @
     pad_left 9 (show_f64 (diff_percentage base_val current_val)) @ ''% |'' @ [newline]"

definition compared_metrics :: "(string \<times> (range_execution_stats \<Rightarrow> int)) list" where
  "compared_metrics =
     [(''Total Instructions'', st_total_instruction_count),
      (''Oracle Verify Cycles'', st_oracle_verify_instruction_count),
      (''Derivation Cycles'', st_derivation_instruction_count),
      (''Block Execution Cycles'', st_block_execution_instruction_count),
      (''Blob Verification Cycles'', st_blob_verification_instruction_count),
      (''Total SP1 Gas'', st_total_sp1_gas),
      (''Cycles per Block'', st_cycles_per_block),
      (''Cycles per Transaction'', st_cycles_per_transaction),
      (''BN Pair Cycles'', st_bn_pair_cycles),
      (''BN Add Cycles'', st_bn_add_cycles),
      (''BN Mul Cycles'', st_bn_mul_cycles),
      (''KZG Eval Cycles'', st_kzg_eval_cycles),
      (''EC Recover Cycles'', st_ec_recover_cycles),
      (''P256 Verify Cycles'', st_p256_verify_cycles)]"

definition create_diff_report ::
  "(real \<Rightarrow> string) \<Rightarrow> range_execution_stats \<Rightarrow> range_execution_stats \<Rightarrow> string" where
  "create_diff_report show_f64 base cur =
     ''## Performance Comparison'' @ [newline, newline] @
     ''Range '' @ show_u64 (st_batch_start base) @ ''~'' @ show_u64 (st_batch_end base) @ [newline, newline] @
     ''| '' @ pad_right 30 ''Metric'' @ '' | '' @ pad_right 25 ''Base Branch'' @ '' | '' @
     pad_right 25 ''Current PR'' @ '' | '' @ pad_right 10 ''Diff (%)'' @ '' |'' @ [newline] @
     ''|'' @ replicate 32 CHR ''-'' @ ''|'' @ replicate 27 CHR ''-'' @ ''|'' @ replicate 27 CHR ''-'' @
     ''|'' @ replicate 12 CHR ''-'' @ ''|'' @ [newline] @
     concat (map (\<lambda>(name, f). write_metric show_f64 name (f base) (f cur)) compared_metrics)"

subsection \<open>Posting to GitHub\<close>

text \<open>
  The requests that a run has sent. \<open>gh_comments\<close> is the decoded answer to the listing of comments;
  \<open>gh_submit\<close> tells whether an update or a creation was answered with success.
\<close>

datatype github_request = List_Comments string | Update_Comment string json | Create_Comment string json

record ci_state = disk +
  github_log :: "github_request list"

record github_env =
  gh_comments :: "string \<Rightarrow> string \<Rightarrow> nat \<Rightarrow> error + json list"
  gh_submit :: "github_request \<Rightarrow> string \<Rightarrow> nat \<Rightarrow> error + bool"

definition github_send :: "github_request \<Rightarrow> (ci_state, unit) op" where
  "github_send q = update (\<lambda>s. s\<lparr>github_log := github_log s @ [q]\<rparr>)"

definition by_bot :: "json \<Rightarrow> bool" where
  "by_bot comment =
     (case as_str (json_index (json_index comment ''user'') ''login'') of
        None \<Rightarrow> False
      | Some login \<Rightarrow> login = ''github-actions[bot]'')"

definition post_to_github_pr ::
  "github_env \<Rightarrow> string \<Rightarrow> string \<Rightarrow> string \<Rightarrow> string \<Rightarrow> string \<Rightarrow> (ci_state, unit) op" where
  "post_to_github_pr gh owner repo pr_number token message =
     (let base_url = ''https://api.github.com/repos/'' @ owner @ ''/'' @ repo;
          comments_url = base_url @ ''/issues/'' @ pr_number @ ''/comments'';
          body = JObj [(''body'', JStr message)] in
     andThen (github_send (List_Comments comments_url)) (\<lambda>_.
     andThen (call (gh_comments gh comments_url token)) (\<lambda>comments.
       case find by_bot comments of
         Some existing_comment \<Rightarrow>
           andThen (lift (unwrap (as_str (json_index existing_comment ''url'')) ''unwrap'')) (\<lambda>comment_url.
           andThen (github_send (Update_Comment comment_url body)) (\<lambda>_.
           andThen (call (gh_submit gh (Update_Comment comment_url body) token)) (\<lambda>success.
             if success then ret () else throw (Failure (Msg ''Failed to update comment'')))))
       | None \<Rightarrow>
           andThen (github_send (Create_Comment comments_url body)) (\<lambda>_.
           andThen (call (gh_submit gh (Create_Comment comments_url body) token)) (\<lambda>success.
             if success then ret () else throw (Failure (Msg ''Failed to post comment'')))))))"

text \<open>The end of both tests: the message goes out only when the flag and all four settings are there.\<close>

definition post_if_asked :: "github_env \<Rightarrow> environment \<Rightarrow> string \<Rightarrow> (ci_state, unit) op" where
  "post_if_asked gh env message =
     (if (case env ''POST_TO_GITHUB'' of None \<Rightarrow> False | Some v \<Rightarrow> flag v)
      then
        (case (env ''REPO_OWNER'', env ''REPO_NAME'', env ''PR_NUMBER'', env ''GITHUB_TOKEN'') of
           (Some owner, Some repo, Some pr_number, Some token) \<Rightarrow>
             expect_op ''unwrap'' (post_to_github_pr gh owner repo pr_number token message)
         | _ \<Rightarrow> ret ())
      else ret ())"

definition test_post_to_github ::
  "json_lib \<Rightarrow> (string \<Rightarrow> nat \<Rightarrow> error + unit) \<Rightarrow> (real \<Rightarrow> string) \<Rightarrow> github_env \<Rightarrow> environment
     \<Rightarrow> (ci_state, unit) op" where
  "test_post_to_github js open_file show_f64 gh env =
     andThen (read_stats js open_file ''old_cycle_stats.json'') (\<lambda>old_stats.
     andThen (read_stats js open_file ''new_cycle_stats.json'') (\<lambda>new_stats.
       post_if_asked gh env (create_diff_report show_f64 old_stats new_stats)))"

definition execute_batch ::
  "('cfg, ci_state, 'args, 'wit, 'stdin) tool_env \<Rightarrow> 'stdin prove_env \<Rightarrow> (nat \<Rightarrow> error + unit)
     \<Rightarrow> github_env \<Rightarrow> (int \<Rightarrow> string) \<Rightarrow> (ci_state, unit) op" where
  "execute_batch t pe load_env gh fmt =
     andThen (call load_env) (\<lambda>_.
     andThen (open_fetcher t) (\<lambda>data_fetcher.
     andThen (get_rolling_block_range (tl_rpc t) one_hour default_range) (\<lambda>r.
     andThen (executed_stats t pe data_fetcher r) (\<lambda>stats.
       post_if_asked gh (tl_environ t) (markdown_stats fmt stats)))))"

subsection \<open>What is read is what was written\<close>

lemma json_get_stats:
  "json_get (stats_json st) k = map_option JNum (map_of (stats_u64_fields st @ stats_u128_fields st) k)"
proof -
  let ?a = "take 14 (stats_u64_fields st)" and ?b = "drop 14 (stats_u64_fields st)" and ?c = "stats_u128_fields st"
  have "fst ` set ?b \<inter> fst ` set ?c = {}"
    by (simp add: stats_u64_fields_def stats_u128_fields_def)
  then have "map_of ?b ++ map_of ?c = map_of ?c ++ map_of ?b"
    by (intro map_add_comm) (simp add: dom_map_of_conv_image_fst)
  then have "map_of (?a @ ?c @ ?b) = map_of ((?a @ ?b) @ ?c)" by (simp del: append_take_drop_id)
  then have "map_of (?a @ ?c @ ?b) k = map_of (stats_u64_fields st @ stats_u128_fields st) k"
    by (metis append_take_drop_id)
  then show ?thesis
    unfolding stats_json_def json_get.simps map_of_map by simp
qed

lemma stats_of_json_written: "stats_of_json (stats_json st) = Some x \<Longrightarrow> x = st"
  unfolding stats_of_json_def json_int_def
  by (auto simp: json_get_stats stats_u64_fields_def stats_u128_fields_def split: if_splits)

text \<open>Statistics in the range of their types read back; no other value is ever read.\<close>

definition fitting_stats :: "range_execution_stats \<Rightarrow> bool" where
  "fitting_stats st \<longleftrightarrow> list_all (\<lambda>(_, n). is_u64 n) (stats_u64_fields st)
     \<and> list_all (\<lambda>(_, n). 0 \<le> n \<and> n < 2 ^ 128) (stats_u128_fields st)"

lemma stats_json_reads:
  assumes "fitting_stats st"
  shows "stats_of_json (stats_json st) = Some st"
proof -
  have "stats_of_json (stats_json st) \<noteq> None"
    using assms unfolding stats_of_json_def has_int_def fitting_stats_def
    by (simp add: json_get_stats stats_u64_fields_def stats_u128_fields_def is_u64_def)
  then show ?thesis using stats_of_json_written by fastforce
qed

lemma write_file_files:
  "write_file fs path content s = (Inr u, s') \<Longrightarrow> files s' = (files s)(path \<mapsto> content)"
  by (auto simp: write_file_def andThen_eq_Ok update_def call_def)

lemma write_stats_files:
  "write_stats js fs path st s = (Inr u, s') \<Longrightarrow> files s' = (files s)(path \<mapsto> js_pretty js (stats_json st))"
  by (auto simp: write_stats_def andThen_eq_Ok dest!: write_file_files)

lemma read_stats_Ok:
  assumes "read_stats js open_file path s = (Inr st, s')"
  shows "\<exists>text v. files s path = Some text \<and> js_parse js text = Some v \<and> stats_of_json v = Some st"
    and "files s' = files s"
  using assms by (auto simp: read_stats_def andThen_eq_Ok call_def bind_eq_Some_conv split: option.splits sum.splits)

lemma read_stats_log:
  "read_stats js open_file path s = (r, s') \<Longrightarrow> github_log s' = github_log s"
  by (auto simp: read_stats_def andThen_def call_def split: option.splits sum.splits)

lemma tick_only_files:
  fixes s :: "'z disk_scheme"
  shows "tick_only m \<Longrightarrow> m s = (r, s') \<Longrightarrow> files s' = files s"
  using tick_onlyD by fastforce

lemma tick_only_case_res [tick_intros]:
  "(\<And>e. tick_only (f e)) \<Longrightarrow> (\<And>x. tick_only (g x)) \<Longrightarrow> tick_only (lift (case r of Inl e \<Rightarrow> Err e | Inr x \<Rightarrow> Ok x))"
  by (rule tick_only_basic)

lemma executed_stats_reads:
  assumes "op_succinct_host (tl_host t f)"
  shows "tick_only (executed_stats t pe f r)"
  unfolding executed_stats_def execute_multi_def expect_op_def elapsed_def Let_def split_beta
  by (intro tick_intros op_succinct_host.fetch_reads [OF assms] op_succinct_host.run_reads [OF assms])

text \<open>The file of the rollup configuration is none of the two files of statistics.\<close>

lemma open_fetcher_files:
  assumes "open_fetcher t s = (Inr f, s')" and "List.hd path \<noteq> CHR ''c''"
  shows "files s' path = files s path"
  using assms unfolding open_fetcher_def new_with_rollup_config_def fetch_and_save_rollup_config_def fetch_rpc_data_def
  using hd_radix [of "CHR ''/''"]
  by (auto simp: andThen_eq_Ok lift_def ret_def call_def Let_def path_join_def show_u64_def radix_nonempty digit_def
      dest!: write_file_files)

lemma rolling_range_reads: "tick_only (get_rolling_block_range env i n)"
  unfolding get_rolling_block_range_def split_beta by (intro tick_intros)

lemma executed_stats_range:
  fixes s :: "'z disk_scheme"
  assumes "executed_stats t pe f r s = (Ok st, s')"
  shows "\<exists>c. c = wrap_u64 (fst r + 1) \<and> c \<le> snd r \<and> st_batch_start st = wrap_u64 (c - 1)
    \<and> st_batch_end st = snd r \<and> st_nb_blocks st = wrap_u64 (snd r - c + 1)"
proof -
  obtain data rep d and u u' :: "'z disk_scheme" where
    data: "get_l2_block_data_range (tl_rpc t) (fst r) (snd r) u = (Inr data, u')"
    and st: "stats_new 0 data rep 0 d = Ok st"
    using assms unfolding executed_stats_def execute_multi_def Let_def
    by (auto simp: andThen_eq_Ok lift_def ret_def)
  let ?c = "wrap_u64 (fst r + 1)"
  note fields = stats_new_Ok [OF st]
  have blocks: "map block_number data = [?c..snd r]" by (rule block_data_range_numbers [OF data])
  then have c: "?c \<le> snd r" using fields(1) by (metis Nil_is_map_conv upto_empty not_le)
  have "length (map block_number data) = length [?c..snd r]" by (simp only: blocks)
  then have len: "int (length data) = snd r - ?c + 1" using c by simp
  have "block_number ` set data = {?c..snd r}" using blocks by (metis list.set_map set_upto)
  then have "Min (block_number ` set data) = ?c" "Max (block_number ` set data) = snd r"
    using c by (auto intro!: Min_eqI Max_eqI)
  then show ?thesis
    using fields(2,3,10) first_of_sorted [OF fields(1), of block_number] len c by simp
qed

text \<open>A second execution of the range that the first statistics name covers the same blocks.\<close>

lemma executed_again:
  assumes "executed_stats t pe f r s = (Ok st, s')"
    and "executed_stats t' pe' f' (st_batch_start st, st_batch_end st) u = (Ok st', u')"
  shows "st_batch_start st' = st_batch_start st" "st_batch_end st' = st_batch_end st"
    "st_nb_blocks st' = st_nb_blocks st"
proof -
  obtain c where c: "c = wrap_u64 (fst r + 1)" "st_batch_start st = wrap_u64 (c - 1)"
      "st_batch_end st = snd r" "st_nb_blocks st = wrap_u64 (snd r - c + 1)"
    using executed_stats_range [OF assms(1)] by blast
  have "wrap_u64 (wrap_u64 (c - 1) + 1) = c"
    unfolding c(1) by (simp add: wrap_u64_def mod_simps)
  then show "st_batch_start st' = st_batch_start st" "st_batch_end st' = st_batch_end st"
    "st_nb_blocks st' = st_nb_blocks st"
    using executed_stats_range [OF assms(2)] c by auto
qed

lemma first_run:
  fixes s :: "'z disk_scheme"
  assumes "test_cycle_count_diff t pe load_env js open_file s = (Ok (), s')"
    and "new_branch (tl_environ t) = Ok True"
  shows "\<exists>f r st (u :: 'z disk_scheme) u'. executed_stats t pe f r u = (Ok st, u')
    \<and> files s' ''new_cycle_stats.json'' = Some (js_pretty js (stats_json st))"
  using assms unfolding test_cycle_count_diff_def
  by (auto simp: andThen_eq_Ok lift_def dest!: write_stats_files) blast

lemma second_run:
  fixes s :: "'z disk_scheme"
  assumes run: "test_cycle_count_diff t pe load_env js open_file s = (Ok (), s')"
    and old: "new_branch (tl_environ t) = Ok False"
    and host: "\<And>f. op_succinct_host (tl_host t f)"
    and js: "\<And>st. js_parse js (js_pretty js (stats_json st)) = Some (stats_json st)"
    and base: "files s ''new_cycle_stats.json'' = Some (js_pretty js (stats_json base))"
  shows "\<exists>f st (u :: 'z disk_scheme) u'. executed_stats t pe f (st_batch_start base, st_batch_end base) u = (Ok st, u')
    \<and> files s' ''old_cycle_stats.json'' = Some (js_pretty js (stats_json st))
    \<and> files s' ''new_cycle_stats.json'' = files s ''new_cycle_stats.json''"
proof -
  obtain f base' st and s1 s2 s3 s4 s5 :: "'z disk_scheme" where
    steps: "call load_env s = (Inr (), s1)" "open_fetcher t s1 = (Inr f, s2)"
      "read_stats js open_file ''new_cycle_stats.json'' s2 = (Inr base', s3)"
      "executed_stats t pe f (st_batch_start base', st_batch_end base') s3 = (Ok st, s4)"
      "write_stats js (tl_fs t) ''old_cycle_stats.json'' st s4 = (Inr (), s')"
    using run old unfolding test_cycle_count_diff_def by (auto simp: andThen_eq_Ok lift_def ret_def)
  have "files s1 = files s" using steps(1) by (auto simp: call_def)
  then have s2: "files s2 ''new_cycle_stats.json'' = files s ''new_cycle_stats.json''"
    using open_fetcher_files [OF steps(2)] by simp
  then have "base' = base"
    using read_stats_Ok(1) [OF steps(3)] base js stats_of_json_written by fastforce
  moreover have "files s4 = files s2"
    using tick_only_files [OF executed_stats_reads [OF host] steps(4)] read_stats_Ok(2) [OF steps(3)] by simp
  ultimately show ?thesis
    using steps(4) write_stats_files [OF steps(5)] s2 by (intro exI conjI) auto
qed

definition asks_to_post :: "environment \<Rightarrow> bool" where
  "asks_to_post env \<longleftrightarrow> (\<exists>v. env ''POST_TO_GITHUB'' = Some v \<and> flag v)
     \<and> (\<forall>k \<in> {''REPO_OWNER'', ''REPO_NAME'', ''PR_NUMBER'', ''GITHUB_TOKEN''}. env k \<noteq> None)"

lemma post_to_github_Ok:
  assumes "post_to_github_pr gh owner repo pr_number token message s = (Ok (), s')"
  shows "\<exists>u v q. github_log s' = github_log s @ [List_Comments u, q] \<and>
    q \<in> {Update_Comment v (JObj [(''body'', JStr message)]), Create_Comment v (JObj [(''body'', JStr message)])}"
  using assms unfolding post_to_github_pr_def Let_def github_send_def
  by (auto simp: andThen_eq_Ok update_def call_def lift_def throw_def ret_def split: option.splits if_splits)

lemma post_if_asked_Ok:
  assumes "post_if_asked gh env message s = (Ok (), s')" "asks_to_post env"
  shows "\<exists>u v q. github_log s' = github_log s @ [List_Comments u, q] \<and>
    q \<in> {Update_Comment v (JObj [(''body'', JStr message)]), Create_Comment v (JObj [(''body'', JStr message)])}"
  using assms unfolding post_if_asked_def asks_to_post_def
  by (auto dest!: post_to_github_Ok)

subsection \<open>Property\<close>

text \<open>
  C39. The report on a pull request compares two executions of the same blocks. If the run on the new branch,
  then the run on the old branch, then the step that posts the report all succeed, with nothing else
  writing their two files, then exactly one message is posted, after the comments have been listed, and it is
  the comparison of the statistics that the two runs measured, which name the same first block, the same last
  block and the same number of blocks, although only the first run chooses the range.
\<close>

theorem report_compares_same_blocks:
  fixes t1 :: "('cfg, ci_state, 'args, 'wit, 'stdin) tool_env"
    and t2 :: "('cfg2, ci_state, 'args2, 'wit2, 'stdin2) tool_env"
  assumes js: "\<And>st. js_parse js (js_pretty js (stats_json st)) = Some (stats_json st)"
    and host: "\<And>f. op_succinct_host (tl_host t2 f)"
    and branches: "new_branch (tl_environ t1) = Ok True" "new_branch (tl_environ t2) = Ok False"
    and first: "test_cycle_count_diff t1 pe1 load1 js open1 s1 = (Ok (), s1')"
    and second: "test_cycle_count_diff t2 pe2 load2 js open2 s2 = (Ok (), s2')"
    and third: "test_post_to_github js open3 show_f64 gh env s3 = (Ok (), s3')"
    and files: "files s2 = files s1'" "files s3 = files s2'" and "asks_to_post env"
  shows "\<exists>base cur u v q. st_batch_start base = st_batch_start cur \<and> st_batch_end base = st_batch_end cur
    \<and> st_nb_blocks base = st_nb_blocks cur
    \<and> files s1' ''new_cycle_stats.json'' = Some (js_pretty js (stats_json cur))
    \<and> files s2' ''old_cycle_stats.json'' = Some (js_pretty js (stats_json base))
    \<and> github_log s3' = github_log s3 @ [List_Comments u, q]
    \<and> (let body = JObj [(''body'', JStr (create_diff_report show_f64 base cur))] in
         q = Update_Comment v body \<or> q = Create_Comment v body)"
proof -
  obtain f r cur and u u' :: ci_state where cur: "executed_stats t1 pe1 f r u = (Ok cur, u')"
    "files s1' ''new_cycle_stats.json'' = Some (js_pretty js (stats_json cur))"
    using first_run [OF first branches(1)] by blast
  have base_file: "files s2 ''new_cycle_stats.json'' = Some (js_pretty js (stats_json cur))"
    using cur(2) files(1) by simp
  obtain g base and w w' :: ci_state where
    base: "executed_stats t2 pe2 g (st_batch_start cur, st_batch_end cur) w = (Ok base, w')"
      "files s2' ''old_cycle_stats.json'' = Some (js_pretty js (stats_json base))"
    and kept: "files s2' ''new_cycle_stats.json'' = Some (js_pretty js (stats_json cur))"
    using second_run [OF second branches(2) host js base_file] base_file by force
  note same = executed_again [OF cur(1) base(1)]
  obtain old new and x y :: ci_state where
    reads: "read_stats js open3 ''old_cycle_stats.json'' s3 = (Inr old, x)"
      "read_stats js open3 ''new_cycle_stats.json'' x = (Inr new, y)"
    and post: "post_if_asked gh env (create_diff_report show_f64 old new) y = (Ok (), s3')"
    using third unfolding test_post_to_github_def by (auto simp: andThen_eq_Ok)
  have "old = base"
    using read_stats_Ok(1) [OF reads(1)] base(2) files(2) js stats_of_json_written by fastforce
  moreover have "new = cur"
    using read_stats_Ok(1) [OF reads(2)] read_stats_Ok(2) [OF reads(1)] kept files(2) js stats_of_json_written
    by fastforce
  moreover have "github_log y = github_log s3" using reads read_stats_log by metis
  ultimately show ?thesis
    using post_if_asked_Ok [OF post assms(10)] same cur(2) base(2) by (fastforce simp: Let_def)
qed

text \<open>The printer of objects of numbers, with the keys of the statistics.\<close>

definition sample_json :: json_lib where
  "sample_json =
     \<lparr>js_pretty = print_scalars,
      js_parse = read_scalars (case stats_json default_stats of JObj kvs \<Rightarrow> map fst kvs | _ \<Rightarrow> [])\<rparr>"

lemma sample_json_reads: "js_parse sample_json (js_pretty sample_json (stats_json st)) = Some (stats_json st)"
proof -
  define kvs where "kvs = map (\<lambda>(k, n). (k, JNum n))
    (take 14 (stats_u64_fields st) @ stats_u128_fields st @ drop 14 (stats_u64_fields st))"
  have "stats_json st = JObj kvs"
    "(case stats_json default_stats of JObj kvs \<Rightarrow> map fst kvs | _ \<Rightarrow> []) = map fst kvs"
    unfolding kvs_def stats_json_def by (simp_all add: stats_u64_fields_def stats_u128_fields_def)
  moreover have "\<forall>(k, v) \<in> set kvs. is_scalar v" by (auto simp: kvs_def)
  ultimately show ?thesis by (simp add: sample_json_def read_print_scalars)
qed

definition ci_chain :: "int \<Rightarrow> rpc_block" where
  "ci_chain n =
     \<lparr>blk_header = \<lparr>parent_hash = [], number = n, timestamp = 3590 + 2 * n, state_root = [], gas_used = 0\<rparr>,
      blk_hash = [word_of_int n], blk_tx_count = 1\<rparr>"

definition ci_block :: "block_id \<Rightarrow> nat \<Rightarrow> error + rpc_block option" where
  "ci_block b k =
     (case b of
        ByNumber n \<Rightarrow> Inr (if 0 \<le> n \<and> n \<le> 10 then Some (ci_chain n) else None)
      | ByHash h \<Rightarrow> Inr None
      | _ \<Rightarrow> Inr (Some (ci_chain 5)))"

definition ci_tool :: "string \<Rightarrow> (int, ci_state, b256, unit, unit) tool_env" where
  "ci_tool branch =
     \<lparr>tl_parsers = sample_parsers, tl_environ = sample_urls(''NEW_BRANCH'' \<mapsto> branch), tl_post = sample_post,
      tl_fs = sample_fs, tl_exists = (\<lambda>_ _. True), tl_root = ''/w'', tl_open_csv = (\<lambda>_ _. Inr ()),
      tl_lib = sample_rollup_lib, tl_rpc = sample_env\<lparr>l2_block := ci_block\<rparr>,
      tl_host = (\<lambda>_. \<lparr>host_fetch = (\<lambda>_ _ head _. ret (case head of None \<Rightarrow> [] | Some l1 \<Rightarrow> l1)),
        host_run = (\<lambda>_. ret ()), host_sp1_stdin = Inr, host_l1_head_hash = Some, host_finalized_l2_block = (\<lambda>_. ret None), host_safe_l1_head = (\<lambda>_ _. ret [])\<rparr>),
      tl_execute = (\<lambda>_ _. Inr (sample_report 6))\<rparr>"

definition ci_prove :: "unit prove_env" where
  "ci_prove = \<lparr>pe_prove = (\<lambda>_ _. Inl RpcError), pe_save = (\<lambda>_ _ _. Inr ()), pe_elapsed_secs = (\<lambda>_. 1)\<rparr>"

definition ci_github :: github_env where
  "ci_github = \<lparr>gh_comments = (\<lambda>_ _ _. Inr []), gh_submit = (\<lambda>_ _ _. Inr True)\<rparr>"

lemma ci_rolling: "\<exists>k. get_rolling_block_range (tl_rpc (ci_tool b)) one_hour default_range s = (Ok (5, 10), s\<lparr>tick := k\<rparr>)"
proof -
  have chain: "stable_chain ci_block ci_chain 5"
    by (simp add: stable_chain_def ci_block_def ci_chain_def)
  obtain n k where n: "find_block_by_timestamp ci_block 3600 (s\<lparr>tick := Suc (tick s)\<rparr>)
      = (Ok (blk_hash (ci_chain n), n), s\<lparr>tick := k\<rparr>)" "first_block ci_chain 5 3600 n"
    using find_block_by_timestamp_stable [OF chain, of 3600 "s\<lparr>tick := Suc (tick s)\<rparr>"]
    by (auto simp: ci_chain_def)
  have "n = 5" using n(2) by (simp add: first_block_def ci_chain_def)
  then show ?thesis
    using n(1)
    by (auto simp: get_rolling_block_range_def ci_tool_def get_l2_header_def get_header_def ci_block_def
        ci_chain_def andThen_def call_def ret_def one_hour_def default_range_def find_l2_block_by_timestamp_def
        wrap_u64_def)
qed

lemma ci_executed:
  fixes s :: ci_state
  shows "\<exists>st k. executed_stats (ci_tool b) ci_prove f (5, 10) s = (Ok st, s\<lparr>tick := k\<rparr>)
    \<and> st_batch_start st = 5 \<and> st_batch_end st = 10 \<and> stats_of_json (stats_json st) = Some st"
proof -
  define infos where "infos = map sample_block_info [6, 7, 8, 9, 10]"
  have "[6..10 :: int] = [6, 7, 8, 9, 10]" by (simp add: upto.simps)
  then have data: "get_l2_block_data_range (tl_rpc (ci_tool b)) 5 10 s = (Inr infos, s\<lparr>tick := tick s + 10\<rparr>)"
    for s :: ci_state
    by (simp add: get_l2_block_data_range_def fetch_block_info_def ci_tool_def ci_block_def ci_chain_def attempt_def
        onErr_def andThen_def call_def lift_def ret_def unwrap_def wrap_u64_def wrap_u128_def sample_env_def
        sample_block_info_def infos_def)
  have "\<exists>st. stats_new 0 infos (sample_report 6) 0 1 = Ok st \<and> fitting_stats st"
    by (simp add: stats_new_def sample_block_info_def sample_report_def div_u64_def sum_u64_def wrap_u64_def Let_def
        infos_def fitting_stats_def stats_u64_fields_def stats_u128_fields_def get_cycles_def is_u64_def u64_max_def
        sum_u128_def wrap_u128_def)
  then obtain st where st: "stats_new 0 infos (sample_report 6) 0 1 = Ok st" and fits: "fitting_stats st" by blast
  have tools: "host_fetch (tl_host (ci_tool b) g) x y None fb = ret []" "host_run (tl_host (ci_tool b) g) a = ret ()"
    "host_sp1_stdin (tl_host (ci_tool b) g) () = Inr ()" "tl_execute (ci_tool b) k () = Inr (sample_report 6)"
    for g x y a fb k
    by (simp_all add: ci_tool_def)
  have run: "executed_stats (ci_tool b) ci_prove f (5, 10) s = (Ok st, s\<lparr>tick := tick s + 12\<rparr>)"
    unfolding executed_stats_def execute_multi_def Let_def
    by (simp add: andThen_def ret_def lift_def call_def expect_op_def onErr_def elapsed_def ci_prove_def data tools st)
  then have "st_batch_start st = 5 \<and> st_batch_end st = 10"
    using executed_stats_range [OF run] by (simp add: wrap_u64_def)
  then show ?thesis using run stats_json_reads [OF fits] by blast
qed

lemma ci_open:
  fixes s :: ci_state
  shows "\<exists>f s'. open_fetcher (ci_tool b) s = (Inr f, s') \<and> github_log s' = github_log s"
  by (simp add: open_fetcher_def ci_tool_def new_with_rollup_config_def fetch_and_save_rollup_config_def
      fetch_rpc_data_def rpc_result_def andThen_def lift_def ret_def call_def Let_def get_rpcs_def
      sample_urls_def sample_post_def sample_fs_def sample_rollup_lib_def sample_parsers_def json_index_def
      write_file_def update_def is_u64_def u64_max_def unwrap_def)

lemma ci_branch: "new_branch (tl_environ (ci_tool ''true'')) = Ok True" "new_branch (tl_environ (ci_tool ''false'')) = Ok False"
  by (simp_all add: new_branch_def ci_tool_def unwrap_def flag_def parse_bool_def)

lemma ci_write:
  fixes s :: ci_state
  shows "\<exists>s'. write_stats js (tl_fs (ci_tool b)) path st s = (Ok (), s')"
  by (simp add: write_stats_def write_file_def andThen_def call_def update_def ci_tool_def sample_fs_def)

lemma ci_first:
  "\<exists>s'. test_cycle_count_diff (ci_tool ''true'') ci_prove (\<lambda>_. Inr ()) sample_json (\<lambda>_ _. Inr ()) (s :: ci_state) = (Ok (), s')
     \<and> (\<exists>st. files s' ''new_cycle_stats.json'' = Some (js_pretty sample_json (stats_json st))
          \<and> st_batch_start st = 5 \<and> st_batch_end st = 10 \<and> stats_of_json (stats_json st) = Some st)"
proof -
  obtain f u where f: "open_fetcher (ci_tool ''true'') (s\<lparr>tick := Suc (tick s)\<rparr>) = (Inr f, u)"
    using ci_open by blast
  obtain k where k: "get_rolling_block_range (tl_rpc (ci_tool ''true'')) one_hour default_range u = (Ok (5, 10), u\<lparr>tick := k\<rparr>)"
    using ci_rolling by blast
  obtain st l where st: "executed_stats (ci_tool ''true'') ci_prove f (5, 10) (u\<lparr>tick := k\<rparr>) = (Ok st, u\<lparr>tick := k, tick := l\<rparr>)"
      "st_batch_start st = 5" "st_batch_end st = 10" "stats_of_json (stats_json st) = Some st"
    using ci_executed by blast
  obtain s' where w: "write_stats sample_json (tl_fs (ci_tool ''true'')) ''new_cycle_stats.json'' st (u\<lparr>tick := k, tick := l\<rparr>) = (Ok (), s')"
    using ci_write by blast
  have "test_cycle_count_diff (ci_tool ''true'') ci_prove (\<lambda>_. Inr ()) sample_json (\<lambda>_ _. Inr ()) s = (Ok (), s')"
    using w k st(1) by (simp add: test_cycle_count_diff_def andThen_def call_def f ci_branch lift_def)
  then show ?thesis using write_stats_files [OF w] st by auto
qed

lemma ci_second:
  assumes base: "files s ''new_cycle_stats.json'' = Some (js_pretty sample_json (stats_json st))"
    "st_batch_start st = 5" "st_batch_end st = 10" "stats_of_json (stats_json st) = Some st"
  shows "\<exists>s' st'. test_cycle_count_diff (ci_tool ''false'') ci_prove (\<lambda>_. Inr ()) sample_json (\<lambda>_ _. Inr ()) (s :: ci_state) = (Ok (), s')
     \<and> files s' ''old_cycle_stats.json'' = Some (js_pretty sample_json (stats_json st')) \<and> stats_of_json (stats_json st') = Some st'
     \<and> files s' ''new_cycle_stats.json'' = files s ''new_cycle_stats.json''"
proof -
  obtain f u where f: "open_fetcher (ci_tool ''false'') (s\<lparr>tick := Suc (tick s)\<rparr>) = (Inr f, u)"
    using ci_open by blast
  have u: "files u ''new_cycle_stats.json'' = files s ''new_cycle_stats.json''"
    using open_fetcher_files [OF f] by simp
  then have r: "read_stats sample_json (\<lambda>_ _. Inr ()) ''new_cycle_stats.json'' u = (Ok st, u\<lparr>tick := Suc (tick u)\<rparr>)"
    using base by (simp add: read_stats_def andThen_def call_def sample_json_reads)
  obtain st' l where st': "executed_stats (ci_tool ''false'') ci_prove f (5, 10) (u\<lparr>tick := Suc (tick u)\<rparr>)
      = (Ok st', u\<lparr>tick := Suc (tick u), tick := l\<rparr>)" "stats_of_json (stats_json st') = Some st'"
    using ci_executed by blast
  obtain s' where w: "write_stats sample_json (tl_fs (ci_tool ''false'')) ''old_cycle_stats.json'' st'
      (u\<lparr>tick := Suc (tick u), tick := l\<rparr>) = (Ok (), s')"
    using ci_write by blast
  have "test_cycle_count_diff (ci_tool ''false'') ci_prove (\<lambda>_. Inr ()) sample_json (\<lambda>_ _. Inr ()) s = (Ok (), s')"
    using w r st'(1) base(2,3) by (simp add: test_cycle_count_diff_def andThen_def call_def f ci_branch lift_def ret_def)
  then show ?thesis using write_stats_files [OF w] st'(2) u by auto
qed

definition ci_environ :: environment where
  "ci_environ = [''POST_TO_GITHUB'' \<mapsto> ''true'', ''REPO_OWNER'' \<mapsto> ''o'', ''REPO_NAME'' \<mapsto> ''r'',
     ''PR_NUMBER'' \<mapsto> ''1'', ''GITHUB_TOKEN'' \<mapsto> ''t'']"

lemma ci_third:
  fixes s :: ci_state
  assumes "files s ''old_cycle_stats.json'' = Some (js_pretty sample_json (stats_json old))" "stats_of_json (stats_json old) = Some old"
    "files s ''new_cycle_stats.json'' = Some (js_pretty sample_json (stats_json new))" "stats_of_json (stats_json new) = Some new"
  shows "\<exists>s'. test_post_to_github sample_json (\<lambda>_ _. Inr ()) (\<lambda>_. ''0.00'') ci_github ci_environ s = (Ok (), s')"
proof -
  have "\<exists>s'. post_if_asked ci_github ci_environ message w = (Ok (), s')" for message and w :: ci_state
    by (simp add: post_if_asked_def ci_environ_def flag_def parse_bool_def expect_op_def onErr_def post_to_github_pr_def
        github_send_def andThen_def update_def call_def ci_github_def ret_def Let_def)
  then show ?thesis
    using assms by (simp add: test_post_to_github_def read_stats_def andThen_def call_def sample_json_reads)
qed

theorem report_compares_same_blocks_witness:
  "\<exists>(s :: ci_state) s' (base :: range_execution_stats) (cur :: range_execution_stats) u q.
     test_post_to_github sample_json (\<lambda>_ _. Inr ()) (\<lambda>_. ''0.00'') ci_github ci_environ s = (Ok (), s')
     \<and> st_batch_start base = st_batch_start cur \<and> st_batch_end base = st_batch_end cur
     \<and> github_log s' = github_log s @ [List_Comments u, q]"
proof -
  obtain s1 :: ci_state and cur where first: "test_cycle_count_diff (ci_tool ''true'') ci_prove (\<lambda>_. Inr ()) sample_json
        (\<lambda>_ _. Inr ()) \<lparr>tick = 0, files = Map.empty, github_log = []\<rparr> = (Ok (), s1)"
    and cur: "files s1 ''new_cycle_stats.json'' = Some (js_pretty sample_json (stats_json cur))"
      "st_batch_start cur = 5" "st_batch_end cur = 10" "stats_of_json (stats_json cur) = Some cur"
    using ci_first by blast
  obtain s2 :: ci_state and old where second: "test_cycle_count_diff (ci_tool ''false'') ci_prove (\<lambda>_. Inr ()) sample_json
        (\<lambda>_ _. Inr ()) s1 = (Ok (), s2)"
    and old: "files s2 ''old_cycle_stats.json'' = Some (js_pretty sample_json (stats_json old))"
      "stats_of_json (stats_json old) = Some old" "files s2 ''new_cycle_stats.json'' = files s1 ''new_cycle_stats.json''"
    using ci_second [OF cur] by blast
  obtain s3 where third: "test_post_to_github sample_json (\<lambda>_ _. Inr ()) (\<lambda>_. ''0.00'') ci_github ci_environ s2 = (Ok (), s3)"
    using ci_third [OF old(1,2) _ cur(4)] old(3) cur(1) by auto
  have host: "op_succinct_host (tl_host (ci_tool ''false'') f)" for f
    by unfold_locales (auto simp: ci_tool_def tick_only_basic, auto simp: ret_def andThen_def)
  have asks: "asks_to_post ci_environ" by (simp add: asks_to_post_def ci_environ_def flag_def parse_bool_def)
  from report_compares_same_blocks [OF sample_json_reads host ci_branch first second third refl refl asks]
  obtain base cur' :: range_execution_stats and u q where "st_batch_start base = st_batch_start cur'"
      "st_batch_end base = st_batch_end cur'" "github_log s3 = github_log s2 @ [List_Comments u, q]"
    by blast
  with third show ?thesis by blast
qed

end
