(* ===== verification/Metrics.thy ===== *)
theory Metrics
  imports DbClient FaultFactory
begin

text \<open>
  The gauges as the metrics exporter sees them: the trait \<open>MetricsGauge\<close> of
  \<open>utils/host/src/metrics.rs\<close> and its three implementations in \<open>validity/src/prom.rs\<close> and
  \<open>fault-proof/src/prometheus.rs\<close>. The recorder keeps values and descriptions by name; the services
  are modelled with a value for each variant. The locale shows that the two views agree, because the
  names of the variants differ, and is interpreted for each of the three enums.
\<close>

subsection \<open>The recorder\<close>

text \<open>A gauge that is incremented before it is set starts at zero. The code only passes whole numbers.\<close>

record recorder =
  descriptions :: "string \<rightharpoonup> string"
  gauge_values :: "string \<rightharpoonup> int"

definition gauge_read :: "recorder \<Rightarrow> string \<Rightarrow> int" where
  "gauge_read r key = (case gauge_values r key of None \<Rightarrow> 0 | Some v \<Rightarrow> v)"

definition describe_gauge :: "('g \<Rightarrow> string) \<Rightarrow> ('g \<Rightarrow> string) \<Rightarrow> 'g \<Rightarrow> recorder \<Rightarrow> recorder" where
  "describe_gauge show message g r = r\<lparr>descriptions := (descriptions r)(show g \<mapsto> message g)\<rparr>"

definition set_gauge :: "('g \<Rightarrow> string) \<Rightarrow> 'g \<Rightarrow> int \<Rightarrow> recorder \<Rightarrow> recorder" where
  "set_gauge show g v r = r\<lparr>gauge_values := (gauge_values r)(show g \<mapsto> v)\<rparr>"

definition increment_gauge :: "('g \<Rightarrow> string) \<Rightarrow> 'g \<Rightarrow> int \<Rightarrow> recorder \<Rightarrow> recorder" where
  "increment_gauge show g v r = r\<lparr>gauge_values := (gauge_values r)(show g \<mapsto> gauge_read r (show g) + v)\<rparr>"

definition register_all :: "'g list \<Rightarrow> ('g \<Rightarrow> string) \<Rightarrow> ('g \<Rightarrow> string) \<Rightarrow> recorder \<Rightarrow> recorder" where
  "register_all variants show message r = fold (describe_gauge show message) variants r"

definition init_all :: "'g list \<Rightarrow> ('g \<Rightarrow> string) \<Rightarrow> recorder \<Rightarrow> recorder" where
  "init_all variants show r = fold (\<lambda>g. set_gauge show g 0) variants r"

subsection \<open>The trait\<close>

locale metrics_gauge =
  fixes variants :: "'g list"
    and show_gauge :: "'g \<Rightarrow> string"
  assumes names_differ: "inj_on show_gauge (set variants)"
begin

definition view :: "recorder \<Rightarrow> 'g \<Rightarrow> int" where
  "view r g = (if g \<in> set variants then gauge_read r (show_gauge g) else 0)"

lemma view_set: "g \<in> set variants \<Longrightarrow> view (set_gauge show_gauge g v r) = (view r)(g := v)"
  using names_differ by (auto simp: fun_eq_iff view_def gauge_read_def set_gauge_def inj_on_def)

lemma view_increment:
  "g \<in> set variants \<Longrightarrow> view (increment_gauge show_gauge g v r) = (view r)(g := view r g + v)"
  using names_differ by (auto simp: fun_eq_iff view_def gauge_read_def increment_gauge_def inj_on_def)

lemma view_register: "view (register_all variants show_gauge message r) = view r"
proof -
  have "gauge_values (fold (describe_gauge show_gauge message) gs r) = gauge_values r" for gs
    by (induction gs arbitrary: r) (simp_all add: describe_gauge_def)
  then show ?thesis by (simp add: fun_eq_iff view_def gauge_read_def register_all_def)
qed

lemma view_init: "view (init_all variants show_gauge r) = (\<lambda>_. 0)"
proof -
  have "gauge_values (fold (\<lambda>g. set_gauge show_gauge g 0) gs r) key
      = (if key \<in> show_gauge ` set gs then Some 0 else gauge_values r key)" for gs key
    by (induction gs arbitrary: r) (auto simp: set_gauge_def)
  then show ?thesis by (auto simp: fun_eq_iff view_def gauge_read_def init_all_def)
qed

end

subsection \<open>The three enums\<close>

text \<open>The attributes \<open>serialize\<close> and \<open>message\<close> of each variant.\<close>

fun validity_gauge_name :: "validity_gauge \<Rightarrow> string" where
  "validity_gauge_name CurrentUnrequestedProofs = ''succinct_current_unrequested_proofs''"
| "validity_gauge_name CurrentProvingProofs = ''succinct_current_proving_proofs''"
| "validity_gauge_name CurrentWitnessgenProofs = ''succinct_current_witnessgen_proofs''"
| "validity_gauge_name CurrentExecuteProofs = ''succinct_current_execute_proofs''"
| "validity_gauge_name HighestProvenContiguousBlock = ''succinct_highest_proven_contiguous_block''"
| "validity_gauge_name LatestContractL2Block = ''succinct_latest_contract_l2_block''"
| "validity_gauge_name L2UnsafeHeadBlock = ''succinct_l2_unsafe_head_block''"
| "validity_gauge_name L2FinalizedBlock = ''succinct_l2_finalized_block''"
| "validity_gauge_name MinBlockToProveToAgg = ''succinct_min_block_to_prove_to_agg''"
| "validity_gauge_name ProofRequestRetryCount = ''succinct_proof_request_retry_count''"
| "validity_gauge_name TotalErrorCount = ''succinct_total_error_count''"
| "validity_gauge_name ProofRequestTimeoutErrorCount = ''succinct_proof_request_timeout_error_count''"
| "validity_gauge_name RetryErrorCount = ''succinct_retry_error_count''"
| "validity_gauge_name WitnessgenErrorCount = ''succinct_witnessgen_error_count''"
| "validity_gauge_name ExecutionErrorCount = ''succinct_execution_error_count''"
| "validity_gauge_name RangeProofRequestErrorCount = ''succinct_range_proof_request_error_count''"
| "validity_gauge_name AggProofRequestErrorCount = ''succinct_agg_proof_request_error_count''"
| "validity_gauge_name AggProofValidationErrorCount = ''succinct_agg_proof_validation_error_count''"
| "validity_gauge_name RelayAggProofErrorCount = ''succinct_relay_agg_proof_error_count''"

fun validity_gauge_message :: "validity_gauge \<Rightarrow> string" where
  "validity_gauge_message CurrentUnrequestedProofs = ''Number of proofs currently unrequested''"
| "validity_gauge_message CurrentProvingProofs = ''Number of proofs currently being proved''"
| "validity_gauge_message CurrentWitnessgenProofs = ''Number of proofs currently in witness generation''"
| "validity_gauge_message CurrentExecuteProofs = ''Number of proofs currently being executed''"
| "validity_gauge_message HighestProvenContiguousBlock = ''Highest proven contiguous block''"
| "validity_gauge_message LatestContractL2Block = ''Latest L2 block number from the contract''"
| "validity_gauge_message L2UnsafeHeadBlock = ''L2 unsafe head block number''"
| "validity_gauge_message L2FinalizedBlock = ''L2 finalized block number''"
| "validity_gauge_message MinBlockToProveToAgg = ''Minimum block number required to prove for aggregation''"
| "validity_gauge_message ProofRequestRetryCount = ''Number of proof request retries''"
| "validity_gauge_message TotalErrorCount = ''Number of total errors''"
| "validity_gauge_message ProofRequestTimeoutErrorCount = ''Number of proof request timeout errors''"
| "validity_gauge_message RetryErrorCount = ''Number of retry errors''"
| "validity_gauge_message WitnessgenErrorCount = ''Number of witness generation errors''"
| "validity_gauge_message ExecutionErrorCount = ''Number of execution errors''"
| "validity_gauge_message RangeProofRequestErrorCount = ''Number of range proof request errors''"
| "validity_gauge_message AggProofRequestErrorCount = ''Number of aggregation proof request errors''"
| "validity_gauge_message AggProofValidationErrorCount = ''Number of aggregation proof validation errors''"
| "validity_gauge_message RelayAggProofErrorCount = ''Number of relay aggregation proof errors''"

fun fault_gauge_name :: "fault_gauge \<Rightarrow> string" where
  "fault_gauge_name ProposerFinalizedL2BlockNumber = ''op_succinct_fp_finalized_l2_block_number''"
| "fault_gauge_name ProposerLatestGameL2BlockNumber = ''op_succinct_fp_latest_game_l2_block_number''"
| "fault_gauge_name ProposerAnchorGameL2BlockNumber = ''op_succinct_fp_anchor_game_l2_block_number''"
| "fault_gauge_name ProposerGamesCreated = ''op_succinct_fp_games_created''"
| "fault_gauge_name ProposerGamesResolved = ''op_succinct_fp_games_resolved''"
| "fault_gauge_name ProposerGamesBondsClaimed = ''op_succinct_fp_games_bonds_claimed''"
| "fault_gauge_name ProposerGameCreationError = ''op_succinct_fp_game_creation_error''"
| "fault_gauge_name ProposerGameProvingError = ''op_succinct_fp_game_proving_error''"
| "fault_gauge_name ProposerGameResolutionError = ''op_succinct_fp_game_resolution_error''"
| "fault_gauge_name ProposerBondClaimingError = ''op_succinct_fp_bond_claiming_error''"
| "fault_gauge_name ProposerMetricsError = ''op_succinct_fp_metrics_error''"
| "fault_gauge_name ChallengerGamesChallenged = ''op_succinct_fp_challenger_games_challenged''"
| "fault_gauge_name ChallengerGamesResolved = ''op_succinct_fp_challenger_games_resolved''"
| "fault_gauge_name ChallengerGamesBondsClaimed = ''op_succinct_fp_challenger_games_bonds_claimed''"
| "fault_gauge_name ChallengerGameChallengingError = ''op_succinct_fp_challenger_game_challenging_error''"
| "fault_gauge_name ChallengerGameResolutionError = ''op_succinct_fp_challenger_game_resolution_error''"
| "fault_gauge_name ChallengerBondClaimingError = ''op_succinct_fp_challenger_bond_claiming_error''"

fun fault_gauge_message :: "fault_gauge \<Rightarrow> string" where
  "fault_gauge_message ProposerFinalizedL2BlockNumber = ''Finalized L2 block number''"
| "fault_gauge_message ProposerLatestGameL2BlockNumber = ''Latest game L2 block number''"
| "fault_gauge_message ProposerAnchorGameL2BlockNumber = ''Anchor game L2 block number''"
| "fault_gauge_message ProposerGamesCreated = ''Total number of games created by the proposer''"
| "fault_gauge_message ProposerGamesResolved = ''Total number of games resolved by the proposer''"
| "fault_gauge_message ProposerGamesBondsClaimed = ''Total number of games that bonds were claimed by the proposer''"
| "fault_gauge_message ProposerGameCreationError = ''Total number of game creation errors encountered by the proposer''"
| "fault_gauge_message ProposerGameProvingError = ''Total number of game proving errors encountered by the proposer''"
| "fault_gauge_message ProposerGameResolutionError = ''Total number of game resolution errors encountered by the proposer''"
| "fault_gauge_message ProposerBondClaimingError = ''Total number of bond claiming errors encountered by the proposer''"
| "fault_gauge_message ProposerMetricsError = ''Total number of metrics errors encountered by the proposer''"
| "fault_gauge_message ChallengerGamesChallenged = ''Total number of games challenged by the challenger''"
| "fault_gauge_message ChallengerGamesResolved = ''Total number of games resolved by the challenger''"
| "fault_gauge_message ChallengerGamesBondsClaimed = ''Total number of games that bonds were claimed by the challenger''"
| "fault_gauge_message ChallengerGameChallengingError = ''Total number of game challenging errors encountered by the challenger''"
| "fault_gauge_message ChallengerGameResolutionError = ''Total number of game resolution errors encountered by the challenger''"
| "fault_gauge_message ChallengerBondClaimingError = ''Total number of bond claiming errors encountered by the challenger''"

definition validity_variants :: "validity_gauge list" where
  "validity_variants =
    [CurrentUnrequestedProofs, CurrentProvingProofs, CurrentWitnessgenProofs, CurrentExecuteProofs,
     HighestProvenContiguousBlock, LatestContractL2Block, L2UnsafeHeadBlock, L2FinalizedBlock,
     MinBlockToProveToAgg, ProofRequestRetryCount, TotalErrorCount, ProofRequestTimeoutErrorCount,
     RetryErrorCount, WitnessgenErrorCount, ExecutionErrorCount, RangeProofRequestErrorCount,
     AggProofRequestErrorCount, AggProofValidationErrorCount, RelayAggProofErrorCount]"

definition proposer_variants :: "fault_gauge list" where
  "proposer_variants =
    [ProposerFinalizedL2BlockNumber, ProposerLatestGameL2BlockNumber,
     ProposerAnchorGameL2BlockNumber, ProposerGamesCreated, ProposerGamesResolved,
     ProposerGamesBondsClaimed, ProposerGameCreationError, ProposerGameProvingError,
     ProposerGameResolutionError, ProposerBondClaimingError, ProposerMetricsError]"

definition challenger_variants :: "fault_gauge list" where
  "challenger_variants =
    [ChallengerGamesChallenged, ChallengerGamesResolved, ChallengerGamesBondsClaimed,
     ChallengerGameChallengingError, ChallengerGameResolutionError, ChallengerBondClaimingError]"

interpretation validity_metrics: metrics_gauge validity_variants validity_gauge_name
  by unfold_locales (simp add: validity_variants_def)

interpretation proposer_metrics: metrics_gauge proposer_variants fault_gauge_name
  by unfold_locales (simp add: proposer_variants_def)

interpretation challenger_metrics: metrics_gauge challenger_variants fault_gauge_name
  by unfold_locales (simp add: challenger_variants_def)

lemma validity_variants_all: "g \<in> set validity_variants"
  by (cases g) (simp_all add: validity_variants_def)

lemma fault_variants_all: "g \<in> set proposer_variants \<union> set challenger_variants"
  by (cases g) (simp_all add: proposer_variants_def challenger_variants_def)

subsection \<open>The exporter refines the gauges of the services\<close>

text \<open>What the exporter shows after a call is what the state of the validity proposer holds.\<close>

lemma exported_gauges:
  assumes "gauges s = validity_metrics.view r"
  shows "gauges (snd (gauge_set g v s)) = validity_metrics.view (set_gauge validity_gauge_name g v r)"
    and "gauges (snd (gauge_increment g s)) = validity_metrics.view (increment_gauge validity_gauge_name g 1 r)"
  using assms validity_metrics.view_set [OF validity_variants_all] validity_metrics.view_increment [OF validity_variants_all]
  by (simp_all add: gauge_set_def gauge_increment_def update_def)

text \<open>The two services of the fault proofs share no name, and neither shares one with the validity service.\<close>

lemma names_of_services_differ:
  "validity_gauge_name g \<noteq> fault_gauge_name h"
  "inj fault_gauge_name"
proof -
  show "validity_gauge_name g \<noteq> fault_gauge_name h" by (cases g; cases h) simp_all
  show "inj fault_gauge_name"
  proof (rule injI)
    fix g h :: fault_gauge
    assume "fault_gauge_name g = fault_gauge_name h"
    then show "g = h" by (cases g; cases h) simp_all
  qed
qed

end
