(* ===== verification/Messages.thy ===== *)
theory Messages
  imports JsonRpc ProofRequester
begin

text \<open>
  The messages of \<open>validity/src/types.rs\<close>, which the Go proposer and the Rust server exchanged, in the JSON
  form that serde derives. Base64 decoding is a parameter. What is written reads back, but for the
  request of an aggregation, which is written with arrays of numbers and read with base64 strings.
\<close>

subsection \<open>Fields\<close>

text \<open>\<open>n\<close>-bit signed numbers, byte arrays and lists as serde reads them; fields that are not named are ignored.\<close>

fun json_bool :: "json \<Rightarrow> bool option" where
  "json_bool (JBool b) = Some b"
| "json_bool _ = None"

fun json_i32 :: "json \<Rightarrow> int option" where
  "json_i32 (JNum n) = (if - (2 ^ 31) \<le> n \<and> n < 2 ^ 31 then Some n else None)"
| "json_i32 _ = None"

fun json_byte :: "json \<Rightarrow> 8 word option" where
  "json_byte (JNum n) = (if 0 \<le> n \<and> n < 256 then Some (word_of_int n) else None)"
| "json_byte _ = None"

fun decode_list :: "(json \<Rightarrow> 'a option) \<Rightarrow> json list \<Rightarrow> 'a list option" where
  "decode_list f [] = Some []"
| "decode_list f (v # vs) =
     (case f v of None \<Rightarrow> None | Some x \<Rightarrow> map_option (\<lambda>xs. x # xs) (decode_list f vs))"

fun json_list :: "(json \<Rightarrow> 'a option) \<Rightarrow> json \<Rightarrow> 'a list option" where
  "json_list f (JArr vs) = decode_list f vs"
| "json_list f _ = None"

definition field :: "json \<Rightarrow> string \<Rightarrow> (json \<Rightarrow> 'a option) \<Rightarrow> 'a option" where
  "field v key f = Option.bind (json_get v key) f"

definition bytes_json :: "bytes \<Rightarrow> json" where
  "bytes_json bs = JArr (map (\<lambda>b. JNum (uint b)) bs)"

subsection \<open>Messages\<close>

record validate_config_request =
  vq_address :: string

record validate_config_response =
  vr_rollup_config_hash_valid :: bool
  vr_agg_vkey_valid :: bool
  vr_range_vkey_valid :: bool

record span_proof_request =
  sq_start :: int
  sq_end :: int

record agg_proof_request =
  aq_subproofs :: "bytes list"
  aq_head :: string

record mock_proof_response =
  mr_proof_id :: string

record proof_response =
  pr_proof_id :: bytes

record proof_status_message =
  ps_fulfillment_status :: int
  ps_execution_status :: int
  ps_proof :: bytes

definition validate_config_request_json :: "validate_config_request \<Rightarrow> json" where
  "validate_config_request_json q = JObj [(''address'', JStr (vq_address q))]"

definition validate_config_request_of :: "json \<Rightarrow> validate_config_request option" where
  "validate_config_request_of v =
     Option.bind (field v ''address'' as_str) (\<lambda>a. Some \<lparr>vq_address = a\<rparr>)"

definition validate_config_response_json :: "validate_config_response \<Rightarrow> json" where
  "validate_config_response_json r =
     JObj [(''rollup_config_hash_valid'', JBool (vr_rollup_config_hash_valid r)),
       (''agg_vkey_valid'', JBool (vr_agg_vkey_valid r)), (''range_vkey_valid'', JBool (vr_range_vkey_valid r))]"

definition validate_config_response_of :: "json \<Rightarrow> validate_config_response option" where
  "validate_config_response_of v =
     Option.bind (field v ''rollup_config_hash_valid'' json_bool) (\<lambda>a.
     Option.bind (field v ''agg_vkey_valid'' json_bool) (\<lambda>b.
     Option.bind (field v ''range_vkey_valid'' json_bool) (\<lambda>c.
       Some \<lparr>vr_rollup_config_hash_valid = a, vr_agg_vkey_valid = b, vr_range_vkey_valid = c\<rparr>)))"

definition span_proof_request_json :: "span_proof_request \<Rightarrow> json" where
  "span_proof_request_json q = JObj [(''start'', JNum (sq_start q)), (''end'', JNum (sq_end q))]"

definition span_proof_request_of :: "json \<Rightarrow> span_proof_request option" where
  "span_proof_request_of v =
     Option.bind (field v ''start'' as_json_u64) (\<lambda>s.
     Option.bind (field v ''end'' as_json_u64) (\<lambda>e. Some \<lparr>sq_start = s, sq_end = e\<rparr>))"

text \<open>\<open>deserialize_base64_vec\<close>: every string is decoded, the first that is no base64 is the error.\<close>

definition deserialize_base64_vec :: "(string \<Rightarrow> bytes option) \<Rightarrow> json \<Rightarrow> bytes list option" where
  "deserialize_base64_vec decode v =
     Option.bind (json_list as_str v) (\<lambda>strs. decode_list (\<lambda>s. Option.bind (as_str s) decode) (map JStr strs))"

definition agg_proof_request_json :: "agg_proof_request \<Rightarrow> json" where
  "agg_proof_request_json q =
     JObj [(''subproofs'', JArr (map bytes_json (aq_subproofs q))), (''head'', JStr (aq_head q))]"

definition agg_proof_request_of :: "(string \<Rightarrow> bytes option) \<Rightarrow> json \<Rightarrow> agg_proof_request option" where
  "agg_proof_request_of decode v =
     Option.bind (field v ''subproofs'' (deserialize_base64_vec decode)) (\<lambda>ps.
     Option.bind (field v ''head'' as_str) (\<lambda>h. Some \<lparr>aq_subproofs = ps, aq_head = h\<rparr>))"

definition mock_proof_response_json :: "mock_proof_response \<Rightarrow> json" where
  "mock_proof_response_json r = JObj [(''proof_id'', JStr (mr_proof_id r))]"

definition mock_proof_response_of :: "json \<Rightarrow> mock_proof_response option" where
  "mock_proof_response_of v = Option.bind (field v ''proof_id'' as_str) (\<lambda>i. Some \<lparr>mr_proof_id = i\<rparr>)"

definition proof_response_json :: "proof_response \<Rightarrow> json" where
  "proof_response_json r = JObj [(''proof_id'', bytes_json (pr_proof_id r))]"

definition proof_response_of :: "json \<Rightarrow> proof_response option" where
  "proof_response_of v =
     Option.bind (field v ''proof_id'' (json_list json_byte)) (\<lambda>i. Some \<lparr>pr_proof_id = i\<rparr>)"

definition proof_status_json :: "proof_status_message \<Rightarrow> json" where
  "proof_status_json p =
     JObj [(''fulfillment_status'', JNum (ps_fulfillment_status p)),
       (''execution_status'', JNum (ps_execution_status p)), (''proof'', bytes_json (ps_proof p))]"

definition proof_status_of :: "json \<Rightarrow> proof_status_message option" where
  "proof_status_of v =
     Option.bind (field v ''fulfillment_status'' json_i32) (\<lambda>f.
     Option.bind (field v ''execution_status'' json_i32) (\<lambda>e.
     Option.bind (field v ''proof'' (json_list json_byte)) (\<lambda>p.
       Some \<lparr>ps_fulfillment_status = f, ps_execution_status = e, ps_proof = p\<rparr>)))"

subsection \<open>Why a proof was unclaimed\<close>

datatype unclaim_description =
  UnexpectedProverError | ProgramExecutionError | CycleLimitExceeded | OtherDescription

definition unclaim_description_of :: "string \<Rightarrow> unclaim_description" where
  "unclaim_description_of description =
     (let d = to_lowercase description in
      if d = ''unexpected prover error'' then UnexpectedProverError
      else if d = ''program execution error'' then ProgramExecutionError
      else if d = ''cycle limit exceeded'' then CycleLimitExceeded
      else OtherDescription)"

text \<open>\<open>Serialize_repr\<close> and \<open>Deserialize_repr\<close> with \<open>repr(i32)\<close>.\<close>

fun unclaim_repr :: "unclaim_description \<Rightarrow> int" where
  "unclaim_repr UnexpectedProverError = 0"
| "unclaim_repr ProgramExecutionError = 1"
| "unclaim_repr CycleLimitExceeded = 2"
| "unclaim_repr OtherDescription = 3"

definition unclaim_of_repr :: "int \<Rightarrow> unclaim_description option" where
  "unclaim_of_repr n =
     (if n = 0 then Some UnexpectedProverError else if n = 1 then Some ProgramExecutionError
      else if n = 2 then Some CycleLimitExceeded else if n = 3 then Some OtherDescription else None)"

subsection \<open>What is written reads back\<close>

lemma decode_list_map:
  "(\<And>x. x \<in> set xs \<Longrightarrow> f (g x) = Some x) \<Longrightarrow> decode_list f (map g xs) = Some xs"
  by (induction xs) simp_all

lemma bytes_json_reads [simp]: "json_list json_byte (bytes_json bs) = Some bs"
  unfolding bytes_json_def json_list.simps
  by (rule decode_list_map) (use uint_lt2p [where x = "_ :: 8 word"] in simp)

lemma messages_read_back:
  "validate_config_request_of (validate_config_request_json a) = Some a"
  "validate_config_response_of (validate_config_response_json b) = Some b"
  "is_u64 (sq_start c) \<Longrightarrow> is_u64 (sq_end c) \<Longrightarrow> span_proof_request_of (span_proof_request_json c) = Some c"
  "mock_proof_response_of (mock_proof_response_json d) = Some d"
  "proof_response_of (proof_response_json e) = Some e"
  by (simp_all add: validate_config_request_of_def validate_config_request_json_def validate_config_response_of_def
      validate_config_response_json_def span_proof_request_of_def span_proof_request_json_def mock_proof_response_of_def
      mock_proof_response_json_def proof_response_of_def proof_response_json_def field_def)

lemma proof_status_reads_back:
  assumes "- (2 ^ 31) \<le> ps_fulfillment_status p" "ps_fulfillment_status p < 2 ^ 31"
    and "- (2 ^ 31) \<le> ps_execution_status p" "ps_execution_status p < 2 ^ 31"
  shows "proof_status_of (proof_status_json p) = Some p"
  using assms by (simp add: proof_status_of_def proof_status_json_def field_def)

lemma unclaim_repr_reads_back: "unclaim_of_repr (unclaim_repr u) = Some u"
  by (cases u) (simp_all add: unclaim_of_repr_def)

text \<open>
  The request of an aggregation reads the strings of the Go proposer in their order, all or nothing.
  A request with a subproof that Rust itself has written is rejected.
\<close>

lemma base64_vec_reads:
  "deserialize_base64_vec decode (JArr (map JStr ss)) = those (map decode ss)"
proof -
  have "decode_list as_str (map JStr ss) = Some ss" by (rule decode_list_map) simp
  moreover have "decode_list (\<lambda>s. Option.bind (as_str s) decode) (map JStr ss) = those (map decode ss)"
    by (induction ss) (simp_all split: option.splits)
  ultimately show ?thesis by (simp add: deserialize_base64_vec_def)
qed

lemma agg_proof_request_one_way:
  "aq_subproofs q \<noteq> [] \<Longrightarrow> agg_proof_request_of decode (agg_proof_request_json q) = None"
  by (cases "aq_subproofs q") (simp_all add: agg_proof_request_of_def agg_proof_request_json_def field_def
      deserialize_base64_vec_def bytes_json_def)

end
