(* ===== verification/ServiceTests.thy ===== *)
theory ServiceTests
  imports Startup FaultProposerProps CostEstimator
begin

text \<open>
  The tests of the fault proof service against a running chain: \<open>fault-proof/tests/integration.rs\<close>, in
  which an adversary challenges a valid game and the proposer defends it, and
  \<open>fault-proof/tests/e2e.rs\<close>, which run the proposer and the challenger as processes and watch the
  games. The theorems say what a passed test has observed. The processes act on the chain
  between the calls of the test: their effects are in the answers of the contracts.
\<close>

subsection \<open>The integration test\<close>

text \<open>The signer of the test: as \<open>Signer::from_env\<close>, with \<open>expect\<close> instead of errors.\<close>

definition test_signer :: "parsers \<Rightarrow> environment \<Rightarrow> signer res" where
  "test_signer ps env =
     (case (env ''SIGNER_URL'', env ''SIGNER_ADDRESS'') of
        (Some signer_url, Some address) \<Rightarrow>
          res_bind (unwrap (ps_url ps signer_url) ''Failed to parse SIGNER_URL'') (\<lambda>u.
          res_bind (unwrap (ps_address ps address) ''Failed to parse SIGNER_ADDRESS'') (\<lambda>a.
            Ok (Web3Signer u a)))
      | _ \<Rightarrow>
          (case env ''PRIVATE_KEY'' of
             Some private_key \<Rightarrow>
               res_bind (unwrap (ps_private_key ps private_key) ''Failed to parse PRIVATE_KEY'') (\<lambda>a.
                 Ok (LocalSigner a))
           | None \<Rightarrow> Err (Msg ''Neither PRIVATE_KEY nor Web3Signer is set'')))"

text \<open>
  The adversary. \<open>submit\<close> is the node's answer to \<open>send\<close>; a transaction that it takes is sent, and
  its receipt is waited for.
\<close>

definition challenge_valid_game ::
  "(address \<Rightarrow> int \<Rightarrow> nat \<Rightarrow> error + unit) \<Rightarrow> game_env \<Rightarrow> address \<Rightarrow> int \<Rightarrow> ('z fault_world_scheme, b256) op" where
  "challenge_valid_game submit env game bond =
     andThen (rephrase (Msg ''Failed to send challenge transaction'') (call (submit game bond))) (\<lambda>_.
     andThen (rephrase (Msg ''Failed to get transaction receipt for challenge'')
                (send_game_tx env (ChallengeGame game bond))) (\<lambda>receipt.
       ret (gr_hash receipt)))"

definition create_challenge_defend ::
  "(address \<Rightarrow> int \<Rightarrow> nat \<Rightarrow> error + unit) \<Rightarrow> ('args, 'wit, 'stdin) fault_proposer \<Rightarrow> (fault_state, unit) op" where
  "create_challenge_defend submit p =
     andThen (handle_game_creation p) (\<lambda>created.
     andThen (lift (unwrap created ''unwrap'')) (\<lambda>game_address.
     andThen (fetch_challenger_bond (fp_env p) (fc_game_type (fp_config p))) (\<lambda>challenger_bond.
     andThen (challenge_valid_game submit (fp_env p) game_address challenger_bond) (\<lambda>_.
     andThen (prove_game p game_address) (\<lambda>tx_hash.
     andThen (call (ge_claim_data (fp_env p) game_address)) (\<lambda>claim.
       lift (ensure (cd_status claim = ChallengedAndValidProofProvided)
               ''Game was not successfully defended'')))))))"

definition test_proposer_defends_successfully ::
  "('args, 'wit, 'stdin, 'cfg) fault_service \<Rightarrow> (address \<Rightarrow> int \<Rightarrow> nat \<Rightarrow> error + unit) \<Rightarrow> environment
     \<Rightarrow> (fault_process, unit) op" where
  "test_proposer_defends_successfully fv submit env =
     andThen (lift (test_signer (fv_parsers fv) env)) (\<lambda>sg.
     andThen (lift (env_must env (ps_url (fv_parsers fv)) ''L1_RPC'')) (\<lambda>_.
     andThen (lift (env_must env (ps_address (fv_parsers fv)) ''FACTORY_ADDRESS'')) (\<lambda>factory.
     let prover = prover_address_from_env (fv_parsers fv) env sg in
     andThen (on_fault_disk
       (new_with_rollup_config (fv_parsers fv) env (fv_post fv) (fv_fs fv) (fv_rollup fv))) (\<lambda>fetcher.
     andThen (unwrapping (in_process (fault_proposer_of fv env sg prover factory fetcher))) (\<lambda>proposer.
       in_process (create_challenge_defend submit proposer))))))"

subsection \<open>The end-to-end tests\<close>

text \<open>
  What the tests use beyond the contracts: the processes of \<open>cargo run\<close>, the clock in seconds, random
  bytes, and the duration that the implementation contract reports.
\<close>

record e2e_env =
  ee_parsers :: parsers
  ee_games :: "signer \<Rightarrow> url \<Rightarrow> url \<Rightarrow> address \<Rightarrow> game_env"
  ee_spawn :: "string \<Rightarrow> nat \<Rightarrow> error + unit"
  ee_kill :: "string \<Rightarrow> nat \<Rightarrow> error + unit"
  ee_now :: "nat \<Rightarrow> int"
  ee_random :: "nat \<Rightarrow> b256"
  ee_max_challenge_duration :: "address \<Rightarrow> nat \<Rightarrow> error + int"

record e2e_state = fault_world +
  processes :: "string list"

definition num_games :: int where "num_games = 3"

definition spawn_process :: "e2e_env \<Rightarrow> string \<Rightarrow> string \<Rightarrow> (e2e_state, unit) op" where
  "spawn_process ee msg bin =
     andThen (expect_op msg (call (ee_spawn ee bin))) (\<lambda>_.
       update (\<lambda>s. s\<lparr>processes := processes s @ [bin]\<rparr>))"

definition kill_process :: "e2e_env \<Rightarrow> string \<Rightarrow> string \<Rightarrow> (e2e_state, unit) op" where
  "kill_process ee msg bin =
     andThen (expect_op msg (call (ee_kill ee bin))) (\<lambda>_.
       update (\<lambda>s. s\<lparr>processes := remove1 bin (processes s)\<rparr>))"

text \<open>\<open>fetch_latest_game_index().await?.unwrap_or(U256::ZERO)\<close>.\<close>

definition latest_index_or_zero :: "game_env \<Rightarrow> ('z io_scheme, int) op" where
  "latest_index_or_zero env =
     andThen (fetch_latest_game_index env) (\<lambda>latest. ret (case latest of None \<Rightarrow> 0 | Some i \<Rightarrow> i))"

text \<open>The \<open>num_games\<close> games from \<open>start_game_index\<close> on, with their indices.\<close>

definition games_from :: "game_env \<Rightarrow> int \<Rightarrow> ('z io_scheme, (address \<times> int) list) op" where
  "games_from env start_game_index =
     traverse (\<lambda>i.
       andThen (call (ge_game_at_index env (wrap_u256 (start_game_index + i)))) (\<lambda>game_address.
         ret (game_address, wrap_u256 (start_game_index + i)))) [0..num_games - 1]"

partial_function (option) collect_games ::
  "game_env \<Rightarrow> int \<Rightarrow> (address \<times> int) list \<Rightarrow> 'z io_scheme \<Rightarrow> ((address \<times> int) list res \<times> 'z io_scheme) option" where
  "collect_games env start_game_index games s =
     (if int (length games) < num_games
      then (case latest_index_or_zero env s of
              (Inl e, s') \<Rightarrow> Some (Inl e, s')
            | (Inr latest_game_index, s') \<Rightarrow>
                (if latest_game_index < wrap_u256 (start_game_index + num_games)
                 then collect_games env start_game_index games s'
                 else (case games_from env start_game_index s' of
                         (Inl e, t) \<Rightarrow> Some (Inl e, t)
                       | (Inr found, t) \<Rightarrow> collect_games env start_game_index (games @ found) t)))
      else Some (Ok games, s))"

text \<open>\<open>try_join_all\<close> over the games, then \<open>all\<close>.\<close>

definition all_have_status :: "game_env \<Rightarrow> proposal_status \<Rightarrow> address list \<Rightarrow> ('z io_scheme, bool) op" where
  "all_have_status env status games =
     andThen (traverse (\<lambda>game. andThen (call (ge_claim_data env game)) (\<lambda>claim. ret (cd_status claim = status))) games)
       (\<lambda>flags. ret (list_all (\<lambda>b. b) flags))"

text \<open>\<open>while !done && Instant::now() - start < max_wait\<close>: the value is \<open>done\<close>.\<close>

partial_function (option) poll_until ::
  "(nat \<Rightarrow> int) \<Rightarrow> int \<Rightarrow> int \<Rightarrow> ('z io_scheme \<Rightarrow> bool res \<times> 'z io_scheme) \<Rightarrow> 'z io_scheme
     \<Rightarrow> (bool res \<times> 'z io_scheme) option" where
  "poll_until clk start max_wait check s =
     (case call (\<lambda>t. Inr (clk t)) s of
        (Inl e, s') \<Rightarrow> Some (Inl e, s')
      | (Inr instant, s') \<Rightarrow>
          (if instant - start < max_wait
           then (case check s' of
                   (Inl e, t) \<Rightarrow> Some (Inl e, t)
                 | (Inr finished, t) \<Rightarrow>
                     (if finished then Some (Ok True, t) else poll_until clk start max_wait check t))
           else Some (Ok False, s')))"

definition clock :: "e2e_env \<Rightarrow> ('z io_scheme, int) op" where
  "clock ee = call (\<lambda>t. Inr (ee_now ee t))"

definition test_e2e_proposer_wins :: "e2e_env \<Rightarrow> environment \<Rightarrow> (e2e_state, unit) op" where
  "test_e2e_proposer_wins ee env =
     (let ps = ee_parsers ee in
     andThen (lift (fault_proposer_from_env ps env)) (\<lambda>proposer_config.
     andThen (lift (env_must env (ps_private_key ps) ''PRIVATE_KEY'')) (\<lambda>wallet.
     andThen (lift (env_must env (ps_address ps) ''FACTORY_ADDRESS'')) (\<lambda>factory_address.
     let factory = ee_games ee (LocalSigner wallet) (fs_l1_rpc proposer_config) (fs_l2_rpc proposer_config)
                     factory_address in
     andThen (latest_index_or_zero factory) (\<lambda>start_game_index.
     andThen (spawn_process ee ''Failed to spawn proposer to create games'' ''proposer'') (\<lambda>_.
     andThen (run_loop (collect_games factory start_game_index [])) (\<lambda>games.
     andThen (call (ge_game_impls factory (fc_game_type proposer_config))) (\<lambda>game_impl.
     andThen (call (ee_max_challenge_duration ee game_impl)) (\<lambda>duration.
     andThen (lift (u256_to_u64 duration)) (\<lambda>max_challenge_duration.
     andThen (clock ee) (\<lambda>resolve_start.
     andThen (run_loop (poll_until (ee_now ee) resolve_start (wrap_u64 (180 + max_challenge_duration))
                (all_have_status factory Resolved (map fst games)))) (\<lambda>finished.
     andThen (kill_process ee ''Failed to kill proposer process'' ''proposer'') (\<lambda>_.
       lift (ensure finished
         ''Timed out waiting for PROPOSER_WINS. Games were not resolved in time.''))))))))))))))"

fun create_faulty_games ::
  "e2e_env \<Rightarrow> game_env \<Rightarrow> int \<Rightarrow> int \<Rightarrow> int \<Rightarrow> nat \<Rightarrow> int \<Rightarrow> (e2e_state, unit) op" where
  "create_faulty_games ee factory game_type interval init_bond 0 l2_block_number = ret ()"
| "create_faulty_games ee factory game_type interval init_bond (Suc k) l2_block_number =
     andThen (call (\<lambda>t. Inr (ee_random ee t))) (\<lambda>faulty_output_root.
     andThen (send_game_tx factory
       (game_tx.CreateGame game_type faulty_output_root (u256_be l2_block_number @ u32_be u32_max) init_bond)) (\<lambda>_.
       create_faulty_games ee factory game_type interval init_bond k (wrap_u256 (l2_block_number + interval))))"

definition challenged_yet :: "game_env \<Rightarrow> int \<Rightarrow> ('z io_scheme, bool) op" where
  "challenged_yet factory start_game_index =
     andThen (latest_index_or_zero factory) (\<lambda>latest_game_index.
       if wrap_u256 (start_game_index + num_games) \<le> latest_game_index
       then andThen (games_from factory start_game_index) (\<lambda>games.
              all_have_status factory Challenged (map fst games))
       else ret False)"

definition test_e2e_challenger_wins :: "e2e_env \<Rightarrow> environment \<Rightarrow> (e2e_state, unit) op" where
  "test_e2e_challenger_wins ee env =
     (let ps = ee_parsers ee in
     andThen (lift (fault_proposer_from_env ps env)) (\<lambda>proposer_config.
     andThen (lift (env_must env (ps_private_key ps) ''PRIVATE_KEY'')) (\<lambda>wallet.
     let factory = ee_games ee (LocalSigner wallet) (fs_l1_rpc proposer_config) (fs_l2_rpc proposer_config)
                     (fs_factory_address proposer_config);
         game_type = fc_game_type proposer_config;
         interval = fc_proposal_interval_in_blocks proposer_config in
     andThen (call (ge_init_bonds factory game_type)) (\<lambda>init_bond.
     andThen (latest_index_or_zero factory) (\<lambda>start_game_index.
     andThen (spawn_process ee ''Failed to spawn challenger'' ''challenger'') (\<lambda>_.
     andThen (get_anchor_l2_block_number factory game_type) (\<lambda>anchor.
     andThen (create_faulty_games ee factory game_type interval init_bond (nat num_games)
                (wrap_u256 (anchor + interval))) (\<lambda>_.
     andThen (clock ee) (\<lambda>start.
     andThen (run_loop (poll_until (ee_now ee) start 120 (challenged_yet factory start_game_index))) (\<lambda>finished.
     andThen (kill_process ee ''Failed to kill challenger process'' ''challenger'') (\<lambda>_.
       lift (ensure finished
         ''Timed out waiting for CHALLENGER_WINS. Possibly the challenge/resolve window is too long.''))))))))))))"

subsection \<open>What an operation of the test sends\<close>

lemma sent_read: "tick_only m \<Longrightarrow> m s = (r, s') \<Longrightarrow> sent s' = sent s"
  for s :: "'z fault_world_scheme"
  by (drule (1) tick_onlyD) auto

lemma send_game_tx_Ok:
  "send_game_tx env x s = (Ok r, s') \<longleftrightarrow>
     ge_send env x (tick s) = Inr r \<and> s' = s\<lparr>sent := sent s @ [x], tick := Suc (tick s)\<rparr>"
  by (auto simp: send_game_tx_def andThen_eq_Ok update_def call_def split: sum.splits)

lemma rephrase_Ok [simp]: "rephrase e m s = (Ok x, s') \<longleftrightarrow> m s = (Ok x, s')"
  by (auto simp: rephrase_def onErr_def throw_def ret_def split: prod.splits sum.splits fault.splits)

lemma create_game_Ok:
  assumes "create_game p n i s = (Ok a, s')"
  shows "\<exists>root t r others. sent s' = sent s
      @ [game_tx.CreateGame (fc_game_type (fp_config p)) root (u256_be n @ u32_be i) (fp_init_bond p)]
    \<and> ge_send (fp_env p)
        (game_tx.CreateGame (fc_game_type (fp_config p)) root (u256_be n @ u32_be i) (fp_init_bond p)) t = Inr r
    \<and> gr_created r = a # others"
proof -
  let ?tx = "\<lambda>root. game_tx.CreateGame (fc_game_type (fp_config p)) root (u256_be n @ u32_be i) (fp_init_bond p)"
  let ?fast = "if fc_fast_finality_mode (fp_config p)
    then onErr (spawn_game_proving_task p a) ret (\<lambda>e. ret ()) else ret ()"
  let ?found = "\<lambda>r. case gr_created r of
      [] \<Rightarrow> throw (Failure (Msg ''Could not find DisputeGameCreated event in transaction receipt logs''))
    | a # _ \<Rightarrow> ret a"
  obtain root s1 r s2 b s3 u s4 where root: "compute_output_root_at_block (fp_env p) n s = (Ok root, s1)"
    and send: "send_game_tx (fp_env p) (?tx root) s1 = (Ok r, s2)" and found: "?found r s2 = (Ok b, s3)"
    and rest: "(if fc_fast_finality_mode (fp_config p)
      then onErr (spawn_game_proving_task p b) ret (\<lambda>e. ret ()) else ret ()) s3 = (Ok u, s4)" "ret b s4 = (Ok a, s')"
    using assms unfolding create_game_def andThen_eq_Ok by blast
  have b: "b = a" "s4 = s'" using rest(2) by (simp_all add: ret_def)
  obtain others where r: "gr_created r = a # others" and s3: "s3 = s2"
    using found unfolding b by (cases "gr_created r") (auto simp: ret_def throw_def)
  have fast: "\<exists>u. ?fast s2 = (Ok u, s')" using rest(1) unfolding b s3 by blast
  have "keeps (\<lambda>s. sent s = sent s2) ?fast"
    by (intro keeps_intros keeps_sent_spawn)
  then have "sent s' = sent s2" using fast keepsD by fastforce
  moreover have "sent s1 = sent s" by (rule sent_read [OF factory_reads(2) root])
  ultimately show ?thesis using send r unfolding send_game_tx_Ok by auto
qed

lemma handle_game_creation_Ok:
  assumes "handle_game_creation p s = (Ok (Some a), s')" and "op_succinct_host (fp_host p)"
  shows "\<exists>n i root t r others. sent s' = sent s
      @ [game_tx.CreateGame (fc_game_type (fp_config p)) root (u256_be n @ u32_be i) (fp_init_bond p)]
    \<and> ge_send (fp_env p)
        (game_tx.CreateGame (fc_game_type (fp_config p)) root (u256_be n @ u32_be i) (fp_init_bond p)) t = Inr r
    \<and> gr_created r = a # others"
proof -
  obtain b n i s1 f s2 where target: "proposal_target p s = (Ok (b, n, i), s1)"
    and fin: "finalized_after p b s1 = (Ok f, s2)" and create: "create_game p n i s2 = (Ok a, s')"
    using assms(1) by (auto simp: handle_game_creation_def andThen_eq_Ok ret_def split: option.splits if_splits)
  have reads: "tick_only (finalized_after p b)"
    unfolding finalized_after_def by (intro tick_intros op_succinct_host.finalized_reads [OF assms(2)])
  have "sent s2 = sent s"
    using sent_read [OF proposal_target_reads target] sent_read [OF reads fin] by simp
  then show ?thesis using create_game_Ok [OF create] by metis
qed

lemma proving_reads:
  assumes "op_succinct_host (fp_host p)"
  shows "tick_only (range_stdin_of_game p game)" "tick_only (prove_range p stdin)"
    "tick_only (aggregation_stdin_of_range p range_proof)" "tick_only (prove_aggregation p stdin)"
    "tick_only (rephrase e (call (fp_new_fetcher p)))"
  unfolding range_stdin_of_game_def prove_range_def aggregation_stdin_of_range_def prove_aggregation_def rephrase_def
  by (auto intro!: tick_intros op_succinct_host.fetch_reads [OF assms] op_succinct_host.run_reads [OF assms]
      split: prod.splits)

lemma prove_game_Ok:
  assumes "prove_game p game s = (Ok h, s')" and "op_succinct_host (fp_host p)"
  shows "\<exists>agg_proof proof_bytes. onchain_bytes (fp_sp1 p) agg_proof = Some proof_bytes
    \<and> sent s' = sent s @ [ProveGame game proof_bytes]"
proof -
  obtain u s1 rs s2 rp s3 as s4 ap s5 bytes r
    where steps: "rephrase (Msg ''Failed to create data fetcher'') (call (fp_new_fetcher p)) s = (Ok u, s1)"
      "range_stdin_of_game p game s1 = (Ok rs, s2)" "prove_range p rs s2 = (Ok rp, s3)"
      "aggregation_stdin_of_range p rp s3 = (Ok as, s4)" "prove_aggregation p as s4 = (Ok ap, s5)"
    and bytes: "onchain_bytes (fp_sp1 p) ap = Some bytes"
    and send: "send_game_tx (fp_env p) (ProveGame game bytes) s5 = (Ok r, s')"
    using assms(1) unfolding prove_game_def andThen_eq_Ok by (auto simp: lift_def ret_def simp del: rephrase_Ok)
  have "sent s5 = sent s"
    using sent_read [OF proving_reads(5) [OF assms(2)] steps(1)] sent_read [OF proving_reads(1) [OF assms(2)] steps(2)]
      sent_read [OF proving_reads(2) [OF assms(2)] steps(3)] sent_read [OF proving_reads(3) [OF assms(2)] steps(4)]
      sent_read [OF proving_reads(4) [OF assms(2)] steps(5)] by simp
  then show ?thesis using send bytes unfolding send_game_tx_Ok by auto
qed

lemma create_challenge_defend_Ok:
  assumes "create_challenge_defend submit p s = (Ok (), s')" and "op_succinct_host (fp_host p)"
  shows "\<exists>n i root t r others game impl t1 t2 bond agg_proof proof_bytes t3 claim.
    sent s' = sent s @
      [game_tx.CreateGame (fc_game_type (fp_config p)) root (u256_be n @ u32_be i) (fp_init_bond p),
       ChallengeGame game bond, ProveGame game proof_bytes]
    \<and> ge_send (fp_env p)
        (game_tx.CreateGame (fc_game_type (fp_config p)) root (u256_be n @ u32_be i) (fp_init_bond p)) t = Inr r
    \<and> gr_created r = game # others
    \<and> ge_game_impls (fp_env p) (fc_game_type (fp_config p)) t1 = Inr impl
    \<and> ge_challenger_bond (fp_env p) impl t2 = Inr bond
    \<and> onchain_bytes (fp_sp1 p) agg_proof = Some proof_bytes
    \<and> ge_claim_data (fp_env p) game t3 = Inr claim \<and> cd_status claim = ChallengedAndValidProofProvided"
proof -
  obtain game s1 bond s2 h1 s3 h2 s4 claim
    where create: "handle_game_creation p s = (Ok (Some game), s1)"
      and bond: "fetch_challenger_bond (fp_env p) (fc_game_type (fp_config p)) s1 = (Ok bond, s2)"
      and challenge: "challenge_valid_game submit (fp_env p) game bond s2 = (Ok h1, s3)"
      and prove: "prove_game p game s3 = (Ok h2, s4)"
      and claim: "call (ge_claim_data (fp_env p) game) s4 = (Ok claim, s')"
        "cd_status claim = ChallengedAndValidProofProvided"
    using assms(1) unfolding create_challenge_defend_def andThen_eq_Ok by (auto simp: lift_def)
  obtain impl t1 t2 where b: "ge_game_impls (fp_env p) (fc_game_type (fp_config p)) t1 = Inr impl"
      "ge_challenger_bond (fp_env p) impl t2 = Inr bond" "sent s2 = sent s1"
    using bond by (auto simp: fetch_challenger_bond_def andThen_eq_Ok call_def split: sum.splits)
  have c: "sent s3 = sent s2 @ [ChallengeGame game bond]"
    using challenge
    by (auto simp: challenge_valid_game_def andThen_eq_Ok send_game_tx_Ok ret_def call_def split: sum.splits)
  obtain t3 where d: "ge_claim_data (fp_env p) game t3 = Inr claim" "sent s' = sent s4"
    using claim by (auto simp: call_def split: sum.splits)
  show ?thesis
    using handle_game_creation_Ok [OF create assms(2)] prove_game_Ok [OF prove assms(2)] b c d claim(2)
    by (elim exE conjE) (intro exI conjI, auto)
qed

subsection \<open>What a passed integration test has seen\<close>

text \<open>
  A game that was created, challenged and defended: the three transactions, the bond that the
  contract asked for, and the status of the game at the end.
\<close>

definition defended_game :: "game_env \<Rightarrow> int \<Rightarrow> address \<Rightarrow> game_tx list \<Rightarrow> bool" where
  "defended_game ge game_type game txs \<longleftrightarrow>
     (\<exists>n i root init_bond t0 t r others impl t1 bond t2 proof_bytes claim t3.
        txs = [game_tx.CreateGame game_type root (u256_be n @ u32_be i) init_bond, ChallengeGame game bond,
               ProveGame game proof_bytes]
        \<and> ge_init_bonds ge game_type t0 = Inr init_bond
        \<and> ge_send ge (game_tx.CreateGame game_type root (u256_be n @ u32_be i) init_bond) t = Inr r
        \<and> gr_created r = game # others
        \<and> ge_game_impls ge game_type t1 = Inr impl \<and> ge_challenger_bond ge impl t2 = Inr bond
        \<and> ge_claim_data ge game t3 = Inr claim \<and> cd_status claim = ChallengedAndValidProofProvided)"

lemma in_process_sent:
  assumes "in_process m s = (Ok x, s')"
  obtains u t where "m u = (Ok x, t)" "sent u = sent s" "sent s' = sent t"
  using assms by (auto simp: in_process_def fault_state.defs fault_process.defs split: prod.splits)

lemma on_fault_disk_sent: "on_fault_disk m s = (r, s') \<Longrightarrow> sent s' = sent s"
  by (auto simp: on_fault_disk_def split: prod.splits)

lemma fault_proposer_new_bond:
  assumes "fault_proposer_new q s = (Ok p, s')"
  shows "fp_env p = fp_env q \<and> fp_host p = fp_host q \<and> fp_config p = fp_config q
    \<and> ge_init_bonds (fp_env q) (fc_game_type (fp_config q)) (tick s) = Inr (fp_init_bond p) \<and> sent s' = sent s"
proof -
  obtain bond where "ge_init_bonds (fp_env q) (fc_game_type (fp_config q)) (tick s) = Inr bond"
      "p = q\<lparr>fp_init_bond := bond\<rparr>" "s' = s\<lparr>tick := Suc (tick s), fault_tasks := [], next_task_id := 1\<rparr>"
    using assms
    by (auto simp: fault_proposer_new_def andThen_eq_Ok ret_def update_def fetch_init_bond_def call_def
        split: sum.splits)
  then show ?thesis by simp
qed

lemma fault_proposer_of_Ok:
  assumes "fault_proposer_of fv env sg prover factory fetcher s = (Ok p, s')"
  shows "\<exists>c t. fault_proposer_from_env (fv_parsers fv) env = Ok c
    \<and> fp_env p = fv_games fv sg (fs_l1_rpc c) (fs_l2_rpc c) factory
    \<and> fp_host p = fv_host fv fetcher \<and> fc_game_type (fp_config p) = fc_game_type c
    \<and> ge_init_bonds (fp_env p) (fc_game_type c) t = Inr (fp_init_bond p) \<and> sent s' = sent s"
proof -
  obtain c where c: "fault_proposer_from_env (fv_parsers fv) env = Ok c"
    and new: "fault_proposer_new
         \<lparr>fp_config = fault_proposer_config.truncate c,
          fp_env = fv_games fv sg (fs_l1_rpc c) (fs_l2_rpc c) factory,
          fp_host = fv_host fv fetcher, fp_sp1 = fv_sp1 fv (network_private_key env),
          fp_prove = fv_prove fv (network_private_key env), fp_new_fetcher = fv_new_fetcher fv,
          fp_range_vk = fv_range_vk fv, fp_prover_address = prover, fp_init_bond = 0\<rparr> s = (Ok p, s')"
    using assms by (auto simp: fault_proposer_of_def andThen_eq_Ok lift_def)
  show ?thesis
    using fault_proposer_new_bond [OF new] c by (auto simp: fault_proposer_config.defs)
qed

lemma integration_test_Ok:
  assumes hosts: "\<forall>f. op_succinct_host (fv_host fv f)"
    and run: "test_proposer_defends_successfully fv submit env s = (Ok (), s')"
  shows "\<exists>sg factory c game txs.
    test_signer (fv_parsers fv) env = Ok sg
    \<and> env_must env (ps_address (fv_parsers fv)) ''FACTORY_ADDRESS'' = Ok factory
    \<and> fault_proposer_from_env (fv_parsers fv) env = Ok c
    \<and> sent s' = sent s @ txs
    \<and> defended_game (fv_games fv sg (fs_l1_rpc c) (fs_l2_rpc c) factory) (fc_game_type c) game txs"
proof -
  obtain sg l1 factory fetcher s1 p s2
    where sg: "test_signer (fv_parsers fv) env = Ok sg"
      and factory: "env_must env (ps_address (fv_parsers fv)) ''FACTORY_ADDRESS'' = Ok factory"
      and disk: "on_fault_disk
        (new_with_rollup_config (fv_parsers fv) env (fv_post fv) (fv_fs fv) (fv_rollup fv)) s = (Ok fetcher, s1)"
      and new: "in_process (fault_proposer_of fv env sg
        (prover_address_from_env (fv_parsers fv) env sg) factory fetcher) s1 = (Ok p, s2)"
      and body: "in_process (create_challenge_defend submit p) s2 = (Ok (), s')"
    using run by (auto simp: test_proposer_defends_successfully_def Let_def andThen_eq_Ok unwrapping_Ok lift_def)
  obtain u t where new': "fault_proposer_of fv env sg (prover_address_from_env (fv_parsers fv) env sg)
      factory fetcher u = (Ok p, t)" "sent u = sent s1" "sent s2 = sent t"
    using in_process_sent [OF new] by blast
  obtain v w where body': "create_challenge_defend submit p v = (Ok (), w)" "sent v = sent s2" "sent s' = sent w"
    using in_process_sent [OF body] by blast
  obtain c t0 where c: "fault_proposer_from_env (fv_parsers fv) env = Ok c"
      "fp_env p = fv_games fv sg (fs_l1_rpc c) (fs_l2_rpc c) factory" "fp_host p = fv_host fv fetcher"
      "fc_game_type (fp_config p) = fc_game_type c"
      "ge_init_bonds (fp_env p) (fc_game_type c) t0 = Inr (fp_init_bond p)" "sent t = sent u"
    using fault_proposer_of_Ok [OF new'(1)] by blast
  have host: "op_succinct_host (fp_host p)" using hosts c(3) by simp
  have sent: "sent v = sent s" using body'(2) new'(2,3) c(6) on_fault_disk_sent [OF disk] by simp
  obtain game txs where "sent s' = sent s @ txs" "defended_game (fp_env p) (fc_game_type c) game txs"
    using create_challenge_defend_Ok [OF body'(1) host] c(5) unfolding defended_game_def c(4) sent body'(3)
    by blast
  then show ?thesis using sg factory c(1,2) by metis
qed

subsection \<open>What a passed end-to-end test has seen\<close>

definition seen_at :: "game_env \<Rightarrow> int \<Rightarrow> proposal_status \<Rightarrow> bool" where
  "seen_at env i status \<longleftrightarrow> (\<exists>t game t' claim. ge_game_at_index env i t = Inr game
     \<and> ge_claim_data env game t' = Inr claim \<and> cd_status claim = status)"

lemma games_from_Ok:
  assumes "games_from env i s = (Ok games, s')"
  shows "list_all2 (\<lambda>k g. snd g = wrap_u256 (i + k) \<and> (\<exists>t. ge_game_at_index env (snd g) t = Inr (fst g)))
    [0, 1, 2] games"
proof -
  have "[0..num_games - 1] = [0, 1, 2]" by (simp add: num_games_def upto.simps)
  then show ?thesis
    using assms unfolding games_from_def
    by (auto simp: andThen_eq_Ok call_def ret_def split: sum.splits elim!: traverse_Ok)
qed

lemma all_have_status_Ok:
  assumes "all_have_status env status games s = (Ok True, s')"
  shows "\<forall>g \<in> set games. \<exists>t claim. ge_claim_data env g t = Inr claim \<and> cd_status claim = status"
proof -
  obtain flags s1 where run: "traverse (\<lambda>game. andThen (call (ge_claim_data env game))
      (\<lambda>claim. ret (cd_status claim = status))) games s = (Ok flags, s1)" and "list_all (\<lambda>b. b) flags"
    using assms by (auto simp: all_have_status_def andThen_eq_Ok ret_def)
  moreover have "list_all2 (\<lambda>g b. b \<longrightarrow> (\<exists>t claim. ge_claim_data env g t = Inr claim \<and> cd_status claim = status))
      games flags"
    by (rule traverse_Ok [OF run]) (auto simp: andThen_eq_Ok ret_def call_def split: sum.splits)
  ultimately show ?thesis by (auto simp: list_all2_conv_all_nth list_all_length in_set_conv_nth)
qed

lemma games_seen:
  assumes "games_from env i s = (Ok games, s')" "all_have_status env status (map fst games) u = (Ok True, u')"
  shows "\<forall>k \<in> {0, 1, 2}. seen_at env (wrap_u256 (i + k)) status"
proof -
  obtain a b c where g: "games = [(a, wrap_u256 i), (b, wrap_u256 (i + 1)), (c, wrap_u256 (i + 2))]"
      "\<exists>t. ge_game_at_index env (wrap_u256 i) t = Inr a"
      "\<exists>t. ge_game_at_index env (wrap_u256 (i + 1)) t = Inr b"
      "\<exists>t. ge_game_at_index env (wrap_u256 (i + 2)) t = Inr c"
    using games_from_Ok [OF assms(1)] by (auto simp: list_all2_Cons1)
  have "\<exists>t claim. ge_claim_data env g t = Inr claim \<and> cd_status claim = status" if "g \<in> {a, b, c}" for g
    using all_have_status_Ok [OF assms(2)] that g(1) by auto
  then show ?thesis using g(2-4) unfolding seen_at_def by fastforce
qed

lemma collect_games_Ok:
  fixes s :: "'z io_scheme"
  assumes run: "collect_games env i [] s = Some (Ok found, s')"
  shows "\<exists>(t :: 'z io_scheme) t'. games_from env i t = (Ok found, t')"
proof -
  let ?P = "\<lambda>env i games (x :: (address \<times> int) list res \<times> 'z io_scheme).
    (\<forall>found. fst x = Ok found \<longrightarrow>
      (if int (length games) < num_games
       then \<exists>new (t :: 'z io_scheme) t'. found = games @ new \<and> games_from env i t = (Ok new, t')
       else found = games))"
  have "?P env i [] (Ok found, s')"
  proof (rule collect_games.raw_induct [OF _ run])
    fix loop :: "game_env \<Rightarrow> int \<Rightarrow> (address \<times> int) list \<Rightarrow> 'z io_scheme
        \<Rightarrow> ((address \<times> int) list res \<times> 'z io_scheme) option"
      and env i games and s :: "'z io_scheme" and x
    assume IH: "\<And>env i games s x. loop env i games s = Some x \<Longrightarrow> ?P env i games x"
      and step: "(if int (length games) < num_games
      then (case latest_index_or_zero env s of
              (Inl e, s') \<Rightarrow> Some (Inl e, s')
            | (Inr latest_game_index, s') \<Rightarrow>
                (if latest_game_index < wrap_u256 (i + num_games)
                 then loop env i games s'
                 else (case games_from env i s' of
                         (Inl e, t) \<Rightarrow> Some (Inl e, t)
                       | (Inr found, t) \<Rightarrow> loop env i (games @ found) t)))
      else Some (Ok games, s)) = Some x"
    show "?P env i games x"
    proof (cases "int (length games) < num_games")
      case True
      have more: "\<not> int (length (games @ new)) < num_games" if "games_from env i t = (Ok new, t')"
        for new and t t' :: "'z io_scheme"
        using games_from_Ok [OF that] by (auto simp: num_games_def dest: list_all2_lengthD)
      obtain l s1 where latest: "latest_index_or_zero env s = (l, s1)" by fastforce
      obtain g s2 where new: "games_from env i s1 = (g, s2)" by fastforce
      show ?thesis
      proof (cases l)
        case (Inl e)
        then show ?thesis using step True latest by auto
      next
        case l: (Inr latest_game_index)
        show ?thesis
        proof (cases "latest_game_index < wrap_u256 (i + num_games)")
          case True
          then show ?thesis using step \<open>int (length games) < num_games\<close> latest l IH [of env i games s1 x] by simp
        next
          case False
          show ?thesis
          proof (cases g)
            case (Inl e)
            then show ?thesis using step True latest l False new by auto
          next
            case (Inr found)
            then have "loop env i (games @ found) s2 = Some x" using step True latest l False new by simp
            from IH [OF this] more [of s1 found s2] True show ?thesis using new Inr by auto
          qed
        qed
      qed
    next
      case False
      then show ?thesis using step by auto
    qed
  qed
  then show ?thesis by (simp add: num_games_def)
qed

lemma poll_until_Ok:
  fixes s :: "'z io_scheme"
  assumes run: "poll_until clk start max_wait check s = Some (Ok True, s')"
  shows "\<exists>t t'. check t = (Ok True, t')"
proof -
  have "fst (Ok True :: bool res, s') = Ok True \<longrightarrow> (\<exists>t t'. check t = (Ok True, t'))"
  proof (rule poll_until.raw_induct [OF _ run])
    fix loop :: "(nat \<Rightarrow> int) \<Rightarrow> int \<Rightarrow> int \<Rightarrow> ('z io_scheme \<Rightarrow> bool res \<times> 'z io_scheme) \<Rightarrow> 'z io_scheme
        \<Rightarrow> (bool res \<times> 'z io_scheme) option"
      and clk start max_wait check and s :: "'z io_scheme" and x
    assume IH: "\<And>clk start max_wait check s x. loop clk start max_wait check s = Some x \<Longrightarrow>
        fst x = Ok True \<longrightarrow> (\<exists>t t'. check t = (Ok True, t'))"
      and step: "(case call (\<lambda>t. Inr (clk t)) s of
        (Inl e, s') \<Rightarrow> Some (Inl e, s')
      | (Inr instant, s') \<Rightarrow>
          (if instant - start < max_wait
           then (case check s' of
                   (Inl e, t) \<Rightarrow> Some (Inl e, t)
                 | (Inr finished, t) \<Rightarrow>
                     (if finished then Some (Ok True, t) else loop clk start max_wait check t))
           else Some (Ok False, s'))) = Some x"
    show "fst x = Ok True \<longrightarrow> (\<exists>t t'. check t = (Ok True, t'))"
    proof -
      obtain v s1 where v: "call (\<lambda>t. Inr (clk t)) s = (v, s1)" by fastforce
      obtain c s2 where c: "check s1 = (c, s2)" by fastforce
      show ?thesis using step v c IH by (auto split: sum.splits if_splits) (metis prod.collapse)+
    qed
  qed
  then show ?thesis by simp
qed

lemma latest_index_or_zero_Ok:
  "latest_index_or_zero env s = (Ok i, s') \<longleftrightarrow>
     (\<exists>n. ge_game_count env (tick s) = Inr n \<and> i = (if n = 0 then 0 else wrap_u256 (n - 1))
        \<and> s' = s\<lparr>tick := Suc (tick s)\<rparr>)"
  by (cases "ge_game_count env (tick s)")
    (simp_all add: latest_index_or_zero_def fetch_latest_game_index_def andThen_def call_def ret_def, blast)

lemma challenged_yet_Ok:
  assumes "challenged_yet env i s = (Ok True, s')"
  shows "\<forall>k \<in> {0, 1, 2}. seen_at env (wrap_u256 (i + k)) Challenged"
    and "\<exists>t n. ge_game_count env t = Inr n \<and> wrap_u256 (i + num_games) \<le> (if n = 0 then 0 else wrap_u256 (n - 1))"
proof -
  obtain l s1 games s2 where l: "latest_index_or_zero env s = (Ok l, s1)" "wrap_u256 (i + num_games) \<le> l"
    and games: "games_from env i s1 = (Ok games, s2)"
    and status: "all_have_status env Challenged (map fst games) s2 = (Ok True, s')"
    using assms by (auto simp: challenged_yet_def andThen_eq_Ok ret_def split: if_splits)
  show "\<forall>k \<in> {0, 1, 2}. seen_at env (wrap_u256 (i + k)) Challenged" by (rule games_seen [OF games status])
  show "\<exists>t n. ge_game_count env t = Inr n \<and> wrap_u256 (i + num_games) \<le> (if n = 0 then 0 else wrap_u256 (n - 1))"
    using l unfolding latest_index_or_zero_Ok by blast
qed

lemma run_loop_Ok: "run_loop f s = (Ok x, s') \<longleftrightarrow> f s = Some (Ok x, s')"
  by (auto simp: run_loop_def split: option.splits)

text \<open>The factory as the tests see it.\<close>

definition factory_of :: "e2e_env \<Rightarrow> environment \<Rightarrow> game_env \<Rightarrow> bool" where
  "factory_of ee env ge \<longleftrightarrow> (\<exists>c wallet address. fault_proposer_from_env (ee_parsers ee) env = Ok c
     \<and> env_must env (ps_private_key (ee_parsers ee)) ''PRIVATE_KEY'' = Ok wallet
     \<and> ge = ee_games ee (LocalSigner wallet) (fs_l1_rpc c) (fs_l2_rpc c) address)"

lemma challenger_test_Ok:
  assumes "test_e2e_challenger_wins ee env s = (Ok (), s')"
  shows "\<exists>ge n start t m. factory_of ee env ge \<and> ge_game_count ge (Suc (tick s)) = Inr n
    \<and> start = (if n = 0 then 0 else wrap_u256 (n - 1))
    \<and> (\<forall>k \<in> {0, 1, 2}. seen_at ge (wrap_u256 (start + k)) Challenged)
    \<and> ge_game_count ge t = Inr m \<and> wrap_u256 (start + num_games) \<le> (if m = 0 then 0 else wrap_u256 (m - 1))"
proof -
  let ?games = "\<lambda>wallet c. ee_games ee (LocalSigner wallet) (fs_l1_rpc c) (fs_l2_rpc c) (fs_factory_address c)"
  obtain c s3 wallet s4 bond s1 start s2 t0 finished and s8 s9 s10 :: e2e_state
    where "lift (fault_proposer_from_env (ee_parsers ee) env) s = (Ok c, s3)"
      "lift (env_must env (ps_private_key (ee_parsers ee)) ''PRIVATE_KEY'') s3 = (Ok wallet, s4)"
    and bond': "call (ge_init_bonds (?games wallet c) (fc_game_type c)) s4 = (Ok bond, s1)"
    and start: "latest_index_or_zero (?games wallet c) s1 = (Ok start, s2)"
    and poll': "poll_until (ee_now ee) t0 120 (challenged_yet (?games wallet c) start) s8 = Some (Ok finished, s9)"
      "lift (ensure finished
         ''Timed out waiting for CHALLENGER_WINS. Possibly the challenge/resolve window is too long.'') s10 = (Ok (), s')"
    using assms unfolding test_e2e_challenger_wins_def Let_def andThen_eq_Ok run_loop_Ok by blast
  then have env: "fault_proposer_from_env (ee_parsers ee) env = Ok c"
      "env_must env (ps_private_key (ee_parsers ee)) ''PRIVATE_KEY'' = Ok wallet"
    and bond: "call (ge_init_bonds (?games wallet c) (fc_game_type c)) s = (Ok bond, s1)"
    and poll: "poll_until (ee_now ee) t0 120 (challenged_yet (?games wallet c) start) s8 = Some (Ok True, s9)"
    by (simp_all add: lift_def)
  let ?ge = "?games wallet c"
  have tick: "tick s1 = Suc (tick s)" using bond by (auto simp: call_def split: sum.splits)
  obtain n where n: "ge_game_count ?ge (Suc (tick s)) = Inr n" "start = (if n = 0 then 0 else wrap_u256 (n - 1))"
    using start unfolding latest_index_or_zero_Ok tick by blast
  obtain u u' :: e2e_state where check: "challenged_yet ?ge start u = (Ok True, u')"
    using poll_until_Ok [OF poll] by blast
  obtain t m where m: "ge_game_count ?ge t = Inr m"
      "wrap_u256 (start + num_games) \<le> (if m = 0 then 0 else wrap_u256 (m - 1))"
    using challenged_yet_Ok(2) [OF check] by blast
  have "factory_of ee env ?ge" using env unfolding factory_of_def by blast
  then show ?thesis using n m challenged_yet_Ok(1) [OF check] by blast
qed

lemma proposer_test_Ok:
  assumes "test_e2e_proposer_wins ee env s = (Ok (), s')"
  shows "\<exists>ge n start. factory_of ee env ge \<and> ge_game_count ge (tick s) = Inr n
    \<and> start = (if n = 0 then 0 else wrap_u256 (n - 1))
    \<and> (\<forall>k \<in> {0, 1, 2}. seen_at ge (wrap_u256 (start + k)) Resolved)"
proof -
  let ?games = "\<lambda>wallet c. ee_games ee (LocalSigner wallet) (fs_l1_rpc c) (fs_l2_rpc c)"
  obtain c s4 wallet s5 address s6 start s1 games t0 w finished and s2 s3 s8 s9 s10 :: e2e_state
    where "lift (fault_proposer_from_env (ee_parsers ee) env) s = (Ok c, s4)"
      "lift (env_must env (ps_private_key (ee_parsers ee)) ''PRIVATE_KEY'') s4 = (Ok wallet, s5)"
      "lift (env_must env (ps_address (ee_parsers ee)) ''FACTORY_ADDRESS'') s5 = (Ok address, s6)"
    and start': "latest_index_or_zero (?games wallet c address) s6 = (Ok start, s1)"
    and games: "collect_games (?games wallet c address) start [] s2 = Some (Ok games, s3)"
    and poll': "poll_until (ee_now ee) t0 w (all_have_status (?games wallet c address) Resolved (map fst games)) s8
        = Some (Ok finished, s9)"
      "lift (ensure finished
         ''Timed out waiting for PROPOSER_WINS. Games were not resolved in time.'') s10 = (Ok (), s')"
    using assms unfolding test_e2e_proposer_wins_def Let_def andThen_eq_Ok run_loop_Ok by blast
  then have env: "fault_proposer_from_env (ee_parsers ee) env = Ok c"
      "env_must env (ps_private_key (ee_parsers ee)) ''PRIVATE_KEY'' = Ok wallet"
    and start: "latest_index_or_zero (?games wallet c address) s = (Ok start, s1)"
    and poll: "poll_until (ee_now ee) t0 w (all_have_status (?games wallet c address) Resolved (map fst games)) s8
        = Some (Ok True, s9)"
    by (simp_all add: lift_def)
  let ?ge = "?games wallet c address"
  have "factory_of ee env ?ge" using env unfolding factory_of_def by blast
  moreover have "\<forall>k \<in> {0, 1, 2}. seen_at ?ge (wrap_u256 (start + k)) Resolved"
    using collect_games_Ok [OF games] poll_until_Ok [OF poll] games_seen by metis
  ultimately show ?thesis using start unfolding latest_index_or_zero_Ok by metis
qed

text \<open>
  The end-to-end tests look at the games from the latest one before the test on, not from the one
  after it. On a factory with games, a test passes only if the last game from before the test has
  the expected status too; on one without games, the test of the challenger creates three games and
  waits for a fourth.
\<close>

theorem e2e_tests_start_one_game_early:
  assumes counts: "\<And>ge t n. factory_of ee env ge \<Longrightarrow> ge_game_count ge t = Inr n \<Longrightarrow> is_u256 n"
  shows "test_e2e_challenger_wins ee env s = (Ok (), s') \<Longrightarrow>
      \<exists>ge n. factory_of ee env ge \<and> ge_game_count ge (Suc (tick s)) = Inr n
        \<and> (if n = 0 then \<exists>t m. ge_game_count ge t = Inr m \<and> 4 \<le> m else seen_at ge (n - 1) Challenged)"
    and "test_e2e_proposer_wins ee env s = (Ok (), s') \<Longrightarrow>
      \<exists>ge n. factory_of ee env ge \<and> ge_game_count ge (tick s) = Inr n \<and> (n \<noteq> 0 \<longrightarrow> seen_at ge (n - 1) Resolved)"
proof -
  have idx: "wrap_u256 (n - 1) = n - 1" "wrap_u256 (wrap_u256 (n - 1) + 0) = n - 1" if "is_u256 n" "n \<noteq> 0" for n
    using that by (simp_all add: wrap_u256_def is_u256_def u256_max_def)
  show "\<exists>ge n. factory_of ee env ge \<and> ge_game_count ge (Suc (tick s)) = Inr n
        \<and> (if n = 0 then \<exists>t m. ge_game_count ge t = Inr m \<and> 4 \<le> m else seen_at ge (n - 1) Challenged)"
    if pass: "test_e2e_challenger_wins ee env s = (Ok (), s')"
  proof -
    obtain ge n t m where ge: "factory_of ee env ge" "ge_game_count ge (Suc (tick s)) = Inr n"
      and seen: "\<forall>k \<in> {0, 1, 2}. seen_at ge (wrap_u256 ((if n = 0 then 0 else wrap_u256 (n - 1)) + k)) Challenged"
      and m: "ge_game_count ge t = Inr m"
        "wrap_u256 ((if n = 0 then 0 else wrap_u256 (n - 1)) + num_games) \<le> (if m = 0 then 0 else wrap_u256 (m - 1))"
      using challenger_test_Ok [OF pass] by blast
    have "4 \<le> m" if "n = 0"
      using m(2) idx(1) [OF counts [OF ge(1) m(1)]] that
      by (auto simp: num_games_def wrap_u256_def split: if_splits)
    moreover have "seen_at ge (n - 1) Challenged" if "n \<noteq> 0"
      using bspec [OF seen, of 0] idx(2) [OF counts [OF ge] that] that by simp
    ultimately show ?thesis using ge m(1) by metis
  qed
  show "\<exists>ge n. factory_of ee env ge \<and> ge_game_count ge (tick s) = Inr n \<and> (n \<noteq> 0 \<longrightarrow> seen_at ge (n - 1) Resolved)"
    if pass: "test_e2e_proposer_wins ee env s = (Ok (), s')"
  proof -
    obtain ge n where ge: "factory_of ee env ge" "ge_game_count ge (tick s) = Inr n"
      and seen: "\<forall>k \<in> {0, 1, 2}. seen_at ge (wrap_u256 ((if n = 0 then 0 else wrap_u256 (n - 1)) + k)) Resolved"
      using proposer_test_Ok [OF pass] by blast
    have "seen_at ge (n - 1) Resolved" if "n \<noteq> 0"
      using bspec [OF seen, of 0] idx(2) [OF counts [OF ge] that] that by simp
    then show ?thesis using ge by blast
  qed
qed

subsection \<open>A concrete run of the integration test\<close>

definition sample_test_host :: "(fault_state, b256, unit, unit) succinct_host" where
  "sample_test_host =
     \<lparr>host_fetch = (\<lambda>_ _ l1 _. ret (case l1 of None \<Rightarrow> [3] | Some h \<Rightarrow> h)), host_run = (\<lambda>_. ret ()),
      host_sp1_stdin = (\<lambda>_. Inr ()), host_l1_head_hash = Some,
      host_finalized_l2_block = (\<lambda>_. ret (Some 100)), host_safe_l1_head = (\<lambda>_ _. ret [3])\<rparr>"

lemma sample_test_host_ok: "op_succinct_host sample_test_host"
  by unfold_locales (auto simp: sample_test_host_def ret_def andThen_def intro: tick_only_basic [unfolded ret_def])

definition sample_test_env :: environment where
  "sample_test_env =
     [''PRIVATE_KEY'' \<mapsto> ''key'', ''L1_RPC'' \<mapsto> ''l1'', ''L1_BEACON_RPC'' \<mapsto> ''b'', ''L2_RPC'' \<mapsto> ''l2'', ''L2_NODE_RPC'' \<mapsto> ''n'',
      ''FACTORY_ADDRESS'' \<mapsto> ''f'', ''GAME_TYPE'' \<mapsto> ''42'', ''PROPOSAL_INTERVAL_IN_BLOCKS'' \<mapsto> ''20'']"

text \<open>One valid game, at the address that new games get, with the status of a defended game.\<close>

definition sample_test_games :: "game_view list" where
  "sample_test_games =
     [sample_game 50 20 [20] u32_max ChallengedAndValidProofProvided 40 IN_PROGRESS]"

definition sample_fault_service :: "(b256, unit, unit, int) fault_service" where
  "sample_fault_service =
     \<lparr>fv_parsers = sample_parsers, fv_post = sample_post, fv_fs = sample_fs, fv_rollup = sample_rollup_lib,
      fv_games = (\<lambda>_ _ _ _. view_env sample_l2 sample_test_games), fv_host = (\<lambda>_. sample_test_host),
      fv_sp1 = (\<lambda>_. sample_sp1), fv_prove = (\<lambda>_ _ _. Inr \<lparr>pv_proof = Compressed [1], public_values = [2]\<rparr>),
      fv_new_fetcher = (\<lambda>_. Inr ()), fv_range_vk = [1]\<rparr>"

abbreviation sample_test_start :: fault_process where
  "sample_test_start \<equiv> fault_state.extend (sample_fault_state []) (fault_process.fields Map.empty)"

lemma sample_test_settings:
  "\<exists>c. fault_proposer_from_env sample_parsers sample_test_env = Ok c \<and> fc_game_type c = 42
     \<and> fc_proposal_interval_in_blocks c = 20 \<and> \<not> fc_fast_finality_mode c \<and> \<not> fc_mock_mode c"
  by (simp add: fault_proposer_from_env_def env_expect_def env_parse_def parse_or_err_def sample_test_env_def
      sample_parsers_def unwrap_def parse_u64_def parse_u32_def parse_u16_def parse_unsigned_def parse_bool_def
      digit_def u64_max_def u32_max_def Let_def)

lemma sample_test_disk:
  "\<exists>fetcher s. on_fault_disk (new_with_rollup_config sample_parsers sample_test_env sample_post sample_fs
     sample_rollup_lib) sample_test_start = (Ok fetcher, s) \<and> sent s = [] \<and> fault_tasks s = []"
  by (simp add: on_fault_disk_def new_with_rollup_config_def fetch_and_save_rollup_config_def fetch_rpc_data_def
      rpc_result_def andThen_def lift_def ret_def call_def Let_def get_rpcs_def sample_test_env_def
      sample_post_def sample_fs_def sample_rollup_lib_def sample_parsers_def json_index_def
      write_file_def update_def is_u64_def u64_max_def unwrap_def fault_state.defs fault_process.defs)

lemma sample_root_at:
  "n \<le> u64_max \<Longrightarrow> compute_output_root_at_block (view_env sample_l2 sample_test_games) n s =
     (Ok [word_of_int n], s\<lparr>tick := Suc (Suc (tick s))\<rparr>)"
  by (simp add: compute_output_root_at_block_def get_l2_block_by_number_def andThen_def call_def lift_def ret_def
      u256_to_u64_def view_env_def view_rpc_def sample_l2_def encode_l2_output_def)

lemma sample_contracts_answer:
  "ge_game_count (view_env sample_l2 sample_test_games) t = Inr 1"
  "ge_game_at_index (view_env sample_l2 sample_test_games) 0 t = Inr [50]"
  "ge_l2_block_number (view_env sample_l2 sample_test_games) [50] t = Inr 20"
  "ge_root_claim (view_env sample_l2 sample_test_games) [50] t = Inr [20]"
  "ge_l1_head (view_env sample_l2 sample_test_games) [50] t = Inr [3]"
  "ge_game_impls (view_env sample_l2 sample_test_games) gt t = Inr [200]"
  "ge_challenger_bond (view_env sample_l2 sample_test_games) a t = Inr 9"
  "ge_send (view_env sample_l2 sample_test_games) x t = Inr \<lparr>gr_success = True, gr_hash = [7], gr_created = [[50]]\<rparr>"
  "\<exists>claim. ge_claim_data (view_env sample_l2 sample_test_games) [50] t = Inr claim
     \<and> cd_status claim = ChallengedAndValidProofProvided"
  by (simp_all add: view_env_def find_game_def sample_test_games_def)

lemma sample_creation:
  assumes p: "fp_env p = view_env sample_l2 sample_test_games" "fp_host p = sample_test_host"
    "fc_proposal_interval_in_blocks (fp_config p) = 20" "\<not> fc_fast_finality_mode (fp_config p)"
  shows "\<exists>s'. handle_game_creation p s = (Ok (Some [50]), s')"
  by (simp add: handle_game_creation_def proposal_target_def get_latest_valid_proposal_def fetch_latest_game_index_def
      latest_valid_loop.simps fetch_game_address_by_index_def finalized_after_def create_game_def send_game_tx_def
      andThen_def call_def ret_def lift_def update_def Let_def p sample_contracts_answer
      sample_root_at [unfolded u64_max_def] wrap_u256_def u256_to_u32_def u32_max_def u256_to_u64_def u64_max_def
      sample_test_host_def)

lemma andThen_step: "m s = (Inr x, s') \<Longrightarrow> andThen m f s = f x s'"
  by (simp add: andThen_def)

lemma sample_headers_found:
  assumes "l1Head b = [3]"
  shows "\<exists>headers s'. get_header_preimages (ge_rpc (view_env sample_l2 sample_test_games)) [b] [3] s = (Ok headers, s')"
  by (simp add: assms get_header_preimages_def get_earliest_l1_head_in_batch_def fetch_headers_in_range_def
      get_l1_header_def get_header_def view_env_def view_rpc_def sample_block_def sample_number attempt_def onErr_def
      andThen_def call_def ret_def lift_def unwrap_def u64_max_def upto.simps)

lemma sample_defence:
  assumes p: "fp_env p = view_env sample_l2 sample_test_games" "fp_host p = sample_test_host"
    "fc_proposal_interval_in_blocks (fp_config p) = 20" "\<not> fc_mock_mode (fp_config p)" "fp_sp1 p = sample_sp1"
    "\<And>job t. fp_prove p job t = Inr \<lparr>pv_proof = Compressed [1], public_values = [2]\<rparr>"
    "\<And>t. fp_new_fetcher p t = Inr ()"
  shows "\<exists>h s'. prove_game p [50] s = (Ok h, s')"
proof -
  let ?boot = "\<lparr>l1Head = [3], l2PreRoot = [], l2PostRoot = [], l2BlockNumber = 5, rollupConfigHash = []\<rparr>"
  have headers: "\<exists>headers s'. get_header_preimages (ge_rpc (view_env sample_l2 sample_test_games)) [?boot] [3] s
      = (Ok headers, s')" for s :: fault_state
    by (rule sample_headers_found) simp
  have agg: "\<exists>stdin s'. aggregation_stdin_of_range p \<lparr>pv_proof = Compressed [1], public_values = [2]\<rparr> s
      = (Ok stdin, s')" for s
    using headers [of s]
    by (auto simp: aggregation_stdin_of_range_def rephrase_def onErr_def andThen_def ret_def lift_def p
      sample_sp1_def unwrap_def get_agg_proof_stdin_def)
  have range: "\<exists>s'. range_stdin_of_game p [50] s = (Ok (RangeStdin ()), s')" for s
    by (simp add: range_stdin_of_game_def andThen_def call_def ret_def lift_def p sample_contracts_answer
      u256_to_u64_def u64_max_def sample_test_host_def)
  let ?proof = "\<lparr>pv_proof = Compressed [1], public_values = [2]\<rparr>"
  obtain s1 where 1: "rephrase (Msg ''Failed to create data fetcher'') (call (fp_new_fetcher p)) s = (Ok (), s1)"
    by (simp add: call_def p)
  obtain s2 where 2: "range_stdin_of_game p [50] s1 = (Ok (RangeStdin ()), s2)" using range by blast
  obtain s3 where 3: "prove_range p (RangeStdin ()) s2 = (Ok ?proof, s3)"
    by (simp add: prove_range_def call_def p)
  obtain stdin s4 where 4: "aggregation_stdin_of_range p ?proof s3 = (Ok stdin, s4)" using agg by blast
  obtain s5 where 5: "prove_aggregation p stdin s4 = (Ok ?proof, s5)"
    by (simp add: prove_aggregation_def call_def p)
  obtain r s6 where 6: "send_game_tx (fp_env p) (ProveGame [50] [9]) s5 = (Ok r, s6)"
    by (simp add: send_game_tx_def andThen_def update_def call_def p(1) sample_contracts_answer)
  have "onchain_bytes (fp_sp1 p) ?proof = Some [9]" by (simp add: p sample_sp1_def)
  then show ?thesis
    by (simp add: prove_game_def andThen_step 1 2 3 4 5 6 lift_def unwrap_def ret_def del: rephrase_Ok)
qed

lemma sample_create_challenge_defend:
  assumes p: "fp_env p = view_env sample_l2 sample_test_games" "fp_host p = sample_test_host"
    "fc_proposal_interval_in_blocks (fp_config p) = 20" "\<not> fc_fast_finality_mode (fp_config p)"
    "\<not> fc_mock_mode (fp_config p)" "fp_sp1 p = sample_sp1"
    "\<And>job t. fp_prove p job t = Inr \<lparr>pv_proof = Compressed [1], public_values = [2]\<rparr>"
    "\<And>t. fp_new_fetcher p t = Inr ()"
  shows "\<exists>s'. create_challenge_defend (\<lambda>_ _ _. Inr ()) p s = (Ok (), s')"
proof -
  obtain s1 where 1: "handle_game_creation p s = (Ok (Some [50]), s1)" using sample_creation [OF p(1-4)] by blast
  obtain s2 where 2: "fetch_challenger_bond (fp_env p) (fc_game_type (fp_config p)) s1 = (Ok 9, s2)"
    by (simp add: fetch_challenger_bond_def andThen_def call_def p(1) sample_contracts_answer)
  obtain h s3 where 3: "challenge_valid_game (\<lambda>_ _ _. Inr ()) (fp_env p) [50] 9 s2 = (Ok h, s3)"
    by (simp add: challenge_valid_game_def rephrase_def onErr_def send_game_tx_def update_def andThen_def call_def
        ret_def p(1) sample_contracts_answer)
  obtain h' s4 where 4: "prove_game p [50] s3 = (Ok h', s4)"
    using sample_defence [OF p(1-3,5-8)] by blast
  show ?thesis
    using sample_contracts_answer(9) [of "tick s4"]
    by (auto simp: create_challenge_defend_def andThen_step lift_def unwrap_def 1 2 [unfolded p(1)]
        3 [unfolded p(1)] 4 call_def p(1) ensure_def)
qed

subsection \<open>Property\<close>

text \<open>C40. A passed integration test means a defended game. If the test of
  \<open>fault-proof/tests/integration.rs\<close> returns without an error, it sent exactly three transactions, for the
  contracts of the configured factory: the creation of a game with the bond that the factory asks for,
  a challenge with the challenger bond of the implementation, and a proof. The last two are for the
  game whose address the receipt of the creation announced first, and that game was seen as
  challenged with a valid proof provided.\<close>

theorem passed_test_defends_created_game:
  assumes "\<forall>f. op_succinct_host (fv_host fv f)"
    and "test_proposer_defends_successfully fv submit env s = (Ok (), s')"
  shows "\<exists>sg factory c game txs.
    test_signer (fv_parsers fv) env = Ok sg
    \<and> env_must env (ps_address (fv_parsers fv)) ''FACTORY_ADDRESS'' = Ok factory
    \<and> fault_proposer_from_env (fv_parsers fv) env = Ok c
    \<and> sent s' = sent s @ txs
    \<and> defended_game (fv_games fv sg (fs_l1_rpc c) (fs_l2_rpc c) factory) (fc_game_type c) game txs"
  by (rule integration_test_Ok [OF assms])

theorem passed_test_defends_created_game_witness:
  "\<exists>s' game txs. test_proposer_defends_successfully sample_fault_service (\<lambda>_ _ _. Inr ()) sample_test_env
       sample_test_start = (Ok (), s')
     \<and> sent s' = txs \<and> defended_game (view_env sample_l2 sample_test_games) 42 game txs"
proof -
  obtain c where c: "fault_proposer_from_env sample_parsers sample_test_env = Ok c" "fc_game_type c = 42"
      "fc_proposal_interval_in_blocks c = 20" "\<not> fc_fast_finality_mode c" "\<not> fc_mock_mode c"
    using sample_test_settings by blast
  obtain fetcher s1 where disk: "on_fault_disk (new_with_rollup_config sample_parsers sample_test_env sample_post
      sample_fs sample_rollup_lib) sample_test_start = (Ok fetcher, s1)" "sent s1 = []"
    using sample_test_disk by blast
  let ?p = "\<lparr>fp_config = fault_proposer_config.truncate c, fp_env = view_env sample_l2 sample_test_games,
    fp_host = sample_test_host, fp_sp1 = sample_sp1,
    fp_prove = (\<lambda>_ _. Inr \<lparr>pv_proof = Compressed [1], public_values = [2]\<rparr>), fp_new_fetcher = (\<lambda>_. Inr ()),
    fp_range_vk = [1], fp_prover_address = replicate 20 7, fp_init_bond = 8\<rparr>"
  obtain s2 where new: "in_process (fault_proposer_of sample_fault_service sample_test_env (LocalSigner (replicate 20 7))
      (replicate 20 7) (replicate 20 1) fetcher) s1 = (Ok ?p, s2)"
    by (simp add: in_process_def fault_proposer_of_def sample_fault_service_def c(1) lift_def andThen_def
        fault_proposer_new_def fetch_init_bond_def call_def ret_def update_def view_env_def)
  obtain t where "create_challenge_defend (\<lambda>_ _ _. Inr ()) ?p (fault_state.truncate s2) = (Ok (), t)"
    using sample_create_challenge_defend [of ?p] by (auto simp: fault_proposer_config.defs c(3-5))
  then obtain s3 where body: "in_process (create_challenge_defend (\<lambda>_ _ _. Inr ()) ?p) s2 = (Ok (), s3)"
    by (simp add: in_process_def)
  have run: "test_proposer_defends_successfully sample_fault_service (\<lambda>_ _ _. Inr ()) sample_test_env
      sample_test_start = (Ok (), s3)"
    using disk(1) new body
    by (simp add: test_proposer_defends_successfully_def sample_fault_service_def test_signer_def env_must_def
        prover_address_from_env_def sample_test_env_def sample_parsers_def unwrap_def andThen_def lift_def
        unwrapping_def onErr_def Let_def ret_def)
  have hosts: "\<forall>f. op_succinct_host (fv_host sample_fault_service f)"
    by (simp add: sample_fault_service_def sample_test_host_ok)
  show ?thesis
    using passed_test_defends_created_game [OF hosts run] run c
    by (auto simp: sample_fault_service_def fault_state.defs fault_process.defs)
qed

end
