(* ===== verification/UnitTests.thy ===== *)
theory UnitTests
  imports RangeUtils
begin

text \<open>
  The unit tests of \<open>validity/src/utils.rs\<close>, as tables of arguments and expected results, run on the
  definitions of RangeUtils. Both functions pass all of them.
\<close>

definition test_find_gaps :: "int \<Rightarrow> int \<Rightarrow> range list \<Rightarrow> range list \<Rightarrow> bool" where
  "test_find_gaps overall_start overall_end ranges expected \<longleftrightarrow>
     find_gaps overall_start overall_end ranges = expected"

definition find_gaps_tests :: "(int \<times> int \<times> range list \<times> range list) list" where
  "find_gaps_tests =
     [(1, 4, [(1, 2), (2, 3), (3, 4)], []),
      (1, 10, [(1, 2), (4, 5), (7, 8)], [(2, 4), (5, 7), (8, 10)]),
      (1, 6, [(3, 4), (5, 6)], [(1, 3), (4, 5)]),
      (1, 5, [(1, 2), (2, 3)], [(3, 5)]),
      (1, 5, [], [(1, 5)]),
      (1, 5, [(2, 4)], [(1, 2), (4, 5)])]"

definition test_get_ranges_to_prove :: "range list \<Rightarrow> int \<Rightarrow> range list \<Rightarrow> bool" where
  "test_get_ranges_to_prove disjoint_ranges range_proof_interval expected \<longleftrightarrow>
     get_ranges_to_prove disjoint_ranges range_proof_interval = Some expected"

definition get_ranges_to_prove_tests :: "(range list \<times> int \<times> range list) list" where
  "get_ranges_to_prove_tests =
     [([(0, 50), (100, 200), (200, 210)], 25,
         [(0, 25), (25, 50), (100, 125), (125, 150), (150, 175), (175, 200)]),
      ([(0, 30), (40, 70)], 10, [(0, 10), (10, 20), (20, 30), (40, 50), (50, 60), (60, 70)]),
      ([(0, 100)], 20, [(0, 20), (20, 40), (40, 60), (60, 80), (80, 100)]),
      ([(0, 15), (20, 35)], 5, [(0, 5), (5, 10), (10, 15), (20, 25), (25, 30), (30, 35)]),
      ([(0, 5), (10, 15), (20, 25)], 3, [(0, 3), (3, 5), (10, 13), (13, 15), (20, 23)]),
      ([(0, 5), (10, 15), (20, 25)], 30, [(0, 5), (10, 15)])]"

lemma find_gaps_tests_pass: "list_all (\<lambda>(s, e, rs, expected). test_find_gaps s e rs expected) find_gaps_tests"
  by (simp add: find_gaps_tests_def test_find_gaps_def find_gaps_def)

lemma get_ranges_to_prove_tests_pass:
  "list_all (\<lambda>(rs, m, expected). test_get_ranges_to_prove rs m expected) get_ranges_to_prove_tests"
  by (simp add: get_ranges_to_prove_tests_def test_get_ranges_to_prove_def get_ranges_to_prove_def
      chunk_loop.simps wrap_i64_def drop_short_tail_def Let_def)

end
