(* ===== verification/Spec2Isabelle.thy ===== *)
theory Spec2Isabelle
  imports Prelude RangeUtils Boot Fetcher Host DbTypes DbClient ProofRequester Proposer ProposerSafety ProposerProps
    FaultFactory FaultGames FaultProposer FaultProposerProps Challenger Celestia BlockRange Witness Derivation
    Aggregation Programs Stats Settings Booking Precompiles JsonRpc Deployment CostEstimator
    BlockData Scripts OracleCode WitnessGeneration Startup Report CycleDiff Metrics Messages
    ServiceTests UnitTests
begin

text \<open>
  Verification of op-succinct, the proving services of the OP stack in \<open>src/op-succinct\<close>, as the
  repository uses them for an L2 whose state proofs are checked on Mina.

  \<^bold>\<open>The program.\<close> Three parts work together. (1) Two zkVM programs. The range program
  (\<open>programs/range\<close>, \<open>utils/client\<close>) derives and executes a range of L2 blocks from a witness and
  commits to the range; the aggregation program (\<open>programs/aggregation\<close>) verifies range proofs that
  follow one another and commits to the whole. (2) The host (\<open>utils/host\<close>, \<open>utils/ethereum\<close>,
  \<open>utils/celestia\<close>) finds the L1 block a range can be derived from, records the witness and provides
  the headers and block ranges. (3) Two services use both. The validity service (\<open>validity\<close>) keeps
  proof requests in a database and takes each from witness generation to the relayed aggregation
  proof; the fault proof service (\<open>fault-proof\<close>) creates, defends and resolves dispute games on L1,
  and its challenger challenges wrong ones.

  \<^bold>\<open>Theories.\<close>
  \<^item> Prelude: integers of fixed width, results, operations on a state with their preservation and
    pre/post rules, calls to the outside world, tilings of block ranges.
  \<^item> RangeUtils (\<open>validity/src/utils.rs\<close>): gaps and chunks; the locale \<open>range_splitter\<close> of a split
    into bounded chunks, which BlockRange interprets again. UnitTests: the tests of the module, passed.
  \<^item> Boot (\<open>utils/client/src/boot.rs\<close>, \<open>types.rs\<close>): public values of the programs.
  \<^item> Fetcher (\<open>utils/host/src/fetcher.rs\<close>): reads of L1 and L2, the two binary searches, header
    preimages, the L1 head. Host (\<open>utils/host/src/host.rs\<close>, \<open>utils/ethereum/host/src/host.rs\<close>): the host
    trait, its contract \<open>op_succinct_host\<close> and the Ethereum instance. Celestia
    (\<open>utils/celestia/host\<close>): the Celestia instance with its two searches. BlockRange
    (\<open>utils/host/src/block_range.rs\<close>): ranges of the scripts. JsonRpc (\<open>fetcher.rs\<close>, \<open>validity/src/db\<close> and the
    scripts' files): JSON values, numbers as text, the JSON-RPC calls and the set-up of the fetcher.
  \<^item> Stats, Report (\<open>utils/host/src/stats.rs\<close>): execution statistics and their printed tables.
    CostEstimator (\<open>scripts/utils/bin/cost_estimator.rs\<close>): host runs, parallel executions, the report
    file. BlockData (\<open>scripts/utils/bin/block_data.rs\<close>). Scripts (\<open>scripts/prove\<close> and the other binaries
    of \<open>scripts/utils\<close>). CycleDiff (\<open>scripts/prove/tests\<close>): the comparison of two branches that the CI
    posts. Deployment (\<open>fetch_l2oo_config.rs\<close>, \<open>fetch_fault_dispute_game_config.rs\<close> and their library):
    what the deployment scripts write for the contracts, and what the Solidity deployer
    (\<open>contracts/test/helpers/Utils.sol\<close>, \<open>initialize\<close> of the oracle) makes of it.
  \<^item> Witness (\<open>utils/client/src/witness\<close>, \<open>oracle/blob_provider.rs\<close>, \<open>utils/host/src/witness_generation\<close>):
    recording and checking of preimages and blobs. Derivation (\<open>client.rs\<close>, \<open>witness/executor.rs\<close>,
    \<open>programs/range\<close>): the derivation loop and the range program. OracleCode: the same functions as they
    run on the host, over one shared recording oracle. WitnessGeneration: the witness generator, and its
    simulation by the range program; the executors of both data sources. Precompiles
    (\<open>utils/client/src/precompiles\<close>): the provider whose precompiles are annotated and accelerated.
    Aggregation (\<open>programs/aggregation/src/main.rs\<close>). Programs: the two programs together.
  \<^item> DbTypes, DbClient (\<open>validity/src/db\<close>): rows, statements and queries; the locale \<open>row_update\<close> of an
    update by identifier with eight interpretations. ProofRequester (\<open>validity/src/proof_requester.rs\<close>).
    Proposer (\<open>validity/src/proposer.rs\<close>): every method, and the step relations \<open>background_step\<close> and
    \<open>proposer_step\<close> of turns, tasks and restarts. Booking: the book of reserved ranges that the proposer
    refines. ProposerSafety: its main invariant. ProposerProps: the behaviour of its methods. Messages
    (\<open>validity/src/types.rs\<close>): the JSON messages of the proof server.
  \<^item> FaultFactory (\<open>fault-proof/src/lib.rs\<close>), FaultGames: the games on L1 and what the searches find; the
    locale \<open>bond_claimer\<close>. FaultProposer (\<open>fault-proof/src/proposer.rs\<close>) with the step relation
    \<open>fault_step\<close>, FaultProposerProps, and Challenger (\<open>fault-proof/bin/challenger.rs\<close>) with \<open>challenge()\<close> of the game contract. ServiceTests
    (\<open>fault-proof/tests\<close>): the integration test and the end-to-end tests.
  \<^item> Settings (\<open>validity/src/env.rs\<close>, \<open>fault-proof/src/config.rs\<close>, \<open>utils/signer\<close>): what the services read
    from the process environment. Startup (\<open>validity/bin\<close>, \<open>fault-proof/bin\<close>, \<open>utils/proof\<close>): the main
    functions, and the life of the validity service over its restarts. Metrics
    (\<open>utils/host/src/metrics.rs\<close> and the gauges of the services): the locale \<open>metrics_gauge\<close> with its
    three instances.

  \<^bold>\<open>Correspondence.\<close> A method of the code is one definition with its name (with a prefix where two
  methods share one), its early returns are branches of a result type: \<open>Err e\<close> is a returned error,
  \<open>Panic\<close> an \<open>unwrap\<close>, \<open>expect\<close>, \<open>assert!\<close> or failed index, \<open>Diverged\<close> a loop that does not end. State is
  passed explicitly: the proof requests, locks, gauges and task map of the validity proposer
  (\<open>proposer_state\<close>), the task map and gauges of the fault proposer (\<open>fault_state\<close>), the transactions sent
  so far. Nodes, contracts, databases, provers and clocks answer through environment records, indexed
  by the number of calls made before (\<open>tick\<close>), so that two equal questions may get different answers;
  a property that needs stable answers says so (\<open>stable_chain\<close>, \<open>stable_games\<close>, \<open>stable_logs\<close>). Third-party
  code (kona, the SP1 SDK, KZG, hash functions, alloy) consists of fields of these records. Integers are
  \<open>int\<close> in the range of their type; arithmetic that can leave it goes through \<open>wrap_u64\<close> and its kin, as
  in a release build.

  \<^bold>\<open>What the lemmas show.\<close>
  \<^item> Soundness of the proofs: what the range program commits is derived block by block from its
    pre-root, the aggregation composes such ranges, and the recorded witness of a run of the host's
    generator makes the range program commit the result of this run. The program reads no preimage
    that has not the hash it is asked for by; the verdict on the blobs is dropped by the code.
  \<^item> The validity proposer: active ranges never overlap, whatever fails, on prompt runs: those in
    which a spawned task takes its first step before the next turn (without this the code lets two tasks
    work on one request); identifiers are unique, inserts are atomic; gaps are found and cut exactly; an
    aggregation is created when due, is proved from exactly the complete ranges that tile it, and is
    relayed only after a successful transaction; limits on concurrent requests hold; exactly the requests
    without a task are failed as orphans.
  \<^item> The fault proof service: its searches compute their reference functions; one task of each kind;
    the created game is the next proposal; every challenge of an honest, whitelisted challenger that is
    executed in time is accepted by the contract and leaves one wrong open game less, none after
    enough of them; bonds are claimed only when claimable.
  \<^item> The host: every search returns the first or highest block with its property and ends; splits
    tile their range.
  \<^item> The services as started: whatever the settings, and over any number of starts that follow one another
    (with a nonzero range interval and prompt runs), the reservations of the validity service do not
    overlap. The contract that is deployed from the file of the script accepts exactly the proposers
    with the same programs and rollup configuration.
  \<^item> The scripts: work given to parallel workers comes back complete or as a parse error; the cost
    estimator reports on exactly the blocks it was asked for; the aggregation program accepts the inputs
    of the aggregation script; the numbers that the CI compares were measured on the same blocks.
  \<^item> Where the code does not do what it says, the lemma states what it does: the status of receipts in
    the fault proof service, the race for the chain lock, targets before genesis, a claimed number
    above the derived block, the games that the end-to-end tests look at.

  \<^bold>\<open>Loops.\<close> A loop that could run for ever is a \<open>partial_function\<close> with value \<open>None\<close> for not returning, and its
  properties state that it returns: the binary searches (the interval shrinks), the splits (positive chunk
  size), the Blobstream scan (the start grows), and the derivation (a finite source of payloads). There is
  fuel in two places. That of \<open>run_collecting\<close> and \<open>run_replaying\<close> in Witness is the number of questions of a
  client; the property starts from a recorded run that has ended, and the replay ends with the same fuel.
  That of \<open>advance_code\<close> in OracleCode is the number of iterations of the derivation loop on the host; the
  property holds for every fuel with which the generator returned, and the derivation loop of the
  program, which has none, then ends as well.

  \<^bold>\<open>Not modelled.\<close> Of the Solidity contracts only \<open>challenge()\<close> and the way of the deployment file into the
  configuration of the contract are modelled. The o1js verifier on Mina, the proof conversion service and the
  web client are not Rust. The contract bindings that \<open>sol!\<close> generates, the embedded programs and their
  build, the set-up of logging and of the HTTP server of the metrics, the crypto provider and the tracking
  of cycles only call libraries or are data. \<open>SuccinctProposerConfig\<close> is used nowhere. Real numbers stand for \<open>f64\<close>: rounding and the
  formats of floats are not modelled, nor the grouping of digits by \<open>num_format\<close>. Within the modelled services, the work of one spawned task of the
  fault proof proposer is one step, and concurrent requests of a single method (buffered streams) are made
  one after the other.
\<close>

subsection \<open>Bonds\<close>

text \<open>C24. The proposer and the challenger claim a bond only from a game that they have seen resolved,
  finalized and with credit left for them: a call of either handler sends nothing, or exactly one
  \<open>claimCredit\<close> transaction, for their own address, to such a game. This holds for all answers of
  the contracts, also when the games change between the reads.\<close>

theorem bonds_claimed_only_when_claimable:
  assumes "fault_handle_bond_claiming p s = (r, s')" and "challenger_handle_bond_claiming c t = (q, t')"
  shows "(sent s' = sent s \<and> r \<noteq> Ok Performed \<or>
      (\<exists>game. sent s' = sent s @ [ClaimCredit game (fp_prover_address p)] \<and>
         seen_claimable (fp_env p) (fc_game_type (fp_config p)) game (fp_prover_address p))) \<and>
    (sent t' = sent t \<and> q \<noteq> Ok Performed \<or>
      (\<exists>game. sent t' = sent t @ [ClaimCredit game (ch_address c)] \<and>
         seen_claimable (ch_env c) (cc_game_type (ch_config c)) game (ch_address c)))"
  using proposer_bonds.claims_only_claimable [OF assms(1)]
    challenger_bonds.claims_only_claimable [OF assms(2)] by blast

theorem bonds_claimed_only_when_claimable_witness:
  "\<exists>r s'. fault_handle_bond_claiming sample_fault_proposer (sample_fault_state []) = (r, s') \<and>
     (r \<noteq> Ok Performed \<or> (\<exists>game. sent s' = [ClaimCredit game [9]]))"
proof -
  obtain r s' where p: "fault_handle_bond_claiming sample_fault_proposer (sample_fault_state []) = (r, s')"
    by fastforce
  obtain q t' where c: "challenger_handle_bond_claiming sample_challenger sample_fault_world = (q, t')"
    by fastforce
  have "fp_prover_address sample_fault_proposer = [9]" by (simp add: sample_fault_proposer_def)
  then show ?thesis
    using bonds_claimed_only_when_claimable [OF p c] p by auto
qed

end
